(* ===== verification/KB_Prelude.thy ===== *)
theory KB_Prelude
  imports Main
begin

text \<open>
  Prelude of the development: the names of the model's base types, the result
  type that carries raised exceptions, database tables as lists of rows with the
  statements the services issue against them (\<open>SELECT ... WHERE\<close>,
  \<open>UPDATE ... WHERE\<close>, \<open>INSERT\<close>), and the lemmas every component shares.

  A raised \<open>ApiError\<close> is an \<open>Inl\<close> value. A request handler runs in one
  database transaction, so a handler that raises leaves no trace of its pending
  writes: the models return the new state only in \<open>Inr\<close>, and where the source
  commits before it raises the error carries the committed state explicitly.
\<close>

section \<open>Base types\<close>

text \<open>
  UUIDs are natural numbers: the program uses them only through equality and, in
  \<open>ORDER BY\<close>, through their order. Timestamps are microseconds since the epoch
  (UTC), as exact as the \<open>TIMESTAMP WITH TIME ZONE\<close> columns that store them.
\<close>

type_synonym uuid = nat
type_synonym timestamp = int
type_synonym unicode = "nat list"

definition seconds :: "int \<Rightarrow> timestamp" where
  "seconds n = n * 1000000"

definition day_length :: timestamp where
  "day_length = 86400 * 1000000"

section \<open>Named collections\<close>

named_theorems result_simps \<open>elimination of bind and ensure in assumptions\<close>
named_theorems table_simps \<open>selection and update of table rows\<close>

section \<open>API errors\<close>

text \<open>
  An \<open>ApiError\<close> (\<open>src/app/api/errors.py\<close>) is its HTTP status and its machine-readable
  code. Its message and headers are text for the client that no code branches on.
\<close>

datatype api_error = ApiError (status_code: nat) (error_code: string)

section \<open>Results: raised errors as values\<close>

definition bind_r :: "'e + 'a \<Rightarrow> ('a \<Rightarrow> 'e + 'b) \<Rightarrow> 'e + 'b" where
  "bind_r m f = (case m of Inl e \<Rightarrow> Inl e | Inr x \<Rightarrow> f x)"

definition ensure :: "bool \<Rightarrow> 'e \<Rightarrow> 'e + unit" where
  "ensure c e = (if c then Inr () else Inl e)"

definition is_ok :: "'e + 'a \<Rightarrow> bool" where
  "is_ok r = (case r of Inl _ \<Rightarrow> False | Inr _ \<Rightarrow> True)"

lemma bind_r_Inl [simp]: "bind_r (Inl e) f = Inl e"
  by (simp add: bind_r_def)

lemma bind_r_Inr [simp]: "bind_r (Inr x) f = f x"
  by (simp add: bind_r_def)

lemma is_ok_simps [simp]: "is_ok (Inr x)" "\<not> is_ok (Inl e)"
  by (simp_all add: is_ok_def)

lemma is_ok_iff: "is_ok r \<longleftrightarrow> (\<exists>x. r = Inr x)"
  by (cases r) simp_all

lemma bind_r_eq_Inr [result_simps]:
  "bind_r m f = Inr y \<longleftrightarrow> (\<exists>x. m = Inr x \<and> f x = Inr y)"
  by (cases m) auto

lemma bind_r_eq_Inl [result_simps]:
  "bind_r m f = Inl e \<longleftrightarrow> m = Inl e \<or> (\<exists>x. m = Inr x \<and> f x = Inl e)"
  by (cases m) auto

lemma ensure_eq_Inr [result_simps]: "ensure c e = Inr u \<longleftrightarrow> c"
  by (cases u) (simp add: ensure_def)

lemma ensure_eq_Inl [result_simps]: "ensure c e = Inl e' \<longleftrightarrow> \<not> c \<and> e' = e"
  by (auto simp: ensure_def)

lemma ensure_simps [simp]: "ensure True e = Inr ()" "ensure False e = Inl e"
  by (simp_all add: ensure_def)

lemma bind_r_assoc: "bind_r (bind_r m f) g = bind_r m (\<lambda>x. bind_r (f x) g)"
  by (cases m) simp_all

lemma bind_r_cong [fundef_cong]:
  "m = m' \<Longrightarrow> (\<And>x. m' = Inr x \<Longrightarrow> f x = g x) \<Longrightarrow> bind_r m f = bind_r m' g"
  by (cases m') simp_all

text \<open>Errors of a callee as errors of the caller.\<close>

definition map_error :: "('e \<Rightarrow> 'f) \<Rightarrow> 'e + 'a \<Rightarrow> 'f + 'a" where
  "map_error f m = (case m of Inl e \<Rightarrow> Inl (f e) | Inr x \<Rightarrow> Inr x)"

lemma map_error_simps [simp]: "map_error f (Inl e) = Inl (f e)" "map_error f (Inr x) = Inr x"
  by (simp_all add: map_error_def)

lemma map_error_eq_Inr [result_simps]: "map_error f m = Inr x \<longleftrightarrow> m = Inr x"
  by (cases m) simp_all

lemma map_error_eq_Inl [result_simps]: "map_error f m = Inl e \<longleftrightarrow> (\<exists>e'. m = Inl e' \<and> e = f e')"
  by (cases m) auto

text \<open>A loop that may raise: the first error stops it, as an exception would.\<close>

fun fold_r :: "('s \<Rightarrow> 'x \<Rightarrow> 'e + 's) \<Rightarrow> 's \<Rightarrow> 'x list \<Rightarrow> 'e + 's" where
  "fold_r f s [] = Inr s"
| "fold_r f s (x # xs) = bind_r (f s x) (\<lambda>s'. fold_r f s' xs)"

lemma fold_r_invariant:
  assumes "fold_r f s xs = Inr s'" and "P s"
    and "\<And>s x t. x \<in> set xs \<Longrightarrow> P s \<Longrightarrow> f s x = Inr t \<Longrightarrow> P t"
  shows "P s'"
  using assms
proof (induction xs arbitrary: s)
  case Nil
  then show ?case by simp
next
  case (Cons x xs)
  from Cons.prems(1) obtain t where t: "f s x = Inr t" "fold_r f t xs = Inr s'"
    by (auto simp: result_simps)
  have "P t" using Cons.prems(2) Cons.prems(3)[of x s t] t(1) by simp
  with t(2) Cons.prems(3) show ?case by (intro Cons.IH[of t]) auto
qed

lemma fold_r_append:
  "fold_r f s (xs @ ys) = bind_r (fold_r f s xs) (\<lambda>t. fold_r f t ys)"
  by (induction xs arbitrary: s) (simp_all add: bind_r_assoc)

section \<open>Tables as lists of rows\<close>

definition update_where :: "('r \<Rightarrow> bool) \<Rightarrow> ('r \<Rightarrow> 'r) \<Rightarrow> 'r list \<Rightarrow> 'r list" where
  "update_where p f rows = map (\<lambda>r. if p r then f r else r) rows"

lemma update_where_simps [simp]:
  "update_where p f [] = []"
  "update_where p f (r # rs) = (if p r then f r else r) # update_where p f rs"
  by (simp_all add: update_where_def)

lemma update_where_append [table_simps]:
  "update_where p f (xs @ ys) = update_where p f xs @ update_where p f ys"
  by (simp add: update_where_def)

lemma length_update_where [simp]: "length (update_where p f rows) = length rows"
  by (simp add: update_where_def)

lemma set_update_where:
  "set (update_where p f rows) = (\<lambda>r. if p r then f r else r) ` set rows"
  by (simp add: update_where_def)

lemma in_update_whereE:
  assumes "r \<in> set (update_where p f rows)"
  obtains r0 where "r0 \<in> set rows" "p r0" "r = f r0" | "r \<in> set rows" "\<not> p r"
  using assms by (auto simp: set_update_where split: if_splits)

lemma update_where_none: "(\<And>r. r \<in> set rows \<Longrightarrow> \<not> p r) \<Longrightarrow> update_where p f rows = rows"
  by (simp add: update_where_def map_idI)

lemma map_update_where_key:
  "(\<And>r. p r \<Longrightarrow> k (f r) = k r) \<Longrightarrow> map k (update_where p f rows) = map k rows"
  by (simp add: update_where_def)

lemma key_image_update_where:
  "(\<And>r. p r \<Longrightarrow> k (f r) = k r) \<Longrightarrow> k ` set (update_where p f rows) = k ` set rows"
  by (metis (mono_tags, lifting) list.set_map map_update_where_key)

lemma filter_update_where_other:
  "(\<And>r. r \<in> set rows \<Longrightarrow> p r \<Longrightarrow> \<not> q r) \<Longrightarrow> (\<And>r. r \<in> set rows \<Longrightarrow> p r \<Longrightarrow> \<not> q (f r)) \<Longrightarrow>
   filter q (update_where p f rows) = filter q rows"
  by (induction rows) auto

lemma find_Some_in_set: "find p xs = Some x \<Longrightarrow> x \<in> set xs \<and> p x"
  by (auto simp: find_Some_iff)

lemma find_update_where_key:
  "(\<And>r. p r \<Longrightarrow> q (f r) = q r) \<Longrightarrow>
   find q (update_where p f rows) = map_option (\<lambda>r. if p r then f r else r) (find q rows)"
  by (induction rows) auto

lemma find_filter: "find p xs = (case filter p xs of [] \<Rightarrow> None | x # _ \<Rightarrow> Some x)"
  by (induction xs) auto

lemma find_append:
  "find p (xs @ ys) = (case find p xs of None \<Rightarrow> find p ys | Some x \<Rightarrow> Some x)"
  by (induction xs) auto

lemma find_ex_iff: "(\<exists>x. find p xs = Some x) \<longleftrightarrow> (\<exists>x \<in> set xs. p x)"
  by (induction xs) auto

text \<open>Rows identified by a key: the primary key of a table is unique.\<close>

definition keyed :: "('r \<Rightarrow> 'k) \<Rightarrow> 'r list \<Rightarrow> bool" where
  "keyed k rows = distinct (map k rows)"

lemma keyed_Nil [simp]: "keyed k []"
  by (simp add: keyed_def)

lemma keyed_Cons [simp]: "keyed k (r # rs) \<longleftrightarrow> k r \<notin> k ` set rs \<and> keyed k rs"
  by (simp add: keyed_def)

lemma keyed_append:
  "keyed k (xs @ ys) \<longleftrightarrow> keyed k xs \<and> keyed k ys \<and> k ` set xs \<inter> k ` set ys = {}"
  by (simp add: keyed_def)

lemma keyed_unique: "keyed k rows \<Longrightarrow> a \<in> set rows \<Longrightarrow> b \<in> set rows \<Longrightarrow> k a = k b \<Longrightarrow> a = b"
  by (auto simp: keyed_def distinct_map inj_on_def)

lemma keyed_update_where:
  "(\<And>r. p r \<Longrightarrow> k (f r) = k r) \<Longrightarrow> keyed k (update_where p f rows) = keyed k rows"
  by (simp add: keyed_def map_update_where_key)

lemma keyed_find: "keyed k rows \<Longrightarrow> r \<in> set rows \<Longrightarrow> find (\<lambda>x. k x = k r) rows = Some r"
  by (induction rows) (auto simp: image_iff)

lemma keyed_filter: "keyed k rows \<Longrightarrow> keyed k (filter p rows)"
  by (simp add: keyed_def distinct_map_filter)

section \<open>Sums over rows\<close>

definition sum_rows :: "('r \<Rightarrow> bool) \<Rightarrow> ('r \<Rightarrow> int) \<Rightarrow> 'r list \<Rightarrow> int" where
  "sum_rows p v rows = sum_list (map v (filter p rows))"

lemma sum_rows_simps [simp]:
  "sum_rows p v [] = 0"
  "sum_rows p v (r # rs) = (if p r then v r else 0) + sum_rows p v rs"
  by (simp_all add: sum_rows_def)

lemma sum_rows_append [simp]: "sum_rows p v (xs @ ys) = sum_rows p v xs + sum_rows p v ys"
  by (simp add: sum_rows_def)

lemma sum_rows_nonneg: "(\<And>r. r \<in> set rows \<Longrightarrow> p r \<Longrightarrow> 0 \<le> v r) \<Longrightarrow> 0 \<le> sum_rows p v rows"
  by (induction rows) (auto intro: add_nonneg_nonneg)

lemma sum_rows_cong:
  "(\<And>r. r \<in> set rows \<Longrightarrow> p r = q r) \<Longrightarrow> (\<And>r. r \<in> set rows \<Longrightarrow> q r \<Longrightarrow> v r = w r) \<Longrightarrow>
   sum_rows p v rows = sum_rows q w rows"
  by (induction rows) auto

lemma sum_rows_none: "(\<And>r. r \<in> set rows \<Longrightarrow> \<not> p r) \<Longrightarrow> sum_rows p v rows = 0"
  by (induction rows) auto

lemma sum_rows_member_le:
  assumes "r \<in> set rows" "p r" "\<And>x. x \<in> set rows \<Longrightarrow> p x \<Longrightarrow> 0 \<le> v x"
  shows "v r \<le> sum_rows p v rows"
  using assms
proof (induction rows)
  case Nil
  then show ?case by simp
next
  case (Cons x xs)
  have "0 \<le> sum_rows p v xs" using Cons.prems by (intro sum_rows_nonneg) auto
  moreover have "r \<noteq> x \<Longrightarrow> v r \<le> sum_rows p v xs" using Cons by auto
  ultimately show ?case using Cons.prems by (cases "r = x") (auto simp: add_increasing)
qed

text \<open>Removing one keyed row from the rows a sum counts lowers the sum by its value.\<close>

lemma sum_rows_update_one:
  assumes "keyed k rows" "r \<in> set rows" "p r" "\<not> p (f r)"
  shows "sum_rows p v (update_where (\<lambda>x. k x = k r) f rows) = sum_rows p v rows - v r"
  using assms
proof (induction rows)
  case Nil
  then show ?case by simp
next
  case (Cons x xs)
  show ?case
  proof (cases "x = r")
    case True
    with Cons.prems have "update_where (\<lambda>y. k y = k r) f xs = xs"
      by (intro update_where_none) (auto simp: image_iff)
    with True Cons.prems show ?thesis by simp
  next
    case False
    with Cons.prems have "k x \<noteq> k r" by (auto simp: image_iff)
    with False Cons show ?thesis by simp
  qed
qed

section \<open>Dictionaries in insertion order\<close>

text \<open>\<open>d[k] = v\<close> on a Python dictionary: overwrite in place, or append a new key.\<close>

fun dict_set :: "'k \<Rightarrow> 'v \<Rightarrow> ('k \<times> 'v) list \<Rightarrow> ('k \<times> 'v) list" where
  "dict_set k v [] = [(k, v)]"
| "dict_set k v ((k', v') # d) = (if k' = k then (k, v) # d else (k', v') # dict_set k v d)"

lemma map_of_dict_set [simp]: "map_of (dict_set k v d) = (map_of d)(k \<mapsto> v)"
  by (induction d) auto

lemma keys_dict_set: "fst ` set (dict_set k v d) = insert k (fst ` set d)"
  by (induction k v d rule: dict_set.induct) (simp_all add: insert_commute)

lemma set_dict_set_subset: "set (dict_set k v d) \<subseteq> insert (k, v) (set d)"
  by (induction k v d rule: dict_set.induct) auto

lemma distinct_dict_set: "distinct (map fst d) \<Longrightarrow> distinct (map fst (dict_set k v d))"
proof (induction d)
  case Nil
  then show ?case by simp
next
  case (Cons kv d)
  then show ?case using keys_dict_set[of k v d] by (cases kv) (auto simp: image_iff)
qed

definition dict_get :: "('k \<times> 'v) list \<Rightarrow> 'k \<Rightarrow> 'v \<Rightarrow> 'v" where
  "dict_get d k dflt = (case map_of d k of None \<Rightarrow> dflt | Some v \<Rightarrow> v)"

lemma dict_get_dict_set [simp]:
  "dict_get (dict_set k v d) k' x = (if k' = k then v else dict_get d k' x)"
  by (simp add: dict_get_def)

section \<open>Transaction systems\<close>

text \<open>
  A component as its step relation: one step is one transaction of the component. The first
  locale is an inductive invariant; the second adds a preorder along which every run moves; the
  third gives that preorder row by row, for a table whose rows are only ever rewritten to later
  versions of themselves.
\<close>

locale step_system =
  fixes step :: "'s \<Rightarrow> 's \<Rightarrow> bool"
    and inv :: "'s \<Rightarrow> bool"
  assumes step_inv: "step s t \<Longrightarrow> inv s \<Longrightarrow> inv t"
begin

lemma steps_inv: "step\<^sup>*\<^sup>* s t \<Longrightarrow> inv s \<Longrightarrow> inv t"
  by (induction rule: rtranclp_induct) (simp_all add: step_inv)

end

locale evolution = step_system +
  fixes evo :: "'s \<Rightarrow> 's \<Rightarrow> bool"
  assumes evo_refl: "evo s s"
    and evo_trans: "evo s t \<Longrightarrow> evo t u \<Longrightarrow> evo s u"
    and step_evo: "step s t \<Longrightarrow> inv s \<Longrightarrow> evo s t"
begin

lemma steps_evo: "step\<^sup>*\<^sup>* s t \<Longrightarrow> inv s \<Longrightarrow> evo s t"
proof (induction rule: rtranclp_induct)
  case base
  show ?case by (rule evo_refl)
next
  case (step t u)
  then have "evo s t" "inv t" by (simp_all add: steps_inv)
  then show ?case using step_evo[OF step.hyps(2)] by (blast intro: evo_trans)
qed

end

locale row_evolution = step_system +
  fixes rows :: "'s \<Rightarrow> 'r list"
    and later :: "'r \<Rightarrow> 'r \<Rightarrow> bool"
  assumes later_refl: "later r r"
    and later_trans: "later a b \<Longrightarrow> later b c \<Longrightarrow> later a c"
    and step_later: "step s t \<Longrightarrow> inv s \<Longrightarrow> r \<in> set (rows s) \<Longrightarrow> \<exists>r' \<in> set (rows t). later r r'"

sublocale row_evolution \<subseteq> table: evolution step inv "\<lambda>s t. \<forall>r \<in> set (rows s). \<exists>r' \<in> set (rows t). later r r'"
proof unfold_locales
  show "\<forall>r \<in> set (rows s). \<exists>r' \<in> set (rows s). later r r'" for s
    using later_refl by blast
  show "\<forall>r \<in> set (rows s). \<exists>r' \<in> set (rows u). later r r'"
    if "\<forall>r \<in> set (rows s). \<exists>r' \<in> set (rows t). later r r'" "\<forall>r \<in> set (rows t). \<exists>r' \<in> set (rows u). later r r'" for s t u
    using that later_trans by blast
  show "\<forall>r \<in> set (rows s). \<exists>r' \<in> set (rows t). later r r'" if "step s t" "inv s" for s t
    using that step_later by blast
qed

context row_evolution
begin

lemma row_kept: "step\<^sup>*\<^sup>* s t \<Longrightarrow> inv s \<Longrightarrow> r \<in> set (rows s) \<Longrightarrow> \<exists>r' \<in> set (rows t). later r r'"
  using table.steps_evo by blast

end

end
