(* ===== verification/Models.thy ===== *)
theory Models
  imports KB_Prelude
begin

text \<open>
  The persistent data model of \<open>src/app/db/models.py\<close>: every enumeration and
  every table whose rows the modelled services read or write, as a \<open>datatype\<close> or a
  \<open>record\<close> with the columns of the source. A field carries the initials of its
  table, because record selectors share one name space. Columns that no modelled
  query reads and that the database fills in by itself (\<open>created_at\<close>,
  \<open>updated_at\<close> where no query orders by them) are left out. The
  \<open>CheckConstraint\<close> clauses of a table are a boolean predicate on its row, so that
  a service can be proved never to violate them.
\<close>

section \<open>JSON columns\<close>

datatype json =
    JNull
  | JBool bool
  | JInt int
  | JStr string
  | JList "json list"
  | JObj "(string \<times> json) list"

section \<open>Enumerations\<close>

datatype user_status = USER_ACTIVE | USER_DISABLED | USER_LOCKED

datatype file_status =
    FILE_PENDING | FILE_UPLOADING | FILE_PROCESSING | FILE_AVAILABLE
  | FILE_QUARANTINED | FILE_FAILED | FILE_DELETED

datatype malware_scan_status =
    SCAN_PENDING | SCAN_PROCESSING | SCAN_CLEAN | SCAN_INFECTED | SCAN_ERROR

datatype upload_session_status =
    UPLOAD_INITIATED | UPLOAD_FINALIZING | UPLOAD_COMPLETED
  | UPLOAD_FAILED | UPLOAD_ABORTED | UPLOAD_EXPIRED

datatype reservation_status = HELD | CONSUMED | RELEASED | EXPIRED

datatype llm_usage_status = LLM_HELD | LLM_SETTLED | LLM_RELEASED | LLM_INDETERMINATE

datatype chat_idempotency_status = PROCESSING | COMPLETED | OUTCOME_UNKNOWN | INVALIDATED

datatype audit_result = SUCCESS | FAILURE | DENIED

datatype kb_access_level = READER | EDITOR | MANAGER

datatype okf_conversion_status =
    OKF_PENDING | OKF_PROCESSING | OKF_RETRY_WAIT | OKF_SUCCEEDED | OKF_FAILED | OKF_UNSUPPORTED

datatype knowledge_ingestion_status =
    NOT_REQUESTED | INGEST_PENDING | DRAFT_READY | INDEXED | INGEST_FAILED | INGEST_UNSUPPORTED

datatype publication_status = DRAFT | PUBLISHED

section \<open>Users, roles and limits\<close>

record user =
  u_id :: uuid
  u_email :: string
  u_password_hash :: string
  u_display_name :: "string option"
  u_status :: user_status
  u_is_superuser :: bool
  u_token_version :: int
  u_role_assignment_version :: int
  u_last_login_at :: "timestamp option"
  u_retired_at :: "timestamp option"
  u_retired_by_id :: "uuid option"
  u_retirement_reason :: "string option"
  u_created_at :: timestamp

definition user_checks :: "user \<Rightarrow> bool" where
  "user_checks u \<longleftrightarrow>
     u_role_assignment_version u \<ge> 1 \<and>
     ((u_retired_at u = None \<and> u_retired_by_id u = None \<and> u_retirement_reason u = None) \<or>
      (u_retired_at u \<noteq> None \<and> u_retired_by_id u \<noteq> None)) \<and>
     (u_retired_at u = None \<or> u_status u = USER_DISABLED) \<and>
     (u_retired_by_id u = None \<or> u_retired_by_id u \<noteq> Some (u_id u))"

record role =
  ro_id :: uuid
  ro_code :: string
  ro_name :: string
  ro_description :: "string option"
  ro_priority :: int
  ro_is_system :: bool
  ro_policy_version :: int

record permission =
  pe_id :: uuid
  pe_code :: string
  pe_name :: string

record user_role =
  ur_user_id :: uuid
  ur_role_id :: uuid
  ur_assigned_by :: "uuid option"
  ur_expires_at :: "timestamp option"

record role_permission =
  rp_role_id :: uuid
  rp_permission_id :: uuid

record limit_definition =
  ld_id :: uuid
  ld_key :: string
  ld_unit :: string
  ld_window :: string

record role_limit =
  rl_role_id :: uuid
  rl_limit_definition_id :: uuid
  rl_value :: "int option"

record user_limit_override =
  ulo_user_id :: uuid
  ulo_limit_definition_id :: uuid
  ulo_value :: "int option"

section \<open>Knowledge bases, files and derived entries\<close>

record knowledge_base =
  kb_id :: uuid
  kb_owner_id :: uuid
  kb_name :: string
  kb_description :: "string option"
  kb_external_llm_processing_enabled :: bool
  kb_custom_metadata :: json
  kb_role_grant_version :: int
  kb_content_version :: int
  kb_updated_at :: timestamp

record kb_role_grant =
  kg_knowledge_base_id :: uuid
  kg_role_id :: uuid
  kg_access_level :: kb_access_level
  kg_granted_by :: "uuid option"

record file_row =
  f_id :: uuid
  f_owner_id :: uuid
  f_knowledge_base_id :: "uuid option"
  f_bucket :: string
  f_object_key :: string
  f_original_name :: string
  f_extension :: string
  f_content_type :: string
  f_size_bytes :: int
  f_checksum_algorithm :: "string option"
  f_checksum_value :: "string option"
  f_status :: file_status
  f_knowledge_status :: knowledge_ingestion_status
  f_knowledge_error_code :: "string option"
  f_malware_scan_status :: malware_scan_status
  f_malware_signature :: "string option"
  f_malware_scan_error_code :: "string option"
  f_malware_scan_started_at :: "timestamp option"
  f_malware_scanned_at :: "timestamp option"
  f_malware_scan_lease_id :: "uuid option"
  f_malware_scan_attempts :: int
  f_malware_scan_next_attempt_at :: "timestamp option"
  f_version :: int
  f_custom_metadata :: json
  f_available_at :: "timestamp option"
  f_deleted_at :: "timestamp option"
  f_created_at :: timestamp

record upload_session =
  us_id :: uuid
  us_file_id :: uuid
  us_user_id :: uuid
  us_idempotency_key :: string
  us_mode :: string
  us_storage_upload_id :: "string option"
  us_part_size_bytes :: int
  us_part_count :: int
  us_expected_size_bytes :: int
  us_status :: upload_session_status
  us_expires_at :: timestamp
  us_completed_at :: "timestamp option"

section \<open>Quota rows\<close>

record quota_counter =
  qc_user_id :: uuid
  qc_limit_key :: string
  qc_window_start :: timestamp
  qc_used_value :: int
  qc_reserved_value :: int

definition quota_counter_checks :: "quota_counter \<Rightarrow> bool" where
  "quota_counter_checks c \<longleftrightarrow> qc_used_value c \<ge> 0 \<and> qc_reserved_value c \<ge> 0"

record quota_reservation =
  qr_user_id :: uuid
  qr_upload_session_id :: uuid
  qr_limit_key :: string
  qr_window_start :: timestamp
  qr_amount :: int
  qr_status :: reservation_status
  qr_expires_at :: timestamp

definition quota_reservation_checks :: "quota_reservation \<Rightarrow> bool" where
  "quota_reservation_checks r \<longleftrightarrow> qr_amount r \<ge> 0"

section \<open>Credentials\<close>

record refresh_token =
  rt_id :: uuid
  rt_family_id :: uuid
  rt_user_id :: uuid
  rt_parent_id :: "uuid option"
  rt_replaced_by_id :: "uuid option"
  rt_token_hash :: string
  rt_expires_at :: timestamp
  rt_revoked_at :: "timestamp option"
  rt_reuse_detected_at :: "timestamp option"

record api_key =
  ak_id :: uuid
  ak_user_id :: uuid
  ak_created_by :: "uuid option"
  ak_credential_family_id :: uuid
  ak_name :: string
  ak_key_hash :: string
  ak_key_prefix :: string
  ak_permission_codes :: "string list"
  ak_knowledge_base_ids :: "string list"
  ak_requests_per_minute :: int
  ak_expires_at :: "timestamp option"
  ak_revoked_at :: "timestamp option"
  ak_last_used_at :: "timestamp option"
  ak_created_at :: timestamp

definition api_key_checks :: "api_key \<Rightarrow> bool" where
  "api_key_checks k \<longleftrightarrow> ak_requests_per_minute k \<ge> 1 \<and> ak_requests_per_minute k \<le> 10000"

section \<open>Audit log\<close>

record audit_log =
  al_id :: int
  al_actor_id :: "uuid option"
  al_action :: string
  al_result :: audit_result
  al_resource_type :: string
  al_resource_id :: "string option"
  al_request_id :: "string option"
  al_ip_address :: "string option"
  al_details :: json
  al_created_at :: timestamp

section \<open>Knowledge entries and conversion jobs\<close>

record knowledge_entry =
  ke_id :: uuid
  ke_knowledge_base_id :: uuid
  ke_source_file_id :: "uuid option"
  ke_entry_type :: string
  ke_title :: unicode
  ke_content :: unicode
  ke_source_path :: "string option"
  ke_format_version :: "string option"
  ke_publication_status :: publication_status
  ke_custom_metadata :: json
  ke_deleted_at :: "timestamp option"
  ke_updated_at :: timestamp

record okf_conversion_job =
  oj_id :: uuid
  oj_file_id :: uuid
  oj_knowledge_base_id :: uuid
  oj_file_version :: int
  oj_status :: okf_conversion_status
  oj_attempts :: int
  oj_retry_generation :: int
  oj_model :: "string option"
  oj_prompt_version :: string
  oj_output_entry_id :: "uuid option"
  oj_error_code :: "string option"
  oj_next_attempt_at :: "timestamp option"
  oj_locked_at :: "timestamp option"
  oj_lease_id :: "uuid option"
  oj_completed_at :: "timestamp option"
  oj_created_at :: timestamp

definition okf_conversion_job_checks :: "okf_conversion_job \<Rightarrow> bool" where
  "okf_conversion_job_checks j \<longleftrightarrow> oj_retry_generation j \<ge> 0"

section \<open>Chat idempotency\<close>

record chat_idempotency_record =
  ci_id :: uuid
  ci_principal_hash :: string
  ci_idempotency_key_hash :: string
  ci_request_hash :: string
  ci_knowledge_base_id :: "uuid option"
  ci_knowledge_base_content_version :: "int option"
  ci_status :: chat_idempotency_status
  ci_response_body :: "string option"
  ci_response_encoding :: "string option"
  ci_response_size_bytes :: "int option"
  ci_response_key_version :: "int option"
  ci_response_nonce :: "string option"
  ci_completed_at :: "timestamp option"
  ci_expires_at :: "timestamp option"
  ci_updated_at :: timestamp

definition ci_no_payload :: "chat_idempotency_record \<Rightarrow> bool" where
  "ci_no_payload c \<longleftrightarrow> ci_response_body c = None \<and> ci_response_encoding c = None \<and>
     ci_response_size_bytes c = None \<and> ci_response_key_version c = None \<and> ci_response_nonce c = None"

definition chat_idempotency_checks :: "chat_idempotency_record \<Rightarrow> bool" where
  "chat_idempotency_checks c \<longleftrightarrow>
     length (ci_principal_hash c) = 64 \<and> length (ci_idempotency_key_hash c) = 64 \<and>
     length (ci_request_hash c) = 64 \<and>
     (case ci_response_size_bytes c of None \<Rightarrow> True | Some n \<Rightarrow> n > 0 \<and> n \<le> 524288) \<and>
     (case ci_response_body c of None \<Rightarrow> True | Some b \<Rightarrow> length b \<le> 524288) \<and>
     ((ci_knowledge_base_id c = None \<and> ci_knowledge_base_content_version c = None \<and>
       ci_status c = OUTCOME_UNKNOWN) \<or>
      (ci_knowledge_base_id c \<noteq> None \<and>
       (case ci_knowledge_base_content_version c of None \<Rightarrow> False | Some v \<Rightarrow> v \<ge> 1))) \<and>
     (case ci_status c of
        PROCESSING \<Rightarrow> ci_no_payload c \<and> ci_completed_at c = None \<and> ci_expires_at c = None
      | COMPLETED \<Rightarrow>
          ci_response_body c \<noteq> None \<and> ci_response_encoding c = Some ''aesgcm-zlib-json-v1'' \<and>
          ci_response_size_bytes c \<noteq> None \<and>
          (case ci_response_key_version c of None \<Rightarrow> False | Some v \<Rightarrow> v > 0) \<and>
          (case ci_response_nonce c of None \<Rightarrow> False | Some n \<Rightarrow> length n = 12) \<and>
          ci_completed_at c \<noteq> None \<and> ci_expires_at c \<noteq> None
      | _ \<Rightarrow> ci_no_payload c \<and> ci_completed_at c \<noteq> None \<and> ci_expires_at c \<noteq> None)"

section \<open>LLM governance\<close>

datatype window_kind = DAY | MONTH

record llm_model_price =
  mp_provider :: string
  mp_model :: string
  mp_input_price :: int
  mp_output_price :: int
  mp_active :: bool

definition llm_model_price_checks :: "llm_model_price \<Rightarrow> bool" where
  "llm_model_price_checks p \<longleftrightarrow> mp_input_price p \<ge> 0 \<and> mp_output_price p \<ge> 0"

record llm_budget_policy =
  bp_id :: uuid
  bp_name :: string
  bp_tenant_key :: string
  bp_user_id :: "uuid option"
  bp_api_key_id :: "uuid option"
  bp_provider :: "string option"
  bp_model :: "string option"
  bp_daily_token_limit :: "int option"
  bp_monthly_token_limit :: "int option"
  bp_daily_cost_limit_micro_usd :: "int option"
  bp_monthly_cost_limit_micro_usd :: "int option"
  bp_enabled :: bool
  bp_updated_by :: "uuid option"

definition non_negative_opt :: "int option \<Rightarrow> bool" where
  "non_negative_opt v = (case v of None \<Rightarrow> True | Some n \<Rightarrow> n \<ge> 0)"

definition llm_budget_policy_checks :: "llm_budget_policy \<Rightarrow> bool" where
  "llm_budget_policy_checks p \<longleftrightarrow>
     (bp_daily_token_limit p \<noteq> None \<or> bp_monthly_token_limit p \<noteq> None \<or>
      bp_daily_cost_limit_micro_usd p \<noteq> None \<or> bp_monthly_cost_limit_micro_usd p \<noteq> None) \<and>
     non_negative_opt (bp_daily_token_limit p) \<and> non_negative_opt (bp_monthly_token_limit p) \<and>
     non_negative_opt (bp_daily_cost_limit_micro_usd p) \<and> non_negative_opt (bp_monthly_cost_limit_micro_usd p)"

record llm_budget_counter =
  bc_policy_id :: uuid
  bc_window_kind :: window_kind
  bc_window_start :: timestamp
  bc_used_token_count :: int
  bc_reserved_token_count :: int
  bc_used_cost_micro_usd :: int
  bc_reserved_cost_micro_usd :: int

definition llm_budget_counter_checks :: "llm_budget_counter \<Rightarrow> bool" where
  "llm_budget_counter_checks c \<longleftrightarrow> bc_used_token_count c \<ge> 0 \<and> bc_reserved_token_count c \<ge> 0 \<and>
     bc_used_cost_micro_usd c \<ge> 0 \<and> bc_reserved_cost_micro_usd c \<ge> 0"

record llm_usage_record =
  lu_id :: uuid
  lu_tenant_key :: string
  lu_idempotency_hash :: string
  lu_user_id :: "uuid option"
  lu_api_key_id :: "uuid option"
  lu_api_key_credential_family_id :: "uuid option"
  lu_knowledge_base_id :: "uuid option"
  lu_provider :: string
  lu_model :: string
  lu_operation :: string
  lu_status :: llm_usage_status
  lu_reserved_input_tokens :: int
  lu_reserved_output_tokens :: int
  lu_reserved_token_count :: int
  lu_reserved_cost_micro_usd :: int
  lu_input_price :: int
  lu_output_price :: int
  lu_actual_input_tokens :: "int option"
  lu_actual_output_tokens :: "int option"
  lu_actual_token_count :: "int option"
  lu_actual_cost_micro_usd :: "int option"
  lu_error_code :: "string option"
  lu_created_at :: timestamp
  lu_settled_at :: "timestamp option"

definition llm_usage_record_checks :: "llm_usage_record \<Rightarrow> bool" where
  "llm_usage_record_checks r \<longleftrightarrow>
     lu_reserved_input_tokens r \<ge> 0 \<and> lu_reserved_output_tokens r \<ge> 0 \<and>
     lu_reserved_token_count r \<ge> 0 \<and> lu_reserved_cost_micro_usd r \<ge> 0 \<and>
     non_negative_opt (lu_actual_input_tokens r) \<and> non_negative_opt (lu_actual_output_tokens r) \<and>
     non_negative_opt (lu_actual_token_count r) \<and> non_negative_opt (lu_actual_cost_micro_usd r) \<and>
     (lu_api_key_id r = None \<or> lu_api_key_credential_family_id r \<noteq> None)"

record llm_usage_budget_hold =
  bh_usage_id :: uuid
  bh_policy_id :: uuid
  bh_window_kind :: window_kind
  bh_window_start :: timestamp
  bh_reserved_token_count :: int
  bh_reserved_cost_micro_usd :: int

end
