(* ===== verification/Domain.thy ===== *)
theory Domain
  imports Models "HOL-Library.Multiset"
begin

text \<open>
  The pure policies of \<open>src/app/domain/\<close>: permission matching, the merge of role
  limits with user overrides, the quota calculation, the validation of an upload
  request and the multipart plan. Each is executable; the lemmas relate them to
  declarative specifications.
\<close>

section \<open>Python string operations\<close>

text \<open>
  Strings hold the code points U+0000 to U+00FF (\<open>char\<close>); on that range the
  operations below are those of Python's \<open>str\<close>.
\<close>

definition py_partition :: "char \<Rightarrow> string \<Rightarrow> string \<times> string \<times> string" where
  "py_partition c s =
     (if c \<in> set s
      then (takeWhile (\<lambda>x. x \<noteq> c) s, [c], tl (dropWhile (\<lambda>x. x \<noteq> c) s))
      else (s, [], []))"

fun py_split :: "char \<Rightarrow> string \<Rightarrow> string list" where
  "py_split c [] = [[]]"
| "py_split c (x # xs) =
     (if x = c then [] # py_split c xs
      else (case py_split c xs of [] \<Rightarrow> [[x]] | p # ps \<Rightarrow> (x # p) # ps))"

definition py_isspace :: "char \<Rightarrow> bool" where
  "py_isspace c = (let n = of_char c :: nat in
     (9 \<le> n \<and> n \<le> 13) \<or> (28 \<le> n \<and> n \<le> 32) \<or> n = 133 \<or> n = 160)"

definition py_strip :: "string \<Rightarrow> string" where
  "py_strip s = rev (dropWhile py_isspace (rev (dropWhile py_isspace s)))"

definition py_lower_char :: "char \<Rightarrow> char" where
  "py_lower_char c = (let n = of_char c :: nat in
     if (65 \<le> n \<and> n \<le> 90) \<or> (192 \<le> n \<and> n \<le> 222 \<and> n \<noteq> 215) then char_of (n + 32) else c)"

definition py_lower :: "string \<Rightarrow> string" where
  "py_lower s = map py_lower_char s"

text \<open>\<open>PurePosixPath(s).name\<close>: the last component that is neither empty nor a dot.\<close>

definition path_name :: "string \<Rightarrow> string" where
  "path_name s = (let parts = filter (\<lambda>p. p \<noteq> [] \<and> p \<noteq> ''.'') (py_split CHR ''/'' s) in
     if parts = [] then [] else last parts)"

text \<open>\<open>PurePosixPath(s).suffix\<close>: from the last dot of the name, unless it is first or last.\<close>

definition path_suffix :: "string \<Rightarrow> string" where
  "path_suffix s =
     (let name = path_name s;
          after = takeWhile (\<lambda>c. c \<noteq> CHR ''.'') (rev name);
          i = int (length name) - int (length after) - 1
      in if 0 < i \<and> i < int (length name) - 1 then drop (nat i) name else [])"

section \<open>Permissions (access.py)\<close>

definition has_permission :: "string list \<Rightarrow> string \<Rightarrow> bool" where
  "has_permission granted required =
     (if ''*'' \<in> set granted \<or> required \<in> set granted then True
      else (case py_partition CHR '':'' required of
              (resource, separator, _) \<Rightarrow>
                separator \<noteq> [] \<and> (resource @ '':*'') \<in> set granted))"

section \<open>Effective limits (access.py)\<close>

text \<open>A limit value is an integer or \<open>None\<close>, which means unlimited.\<close>

type_synonym limit_value = "int option"
type_synonym limit_map = "string \<rightharpoonup> limit_value"

definition merge_limit :: "limit_map \<Rightarrow> string \<times> limit_value \<Rightarrow> limit_map" where
  "merge_limit effective kv = (case kv of (key, value) \<Rightarrow>
     (case effective key of
        None \<Rightarrow> effective(key \<mapsto> value)
      | Some current \<Rightarrow>
          (case (current, value) of
             (Some c, Some v) \<Rightarrow> effective(key \<mapsto> Some (max c v))
           | _ \<Rightarrow> effective(key \<mapsto> None))))"

definition resolve_effective_limits ::
    "(string \<times> limit_value) list list \<Rightarrow> limit_map \<Rightarrow> limit_map" where
  "resolve_effective_limits role_limits user_overrides =
     foldl (foldl merge_limit) Map.empty role_limits ++ user_overrides"

section \<open>Quota calculation (quota.py)\<close>

datatype domain_error =
    ValueError
  | QuotaExceeded int int int   \<comment> \<open>limit, remaining, requested\<close>
  | FilePolicyViolation string

record reservation_calculation =
  rc_new_reserved :: int
  rc_remaining_after_reservation :: "int option"

definition check_and_calculate_reservation ::
    "int \<Rightarrow> int \<Rightarrow> int \<Rightarrow> limit_value \<Rightarrow> domain_error + reservation_calculation" where
  "check_and_calculate_reservation used reserved requested limit =
     (if (used < 0 \<or> reserved < 0 \<or> requested < 0) \<or> (case limit of None \<Rightarrow> False | Some l \<Rightarrow> l < 0)
      then Inl ValueError
      else (let new_reserved = reserved + requested in
        case limit of
          None \<Rightarrow> Inr \<lparr>rc_new_reserved = new_reserved, rc_remaining_after_reservation = None\<rparr>
        | Some l \<Rightarrow>
            (let remaining_before = max (l - used - reserved) 0 in
             if requested > remaining_before
             then Inl (QuotaExceeded l remaining_before requested)
             else Inr \<lparr>rc_new_reserved = new_reserved,
                        rc_remaining_after_reservation = Some (l - used - new_reserved)\<rparr>)))"

section \<open>Upload validation and planning (files.py)\<close>

record validated_upload =
  vu_filename :: string
  vu_extension :: string
  vu_size_bytes :: int

definition validate_upload ::
    "string \<Rightarrow> int \<Rightarrow> limit_value \<Rightarrow> string list \<Rightarrow> domain_error + validated_upload" where
  "validate_upload filename size_bytes max_upload_bytes allowed_extensions =
     (let safe_name = py_strip (path_name filename) in
      if safe_name = [] \<or> safe_name = ''.'' \<or> safe_name = ''..''
      then Inl (FilePolicyViolation ''filename is required'')
      else (let extension = py_lower (path_suffix safe_name);
                normalized_allowed = map py_lower allowed_extensions in
        if extension \<notin> set normalized_allowed
        then Inl (FilePolicyViolation ''unsupported file extension'')
        else if size_bytes \<le> 0
        then Inl (FilePolicyViolation ''file size must be greater than zero'')
        else if (case max_upload_bytes of None \<Rightarrow> False | Some m \<Rightarrow> size_bytes > m)
        then Inl (FilePolicyViolation ''file exceeds maximum upload size'')
        else Inr \<lparr>vu_filename = safe_name, vu_extension = extension,
                   vu_size_bytes = size_bytes\<rparr>))"

datatype upload_mode = SINGLE | MULTIPART

record upload_plan =
  up_mode :: upload_mode
  up_part_size_bytes :: int
  up_part_count :: int

text \<open>
  \<open>math.ceil(a / b)\<close> divides two integers into a binary64 float, correctly rounded
  (ties to even), and rounds that up. \<open>true_div_ceil\<close> computes it for positive
  operands whose quotient is in the normal range, which every pair of 64-bit
  columns is: \<open>e\<close> is the exponent of the last of the 53 significant bits.
\<close>

fun bit_length :: "int \<Rightarrow> nat" where
  "bit_length n = (if n \<le> 0 then 0 else Suc (bit_length (n div 2)))"

declare bit_length.simps [simp del]

definition round_half_even_div :: "int \<Rightarrow> int \<Rightarrow> int" where
  "round_half_even_div n d =
     (let q = n div d; r = n mod d in
      if 2 * r < d \<or> (2 * r = d \<and> even q) then q else q + 1)"

definition floor_log2_div :: "int \<Rightarrow> int \<Rightarrow> int" where
  "floor_log2_div a b =
     (let d = int (bit_length a) - int (bit_length b) in
      if (if d \<ge> 0 then b * 2 ^ nat d \<le> a else b \<le> a * 2 ^ nat (- d)) then d else d - 1)"

definition ceil_div :: "int \<Rightarrow> int \<Rightarrow> int" where
  "ceil_div a b = - ((- a) div b)"

definition true_div_ceil :: "int \<Rightarrow> int \<Rightarrow> int" where
  "true_div_ceil a b =
     (let e = floor_log2_div a b - 52 in
      if e \<le> 0 then ceil_div (round_half_even_div (a * 2 ^ nat (- e)) b) (2 ^ nat (- e))
      else round_half_even_div a (b * 2 ^ nat e) * 2 ^ nat e)"

definition plan_upload :: "int \<Rightarrow> int \<Rightarrow> int \<Rightarrow> int \<Rightarrow> domain_error + upload_plan" where
  "plan_upload size_bytes multipart_threshold_bytes preferred_part_size max_parts =
     (if min (min size_bytes multipart_threshold_bytes) (min preferred_part_size max_parts) \<le> 0
      then Inl ValueError
      else if size_bytes < multipart_threshold_bytes
      then Inr \<lparr>up_mode = SINGLE, up_part_size_bytes = size_bytes, up_part_count = 1\<rparr>
      else (let minimum_part_size = true_div_ceil size_bytes max_parts;
                part_size = max preferred_part_size minimum_part_size;
                part_count = true_div_ceil size_bytes part_size in
            Inr \<lparr>up_mode = MULTIPART, up_part_size_bytes = part_size,
                  up_part_count = part_count\<rparr>))"

section \<open>Lemmas on permissions\<close>

lemma py_partition_sep:
  "py_partition c s = (a, sep, b) \<Longrightarrow> sep \<noteq> [] \<longleftrightarrow> c \<in> set s"
  by (auto simp: py_partition_def split: if_splits)

lemma py_partition_colon:
  assumes "c \<notin> set r"
  shows "py_partition c (r @ c # rest) = (r, [c], rest)"
proof -
  have tw: "takeWhile (\<lambda>x. x \<noteq> c) (r @ c # rest) = r"
    using assms by (induction r) auto
  have dw: "dropWhile (\<lambda>x. x \<noteq> c) (r @ c # rest) = c # rest"
    using assms by (induction r) auto
  show ?thesis by (simp add: py_partition_def tw dw)
qed

lemma has_permission_mono:
  "has_permission g p \<Longrightarrow> set g \<subseteq> set h \<Longrightarrow> has_permission h p"
  by (auto simp: has_permission_def split: if_splits prod.splits)

lemma has_permission_star: "''*'' \<in> set g \<Longrightarrow> has_permission g p"
  by (simp add: has_permission_def)

lemma has_permission_Nil [simp]: "\<not> has_permission [] p"
  by (auto simp: has_permission_def split: prod.splits)

text \<open>The declarative reading: exact, resource-wide or global.\<close>

lemma has_permission_scoped:
  assumes "CHR '':'' \<notin> set r"
  shows "has_permission g (r @ '':'' @ a) \<longleftrightarrow>
     ''*'' \<in> set g \<or> (r @ '':'' @ a) \<in> set g \<or> (r @ '':*'') \<in> set g"
  using py_partition_colon[OF assms, of a] by (auto simp: has_permission_def)

section \<open>Lemmas on limits\<close>

definition values_at :: "string \<Rightarrow> (string \<times> limit_value) list \<Rightarrow> limit_value list" where
  "values_at k kvs = map snd (filter (\<lambda>kv. fst kv = k) kvs)"

text \<open>Specification: absent when no role sets it, unlimited when one role says so, else the maximum.\<close>

definition limit_sup :: "limit_value list \<Rightarrow> limit_value option" where
  "limit_sup vs =
     (if vs = [] then None
      else if None \<in> set vs then Some None
      else Some (Some (Max (the ` set vs))))"

lemma foldl_merge_concat: "foldl (foldl merge_limit) m xss = foldl merge_limit m (concat xss)"
  by (induction xss arbitrary: m) simp_all

lemma values_at_append [simp]: "values_at k (xs @ ys) = values_at k xs @ values_at k ys"
  by (simp add: values_at_def)

lemma limit_sup_snoc:
  "limit_sup (vs @ [v]) =
     (case limit_sup vs of
        None \<Rightarrow> Some v
      | Some current \<Rightarrow> (case (current, v) of (Some c, Some x) \<Rightarrow> Some (Some (max c x)) | _ \<Rightarrow> Some None))"
proof (cases "vs = []")
  case True
  then show ?thesis by (cases v) (simp_all add: limit_sup_def)
next
  case False
  then have "Max (insert x (the ` set vs)) = max x (Max (the ` set vs))" for x :: int
    by simp
  with False show ?thesis
    by (cases v) (auto simp: limit_sup_def max.commute)
qed

lemma foldl_merge_limit_sup: "foldl merge_limit Map.empty kvs k = limit_sup (values_at k kvs)"
proof (induction kvs rule: rev_induct)
  case Nil
  then show ?case by (simp add: values_at_def limit_sup_def)
next
  case (snoc kv kvs)
  obtain key v where kv: "kv = (key, v)" by force
  show ?case
  proof (cases "key = k")
    case True
    have "values_at k [kv] = [v]" by (simp add: values_at_def kv True)
    then show ?thesis
      using snoc.IH True
      by (simp add: kv merge_limit_def limit_sup_snoc split: option.splits)
  next
    case False
    have "values_at k [kv] = []" by (simp add: values_at_def kv False)
    then show ?thesis
      using snoc.IH False
      by (auto simp: kv merge_limit_def split: option.splits)
  qed
qed

lemma resolve_effective_limits_spec:
  "resolve_effective_limits role_limits overrides k =
     (case overrides k of
        Some v \<Rightarrow> Some v
      | None \<Rightarrow> limit_sup (values_at k (concat role_limits)))"
  by (simp add: resolve_effective_limits_def foldl_merge_concat map_add_def
      foldl_merge_limit_sup split: option.splits)

lemma limit_sup_set_cong: "set vs = set ws \<Longrightarrow> limit_sup vs = limit_sup ws"
  by (auto simp: limit_sup_def)

lemma set_values_at: "set (values_at k kvs) = {v. (k, v) \<in> set kvs}"
  by (force simp: values_at_def)

section \<open>Lemmas on the quota calculation\<close>

lemma check_reservation_Inr:
  "check_and_calculate_reservation used reserved requested limit = Inr c \<Longrightarrow>
   used \<ge> 0 \<and> reserved \<ge> 0 \<and> requested \<ge> 0 \<and> rc_new_reserved c = reserved + requested \<and>
   (\<forall>l. limit = Some l \<longrightarrow> used + rc_new_reserved c \<le> l \<and> l \<ge> 0 \<or> requested = 0 \<and> l \<ge> 0)"
  by (auto simp: check_and_calculate_reservation_def Let_def max_def split: if_splits option.splits)

lemma check_reservation_positive_Inr:
  assumes "check_and_calculate_reservation used reserved requested (Some l) = Inr c"
    and "requested > 0"
  shows "used + reserved + requested \<le> l"
    and "rc_remaining_after_reservation c = Some (l - used - reserved - requested)"
  using assms
  by (auto simp: check_and_calculate_reservation_def Let_def max_def split: if_splits)

lemma check_reservation_accepts:
  "0 \<le> used \<Longrightarrow> 0 \<le> reserved \<Longrightarrow> 0 \<le> requested \<Longrightarrow> used + reserved + requested \<le> l \<Longrightarrow>
   check_and_calculate_reservation used reserved requested (Some l) =
     Inr \<lparr>rc_new_reserved = reserved + requested,
          rc_remaining_after_reservation = Some (l - used - (reserved + requested))\<rparr>"
  by (auto simp: check_and_calculate_reservation_def Let_def max_def)

section \<open>Lemmas on float division\<close>

lemma int_le_div_iff: "(0::int) < b \<Longrightarrow> k \<le> a div b \<longleftrightarrow> k * b \<le> a"
proof
  assume b: "0 < b" and k: "k \<le> a div b"
  have "k * b \<le> (a div b) * b" using b k by (intro mult_right_mono) simp_all
  also have "\<dots> \<le> (a div b) * b + a mod b"
    using pos_mod_sign[OF b, of a] by linarith
  also have "\<dots> = a" by simp
  finally show "k * b \<le> a" .
next
  assume b: "0 < b" and k: "k * b \<le> a"
  have "(k * b) div b \<le> a div b" using k b by (rule zdiv_mono1)
  with b show "k \<le> a div b" by simp
qed

lemma bit_length_upper: "n < 2 ^ bit_length n"
proof (induction n rule: bit_length.induct)
  case (1 n)
  show ?case
  proof (cases "n \<le> 0")
    case True
    then show ?thesis by (subst bit_length.simps) simp
  next
    case False
    with "1.IH" have "n div 2 < 2 ^ bit_length (n div 2)" by simp
    then have "n < 2 * 2 ^ bit_length (n div 2)" by presburger
    with False show ?thesis by (subst bit_length.simps) simp
  qed
qed

lemma bit_length_le: "n < 2 ^ k \<Longrightarrow> bit_length n \<le> k"
proof (induction n arbitrary: k rule: bit_length.induct)
  case (1 n)
  show ?case
  proof (cases "n \<le> 0")
    case True
    then show ?thesis by (subst bit_length.simps) simp
  next
    case False
    then obtain j where j: "k = Suc j" using "1.prems" by (cases k) auto
    with "1.prems" have "n div 2 < 2 ^ j" by simp
    with False j "1.IH" show ?thesis by (subst bit_length.simps) simp
  qed
qed

lemma ceil_div_le_iff: "0 < b \<Longrightarrow> ceil_div a b \<le> n \<longleftrightarrow> a \<le> n * b"
  using int_le_div_iff[of b "- n" "- a"] by (auto simp: ceil_div_def)

lemma ceil_div_gt_iff: "0 < b \<Longrightarrow> k < ceil_div a b \<longleftrightarrow> k * b < a"
  using ceil_div_le_iff[of b a k] by auto

lemma round_half_even_le: "0 < d \<Longrightarrow> n \<le> m * d \<Longrightarrow> round_half_even_div n d \<le> m"
proof -
  assume d: "0 < d" and le: "n \<le> m * d"
  have "n div d \<le> (m * d) div d" using le d by (rule zdiv_mono1)
  with d have q: "n div d \<le> m" by simp
  show ?thesis
  proof (cases "n div d = m")
    case True
    then have "n mod d = 0" using d le
      by (metis add_le_same_cancel1 div_mult_mod_eq dual_order.antisym pos_mod_sign)
    with True d show ?thesis by (simp add: round_half_even_div_def)
  next
    case False
    with q show ?thesis by (simp add: round_half_even_div_def Let_def)
  qed
qed

lemma round_half_even_gt: "0 < d \<Longrightarrow> 2 * m * d + d < 2 * n \<Longrightarrow> m < round_half_even_div n d"
proof -
  assume d: "0 < d" and gt: "2 * m * d + d < 2 * n"
  have n: "n = (n div d) * d + n mod d" by simp
  have r: "0 \<le> n mod d" "n mod d < d" using d by simp_all
  have "m * d < n" using gt d by simp
  then have mq: "m \<le> n div d" using d by (simp add: int_le_div_iff)
  show ?thesis
  proof (cases "n div d = m")
    case True
    have "2 * n = 2 * (m * d) + 2 * (n mod d)" using n unfolding True by linarith
    with gt have "d < 2 * (n mod d)" by simp
    with True show ?thesis by (simp add: round_half_even_div_def Let_def)
  next
    case False
    with mq show ?thesis by (simp add: round_half_even_div_def Let_def)
  qed
qed

lemma floor_log2_div_bounds:
  assumes "0 < a" "a < 2 ^ 53" "0 < b"
  shows "floor_log2_div a b \<le> 52" and "b < 2 ^ nat (53 - floor_log2_div a b)"
proof -
  define F where "F = floor_log2_div a b"
  have la: "bit_length a \<le> 53" using assms(2) by (rule bit_length_le)
  have lb: "bit_length b \<ge> 1" using assms(3) by (subst bit_length.simps) simp
  have F: "F \<le> int (bit_length a) - int (bit_length b)"
    by (simp add: F_def floor_log2_div_def Let_def)
  show "floor_log2_div a b \<le> 52" using F la lb by (simp add: F_def)
  have "bit_length b \<le> nat (53 - F)" using F la by simp
  then have "(2::int) ^ bit_length b \<le> 2 ^ nat (53 - F)" by (rule power_increasing) simp
  with bit_length_upper[of b] have "b < 2 ^ nat (53 - F)" by (rule less_le_trans)
  then show "b < 2 ^ nat (53 - floor_log2_div a b)" by (simp add: F_def)
qed

lemma true_div_ceil_exact:
  assumes a: "0 < a" "a < 2 ^ 53" and b: "0 < b"
  shows "true_div_ceil a b = ceil_div a b"
proof -
  define s where "s = nat (52 - floor_log2_div a b)"
  note fb = floor_log2_div_bounds[OF a b]
  have s53: "nat (53 - floor_log2_div a b) = Suc s" using fb(1) by (simp add: s_def)
  have bs: "b < 2 * 2 ^ s" using fb(2) by (simp add: s53)
  define m where "m = round_half_even_div (a * 2 ^ s) b"
  have td: "true_div_ceil a b = ceil_div m (2 ^ s)"
    using fb(1) by (simp add: true_div_ceil_def Let_def m_def s_def)
  define n where "n = ceil_div a b"
  have "a \<le> n * b" using ceil_div_le_iff[OF b, of a n] by (simp add: n_def)
  then have "a * 2 ^ s \<le> (n * 2 ^ s) * b" by (simp add: mult.assoc mult.commute mult.left_commute)
  then have "m \<le> n * 2 ^ s" unfolding m_def using b by (rule round_half_even_le[rotated])
  then have up: "ceil_div m (2 ^ s) \<le> n" by (simp add: ceil_div_le_iff)
  have "(n - 1) * b < a" using ceil_div_gt_iff[OF b, of "n - 1" a] by (simp add: n_def)
  then have "((n - 1) * b + 1) * 2 ^ s \<le> a * 2 ^ s" by (intro mult_right_mono) simp_all
  then have "2 * ((n - 1) * 2 ^ s) * b + 2 * 2 ^ s \<le> 2 * (a * 2 ^ s)"
    by (simp add: algebra_simps)
  then have "2 * ((n - 1) * 2 ^ s) * b + b < 2 * (a * 2 ^ s)" using bs by linarith
  then have "(n - 1) * 2 ^ s < m" unfolding m_def by (rule round_half_even_gt[OF b])
  then have "n - 1 < ceil_div m (2 ^ s)" by (simp add: ceil_div_gt_iff)
  with up td show ?thesis by (simp add: n_def)
qed

section \<open>Lemmas on file names\<close>

lemma py_split_no_sep: "p \<in> set (py_split c s) \<Longrightarrow> c \<notin> set p"
proof (induction c s arbitrary: p rule: py_split.induct)
  case (1 c)
  then show ?case by simp
next
  case (2 c x xs)
  show ?case
  proof (cases "x = c")
    case True
    with 2 show ?thesis by auto
  next
    case False
    show ?thesis
    proof (cases "py_split c xs")
      case Nil
      with False 2 show ?thesis by auto
    next
      case (Cons q qs)
      with False "2.prems" have "p = x # q \<or> p \<in> set qs" by auto
      moreover have "c \<notin> set q" using "2.IH"(2)[OF False, of q] Cons by simp
      moreover have "p \<in> set qs \<Longrightarrow> c \<notin> set p" using "2.IH"(2)[OF False, of p] Cons by simp
      ultimately show ?thesis using False by auto
    qed
  qed
qed

lemma path_name_no_slash: "CHR ''/'' \<notin> set (path_name s)"
proof -
  let ?parts = "filter (\<lambda>p. p \<noteq> [] \<and> p \<noteq> ''.'') (py_split CHR ''/'' s)"
  have "last ?parts \<in> set ?parts" if "?parts \<noteq> []" using that by (rule last_in_set)
  then show ?thesis
    using py_split_no_sep[of "last ?parts" "CHR ''/''" s]
    by (auto simp: path_name_def Let_def)
qed

lemma set_py_strip: "set (py_strip s) \<subseteq> set s"
proof
  fix x assume "x \<in> set (py_strip s)"
  then have "x \<in> set (dropWhile py_isspace (rev (dropWhile py_isspace s)))"
    by (simp add: py_strip_def)
  then have "x \<in> set (dropWhile py_isspace s)" by (auto dest: set_dropWhileD)
  then show "x \<in> set s" by (auto dest: set_dropWhileD)
qed

lemma py_strip_ends:
  assumes "py_strip s \<noteq> []"
  shows "\<not> py_isspace (hd (py_strip s))" and "\<not> py_isspace (last (py_strip s))"
proof -
  let ?d = "dropWhile py_isspace s"
  let ?e = "dropWhile py_isspace (rev ?d)"
  have e: "?e \<noteq> []" using assms by (simp add: py_strip_def)
  have "\<not> py_isspace (hd ?e)" using e by (rule hd_dropWhile)
  with e show "\<not> py_isspace (last (py_strip s))" by (simp add: py_strip_def last_rev)
  have "?d \<noteq> []"
  proof
    assume "?d = []"
    then have "?e = []" by (simp only: rev.simps(1) dropWhile.simps(1))
    with e show False by contradiction
  qed
  then have h: "\<not> py_isspace (hd ?d)" by (rule hd_dropWhile)
  obtain pre where "rev ?d = pre @ ?e" by (metis takeWhile_dropWhile_id)
  then have "?d = rev ?e @ rev pre" by (metis rev_append rev_rev_ident)
  then have "hd ?d = hd (rev ?e)" by (metis e hd_append2 rev_is_Nil_conv)
  with h show "\<not> py_isspace (hd (py_strip s))" by (metis py_strip_def)
qed

section \<open>Properties\<close>

text \<open>The effective limit of a key is the user's override when there is one, even when it
  lowers an unlimited role limit; otherwise it is absent when no role sets the key, unlimited when
  some role leaves it unlimited, and the largest role value otherwise. The order of the roles and
  of the keys inside a role does not matter.\<close>

theorem effective_limits_spec:
  "resolve_effective_limits role_limits overrides k =
     (case overrides k of
        Some v \<Rightarrow> Some v
      | None \<Rightarrow>
          (let vs = {v. \<exists>limits \<in> set role_limits. (k, v) \<in> set limits} in
           if vs = {} then None
           else if None \<in> vs then Some None
           else Some (Some (Max (the ` vs)))))"
proof -
  have "{v. \<exists>limits \<in> set role_limits. (k, v) \<in> set limits} = set (values_at k (concat role_limits))"
    by (auto simp: set_values_at)
  then show ?thesis
    by (simp add: resolve_effective_limits_spec limit_sup_def Let_def split: option.splits)
qed

text \<open>A permission \<open>resource:action\<close> is granted exactly when the grants hold the global
  wildcard, the permission itself, or the wildcard of its resource; a resource wildcard never
  grants a permission of another resource.\<close>

theorem permission_matching:
  assumes "CHR '':'' \<notin> set resource"
  shows "has_permission granted (resource @ '':'' @ action) \<longleftrightarrow>
     ''*'' \<in> set granted \<or> (resource @ '':'' @ action) \<in> set granted \<or>
     (resource @ '':*'') \<in> set granted"
  using assms by (rule has_permission_scoped)

theorem permission_matching_witness:
  "has_permission [''file:*''] ''file:read'' \<and> \<not> has_permission [''file:*''] ''user:read''"
  using permission_matching[of "''file''" "[''file:*'']" "''read''"]
    permission_matching[of "''user''" "[''file:*'']" "''read''"] by simp

text \<open>An accepted upload has a non-empty name without a slash, without surrounding white space
  and other than the dot names, an extension of the configured list (compared in lower case), and a
  size between one byte and the limit.\<close>

theorem validated_upload_is_safe:
  assumes "validate_upload filename size_bytes max_upload_bytes allowed = Inr u"
  shows "vu_filename u \<noteq> [] \<and> vu_filename u \<noteq> ''.'' \<and> vu_filename u \<noteq> ''..'' \<and>
     CHR ''/'' \<notin> set (vu_filename u) \<and>
     \<not> py_isspace (hd (vu_filename u)) \<and> \<not> py_isspace (last (vu_filename u)) \<and>
     vu_extension u = py_lower (path_suffix (vu_filename u)) \<and>
     vu_extension u \<in> py_lower ` set allowed \<and>
     0 < vu_size_bytes u \<and> vu_size_bytes u = size_bytes \<and>
     (\<forall>m. max_upload_bytes = Some m \<longrightarrow> vu_size_bytes u \<le> m)"
proof -
  let ?n = "py_strip (path_name filename)"
  have u: "?n \<noteq> []" "?n \<noteq> ''.''" "?n \<noteq> ''..''" "vu_filename u = ?n"
    "vu_extension u = py_lower (path_suffix ?n)" "vu_extension u \<in> set (map py_lower allowed)"
    "0 < size_bytes" "vu_size_bytes u = size_bytes"
    "\<forall>m. max_upload_bytes = Some m \<longrightarrow> size_bytes \<le> m"
    using assms by (auto simp: validate_upload_def Let_def split: if_splits option.splits)
  moreover have "CHR ''/'' \<notin> set ?n"
    using set_py_strip[of "path_name filename"] path_name_no_slash[of filename] by blast
  ultimately show ?thesis using py_strip_ends[OF u(1)] by simp
qed

theorem validated_upload_is_safe_witness:
  "\<exists>u. validate_upload ''../a/ Report.PDF '' 10 (Some 20) [''.pdf''] = Inr u \<and>
     vu_filename u = ''Report.PDF'' \<and> CHR ''/'' \<notin> set (vu_filename u)"
proof -
  have e: "validate_upload ''../a/ Report.PDF '' 10 (Some 20) [''.pdf''] =
      Inr \<lparr>vu_filename = ''Report.PDF'', vu_extension = ''.pdf'', vu_size_bytes = 10\<rparr>"
    by code_simp
  show ?thesis using e validated_upload_is_safe[OF e] by auto
qed

text \<open>The multipart plan of an upload below 2^53 bytes covers the file exactly: the parts hold
  it, the last part is not empty, no part is smaller than preferred, and there are at most
  \<open>max_parts\<close> of them, in spite of the float division that computes the part size and count.\<close>

theorem plan_upload_covers:
  assumes "plan_upload size_bytes threshold preferred max_parts = Inr p" and "size_bytes < 2 ^ 53"
  shows "(up_part_count p - 1) * up_part_size_bytes p < size_bytes \<and>
     size_bytes \<le> up_part_count p * up_part_size_bytes p \<and>
     1 \<le> up_part_count p \<and> up_part_count p \<le> max_parts \<and>
     (up_mode p = MULTIPART \<longrightarrow> threshold \<le> size_bytes \<and> preferred \<le> up_part_size_bytes p) \<and>
     (up_mode p = SINGLE \<longrightarrow> size_bytes < threshold \<and> up_part_count p = 1)"
proof -
  have pos: "0 < size_bytes" "0 < threshold" "0 < preferred" "0 < max_parts"
    using assms(1) by (auto simp: plan_upload_def split: if_splits)
  show ?thesis
  proof (cases "size_bytes < threshold")
    case True
    have "p = \<lparr>up_mode = SINGLE, up_part_size_bytes = size_bytes, up_part_count = 1\<rparr>"
      using assms(1) True by (auto simp: plan_upload_def split: if_splits)
    with True pos show ?thesis by simp
  next
    case False
    define ps where "ps = max preferred (true_div_ceil size_bytes max_parts)"
    have p: "p = \<lparr>up_mode = MULTIPART, up_part_size_bytes = ps, up_part_count = true_div_ceil size_bytes ps\<rparr>"
      using assms(1) False by (auto simp: plan_upload_def ps_def Let_def split: if_splits)
    have ps: "0 < ps" "preferred \<le> ps" using pos by (auto simp: ps_def)
    have n: "true_div_ceil size_bytes ps = ceil_div size_bytes ps"
      using pos(1) assms(2) ps(1) by (rule true_div_ceil_exact)
    have "true_div_ceil size_bytes max_parts = ceil_div size_bytes max_parts"
      using pos(1) assms(2) pos(4) by (rule true_div_ceil_exact)
    then have "size_bytes \<le> ps * max_parts"
      using ceil_div_le_iff[OF pos(4), of size_bytes ps] by (simp add: ps_def)
    then have le: "ceil_div size_bytes ps \<le> max_parts"
      by (simp add: ceil_div_le_iff[OF ps(1)] mult.commute)
    have "0 < ceil_div size_bytes ps" using ceil_div_gt_iff[OF ps(1), of 0 size_bytes] pos(1) by simp
    moreover have "size_bytes \<le> ceil_div size_bytes ps * ps" using ceil_div_le_iff[OF ps(1), of size_bytes] by blast
    moreover have "(ceil_div size_bytes ps - 1) * ps < size_bytes"
      using ceil_div_gt_iff[OF ps(1), of "ceil_div size_bytes ps - 1" size_bytes] by simp
    ultimately show ?thesis using le ps False by (simp add: p n)
  qed
qed

theorem plan_upload_covers_witness:
  "\<exists>p. plan_upload 100000000001 67108864 16777216 1000 = Inr p \<and>
     up_part_count p \<le> 1000 \<and> 100000000001 \<le> up_part_count p * up_part_size_bytes p"
proof -
  have e: "is_ok (plan_upload 100000000001 67108864 16777216 1000)"
    by (simp add: plan_upload_def Let_def)
  then obtain p where p: "plan_upload 100000000001 67108864 16777216 1000 = Inr p"
    by (auto simp: is_ok_iff)
  show ?thesis using p plan_upload_covers[OF p] by auto
qed

end
