(* ===== verification/Quota.thy ===== *)
theory Quota
  imports Domain "HOL-Library.Char_ord" "HOL-Library.List_Lexorder"
begin

text \<open>
  \<open>QuotaService\<close> of \<open>src/app/services/quota.py\<close> and the entry metering of
  \<open>src/app/services/knowledge_entry_quota.py\<close>. The state is the two tables the
  service owns. The abstraction of the state is, for every quota (user, limit key,
  window), the used value and the reserved value; the invariant says that the
  reserved value of a counter is exactly the sum of its held reservations. The
  locale \<open>hold_ledger\<close> states what a client of a reservation ledger may rely on, and
  is interpreted on the service.
\<close>

section \<open>State\<close>

record quota_db =
  q_counters :: "quota_counter list"
  q_reservations :: "quota_reservation list"

record quota_spec =
  qs_key :: string
  qs_amount :: int
  qs_limit :: limit_value
  qs_window_start :: timestamp

datatype quota_error =
    QuotaDomain domain_error
  | QuotaRuntimeError
  | QuotaIntegrityError
  | QuotaUnicodeEncodeError

type_synonym quota_key = "uuid \<times> string \<times> timestamp"

definition counter_key :: "quota_counter \<Rightarrow> quota_key" where
  "counter_key c = (qc_user_id c, qc_limit_key c, qc_window_start c)"

definition reservation_quota :: "quota_reservation \<Rightarrow> quota_key" where
  "reservation_quota r = (qr_user_id r, qr_limit_key r, qr_window_start r)"

definition reservation_key :: "quota_reservation \<Rightarrow> uuid \<times> string" where
  "reservation_key r = (qr_upload_session_id r, qr_limit_key r)"

section \<open>Windows\<close>

definition daily_window_start :: "timestamp \<Rightarrow> timestamp" where
  "daily_window_start now = now - now mod day_length"

definition lifetime_window_start :: timestamp where
  "lifetime_window_start = 0"

section \<open>Operations\<close>

definition locked_counter ::
    "quota_db \<Rightarrow> quota_key \<Rightarrow> quota_error + quota_counter \<times> quota_db" where
  "locked_counter db q =
     (let rows = (if \<exists>c \<in> set (q_counters db). counter_key c = q then q_counters db
                  else q_counters db @
                    [\<lparr>qc_user_id = fst q, qc_limit_key = fst (snd q),
                      qc_window_start = snd (snd q), qc_used_value = 0, qc_reserved_value = 0\<rparr>])
      in case find (\<lambda>c. counter_key c = q) rows of
           None \<Rightarrow> Inl QuotaRuntimeError
         | Some c \<Rightarrow> Inr (c, db\<lparr>q_counters := rows\<rparr>))"

definition write_counter :: "quota_key \<Rightarrow> (quota_counter \<Rightarrow> quota_counter) \<Rightarrow> quota_db \<Rightarrow> quota_db" where
  "write_counter q f db = db\<lparr>q_counters := update_where (\<lambda>c. counter_key c = q) f (q_counters db)\<rparr>"

definition insert_reservation :: "quota_reservation \<Rightarrow> quota_db \<Rightarrow> quota_error + quota_db" where
  "insert_reservation r db =
     (if \<exists>x \<in> set (q_reservations db). reservation_key x = reservation_key r
      then Inl QuotaIntegrityError
      else Inr (db\<lparr>q_reservations := q_reservations db @ [r]\<rparr>))"

definition reserve_one ::
    "uuid \<Rightarrow> uuid \<Rightarrow> timestamp \<Rightarrow> quota_db \<Rightarrow> quota_spec \<Rightarrow> quota_error + quota_db" where
  "reserve_one user_id upload_session_id expires_at db spec =
     (let q = (user_id, qs_key spec, qs_window_start spec) in
      bind_r (locked_counter db q) (\<lambda>(counter, db1).
      bind_r (map_error QuotaDomain
                (check_and_calculate_reservation (qc_used_value counter)
                   (qc_reserved_value counter) (qs_amount spec) (qs_limit spec)))
        (\<lambda>calculation.
          insert_reservation
            \<lparr>qr_user_id = user_id, qr_upload_session_id = upload_session_id,
             qr_limit_key = qs_key spec, qr_window_start = qs_window_start spec,
             qr_amount = qs_amount spec, qr_status = HELD, qr_expires_at = expires_at\<rparr>
            (write_counter q (\<lambda>c. c\<lparr>qc_reserved_value := rc_new_reserved calculation\<rparr>) db1))))"

definition reserve_many ::
    "uuid \<Rightarrow> uuid \<Rightarrow> quota_spec list \<Rightarrow> timestamp \<Rightarrow> quota_db \<Rightarrow> quota_error + quota_db" where
  "reserve_many user_id upload_session_id specs expires_at db =
     fold_r (reserve_one user_id upload_session_id expires_at) db (sort_key qs_key specs)"

definition held_reservations :: "uuid \<Rightarrow> quota_db \<Rightarrow> quota_reservation list" where
  "held_reservations upload_session_id db =
     sort_key qr_limit_key
       (filter (\<lambda>r. qr_upload_session_id r = upload_session_id \<and> qr_status r = HELD)
          (q_reservations db))"

definition set_reservation_status ::
    "quota_reservation \<Rightarrow> reservation_status \<Rightarrow> quota_db \<Rightarrow> quota_db" where
  "set_reservation_status r st db =
     db\<lparr>q_reservations :=
          update_where (\<lambda>x. reservation_key x = reservation_key r) (\<lambda>x. x\<lparr>qr_status := st\<rparr>)
            (q_reservations db)\<rparr>"

definition consume_one :: "quota_db \<Rightarrow> quota_reservation \<Rightarrow> quota_error + quota_db" where
  "consume_one db r =
     bind_r (locked_counter db (reservation_quota r)) (\<lambda>(counter, db1).
     Inr (set_reservation_status r CONSUMED
       (write_counter (reservation_quota r)
          (\<lambda>c. c\<lparr>qc_reserved_value := max (qc_reserved_value counter - qr_amount r) 0,
                  qc_used_value := qc_used_value counter + qr_amount r\<rparr>) db1)))"

definition consume_upload_reservations :: "uuid \<Rightarrow> quota_db \<Rightarrow> quota_error + quota_db" where
  "consume_upload_reservations upload_session_id db =
     fold_r consume_one db (held_reservations upload_session_id db)"

definition release_one ::
    "reservation_status \<Rightarrow> quota_db \<Rightarrow> quota_reservation \<Rightarrow> quota_error + quota_db" where
  "release_one status db r =
     bind_r (locked_counter db (reservation_quota r)) (\<lambda>(counter, db1).
     Inr (set_reservation_status r status
       (write_counter (reservation_quota r)
          (\<lambda>c. c\<lparr>qc_reserved_value := max (qc_reserved_value counter - qr_amount r) 0\<rparr>) db1)))"

definition release_upload_reservations ::
    "uuid \<Rightarrow> reservation_status \<Rightarrow> quota_db \<Rightarrow> quota_error + quota_db" where
  "release_upload_reservations upload_session_id status db =
     fold_r (release_one status) db (held_reservations upload_session_id db)"

definition consume ::
    "uuid \<Rightarrow> string \<Rightarrow> int \<Rightarrow> limit_value \<Rightarrow> timestamp \<Rightarrow> quota_db \<Rightarrow> quota_error + quota_db" where
  "consume user_id key amount limit window_start db =
     (let q = (user_id, key, window_start) in
      bind_r (locked_counter db q) (\<lambda>(counter, db1).
      bind_r (map_error QuotaDomain
                (check_and_calculate_reservation (qc_used_value counter)
                   (qc_reserved_value counter) amount limit))
        (\<lambda>_. Inr (write_counter q (\<lambda>c. c\<lparr>qc_used_value := qc_used_value counter + amount\<rparr>) db1))))"

section \<open>Metering manual entries (knowledge\_entry\_quota.py)\<close>

text \<open>
  Entry bodies are lists of Unicode code points. Encoding a lone surrogate raises
  \<open>UnicodeEncodeError\<close>, which is \<open>None\<close> here.
\<close>

definition utf8_char_size :: "nat \<Rightarrow> int" where
  "utf8_char_size c = (if c < 128 then 1 else if c < 2048 then 2 else if c < 65536 then 3 else 4)"

definition is_surrogate :: "nat \<Rightarrow> bool" where
  "is_surrogate c \<longleftrightarrow> 55296 \<le> c \<and> c \<le> 57343"

definition utf8_size :: "unicode \<Rightarrow> int option" where
  "utf8_size value =
     (if \<exists>c \<in> set value. is_surrogate c then None else Some (sum_list (map utf8_char_size value)))"

definition positive_utf8_growth :: "unicode option \<Rightarrow> unicode \<Rightarrow> int option" where
  "positive_utf8_growth previous_content next_content =
     Option.bind (case previous_content of None \<Rightarrow> Some 0 | Some p \<Rightarrow> utf8_size p) (\<lambda>previous_bytes.
     Option.bind (utf8_size next_content) (\<lambda>next_bytes.
     Some (max (next_bytes - previous_bytes) 0)))"

definition consume_manual_entry_storage_quota ::
    "uuid \<Rightarrow> limit_value \<Rightarrow> unicode option \<Rightarrow> unicode \<Rightarrow> quota_db \<Rightarrow> quota_error + int \<times> quota_db" where
  "consume_manual_entry_storage_quota user_id storage_limit previous_content next_content db =
     (case positive_utf8_growth previous_content next_content of
        None \<Rightarrow> Inl QuotaUnicodeEncodeError
      | Some charge_bytes \<Rightarrow>
          if charge_bytes = 0 then Inr (0, db)
          else bind_r (consume user_id ''storage_bytes'' charge_bytes storage_limit
                         lifetime_window_start db)
                 (\<lambda>db'. Inr (charge_bytes, db')))"

section \<open>Abstraction and invariant\<close>

definition used_of :: "quota_db \<Rightarrow> quota_key \<Rightarrow> int" where
  "used_of db q = (case find (\<lambda>c. counter_key c = q) (q_counters db) of
     None \<Rightarrow> 0 | Some c \<Rightarrow> qc_used_value c)"

definition reserved_of :: "quota_db \<Rightarrow> quota_key \<Rightarrow> int" where
  "reserved_of db q = (case find (\<lambda>c. counter_key c = q) (q_counters db) of
     None \<Rightarrow> 0 | Some c \<Rightarrow> qc_reserved_value c)"

definition held_at :: "quota_key \<Rightarrow> quota_reservation \<Rightarrow> bool" where
  "held_at q r \<longleftrightarrow> reservation_quota r = q \<and> qr_status r = HELD"

definition held_sum :: "quota_db \<Rightarrow> quota_key \<Rightarrow> int" where
  "held_sum db q = sum_rows (held_at q) qr_amount (q_reservations db)"

definition quota_inv :: "quota_db \<Rightarrow> bool" where
  "quota_inv db \<longleftrightarrow>
     keyed counter_key (q_counters db) \<and>
     keyed reservation_key (q_reservations db) \<and>
     (\<forall>c \<in> set (q_counters db). quota_counter_checks c) \<and>
     (\<forall>r \<in> set (q_reservations db). quota_reservation_checks r) \<and>
     (\<forall>q. reserved_of db q = held_sum db q)"

section \<open>Characteristic facts of the row operations\<close>

lemma find_counter_append:
  "find (\<lambda>c. counter_key c = q) (rows @ [c]) =
     (case find (\<lambda>c. counter_key c = q) rows of
        None \<Rightarrow> if counter_key c = q then Some c else None | Some x \<Rightarrow> Some x)"
  by (simp add: find_append split: option.splits)

lemma locked_counterE:
  obtains c rows where "locked_counter db q = Inr (c, db\<lparr>q_counters := rows\<rparr>)"
    "find (\<lambda>c. counter_key c = q) rows = Some c"
    "qc_used_value c = used_of db q" "qc_reserved_value c = reserved_of db q"
    "\<And>q'. used_of (db\<lparr>q_counters := rows\<rparr>) q' = used_of db q'"
    "\<And>q'. reserved_of (db\<lparr>q_counters := rows\<rparr>) q' = reserved_of db q'"
    "keyed counter_key (q_counters db) \<Longrightarrow> keyed counter_key rows"
    "\<forall>x \<in> set (q_counters db). quota_counter_checks x \<Longrightarrow> \<forall>x \<in> set rows. quota_counter_checks x"
proof (cases "\<exists>c \<in> set (q_counters db). counter_key c = q")
  case True
  then obtain c where c: "find (\<lambda>c. counter_key c = q) (q_counters db) = Some c"
    using find_ex_iff[of "\<lambda>c. counter_key c = q" "q_counters db"] by blast
  show thesis
    by (rule that[of c "q_counters db"])
      (use True c in \<open>simp_all add: locked_counter_def used_of_def reserved_of_def\<close>)
next
  case False
  let ?c = "\<lparr>qc_user_id = fst q, qc_limit_key = fst (snd q), qc_window_start = snd (snd q),
             qc_used_value = 0, qc_reserved_value = 0\<rparr>"
  have k: "counter_key ?c = q" by (simp add: counter_key_def)
  have none: "find (\<lambda>c. counter_key c = q) (q_counters db) = None"
    using False by (auto simp: find_None_iff)
  show thesis
    by (rule that[of ?c "q_counters db @ [?c]"])
      (use False k none in \<open>auto simp: locked_counter_def used_of_def reserved_of_def
         find_counter_append keyed_append quota_counter_checks_def split: option.splits\<close>)
qed

lemma find_counter_update:
  assumes "\<And>x. counter_key (f x) = counter_key x"
  shows "find (\<lambda>c. counter_key c = q') (update_where (\<lambda>c. counter_key c = q) f rows) =
     map_option (\<lambda>c. if q' = q then f c else c) (find (\<lambda>c. counter_key c = q') rows)"
  using assms by (induction rows) auto

text \<open>Lock a counter, then overwrite its values: the effect on every quota.\<close>

lemma locked_write:
  assumes lk: "locked_counter db q = Inr (c, db1)"
    and f: "\<And>x. counter_key (f x) = counter_key x"
  shows "used_of (write_counter q f db1) q' = (if q' = q then qc_used_value (f c) else used_of db q')"
    and "reserved_of (write_counter q f db1) q' =
           (if q' = q then qc_reserved_value (f c) else reserved_of db q')"
    and "q_reservations (write_counter q f db1) = q_reservations db"
    and "qc_used_value c = used_of db q" and "qc_reserved_value c = reserved_of db q"
    and "keyed counter_key (q_counters db) \<Longrightarrow> keyed counter_key (q_counters (write_counter q f db1))"
    and "(\<forall>x \<in> set (q_counters db). quota_counter_checks x) \<Longrightarrow> 
           (\<And>x. quota_counter_checks x \<Longrightarrow> quota_counter_checks (f x)) \<Longrightarrow>
           (\<forall>x \<in> set (q_counters (write_counter q f db1)). quota_counter_checks x)"
proof -
  obtain c0 rows where e: "locked_counter db q = Inr (c0, db\<lparr>q_counters := rows\<rparr>)"
    and fnd: "find (\<lambda>c. counter_key c = q) rows = Some c0"
    and vals: "qc_used_value c0 = used_of db q" "qc_reserved_value c0 = reserved_of db q"
    and fr: "\<And>q'. used_of (db\<lparr>q_counters := rows\<rparr>) q' = used_of db q'"
      "\<And>q'. reserved_of (db\<lparr>q_counters := rows\<rparr>) q' = reserved_of db q'"
    and ky: "keyed counter_key (q_counters db) \<Longrightarrow> keyed counter_key rows"
    and all: "\<forall>x \<in> set (q_counters db). quota_counter_checks x \<Longrightarrow>
       \<forall>x \<in> set rows. quota_counter_checks x"
    using locked_counterE[of db q] by blast
  have [simp]: "c0 = c" "db1 = db\<lparr>q_counters := rows\<rparr>" using lk e by auto
  show "used_of (write_counter q f db1) q' = (if q' = q then qc_used_value (f c) else used_of db q')"
    using fnd fr(1)[of q', symmetric]
    by (auto simp: write_counter_def used_of_def find_counter_update[OF f] split: option.splits)
  show "reserved_of (write_counter q f db1) q' =
      (if q' = q then qc_reserved_value (f c) else reserved_of db q')"
    using fnd fr(2)[of q', symmetric]
    by (auto simp: write_counter_def reserved_of_def find_counter_update[OF f] split: option.splits)
  show "q_reservations (write_counter q f db1) = q_reservations db"
    by (simp add: write_counter_def)
  show "qc_used_value c = used_of db q" "qc_reserved_value c = reserved_of db q"
    using vals by simp_all
  show "keyed counter_key (q_counters (write_counter q f db1))" if "keyed counter_key (q_counters db)"
    using ky[OF that] f by (simp add: write_counter_def keyed_update_where)
  show "\<forall>x \<in> set (q_counters (write_counter q f db1)). quota_counter_checks x"
    if "\<forall>x \<in> set (q_counters db). quota_counter_checks x"
      "\<And>x. quota_counter_checks x \<Longrightarrow> quota_counter_checks (f x)"
    using all[OF that(1)] that(2) by (auto simp: write_counter_def set_update_where)
qed

lemma locked_counter_ok: "\<exists>c db1. locked_counter db q = Inr (c, db1)"
  by (rule locked_counterE[of db q]) blast

lemma counter_key_writes [simp]:
  "counter_key (c\<lparr>qc_used_value := a\<rparr>) = counter_key c"
  "counter_key (c\<lparr>qc_reserved_value := a\<rparr>) = counter_key c"
  by (simp_all add: counter_key_def)

lemma used_of_reservations [simp]: "used_of (db\<lparr>q_reservations := rs\<rparr>) = used_of db"
  by (rule ext) (simp add: used_of_def)

lemma reserved_of_reservations [simp]: "reserved_of (db\<lparr>q_reservations := rs\<rparr>) = reserved_of db"
  by (rule ext) (simp add: reserved_of_def)

lemma used_of_nonneg: "quota_inv db \<Longrightarrow> 0 \<le> used_of db q"
  by (auto simp: quota_inv_def used_of_def quota_counter_checks_def split: option.splits
      dest!: find_Some_in_set)

lemma held_sum_nonneg: "quota_inv db \<Longrightarrow> 0 \<le> held_sum db q"
  unfolding held_sum_def
  by (rule sum_rows_nonneg) (auto simp: quota_inv_def quota_reservation_checks_def)

lemma quota_invD:
  assumes "quota_inv db"
  shows "keyed counter_key (q_counters db)" "keyed reservation_key (q_reservations db)"
    "\<forall>c \<in> set (q_counters db). quota_counter_checks c"
    "\<forall>r \<in> set (q_reservations db). quota_reservation_checks r"
    "reserved_of db q = held_sum db q"
  using assms unfolding quota_inv_def by blast+

section \<open>Reserving\<close>

definition new_reservation :: "uuid \<Rightarrow> uuid \<Rightarrow> timestamp \<Rightarrow> quota_spec \<Rightarrow> quota_reservation" where
  "new_reservation user_id session_id expires_at spec =
     \<lparr>qr_user_id = user_id, qr_upload_session_id = session_id, qr_limit_key = qs_key spec,
      qr_window_start = qs_window_start spec, qr_amount = qs_amount spec, qr_status = HELD,
      qr_expires_at = expires_at\<rparr>"

definition spec_quota :: "uuid \<Rightarrow> quota_spec \<Rightarrow> quota_key" where
  "spec_quota user_id spec = (user_id, qs_key spec, qs_window_start spec)"

lemma reserve_oneD:
  assumes "reserve_one uid sid t db spec = Inr db'"
  shows "used_of db' q = used_of db q"
    and "reserved_of db' q =
           reserved_of db q + (if q = spec_quota uid spec then qs_amount spec else 0)"
    and "q_reservations db' = q_reservations db @ [new_reservation uid sid t spec]"
    and "(sid, qs_key spec) \<notin> reservation_key ` set (q_reservations db)"
    and "0 \<le> qs_amount spec"
    and "keyed counter_key (q_counters db) \<Longrightarrow> keyed counter_key (q_counters db')"
    and "\<forall>x \<in> set (q_counters db). quota_counter_checks x \<Longrightarrow>
         \<forall>x \<in> set (q_counters db'). quota_counter_checks x"
    and "qs_limit spec = Some l \<Longrightarrow> 0 < qs_amount spec \<Longrightarrow>
         used_of db' (spec_quota uid spec) + reserved_of db' (spec_quota uid spec) \<le> l"
proof -
  let ?q = "spec_quota uid spec"
  obtain c db1 calc where lk: "locked_counter db ?q = Inr (c, db1)"
    and calc: "check_and_calculate_reservation (qc_used_value c) (qc_reserved_value c)
        (qs_amount spec) (qs_limit spec) = Inr calc"
    and ins: "insert_reservation (new_reservation uid sid t spec)
        (write_counter ?q (\<lambda>c. c\<lparr>qc_reserved_value := rc_new_reserved calc\<rparr>) db1) = Inr db'"
    using assms
    by (auto simp: reserve_one_def Let_def spec_quota_def new_reservation_def result_simps
        split: prod.splits)
  let ?db2 = "write_counter ?q (\<lambda>c. c\<lparr>qc_reserved_value := rc_new_reserved calc\<rparr>) db1"
  note w = locked_write[OF lk, of "\<lambda>c. c\<lparr>qc_reserved_value := rc_new_reserved calc\<rparr>", simplified]
  note ck = check_reservation_Inr[OF calc]
  have db': "db' = ?db2\<lparr>q_reservations := q_reservations ?db2 @ [new_reservation uid sid t spec]\<rparr>"
    and fresh: "\<not> (\<exists>x \<in> set (q_reservations ?db2).
        reservation_key x = reservation_key (new_reservation uid sid t spec))"
    using ins by (auto simp: insert_reservation_def split: if_splits)
  show "used_of db' q = used_of db q"
    using w(1,4) by (simp add: db')
  show res: "reserved_of db' q = reserved_of db q + (if q = ?q then qs_amount spec else 0)" for q
    using w(2,5) ck by (simp add: db')
  show "q_reservations db' = q_reservations db @ [new_reservation uid sid t spec]"
    using w(3) by (simp add: db')
  show "(sid, qs_key spec) \<notin> reservation_key ` set (q_reservations db)"
    using fresh w(3) by (auto simp: reservation_key_def new_reservation_def)
  show "0 \<le> qs_amount spec" using ck by simp
  show "keyed counter_key (q_counters db')" if "keyed counter_key (q_counters db)"
    using w(6) that by (simp add: db')
  show "\<forall>x \<in> set (q_counters db'). quota_counter_checks x"
    if "\<forall>x \<in> set (q_counters db). quota_counter_checks x"
    using w(7)[OF that] ck by (simp add: db' quota_counter_checks_def)
  show "used_of db' ?q + reserved_of db' ?q \<le> l" if "qs_limit spec = Some l" "0 < qs_amount spec"
    using check_reservation_positive_Inr(1)[of "qc_used_value c" "qc_reserved_value c"
        "qs_amount spec" l calc] calc that w(1,4,5) res by (simp add: db')
qed

lemma held_at_new: "held_at q (new_reservation uid sid t spec) \<longleftrightarrow> q = spec_quota uid spec"
  by (auto simp: held_at_def new_reservation_def reservation_quota_def spec_quota_def)

lemma reserve_one_inv:
  assumes inv: "quota_inv db" and ok: "reserve_one uid sid t db spec = Inr db'"
  shows "quota_inv db'"
proof -
  note d = reserve_oneD[OF ok]
  note i = quota_invD[OF inv]
  have amt: "qr_amount (new_reservation uid sid t spec) = qs_amount spec"
    by (simp add: new_reservation_def)
  have "held_sum db' q = held_sum db q + (if q = spec_quota uid spec then qs_amount spec else 0)" for q
    by (simp add: held_sum_def d(3) held_at_new amt)
  then have "\<forall>q. reserved_of db' q = held_sum db' q"
    using d(2) i(5) by simp
  moreover have "keyed reservation_key (q_reservations db')"
    using i(2) d(4) by (auto simp: d(3) keyed_append reservation_key_def new_reservation_def)
  moreover have "\<forall>r \<in> set (q_reservations db'). quota_reservation_checks r"
    using i(4) d(5) amt by (auto simp: d(3) quota_reservation_checks_def)
  ultimately show ?thesis
    using d(6)[OF i(1)] d(7)[OF i(3)] by (simp add: quota_inv_def)
qed

lemma reserve_fold:
  assumes "fold_r (reserve_one uid sid t) db specs = Inr db'"
  shows "used_of db' q = used_of db q"
    and "reserved_of db' q =
           reserved_of db q + sum_rows (\<lambda>s. spec_quota uid s = q) qs_amount specs"
    and "q_reservations db' = q_reservations db @ map (new_reservation uid sid t) specs"
    and "\<forall>s \<in> set specs. 0 \<le> qs_amount s"
    and "\<forall>s \<in> set specs. (sid, qs_key s) \<notin> reservation_key ` set (q_reservations db)"
proof -
  have "used_of db' q = used_of db q \<and>
     reserved_of db' q = reserved_of db q + sum_rows (\<lambda>s. spec_quota uid s = q) qs_amount specs \<and>
     q_reservations db' = q_reservations db @ map (new_reservation uid sid t) specs \<and>
     (\<forall>s \<in> set specs. 0 \<le> qs_amount s) \<and>
     (\<forall>s \<in> set specs. (sid, qs_key s) \<notin> reservation_key ` set (q_reservations db))"
    using assms
  proof (induction specs arbitrary: db)
    case Nil
    then show ?case by simp
  next
    case (Cons s specs)
    then obtain db1 where ok: "reserve_one uid sid t db s = Inr db1"
      and rest: "fold_r (reserve_one uid sid t) db1 specs = Inr db'"
      by (auto simp: result_simps)
    note d = reserve_oneD[OF ok]
    from Cons.IH[OF rest] d(4,5) show ?case
      by (auto simp: d(1-3))
  qed
  then show "used_of db' q = used_of db q"
    and "reserved_of db' q =
           reserved_of db q + sum_rows (\<lambda>s. spec_quota uid s = q) qs_amount specs"
    and "q_reservations db' = q_reservations db @ map (new_reservation uid sid t) specs"
    and "\<forall>s \<in> set specs. 0 \<le> qs_amount s"
    and "\<forall>s \<in> set specs. (sid, qs_key s) \<notin> reservation_key ` set (q_reservations db)"
    by blast+
qed

lemma sum_rows_sort_key:
  "sum_rows p v (sort_key k xs) = sum_rows p v (xs :: 'a list)" for k :: "'a \<Rightarrow> 'b::linorder"
proof -
  have "mset (map v (filter p (sort_key k xs))) = mset (map v (filter p xs))"
    by (simp add: mset_filter)
  then show ?thesis unfolding sum_rows_def by (metis sum_mset_sum_list)
qed

lemma reserve_many_inv: "quota_inv db \<Longrightarrow> reserve_many uid sid specs t db = Inr db' \<Longrightarrow> quota_inv db'"
  unfolding reserve_many_def
  by (rule fold_r_invariant[where P = quota_inv]) (auto intro: reserve_one_inv)

section \<open>Settling: consuming and releasing holds\<close>

text \<open>Both loops do the same to the reserved value and differ in the used value.\<close>

definition settle_one ::
    "bool \<Rightarrow> reservation_status \<Rightarrow> quota_db \<Rightarrow> quota_reservation \<Rightarrow> quota_error + quota_db" where
  "settle_one charge st db r =
     bind_r (locked_counter db (reservation_quota r)) (\<lambda>(counter, db1).
     Inr (set_reservation_status r st
       (write_counter (reservation_quota r)
          (\<lambda>c. c\<lparr>qc_reserved_value := max (qc_reserved_value counter - qr_amount r) 0,
                  qc_used_value := (if charge then qc_used_value counter + qr_amount r
                                    else qc_used_value c)\<rparr>) db1)))"

lemma consume_one_settle: "consume_one = settle_one True CONSUMED"
  by (intro ext) (simp add: consume_one_def settle_one_def)

lemma release_one_settle: "release_one st = settle_one False st"
proof -
  have "(\<lambda>c. c\<lparr>qc_reserved_value := x, qc_used_value := qc_used_value c\<rparr>) =
        (\<lambda>c. c\<lparr>qc_reserved_value := x\<rparr>)" for x
    by (rule ext) simp
  then show ?thesis by (intro ext) (simp add: release_one_def settle_one_def)
qed

definition charge_amount :: "bool \<Rightarrow> quota_key \<Rightarrow> quota_reservation \<Rightarrow> int" where
  "charge_amount charge q r = (if charge \<and> reservation_quota r = q then qr_amount r else 0)"

lemma settle_oneE:
  assumes inv: "quota_inv db" and r: "r \<in> set (q_reservations db)" "qr_status r = HELD"
    and st: "st \<noteq> HELD"
  obtains db' where "settle_one charge st db r = Inr db'" "quota_inv db'"
    "\<And>q. used_of db' q = used_of db q + charge_amount charge q r"
    "\<And>q. reserved_of db' q = reserved_of db q - (if reservation_quota r = q then qr_amount r else 0)"
    "q_reservations db' = update_where (\<lambda>x. reservation_key x = reservation_key r)
       (\<lambda>x. x\<lparr>qr_status := st\<rparr>) (q_reservations db)"
proof -
  let ?q = "reservation_quota r"
  note i = quota_invD[OF inv]
  obtain c db1 where lk: "locked_counter db ?q = Inr (c, db1)"
    using locked_counter_ok by blast
  let ?f = "\<lambda>x. x\<lparr>qc_reserved_value := max (qc_reserved_value c - qr_amount r) 0,
      qc_used_value := (if charge then qc_used_value c + qr_amount r else qc_used_value x)\<rparr>"
  let ?db2 = "write_counter ?q ?f db1"
  define db' where "db' = set_reservation_status r st ?db2"
  have kf: "counter_key (?f x) = counter_key x" for x by (simp add: counter_key_def)
  note w = locked_write[OF lk kf]
  have amt: "0 \<le> qr_amount r" using i(4) r(1) by (auto simp: quota_reservation_checks_def)
  have used0: "0 \<le> qc_used_value c" using w(4) used_of_nonneg[OF inv] by simp
  have "qr_amount r \<le> held_sum db ?q"
    unfolding held_sum_def using i(4) r
    by (intro sum_rows_member_le) (auto simp: held_at_def quota_reservation_checks_def)
  then have clip: "max (qc_reserved_value c - qr_amount r) 0 = reserved_of db ?q - qr_amount r"
    using i(5)[of ?q] w(5) by simp
  have U: "used_of db' q = used_of db q + charge_amount charge q r" for q
    using w(1)[of q] w(4) by (simp add: db'_def set_reservation_status_def charge_amount_def)
  have R: "reserved_of db' q = reserved_of db q - (if ?q = q then qr_amount r else 0)" for q
    using w(2)[of q] clip by (auto simp: db'_def set_reservation_status_def)
  have Q: "q_reservations db' = update_where (\<lambda>x. reservation_key x = reservation_key r)
       (\<lambda>x. x\<lparr>qr_status := st\<rparr>) (q_reservations db)"
    using w(3) by (simp add: db'_def set_reservation_status_def)
  have C: "q_counters db' = q_counters ?db2" by (simp add: db'_def set_reservation_status_def)
  have S: "settle_one charge st db r = Inr db'"
    using lk by (simp add: settle_one_def db'_def)
  have sums: "held_sum db' q = held_sum db q - (if ?q = q then qr_amount r else 0)" for q
  proof (cases "?q = q")
    case True
    with r st show ?thesis
      unfolding held_sum_def Q by (subst sum_rows_update_one[OF i(2)]) (auto simp: held_at_def)
  next
    case False
    have "sum_rows (held_at q) qr_amount (q_reservations db') =
          sum_rows (held_at q) qr_amount (q_reservations db)"
      unfolding Q sum_rows_def using False r i(2) st
      by (subst filter_update_where_other)
        (auto simp: held_at_def reservation_quota_def dest: keyed_unique)
    with False show ?thesis by (simp add: held_sum_def)
  qed
  have "quota_inv db'"
    unfolding quota_inv_def
  proof (intro conjI)
    show "keyed counter_key (q_counters db')" using w(6)[OF i(1)] C by simp
    show "keyed reservation_key (q_reservations db')"
      unfolding Q using i(2) by (subst keyed_update_where) (auto simp: reservation_key_def)
    show "\<forall>c \<in> set (q_counters db'). quota_counter_checks c"
      using w(7)[OF i(3)] used0 amt C by (simp add: quota_counter_checks_def)
    show "\<forall>r \<in> set (q_reservations db'). quota_reservation_checks r"
      unfolding Q set_update_where using i(4) by (auto simp: quota_reservation_checks_def)
    show "\<forall>q. reserved_of db' q = held_sum db' q" using R sums i(5) by simp
  qed
  with S U R Q that show thesis by blast
qed

text \<open>The loop over a snapshot of held reservations.\<close>

definition mark :: "quota_reservation list \<Rightarrow> reservation_status \<Rightarrow> quota_reservation \<Rightarrow> quota_reservation" where
  "mark rs st x = (if reservation_key x \<in> reservation_key ` set rs then x\<lparr>qr_status := st\<rparr> else x)"

lemma settle_foldE:
  assumes "quota_inv db" "set rs \<subseteq> set (q_reservations db)" "\<forall>r \<in> set rs. qr_status r = HELD"
    "keyed reservation_key rs" "st \<noteq> HELD"
  obtains db' where "fold_r (settle_one charge st) db rs = Inr db'" "quota_inv db'"
    "\<And>q. used_of db' q = used_of db q + (if charge then sum_rows (\<lambda>r. reservation_quota r = q) qr_amount rs else 0)"
    "\<And>q. reserved_of db' q = reserved_of db q - sum_rows (\<lambda>r. reservation_quota r = q) qr_amount rs"
    "q_reservations db' = map (mark rs st) (q_reservations db)"
  using assms
proof (induction rs arbitrary: db thesis)
  case Nil
  have "map (mark [] st) xs = xs" for xs by (rule map_idI) (simp add: mark_def)
  with Nil show ?case by simp
next
  case (Cons r rs)
  obtain db1 where one: "settle_one charge st db r = Inr db1" "quota_inv db1"
    "\<And>q. used_of db1 q = used_of db q + charge_amount charge q r"
    "\<And>q. reserved_of db1 q = reserved_of db q - (if reservation_quota r = q then qr_amount r else 0)"
    "q_reservations db1 = update_where (\<lambda>x. reservation_key x = reservation_key r)
       (\<lambda>x. x\<lparr>qr_status := st\<rparr>) (q_reservations db)"
    using Cons.prems settle_oneE[of db r st charge] by auto
  have sub: "set rs \<subseteq> set (q_reservations db1)"
  proof
    fix x assume x: "x \<in> set rs"
    with Cons.prems(3,5) have "x \<in> set (q_reservations db)" "reservation_key x \<noteq> reservation_key r"
      by (auto simp: image_iff)
    then show "x \<in> set (q_reservations db1)" by (force simp: one(5) set_update_where)
  qed
  obtain db' where rest: "fold_r (settle_one charge st) db1 rs = Inr db'" "quota_inv db'"
    "\<And>q. used_of db' q = used_of db1 q + (if charge then sum_rows (\<lambda>r. reservation_quota r = q) qr_amount rs else 0)"
    "\<And>q. reserved_of db' q = reserved_of db1 q - sum_rows (\<lambda>r. reservation_quota r = q) qr_amount rs"
    "q_reservations db' = map (mark rs st) (q_reservations db1)"
    using Cons.IH[of db1] one(2) sub Cons.prems(4,5,6) by auto
  have "map (mark rs st) (q_reservations db1) = map (mark (r # rs) st) (q_reservations db)"
    by (auto simp: one(5) update_where_def mark_def reservation_key_def)
  with rest one show ?case
    by (intro Cons.prems(1)[of db']) (auto simp: charge_amount_def)
qed

section \<open>The holds of one upload session\<close>

definition session_held :: "uuid \<Rightarrow> quota_key \<Rightarrow> quota_reservation \<Rightarrow> bool" where
  "session_held sid q r \<longleftrightarrow> qr_upload_session_id r = sid \<and> held_at q r"

definition hold_of :: "quota_db \<Rightarrow> uuid \<Rightarrow> quota_key \<Rightarrow> int" where
  "hold_of db sid q = sum_rows (session_held sid q) qr_amount (q_reservations db)"

lemma held_reservations_facts:
  assumes "quota_inv db"
  shows "set (held_reservations sid db) \<subseteq> set (q_reservations db)"
    and "\<forall>r \<in> set (held_reservations sid db). qr_status r = HELD"
    and "keyed reservation_key (held_reservations sid db)"
    and "sum_rows (\<lambda>r. reservation_quota r = q) qr_amount (held_reservations sid db) = hold_of db sid q"
proof -
  show "set (held_reservations sid db) \<subseteq> set (q_reservations db)"
    "\<forall>r \<in> set (held_reservations sid db). qr_status r = HELD"
    by (auto simp: held_reservations_def)
  let ?p = "\<lambda>r. qr_upload_session_id r = sid \<and> qr_status r = HELD"
  have "keyed reservation_key (filter ?p (q_reservations db))"
    using quota_invD(2)[OF assms] by (rule keyed_filter)
  moreover have "mset (map reservation_key (held_reservations sid db)) =
      mset (map reservation_key (filter ?p (q_reservations db)))"
    by (simp add: held_reservations_def)
  ultimately show "keyed reservation_key (held_reservations sid db)"
    unfolding keyed_def by (metis mset_eq_imp_distinct_iff)
  have "sum_rows (\<lambda>r. reservation_quota r = q) qr_amount (filter ?p rows) =
        sum_rows (session_held sid q) qr_amount rows" for rows
    by (induction rows) (auto simp: session_held_def held_at_def)
  then show "sum_rows (\<lambda>r. reservation_quota r = q) qr_amount (held_reservations sid db) = hold_of db sid q"
    by (simp add: held_reservations_def sum_rows_sort_key hold_of_def)
qed

lemma mark_session:
  assumes "x \<in> set (q_reservations db)" "quota_inv db"
  shows "mark (held_reservations sid db) st x =
     (if qr_upload_session_id x = sid \<and> qr_status x = HELD then x\<lparr>qr_status := st\<rparr> else x)"
proof -
  have "reservation_key x \<in> reservation_key ` set (held_reservations sid db) \<longleftrightarrow>
        qr_upload_session_id x = sid \<and> qr_status x = HELD"
  proof
    assume "reservation_key x \<in> reservation_key ` set (held_reservations sid db)"
    then obtain y where y: "y \<in> set (held_reservations sid db)" "reservation_key x = reservation_key y"
      by blast
    then have "y \<in> set (q_reservations db)" by (simp add: held_reservations_def)
    with y(2) have "x = y" by (rule keyed_unique[OF quota_invD(2)[OF assms(2)] assms(1), rotated])
    with y(1) show "qr_upload_session_id x = sid \<and> qr_status x = HELD"
      by (simp add: held_reservations_def)
  next
    assume "qr_upload_session_id x = sid \<and> qr_status x = HELD"
    with assms(1) show "reservation_key x \<in> reservation_key ` set (held_reservations sid db)"
      by (intro imageI) (simp add: held_reservations_def)
  qed
  then show ?thesis by (simp add: mark_def)
qed

lemma hold_of_after:
  assumes "quota_inv db" "st \<noteq> HELD"
    "q_reservations db' = map (mark (held_reservations sid db) st) (q_reservations db)"
  shows "hold_of db' sid' q = (if sid' = sid then 0 else hold_of db sid' q)"
proof -
  have "q_reservations db' = map (\<lambda>x. if qr_upload_session_id x = sid \<and> qr_status x = HELD
      then x\<lparr>qr_status := st\<rparr> else x) (q_reservations db)"
    unfolding assms(3) using assms(1) by (auto simp: mark_session)
  then have *: "q_reservations db' = update_where (\<lambda>x. qr_upload_session_id x = sid \<and> qr_status x = HELD)
      (\<lambda>x. x\<lparr>qr_status := st\<rparr>) (q_reservations db)"
    by (simp add: update_where_def)
  show ?thesis
  proof (cases "sid' = sid")
    case True
    have "hold_of db' sid q = 0"
      unfolding hold_of_def *
    proof (rule sum_rows_none)
      fix r
      assume "r \<in> set (update_where (\<lambda>x. qr_upload_session_id x = sid \<and> qr_status x = HELD)
        (\<lambda>x. x\<lparr>qr_status := st\<rparr>) (q_reservations db))"
      then show "\<not> session_held sid q r"
        by (rule in_update_whereE) (use assms(2) in \<open>auto simp: session_held_def held_at_def\<close>)
    qed
    with True show ?thesis by simp
  next
    case False
    then show ?thesis
      unfolding hold_of_def * sum_rows_def
      by (subst filter_update_where_other) (auto simp: session_held_def)
  qed
qed

lemma consume_upload_eq:
  "consume_upload_reservations sid db = fold_r (settle_one True CONSUMED) db (held_reservations sid db)"
  by (simp add: consume_upload_reservations_def consume_one_settle)

lemma release_upload_eq:
  "release_upload_reservations sid st db = fold_r (settle_one False st) db (held_reservations sid db)"
  by (simp add: release_upload_reservations_def release_one_settle)

lemma settle_sessionE:
  assumes "quota_inv db" "st \<noteq> HELD"
  obtains db' where "fold_r (settle_one charge st) db (held_reservations sid db) = Inr db'" "quota_inv db'"
    "\<And>q. used_of db' q = used_of db q + (if charge then hold_of db sid q else 0)"
    "\<And>q. reserved_of db' q = reserved_of db q - hold_of db sid q"
    "\<And>sid' q. hold_of db' sid' q = (if sid' = sid then 0 else hold_of db sid' q)"
proof -
  note h = held_reservations_facts[OF assms(1), where sid = sid]
  obtain db' where d: "fold_r (settle_one charge st) db (held_reservations sid db) = Inr db'" "quota_inv db'"
    "\<And>q. used_of db' q = used_of db q + (if charge then sum_rows (\<lambda>r. reservation_quota r = q) qr_amount (held_reservations sid db) else 0)"
    "\<And>q. reserved_of db' q = reserved_of db q - sum_rows (\<lambda>r. reservation_quota r = q) qr_amount (held_reservations sid db)"
    "q_reservations db' = map (mark (held_reservations sid db) st) (q_reservations db)"
    using settle_foldE[OF assms(1) h(1,2,3) assms(2), of charge] by blast
  show thesis
    using that[of db'] d h(4) hold_of_after[OF assms d(5)] by simp
qed

section \<open>Direct consumption\<close>

lemma consumeD:
  assumes ok: "consume uid key amount limit w db = Inr db'"
  shows "used_of db' q = used_of db q + (if q = (uid, key, w) then amount else 0)"
    and "reserved_of db' q = reserved_of db q"
    and "q_reservations db' = q_reservations db"
    and "0 \<le> amount"
    and "limit = Some l \<Longrightarrow> 0 < amount \<Longrightarrow>
         used_of db' (uid, key, w) + reserved_of db' (uid, key, w) \<le> l"
    and "quota_inv db \<Longrightarrow> quota_inv db'"
proof -
  let ?q = "(uid, key, w)"
  obtain c db1 calc where lk: "locked_counter db ?q = Inr (c, db1)"
    and calc: "check_and_calculate_reservation (qc_used_value c) (qc_reserved_value c) amount limit = Inr calc"
    and db': "db' = write_counter ?q (\<lambda>x. x\<lparr>qc_used_value := qc_used_value c + amount\<rparr>) db1"
    using ok by (auto simp: consume_def Let_def result_simps split: prod.splits)
  note wr = locked_write[OF lk, of "\<lambda>x. x\<lparr>qc_used_value := qc_used_value c + amount\<rparr>", simplified]
  note ck = check_reservation_Inr[OF calc]
  show used: "used_of db' q = used_of db q + (if q = ?q then amount else 0)" for q
    using wr(1,4) by (simp add: db')
  show res: "reserved_of db' q = reserved_of db q" for q
    using wr(2,5) by (simp add: db')
  show rows: "q_reservations db' = q_reservations db" using wr(3) by (simp add: db')
  show "0 \<le> amount" using ck by simp
  show "used_of db' ?q + reserved_of db' ?q \<le> l" if "limit = Some l" "0 < amount"
    using check_reservation_positive_Inr(1)[of "qc_used_value c" "qc_reserved_value c" amount l calc]
      calc that wr(4,5) used[of ?q] res[of ?q] by simp
  show "quota_inv db'" if inv: "quota_inv db"
    using quota_invD[OF inv] wr(6,7) ck res rows
    unfolding quota_inv_def held_sum_def db' by (auto simp: quota_counter_checks_def)
qed

section \<open>The contract of a ledger of holds\<close>

text \<open>
  What a client relies on: a holder's hold is charged or freed as a whole, always
  succeeds on a consistent state, and leaves every other holder alone.
\<close>

locale hold_ledger =
  fixes inv :: "'s \<Rightarrow> bool"
    and used :: "'s \<Rightarrow> 'q \<Rightarrow> int"
    and held :: "'s \<Rightarrow> 'q \<Rightarrow> int"
    and hold :: "'s \<Rightarrow> 'h \<Rightarrow> 'q \<Rightarrow> int"
    and charge :: "'h \<Rightarrow> 's \<Rightarrow> 'e + 's"
    and free :: "'h \<Rightarrow> 's \<Rightarrow> 'e + 's"
  assumes charge_law: "inv s \<Longrightarrow> \<exists>t. charge h s = Inr t \<and> inv t \<and>
      (\<forall>q. used t q = used s q + hold s h q) \<and> (\<forall>q. held t q = held s q - hold s h q) \<and>
      (\<forall>h' q. hold t h' q = (if h' = h then 0 else hold s h' q))"
    and free_law: "inv s \<Longrightarrow> \<exists>t. free h s = Inr t \<and> inv t \<and>
      (\<forall>q. used t q = used s q) \<and> (\<forall>q. held t q = held s q - hold s h q) \<and>
      (\<forall>h' q. hold t h' q = (if h' = h then 0 else hold s h' q))"
begin

text \<open>Whatever sequence of charges and frees a holder issues, only the first one counts.\<close>

lemma settle_sequence:
  assumes "inv s"
  shows "\<exists>t. fold_r (\<lambda>s c. if c then charge h s else free h s) s ops = Inr t \<and> inv t \<and>
     (\<forall>q. used t q = used s q + (if ops \<noteq> [] \<and> hd ops then hold s h q else 0)) \<and>
     (\<forall>q. held t q = held s q - (if ops = [] then 0 else hold s h q)) \<and>
     (\<forall>h' q. h' \<noteq> h \<longrightarrow> hold t h' q = hold s h' q)"
  using assms
proof (induction ops arbitrary: s)
  case Nil
  then show ?case by simp
next
  case (Cons b ops)
  obtain t1 where t1: "(if b then charge h s else free h s) = Inr t1" "inv t1"
    "\<forall>q. used t1 q = used s q + (if b then hold s h q else 0)"
    "\<forall>q. held t1 q = held s q - hold s h q"
    "\<forall>h' q. hold t1 h' q = (if h' = h then 0 else hold s h' q)"
    using charge_law[OF Cons.prems, of h] free_law[OF Cons.prems, of h] by (cases b) auto
  from Cons.IH[OF t1(2)] t1 show ?case by auto
qed

lemma total_preserved:
  "inv s \<Longrightarrow> charge h s = Inr t \<Longrightarrow> used t q + held t q = used s q + held s q"
  using charge_law[of s h] by auto

end

interpretation quota_ledger: hold_ledger quota_inv used_of reserved_of hold_of
  consume_upload_reservations "\<lambda>sid. release_upload_reservations sid RELEASED"
proof unfold_locales
  fix s h assume "quota_inv s"
  then show "\<exists>t. consume_upload_reservations h s = Inr t \<and> quota_inv t \<and>
      (\<forall>q. used_of t q = used_of s q + hold_of s h q) \<and>
      (\<forall>q. reserved_of t q = reserved_of s q - hold_of s h q) \<and>
      (\<forall>h' q. hold_of t h' q = (if h' = h then 0 else hold_of s h' q))"
    unfolding consume_upload_eq
    by (rule settle_sessionE[where st = CONSUMED and charge = True and sid = h]) auto
next
  fix s h assume "quota_inv s"
  then show "\<exists>t. release_upload_reservations h RELEASED s = Inr t \<and> quota_inv t \<and>
      (\<forall>q. used_of t q = used_of s q) \<and>
      (\<forall>q. reserved_of t q = reserved_of s q - hold_of s h q) \<and>
      (\<forall>h' q. hold_of t h' q = (if h' = h then 0 else hold_of s h' q))"
    unfolding release_upload_eq
    by (rule settle_sessionE[where st = RELEASED and charge = False and sid = h]) auto
qed

section \<open>Reachable states\<close>

definition empty_quota_db :: quota_db where
  "empty_quota_db = \<lparr>q_counters = [], q_reservations = []\<rparr>"

inductive quota_step :: "quota_db \<Rightarrow> quota_db \<Rightarrow> bool" where
  reserve: "reserve_many uid sid specs t db = Inr db' \<Longrightarrow> quota_step db db'"
| consume_upload: "consume_upload_reservations sid db = Inr db' \<Longrightarrow> quota_step db db'"
| release_upload: "release_upload_reservations sid st db = Inr db' \<Longrightarrow> st \<noteq> HELD \<Longrightarrow> quota_step db db'"
| direct: "consume uid key amount limit w db = Inr db' \<Longrightarrow> quota_step db db'"

inductive quota_reachable :: "quota_db \<Rightarrow> bool" where
  start: "quota_reachable empty_quota_db"
| step: "quota_reachable db \<Longrightarrow> quota_step db db' \<Longrightarrow> quota_reachable db'"

lemma quota_step_inv: "quota_step db db' \<Longrightarrow> quota_inv db \<Longrightarrow> quota_inv db'"
proof (induction rule: quota_step.induct)
  case (reserve uid sid specs t db db')
  then show ?case by (blast intro: reserve_many_inv)
next
  case (consume_upload sid db db')
  then show ?case
    using quota_ledger.charge_law[of db sid] by auto
next
  case (release_upload sid st db db')
  then show ?case
    unfolding release_upload_eq
    by (metis settle_sessionE sum.inject(2))
next
  case (direct uid key amount limit w db db')
  then show ?case by (blast dest: consumeD(6))
qed

interpretation quota_run: step_system quota_step quota_inv
  by unfold_locales (rule quota_step_inv)

lemma quota_reachable_inv: "quota_reachable db \<Longrightarrow> quota_inv db"
proof (induction rule: quota_reachable.induct)
  case start
  show ?case
    by (simp add: quota_inv_def empty_quota_db_def reserved_of_def held_sum_def)
next
  case (step db db')
  then show ?case by (blast intro: quota_run.step_inv)
qed

section \<open>Bounds of a reservation\<close>

lemma reserve_fold_bound:
  assumes "fold_r (reserve_one uid sid t) db specs = Inr db'"
    and "spec \<in> set specs" "qs_limit spec = Some l" "0 < qs_amount spec"
  shows "used_of db' (spec_quota uid spec) + reserved_of db' (spec_quota uid spec) \<le> l"
  using assms
proof (induction specs arbitrary: db)
  case Nil
  then show ?case by simp
next
  case (Cons s specs)
  then obtain db1 where ok: "reserve_one uid sid t db s = Inr db1"
    and rest: "fold_r (reserve_one uid sid t) db1 specs = Inr db'"
    by (auto simp: result_simps)
  show ?case
  proof (cases "spec \<in> set specs")
    case True
    with Cons.IH[OF rest] Cons.prems(3,4) show ?thesis by simp
  next
    case False
    with Cons.prems(2) have s: "s = spec" by simp
    have "(sid, qs_key spec) \<in> reservation_key ` set (q_reservations db1)"
      by (simp add: reserve_oneD(3)[OF ok] s reservation_key_def new_reservation_def)
    then have "\<forall>x \<in> set specs. qs_key x \<noteq> qs_key spec"
      using reserve_fold(5)[OF rest] by auto
    then have "sum_rows (\<lambda>x. spec_quota uid x = spec_quota uid spec) qs_amount specs = 0"
      by (intro sum_rows_none) (auto simp: spec_quota_def)
    then show ?thesis
      using reserve_fold(1,2)[OF rest, of "spec_quota uid spec"]
        reserve_oneD(8)[OF ok, of l] Cons.prems(3,4) s by simp
  qed
qed

lemma new_reservation_session:
  "qr_upload_session_id (new_reservation uid sid t spec) = sid"
  "qr_amount (new_reservation uid sid t spec) = qs_amount spec"
  by (simp_all add: new_reservation_def)

lemma hold_of_reserve:
  assumes "fold_r (reserve_one uid sid t) db specs = Inr db'"
    and "\<forall>r \<in> set (q_reservations db). qr_upload_session_id r \<noteq> sid"
  shows "hold_of db' sid q = sum_rows (\<lambda>s. spec_quota uid s = q) qs_amount specs"
proof -
  have "sum_rows (session_held sid q) qr_amount (q_reservations db) = 0"
    using assms(2) by (intro sum_rows_none) (auto simp: session_held_def)
  moreover have "sum_rows (session_held sid q) qr_amount (map (new_reservation uid sid t) specs) =
      sum_rows (\<lambda>s. spec_quota uid s = q) qs_amount specs"
    by (induction specs) (auto simp: session_held_def held_at_new new_reservation_session)
  ultimately show ?thesis by (simp add: hold_of_def reserve_fold(3)[OF assms(1)])
qed

section \<open>Properties\<close>

text \<open>C22. In every state the quota service can reach, each counter's reserved value is exactly
  the sum of the held reservations of its user, limit key and window, and neither its used nor
  its reserved value is negative.\<close>

theorem quota_reserved_is_held_sum:
  assumes "quota_reachable db" and "c \<in> set (q_counters db)"
  shows "qc_reserved_value c =
      sum_list (map qr_amount (filter (\<lambda>r. reservation_quota r = counter_key c \<and> qr_status r = HELD)
        (q_reservations db)))
    \<and> 0 \<le> qc_reserved_value c \<and> 0 \<le> qc_used_value c"
proof -
  note i = quota_invD[OF quota_reachable_inv[OF assms(1)]]
  have "find (\<lambda>x. counter_key x = counter_key c) (q_counters db) = Some c"
    using i(1) assms(2) by (rule keyed_find)
  with i(5)[of "counter_key c"] have "qc_reserved_value c = held_sum db (counter_key c)"
    by (simp add: reserved_of_def)
  moreover have "held_at (counter_key c) = (\<lambda>r. reservation_quota r = counter_key c \<and> qr_status r = HELD)"
    by (rule ext) (simp add: held_at_def)
  moreover have "0 \<le> qc_reserved_value c \<and> 0 \<le> qc_used_value c"
    using i(3) assms(2) by (simp add: quota_counter_checks_def)
  ultimately show ?thesis by (simp add: held_sum_def sum_rows_def)
qed

definition quota_demo_spec :: quota_spec where
  "quota_demo_spec = \<lparr>qs_key = ''files'', qs_amount = 2, qs_limit = Some 5, qs_window_start = 0\<rparr>"

definition quota_demo_db :: quota_db where
  "quota_demo_db =
     \<lparr>q_counters = [\<lparr>qc_user_id = 7, qc_limit_key = ''files'', qc_window_start = 0,
                     qc_used_value = 0, qc_reserved_value = 2\<rparr>],
      q_reservations = [\<lparr>qr_user_id = 7, qr_upload_session_id = 9, qr_limit_key = ''files'',
                         qr_window_start = 0, qr_amount = 2, qr_status = HELD, qr_expires_at = 50\<rparr>]\<rparr>"

lemma quota_demo_reserve: "reserve_many 7 9 [quota_demo_spec] 50 empty_quota_db = Inr quota_demo_db"
  by (simp add: reserve_many_def reserve_one_def quota_demo_spec_def quota_demo_db_def
      empty_quota_db_def locked_counter_def counter_key_def check_and_calculate_reservation_def
      write_counter_def insert_reservation_def)

lemma quota_demo_reachable: "quota_reachable quota_demo_db"
  using quota_reachable.step[OF quota_reachable.start quota_step.reserve[OF quota_demo_reserve]] .

theorem quota_reserved_is_held_sum_witness:
  "quota_reachable quota_demo_db \<and> qc_reserved_value (hd (q_counters quota_demo_db)) = 2"
  using quota_reserved_is_held_sum[OF quota_demo_reachable, of "hd (q_counters quota_demo_db)"]
    quota_demo_reachable
  by (simp add: quota_demo_db_def reservation_quota_def counter_key_def)

text \<open>C23. A successful reservation never oversubscribes: for every requested specification with a
  positive amount and a finite limit, the used plus the reserved value of its counter after the
  whole batch is at most that limit.\<close>

theorem reserve_many_within_limit:
  assumes "reserve_many uid sid specs t db = Inr db'"
    and "spec \<in> set specs" and "qs_limit spec = Some l" and "0 < qs_amount spec"
  shows "used_of db' (uid, qs_key spec, qs_window_start spec) +
         reserved_of db' (uid, qs_key spec, qs_window_start spec) \<le> l"
  using assms reserve_fold_bound[of uid sid t db "sort_key qs_key specs" db' spec l]
  by (simp add: reserve_many_def spec_quota_def)

theorem reserve_many_within_limit_witness:
  "used_of quota_demo_db (7, ''files'', 0) + reserved_of quota_demo_db (7, ''files'', 0) \<le> 5"
  using reserve_many_within_limit[OF quota_demo_reserve, of quota_demo_spec 5]
  by (simp add: quota_demo_spec_def)

text \<open>Reserving for a new upload session and releasing that session again succeeds and gives
  back the used and the reserved value of every quota.\<close>

theorem reserve_release_roundtrip:
  assumes "quota_inv db" and "\<forall>r \<in> set (q_reservations db). qr_upload_session_id r \<noteq> sid"
    and "reserve_many uid sid specs t db = Inr db1"
  shows "\<exists>db2. release_upload_reservations sid RELEASED db1 = Inr db2 \<and>
           used_of db2 = used_of db \<and> reserved_of db2 = reserved_of db"
proof -
  have f: "fold_r (reserve_one uid sid t) db (sort_key qs_key specs) = Inr db1"
    using assms(3) by (simp add: reserve_many_def)
  obtain db2 where d: "release_upload_reservations sid RELEASED db1 = Inr db2"
    "\<forall>q. used_of db2 q = used_of db1 q" "\<forall>q. reserved_of db2 q = reserved_of db1 q - hold_of db1 sid q"
    using quota_ledger.free_law[OF reserve_many_inv[OF assms(1,3)], of sid] by blast
  have "used_of db2 q = used_of db q" for q
    using spec[OF d(2), of q] reserve_fold(1)[OF f, of q] by simp
  moreover have "reserved_of db2 q = reserved_of db q" for q
    using spec[OF d(3), of q] reserve_fold(2)[OF f, of q] hold_of_reserve[OF f assms(2), of q] by simp
  ultimately show ?thesis using d(1) by blast
qed

theorem reserve_release_roundtrip_witness:
  "\<exists>db2. release_upload_reservations 9 RELEASED quota_demo_db = Inr db2 \<and>
     used_of db2 = used_of empty_quota_db \<and> reserved_of db2 = reserved_of empty_quota_db"
  using reserve_release_roundtrip[OF quota_reachable_inv[OF quota_reachable.start] _ quota_demo_reserve]
  by (simp add: empty_quota_db_def)

text \<open>An upload session is charged at most once: for any sequence of completions (consume) and
  aborts (release) of the session, the whole sequence succeeds, the used value of a quota grows by
  the session's hold exactly when the first of them is a completion, the reserved value falls by
  that hold once, and the holds of other sessions do not change.\<close>

theorem upload_charged_at_most_once:
  assumes "quota_inv db"
  shows "\<exists>db'. fold_r (\<lambda>s c. if c then consume_upload_reservations sid s
                             else release_upload_reservations sid RELEASED s) db ops = Inr db' \<and>
     quota_inv db' \<and>
     (\<forall>q. used_of db' q = used_of db q + (if ops \<noteq> [] \<and> hd ops then hold_of db sid q else 0)) \<and>
     (\<forall>q. reserved_of db' q = reserved_of db q - (if ops = [] then 0 else hold_of db sid q)) \<and>
     (\<forall>sid' q. sid' \<noteq> sid \<longrightarrow> hold_of db' sid' q = hold_of db sid' q)"
  using assms by (rule quota_ledger.settle_sequence)

theorem upload_charged_at_most_once_witness:
  "\<exists>db'. fold_r (\<lambda>s c. if c then consume_upload_reservations 9 s
                        else release_upload_reservations 9 RELEASED s) quota_demo_db [True, True, False]
      = Inr db' \<and> used_of db' (7, ''files'', 0) = 2"
  using upload_charged_at_most_once[OF quota_reachable_inv[OF quota_demo_reachable],
      of 9 "[True, True, False]"]
  by (auto simp: quota_demo_db_def used_of_def hold_of_def session_held_def held_at_def
      reservation_quota_def counter_key_def)

text \<open>Writing a manual entry charges exactly the positive growth of its UTF-8 size against the
  user's lifetime storage counter, never lowers any counter, keeps the ledger consistent, and under
  a finite storage limit never lets used plus reserved bytes pass it.\<close>

theorem manual_entry_charges_growth:
  assumes "quota_inv db"
    and "consume_manual_entry_storage_quota uid limit prev nxt db = Inr (n, db')"
  shows "positive_utf8_growth prev nxt = Some n \<and> 0 \<le> n \<and> quota_inv db' \<and>
     (\<forall>q. used_of db' q = used_of db q + (if q = (uid, ''storage_bytes'', 0) then n else 0)) \<and>
     (\<forall>l. limit = Some l \<and> 0 < n \<longrightarrow>
        used_of db' (uid, ''storage_bytes'', 0) + reserved_of db' (uid, ''storage_bytes'', 0) \<le> l)"
proof (cases "n = 0")
  case True
  with assms show ?thesis
    by (auto simp: consume_manual_entry_storage_quota_def result_simps
        split: option.split_asm if_split_asm)
next
  case False
  with assms(2) have g: "positive_utf8_growth prev nxt = Some n"
    and c: "consume uid ''storage_bytes'' n limit 0 db = Inr db'"
    by (auto simp: consume_manual_entry_storage_quota_def lifetime_window_start_def result_simps
        split: option.split_asm if_split_asm)
  show ?thesis
    using g consumeD(1,4,5,6)[OF c] assms(1) by auto
qed

theorem manual_entry_charges_growth_witness:
  "\<exists>db'. consume_manual_entry_storage_quota 7 (Some 10) (Some [65]) [65, 8364] empty_quota_db
      = Inr (3, db') \<and> used_of db' (7, ''storage_bytes'', 0) = 3"
proof -
  obtain db' where e: "consume_manual_entry_storage_quota 7 (Some 10) (Some [65]) [65, 8364]
      empty_quota_db = Inr (3, db')"
    by (simp add: consume_manual_entry_storage_quota_def positive_utf8_growth_def utf8_size_def
        is_surrogate_def utf8_char_size_def consume_def locked_counter_def counter_key_def
        empty_quota_db_def check_and_calculate_reservation_def)
  from manual_entry_charges_growth[OF quota_reachable_inv[OF quota_reachable.start] e] e
  show ?thesis by (auto simp: empty_quota_db_def used_of_def)
qed

end
