(* ===== verification/Access_Control.thy ===== *)
theory Access_Control
  imports Domain
begin

text \<open>
  \<open>AccessService\<close> (\<open>src/app/services/access.py\<close>), the refresh of an actor's access
  under the policy lock (\<open>src/app/services/rbac_mutation.py\<close>). The state is the
  role-based access tables. The lemmas characterise the resolved context: which
  permissions and roles it holds, and that an expired assignment contributes nothing.
\<close>

section \<open>State\<close>

record rbac_db =
  db_users :: "user list"
  db_roles :: "role list"
  db_permissions :: "permission list"
  db_user_roles :: "user_role list"
  db_role_permissions :: "role_permission list"
  db_limit_definitions :: "limit_definition list"
  db_role_limits :: "role_limit list"
  db_user_limit_overrides :: "user_limit_override list"

record access_context =
  ac_user :: user
  ac_permissions :: "string list"
  ac_limits :: limit_map
  ac_role_ids :: "uuid list"
  ac_max_role_priority :: int

definition allows :: "access_context \<Rightarrow> string \<Rightarrow> bool" where
  "allows ctx permission = has_permission (ac_permissions ctx) permission"

section \<open>Resolving a user's access\<close>

definition active_assignment :: "timestamp \<Rightarrow> user_role \<Rightarrow> bool" where
  "active_assignment now ur =
     (case ur_expires_at ur of None \<Rightarrow> True | Some t \<Rightarrow> t > now)"

text \<open>The rows of \<open>user_roles\<close> that the three joins of \<open>resolve\<close> select for the user.\<close>

definition active_roles :: "rbac_db \<Rightarrow> timestamp \<Rightarrow> uuid \<Rightarrow> user_role list" where
  "active_roles db now user_id =
     filter (\<lambda>ur. ur_user_id ur = user_id \<and> active_assignment now ur) (db_user_roles db)"

definition permission_rows :: "rbac_db \<Rightarrow> timestamp \<Rightarrow> uuid \<Rightarrow> string list" where
  "permission_rows db now user_id =
     remdups (concat (map (\<lambda>ur.
       concat (map (\<lambda>rp.
         map pe_code (filter (\<lambda>p. pe_id p = rp_permission_id rp) (db_permissions db)))
         (filter (\<lambda>rp. rp_role_id rp = ur_role_id ur) (db_role_permissions db))))
       (active_roles db now user_id)))"

definition limit_rows :: "rbac_db \<Rightarrow> timestamp \<Rightarrow> uuid \<Rightarrow> (uuid \<times> string \<times> limit_value) list" where
  "limit_rows db now user_id =
     concat (map (\<lambda>ur.
       concat (map (\<lambda>rl.
         map (\<lambda>ld. (ur_role_id ur, ld_key ld, rl_value rl))
           (filter (\<lambda>ld. ld_id ld = rl_limit_definition_id rl) (db_limit_definitions db)))
         (filter (\<lambda>rl. rl_role_id rl = ur_role_id ur) (db_role_limits db))))
       (active_roles db now user_id))"

definition override_rows :: "rbac_db \<Rightarrow> uuid \<Rightarrow> (string \<times> limit_value) list" where
  "override_rows db user_id =
     concat (map (\<lambda>ulo.
       map (\<lambda>ld. (ld_key ld, ulo_value ulo))
         (filter (\<lambda>ld. ld_id ld = ulo_limit_definition_id ulo) (db_limit_definitions db)))
       (filter (\<lambda>ulo. ulo_user_id ulo = user_id) (db_user_limit_overrides db)))"

definition role_rows :: "rbac_db \<Rightarrow> timestamp \<Rightarrow> uuid \<Rightarrow> (uuid \<times> int) list" where
  "role_rows db now user_id =
     concat (map (\<lambda>ur.
       map (\<lambda>r. (ro_id r, ro_priority r))
         (filter (\<lambda>r. ro_id r = ur_role_id ur) (db_roles db)))
       (active_roles db now user_id))"

text \<open>\<open>by_role\<close>: a dictionary of dictionaries, filled row by row.\<close>

definition group_by_role ::
    "(uuid \<times> string \<times> limit_value) list \<Rightarrow> (uuid \<times> (string \<times> limit_value) list) list" where
  "group_by_role rows =
     foldl (\<lambda>d (role_id, key, value). dict_set role_id (dict_set key value (dict_get d role_id [])) d)
       [] rows"

definition resolve :: "rbac_db \<Rightarrow> timestamp \<Rightarrow> user \<Rightarrow> access_context" where
  "resolve db now user =
     (let permissions = permission_rows db now (u_id user) @ (if u_is_superuser user then [''*''] else []);
          by_role = group_by_role (limit_rows db now (u_id user));
          overrides = foldl (\<lambda>m (k, v). m(k \<mapsto> v)) Map.empty (override_rows db (u_id user));
          limits = resolve_effective_limits (map snd by_role) overrides;
          rrows = role_rows db now (u_id user)
      in \<lparr>ac_user = user, ac_permissions = permissions, ac_limits = limits,
          ac_role_ids = map fst rrows,
          ac_max_role_priority = foldl max (-10001) (map snd rrows)\<rparr>)"

section \<open>Refreshing an actor's access under the policy lock\<close>

text \<open>
  Advisory and row locks serialise the mutating handlers; in the sequential model of
  one transaction they change no row. \<open>lock_role_union\<close> still computes which roles it
  locks and returns them.
\<close>

definition lock_role_union :: "rbac_db \<Rightarrow> uuid list \<Rightarrow> uuid list \<Rightarrow> (uuid \<times> role) list" where
  "lock_role_union db user_ids additional_role_ids =
     (let role_ids = additional_role_ids @
            (if user_ids = [] then []
             else map ur_role_id (filter (\<lambda>ur. ur_user_id ur \<in> set user_ids) (db_user_roles db)))
      in if role_ids = [] then []
         else map (\<lambda>r. (ro_id r, r))
                (sort_key ro_id (filter (\<lambda>r. ro_id r \<in> set role_ids) (db_roles db))))"

definition refresh_locked_actor_access ::
    "rbac_db \<Rightarrow> timestamp \<Rightarrow> user \<Rightarrow> string list \<Rightarrow> api_error + access_context" where
  "refresh_locked_actor_access db now actor required_permissions =
     (if u_status actor \<noteq> USER_ACTIVE \<or> u_retired_at actor \<noteq> None
      then Inl (ApiError 401 ''inactive_user'')
      else (let current = resolve db now actor;
                missing = filter (\<lambda>code. \<not> allows current code) required_permissions
            in if missing \<noteq> [] then Inl (ApiError 403 ''permission_denied'') else Inr current))"

section \<open>Characterisation of the joins\<close>

lemma in_active_roles:
  "ur \<in> set (active_roles db now uid) \<longleftrightarrow>
   ur \<in> set (db_user_roles db) \<and> ur_user_id ur = uid \<and> active_assignment now ur"
  by (auto simp: active_roles_def)

lemma in_permission_rows:
  "code \<in> set (permission_rows db now uid) \<longleftrightarrow>
   (\<exists>ur \<in> set (active_roles db now uid). \<exists>rp \<in> set (db_role_permissions db).
      \<exists>p \<in> set (db_permissions db).
        rp_role_id rp = ur_role_id ur \<and> pe_id p = rp_permission_id rp \<and> pe_code p = code)"
  by (fastforce simp: permission_rows_def)

lemma in_role_rows:
  "(rid, prio) \<in> set (role_rows db now uid) \<longleftrightarrow>
   (\<exists>ur \<in> set (active_roles db now uid). \<exists>r \<in> set (db_roles db).
      ro_id r = ur_role_id ur \<and> rid = ro_id r \<and> prio = ro_priority r)"
  by (fastforce simp: role_rows_def)

lemma in_limit_rows:
  "(rid, k, v) \<in> set (limit_rows db now uid) \<longleftrightarrow>
   (\<exists>ur \<in> set (active_roles db now uid). \<exists>rl \<in> set (db_role_limits db).
      \<exists>ld \<in> set (db_limit_definitions db).
        rl_role_id rl = ur_role_id ur \<and> ld_id ld = rl_limit_definition_id rl \<and>
        rid = ur_role_id ur \<and> k = ld_key ld \<and> v = rl_value rl)"
  by (fastforce simp: limit_rows_def)

lemma foldl_max_ge: "(a::int) \<le> foldl max a xs \<and> (\<forall>x \<in> set xs. x \<le> foldl max a xs)"
proof (induction xs arbitrary: a)
  case Nil
  then show ?case by simp
next
  case (Cons x xs)
  from Cons[of "max a x"] show ?case by auto
qed

lemma foldl_max_in: "foldl max (a::int) xs \<in> insert a (set xs)"
  by (induction xs arbitrary: a) (simp_all, metis insert_iff max_def)

section \<open>Lemmas on the resolved context\<close>

lemma resolve_user [simp]: "ac_user (resolve db now u) = u"
  by (simp add: resolve_def Let_def)

lemma set_resolve_permissions:
  "set (ac_permissions (resolve db now u)) =
     set (permission_rows db now (u_id u)) \<union> (if u_is_superuser u then {''*''} else {})"
  by (simp add: resolve_def Let_def)

lemma resolve_role_ids:
  "set (ac_role_ids (resolve db now u)) =
     {ro_id r | ur r. ur \<in> set (active_roles db now (u_id u)) \<and> r \<in> set (db_roles db) \<and>
        ro_id r = ur_role_id ur}"
proof -
  have "set (ac_role_ids (resolve db now u)) = fst ` set (role_rows db now (u_id u))"
    by (simp add: resolve_def Let_def)
  also have "\<dots> = {ro_id r | ur r. ur \<in> set (active_roles db now (u_id u)) \<and> r \<in> set (db_roles db) \<and>
        ro_id r = ur_role_id ur}"
    using in_role_rows[of _ _ db now "u_id u"] by (force simp: image_iff)
  finally show ?thesis .
qed

lemma resolve_priority:
  "ac_max_role_priority (resolve db now u) =
     Max (insert (-10001) (snd ` set (role_rows db now (u_id u))))"
proof -
  let ?ps = "map snd (role_rows db now (u_id u))"
  have "foldl max (-10001) ?ps = Max (insert (-10001) (set ?ps))"
    using foldl_max_ge[of "-10001" ?ps] foldl_max_in[of "-10001" ?ps]
    by (intro Max_eqI[symmetric]) auto
  then show ?thesis by (simp add: resolve_def Let_def)
qed

lemma allows_superuser: "u_is_superuser u \<Longrightarrow> allows (resolve db now u) p"
  by (simp add: allows_def has_permission_star set_resolve_permissions)

lemma allows_mono:
  "allows c p \<Longrightarrow> set (ac_permissions c) \<subseteq> set (ac_permissions d) \<Longrightarrow> allows d p"
  unfolding allows_def by (rule has_permission_mono)

text \<open>An expired assignment, or one of another user, contributes nothing.\<close>

definition prune_assignments :: "timestamp \<Rightarrow> uuid \<Rightarrow> rbac_db \<Rightarrow> rbac_db" where
  "prune_assignments now uid db =
     db\<lparr>db_user_roles := filter (\<lambda>ur. ur_user_id ur = uid \<and> active_assignment now ur) (db_user_roles db)\<rparr>"

lemma active_roles_prune: "active_roles (prune_assignments now uid db) now uid = active_roles db now uid"
  by (simp add: active_roles_def prune_assignments_def)

lemma resolve_prune: "resolve (prune_assignments now (u_id u) db) now u = resolve db now u"
  unfolding resolve_def permission_rows_def limit_rows_def override_rows_def role_rows_def
    active_roles_prune by (simp add: prune_assignments_def)

lemma refresh_ok:
  assumes "refresh_locked_actor_access db now actor req = Inr ctx"
  shows "ctx = resolve db now actor" "u_status actor = USER_ACTIVE" "u_retired_at actor = None"
    "\<forall>p \<in> set req. allows ctx p"
  using assms by (auto simp: refresh_locked_actor_access_def Let_def filter_empty_conv split: if_splits)

section \<open>Lemmas on the grouped limits\<close>

lemma foldl_upd_map_of: "foldl (\<lambda>m (k, v). m(k \<mapsto> v)) Map.empty rows = map_of (rev rows)"
  by (induction rows rule: rev_induct) (auto split: prod.splits)

lemma group_by_role_snoc:
  "group_by_role (rows @ [(r, k, v)]) =
     dict_set r (dict_set k v (dict_get (group_by_role rows) r [])) (group_by_role rows)"
  by (simp add: group_by_role_def)

lemma group_by_role_lookup:
  "map_of (dict_get (group_by_role rows) r []) k =
   map_of (rev (map (\<lambda>(r, k, v). ((r, k), v)) rows)) (r, k)"
proof (induction rows rule: rev_induct)
  case Nil
  then show ?case by (simp add: group_by_role_def dict_get_def)
next
  case (snoc x rows)
  then show ?case by (cases x) (auto simp: group_by_role_snoc)
qed

lemma group_by_role_distinct:
  "distinct (map fst (group_by_role rows)) \<and>
   (\<forall>rm \<in> set (group_by_role rows). distinct (map fst (snd rm)))"
proof (induction rows rule: rev_induct)
  case Nil
  then show ?case by (simp add: group_by_role_def)
next
  case (snoc x rows)
  obtain r k v where x: "x = (r, k, v)" by (cases x)
  let ?d = "group_by_role rows"
  have inner: "distinct (map fst (dict_get ?d r []))"
    using snoc.IH by (auto simp: dict_get_def dest!: map_of_SomeD split: option.splits)
  have "\<forall>rm \<in> set (dict_set r (dict_set k v (dict_get ?d r [])) ?d). distinct (map fst (snd rm))"
    using snoc.IH inner set_dict_set_subset[of r "dict_set k v (dict_get ?d r [])" ?d]
    by (auto simp: distinct_dict_set)
  with snoc.IH show ?case by (simp add: x group_by_role_snoc distinct_dict_set)
qed

text \<open>Row values that agree for equal role and key survive the grouping unchanged.\<close>

lemma group_by_role_pairs:
  assumes "\<And>r k v v'. (r, k, v) \<in> set rows \<Longrightarrow> (r, k, v') \<in> set rows \<Longrightarrow> v = v'"
  shows "(\<exists>m \<in> set (map snd (group_by_role rows)). (k, v) \<in> set m) \<longleftrightarrow> (\<exists>r. (r, k, v) \<in> set rows)"
proof -
  let ?d = "group_by_role rows" and ?a = "map (\<lambda>(r, k, v). ((r, k), v)) rows"
  note ds = group_by_role_distinct[of rows]
  have look: "map_of (rev ?a) (r, k) = Some v \<longleftrightarrow> (r, k, v) \<in> set rows" for r
  proof
    assume "map_of (rev ?a) (r, k) = Some v"
    then show "(r, k, v) \<in> set rows" by (auto dest: map_of_SomeD)
  next
    assume rows: "(r, k, v) \<in> set rows"
    then have "map_of (rev ?a) (r, k) \<noteq> None"
      by (auto simp: map_of_eq_None_iff image_iff intro!: bexI[of _ "(r, k, v)"])
    then obtain w where w: "map_of (rev ?a) (r, k) = Some w" by blast
    then have "(r, k, w) \<in> set rows" by (auto dest: map_of_SomeD)
    with assms rows w show "map_of (rev ?a) (r, k) = Some v" by blast
  qed
  have "(\<exists>m \<in> set (map snd ?d). (k, v) \<in> set m) \<longleftrightarrow> (\<exists>r. map_of (dict_get ?d r []) k = Some v)"
  proof
    assume "\<exists>m \<in> set (map snd ?d). (k, v) \<in> set m"
    then obtain r m where "(r, m) \<in> set ?d" "(k, v) \<in> set m" by auto
    with ds show "\<exists>r. map_of (dict_get ?d r []) k = Some v"
      by (intro exI[of _ r]) (auto simp: dict_get_def map_of_is_SomeI)
  next
    assume "\<exists>r. map_of (dict_get ?d r []) k = Some v"
    then obtain r m where "map_of ?d r = Some m" "map_of m k = Some v"
      by (auto simp: dict_get_def split: option.splits)
    then have "(r, m) \<in> set ?d" "(k, v) \<in> set m" by (auto dest: map_of_SomeD)
    then show "\<exists>m \<in> set (map snd ?d). (k, v) \<in> set m" by force
  qed
  then show ?thesis by (simp add: group_by_role_lookup look)
qed

section \<open>Properties\<close>

text \<open>A user holds the permission \<open>resource:action\<close> exactly when the user is a superuser or
  some role assigned to the user and not expired carries the permission, the wildcard of the
  resource, or the global wildcard.\<close>

theorem access_resolution_exact:
  assumes "CHR '':'' \<notin> set resource"
  shows "allows (resolve db now u) (resource @ '':'' @ action) \<longleftrightarrow>
     u_is_superuser u \<or>
     (\<exists>ur \<in> set (db_user_roles db). \<exists>rp \<in> set (db_role_permissions db). \<exists>p \<in> set (db_permissions db).
        ur_user_id ur = u_id u \<and> active_assignment now ur \<and>
        rp_role_id rp = ur_role_id ur \<and> pe_id p = rp_permission_id rp \<and>
        pe_code p \<in> {''*'', resource @ '':'' @ action, resource @ '':*''})"
proof -
  let ?in = "\<lambda>c. c \<in> set (permission_rows db now (u_id u))"
  have "allows (resolve db now u) (resource @ '':'' @ action) \<longleftrightarrow> u_is_superuser u \<or>
      (\<exists>c \<in> {''*'', resource @ '':'' @ action, resource @ '':*''}. ?in c)"
    using has_permission_scoped[OF assms, of "ac_permissions (resolve db now u)" action]
      set_resolve_permissions[of db now u] by (auto simp: allows_def)
  also have "\<dots> \<longleftrightarrow> u_is_superuser u \<or>
     (\<exists>ur \<in> set (db_user_roles db). \<exists>rp \<in> set (db_role_permissions db). \<exists>p \<in> set (db_permissions db).
        ur_user_id ur = u_id u \<and> active_assignment now ur \<and>
        rp_role_id rp = ur_role_id ur \<and> pe_id p = rp_permission_id rp \<and>
        pe_code p \<in> {''*'', resource @ '':'' @ action, resource @ '':*''})"
    unfolding in_permission_rows Bex_def in_active_roles by blast
  finally show ?thesis .
qed

text \<open>Under the unique constraints of the limit tables, the effective limit of a key is the
  user's override if there is one, and otherwise the maximum over the values the user's unexpired
  roles set for the key, with one unlimited role making it unlimited.\<close>

theorem effective_limit_of_user:
  assumes "keyed ld_key (db_limit_definitions db)"
    and "keyed (\<lambda>rl. (rl_role_id rl, rl_limit_definition_id rl)) (db_role_limits db)"
  shows "ac_limits (resolve db now u) k =
     (case map_of (rev (override_rows db (u_id u))) k of Some v \<Rightarrow> Some v | None \<Rightarrow>
      let vs = {rl_value rl | ur rl ld. ur \<in> set (active_roles db now (u_id u)) \<and>
          rl \<in> set (db_role_limits db) \<and> ld \<in> set (db_limit_definitions db) \<and>
          rl_role_id rl = ur_role_id ur \<and> ld_id ld = rl_limit_definition_id rl \<and> ld_key ld = k}
      in if vs = {} then None else if None \<in> vs then Some None else Some (Some (Max (the ` vs))))"
proof -
  let ?rows = "limit_rows db now (u_id u)"
  have fn: "v = v'" if r1: "(r, key, v) \<in> set ?rows" and r2: "(r, key, v') \<in> set ?rows" for r key v v'
  proof -
    obtain rl ld where a: "rl \<in> set (db_role_limits db)" "ld \<in> set (db_limit_definitions db)"
      "rl_role_id rl = r" "ld_id ld = rl_limit_definition_id rl" "ld_key ld = key" "v = rl_value rl"
      using r1 unfolding in_limit_rows by blast
    obtain rl' ld' where b: "rl' \<in> set (db_role_limits db)" "ld' \<in> set (db_limit_definitions db)"
      "rl_role_id rl' = r" "ld_id ld' = rl_limit_definition_id rl'" "ld_key ld' = key" "v' = rl_value rl'"
      using r2 unfolding in_limit_rows by blast
    have "ld = ld'" using keyed_unique[OF assms(1) a(2) b(2)] a(5) b(5) by simp
    then have "rl = rl'" using keyed_unique[OF assms(2) a(1) b(1)] a(3,4) b(3,4) by simp
    with a(6) b(6) show ?thesis by simp
  qed
  have "{v. \<exists>m \<in> set (map snd (group_by_role ?rows)). (k, v) \<in> set m} = {v. \<exists>r. (r, k, v) \<in> set ?rows}"
    by (intro Collect_cong, rule group_by_role_pairs) (rule fn)
  also have "\<dots> = {rl_value rl | ur rl ld. ur \<in> set (active_roles db now (u_id u)) \<and>
          rl \<in> set (db_role_limits db) \<and> ld \<in> set (db_limit_definitions db) \<and>
          rl_role_id rl = ur_role_id ur \<and> ld_id ld = rl_limit_definition_id rl \<and> ld_key ld = k}"
    unfolding in_limit_rows by blast
  finally have vs: "set (values_at k (concat (map snd (group_by_role ?rows)))) = \<dots>"
    by (simp add: set_values_at)
  show ?thesis
    unfolding vs[symmetric]
    by (simp add: resolve_def Let_def resolve_effective_limits_spec limit_sup_def foldl_upd_map_of
        split: option.splits)
qed

definition rbac_demo :: rbac_db where
  "rbac_demo =
     \<lparr>db_users = [], db_roles = [\<lparr>ro_id = 1, ro_code = ''reader'', ro_name = ''Reader'',
        ro_description = None, ro_priority = 5, ro_is_system = False, ro_policy_version = 1\<rparr>],
      db_permissions = [\<lparr>pe_id = 3, pe_code = ''file:*'', pe_name = ''files''\<rparr>],
      db_user_roles = [\<lparr>ur_user_id = 7, ur_role_id = 1, ur_assigned_by = None, ur_expires_at = Some 100\<rparr>],
      db_role_permissions = [\<lparr>rp_role_id = 1, rp_permission_id = 3\<rparr>],
      db_limit_definitions = [\<lparr>ld_id = 4, ld_key = ''files_per_day'', ld_unit = ''count'', ld_window = ''day''\<rparr>],
      db_role_limits = [\<lparr>rl_role_id = 1, rl_limit_definition_id = 4, rl_value = Some 20\<rparr>],
      db_user_limit_overrides = []\<rparr>"

definition demo_user :: user where
  "demo_user = \<lparr>u_id = 7, u_email = ''a@b'', u_password_hash = ''h'', u_display_name = None,
     u_status = USER_ACTIVE, u_is_superuser = False, u_token_version = 0,
     u_role_assignment_version = 1, u_last_login_at = None, u_retired_at = None,
     u_retired_by_id = None, u_retirement_reason = None, u_created_at = 0\<rparr>"

theorem access_resolution_exact_witness:
  "allows (resolve rbac_demo 50 demo_user) ''file:read'' \<and>
   \<not> allows (resolve rbac_demo 100 demo_user) ''file:read''"
  using access_resolution_exact[of "''file''" rbac_demo 50 demo_user "''read''"]
    access_resolution_exact[of "''file''" rbac_demo 100 demo_user "''read''"]
  by (simp add: rbac_demo_def demo_user_def active_assignment_def)

theorem effective_limit_of_user_witness:
  "ac_limits (resolve rbac_demo 50 demo_user) ''files_per_day'' = Some (Some 20)"
proof -
  have "{rl_value rl | ur rl ld. ur \<in> set (active_roles rbac_demo 50 (u_id demo_user)) \<and>
          rl \<in> set (db_role_limits rbac_demo) \<and> ld \<in> set (db_limit_definitions rbac_demo) \<and>
          rl_role_id rl = ur_role_id ur \<and> ld_id ld = rl_limit_definition_id rl \<and>
          ld_key ld = ''files_per_day''} = {Some 20}"
    by (auto simp: rbac_demo_def demo_user_def active_roles_def active_assignment_def)
  moreover have "override_rows rbac_demo (u_id demo_user) = []"
    by (simp add: override_rows_def rbac_demo_def)
  ultimately show ?thesis
    using effective_limit_of_user[where db = rbac_demo and u = demo_user and now = 50 and k = "''files_per_day''"]
    by (simp add: rbac_demo_def)
qed

text \<open>Expired assignments and assignments of other users are inert: removing all of them from
  the database leaves the resolved permissions, limits, roles and priority unchanged.\<close>

theorem expired_assignments_inert:
  "resolve (prune_assignments now (u_id u) db) now u = resolve db now u"
  by (rule resolve_prune)

end
