(* ===== verification/Audit_Trail.thy ===== *)
theory Audit_Trail
  imports Models "HOL-Library.Multiset"
begin

text \<open>
  The audit service (\<open>src/app/services/audit.py\<close>): appending events and the
  keyset-paginated query. The table has an auto-increment key, kept as the next value
  of its sequence. The lemmas show that following the cursors from page to page
  returns every matching event exactly once, newest first.
\<close>

section \<open>State and operations\<close>

record audit_db =
  au_rows :: "audit_log list"
  au_next_id :: int

record audit_event_view =
  av_id :: int
  av_actor_id :: "uuid option"
  av_action :: string
  av_result :: audit_result
  av_resource_type :: string
  av_resource_id :: "string option"
  av_request_id :: "string option"
  av_created_at :: timestamp

record audit_filter =
  fi_actor_id :: "uuid option"
  fi_action :: "string option"
  fi_resource_type :: "string option"
  fi_resource_id :: "string option"
  fi_result :: "audit_result option"
  fi_created_from :: "timestamp option"
  fi_created_to :: "timestamp option"

record audit_input =
  ai_action :: string
  ai_result :: audit_result
  ai_resource_type :: string
  ai_actor_id :: "uuid option"
  ai_resource_id :: "string option"
  ai_request_id :: "string option"
  ai_ip_address :: "string option"
  ai_details :: json

definition add_audit_event :: "timestamp \<Rightarrow> audit_input \<Rightarrow> audit_db \<Rightarrow> audit_db" where
  "add_audit_event now ev db =
     \<lparr>au_rows = au_rows db @
        [\<lparr>al_id = au_next_id db, al_actor_id = ai_actor_id ev, al_action = ai_action ev,
          al_result = ai_result ev, al_resource_type = ai_resource_type ev,
          al_resource_id = ai_resource_id ev, al_request_id = ai_request_id ev,
          al_ip_address = ai_ip_address ev, al_details = ai_details ev, al_created_at = now\<rparr>],
      au_next_id = au_next_id db + 1\<rparr>"

definition opt_eq :: "'a option \<Rightarrow> 'a \<Rightarrow> bool" where
  "opt_eq f v = (case f of None \<Rightarrow> True | Some x \<Rightarrow> v = x)"

text \<open>A comparison with a nullable column is not true on NULL.\<close>

definition opt_eq_null :: "'a option \<Rightarrow> 'a option \<Rightarrow> bool" where
  "opt_eq_null f v = (case f of None \<Rightarrow> True | Some x \<Rightarrow> v = Some x)"

definition audit_matches :: "audit_filter \<Rightarrow> audit_log \<Rightarrow> bool" where
  "audit_matches f r \<longleftrightarrow>
     opt_eq_null (fi_actor_id f) (al_actor_id r) \<and>
     opt_eq (fi_action f) (al_action r) \<and>
     opt_eq (fi_resource_type f) (al_resource_type r) \<and>
     opt_eq_null (fi_resource_id f) (al_resource_id r) \<and>
     opt_eq (fi_result f) (al_result r) \<and>
     (case fi_created_from f of None \<Rightarrow> True | Some t \<Rightarrow> al_created_at r \<ge> t) \<and>
     (case fi_created_to f of None \<Rightarrow> True | Some t \<Rightarrow> al_created_at r \<le> t)"

definition audit_view :: "audit_log \<Rightarrow> audit_event_view" where
  "audit_view r = \<lparr>av_id = al_id r, av_actor_id = al_actor_id r, av_action = al_action r,
     av_result = al_result r, av_resource_type = al_resource_type r,
     av_resource_id = al_resource_id r, av_request_id = al_request_id r,
     av_created_at = al_created_at r\<rparr>"

definition list_audit_events ::
    "audit_filter \<Rightarrow> int option \<Rightarrow> nat \<Rightarrow> audit_db \<Rightarrow> audit_event_view list \<times> int option" where
  "list_audit_events f cursor limit db =
     (let rows = take (limit + 1)
            (sort_key (\<lambda>r. - al_id r)
              (filter (\<lambda>r. audit_matches f r \<and>
                           (case cursor of None \<Rightarrow> True | Some c \<Rightarrow> al_id r < c)) (au_rows db)));
          events = map audit_view rows;
          has_more = length events > limit;
          page = take limit events
      in (page, if has_more \<and> page \<noteq> [] then Some (av_id (last page)) else None))"

text \<open>
  The export and the console follow the cursors until there is none; the fuel is the
  number of pages fetched.
\<close>

fun follow_cursors ::
    "nat \<Rightarrow> audit_filter \<Rightarrow> int option \<Rightarrow> nat \<Rightarrow> audit_db \<Rightarrow> audit_event_view list option" where
  "follow_cursors 0 f cursor limit db = None"
| "follow_cursors (Suc fuel) f cursor limit db =
     (case list_audit_events f cursor limit db of
        (page, None) \<Rightarrow> Some page
      | (page, Some c) \<Rightarrow> map_option (\<lambda>rest. page @ rest) (follow_cursors fuel f (Some c) limit db))"

definition audit_inv :: "audit_db \<Rightarrow> bool" where
  "audit_inv db \<longleftrightarrow> keyed al_id (au_rows db) \<and> (\<forall>r \<in> set (au_rows db). al_id r < au_next_id db)"

section \<open>Lemmas\<close>

lemma add_audit_event_inv: "audit_inv db \<Longrightarrow> audit_inv (add_audit_event now ev db)"
  by (auto simp: audit_inv_def add_audit_event_def keyed_append)

lemma add_audit_event_rows:
  "au_rows (add_audit_event now ev db) = au_rows db @ [last (au_rows (add_audit_event now ev db))]"
  by (simp add: add_audit_event_def)

definition matching :: "audit_filter \<Rightarrow> int option \<Rightarrow> audit_db \<Rightarrow> audit_log list" where
  "matching f cursor db =
     sort_key (\<lambda>r. - al_id r)
       (filter (\<lambda>r. audit_matches f r \<and> (case cursor of None \<Rightarrow> True | Some c \<Rightarrow> al_id r < c)) (au_rows db))"

lemma list_audit_events_alt:
  "list_audit_events f cursor limit db =
     (map audit_view (take limit (matching f cursor db)),
      if length (matching f cursor db) > limit \<and> limit > 0
      then Some (al_id (matching f cursor db ! (limit - 1))) else None)"
proof -
  let ?m = "matching f cursor db"
  have "take limit (map audit_view (take (limit + 1) ?m)) = map audit_view (take limit ?m)"
    by (simp add: take_map)
  moreover have "av_id (last (map audit_view (take limit ?m))) = al_id (?m ! (limit - 1))"
    if "limit < length ?m" "0 < limit"
  proof -
    have "take limit ?m \<noteq> []" using that by (cases ?m) auto
    then show ?thesis using that by (simp add: last_map last_conv_nth audit_view_def)
  qed
  ultimately show ?thesis
    unfolding list_audit_events_def matching_def[symmetric] Let_def by auto
qed

lemma sorted_desc_filter_split:
  assumes "keyed al_id rows" "sorted_wrt (\<lambda>a b. al_id a > al_id b) m" "n < length m"
  shows "filter (\<lambda>r. al_id r < al_id (m ! n)) m = drop (Suc n) m"
proof -
  have m: "m = take (Suc n) m @ drop (Suc n) m" by simp
  have "\<forall>r \<in> set (take (Suc n) m). \<not> al_id r < al_id (m ! n)"
  proof
    fix r assume "r \<in> set (take (Suc n) m)"
    then obtain i where i: "i < Suc n" "r = m ! i" using assms(3) by (auto simp: in_set_conv_nth)
    then have "i = n \<or> al_id (m ! i) > al_id (m ! n)"
      using sorted_wrt_nth_less[OF assms(2), of i n] assms(3) by (cases "i = n") auto
    with i(2) show "\<not> al_id r < al_id (m ! n)" by auto
  qed
  then have "filter (\<lambda>r. al_id r < al_id (m ! n)) (take (Suc n) m) = []"
    by (simp add: filter_empty_conv)
  moreover have "\<forall>r \<in> set (drop (Suc n) m). al_id r < al_id (m ! n)"
  proof
    fix r assume "r \<in> set (drop (Suc n) m)"
    then obtain i where "i < length m - Suc n" "r = m ! (Suc n + i)" by (auto simp: in_set_conv_nth)
    then have "Suc n + i < length m" "r = m ! (Suc n + i)" by simp_all
    then show "al_id r < al_id (m ! n)"
      using sorted_wrt_nth_less[OF assms(2), of n "Suc n + i"] by simp
  qed
  then have "filter (\<lambda>r. al_id r < al_id (m ! n)) (drop (Suc n) m) = drop (Suc n) m" by simp
  ultimately show ?thesis by (subst m, subst filter_append) simp
qed

lemma matching_desc:
  assumes "keyed al_id (au_rows db)"
  shows "sorted_wrt (\<lambda>a b. al_id a > al_id b) (matching f cursor db)"
proof -
  let ?m = "matching f cursor db"
  have "distinct (map al_id (filter P (au_rows db)))" for P
    using assms keyed_filter[of al_id "au_rows db" P] by (simp add: keyed_def)
  then have "distinct (map al_id ?m)"
    unfolding matching_def
    by (metis (no_types, lifting) mset_eq_imp_distinct_iff mset_map mset_sort)
  moreover have "sorted (map (\<lambda>r. - al_id r) ?m)" by (simp add: matching_def)
  ultimately show ?thesis
    by (auto simp: sorted_wrt_iff_nth_less sorted_iff_nth_mono_less distinct_conv_nth)
      (metis (no_types, lifting) less_trans nless_le nth_map order_less_le)
qed

lemma filter_sort_key: "filter P (sort_key k xs) = sort_key k (filter P (xs :: 'a list))"
  for k :: "'a \<Rightarrow> int"
  by (rule filter_sort)

lemma matching_next_cursor:
  assumes "keyed al_id (au_rows db)" and "n < length (matching f cursor db)"
  shows "matching f (Some (al_id (matching f cursor db ! n))) db = drop (Suc n) (matching f cursor db)"
proof -
  let ?m = "matching f cursor db"
  have mem: "?m ! n \<in> set ?m" using assms(2) by simp
  then have c: "case cursor of None \<Rightarrow> True | Some c \<Rightarrow> al_id (?m ! n) < c"
    by (auto simp: matching_def split: option.splits)
  have "matching f (Some (al_id (?m ! n))) db = filter (\<lambda>r. al_id r < al_id (?m ! n)) ?m"
    unfolding matching_def[of f cursor] filter_sort_key filter_filter
    unfolding matching_def using c
    by (intro arg_cong[where f = "sort_key _"] filter_cong) (auto simp: matching_def split: option.splits)
  then show ?thesis
    using sorted_desc_filter_split[OF assms(1) matching_desc[OF assms(1)] assms(2)] by simp
qed

lemma follow_cursors_enough:
  assumes "keyed al_id (au_rows db)" "0 < limit" "length (matching f cursor db) < fuel"
  shows "follow_cursors fuel f cursor limit db = Some (map audit_view (matching f cursor db))"
  using assms(3)
proof (induction fuel arbitrary: cursor)
  case 0
  then show ?case by simp
next
  case (Suc fuel)
  let ?m = "matching f cursor db"
  show ?case
  proof (cases "length ?m > limit")
    case False
    then show ?thesis by (simp add: list_audit_events_alt)
  next
    case True
    have nxt: "matching f (Some (al_id (?m ! (limit - 1)))) db = drop limit ?m"
      using matching_next_cursor[OF assms(1), of "limit - 1" f cursor] True assms(2) by simp
    have "length (drop limit ?m) < fuel" using Suc.prems True assms(2) by simp
    then have "follow_cursors fuel f (Some (al_id (?m ! (limit - 1)))) limit db =
        Some (map audit_view (drop limit ?m))"
      using Suc.IH[of "Some (al_id (?m ! (limit - 1)))"] nxt by simp
    then show ?thesis
      using True assms(2) by (simp add: list_audit_events_alt flip: map_append)
  qed
qed

section \<open>Properties\<close>

text \<open>C28. Following the audit cursors terminates and is complete: with any page size of at least one
  and one request more than there are matching events, the concatenated pages are all events that
  match the filter, newest first, each exactly once.\<close>

theorem audit_pagination_complete:
  assumes "audit_inv db" and "0 < limit"
    and "length (filter (audit_matches f) (au_rows db)) < fuel"
  shows "\<exists>pages. follow_cursors fuel f None limit db = Some pages \<and>
     mset pages = mset (map audit_view (filter (audit_matches f) (au_rows db))) \<and>
     sorted_wrt (\<lambda>a b. av_id a > av_id b) pages"
proof -
  have k: "keyed al_id (au_rows db)" using assms(1) by (simp add: audit_inv_def)
  let ?m = "matching f None db"
  have m: "mset ?m = mset (filter (audit_matches f) (au_rows db))"
    by (simp add: matching_def)
  then have "length ?m < fuel" using assms(3) by (metis size_mset)
  then have "follow_cursors fuel f None limit db = Some (map audit_view ?m)"
    by (rule follow_cursors_enough[OF k assms(2)])
  moreover have "sorted_wrt (\<lambda>a b. av_id a > av_id b) (map audit_view ?m)"
    using matching_desc[OF k, of f None] by (simp add: sorted_wrt_map audit_view_def)
  ultimately show ?thesis using m by (simp flip: mset_map add: mset_map)
qed

definition any_event :: audit_filter where
  "any_event = \<lparr>fi_actor_id = None, fi_action = None, fi_resource_type = None, fi_resource_id = None,
     fi_result = None, fi_created_from = None, fi_created_to = None\<rparr>"

definition demo_event :: audit_input where
  "demo_event = \<lparr>ai_action = ''login'', ai_result = SUCCESS, ai_resource_type = ''user'',
     ai_actor_id = None, ai_resource_id = None, ai_request_id = None, ai_ip_address = None,
     ai_details = JObj []\<rparr>"

theorem audit_pagination_complete_witness:
  "\<exists>pages. follow_cursors 3 any_event None 1
      (add_audit_event 2 demo_event (add_audit_event 1 demo_event \<lparr>au_rows = [], au_next_id = 1\<rparr>))
      = Some pages \<and> length pages = 2"
proof -
  let ?db = "add_audit_event 2 demo_event (add_audit_event 1 demo_event \<lparr>au_rows = [], au_next_id = 1\<rparr>)"
  have inv: "audit_inv ?db" by (intro add_audit_event_inv) (simp add: audit_inv_def)
  have rows: "length (filter (audit_matches any_event) (au_rows ?db)) = 2"
    by (simp add: add_audit_event_def audit_matches_def any_event_def opt_eq_def opt_eq_null_def)
  obtain pages where p: "follow_cursors 3 any_event None 1 ?db = Some pages"
    "mset pages = mset (map audit_view (filter (audit_matches any_event) (au_rows ?db)))"
    using audit_pagination_complete[OF inv, of 1 any_event 3] rows by auto
  then have "length pages = 2" using rows by (metis length_map mset_eq_length)
  with p(1) show ?thesis by blast
qed

end
