(* ===== verification/Rate_Limit.thy ===== *)
theory Rate_Limit
  imports KB_Prelude
begin

text \<open>
  The fixed-window rate limiter (\<open>src/app/services/rate_limit.py\<close>). Redis is not
  part of the repository: the commands its script issues are parameters of the model,
  the record \<open>redis_ops\<close>. What the limiter relies on is the locale \<open>redis_counter\<close>,
  the documented behaviour of \<open>INCR\<close>, \<open>PEXPIRE\<close> and \<open>PTTL\<close> on a key that does
  not expire meanwhile. \<open>rd_reply\<close> says whether the client gets an answer, and
  \<open>rd_lost\<close> is the server state when it does not.
\<close>

section \<open>State and operations\<close>

record 'r redis_ops =
  rd_incr :: "string \<Rightarrow> 'r \<Rightarrow> int \<times> 'r"
  rd_pexpire :: "string \<Rightarrow> int \<Rightarrow> 'r \<Rightarrow> 'r"
  rd_pttl :: "string \<Rightarrow> 'r \<Rightarrow> int"
  rd_reply :: "'r \<Rightarrow> bool"
  rd_lost :: "'r \<Rightarrow> 'r"

record rate_limit_decision =
  rld_allowed :: bool
  rld_limit :: int
  rld_remaining :: int
  rld_retry_after_seconds :: int

definition rate_limit_script ::
    "'r redis_ops \<Rightarrow> string \<Rightarrow> int \<Rightarrow> 'r \<Rightarrow> (int \<times> int) \<times> 'r" where
  "rate_limit_script ops key expiry_ms r =
     (let (current, r1) = rd_incr ops key r;
          r2 = (if current = 1 then rd_pexpire ops key expiry_ms r1 else r1);
          ttl = rd_pttl ops key r2
      in ((current, ttl), r2))"

text \<open>\<open>None\<close>: the client raised. A non-positive limit denies without asking Redis.\<close>

definition rate_check ::
    "'r redis_ops \<Rightarrow> string \<Rightarrow> int \<Rightarrow> int \<Rightarrow> 'r \<Rightarrow> rate_limit_decision option \<times> 'r" where
  "rate_check ops key limit window_seconds r =
     (if limit \<le> 0
      then (Some \<lparr>rld_allowed = False, rld_limit = limit, rld_remaining = 0,
                  rld_retry_after_seconds = window_seconds\<rparr>, r)
      else if \<not> rd_reply ops r then (None, rd_lost ops r)
      else (let ((current, ttl_ms), r') = rate_limit_script ops key (window_seconds * 1000) r;
                retry_after = max 1 ((ttl_ms + 999) div 1000)
            in (Some \<lparr>rld_allowed = (current \<le> limit), rld_limit = limit,
                      rld_remaining = max (limit - current) 0,
                      rld_retry_after_seconds = retry_after\<rparr>, r')))"

section \<open>The contract of the counter\<close>

locale redis_counter =
  fixes ops :: "'r redis_ops"
    and cnt :: "'r \<Rightarrow> string \<Rightarrow> int"
  assumes incr_law: "rd_incr ops k r = (n, r') \<Longrightarrow>
      n = cnt r k + 1 \<and> cnt r' k = n \<and> (\<forall>k'. k' \<noteq> k \<longrightarrow> cnt r' k' = cnt r k')"
    and pexpire_law: "cnt (rd_pexpire ops k ms r) = cnt r"
    and reply_law: "rd_reply ops r"
begin

lemma script_counts:
  "rate_limit_script ops key ms r = ((n, ttl), r') \<Longrightarrow>
   n = cnt r key + 1 \<and> cnt r' key = n \<and> (\<forall>k'. k' \<noteq> key \<longrightarrow> cnt r' k' = cnt r k')"
  by (auto simp: rate_limit_script_def Let_def pexpire_law split: prod.splits if_splits
      dest: incr_law)

lemma rate_check_step:
  assumes "0 < limit"
  obtains d r' where "rate_check ops key limit w r = (Some d, r')"
    "rld_allowed d \<longleftrightarrow> cnt r key < limit" "cnt r' key = cnt r key + 1"
    "rld_remaining d = max (limit - cnt r key - 1) 0" "1 \<le> rld_retry_after_seconds d"
    "\<And>k'. k' \<noteq> key \<Longrightarrow> cnt r' k' = cnt r k'"
proof -
  obtain n ttl r' where s: "rate_limit_script ops key (w * 1000) r = ((n, ttl), r')"
    by (metis surj_pair)
  let ?d = "\<lparr>rld_allowed = (n \<le> limit), rld_limit = limit, rld_remaining = max (limit - n) 0,
      rld_retry_after_seconds = max 1 ((ttl + 999) div 1000)\<rparr>"
  have "rate_check ops key limit w r = (Some ?d, r')"
    using assms s reply_law by (simp add: rate_check_def Let_def)
  then show thesis using script_counts[OF s] by (intro that[of ?d r']) auto
qed

end

section \<open>A run of requests on one bucket\<close>

text \<open>The decisions of \<open>n\<close> consecutive requests on one key.\<close>

fun rate_run ::
    "'r redis_ops \<Rightarrow> string \<Rightarrow> int \<Rightarrow> int \<Rightarrow> nat \<Rightarrow> 'r \<Rightarrow> rate_limit_decision option list" where
  "rate_run ops key limit w 0 r = []"
| "rate_run ops key limit w (Suc n) r =
     (case rate_check ops key limit w r of (d, r') \<Rightarrow> d # rate_run ops key limit w n r')"

definition is_allowed :: "rate_limit_decision option \<Rightarrow> bool" where
  "is_allowed d = (case d of None \<Rightarrow> False | Some x \<Rightarrow> rld_allowed x)"

context redis_counter
begin

lemma rate_run_allowed:
  assumes "0 < limit" "0 \<le> cnt r key"
  shows "int (length (filter is_allowed (rate_run ops key limit w n r))) =
     max 0 (min (int n) (limit - cnt r key))"
  using assms(2)
proof (induction n arbitrary: r)
  case 0
  then show ?case by simp
next
  case (Suc n)
  obtain d r' where d: "rate_check ops key limit w r = (Some d, r')"
    "rld_allowed d \<longleftrightarrow> cnt r key < limit" "cnt r' key = cnt r key + 1"
    using rate_check_step[OF assms(1), of key w r] by metis
  have "0 \<le> cnt r' key" using Suc.prems d(3) by simp
  from Suc.IH[OF this] d show ?case by (auto simp: is_allowed_def)
qed

end

section \<open>A concrete store\<close>

text \<open>A key-value store that counts and never expires within the window under test.\<close>

definition counting_redis :: "(string \<Rightarrow> int) redis_ops" where
  "counting_redis =
     \<lparr>rd_incr = (\<lambda>k m. (m k + 1, m(k := m k + 1))), rd_pexpire = (\<lambda>_ _ m. m),
      rd_pttl = (\<lambda>_ _. 60000), rd_reply = (\<lambda>_. True), rd_lost = (\<lambda>m. m)\<rparr>"

interpretation counting: redis_counter counting_redis "\<lambda>m k. m k"
  by unfold_locales (auto simp: counting_redis_def)

section \<open>Properties\<close>

text \<open>C29. Inside one window of a Redis key (INCR counts, PEXPIRE keeps the count, EVAL answers),
  exactly the first \<open>limit\<close> requests of a bucket that starts empty are allowed, however many are
  sent.\<close>

theorem rate_limiter_allows_exactly_limit:
  assumes "redis_counter ops cnt" and "0 < limit" and "cnt r key = 0"
  shows "int (length (filter is_allowed (rate_run ops key limit w n r))) = min (int n) limit"
  using redis_counter.rate_run_allowed[OF assms(1,2), of r key w n] assms(2,3) by simp

theorem rate_limiter_allows_exactly_limit_witness:
  "int (length (filter is_allowed (rate_run counting_redis ''k'' 2 60 5 (\<lambda>_. 0)))) = 2"
  using rate_limiter_allows_exactly_limit[OF counting.redis_counter_axioms, of 2 "\<lambda>_. 0" "''k''" 60 5]
  by simp

end
