(* ===== verification/Auth.thy ===== *)
theory Auth
  imports Access_Control Audit_Trail Rate_Limit
begin

text \<open>
  Authentication: \<open>TokenService\<close> (\<open>src/app/core/security.py\<close>), the request
  dependencies (\<open>src/app/api/dependencies.py\<close>) and the session routes
  (\<open>src/app/api/v1/routes/auth.py\<close>: login, refresh rotation with reuse detection,
  status, logout). The JWT library, the password hasher, SHA-256 and the UUID text
  form are parameters (\<open>crypto_ops\<close>); random UUIDs and the clock are arguments.

  A handler returns its response or error, the database as committed (unchanged after
  a rollback) and the Redis state, which keeps the increments of denied requests.
  Advisory and row locks order concurrent transactions; one transaction at a time they
  change no row.
\<close>

section \<open>Parameters\<close>

record jwt_payload =
  jp_sub :: string
  jp_ver :: int
  jp_typ :: string
  jp_jti :: string
  jp_nbf :: int
  jp_exp :: int

record crypto_ops =
  co_jwt_encode :: "jwt_payload \<Rightarrow> string"
  co_jwt_decode :: "string \<Rightarrow> timestamp \<Rightarrow> jwt_payload option"
  co_str_uuid :: "uuid \<Rightarrow> string"
  co_parse_uuid :: "string \<Rightarrow> uuid option"
  co_sha256 :: "string \<Rightarrow> string"
  co_verify :: "string \<Rightarrow> string \<Rightarrow> bool"
  co_dummy_hash :: string

record auth_settings =
  st_login_attempts_per_minute :: int
  st_login_attempts_per_account_per_minute :: int
  st_refresh_attempts_per_minute :: int
  st_authenticated_precheck_requests_per_minute :: int
  st_default_requests_per_minute :: int
  st_access_token_minutes :: int
  st_refresh_token_days :: int

section \<open>TokenService\<close>

record token_claims =
  tc_user_id :: uuid
  tc_token_version :: int
  tc_token_type :: string
  tc_token_id :: uuid
  tc_expires_at :: timestamp

definition create_token ::
    "crypto_ops \<Rightarrow> uuid \<Rightarrow> int \<Rightarrow> string \<Rightarrow> uuid \<Rightarrow> timestamp \<Rightarrow> timestamp \<Rightarrow> string" where
  "create_token co user_id token_version token_type jti lifetime now =
     co_jwt_encode co
       \<lparr>jp_sub = co_str_uuid co user_id, jp_ver = token_version, jp_typ = token_type,
        jp_jti = co_str_uuid co jti, jp_nbf = now div 1000000,
        jp_exp = (now + lifetime) div 1000000\<rparr>"

definition decode_token :: "crypto_ops \<Rightarrow> timestamp \<Rightarrow> string \<Rightarrow> string \<Rightarrow> token_claims option" where
  "decode_token co now token expected_type =
     Option.bind (co_jwt_decode co token now) (\<lambda>payload.
     if jp_typ payload \<noteq> expected_type then None
     else Option.bind (co_parse_uuid co (jp_sub payload)) (\<lambda>user_id.
          Option.bind (co_parse_uuid co (jp_jti payload)) (\<lambda>token_id.
          Some \<lparr>tc_user_id = user_id, tc_token_version = jp_ver payload,
                 tc_token_type = jp_typ payload, tc_token_id = token_id,
                 tc_expires_at = seconds (jp_exp payload)\<rparr>)))"

section \<open>State\<close>

record auth_db =
  a_rbac :: rbac_db
  a_tokens :: "refresh_token list"
  a_audit :: audit_db

record http_request =
  rq_client_ip :: string
  rq_request_id :: "string option"
  rq_host :: "string option"

record fresh_ids =
  fr_access_jti :: uuid
  fr_refresh_jti :: uuid
  fr_family :: uuid

record token_pair =
  tp_access_token :: string
  tp_refresh_token :: string
  tp_expires_in :: int

type_synonym 'r auth_result = "(api_error + token_pair) \<times> auth_db \<times> 'r"

definition find_user :: "auth_db \<Rightarrow> uuid \<Rightarrow> user option" where
  "find_user db uid = find (\<lambda>u. u_id u = uid) (db_users (a_rbac db))"

definition write_user :: "uuid \<Rightarrow> (user \<Rightarrow> user) \<Rightarrow> auth_db \<Rightarrow> auth_db" where
  "write_user uid f db =
     db\<lparr>a_rbac := (a_rbac db)\<lparr>db_users := update_where (\<lambda>u. u_id u = uid) f (db_users (a_rbac db))\<rparr>\<rparr>"

definition audit_auth ::
    "timestamp \<Rightarrow> string \<Rightarrow> audit_result \<Rightarrow> string \<Rightarrow> uuid option \<Rightarrow> string option \<Rightarrow> string option \<Rightarrow>
     string option \<Rightarrow> json \<Rightarrow> auth_db \<Rightarrow> auth_db" where
  "audit_auth now action result resource_type actor resource_id request_id ip details db =
     db\<lparr>a_audit := add_audit_event now
          \<lparr>ai_action = action, ai_result = result, ai_resource_type = resource_type,
           ai_actor_id = actor, ai_resource_id = resource_id, ai_request_id = request_id,
           ai_ip_address = ip, ai_details = details\<rparr> (a_audit db)\<rparr>"

section \<open>Request dependencies\<close>

definition rate_gate ::
    "'r redis_ops \<Rightarrow> string \<Rightarrow> int \<Rightarrow> 'r \<Rightarrow> (api_error + rate_limit_decision) \<times> 'r" where
  "rate_gate ops key limit r =
     (case rate_check ops key limit 60 r of
        (None, r') \<Rightarrow> (Inl (ApiError 503 ''rate_limiter_unavailable''), r')
      | (Some decision, r') \<Rightarrow>
          (if rld_allowed decision then Inr decision
           else Inl (ApiError 429 ''rate_limit_exceeded''), r'))"

definition active_user :: "user \<Rightarrow> bool" where
  "active_user u \<longleftrightarrow> u_status u = USER_ACTIVE \<and> u_retired_at u = None"

definition get_current_user ::
    "crypto_ops \<Rightarrow> 'r redis_ops \<Rightarrow> auth_settings \<Rightarrow> timestamp \<Rightarrow> string \<Rightarrow> auth_db \<Rightarrow> 'r \<Rightarrow>
     (api_error + user) \<times> 'r" where
  "get_current_user co ops st now token db r =
     (case decode_token co now token ''access'' of
        None \<Rightarrow> (Inl (ApiError 401 ''invalid_token''), r)
      | Some claims \<Rightarrow>
          (case rate_gate ops (''rate:preauth:user:'' @ co_str_uuid co (tc_user_id claims))
                  (st_authenticated_precheck_requests_per_minute st) r of
             (Inl e, r') \<Rightarrow> (Inl e, r')
           | (Inr _, r') \<Rightarrow>
               (case find_user db (tc_user_id claims) of
                  None \<Rightarrow> (Inl (ApiError 401 ''inactive_user''), r')
                | Some user \<Rightarrow>
                    (if \<not> active_user user then Inl (ApiError 401 ''inactive_user'')
                     else if u_token_version user \<noteq> tc_token_version claims
                     then Inl (ApiError 401 ''token_revoked'')
                     else Inr user, r'))))"

definition enforce_access_rate_limit ::
    "crypto_ops \<Rightarrow> 'r redis_ops \<Rightarrow> auth_settings \<Rightarrow> access_context \<Rightarrow> 'r \<Rightarrow>
     (api_error + rate_limit_decision option) \<times> 'r" where
  "enforce_access_rate_limit co ops st access r =
     (case (case ac_limits access ''requests_per_minute'' of
              None \<Rightarrow> Some (st_default_requests_per_minute st) | Some v \<Rightarrow> v) of
        None \<Rightarrow> (Inr None, r)
      | Some rate_limit \<Rightarrow>
          (case rate_gate ops (''rate:user:'' @ co_str_uuid co (u_id (ac_user access))) rate_limit r of
             (Inl e, r') \<Rightarrow> (Inl e, r')
           | (Inr d, r') \<Rightarrow> (Inr (Some d), r')))"

definition require_authenticated_access ::
    "crypto_ops \<Rightarrow> 'r redis_ops \<Rightarrow> auth_settings \<Rightarrow> access_context \<Rightarrow> 'r \<Rightarrow>
     (api_error + access_context) \<times> 'r" where
  "require_authenticated_access co ops st access r =
     (case enforce_access_rate_limit co ops st access r of
        (Inl e, r') \<Rightarrow> (Inl e, r') | (Inr _, r') \<Rightarrow> (Inr access, r'))"

definition require_permission ::
    "crypto_ops \<Rightarrow> 'r redis_ops \<Rightarrow> auth_settings \<Rightarrow> string \<Rightarrow> access_context \<Rightarrow> 'r \<Rightarrow>
     (api_error + access_context) \<times> 'r" where
  "require_permission co ops st permission access r =
     (case enforce_access_rate_limit co ops st access r of
        (Inl e, r') \<Rightarrow> (Inl e, r')
      | (Inr _, r') \<Rightarrow>
          (if \<not> allows access permission then Inl (ApiError 403 ''permission_denied'')
           else Inr access, r'))"

definition require_any_permission ::
    "crypto_ops \<Rightarrow> 'r redis_ops \<Rightarrow> auth_settings \<Rightarrow> string list \<Rightarrow> access_context \<Rightarrow> 'r \<Rightarrow>
     (api_error + access_context) \<times> 'r" where
  "require_any_permission co ops st permissions access r =
     (case enforce_access_rate_limit co ops st access r of
        (Inl e, r') \<Rightarrow> (Inl e, r')
      | (Inr _, r') \<Rightarrow>
          (if \<not> (\<exists>p \<in> set permissions. allows access p) then Inl (ApiError 403 ''permission_denied'')
           else Inr access, r'))"

section \<open>Session routes\<close>

definition unhandled :: api_error where
  "unhandled = ApiError 500 ''internal_error''"

text \<open>\<open>_pair\<close>: mint both tokens and the row of the refresh token.\<close>

definition mint_pair ::
    "crypto_ops \<Rightarrow> auth_settings \<Rightarrow> timestamp \<Rightarrow> user \<Rightarrow> fresh_ids \<Rightarrow> uuid option \<Rightarrow> uuid option \<Rightarrow>
     api_error + token_pair \<times> refresh_token" where
  "mint_pair co st now user fr family_id parent_id =
     (let access = create_token co (u_id user) (u_token_version user) ''access'' (fr_access_jti fr)
            (seconds (st_access_token_minutes st * 60)) now;
          refresh = create_token co (u_id user) (u_token_version user) ''refresh'' (fr_refresh_jti fr)
            (st_refresh_token_days st * day_length) now
      in case decode_token co now refresh ''refresh'' of
           None \<Rightarrow> Inl unhandled
         | Some claims \<Rightarrow>
             Inr (\<lparr>tp_access_token = access, tp_refresh_token = refresh,
                   tp_expires_in = st_access_token_minutes st * 60\<rparr>,
                  \<lparr>rt_id = tc_token_id claims,
                   rt_family_id = (case family_id of None \<Rightarrow> fr_family fr | Some f \<Rightarrow> f),
                   rt_user_id = u_id user, rt_parent_id = parent_id, rt_replaced_by_id = None,
                   rt_token_hash = co_sha256 co refresh, rt_expires_at = tc_expires_at claims,
                   rt_revoked_at = None, rt_reuse_detected_at = None\<rparr>))"

text \<open>Primary key and unique token hash of \<open>refresh_tokens\<close>.\<close>

definition insert_token :: "refresh_token \<Rightarrow> auth_db \<Rightarrow> api_error + auth_db" where
  "insert_token t db =
     (if \<exists>x \<in> set (a_tokens db). rt_id x = rt_id t \<or> rt_token_hash x = rt_token_hash t
      then Inl unhandled
      else Inr (db\<lparr>a_tokens := a_tokens db @ [t]\<rparr>))"

definition login ::
    "crypto_ops \<Rightarrow> 'r redis_ops \<Rightarrow> auth_settings \<Rightarrow> timestamp \<Rightarrow> fresh_ids \<Rightarrow> http_request \<Rightarrow>
     string \<Rightarrow> string \<Rightarrow> auth_db \<Rightarrow> 'r \<Rightarrow> 'r auth_result" where
  "login co ops st now fr rq username password db r =
     (let email = py_lower (py_strip username);
          denied = (\<lambda>details. audit_auth now ''auth.login.denied'' DENIED ''user'' None None
                      (rq_request_id rq) (rq_host rq) details db)
      in case rate_gate ops (''auth:login:ip:'' @ rq_client_ip rq) (st_login_attempts_per_minute st) r of
           (Inl e, r1) \<Rightarrow> (Inl e, db, r1)
         | (Inr _, r1) \<Rightarrow>
             if email = [] \<or> password = [] \<or> length email > 320 \<or> length password > 256
             then (Inl (ApiError 401 ''invalid_credentials''),
                   denied (JObj [(''reason'', JStr ''credential_shape_invalid'')]), r1)
             else (case rate_gate ops (''auth:login:account:'' @ co_sha256 co email)
                          (st_login_attempts_per_account_per_minute st) r1 of
                     (Inl e, r2) \<Rightarrow> (Inl e, db, r2)
                   | (Inr _, r2) \<Rightarrow>
                       (let found = find (\<lambda>u. u_email u = email) (db_users (a_rbac db));
                            encoded_hash = (case found of None \<Rightarrow> co_dummy_hash co
                                                        | Some u \<Rightarrow> u_password_hash u);
                            password_is_valid = co_verify co password encoded_hash
                        in case found of
                             None \<Rightarrow> (Inl (ApiError 401 ''invalid_credentials''),
                                      denied (JObj [(''email'', JStr email)]), r2)
                           | Some user \<Rightarrow>
                               if \<not> active_user user \<or> \<not> password_is_valid
                               then (Inl (ApiError 401 ''invalid_credentials''),
                                     denied (JObj [(''email'', JStr email)]), r2)
                               else (case bind_r (mint_pair co st now user fr None None)
                                         (\<lambda>(pair, record).
                                           bind_r (insert_token record
                                             (write_user (u_id user) (\<lambda>u. u\<lparr>u_last_login_at := Some now\<rparr>) db))
                                           (\<lambda>db1. Inr (pair, audit_auth now ''auth.login.succeeded'' SUCCESS
                                              ''user'' (Some (u_id user)) (Some (co_str_uuid co (u_id user)))
                                              (rq_request_id rq) (rq_host rq) (JObj []) db1))) of
                                       Inl e \<Rightarrow> (Inl e, db, r2)
                                     | Inr (pair, db') \<Rightarrow> (Inr pair, db', r2)))))"

definition find_token :: "auth_db \<Rightarrow> uuid \<Rightarrow> uuid \<Rightarrow> refresh_token option" where
  "find_token db token_id user_id =
     find (\<lambda>t. rt_id t = token_id \<and> rt_user_id t = user_id) (a_tokens db)"

definition in_family :: "refresh_token \<Rightarrow> uuid \<Rightarrow> refresh_token \<Rightarrow> bool" where
  "in_family record user_id t \<longleftrightarrow> rt_family_id t = rt_family_id record \<and> rt_user_id t = user_id"

text \<open>A detected reuse revokes the whole family and every session of the user.\<close>

definition detect_reuse ::
    "crypto_ops \<Rightarrow> timestamp \<Rightarrow> http_request \<Rightarrow> user \<Rightarrow> refresh_token \<Rightarrow> auth_db \<Rightarrow> auth_db" where
  "detect_reuse co now rq user record db =
     (let db1 = db\<lparr>a_tokens := update_where (in_family record (u_id user))
            (\<lambda>t. t\<lparr>rt_revoked_at := (case rt_revoked_at t of None \<Rightarrow> Some now | Some x \<Rightarrow> Some x),
                    rt_reuse_detected_at := Some now\<rparr>) (a_tokens db)\<rparr>;
          db2 = write_user (u_id user) (\<lambda>u. u\<lparr>u_token_version := u_token_version u + 1\<rparr>) db1
      in audit_auth now ''auth.token.reuse_detected'' DENIED ''refresh_token_family''
           (Some (u_id user)) (Some (co_str_uuid co (rt_family_id record))) (rq_request_id rq) None
           (JObj [(''compromised_token_id'', JStr (co_str_uuid co (rt_id record)))]) db2)"

definition rotate ::
    "crypto_ops \<Rightarrow> auth_settings \<Rightarrow> timestamp \<Rightarrow> fresh_ids \<Rightarrow> http_request \<Rightarrow> user \<Rightarrow> refresh_token \<Rightarrow>
     auth_db \<Rightarrow> api_error + token_pair \<times> auth_db" where
  "rotate co st now fr rq user record db =
     (let db1 = db\<lparr>a_tokens := update_where (\<lambda>t. rt_id t = rt_id record)
            (\<lambda>t. t\<lparr>rt_revoked_at := Some now\<rparr>) (a_tokens db)\<rparr>
      in bind_r (mint_pair co st now user fr (Some (rt_family_id record)) (Some (rt_id record)))
           (\<lambda>(pair, replacement).
         bind_r (insert_token replacement db1) (\<lambda>db2.
         Inr (pair, audit_auth now ''auth.token.refreshed'' SUCCESS ''user'' (Some (u_id user))
                (Some (co_str_uuid co (u_id user))) (rq_request_id rq) None (JObj [])
                (db2\<lparr>a_tokens := update_where (\<lambda>t. rt_id t = rt_id record)
                   (\<lambda>t. t\<lparr>rt_replaced_by_id := Some (rt_id replacement)\<rparr>) (a_tokens db2)\<rparr>)))))"

definition refresh_tokens ::
    "crypto_ops \<Rightarrow> 'r redis_ops \<Rightarrow> auth_settings \<Rightarrow> timestamp \<Rightarrow> fresh_ids \<Rightarrow> http_request \<Rightarrow> string \<Rightarrow>
     auth_db \<Rightarrow> 'r \<Rightarrow> 'r auth_result" where
  "refresh_tokens co ops st now fr rq token db r =
     (case rate_gate ops (''auth:refresh:ip:'' @ rq_client_ip rq) (st_refresh_attempts_per_minute st) r of
        (Inl e, r') \<Rightarrow> (Inl e, db, r')
      | (Inr _, r') \<Rightarrow>
          (case decode_token co now token ''refresh'' of
             None \<Rightarrow> (Inl (ApiError 401 ''invalid_refresh_token''), db, r')
           | Some claims \<Rightarrow>
               (case find_user db (tc_user_id claims) of
                  None \<Rightarrow> (Inl (ApiError 401 ''invalid_refresh_token''), db, r')
                | Some user \<Rightarrow>
                    (case find_token db (tc_token_id claims) (u_id user) of
                       None \<Rightarrow> (Inl (ApiError 401 ''invalid_refresh_token''), db, r')
                     | Some record \<Rightarrow>
                         if rt_revoked_at record \<noteq> None \<or> rt_token_hash record \<noteq> co_sha256 co token
                         then (Inl (ApiError 401 ''refresh_token_reuse_detected''),
                               if rt_reuse_detected_at record = None
                               then detect_reuse co now rq user record db else db, r')
                         else if rt_expires_at record \<le> now \<or> \<not> active_user user \<or>
                                 u_token_version user \<noteq> tc_token_version claims
                         then (Inl (ApiError 401 ''invalid_refresh_token''), db, r')
                         else (case rotate co st now fr rq user record db of
                                 Inl e \<Rightarrow> (Inl e, db, r')
                               | Inr (pair, db') \<Rightarrow> (Inr pair, db', r'))))))"

definition refresh_session_status ::
    "crypto_ops \<Rightarrow> timestamp \<Rightarrow> string \<Rightarrow> auth_db \<Rightarrow> api_error + unit" where
  "refresh_session_status co now token db =
     (case decode_token co now token ''refresh'' of
        None \<Rightarrow> Inl (ApiError 401 ''invalid_refresh_token'')
      | Some claims \<Rightarrow>
          ensure (case (find_user db (tc_user_id claims),
                        find_token db (tc_token_id claims) (tc_user_id claims)) of
                    (Some user, Some record) \<Rightarrow>
                      active_user user \<and> u_token_version user = tc_token_version claims \<and>
                      rt_revoked_at record = None \<and> rt_expires_at record > now \<and>
                      rt_token_hash record = co_sha256 co token
                  | _ \<Rightarrow> False)
            (ApiError 401 ''invalid_refresh_token''))"

definition logout :: "crypto_ops \<Rightarrow> timestamp \<Rightarrow> http_request \<Rightarrow> string \<Rightarrow> auth_db \<Rightarrow> auth_db" where
  "logout co now rq token db =
     (case decode_token co now token ''refresh'' of
        None \<Rightarrow> db
      | Some claims \<Rightarrow>
          (case find_user db (tc_user_id claims) of
             None \<Rightarrow> db
           | Some user \<Rightarrow>
               (case find_token db (tc_token_id claims) (u_id user) of
                  None \<Rightarrow> db
                | Some record \<Rightarrow>
                    if rt_token_hash record \<noteq> co_sha256 co token then db
                    else (let revoked_count = length (filter (\<lambda>t. in_family record (u_id user) t \<and>
                                rt_revoked_at t = None) (a_tokens db))
                          in if revoked_count = 0 then db
                             else audit_auth now ''auth.logout.succeeded'' SUCCESS ''refresh_token_family''
                                    (Some (u_id user)) (Some (co_str_uuid co (rt_family_id record)))
                                    (rq_request_id rq) None
                                    (JObj [(''revoked_refresh_tokens'', JInt (int revoked_count))])
                                    (db\<lparr>a_tokens := update_where
                                        (\<lambda>t. in_family record (u_id user) t \<and> rt_revoked_at t = None)
                                        (\<lambda>t. t\<lparr>rt_revoked_at := Some now\<rparr>) (a_tokens db)\<rparr>)))))"

section \<open>Frame lemmas\<close>

lemma audit_auth_frame [simp]:
  "a_tokens (audit_auth now ac res rt act rid rq ip d db) = a_tokens db"
  "a_rbac (audit_auth now ac res rt act rid rq ip d db) = a_rbac db"
  by (simp_all add: audit_auth_def)

lemma write_user_frame [simp]:
  "a_tokens (write_user uid f db) = a_tokens db"
  "a_audit (write_user uid f db) = a_audit db"
  "db_users (a_rbac (write_user uid f db)) = update_where (\<lambda>u. u_id u = uid) f (db_users (a_rbac db))"
  by (simp_all add: write_user_def)

lemma find_user_frame [simp]:
  "find_user (audit_auth now ac res rt act rid rq ip d db) = find_user db"
  "find_user (db\<lparr>a_tokens := ts\<rparr>) = find_user db"
  by (simp_all add: find_user_def fun_eq_iff)

lemma find_user_update:
  "(\<And>u. u_id (f u) = u_id u) \<Longrightarrow>
   find_user (write_user uid f db) v = map_option (\<lambda>u. if u_id u = uid then f u else u) (find_user db v)"
  unfolding find_user_def by (simp add: find_update_where_key)

lemma find_user_id: "find_user db v = Some u \<Longrightarrow> u_id u = v \<and> u \<in> set (db_users (a_rbac db))"
  by (auto simp: find_user_def dest: find_Some_in_set)

lemma mint_pair_record:
  assumes "mint_pair co st now user fr fam par = Inr (pair, rec)"
  shows "rt_family_id rec = (case fam of None \<Rightarrow> fr_family fr | Some f \<Rightarrow> f)"
    "rt_user_id rec = u_id user" "rt_revoked_at rec = None" "rt_parent_id rec = par"
    "rt_token_hash rec = co_sha256 co (tp_refresh_token pair)" "rt_reuse_detected_at rec = None"
  using assms by (auto simp: mint_pair_def Let_def split: option.split_asm)

lemma insert_tokenD:
  assumes "insert_token t db = Inr db'"
  shows "a_tokens db' = a_tokens db @ [t]" "a_rbac db' = a_rbac db" "a_audit db' = a_audit db"
    "rt_id t \<notin> rt_id ` set (a_tokens db)"
  using assms by (auto simp: insert_token_def split: if_splits)

section \<open>Invariant: one live token per family\<close>

definition live_in :: "uuid \<Rightarrow> refresh_token \<Rightarrow> bool" where
  "live_in fam t \<longleftrightarrow> rt_family_id t = fam \<and> rt_revoked_at t = None"

definition live_count :: "uuid \<Rightarrow> refresh_token list \<Rightarrow> nat" where
  "live_count fam ts = length (filter (live_in fam) ts)"

lemma live_count_simps [simp]:
  "live_count fam [] = 0"
  "live_count fam (t # ts) = (if live_in fam t then 1 else 0) + live_count fam ts"
  "live_count fam (ts @ us) = live_count fam ts + live_count fam us"
  by (simp_all add: live_count_def)

text \<open>The tokens of a family belong to one user.\<close>

definition family_user :: "refresh_token list \<Rightarrow> bool" where
  "family_user ts \<longleftrightarrow> (\<forall>s \<in> set ts. \<forall>t \<in> set ts.
     rt_family_id s = rt_family_id t \<longrightarrow> rt_user_id s = rt_user_id t)"

definition auth_inv :: "auth_db \<Rightarrow> bool" where
  "auth_inv db \<longleftrightarrow>
     keyed rt_id (a_tokens db) \<and> keyed u_id (db_users (a_rbac db)) \<and>
     (\<forall>fam. live_count fam (a_tokens db) \<le> 1) \<and> family_user (a_tokens db)"

lemma auth_invD:
  assumes "auth_inv db"
  shows "keyed rt_id (a_tokens db)" "keyed u_id (db_users (a_rbac db))"
    "live_count fam (a_tokens db) \<le> 1" "family_user (a_tokens db)"
  using assms unfolding auth_inv_def by blast+

lemma auth_invI:
  "keyed rt_id (a_tokens db) \<Longrightarrow> keyed u_id (db_users (a_rbac db)) \<Longrightarrow>
   (\<And>fam. live_count fam (a_tokens db) \<le> 1) \<Longrightarrow> family_user (a_tokens db) \<Longrightarrow> auth_inv db"
  unfolding auth_inv_def by blast

text \<open>Revoking rows never adds a live one; it keeps the identifying columns.\<close>

definition only_revokes :: "(refresh_token \<Rightarrow> refresh_token) \<Rightarrow> bool" where
  "only_revokes f \<longleftrightarrow> (\<forall>t. rt_id (f t) = rt_id t \<and> rt_family_id (f t) = rt_family_id t \<and>
     rt_user_id (f t) = rt_user_id t \<and> (rt_revoked_at (f t) = None \<longrightarrow> rt_revoked_at t = None))"

lemma only_revokes_simps [simp]:
  "only_revokes (\<lambda>t. t\<lparr>rt_revoked_at := Some now\<rparr>)"
  "only_revokes (\<lambda>t. t\<lparr>rt_replaced_by_id := x\<rparr>)"
  "only_revokes (\<lambda>t. t\<lparr>rt_revoked_at := (case rt_revoked_at t of None \<Rightarrow> Some now | Some y \<Rightarrow> Some y),
      rt_reuse_detected_at := z\<rparr>)"
  unfolding only_revokes_def by (simp_all split: option.splits)

lemma only_revokesD:
  assumes "only_revokes f"
  shows "rt_id (f t) = rt_id t" "rt_family_id (f t) = rt_family_id t" "rt_user_id (f t) = rt_user_id t"
    "live_in fam (f t) \<Longrightarrow> live_in fam t"
  using assms[unfolded only_revokes_def, THEN spec, of t] by (simp_all add: live_in_def)

lemma live_count_update_le:
  assumes f: "only_revokes f"
  shows "live_count fam (update_where p f ts) \<le> live_count fam ts"
proof (induction ts)
  case Nil
  then show ?case by simp
next
  case (Cons t ts)
  then show ?case using only_revokesD(4)[OF f, of fam t] by auto
qed

lemma live_count_update_zero:
  "only_revokes f \<Longrightarrow> live_count fam ts = 0 \<Longrightarrow> live_count fam (update_where p f ts) = 0"
  using live_count_update_le[of f fam p ts] by simp

lemma family_user_update:
  assumes fu: "family_user ts" and f: "only_revokes f"
  shows "family_user (update_where p f ts)"
  unfolding family_user_def
proof (intro ballI impI)
  fix s t
  assume s: "s \<in> set (update_where p f ts)" and t: "t \<in> set (update_where p f ts)"
    and eq: "rt_family_id s = rt_family_id t"
  have pre: "\<exists>x0 \<in> set ts. rt_family_id x = rt_family_id x0 \<and> rt_user_id x = rt_user_id x0"
    if "x \<in> set (update_where p f ts)" for x
    using that by (rule in_update_whereE) (use only_revokesD[OF f] in auto)
  show "rt_user_id s = rt_user_id t"
    using pre[OF s] pre[OF t] eq fu unfolding family_user_def by metis
qed

lemma auth_inv_update:
  assumes inv: "auth_inv db" and f: "only_revokes f"
    and ts: "a_tokens db' = update_where p f (a_tokens db)" and us: "keyed u_id (db_users (a_rbac db'))"
  shows "auth_inv db'"
proof (rule auth_invI)
  show "keyed rt_id (a_tokens db')"
    unfolding ts using auth_invD(1)[OF inv] only_revokesD(1)[OF f] by (subst keyed_update_where)
  show "live_count fam (a_tokens db') \<le> 1" for fam
    unfolding ts using live_count_update_le[OF f] auth_invD(3)[OF inv] by (rule order_trans)
  show "family_user (a_tokens db')"
    unfolding ts using auth_invD(4)[OF inv] f by (rule family_user_update)
qed (rule us)

lemma family_user_snoc:
  assumes fu: "family_user ts"
    and t: "\<forall>s \<in> set ts. rt_family_id s = rt_family_id t \<longrightarrow> rt_user_id s = rt_user_id t"
  shows "family_user (ts @ [t])"
  unfolding family_user_def
proof (intro ballI impI)
  fix a b
  assume ab: "a \<in> set (ts @ [t])" "b \<in> set (ts @ [t])" and eq: "rt_family_id a = rt_family_id b"
  consider "a \<in> set ts" "b \<in> set ts" | "a \<in> set ts" "b = t" | "a = t" "b \<in> set ts" | "a = t" "b = t"
    using ab by auto
  then show "rt_user_id a = rt_user_id b"
  proof cases
    case 1
    with fu eq show ?thesis unfolding family_user_def by metis
  next
    case 2
    with t eq show ?thesis by metis
  next
    case 3
    with t eq show ?thesis by metis
  qed metis
qed

lemma auth_inv_insert:
  assumes inv: "auth_inv db" and ts: "a_tokens db' = a_tokens db @ [t]"
    and new: "rt_id t \<notin> rt_id ` set (a_tokens db)" and us: "keyed u_id (db_users (a_rbac db'))"
    and none: "live_count (rt_family_id t) (a_tokens db) = 0"
    and fam: "\<forall>s \<in> set (a_tokens db). rt_family_id s = rt_family_id t \<longrightarrow> rt_user_id s = rt_user_id t"
  shows "auth_inv db'"
proof (rule auth_invI)
  show "keyed rt_id (a_tokens db')" using auth_invD(1)[OF inv] new by (simp add: ts keyed_append)
  show "live_count f (a_tokens db') \<le> 1" for f
    using auth_invD(3)[OF inv, of f] none by (auto simp: ts live_in_def)
  show "family_user (a_tokens db')"
    unfolding ts using auth_invD(4)[OF inv] fam by (rule family_user_snoc)
qed (rule us)

section \<open>Each route preserves the invariant\<close>

lemma detect_reuse_tokens:
  "a_tokens (detect_reuse co now rq user rec db) = update_where (in_family rec (u_id user))
     (\<lambda>t. t\<lparr>rt_revoked_at := (case rt_revoked_at t of None \<Rightarrow> Some now | Some x \<Rightarrow> Some x),
             rt_reuse_detected_at := Some now\<rparr>) (a_tokens db)"
  by (simp add: detect_reuse_def Let_def)

lemma detect_reuse_users:
  "db_users (a_rbac (detect_reuse co now rq user rec db)) =
   update_where (\<lambda>u. u_id u = u_id user) (\<lambda>u. u\<lparr>u_token_version := u_token_version u + 1\<rparr>) (db_users (a_rbac db))"
  by (simp add: detect_reuse_def Let_def)

lemma detect_reuse_inv: "auth_inv db \<Longrightarrow> auth_inv (detect_reuse co now rq user rec db)"
  by (rule auth_inv_update[OF _ _ detect_reuse_tokens])
    (simp_all add: detect_reuse_users keyed_update_where auth_invD(2))

lemma live_count_revoked:
  assumes "auth_inv db" "rec \<in> set (a_tokens db)" "rt_revoked_at rec = None"
  shows "live_count (rt_family_id rec)
     (update_where (\<lambda>t. rt_id t = rt_id rec) (\<lambda>t. t\<lparr>rt_revoked_at := Some now\<rparr>) (a_tokens db)) = 0"
proof -
  let ?u = "update_where (\<lambda>t. rt_id t = rt_id rec) (\<lambda>t. t\<lparr>rt_revoked_at := Some now\<rparr>)"
  have "live_count (rt_family_id rec) (?u ts) + 1 \<le> live_count (rt_family_id rec) ts"
    if "rec \<in> set ts" for ts
    using that
  proof (induction ts)
    case Nil
    then show ?case by simp
  next
    case (Cons t ts)
    have le: "live_count (rt_family_id rec) (?u ts) \<le> live_count (rt_family_id rec) ts"
      by (rule live_count_update_le) simp
    show ?case
    proof (cases "t = rec")
      case True
      with le assms(3) show ?thesis by (simp add: live_in_def)
    next
      case False
      with Cons show ?thesis by (auto simp: live_in_def)
    qed
  qed
  from this[OF assms(2)] auth_invD(3)[OF assms(1), of "rt_family_id rec"] show ?thesis by linarith
qed

lemma rotateD:
  assumes "rotate co st now fr rq user rec db = Inr (pair, db')"
  obtains repl where
    "a_tokens db' = update_where (\<lambda>t. rt_id t = rt_id rec) (\<lambda>t. t\<lparr>rt_replaced_by_id := Some (rt_id repl)\<rparr>)
       (update_where (\<lambda>t. rt_id t = rt_id rec) (\<lambda>t. t\<lparr>rt_revoked_at := Some now\<rparr>) (a_tokens db) @ [repl])"
    "a_rbac db' = a_rbac db" "rt_family_id repl = rt_family_id rec" "rt_user_id repl = u_id user"
    "rt_revoked_at repl = None" "rt_id repl \<notin> rt_id ` set (a_tokens db)"
    "rt_token_hash repl = co_sha256 co (tp_refresh_token pair)" "rt_parent_id repl = Some (rt_id rec)"
    "rt_reuse_detected_at repl = None"
proof -
  let ?db1 = "db\<lparr>a_tokens := update_where (\<lambda>t. rt_id t = rt_id rec)
      (\<lambda>t. t\<lparr>rt_revoked_at := Some now\<rparr>) (a_tokens db)\<rparr>"
  obtain repl db2 where m: "mint_pair co st now user fr (Some (rt_family_id rec)) (Some (rt_id rec)) = Inr (pair, repl)"
    and i: "insert_token repl ?db1 = Inr db2"
    and d: "a_tokens db' = update_where (\<lambda>t. rt_id t = rt_id rec)
        (\<lambda>t. t\<lparr>rt_replaced_by_id := Some (rt_id repl)\<rparr>) (a_tokens db2)" "a_rbac db' = a_rbac db2"
    using assms by (auto simp: rotate_def Let_def result_simps)
  note mf = mint_pair_record[OF m] and inf = insert_tokenD[OF i]
  have ids: "rt_id ` set (a_tokens ?db1) = rt_id ` set (a_tokens db)"
    by (simp add: key_image_update_where)
  show thesis
    using mf inf d ids by (intro that[of repl]) simp_all
qed

lemma rotate_inv:
  assumes inv: "auth_inv db" and rec: "rec \<in> set (a_tokens db)" "rt_revoked_at rec = None"
    "rt_user_id rec = u_id user"
    and ok: "rotate co st now fr rq user rec db = Inr (pair, db')"
  shows "auth_inv db'"
proof -
  obtain repl where t: "a_tokens db' = update_where (\<lambda>t. rt_id t = rt_id rec)
       (\<lambda>t. t\<lparr>rt_replaced_by_id := Some (rt_id repl)\<rparr>)
       (update_where (\<lambda>t. rt_id t = rt_id rec) (\<lambda>t. t\<lparr>rt_revoked_at := Some now\<rparr>) (a_tokens db) @ [repl])"
    and r: "a_rbac db' = a_rbac db" "rt_family_id repl = rt_family_id rec" "rt_user_id repl = u_id user"
      "rt_id repl \<notin> rt_id ` set (a_tokens db)"
    using rotateD[OF ok] by metis
  let ?ts = "update_where (\<lambda>t. rt_id t = rt_id rec) (\<lambda>t. t\<lparr>rt_revoked_at := Some now\<rparr>) (a_tokens db)"
  let ?db1 = "db\<lparr>a_tokens := ?ts\<rparr>" and ?db2 = "db\<lparr>a_tokens := ?ts @ [repl]\<rparr>"
  note us = auth_invD(2)[OF inv]
  have i1: "auth_inv ?db1"
    by (rule auth_inv_update[OF inv only_revokes_simps(1)]) (simp_all add: us)
  have "\<forall>s \<in> set (a_tokens db). rt_family_id s = rt_family_id repl \<longrightarrow> rt_user_id s = rt_user_id repl"
    using auth_invD(4)[OF inv] rec r(2,3) unfolding family_user_def by metis
  then have fam: "\<forall>s \<in> set ?ts. rt_family_id s = rt_family_id repl \<longrightarrow> rt_user_id s = rt_user_id repl"
    by (auto simp: set_update_where)
  have i2: "auth_inv ?db2"
    by (rule auth_inv_insert[OF i1, of _ repl])
      (use fam r us live_count_revoked[OF inv rec(1,2)] in \<open>simp_all add: key_image_update_where\<close>)
  show ?thesis
    by (rule auth_inv_update[OF i2 only_revokes_simps(2)]) (use t r us in simp_all)
qed

lemma find_tokenD:
  "find_token db tid uid = Some rec \<Longrightarrow> rec \<in> set (a_tokens db) \<and> rt_id rec = tid \<and> rt_user_id rec = uid"
  by (auto simp: find_token_def dest: find_Some_in_set)

text \<open>The three outcomes of a refresh: refused without a write, reuse detected, rotated.\<close>

lemma refresh_outcomes:
  assumes "refresh_tokens co ops st now fr rq token db r = (res, db', r')"
  obtains (refused) e where "res = Inl e" "db' = db"
  | (reuse) claims user rec where "res = Inl (ApiError 401 ''refresh_token_reuse_detected'')"
      "decode_token co now token ''refresh'' = Some claims" "find_user db (tc_user_id claims) = Some user"
      "find_token db (tc_token_id claims) (u_id user) = Some rec" "rt_reuse_detected_at rec = None"
      "rt_revoked_at rec \<noteq> None \<or> rt_token_hash rec \<noteq> co_sha256 co token"
      "db' = detect_reuse co now rq user rec db"
  | (rotated) claims user rec pair where "res = Inr pair"
      "decode_token co now token ''refresh'' = Some claims" "find_user db (tc_user_id claims) = Some user"
      "find_token db (tc_token_id claims) (u_id user) = Some rec" "rt_revoked_at rec = None"
      "rt_token_hash rec = co_sha256 co token" "now < rt_expires_at rec" "active_user user"
      "u_token_version user = tc_token_version claims"
      "rotate co st now fr rq user rec db = Inr (pair, db')"
proof (cases "rate_gate ops (''auth:refresh:ip:'' @ rq_client_ip rq) (st_refresh_attempts_per_minute st) r")
  case gate: (Pair g r1)
  show thesis
  proof (cases "\<exists>d claims user rec. g = Inr d \<and> decode_token co now token ''refresh'' = Some claims \<and>
      find_user db (tc_user_id claims) = Some user \<and>
      find_token db (tc_token_id claims) (u_id user) = Some rec")
    case False
    then have "\<exists>e. res = Inl e \<and> db' = db"
      using assms gate unfolding refresh_tokens_def
      by (auto split: sum.split_asm option.split_asm)
    then show thesis using refused by blast
  next
    case True
    then obtain d claims user rec where g: "g = Inr d"
      and c: "decode_token co now token ''refresh'' = Some claims"
      and u: "find_user db (tc_user_id claims) = Some user"
      and t: "find_token db (tc_token_id claims) (u_id user) = Some rec" by blast
    show thesis
    proof (cases "rt_revoked_at rec \<noteq> None \<or> rt_token_hash rec \<noteq> co_sha256 co token")
      case True
      then have r: "res = Inl (ApiError 401 ''refresh_token_reuse_detected'')"
        "db' = (if rt_reuse_detected_at rec = None then detect_reuse co now rq user rec db else db)"
        using assms gate g c u t unfolding refresh_tokens_def by auto
      show thesis
      proof (cases "rt_reuse_detected_at rec = None")
        case True
        with r \<open>rt_revoked_at rec \<noteq> None \<or> rt_token_hash rec \<noteq> co_sha256 co token\<close> c u t
        show thesis using reuse by simp
      next
        case False
        with r show thesis using refused by simp
      qed
    next
      case False
      then show thesis
        using assms gate g c u t refused rotated unfolding refresh_tokens_def
        by (auto split: if_split_asm sum.split_asm)
    qed
  qed
qed

lemma refresh_inv:
  assumes "auth_inv db" "refresh_tokens co ops st now fr rq token db r = (res, db', r')"
  shows "auth_inv db'"
  using assms(2)
proof (cases rule: refresh_outcomes)
  case (refused e)
  with assms(1) show ?thesis by simp
next
  case (reuse claims user rec)
  with assms(1) show ?thesis by (simp add: detect_reuse_inv)
next
  case (rotated claims user rec pair)
  then show ?thesis
    using find_tokenD[OF rotated(4)] by (intro rotate_inv[OF assms(1) _ rotated(5) _ rotated(10)]) auto
qed

lemma logout_tokens:
  "\<exists>p. a_tokens (logout co now rq token db) = update_where p (\<lambda>t. t\<lparr>rt_revoked_at := Some now\<rparr>) (a_tokens db)"
  "a_rbac (logout co now rq token db) = a_rbac db"
proof -
  have same: "\<exists>p. ts = update_where p (\<lambda>t. t\<lparr>rt_revoked_at := Some now\<rparr>) ts" for ts
    by (rule exI[of _ "\<lambda>_. False"]) (simp add: update_where_none)
  show "\<exists>p. a_tokens (logout co now rq token db) = update_where p (\<lambda>t. t\<lparr>rt_revoked_at := Some now\<rparr>) (a_tokens db)"
    using same by (auto simp: logout_def Let_def split: option.split)
  show "a_rbac (logout co now rq token db) = a_rbac db"
    by (auto simp: logout_def Let_def split: option.split)
qed

lemma logout_inv:
  assumes "auth_inv db"
  shows "auth_inv (logout co now rq token db)"
proof -
  obtain p where "a_tokens (logout co now rq token db) =
      update_where p (\<lambda>t. t\<lparr>rt_revoked_at := Some now\<rparr>) (a_tokens db)"
    using logout_tokens(1) by blast
  then show ?thesis
    by (rule auth_inv_update[OF assms only_revokes_simps(1)])
      (simp add: logout_tokens(2) auth_invD(2)[OF assms])
qed

lemma login_outcomes:
  assumes "login co ops st now fr rq name pw db r = (res, db', r')"
  obtains (denied) e where "res = Inl e" "a_tokens db' = a_tokens db" "a_rbac db' = a_rbac db"
  | (accepted) user pair rec db1 where "res = Inr pair" "user \<in> set (db_users (a_rbac db))"
      "u_email user = py_lower (py_strip name)" "active_user user" "co_verify co pw (u_password_hash user)"
      "mint_pair co st now user fr None None = Inr (pair, rec)"
      "insert_token rec (write_user (u_id user) (\<lambda>u. u\<lparr>u_last_login_at := Some now\<rparr>) db) = Inr db1"
      "a_tokens db' = a_tokens db1" "a_rbac db' = a_rbac db1"
proof (cases res)
  case (Inl e)
  have "a_tokens db' = a_tokens db \<and> a_rbac db' = a_rbac db"
    using assms Inl unfolding login_def Let_def
    by (auto simp: result_simps split: prod.split_asm sum.split_asm option.split_asm if_split_asm)
  with Inl denied show thesis by blast
next
  case (Inr pair)
  then show thesis
    using assms accepted unfolding login_def Let_def
    by (auto simp: result_simps split: prod.split_asm sum.split_asm option.split_asm if_split_asm
        dest!: find_Some_in_set)
qed

lemma login_inv:
  assumes inv: "auth_inv db" and fresh: "fr_family fr \<notin> rt_family_id ` set (a_tokens db)"
    and ok: "login co ops st now fr rq name pw db r = (res, db', r')"
  shows "auth_inv db'"
  using ok
proof (cases rule: login_outcomes)
  case (denied e)
  then show ?thesis using auth_invD[OF inv] by (intro auth_invI) simp_all
next
  case (accepted user pair rec db1)
  note m = mint_pair_record[OF accepted(6)] and i = insert_tokenD[OF accepted(7)]
  have none: "live_count (rt_family_id rec) (a_tokens db) = 0"
    using fresh m(1) by (auto simp: live_count_def live_in_def filter_empty_conv image_iff)
  have fam: "\<forall>s \<in> set (a_tokens db). rt_family_id s = rt_family_id rec \<longrightarrow> rt_user_id s = rt_user_id rec"
    using fresh m(1) by (auto simp: image_iff)
  show ?thesis
    by (rule auth_inv_insert[OF inv _ _ _ none fam])
      (use accepted(8,9) i auth_invD(2)[OF inv] in \<open>simp_all add: keyed_update_where\<close>)
qed

section \<open>Reachable states\<close>

text \<open>
  Any interleaving of login, refresh and logout transactions, with arbitrary inputs,
  from a database without sessions. A login draws a family identifier that is not in use,
  as \<open>uuid4\<close> does.
\<close>

inductive auth_step :: "'r redis_ops \<Rightarrow> auth_db \<Rightarrow> auth_db \<Rightarrow> bool"
  for ops :: "'r redis_ops" where
  login: "login co ops st now fr rq name pw db r = (res, db', r') \<Longrightarrow>
     fr_family fr \<notin> rt_family_id ` set (a_tokens db) \<Longrightarrow> auth_step ops db db'"
| refresh: "refresh_tokens co ops st now fr rq token db r = (res, db', r') \<Longrightarrow> auth_step ops db db'"
| logout: "auth_step ops db (logout co now rq token db)"

inductive auth_reachable :: "'r redis_ops \<Rightarrow> auth_db \<Rightarrow> bool"
  for ops :: "'r redis_ops" where
  start: "a_tokens db = [] \<Longrightarrow> keyed u_id (db_users (a_rbac db)) \<Longrightarrow> auth_reachable ops db"
| step: "auth_reachable ops db \<Longrightarrow> auth_step ops db db' \<Longrightarrow> auth_reachable ops db'"

inductive_cases auth_stepE: "auth_step ops db db'"

lemma auth_step_inv:
  assumes "auth_step ops db db'" "auth_inv db"
  shows "auth_inv db'"
  using assms(1)
proof cases
  case (login co st now fr rq name pw r res r')
  then show ?thesis by (intro login_inv[OF assms(2)])
next
  case (refresh co st now fr rq token r res r')
  then show ?thesis by (intro refresh_inv[OF assms(2)])
next
  case (logout co now rq token)
  then show ?thesis using logout_inv[OF assms(2)] by simp
qed

lemma auth_reachable_inv: "auth_reachable ops db \<Longrightarrow> auth_inv db"
proof (induction rule: auth_reachable.induct)
  case (start db)
  then show ?case by (intro auth_invI) (simp_all add: family_user_def)
next
  case (step db db')
  then show ?case by (blast intro: auth_step_inv)
qed

section \<open>Families that saw a reuse are dead, and revocation is for ever\<close>

definition reuse_closed :: "refresh_token list \<Rightarrow> bool" where
  "reuse_closed ts \<longleftrightarrow> (\<forall>t \<in> set ts. rt_reuse_detected_at t \<noteq> None \<longrightarrow> live_count (rt_family_id t) ts = 0)"

lemma reuse_closed_update:
  assumes rc: "reuse_closed ts" and f: "only_revokes f"
    and keep: "\<And>t. rt_reuse_detected_at (f t) = rt_reuse_detected_at t"
  shows "reuse_closed (update_where p f ts)"
  unfolding reuse_closed_def
proof (intro ballI impI)
  fix t assume t: "t \<in> set (update_where p f ts)" and d: "rt_reuse_detected_at t \<noteq> None"
  from t obtain t0 where t0: "t0 \<in> set ts" "rt_family_id t = rt_family_id t0"
    "rt_reuse_detected_at t = rt_reuse_detected_at t0"
    by (rule in_update_whereE) (use only_revokesD[OF f] keep in auto)
  have "live_count (rt_family_id t0) ts = 0" using rc t0(1,3) d unfolding reuse_closed_def by simp
  then show "live_count (rt_family_id t) (update_where p f ts) = 0"
    using live_count_update_le[OF f, of "rt_family_id t" p ts] t0(2) by simp
qed

lemma reuse_closed_snoc:
  assumes "reuse_closed ts" "rt_reuse_detected_at t = None"
    and "\<And>s. s \<in> set ts \<Longrightarrow> rt_family_id s = rt_family_id t \<Longrightarrow> rt_reuse_detected_at s = None"
  shows "reuse_closed (ts @ [t])"
  using assms unfolding reuse_closed_def by (auto simp: live_in_def)

lemma family_revoked:
  assumes fu: "family_user ts" and rec: "rec \<in> set ts" "rt_user_id rec = uid"
    and f: "only_revokes f" "\<And>t. rt_revoked_at (f t) \<noteq> None"
  shows "live_count (rt_family_id rec) (update_where (in_family rec uid) f ts) = 0"
proof -
  have "\<not> live_in (rt_family_id rec) t" if "t \<in> set (update_where (in_family rec uid) f ts)" for t
    using that
  proof (rule in_update_whereE)
    assume "t \<in> set ts" "\<not> in_family rec uid t"
    then show ?thesis using fu rec unfolding family_user_def in_family_def live_in_def by metis
  qed (use f(2) in \<open>simp add: live_in_def\<close>)
  then show ?thesis by (auto simp: live_count_def filter_empty_conv)
qed

lemma detect_reuse_kills_family:
  assumes "auth_inv db" "rec \<in> set (a_tokens db)" "rt_user_id rec = u_id user"
  shows "live_count (rt_family_id rec) (a_tokens (detect_reuse co now rq user rec db)) = 0"
  unfolding detect_reuse_tokens
  by (rule family_revoked[OF auth_invD(4)[OF assms(1)] assms(2,3)]) (simp_all split: option.split)

lemma detect_reuse_closed:
  assumes inv: "auth_inv db" and rec: "rec \<in> set (a_tokens db)" "rt_user_id rec = u_id user"
    and rc: "reuse_closed (a_tokens db)"
  shows "reuse_closed (a_tokens (detect_reuse co now rq user rec db))"
  unfolding reuse_closed_def
proof (intro ballI impI)
  let ?ts = "a_tokens (detect_reuse co now rq user rec db)"
  fix t assume t: "t \<in> set ?ts" and d: "rt_reuse_detected_at t \<noteq> None"
  show "live_count (rt_family_id t) ?ts = 0"
  proof (cases "rt_family_id t = rt_family_id rec")
    case True
    then show ?thesis using detect_reuse_kills_family[OF inv rec] by simp
  next
    case False
    from t[unfolded detect_reuse_tokens] have "t \<in> set (a_tokens db)"
      by (rule in_update_whereE) (use False in \<open>auto simp: in_family_def\<close>)
    with rc d have "live_count (rt_family_id t) (a_tokens db) = 0" unfolding reuse_closed_def by simp
    then show ?thesis
      unfolding detect_reuse_tokens by (rule live_count_update_zero[OF only_revokes_simps(3)])
  qed
qed

lemma live_count_pos: "t \<in> set ts \<Longrightarrow> rt_revoked_at t = None \<Longrightarrow> live_count (rt_family_id t) ts \<noteq> 0"
  by (auto simp: live_count_def filter_empty_conv live_in_def)

lemma rotate_reuse_closed:
  assumes rc: "reuse_closed (a_tokens db)" and rec: "rec \<in> set (a_tokens db)" "rt_revoked_at rec = None"
    and ok: "rotate co st now fr rq user rec db = Inr (pair, db')"
  shows "reuse_closed (a_tokens db')"
proof -
  obtain repl where t: "a_tokens db' = update_where (\<lambda>t. rt_id t = rt_id rec)
       (\<lambda>t. t\<lparr>rt_replaced_by_id := Some (rt_id repl)\<rparr>)
       (update_where (\<lambda>t. rt_id t = rt_id rec) (\<lambda>t. t\<lparr>rt_revoked_at := Some now\<rparr>) (a_tokens db) @ [repl])"
    and r: "rt_family_id repl = rt_family_id rec" "rt_reuse_detected_at repl = None"
    using rotateD[OF ok] by metis
  have none: "rt_reuse_detected_at s = None" if "s \<in> set (a_tokens db)" "rt_family_id s = rt_family_id rec" for s
    using rc live_count_pos[OF rec] that unfolding reuse_closed_def by metis
  show ?thesis unfolding t
  proof (rule reuse_closed_update[OF reuse_closed_snoc only_revokes_simps(2)])
    show "reuse_closed (update_where (\<lambda>t. rt_id t = rt_id rec) (\<lambda>t. t\<lparr>rt_revoked_at := Some now\<rparr>) (a_tokens db))"
      by (rule reuse_closed_update[OF rc only_revokes_simps(1)]) simp
  qed (use none r in \<open>auto simp: set_update_where split: if_splits\<close>)
qed

text \<open>Row \<open>t'\<close> is a later version of row \<open>t\<close>.\<close>

definition later_row :: "refresh_token \<Rightarrow> refresh_token \<Rightarrow> bool" where
  "later_row t t' \<longleftrightarrow> rt_id t' = rt_id t \<and> rt_family_id t' = rt_family_id t \<and> rt_user_id t' = rt_user_id t \<and>
     (rt_revoked_at t \<noteq> None \<longrightarrow> rt_revoked_at t' \<noteq> None)"

definition evolves :: "auth_db \<Rightarrow> auth_db \<Rightarrow> bool" where
  "evolves db db' \<longleftrightarrow> (\<forall>t \<in> set (a_tokens db). \<exists>t' \<in> set (a_tokens db'). later_row t t') \<and>
     u_id ` set (db_users (a_rbac db')) = u_id ` set (db_users (a_rbac db))"

lemma later_row_refl [simp]: "later_row t t"
  by (simp add: later_row_def)

lemma later_row_trans: "later_row a b \<Longrightarrow> later_row b c \<Longrightarrow> later_row a c"
  by (simp add: later_row_def)

lemma evolves_refl: "a_tokens db' = a_tokens db \<Longrightarrow> a_rbac db' = a_rbac db \<Longrightarrow> evolves db db'"
  unfolding evolves_def using later_row_refl by metis

lemma evolves_trans: "evolves a b \<Longrightarrow> evolves b c \<Longrightarrow> evolves a c"
  unfolding evolves_def using later_row_trans by metis

lemma later_row_update:
  assumes "only_revokes f"
  shows "later_row t (if p t then f t else t)"
  using assms[unfolded only_revokes_def, THEN spec, of t] by (auto simp: later_row_def)

lemma evolves_update:
  assumes "a_tokens db' = update_where p f (a_tokens db) @ new" "only_revokes f"
    "u_id ` set (db_users (a_rbac db')) = u_id ` set (db_users (a_rbac db))"
  shows "evolves db db'"
  unfolding evolves_def assms(1)
proof (intro conjI ballI)
  fix t assume "t \<in> set (a_tokens db)"
  then have "(if p t then f t else t) \<in> set (update_where p f (a_tokens db) @ new)"
    unfolding set_append set_update_where by blast
  then show "\<exists>t' \<in> set (update_where p f (a_tokens db) @ new). later_row t t'"
    using later_row_update[OF assms(2), of t p] by blast
qed (rule assms(3))

lemma login_evolves:
  assumes "login co ops st now fr rq name pw db r = (res, db', r')"
  shows "evolves db db'"
  using assms
proof (cases rule: login_outcomes)
  case (denied e)
  then show ?thesis by (intro evolves_refl)
next
  case (accepted user pair rec db1)
  show ?thesis
    by (rule evolves_update[where p = "\<lambda>_. False" and f = "\<lambda>t. t\<lparr>rt_revoked_at := Some now\<rparr>"])
      (use accepted(8,9) insert_tokenD[OF accepted(7)] in
        \<open>simp_all add: update_where_none key_image_update_where\<close>)
qed

lemma rotate_evolves:
  assumes "rotate co st now fr rq user rec db = Inr (pair, db')"
  shows "evolves db db'"
proof -
  obtain repl where t: "a_tokens db' = update_where (\<lambda>t. rt_id t = rt_id rec)
       (\<lambda>t. t\<lparr>rt_replaced_by_id := Some (rt_id repl)\<rparr>)
       (update_where (\<lambda>t. rt_id t = rt_id rec) (\<lambda>t. t\<lparr>rt_revoked_at := Some now\<rparr>) (a_tokens db) @ [repl])"
    and r: "a_rbac db' = a_rbac db"
    using rotateD[OF assms] by metis
  let ?db = "db\<lparr>a_tokens := update_where (\<lambda>t. rt_id t = rt_id rec) (\<lambda>t. t\<lparr>rt_revoked_at := Some now\<rparr>)
      (a_tokens db) @ [repl]\<rparr>"
  have "evolves db ?db" by (rule evolves_update[OF _ only_revokes_simps(1)]) simp_all
  moreover have "evolves ?db db'"
    by (rule evolves_update[where new = "[]", OF _ only_revokes_simps(2)]) (use t r in simp_all)
  ultimately show ?thesis by (rule evolves_trans)
qed

lemma rotated_row_revoked:
  assumes rot: "rotate co st now fr rq user rec db = Inr (pair, db1)" and rin: "rec \<in> set (a_tokens db)"
  shows "\<exists>t1 \<in> set (a_tokens db1). later_row rec t1 \<and> rt_revoked_at t1 \<noteq> None"
proof -
  obtain repl where t: "a_tokens db1 = update_where (\<lambda>t. rt_id t = rt_id rec)
       (\<lambda>t. t\<lparr>rt_replaced_by_id := Some (rt_id repl)\<rparr>)
       (update_where (\<lambda>t. rt_id t = rt_id rec) (\<lambda>t. t\<lparr>rt_revoked_at := Some now\<rparr>) (a_tokens db) @ [repl])"
    using rotateD[OF rot] by metis
  have "rec\<lparr>rt_revoked_at := Some now, rt_replaced_by_id := Some (rt_id repl)\<rparr> \<in> set (a_tokens db1)"
    unfolding t using rin by (force simp: set_update_where)
  then show ?thesis by (rule rev_bexI) (simp add: later_row_def)
qed

lemma detect_reuse_evolves: "evolves db (detect_reuse co now rq user rec db)"
  by (rule evolves_update[where new = "[]", OF _ only_revokes_simps(3)])
    (simp_all add: detect_reuse_tokens detect_reuse_users key_image_update_where)

lemma logout_evolves: "evolves db (logout co now rq token db)"
proof -
  obtain p where "a_tokens (logout co now rq token db) =
      update_where p (\<lambda>t. t\<lparr>rt_revoked_at := Some now\<rparr>) (a_tokens db) @ []"
    using logout_tokens(1) by (metis append_Nil2)
  then show ?thesis
    by (rule evolves_update[OF _ only_revokes_simps(1)]) (simp add: logout_tokens(2))
qed

lemma refresh_evolves:
  assumes "refresh_tokens co ops st now fr rq token db r = (res, db', r')"
  shows "evolves db db'"
  using assms
proof (cases rule: refresh_outcomes)
  case (refused e)
  then show ?thesis by (simp add: evolves_refl)
next
  case (reuse claims user rec)
  then show ?thesis by (simp add: detect_reuse_evolves)
next
  case (rotated claims user rec pair)
  then show ?thesis by (intro rotate_evolves)
qed

lemma auth_step_evolves: "auth_step ops db db' \<Longrightarrow> evolves db db'"
  by (erule auth_step.cases) (simp_all add: login_evolves refresh_evolves logout_evolves)

interpretation auth_run: evolution "auth_step ops" auth_inv evolves for ops
  by unfold_locales (simp_all add: auth_step_inv auth_step_evolves evolves_refl evolves_trans)

lemma auth_steps_reachable: "(auth_step ops)\<^sup>*\<^sup>* db db' \<Longrightarrow> auth_reachable ops db \<Longrightarrow> auth_reachable ops db'"
  by (induction rule: rtranclp_induct) (simp_all add: auth_reachable.step)

lemma auth_step_reuse_closed:
  assumes "auth_step ops db db'" and inv: "auth_inv db" and rc: "reuse_closed (a_tokens db)"
  shows "reuse_closed (a_tokens db')"
  using assms(1)
proof cases
  case (login co st now fr rq name pw r res r')
  from login(1) show ?thesis
  proof (cases rule: login_outcomes)
    case (denied e)
    with rc show ?thesis by simp
  next
    case (accepted user pair rec db1)
    note m = mint_pair_record[OF accepted(6)] and i = insert_tokenD[OF accepted(7)]
    have "reuse_closed (a_tokens db @ [rec])"
      by (rule reuse_closed_snoc[OF rc]) (use m login(2) in \<open>auto simp: image_iff\<close>)
    then show ?thesis using accepted(8) i by simp
  qed
next
  case (refresh co st now fr rq token r res r')
  from refresh(1) show ?thesis
  proof (cases rule: refresh_outcomes)
    case (refused e)
    with rc show ?thesis by simp
  next
    case (reuse claims user rec)
    then show ?thesis using find_tokenD[OF reuse(4)] detect_reuse_closed[OF inv _ _ rc] by simp
  next
    case (rotated claims user rec pair)
    then show ?thesis
      using find_tokenD[OF rotated(4)] by (intro rotate_reuse_closed[OF rc _ rotated(5,10)]) simp
  qed
next
  case (logout co now rq token)
  obtain p where "a_tokens (logout co now rq token db) =
      update_where p (\<lambda>t. t\<lparr>rt_revoked_at := Some now\<rparr>) (a_tokens db)"
    using logout_tokens(1) by blast
  then show ?thesis using logout reuse_closed_update[OF rc only_revokes_simps(1)] by simp
qed

lemma auth_reachable_reuse_closed: "auth_reachable ops db \<Longrightarrow> reuse_closed (a_tokens db)"
proof (induction rule: auth_reachable.induct)
  case (start db)
  then show ?case by (simp add: reuse_closed_def)
next
  case (step db db')
  then show ?case using auth_step_reuse_closed auth_reachable_inv by metis
qed

section \<open>What a login issues\<close>

text \<open>
  The documented behaviour of the JWT library on the tokens of this service: a signed payload
  decodes to itself between its \<open>nbf\<close> and \<open>exp\<close>; and \<open>UUID(str(u))\<close> is \<open>u\<close>.
\<close>

definition codec_ok :: "crypto_ops \<Rightarrow> bool" where
  "codec_ok co \<longleftrightarrow> (\<forall>u. co_parse_uuid co (co_str_uuid co u) = Some u) \<and>
     (\<forall>u v typ j nbf ex now. typ \<in> {''access'', ''refresh''} \<longrightarrow> seconds nbf \<le> now \<longrightarrow> now < seconds ex \<longrightarrow>
        (let p = \<lparr>jp_sub = co_str_uuid co u, jp_ver = v, jp_typ = typ, jp_jti = co_str_uuid co j,
                  jp_nbf = nbf, jp_exp = ex\<rparr>
         in co_jwt_decode co (co_jwt_encode co p) now = Some p))"

lemma decode_create:
  assumes "codec_ok co" "typ \<in> {''access'', ''refresh''}" "seconds 1 \<le> life"
  shows "decode_token co now (create_token co u v typ j life now) typ =
    Some \<lparr>tc_user_id = u, tc_token_version = v, tc_token_type = typ, tc_token_id = j,
          tc_expires_at = seconds ((now + life) div 1000000)\<rparr>"
proof -
  have t: "seconds (now div 1000000) \<le> now" "now < seconds ((now + life) div 1000000)"
    using assms(3) by (simp_all add: seconds_def)
  from assms(1) have u: "co_parse_uuid co (co_str_uuid co x) = Some x" for x
    by (simp add: codec_ok_def)
  from assms(1)[unfolded codec_ok_def] t assms(2)
  have "co_jwt_decode co (create_token co u v typ j life now) now =
    Some \<lparr>jp_sub = co_str_uuid co u, jp_ver = v, jp_typ = typ, jp_jti = co_str_uuid co j,
          jp_nbf = now div 1000000, jp_exp = (now + life) div 1000000\<rparr>"
    unfolding create_token_def Let_def by blast
  then show ?thesis by (simp add: decode_token_def u)
qed

lemma find_user_keyed:
  "keyed u_id (db_users (a_rbac db)) \<Longrightarrow> u \<in> set (db_users (a_rbac db)) \<Longrightarrow> find_user db (u_id u) = Some u"
  unfolding find_user_def by (rule keyed_find)

lemma insert_token_fresh:
  "(\<And>x. x \<in> set (a_tokens db) \<Longrightarrow> rt_id x \<noteq> rt_id t \<and> rt_token_hash x \<noteq> rt_token_hash t) \<Longrightarrow>
   insert_token t db = Inr (db\<lparr>a_tokens := a_tokens db @ [t]\<rparr>)"
  by (auto simp: insert_token_def)

lemma find_token_keyed:
  assumes "keyed rt_id (a_tokens db)" "t \<in> set (a_tokens db)" "rt_id t = tid" "rt_user_id t = uid"
  shows "find_token db tid uid = Some t"
proof -
  obtain x where x: "find_token db tid uid = Some x"
    unfolding find_token_def using assms(2-4) find_ex_iff by (metis (mono_tags, lifting))
  have "x = t" using find_tokenD[OF x] assms by (intro keyed_unique[of rt_id]) auto
  with x show ?thesis by simp
qed

lemma evolves_find_user:
  assumes "evolves db db'" "find_user db v = Some u"
  shows "\<exists>u'. find_user db' v = Some u'"
proof -
  have "v \<in> u_id ` set (db_users (a_rbac db'))"
    using assms(1) find_user_id[OF assms(2)] unfolding evolves_def by auto
  then show ?thesis unfolding find_user_def find_ex_iff by auto
qed

text \<open>A token codec used by the concrete runs: fields in unary, closed by a semicolon.\<close>

definition unary :: "nat \<Rightarrow> string" where
  "unary n = replicate n (CHR ''1'')"

definition put_int :: "int \<Rightarrow> string" where
  "put_int i = (if i < 0 then CHR ''-'' else CHR ''+'') # unary (nat \<bar>i\<bar>) @ '';''"

definition get_int :: "string \<Rightarrow> int \<times> string" where
  "get_int s = (let n = int (length (takeWhile (\<lambda>c. c = CHR ''1'') (tl s)));
                    rest = tl (dropWhile (\<lambda>c. c = CHR ''1'') (tl s))
                in (if hd s = CHR ''-'' then - n else n, rest))"

definition demo_encode :: "jwt_payload \<Rightarrow> string" where
  "demo_encode p = (if jp_typ p = ''access'' then ''a'' else ''r'') @ put_int (int (length (jp_sub p))) @
     put_int (jp_ver p) @ put_int (int (length (jp_jti p))) @ put_int (jp_nbf p) @ put_int (jp_exp p)"

definition demo_decode :: "string \<Rightarrow> timestamp \<Rightarrow> jwt_payload option" where
  "demo_decode s now =
     (let (sub, s1) = get_int (tl s); (ver, s2) = get_int s1; (jti, s3) = get_int s2;
          (nbf, s4) = get_int s3; (ex, s5) = get_int s4
      in if seconds nbf \<le> now \<and> now < seconds ex
         then Some \<lparr>jp_sub = unary (nat sub), jp_ver = ver,
                jp_typ = (if hd s = CHR ''a'' then ''access'' else ''refresh''),
                jp_jti = unary (nat jti), jp_nbf = nbf, jp_exp = ex\<rparr>
         else None)"

definition demo_crypto :: crypto_ops where
  "demo_crypto = \<lparr>co_jwt_encode = demo_encode, co_jwt_decode = demo_decode, co_str_uuid = unary,
     co_parse_uuid = (\<lambda>s. Some (length s)), co_sha256 = (\<lambda>s. ''#'' @ s),
     co_verify = (\<lambda>pw h. h = ''#'' @ pw), co_dummy_hash = ''-''\<rparr>"

lemma get_put_int [simp]: "get_int (put_int i @ rest) = (i, rest)"
  unfolding get_int_def put_int_def unary_def Let_def
  by (auto simp: takeWhile_append dropWhile_append)

lemma demo_codec_ok: "codec_ok demo_crypto"
  unfolding codec_ok_def Let_def
proof (intro conjI allI impI)
  fix u show "co_parse_uuid demo_crypto (co_str_uuid demo_crypto u) = Some u"
    by (simp add: demo_crypto_def unary_def)
next
  fix u j :: uuid and v nbf ex :: int and ty :: string and now :: timestamp
  assume "ty \<in> {''access'', ''refresh''}" "seconds nbf \<le> now" "now < seconds ex"
  moreover have "get_int (put_int i) = (i, [])" for i using get_put_int[of i "[]"] by simp
  ultimately show "co_jwt_decode demo_crypto (co_jwt_encode demo_crypto
      \<lparr>jp_sub = co_str_uuid demo_crypto u, jp_ver = v, jp_typ = ty, jp_jti = co_str_uuid demo_crypto j,
       jp_nbf = nbf, jp_exp = ex\<rparr>) now =
    Some \<lparr>jp_sub = co_str_uuid demo_crypto u, jp_ver = v, jp_typ = ty, jp_jti = co_str_uuid demo_crypto j,
       jp_nbf = nbf, jp_exp = ex\<rparr>"
    by (auto simp: demo_crypto_def demo_decode_def demo_encode_def unary_def)
qed

section \<open>Properties\<close>

text \<open>C30. Whatever interleaving of logins, refreshes and logouts is run, a refresh-token family has at
  most one unrevoked token at any time.\<close>

theorem single_live_refresh_token:
  assumes "auth_reachable ops db"
  shows "live_count fam (a_tokens db) \<le> 1"
  using auth_reachable_inv[OF assms] by (rule auth_invD(3))

text \<open>C1. Replay of a rotated refresh token: after a refresh with a token succeeded, and after any further
  session transactions, presenting the same token again (past the rate limit, before it expires) is answered
  by 401 refresh_token_reuse_detected, and afterwards no token of its family is live.\<close>

theorem rotated_token_replay_kills_family:
  assumes reach: "auth_reachable ops db"
    and first: "refresh_tokens co ops st now fr rq token db r = (Inr pair, db1, r1)"
    and claims: "decode_token co now token ''refresh'' = Some claims"
      "decode_token co now2 token ''refresh'' = Some claims"
    and rec: "find_token db (tc_token_id claims) (tc_user_id claims) = Some rec"
    and later: "(auth_step ops)\<^sup>*\<^sup>* db1 db2"
    and gate: "rate_gate ops (''auth:refresh:ip:'' @ rq_client_ip rq2) (st_refresh_attempts_per_minute st) r2 = (Inr d, r3)"
    and again: "refresh_tokens co ops st now2 fr2 rq2 token db2 r2 = (res, db3, r4)"
  shows "res = Inl (ApiError 401 ''refresh_token_reuse_detected'') \<and>
         live_count (rt_family_id rec) (a_tokens db3) = 0"
proof -
  have reach1: "auth_reachable ops db1" using auth_reachable.step[OF reach auth_step.refresh[OF first]] .
  note ev = auth_run.steps_evo[OF later auth_reachable_inv[OF reach1]]
  have reach2: "auth_reachable ops db2" using auth_steps_reachable[OF later reach1] .
  note inv2 = auth_reachable_inv[OF reach2] and rc2 = auth_reachable_reuse_closed[OF reach2]
  from first obtain user where u: "find_user db (tc_user_id claims) = Some user"
    and live: "rt_revoked_at rec = None" and rot: "rotate co st now fr rq user rec db = Inr (pair, db1)"
    by (cases rule: refresh_outcomes) (use claims rec find_user_id in auto)
  have uid: "u_id user = tc_user_id claims" using find_user_id[OF u] by simp
  have r1: "\<exists>t1 \<in> set (a_tokens db1). later_row rec t1 \<and> rt_revoked_at t1 \<noteq> None"
    using rotated_row_revoked[OF rot] find_tokenD[OF rec] by blast
  from ev r1 obtain t2 where t2: "t2 \<in> set (a_tokens db2)" "later_row rec t2"
    "rt_revoked_at t2 \<noteq> None"
    unfolding evolves_def using later_row_trans later_row_def by metis
  have f2: "find_token db2 (tc_token_id claims) (tc_user_id claims) = Some t2"
    using auth_invD(1)[OF inv2] t2 find_tokenD[OF rec] by (intro find_token_keyed) (auto simp: later_row_def)
  have "evolves db db2" using rotate_evolves[OF rot] ev by (rule evolves_trans)
  then obtain user2 where u2: "find_user db2 (tc_user_id claims) = Some user2"
    using evolves_find_user[OF _ u] by blast
  have uid2: "u_id user2 = tc_user_id claims" using find_user_id[OF u2] by simp
  have out: "res = Inl (ApiError 401 ''refresh_token_reuse_detected'')"
    "db3 = (if rt_reuse_detected_at t2 = None then detect_reuse co now2 rq2 user2 t2 db2 else db2)"
    using again gate claims(2) u2 f2 uid2 t2(3) unfolding refresh_tokens_def by auto
  have fam: "rt_family_id rec = rt_family_id t2" using t2(2) by (simp add: later_row_def)
  have "live_count (rt_family_id t2) (a_tokens db3) = 0"
  proof (cases "rt_reuse_detected_at t2 = None")
    case True
    with out(2) detect_reuse_kills_family[OF inv2 t2(1)] find_tokenD[OF f2] uid2 show ?thesis by simp
  next
    case False
    with out(2) rc2 t2(1) show ?thesis unfolding reuse_closed_def by simp
  qed
  with out(1) fam show ?thesis by simp
qed

text \<open>Detected reuse ends every session of the user: when a revoked refresh token is presented for the
  first time, no access token minted up to then (its version is at most the user's current one) is accepted
  by get_current_user on the resulting database.\<close>

theorem reuse_invalidates_access_tokens:
  assumes gate: "rate_gate ops (''auth:refresh:ip:'' @ rq_client_ip rq) (st_refresh_attempts_per_minute st) r = (Inr d, r1)"
    and claims: "decode_token co now token ''refresh'' = Some claims"
    and user: "find_user db (tc_user_id claims) = Some user"
    and rec: "find_token db (tc_token_id claims) (tc_user_id claims) = Some rec"
      "rt_revoked_at rec \<noteq> None" "rt_reuse_detected_at rec = None"
    and reuse: "refresh_tokens co ops st now fr rq token db r = (res, db', r')"
    and acc: "decode_token co now2 access ''access'' = Some ac" "tc_user_id ac = tc_user_id claims"
      "tc_token_version ac \<le> u_token_version user"
  shows "\<not> is_ok (fst (get_current_user co ops st now2 access db' r2))"
proof -
  have uid: "u_id user = tc_user_id claims" using find_user_id[OF user] by simp
  have db': "db' = detect_reuse co now rq user rec db"
    using reuse gate claims user rec uid unfolding refresh_tokens_def by auto
  have "find_user db' (tc_user_id claims) = Some (user\<lparr>u_token_version := u_token_version user + 1\<rparr>)"
    unfolding db' find_user_def detect_reuse_users
    using user uid by (simp add: find_update_where_key find_user_def)
  then show ?thesis
    using acc by (auto simp: get_current_user_def split: prod.split sum.split)
qed

text \<open>Logout ends the session: for a refresh token the server knows, after logout no token of its
  family is live, and no later refresh with that token is answered with a new pair.\<close>

theorem logout_ends_session:
  assumes reach: "auth_reachable ops db"
    and claims: "decode_token co now token ''refresh'' = Some claims"
    and user: "find_user db (tc_user_id claims) = Some user"
    and rec: "find_token db (tc_token_id claims) (tc_user_id claims) = Some rec"
      "rt_token_hash rec = co_sha256 co token"
    and again: "decode_token co now2 token ''refresh'' = Some claims"
  shows "live_count (rt_family_id rec) (a_tokens (logout co now rq token db)) = 0 \<and>
         \<not> is_ok (fst (refresh_tokens co ops st now2 fr rq2 token (logout co now rq token db) r))"
proof -
  let ?db = "logout co now rq token db" and ?p = "\<lambda>t. in_family rec (u_id user) t \<and> rt_revoked_at t = None"
  note inv = auth_reachable_inv[OF reach]
  have uid: "u_id user = tc_user_id claims" using find_user_id[OF user] by simp
  note rin = find_tokenD[OF rec(1)]
  have ts: "a_tokens ?db = update_where ?p (\<lambda>t. t\<lparr>rt_revoked_at := Some now\<rparr>) (a_tokens db)"
    using claims user rec uid by (auto simp: logout_def Let_def filter_empty_conv update_where_none)
  have dead: "\<not> live_in (rt_family_id rec) t" if "t \<in> set (a_tokens ?db)" for t
    using that[unfolded ts]
  proof (rule in_update_whereE)
    assume "t \<in> set (a_tokens db)" "\<not> ?p t"
    then show ?thesis
      using auth_invD(4)[OF inv] rin uid unfolding family_user_def in_family_def live_in_def by metis
  qed (simp add: live_in_def)
  have none: "live_count (rt_family_id rec) (a_tokens ?db) = 0"
    using dead by (auto simp: live_count_def filter_empty_conv)
  have "\<not> is_ok res" if "refresh_tokens co ops st now2 fr rq2 token ?db r = (res, db', r')" for res db' r'
    using that
  proof (cases rule: refresh_outcomes)
    case (rotated claims' user' rec' pair)
    have "later_row rec rec'"
    proof -
      obtain t where t: "t \<in> set (a_tokens ?db)" "later_row rec t"
        using logout_evolves[of db co now rq token] rin unfolding evolves_def by blast
      have "keyed rt_id (a_tokens ?db)" using auth_invD(1)[OF logout_inv[OF inv]] .
      moreover have "rt_id t = rt_id rec'"
        using t(2) rin find_tokenD[OF rotated(4)] rotated(2) again by (simp add: later_row_def)
      ultimately have "t = rec'" using t(1) find_tokenD[OF rotated(4)] by (metis keyed_unique)
      with t(2) show ?thesis by simp
    qed
    then show ?thesis
      using dead[of rec'] find_tokenD[OF rotated(4)] rotated(5) by (simp add: live_in_def later_row_def)
  qed simp_all
  then have "\<not> is_ok (fst (refresh_tokens co ops st now2 fr rq2 token ?db r))" by (metis prod.collapse)
  with none show ?thesis by blast
qed

text \<open>A login with the right password of an active account issues a session that works: with the codec
  law, fresh identifiers and both rate limits passed, the answer is a token pair whose refresh token passes the
  session-status check and whose access token authenticates as that user.\<close>

theorem login_issues_valid_session:
  assumes codec: "codec_ok co"
    and gates: "rate_gate ops (''auth:login:ip:'' @ rq_client_ip rq) (st_login_attempts_per_minute st) r = (Inr d1, r1)"
      "rate_gate ops (''auth:login:account:'' @ co_sha256 co email) (st_login_attempts_per_account_per_minute st) r1 = (Inr d2, r2)"
    and shape: "email = py_lower (py_strip name)" "email \<noteq> []" "pw \<noteq> []" "length email \<le> 320" "length pw \<le> 256"
    and user: "find (\<lambda>u. u_email u = email) (db_users (a_rbac db)) = Some user" "active_user user"
      "co_verify co pw (u_password_hash user)"
    and keys: "keyed u_id (db_users (a_rbac db))" "keyed rt_id (a_tokens db)"
    and fresh: "\<forall>t \<in> set (a_tokens db). rt_id t \<noteq> fr_refresh_jti fr \<and>
      rt_token_hash t \<noteq> co_sha256 co (create_token co (u_id user) (u_token_version user) ''refresh''
        (fr_refresh_jti fr) (st_refresh_token_days st * day_length) now)"
    and lifetimes: "1 \<le> st_access_token_minutes st" "1 \<le> st_refresh_token_days st"
    and gate: "rate_gate ops (''rate:preauth:user:'' @ co_str_uuid co (u_id user))
      (st_authenticated_precheck_requests_per_minute st) r3 = (Inr d3, r4)"
  shows "\<exists>pair db'. login co ops st now fr rq name pw db r = (Inr pair, db', r2) \<and>
     refresh_session_status co now (tp_refresh_token pair) db' = Inr () \<and>
     get_current_user co ops st now (tp_access_token pair) db' r3 =
       (Inr (user\<lparr>u_last_login_at := Some now\<rparr>), r4)"
proof -
  let ?acc = "create_token co (u_id user) (u_token_version user) ''access'' (fr_access_jti fr)
      (seconds (st_access_token_minutes st * 60)) now"
  let ?ref = "create_token co (u_id user) (u_token_version user) ''refresh'' (fr_refresh_jti fr)
      (st_refresh_token_days st * day_length) now"
  let ?db0 = "write_user (u_id user) (\<lambda>u. u\<lparr>u_last_login_at := Some now\<rparr>) db"
  let ?pair = "\<lparr>tp_access_token = ?acc, tp_refresh_token = ?ref, tp_expires_in = st_access_token_minutes st * 60\<rparr>"
  have dr: "decode_token co now ?ref ''refresh'' = Some \<lparr>tc_user_id = u_id user, tc_token_version = u_token_version user,
      tc_token_type = ''refresh'', tc_token_id = fr_refresh_jti fr,
      tc_expires_at = seconds ((now + st_refresh_token_days st * day_length) div 1000000)\<rparr>"
    by (rule decode_create[OF codec]) (use lifetimes in \<open>simp_all add: seconds_def day_length_def\<close>)
  have da: "decode_token co now ?acc ''access'' = Some \<lparr>tc_user_id = u_id user, tc_token_version = u_token_version user,
      tc_token_type = ''access'', tc_token_id = fr_access_jti fr,
      tc_expires_at = seconds ((now + seconds (st_access_token_minutes st * 60)) div 1000000)\<rparr>"
    by (rule decode_create[OF codec]) (use lifetimes in \<open>simp_all add: seconds_def\<close>)
  obtain row where m: "mint_pair co st now user fr None None = Inr (?pair, row)"
    and row: "rt_id row = fr_refresh_jti fr" "rt_user_id row = u_id user" "rt_revoked_at row = None"
      "rt_token_hash row = co_sha256 co ?ref" "now < rt_expires_at row"
    using dr lifetimes by (auto simp: mint_pair_def Let_def seconds_def day_length_def)
  have ins: "insert_token row ?db0 = Inr (?db0\<lparr>a_tokens := a_tokens ?db0 @ [row]\<rparr>)"
    by (rule insert_token_fresh) (use fresh row in auto)
  let ?db' = "audit_auth now ''auth.login.succeeded'' SUCCESS ''user'' (Some (u_id user))
      (Some (co_str_uuid co (u_id user))) (rq_request_id rq) (rq_host rq) (JObj [])
      (?db0\<lparr>a_tokens := a_tokens ?db0 @ [row]\<rparr>)"
  have run: "login co ops st now fr rq name pw db r = (Inr ?pair, ?db', r2)"
    using gates shape user m ins by (auto simp: login_def Let_def)
  have uin: "user \<in> set (db_users (a_rbac db))" using user(1) by (auto dest: find_Some_in_set)
  have fu: "find_user ?db' (u_id user) = Some (user\<lparr>u_last_login_at := Some now\<rparr>)"
    using find_user_keyed[OF keys(1) uin] by (simp add: find_user_update)
  have ft: "find_token ?db' (fr_refresh_jti fr) (u_id user) = Some row"
    using keys(2) fresh row by (intro find_token_keyed) (auto simp: keyed_append)
  have act: "active_user (user\<lparr>u_last_login_at := Some now\<rparr>)" using user(2) by (simp add: active_user_def)
  show ?thesis
    using run dr da fu ft act row gate by (intro exI[of _ ?pair] exI[of _ ?db'])
      (simp add: refresh_session_status_def get_current_user_def)
qed

text \<open>C32. Login does not reveal which accounts exist: past the rate limits, an unknown e-mail, an inactive or
  retired account and a wrong password all get the same 401 invalid_credentials, and no token row or user row
  changes.\<close>

theorem login_refusals_indistinguishable:
  assumes "rate_gate ops (''auth:login:ip:'' @ rq_client_ip rq) (st_login_attempts_per_minute st) r = (Inr d1, r1)"
    and "rate_gate ops (''auth:login:account:'' @ co_sha256 co (py_lower (py_strip name)))
      (st_login_attempts_per_account_per_minute st) r1 = (Inr d2, r2)"
    and "\<And>u. find (\<lambda>u. u_email u = py_lower (py_strip name)) (db_users (a_rbac db)) = Some u \<Longrightarrow>
      \<not> active_user u \<or> \<not> co_verify co pw (u_password_hash u)"
    and "login co ops st now fr rq name pw db r = (res, db', r')"
  shows "res = Inl (ApiError 401 ''invalid_credentials'') \<and> a_tokens db' = a_tokens db \<and> a_rbac db' = a_rbac db"
  using assms unfolding login_def Let_def by (auto split: option.split_asm if_split_asm)

section \<open>Concrete runs\<close>

text \<open>Tokens of the concrete runs carry their purpose and identifier only, and belong to user 7.\<close>

definition tiny_crypto :: crypto_ops where
  "tiny_crypto = \<lparr>co_jwt_encode = (\<lambda>p. (if jp_typ p = ''access'' then CHR ''a'' else CHR ''r'') # jp_jti p),
     co_jwt_decode = (\<lambda>s now. case s of [] \<Rightarrow> None | c # jti \<Rightarrow>
        Some \<lparr>jp_sub = unary 7, jp_ver = 0, jp_typ = (if c = CHR ''a'' then ''access'' else ''refresh''),
              jp_jti = jti, jp_nbf = 0, jp_exp = 100\<rparr>),
     co_str_uuid = unary, co_parse_uuid = (\<lambda>s. Some (length s)), co_sha256 = (\<lambda>s. ''#'' @ s),
     co_verify = (\<lambda>pw h. h = pw), co_dummy_hash = ''-''\<rparr>"

definition demo_settings :: auth_settings where
  "demo_settings = \<lparr>st_login_attempts_per_minute = 10, st_login_attempts_per_account_per_minute = 5,
     st_refresh_attempts_per_minute = 30, st_authenticated_precheck_requests_per_minute = 600,
     st_default_requests_per_minute = 60, st_access_token_minutes = 15, st_refresh_token_days = 7\<rparr>"

definition demo_request :: http_request where
  "demo_request = \<lparr>rq_client_ip = ''10.0.0.1'', rq_request_id = None, rq_host = None\<rparr>"

definition demo_db :: auth_db where
  "demo_db = \<lparr>a_rbac = rbac_demo\<lparr>db_users := [demo_user]\<rparr>, a_tokens = [],
     a_audit = \<lparr>au_rows = [], au_next_id = 1\<rparr>\<rparr>"

definition demo_ids :: "nat \<Rightarrow> fresh_ids" where
  "demo_ids n = \<lparr>fr_access_jti = n, fr_refresh_jti = n + 1, fr_family = 3\<rparr>"

definition demo_login :: "(string \<Rightarrow> int) auth_result" where
  "demo_login = login tiny_crypto counting_redis demo_settings 0 (demo_ids 1) demo_request ''a@b'' ''h'' demo_db (\<lambda>_. 0)"

definition demo_refresh :: "(string \<Rightarrow> int) auth_result" where
  "demo_refresh = refresh_tokens tiny_crypto counting_redis demo_settings 1 (demo_ids 4) demo_request ''r11''
     (fst (snd demo_login)) (\<lambda>_. 0)"

definition demo_row :: refresh_token where
  "demo_row = \<lparr>rt_id = 2, rt_family_id = 3, rt_user_id = 7, rt_parent_id = None, rt_replaced_by_id = None,
     rt_token_hash = ''#r11'', rt_expires_at = seconds 100, rt_revoked_at = None, rt_reuse_detected_at = None\<rparr>"

lemma demo_gate:
  "0 < n \<Longrightarrow> rate_gate counting_redis k n (\<lambda>_. 0) =
   (Inr \<lparr>rld_allowed = True, rld_limit = n, rld_remaining = n - 1, rld_retry_after_seconds = 60\<rparr>, (\<lambda>_. 0)(k := 1))"
  by (simp add: rate_gate_def rate_check_def rate_limit_script_def counting_redis_def Let_def)

lemma demo_login_ok: "fst demo_login = Inr \<lparr>tp_access_token = ''a1'', tp_refresh_token = ''r11'', tp_expires_in = 900\<rparr>"
  by code_simp

lemma demo_login_tokens: "a_tokens (fst (snd demo_login)) = [demo_row]"
  by code_simp

lemma demo_refresh_ok:
  "fst demo_refresh = Inr \<lparr>tp_access_token = ''a1111'', tp_refresh_token = ''r11111'', tp_expires_in = 900\<rparr>"
  by code_simp

lemma demo_reachable: "auth_reachable counting_redis (fst (snd demo_login))"
proof (rule auth_reachable.step[OF auth_reachable.start])
  have run: "login tiny_crypto counting_redis demo_settings 0 (demo_ids 1) demo_request ''a@b'' ''h'' demo_db
      (\<lambda>_. 0) = (fst demo_login, fst (snd demo_login), snd (snd demo_login))"
    unfolding demo_login_def prod.collapse ..
  show "auth_step counting_redis demo_db (fst (snd demo_login))"
    by (rule auth_step.login[OF run]) (simp add: demo_db_def)
qed (simp_all add: demo_db_def)

lemma demo_claims:
  "decode_token tiny_crypto now ''r11'' ''refresh'' = Some \<lparr>tc_user_id = 7, tc_token_version = 0,
     tc_token_type = ''refresh'', tc_token_id = 2, tc_expires_at = seconds 100\<rparr>"
  "decode_token tiny_crypto now ''a1'' ''access'' = Some \<lparr>tc_user_id = 7, tc_token_version = 0,
     tc_token_type = ''access'', tc_token_id = 1, tc_expires_at = seconds 100\<rparr>"
  by (simp_all add: decode_token_def tiny_crypto_def unary_def)

theorem single_live_refresh_token_witness:
  "live_count 3 (a_tokens (fst (snd demo_login))) \<le> 1"
  by (rule single_live_refresh_token[OF demo_reachable])

theorem rotated_token_replay_kills_family_witness:
  "fst (refresh_tokens tiny_crypto counting_redis demo_settings 2 (demo_ids 6) demo_request ''r11''
     (fst (snd demo_refresh)) (\<lambda>_. 0)) = Inl (ApiError 401 ''refresh_token_reuse_detected'') \<and>
   live_count 3 (a_tokens (fst (snd (refresh_tokens tiny_crypto counting_redis demo_settings 2 (demo_ids 6)
     demo_request ''r11'' (fst (snd demo_refresh)) (\<lambda>_. 0))))) = 0"
proof -
  have first: "refresh_tokens tiny_crypto counting_redis demo_settings 1 (demo_ids 4) demo_request ''r11''
      (fst (snd demo_login)) (\<lambda>_. 0) =
      (Inr \<lparr>tp_access_token = ''a1111'', tp_refresh_token = ''r11111'', tp_expires_in = 900\<rparr>,
       fst (snd demo_refresh), snd (snd demo_refresh))"
    using demo_refresh_ok by (simp add: demo_refresh_def prod_eq_iff)
  have row': "find_token (fst (snd demo_login))
      (tc_token_id \<lparr>tc_user_id = 7, tc_token_version = 0, tc_token_type = ''refresh'', tc_token_id = 2,
        tc_expires_at = seconds 100\<rparr>)
      (tc_user_id \<lparr>tc_user_id = 7, tc_token_version = 0, tc_token_type = ''refresh'', tc_token_id = 2,
        tc_expires_at = seconds 100\<rparr>) = Some demo_row"
    by (simp add: find_token_def demo_login_tokens demo_row_def)
  have gate: "0 < st_refresh_attempts_per_minute demo_settings" by (simp add: demo_settings_def)
  have fam: "rt_family_id demo_row = 3" by (simp add: demo_row_def)
  let ?again = "refresh_tokens tiny_crypto counting_redis demo_settings 2 (demo_ids 6) demo_request ''r11''
      (fst (snd demo_refresh)) (\<lambda>_. 0)"
  have again: "?again = (fst ?again, fst (snd ?again), snd (snd ?again))" by simp
  show ?thesis
    using rotated_token_replay_kills_family[OF demo_reachable first demo_claims(1)[of 1] demo_claims(1)[of 2]
        row' rtranclp.rtrancl_refl demo_gate[OF gate] again] fam by simp
qed

theorem reuse_invalidates_access_tokens_witness:
  "\<not> is_ok (fst (get_current_user tiny_crypto counting_redis demo_settings 3 ''a1''
     (fst (snd (refresh_tokens tiny_crypto counting_redis demo_settings 2 (demo_ids 6) demo_request ''r11''
       (demo_db\<lparr>a_tokens := [demo_row\<lparr>rt_revoked_at := Some 1\<rparr>]\<rparr>) (\<lambda>_. 0)))) (\<lambda>_. 0)))"
proof -
  let ?db = "demo_db\<lparr>a_tokens := [demo_row\<lparr>rt_revoked_at := Some 1\<rparr>]\<rparr>"
  let ?run = "refresh_tokens tiny_crypto counting_redis demo_settings 2 (demo_ids 6) demo_request ''r11'' ?db (\<lambda>_. 0)"
  have gate: "0 < st_refresh_attempts_per_minute demo_settings" by (simp add: demo_settings_def)
  have run: "?run = (fst ?run, fst (snd ?run), snd (snd ?run))" by simp
  show ?thesis
    by (rule reuse_invalidates_access_tokens[OF demo_gate[OF gate] demo_claims(1) _ _ _ _ run demo_claims(2),
          where user = demo_user and rec = "demo_row\<lparr>rt_revoked_at := Some 1\<rparr>"])
      (simp_all add: find_user_def find_token_def demo_db_def demo_user_def demo_row_def)
qed

theorem logout_ends_session_witness:
  "live_count 3 (a_tokens (logout tiny_crypto 1 demo_request ''r11'' (fst (snd demo_login)))) = 0 \<and>
   \<not> is_ok (fst (refresh_tokens tiny_crypto counting_redis demo_settings 2 (demo_ids 6) demo_request ''r11''
     (logout tiny_crypto 1 demo_request ''r11'' (fst (snd demo_login))) (\<lambda>_. 0)))"
proof -
  have row: "find_token (fst (snd demo_login)) 2 7 = Some demo_row"
    by (simp add: find_token_def demo_login_tokens demo_row_def)
  have user: "find_user (fst (snd demo_login)) 7 = Some (demo_user\<lparr>u_last_login_at := Some 0\<rparr>)"
    by code_simp
  have fam: "rt_family_id demo_row = 3" by (simp add: demo_row_def)
  have hash: "rt_token_hash demo_row = co_sha256 tiny_crypto ''r11''" by (simp add: demo_row_def tiny_crypto_def)
  show ?thesis
    using logout_ends_session[OF demo_reachable demo_claims(1)[of 1] _ _ hash demo_claims(1)[of 2]] row user fam
    by simp
qed

theorem login_issues_valid_session_witness:
  "\<exists>pair db'. login demo_crypto counting_redis demo_settings 5 (demo_ids 1) demo_request '' A@B '' ''h''
       (demo_db\<lparr>a_rbac := rbac_demo\<lparr>db_users := [demo_user\<lparr>u_password_hash := ''#h''\<rparr>]\<rparr>\<rparr>) (\<lambda>_. 0) =
       (Inr pair, db', (\<lambda>_. 0)(''auth:login:ip:10.0.0.1'' := 1, ''auth:login:account:#a@b'' := 1)) \<and>
     refresh_session_status demo_crypto 5 (tp_refresh_token pair) db' = Inr () \<and>
     fst (get_current_user demo_crypto counting_redis demo_settings 5 (tp_access_token pair) db' (\<lambda>_. 0)) =
       Inr (demo_user\<lparr>u_password_hash := ''#h'', u_last_login_at := Some 5\<rparr>)"
proof -
  let ?u = "demo_user\<lparr>u_password_hash := ''#h''\<rparr>"
  let ?db = "demo_db\<lparr>a_rbac := rbac_demo\<lparr>db_users := [?u]\<rparr>\<rparr>"
  have email: "py_lower (py_strip '' A@B '') = ''a@b''" by code_simp
  have sha: "co_sha256 demo_crypto s = ''#'' @ s" for s by (simp add: demo_crypto_def)
  have g1: "rate_gate counting_redis (''auth:login:ip:'' @ rq_client_ip demo_request)
      (st_login_attempts_per_minute demo_settings) (\<lambda>_. 0) =
    (Inr \<lparr>rld_allowed = True, rld_limit = 10, rld_remaining = 9, rld_retry_after_seconds = 60\<rparr>,
     (\<lambda>_. 0)(''auth:login:ip:10.0.0.1'' := 1))"
    by (simp add: demo_gate demo_settings_def demo_request_def)
  have g2: "rate_gate counting_redis (''auth:login:account:'' @ co_sha256 demo_crypto ''a@b'')
      (st_login_attempts_per_account_per_minute demo_settings) ((\<lambda>_. 0)(''auth:login:ip:10.0.0.1'' := 1)) =
    (Inr \<lparr>rld_allowed = True, rld_limit = 5, rld_remaining = 4, rld_retry_after_seconds = 60\<rparr>,
     (\<lambda>_. 0)(''auth:login:ip:10.0.0.1'' := 1, ''auth:login:account:#a@b'' := 1))"
    by (simp add: sha demo_settings_def rate_gate_def rate_check_def rate_limit_script_def counting_redis_def Let_def)
  have g3: "0 < st_authenticated_precheck_requests_per_minute demo_settings" by (simp add: demo_settings_def)
  show ?thesis
    using login_issues_valid_session[OF demo_codec_ok g1 g2 email[symmetric] _ _ _ _ _ _ _ _ _ _ _ _
        demo_gate[OF g3], of "''h''" ?db ?u "demo_ids 1" 5]
    by (auto simp: demo_db_def demo_user_def active_user_def demo_crypto_def demo_settings_def)
qed

theorem login_refusals_indistinguishable_witness:
  "fst (login tiny_crypto counting_redis demo_settings 0 (demo_ids 1) demo_request ''nobody'' ''h'' demo_db (\<lambda>_. 0)) =
     Inl (ApiError 401 ''invalid_credentials'')"
proof -
  let ?run = "login tiny_crypto counting_redis demo_settings 0 (demo_ids 1) demo_request ''nobody'' ''h'' demo_db (\<lambda>_. 0)"
  have run: "?run = (fst ?run, fst (snd ?run), snd (snd ?run))" by simp
  have email: "py_lower (py_strip ''nobody'') = ''nobody''" by code_simp
  have sha: "co_sha256 tiny_crypto s = ''#'' @ s" for s by (simp add: tiny_crypto_def)
  have g1: "0 < st_login_attempts_per_minute demo_settings" by (simp add: demo_settings_def)
  have g2: "rate_gate counting_redis (''auth:login:account:'' @ co_sha256 tiny_crypto (py_lower (py_strip ''nobody'')))
      (st_login_attempts_per_account_per_minute demo_settings)
      ((\<lambda>_. 0)(''auth:login:ip:'' @ rq_client_ip demo_request := 1)) =
    (Inr \<lparr>rld_allowed = True, rld_limit = 5, rld_remaining = 4, rld_retry_after_seconds = 60\<rparr>,
     (\<lambda>_. 0)(''auth:login:ip:'' @ rq_client_ip demo_request := 1, ''auth:login:account:#nobody'' := 1))"
    by (simp add: email sha demo_settings_def demo_request_def rate_gate_def rate_check_def rate_limit_script_def
        counting_redis_def Let_def)
  show ?thesis
    using login_refusals_indistinguishable[OF demo_gate[OF g1] g2 _ run] email
    by (simp add: demo_db_def demo_user_def)
qed

end
