(* ===== verification/Json.thy ===== *)
theory Json
  imports Models "HOL-Library.List_Lexorder" "HOL-Library.Char_ord"
begin

text \<open>
  \<open>json.dumps(value, sort_keys=True, separators=(",", ":"))\<close> as the services use it to build
  the byte strings they hash (\<open>src/app/services/llm_usage.py\<close>,
  \<open>src/app/services/chat_idempotency.py\<close>). The main lemma is unique readability: the printed
  form determines the value, so two different hashed contexts are different strings and can share
  a digest only through a collision of SHA-256 itself.
\<close>

section \<open>Printing\<close>

definition hex_digit :: "nat \<Rightarrow> char" where
  "hex_digit n = ''0123456789abcdef'' ! n"

definition json_escape :: "char \<Rightarrow> string" where
  "json_escape c =
     (if c = CHR 0x22 then [CHR 0x5C, CHR 0x22]
      else if c = CHR 0x5C then [CHR 0x5C, CHR 0x5C]
      else if c = CHR 0x0A then [CHR 0x5C, CHR ''n'']
      else if c = CHR 0x0D then [CHR 0x5C, CHR ''r'']
      else if c = CHR 0x09 then [CHR 0x5C, CHR ''t'']
      else if c = CHR 0x0C then [CHR 0x5C, CHR ''f'']
      else if c = CHR 0x08 then [CHR 0x5C, CHR ''b'']
      else if of_char c < (32 :: nat) \<or> of_char c > (126 :: nat)
      then [CHR 0x5C, CHR ''u'', CHR ''0'', CHR ''0'',
            hex_digit (of_char c div 16), hex_digit (of_char c mod 16)]
      else [c])"

text \<open>
  With \<open>ensure_ascii=False\<close> only quotes, backslashes and control characters are escaped; a string is then its
  UTF-8 bytes.
\<close>

definition json_escape_utf8 :: "char \<Rightarrow> string" where
  "json_escape_utf8 c =
     (if of_char c > (126 :: nat) then [c] else json_escape c)"

definition json_string_with :: "(char \<Rightarrow> string) \<Rightarrow> string \<Rightarrow> string" where
  "json_string_with esc s = [CHR 0x22] @ concat (map esc s) @ [CHR 0x22]"

fun nat_str :: "nat \<Rightarrow> string" where
  "nat_str n = (if n < 10 then [hex_digit n] else nat_str (n div 10) @ [hex_digit (n mod 10)])"

declare nat_str.simps [simp del]

definition int_str :: "int \<Rightarrow> string" where
  "int_str i = (if i < 0 then CHR ''-'' # nat_str (nat (- i)) else nat_str (nat i))"

fun dumps_with :: "(char \<Rightarrow> string) \<Rightarrow> json \<Rightarrow> string"
  and dumps_items :: "(char \<Rightarrow> string) \<Rightarrow> json list \<Rightarrow> string"
  and dumps_fields :: "(char \<Rightarrow> string) \<Rightarrow> (string \<times> json) list \<Rightarrow> string" where
  "dumps_with esc JNull = ''null''"
| "dumps_with esc (JBool b) = (if b then ''true'' else ''false'')"
| "dumps_with esc (JInt i) = int_str i"
| "dumps_with esc (JStr s) = json_string_with esc s"
| "dumps_with esc (JList xs) = ''['' @ dumps_items esc xs"
| "dumps_with esc (JObj kvs) = ''{'' @ dumps_fields esc kvs"
| "dumps_items esc [] = '']''"
| "dumps_items esc (x # xs) = dumps_with esc x @ (if xs = [] then '']'' else '','' @ dumps_items esc xs)"
| "dumps_fields esc [] = ''}''"
| "dumps_fields esc ((k, v) # kvs) =
     json_string_with esc k @ '':'' @ dumps_with esc v @ (if kvs = [] then ''}'' else '','' @ dumps_fields esc kvs)"

definition json_dumps :: "json \<Rightarrow> string" where
  "json_dumps = dumps_with json_escape"

definition json_dumps_utf8 :: "json \<Rightarrow> string" where
  "json_dumps_utf8 = dumps_with json_escape_utf8"

text \<open>\<open>sort_keys=True\<close> on one level, which is all the hashed contexts have.\<close>

definition sort_keys :: "(string \<times> json) list \<Rightarrow> (string \<times> json) list" where
  "sort_keys kvs = sort_key fst kvs"

section \<open>Strings are uniquely readable\<close>

lemma of_char_lt: "of_char c < (256 :: nat)"
  using nat_of_char_less_256 .

lemma hex_digit_inj: "m < 16 \<Longrightarrow> n < 16 \<Longrightarrow> hex_digit m = hex_digit n \<Longrightarrow> m = n"
proof -
  have d: "distinct ''0123456789abcdef''" by simp
  show "m < 16 \<Longrightarrow> n < 16 \<Longrightarrow> hex_digit m = hex_digit n \<Longrightarrow> m = n"
    unfolding hex_digit_def using nth_eq_iff_index_eq[OF d, of m n] by simp
qed

lemma hex_digit_in: "n < 16 \<Longrightarrow> hex_digit n \<in> set ''0123456789abcdef''"
  unfolding hex_digit_def by (rule nth_mem) simp

lemma hex_pair_inj:
  assumes "hex_digit (of_char c div 16) = hex_digit (of_char d div 16)"
    "hex_digit (of_char c mod 16) = hex_digit (of_char d mod 16)"
  shows "c = d"
proof -
  have lt: "of_char c div (16 :: nat) < 16" "of_char d div (16 :: nat) < 16"
    using of_char_lt[of c] of_char_lt[of d] by linarith+
  have "of_char c div 16 = (of_char d div 16 :: nat)" using hex_digit_inj[OF lt assms(1)] .
  moreover have "of_char c mod 16 = (of_char d mod 16 :: nat)"
    using assms(2) by (intro hex_digit_inj) simp_all
  ultimately have "of_char c = (of_char d :: nat)" by (metis div_mult_mod_eq)
  then show ?thesis by (simp add: of_char_eq_iff)
qed

lemma json_escape_inj: "json_escape c = json_escape d \<Longrightarrow> c = d"
  by (auto simp: json_escape_def intro: hex_pair_inj split: if_split_asm)

lemma json_escape_utf8_inj: "json_escape_utf8 c = json_escape_utf8 d \<Longrightarrow> c = d"
  by (auto simp: json_escape_utf8_def json_escape_def intro: hex_pair_inj split: if_split_asm)

text \<open>An escape sequence ends where its first two characters say, so it can be read off a longer text.\<close>

definition self_delimiting :: "(char \<Rightarrow> string) \<Rightarrow> bool" where
  "self_delimiting esc \<longleftrightarrow> (\<forall>c. esc c \<noteq> [] \<and> hd (esc c) \<noteq> CHR 0x22 \<and>
     length (esc c) = (if hd (esc c) \<noteq> CHR 0x5C then 1 else if esc c ! 1 = CHR ''u'' then 6 else 2))"

lemma json_escape_delimiting: "self_delimiting json_escape"
  by (simp add: self_delimiting_def json_escape_def)

lemma json_escape_utf8_delimiting: "self_delimiting json_escape_utf8"
  by (simp add: self_delimiting_def json_escape_utf8_def json_escape_def)

lemma self_delimitingD:
  assumes "self_delimiting esc"
  shows "esc c \<noteq> []" "hd (esc c) \<noteq> CHR 0x22"
    "length (esc c) = (if hd (esc c) \<noteq> CHR 0x5C then 1 else if esc c ! 1 = CHR ''u'' then 6 else 2)"
  using assms by (simp_all add: self_delimiting_def)

lemma escape_read:
  assumes sd: "self_delimiting esc" and inj: "\<And>c d. esc c = esc d \<Longrightarrow> c = d" and eq: "esc c @ s = esc d @ t"
  shows "c = d \<and> s = t"
proof -
  note len = self_delimitingD(3)[OF sd]
  have hd_eq: "hd (esc c) = hd (esc d)"
    using arg_cong[OF eq, of hd] by (simp add: self_delimitingD(1)[OF sd])
  have "hd (esc c) = CHR 0x5C \<Longrightarrow> esc c ! 1 = esc d ! 1"
  proof -
    assume "hd (esc c) = CHR 0x5C"
    then have "1 < length (esc c)" "1 < length (esc d)" using len[of c] len[of d] hd_eq by auto
    then show ?thesis using arg_cong[OF eq, of "\<lambda>z. z ! 1"] by (simp add: nth_append)
  qed
  then have "length (esc c) = length (esc d)" using len[of c] len[of d] hd_eq by simp
  with eq have "esc c = esc d" "s = t" by simp_all
  then show ?thesis using inj by blast
qed

lemma escape_not_quote: "self_delimiting esc \<Longrightarrow> esc c @ u \<noteq> CHR 0x22 # s"
  using self_delimitingD(1,2)[of esc c] by (cases "esc c") auto

section \<open>Numbers are uniquely readable\<close>

definition is_digit :: "char \<Rightarrow> bool" where
  "is_digit c \<longleftrightarrow> c \<in> set ''0123456789''"

definition no_digit :: "string \<Rightarrow> bool" where
  "no_digit s \<longleftrightarrow> (case s of [] \<Rightarrow> True | c # _ \<Rightarrow> \<not> is_digit c)"

lemma hex_digit_is_digit: "n < 10 \<Longrightarrow> is_digit (hex_digit n)"
proof -
  assume n: "n < 10"
  have "\<forall>k \<in> {0..<10}. is_digit (hex_digit k)"
    by (simp add: atLeastLessThan_upt upt_conv_Cons is_digit_def hex_digit_def eval_nat_numeral)
  with n show ?thesis by simp
qed

lemma nat_str_digits: "c \<in> set (nat_str n) \<Longrightarrow> is_digit c"
proof (induction n rule: nat_str.induct)
  case (1 n)
  then show ?case by (auto simp: nat_str.simps[of n] hex_digit_is_digit split: if_splits)
qed

lemma nat_str_nonempty [simp]: "nat_str n \<noteq> []" "[] \<noteq> nat_str n"
  by (simp_all add: nat_str.simps[of n])

lemma nat_str_inj: "nat_str m = nat_str n \<Longrightarrow> m = n"
proof (induction m arbitrary: n rule: nat_str.induct)
  case (1 m)
  have last: "last (nat_str k) = hex_digit (k mod 10)" for k by (simp add: nat_str.simps[of k])
  have d: "m mod 10 = n mod 10"
    using arg_cong[OF "1.prems", of last] unfolding last by (intro hex_digit_inj) simp_all
  have but: "butlast (nat_str k) = (if k < 10 then [] else nat_str (k div 10))" for k
    by (simp add: nat_str.simps[of k])
  have b: "(if m < 10 then [] else nat_str (m div 10)) = (if n < 10 then [] else nat_str (n div 10))"
    using arg_cong[OF "1.prems", of butlast] unfolding but .
  show ?case
  proof (cases "m < 10")
    case True
    with b have "n < 10" by (auto split: if_split_asm)
    with True d show ?thesis by simp
  next
    case False
    with b have "\<not> n < 10" "nat_str (m div 10) = nat_str (n div 10)"
      using nat_str_nonempty by (auto split: if_split_asm)
    then have "m div 10 = n div 10" using "1.IH"[OF False] by simp
    with d show ?thesis by (metis div_mult_mod_eq)
  qed
qed

lemma digits_read:
  assumes "\<forall>c \<in> set xs. is_digit c" "\<forall>c \<in> set ys. is_digit c" "no_digit s" "no_digit t" "xs @ s = ys @ t"
  shows "xs = ys \<and> s = t"
proof -
  have tw: "takeWhile is_digit (zs @ u) = zs" if "\<forall>c \<in> set zs. is_digit c" "no_digit u" for zs u
    using that by (cases u) (simp_all add: no_digit_def takeWhile_append2)
  from tw[OF assms(1,3)] tw[OF assms(2,4)] assms(5) show ?thesis by simp
qed

lemma int_str_read:
  assumes "int_str i @ s = int_str j @ t" "no_digit s" "no_digit t"
  shows "i = j \<and> s = t"
proof -
  have hd: "is_digit (hd (nat_str n))" for n by (rule nat_str_digits[of _ n]) (simp add: hd_in_set)
  have minus: "\<not> is_digit (CHR ''-'')" by (simp add: is_digit_def)
  have neg: "(i < 0) = (j < 0)"
    using arg_cong[OF assms(1), of hd] hd[of "nat i"] hd[of "nat j"] minus
    by (auto simp: int_str_def split: if_split_asm)
  define m n where "m = (if i < 0 then nat (- i) else nat i)" and "n = (if j < 0 then nat (- j) else nat j)"
  have "nat_str m @ s = nat_str n @ t"
    using assms(1) neg by (auto simp: int_str_def m_def n_def split: if_split_asm)
  then have "nat_str m = nat_str n \<and> s = t"
    by (intro digits_read) (use nat_str_digits assms in auto)
  then have "m = n" "s = t" using nat_str_inj by blast+
  then show ?thesis using neg by (auto simp: m_def n_def split: if_split_asm)
qed

section \<open>Values are uniquely readable\<close>

fun json_kind :: "json \<Rightarrow> nat" where
  "json_kind JNull = 0"
| "json_kind (JBool b) = 1"
| "json_kind (JInt i) = 2"
| "json_kind (JStr s) = 3"
| "json_kind (JList xs) = 4"
| "json_kind (JObj kvs) = 5"

definition lead_kind :: "char \<Rightarrow> nat" where
  "lead_kind c = (if c = CHR ''n'' then 0 else if c = CHR ''t'' \<or> c = CHR ''f'' then 1
     else if is_digit c \<or> c = CHR ''-'' then 2 else if c = CHR 0x22 then 3
     else if c = CHR ''['' then 4 else if c = CHR ''{'' then 5 else 6)"

lemma int_str_lead: "int_str i \<noteq> [] \<and> (is_digit (hd (int_str i)) \<or> hd (int_str i) = CHR ''-'')"
proof -
  have "is_digit (hd (nat_str n))" for n by (rule nat_str_digits[of _ n]) (simp add: hd_in_set)
  then show ?thesis by (simp add: int_str_def)
qed

lemma no_digit_simps [simp]:
  "no_digit (CHR '']'' # s)" "no_digit (CHR ''}'' # s)" "no_digit (CHR '','' # s)"
  by (simp_all add: no_digit_def is_digit_def)

lemma json_kind_cases:
  "json_kind b = 0 \<Longrightarrow> b = JNull" "json_kind b = Suc 0 \<Longrightarrow> \<exists>x. b = JBool x"
  "json_kind b = 2 \<Longrightarrow> \<exists>i. b = JInt i" "json_kind b = 3 \<Longrightarrow> \<exists>x. b = JStr x"
  "json_kind b = 4 \<Longrightarrow> \<exists>xs. b = JList xs" "json_kind b = 5 \<Longrightarrow> \<exists>kvs. b = JObj kvs"
  by (cases b; simp)+

lemmas json_parts_induct =
  dumps_with_dumps_items_dumps_fields.induct[where P = "\<lambda>_. P" and Q = "\<lambda>_. Q" and R = "\<lambda>_. R" for P Q R]

text \<open>
  What unique readability needs of an escaping: an escaped character can be read off a text, and it is never a
  closing quote.
\<close>

locale json_escaping =
  fixes esc :: "char \<Rightarrow> string"
  assumes esc_read: "esc c @ s = esc d @ t \<Longrightarrow> c = d \<and> s = t"
    and esc_not_quote: "esc c @ u \<noteq> CHR 0x22 # s"
begin

lemma body_read:
  "concat (map esc xs) @ CHR 0x22 # s = concat (map esc ys) @ CHR 0x22 # t \<Longrightarrow>
   xs = ys \<and> s = t"
proof (induction xs arbitrary: ys)
  case Nil
  then show ?case
  proof (cases ys)
    case (Cons y ys')
    with Nil have "esc y @ (concat (map esc ys') @ CHR 0x22 # t) = CHR 0x22 # s" by simp
    with esc_not_quote show ?thesis by blast
  qed simp
next
  case (Cons x xs)
  show ?case
  proof (cases ys)
    case Nil
    with Cons.prems have "esc x @ (concat (map esc xs) @ CHR 0x22 # s) = CHR 0x22 # t" by simp
    with esc_not_quote show ?thesis by blast
  next
    case (Cons y ys')
    with Cons.prems have "esc x @ (concat (map esc xs) @ CHR 0x22 # s) =
        esc y @ (concat (map esc ys') @ CHR 0x22 # t)" by simp
    from esc_read[OF this] Cons.IH[of ys'] Cons show ?thesis by simp
  qed
qed

lemma string_read: "json_string_with esc xs @ s = json_string_with esc ys @ t \<Longrightarrow> xs = ys \<and> s = t"
  using body_read[of xs s ys t] by (simp add: json_string_with_def)

lemma dumps_lead: "dumps_with esc a \<noteq> [] \<and> lead_kind (hd (dumps_with esc a)) = json_kind a"
proof (cases a)
  case (JInt i)
  have "\<not> is_digit (CHR ''n'')" "\<not> is_digit (CHR ''t'')" "\<not> is_digit (CHR ''f'')" by (simp_all add: is_digit_def)
  with int_str_lead[of i] show ?thesis unfolding JInt lead_kind_def by auto
qed (simp_all add: lead_kind_def is_digit_def json_string_with_def)

lemma dumps_kind: "dumps_with esc a @ s = dumps_with esc b @ t \<Longrightarrow> json_kind a = json_kind b"
  using dumps_lead[of a] dumps_lead[of b] by (metis hd_append2)

lemma dumps_not_close: "dumps_with esc a @ s \<noteq> CHR '']'' # t"
proof
  assume "dumps_with esc a @ s = CHR '']'' # t"
  then have "hd (dumps_with esc a) = CHR '']''" using dumps_lead[of a] by (metis hd_append2 list.sel(1))
  then show False using dumps_lead[of a] by (cases a) (simp_all add: lead_kind_def is_digit_def)
qed

lemma dumps_read:
  "dumps_with esc a @ s = dumps_with esc b @ t \<Longrightarrow> no_digit s \<Longrightarrow> no_digit t \<Longrightarrow> a = b \<and> s = t"
  "dumps_items esc xs @ s = dumps_items esc ys @ t \<Longrightarrow> xs = ys \<and> s = t"
  "dumps_fields esc kvs @ s = dumps_fields esc kws @ t \<Longrightarrow> kvs = kws \<and> s = t"
proof (induction a and xs and kvs arbitrary: b s t and ys s t and kws s t
    rule: json_parts_induct)
  case 1
  then show ?case using dumps_kind[OF "1.prems"(1)] json_kind_cases(1)[of b] by simp
next
  case (2 _ x)
  then show ?case using dumps_kind[OF "2.prems"(1)] json_kind_cases(2)[of b] by (auto split: if_split_asm)
next
  case (3 _ i)
  have "json_kind b = 2" using dumps_kind[OF "3.prems"(1)] by simp
  then obtain j where b: "b = JInt j" using json_kind_cases(3) by blast
  with "3.prems" int_str_read[of i s j t] show ?case by simp
next
  case (4 _ x)
  have "json_kind b = 3" using dumps_kind[OF "4.prems"(1)] by simp
  then obtain y where b: "b = JStr y" using json_kind_cases(4) by blast
  with "4.prems"(1) string_read[of x s y t] show ?case by simp
next
  case (5 _ xs)
  then show ?case using dumps_kind[OF "5.prems"(1)] json_kind_cases(5)[of b] by auto
next
  case (6 _ kvs)
  then show ?case using dumps_kind[OF "6.prems"(1)] json_kind_cases(6)[of b] by auto
next
  case 7
  then show ?case
  proof (cases ys)
    case (Cons y ys')
    with "7.prems" have "CHR '']'' # s = dumps_with esc y @ ((if ys' = [] then '']'' else '','' @ dumps_items esc ys') @ t)"
      by simp
    with dumps_not_close show ?thesis by metis
  qed simp
next
  case (8 _ x xs)
  show ?case
  proof (cases ys)
    case Nil
    with "8.prems" dumps_not_close show ?thesis by simp
  next
    case (Cons y ys')
    let ?u = "(if xs = [] then '']'' else '','' @ dumps_items esc xs) @ s"
      and ?v = "(if ys' = [] then '']'' else '','' @ dumps_items esc ys') @ t"
    have eq: "dumps_with esc x @ ?u = dumps_with esc y @ ?v" using "8.prems" Cons by simp
    have "x = y \<and> ?u = ?v" by (rule "8.IH"(1)[OF eq]) simp_all
    then show ?thesis using "8.IH"(2)[of s ys' t] Cons by (auto split: if_split_asm)
  qed
next
  case 9
  then show ?case by (cases kws) (auto simp: json_string_with_def)
next
  case (10 _ k v kvs)
  show ?case
  proof (cases kws)
    case Nil
    with "10.prems" show ?thesis by (simp add: json_string_with_def)
  next
    case (Cons kw kws')
    obtain k' v' where kw: "kw = (k', v')" by (cases kw)
    let ?u = "(if kvs = [] then ''}'' else '','' @ dumps_fields esc kvs) @ s"
      and ?v = "(if kws' = [] then ''}'' else '','' @ dumps_fields esc kws') @ t"
    have "json_string_with esc k @ ('':'' @ dumps_with esc v @ ?u) = json_string_with esc k' @ ('':'' @ dumps_with esc v' @ ?v)"
      using "10.prems" Cons kw by simp
    from string_read[OF this] have k: "k = k'" and eq: "dumps_with esc v @ ?u = dumps_with esc v' @ ?v" by simp_all
    have "v = v' \<and> ?u = ?v" by (rule "10.IH"(1)[OF eq]) simp_all
    then show ?thesis using "10.IH"(2)[of s kws' t] Cons kw k by (auto split: if_split_asm)
  qed
qed

lemma dumps_inj: "dumps_with esc a = dumps_with esc b \<Longrightarrow> a = b"
  using dumps_read(1)[of a "[]" b "[]"] by (simp add: no_digit_def)

end

interpretation ascii_json: json_escaping json_escape
proof unfold_locales
  show "c = d \<and> s = t" if "json_escape c @ s = json_escape d @ t" for c s d t
    by (rule escape_read[OF json_escape_delimiting json_escape_inj that])
  show "json_escape c @ u \<noteq> CHR 0x22 # s" for c u s
    by (rule escape_not_quote[OF json_escape_delimiting])
qed

interpretation utf8_json: json_escaping json_escape_utf8
proof unfold_locales
  show "c = d \<and> s = t" if "json_escape_utf8 c @ s = json_escape_utf8 d @ t" for c s d t
    by (rule escape_read[OF json_escape_utf8_delimiting json_escape_utf8_inj that])
  show "json_escape_utf8 c @ u \<noteq> CHR 0x22 # s" for c u s
    by (rule escape_not_quote[OF json_escape_utf8_delimiting])
qed

lemma json_dumps_inj: "json_dumps a = json_dumps b \<Longrightarrow> a = b"
  unfolding json_dumps_def by (rule ascii_json.dumps_inj)

lemma json_dumps_utf8_inj: "json_dumps_utf8 a = json_dumps_utf8 b \<Longrightarrow> a = b"
  unfolding json_dumps_utf8_def by (rule utf8_json.dumps_inj)

end
