(* ===== verification/Llm_Usage.thy ===== *)
theory Llm_Usage
  imports Auth Quota Json
begin

text \<open>
  Governed LLM usage (\<open>src/app/services/llm_usage.py\<close>): hard budgets, the reservation ledger and
  the executor that puts a durable hold before every provider call. The state is the tables
  of prices, policies, counters, usage records and holds. The invariant says that the reserved
  value of every budget counter is the sum of the holds whose usage is still open (held, or
  indeterminate: an unknown outcome keeps its hold). The provider, the preflight callback and the
  other transactions that run while a call is awaited are parameters.
\<close>

section \<open>State and errors\<close>

record llm_db =
  g_prices :: "llm_model_price list"
  g_policies :: "llm_budget_policy list"
  g_counters :: "llm_budget_counter list"
  g_usage :: "llm_usage_record list"
  g_holds :: "llm_usage_budget_hold list"

datatype budget_metric = TOKENS | COST_MICRO_USD

datatype metering_outcome = NOT_STARTED | KNOWN | UNKNOWN

record provider_error =
  pv_code :: string
  pv_retryable :: bool
  pv_metering_outcome :: metering_outcome
  pv_prompt_tokens :: "int option"
  pv_completion_tokens :: "int option"

datatype llm_error =
    LlmValueError
  | LlmUnicodeEncodeError
  | LlmIntegrityError
  | LlmDataError
  | LlmUsageDuplicate uuid llm_usage_status
  | LlmUsagePricingUnavailable
  | LlmBudgetConfigurationUnavailable
  | LlmBudgetExceeded uuid window_kind budget_metric int
  | LlmUsageInvalidState
  | LlmUsageUnmetered
  | LlmUsageMeteringMismatch
  | LlmEgressDenied
  | LlmCancelled
  | LlmProviderRaised provider_error
  | LlmUnexpected

record usage_dimensions =
  dim_tenant_key :: string
  dim_user_id :: uuid
  dim_api_key_id :: "uuid option"
  dim_knowledge_base_id :: "uuid option"
  dim_provider :: string
  dim_model :: string
  dim_operation :: string
  dim_api_key_credential_family_id :: "uuid option"

record window_reservation =
  wr_policy :: llm_budget_policy
  wr_window_kind :: window_kind
  wr_window_start :: timestamp
  wr_token_limit :: "int option"
  wr_cost_limit_micro_usd :: "int option"

type_synonym budget_key = "uuid \<times> window_kind \<times> timestamp"

definition bc_key :: "llm_budget_counter \<Rightarrow> budget_key" where
  "bc_key c = (bc_policy_id c, bc_window_kind c, bc_window_start c)"

definition bh_key :: "llm_usage_budget_hold \<Rightarrow> budget_key" where
  "bh_key h = (bh_policy_id h, bh_window_kind h, bh_window_start h)"

definition wr_key :: "window_reservation \<Rightarrow> budget_key" where
  "wr_key w = (bp_id (wr_policy w), wr_window_kind w, wr_window_start w)"

text \<open>
  The counts, costs and prices are \<open>BIGINT\<close> columns: Python computes them without bound, and the flush of a row with a
  value outside the range raises. Rows that are not written fit already.
\<close>

definition bigint :: "int \<Rightarrow> bool" where
  "bigint n \<longleftrightarrow> -9223372036854775808 \<le> n \<and> n \<le> 9223372036854775807"

definition bigint_opt :: "int option \<Rightarrow> bool" where
  "bigint_opt v = (case v of None \<Rightarrow> True | Some n \<Rightarrow> bigint n)"

definition counter_fits :: "llm_budget_counter \<Rightarrow> bool" where
  "counter_fits c \<longleftrightarrow> bigint (bc_used_token_count c) \<and> bigint (bc_reserved_token_count c) \<and>
     bigint (bc_used_cost_micro_usd c) \<and> bigint (bc_reserved_cost_micro_usd c)"

definition usage_fits :: "llm_usage_record \<Rightarrow> bool" where
  "usage_fits r \<longleftrightarrow> bigint (lu_reserved_input_tokens r) \<and> bigint (lu_reserved_output_tokens r) \<and>
     bigint (lu_reserved_token_count r) \<and> bigint (lu_reserved_cost_micro_usd r) \<and>
     bigint (lu_input_price r) \<and> bigint (lu_output_price r) \<and>
     bigint_opt (lu_actual_input_tokens r) \<and> bigint_opt (lu_actual_output_tokens r) \<and>
     bigint_opt (lu_actual_token_count r) \<and> bigint_opt (lu_actual_cost_micro_usd r)"

section \<open>Windows, estimates and cost\<close>

text \<open>The day of the month of a day counted from 1970-01-01, in the proleptic Gregorian calendar.\<close>

definition day_of_month :: "int \<Rightarrow> int" where
  "day_of_month days =
     (let z = days + 719468;
          doe = z mod 146097;
          yoe = (doe - doe div 1460 + doe div 36524 - doe div 146096) div 365;
          doy = doe - (365 * yoe + yoe div 4 - yoe div 100);
          mp = (5 * doy + 2) div 153
      in doy - (153 * mp + 2) div 5 + 1)"

definition usage_window_start :: "window_kind \<Rightarrow> timestamp \<Rightarrow> timestamp" where
  "usage_window_start kind now =
     (case kind of
        DAY \<Rightarrow> now - now mod day_length
      | MONTH \<Rightarrow> (now div day_length - (day_of_month (now div day_length) - 1)) * day_length)"

definition estimate_input_tokens :: "unicode option list \<Rightarrow> llm_error + int" where
  "estimate_input_tokens messages =
     fold_r (\<lambda>acc content.
        case utf8_size (case content of None \<Rightarrow> [] | Some c \<Rightarrow> c) of
          None \<Rightarrow> Inl LlmUnicodeEncodeError
        | Some n \<Rightarrow> Inr (acc + (n + 32))) 0 messages"

definition price_denominator :: int where
  "price_denominator = 1000000"

definition usage_cost :: "int \<Rightarrow> int \<Rightarrow> int \<Rightarrow> int \<Rightarrow> int" where
  "usage_cost input_tokens output_tokens input_price output_price =
     (let numerator = input_tokens * input_price + output_tokens * output_price
      in (numerator + price_denominator - 1) div price_denominator)"

definition policy_limits :: "llm_budget_policy \<Rightarrow> window_kind \<Rightarrow> int option \<times> int option" where
  "policy_limits policy kind =
     (case kind of
        DAY \<Rightarrow> (bp_daily_token_limit policy, bp_daily_cost_limit_micro_usd policy)
      | MONTH \<Rightarrow> (bp_monthly_token_limit policy, bp_monthly_cost_limit_micro_usd policy))"

section \<open>Reserve\<close>

definition opt_str :: "crypto_ops \<Rightarrow> uuid option \<Rightarrow> json" where
  "opt_str co v = (case v of None \<Rightarrow> JNull | Some u \<Rightarrow> JStr (co_str_uuid co u))"

definition idempotency_context :: "crypto_ops \<Rightarrow> usage_dimensions \<Rightarrow> string \<Rightarrow> json" where
  "idempotency_context co d idempotency_key =
     JObj (sort_keys
       [(''tenant'', JStr (dim_tenant_key d)),
        (''user'', JStr (co_str_uuid co (dim_user_id d))),
        (''api_key'', case dim_api_key_credential_family_id d of
                        Some f \<Rightarrow> JStr (co_str_uuid co f) | None \<Rightarrow> opt_str co (dim_api_key_id d)),
        (''knowledge_base'', opt_str co (dim_knowledge_base_id d)),
        (''provider'', JStr (dim_provider d)),
        (''model'', JStr (dim_model d)),
        (''operation'', JStr (dim_operation d)),
        (''client_key'', JStr idempotency_key)])"

definition idempotency_hash :: "crypto_ops \<Rightarrow> usage_dimensions \<Rightarrow> string \<Rightarrow> string" where
  "idempotency_hash co d key = co_sha256 co (json_dumps (idempotency_context co d key))"

definition find_usage_by_hash :: "llm_db \<Rightarrow> string \<Rightarrow> string \<Rightarrow> llm_usage_record option" where
  "find_usage_by_hash db tenant h =
     find (\<lambda>r. lu_tenant_key r = tenant \<and> lu_idempotency_hash r = h) (g_usage db)"

definition wildcard :: "'a option \<Rightarrow> 'a option \<Rightarrow> bool" where
  "wildcard pat v \<longleftrightarrow> pat = None \<or> pat = v"

definition policy_matches :: "usage_dimensions \<Rightarrow> llm_budget_policy \<Rightarrow> bool" where
  "policy_matches d p \<longleftrightarrow> bp_tenant_key p = dim_tenant_key d \<and> bp_enabled p \<and>
     wildcard (bp_user_id p) (Some (dim_user_id d)) \<and> wildcard (bp_api_key_id p) (dim_api_key_id d) \<and>
     wildcard (bp_provider p) (Some (dim_provider d)) \<and> wildcard (bp_model p) (Some (dim_model d))"

definition max_matched_budget_policies :: nat where
  "max_matched_budget_policies = 100"

definition reservation_specs :: "llm_budget_policy list \<Rightarrow> timestamp \<Rightarrow> window_reservation list" where
  "reservation_specs policies now =
     concat (map (\<lambda>policy.
       concat (map (\<lambda>kind.
         case policy_limits policy kind of
           (token_limit, cost_limit) \<Rightarrow>
             if token_limit = None \<and> cost_limit = None then []
             else [\<lparr>wr_policy = policy, wr_window_kind = kind,
                    wr_window_start = usage_window_start kind now,
                    wr_token_limit = token_limit, wr_cost_limit_micro_usd = cost_limit\<rparr>])
         [DAY, MONTH])) policies)"

definition zero_counter :: "budget_key \<Rightarrow> llm_budget_counter" where
  "zero_counter k = \<lparr>bc_policy_id = fst k, bc_window_kind = fst (snd k), bc_window_start = snd (snd k),
     bc_used_token_count = 0, bc_reserved_token_count = 0,
     bc_used_cost_micro_usd = 0, bc_reserved_cost_micro_usd = 0\<rparr>"

definition locked_counters :: "budget_key list \<Rightarrow> llm_budget_counter list \<Rightarrow> llm_budget_counter list" where
  "locked_counters keys counters =
     foldl (\<lambda>cs k. if \<exists>c \<in> set cs. bc_key c = k then cs else cs @ [zero_counter k]) counters keys"

definition find_counter :: "llm_budget_counter list \<Rightarrow> budget_key \<Rightarrow> llm_budget_counter option" where
  "find_counter cs k = find (\<lambda>c. bc_key c = k) cs"

definition exceeds :: "int option \<Rightarrow> int \<Rightarrow> bool" where
  "exceeds limit amount = (case limit of None \<Rightarrow> False | Some l \<Rightarrow> amount > l)"

definition check_window ::
    "llm_budget_counter list \<Rightarrow> int \<Rightarrow> int \<Rightarrow> unit \<Rightarrow> window_reservation \<Rightarrow> llm_error + unit" where
  "check_window cs tokens cost u item =
     (case find_counter cs (wr_key item) of
        None \<Rightarrow> Inl LlmUnexpected
      | Some c \<Rightarrow>
          if exceeds (wr_token_limit item) (bc_used_token_count c + bc_reserved_token_count c + tokens)
          then Inl (LlmBudgetExceeded (bp_id (wr_policy item)) (wr_window_kind item) TOKENS
                 (the (wr_token_limit item)))
          else if exceeds (wr_cost_limit_micro_usd item)
                 (bc_used_cost_micro_usd c + bc_reserved_cost_micro_usd c + cost)
          then Inl (LlmBudgetExceeded (bp_id (wr_policy item)) (wr_window_kind item) COST_MICRO_USD
                 (the (wr_cost_limit_micro_usd item)))
          else Inr ())"

definition hold_window :: "uuid \<Rightarrow> int \<Rightarrow> int \<Rightarrow> llm_db \<Rightarrow> window_reservation \<Rightarrow> llm_db" where
  "hold_window usage_id tokens cost db item =
     db\<lparr>g_counters := update_where (\<lambda>c. bc_key c = wr_key item)
          (\<lambda>c. c\<lparr>bc_reserved_token_count := bc_reserved_token_count c + tokens,
                  bc_reserved_cost_micro_usd := bc_reserved_cost_micro_usd c + cost\<rparr>) (g_counters db),
        g_holds := g_holds db @
          [\<lparr>bh_usage_id = usage_id, bh_policy_id = bp_id (wr_policy item),
            bh_window_kind = wr_window_kind item, bh_window_start = wr_window_start item,
            bh_reserved_token_count = tokens, bh_reserved_cost_micro_usd = cost\<rparr>]\<rparr>"

definition new_usage ::
    "crypto_ops \<Rightarrow> usage_dimensions \<Rightarrow> string \<Rightarrow> int \<Rightarrow> int \<Rightarrow> llm_model_price \<Rightarrow> timestamp \<Rightarrow> uuid \<Rightarrow>
     llm_usage_record" where
  "new_usage co d key est out price now uid =
     \<lparr>lu_id = uid, lu_tenant_key = dim_tenant_key d, lu_idempotency_hash = idempotency_hash co d key,
      lu_user_id = Some (dim_user_id d), lu_api_key_id = dim_api_key_id d,
      lu_api_key_credential_family_id = dim_api_key_credential_family_id d,
      lu_knowledge_base_id = dim_knowledge_base_id d, lu_provider = dim_provider d,
      lu_model = dim_model d, lu_operation = dim_operation d, lu_status = LLM_HELD,
      lu_reserved_input_tokens = est, lu_reserved_output_tokens = out,
      lu_reserved_token_count = est + out,
      lu_reserved_cost_micro_usd = usage_cost est out (mp_input_price price) (mp_output_price price),
      lu_input_price = mp_input_price price, lu_output_price = mp_output_price price,
      lu_actual_input_tokens = None, lu_actual_output_tokens = None, lu_actual_token_count = None,
      lu_actual_cost_micro_usd = None, lu_error_code = None, lu_created_at = now, lu_settled_at = None\<rparr>"

text \<open>What \<open>reserve\<close> settles before it touches a counter: the price and the windows of the matching policies.\<close>

definition budget_items ::
    "crypto_ops \<Rightarrow> usage_dimensions \<Rightarrow> string \<Rightarrow> int \<Rightarrow> int \<Rightarrow> timestamp \<Rightarrow> llm_db \<Rightarrow>
     llm_error + llm_model_price \<times> window_reservation list" where
  "budget_items co d key est out now db =
     (if est < 0 \<or> out < 0 then Inl LlmValueError
      else if \<not> (1 \<le> length key \<and> length key \<le> 200) then Inl LlmValueError
      else if dim_tenant_key d = [] \<or> length (dim_tenant_key d) > 100 then Inl LlmValueError
      else if dim_api_key_id d \<noteq> None \<and> dim_api_key_credential_family_id d = None then Inl LlmValueError
      else (case find_usage_by_hash db (dim_tenant_key d) (idempotency_hash co d key) of
        Some duplicate \<Rightarrow> Inl (LlmUsageDuplicate (lu_id duplicate) (lu_status duplicate))
      | None \<Rightarrow>
          (case find (\<lambda>p. mp_provider p = dim_provider d \<and> mp_model p = dim_model d \<and> mp_active p) (g_prices db) of
             None \<Rightarrow> Inl LlmUsagePricingUnavailable
           | Some price \<Rightarrow>
               (let policies = take (max_matched_budget_policies + 1)
                      (sort_key bp_id (filter (policy_matches d) (g_policies db)))
                in if policies = [] then Inl LlmBudgetConfigurationUnavailable
                   else if length policies > max_matched_budget_policies
                   then Inl LlmBudgetConfigurationUnavailable
                   else Inr (price, reservation_specs policies now)))))"

definition checked_items :: "llm_usage_record \<Rightarrow> window_reservation list \<Rightarrow> llm_db \<Rightarrow> llm_error + unit" where
  "checked_items record items db =
     bind_r (fold_r (check_window (locked_counters (map wr_key items) (g_counters db))
       (lu_reserved_token_count record) (lu_reserved_cost_micro_usd record)) () items) (\<lambda>_.
     if \<exists>r \<in> set (g_usage db). lu_id r = lu_id record then Inl LlmIntegrityError
     else if \<not> usage_fits record then Inl LlmDataError else Inr ())"

text \<open>\<open>reserve\<close> and the commit that its callers make next.\<close>

definition reserve_usage ::
    "crypto_ops \<Rightarrow> usage_dimensions \<Rightarrow> string \<Rightarrow> int \<Rightarrow> int \<Rightarrow> timestamp \<Rightarrow> uuid \<Rightarrow> llm_db \<Rightarrow>
     llm_error + llm_usage_record \<times> llm_db" where
  "reserve_usage co d key est out now uid db =
     bind_r (budget_items co d key est out now db) (\<lambda>(price, items).
       (let record = new_usage co d key est out price now uid in
        bind_r (checked_items record items db) (\<lambda>_.
          (let db1 = foldl (hold_window uid (lu_reserved_token_count record) (lu_reserved_cost_micro_usd record))
                 (db\<lparr>g_counters := locked_counters (map wr_key items) (g_counters db), g_usage := g_usage db @ [record]\<rparr>) items
           in if list_all counter_fits (g_counters db1) then Inr (record, db1) else Inl LlmDataError))))"

text \<open>
  A refused reservation has already flushed the counters of new windows, with zeros, when it fails on a budget or on the
  usage row: a caller that commits afterwards keeps them.
\<close>

definition flushed_counters ::
    "crypto_ops \<Rightarrow> usage_dimensions \<Rightarrow> string \<Rightarrow> int \<Rightarrow> int \<Rightarrow> timestamp \<Rightarrow> uuid \<Rightarrow> llm_db \<Rightarrow> llm_db" where
  "flushed_counters co d key est out now uid db =
     (case budget_items co d key est out now db of
        Inl _ \<Rightarrow> db
      | Inr (price, items) \<Rightarrow>
          if is_ok (checked_items (new_usage co d key est out price now uid) items db) then db
          else db\<lparr>g_counters := locked_counters (map wr_key items) (g_counters db)\<rparr>)"

section \<open>Settle, release, mark indeterminate\<close>

definition kind_rank :: "window_kind \<Rightarrow> nat" where
  "kind_rank k = (case k of DAY \<Rightarrow> 0 | MONTH \<Rightarrow> 1)"

definition settle_counter ::
    "int \<Rightarrow> int \<Rightarrow> llm_usage_budget_hold \<Rightarrow> llm_budget_counter \<Rightarrow> llm_budget_counter" where
  "settle_counter used_tokens used_cost hold c =
     c\<lparr>bc_reserved_token_count := max (bc_reserved_token_count c - bh_reserved_token_count hold) 0,
       bc_reserved_cost_micro_usd := max (bc_reserved_cost_micro_usd c - bh_reserved_cost_micro_usd hold) 0,
       bc_used_token_count := bc_used_token_count c + used_tokens,
       bc_used_cost_micro_usd := bc_used_cost_micro_usd c + used_cost\<rparr>"

definition settle_hold ::
    "int \<Rightarrow> int \<Rightarrow> llm_budget_counter list \<Rightarrow> llm_usage_budget_hold \<Rightarrow> llm_error + llm_budget_counter list" where
  "settle_hold used_tokens used_cost cs hold =
     (case find_counter cs (bh_key hold) of
        None \<Rightarrow> Inl LlmUsageInvalidState
      | Some _ \<Rightarrow> Inr (update_where (\<lambda>c. bc_key c = bh_key hold)
                          (settle_counter used_tokens used_cost hold) cs))"

definition holds_of :: "uuid \<Rightarrow> llm_db \<Rightarrow> llm_usage_budget_hold list" where
  "holds_of usage_id db =
     sort_key bh_policy_id (sort_key (\<lambda>h. kind_rank (bh_window_kind h))
       (filter (\<lambda>h. bh_usage_id h = usage_id) (g_holds db)))"

definition settle_holds :: "uuid \<Rightarrow> int \<Rightarrow> int \<Rightarrow> llm_db \<Rightarrow> llm_error + llm_db" where
  "settle_holds usage_id used_tokens used_cost db =
     bind_r (fold_r (settle_hold used_tokens used_cost) (g_counters db) (holds_of usage_id db))
       (\<lambda>cs. Inr (db\<lparr>g_counters := cs\<rparr>))"

definition find_usage :: "llm_db \<Rightarrow> uuid \<Rightarrow> llm_usage_record option" where
  "find_usage db uid = find (\<lambda>r. lu_id r = uid) (g_usage db)"

definition write_usage :: "llm_usage_record \<Rightarrow> llm_db \<Rightarrow> llm_db" where
  "write_usage r db = db\<lparr>g_usage := update_where (\<lambda>x. lu_id x = lu_id r) (\<lambda>_. r) (g_usage db)\<rparr>"

definition locked_record :: "llm_db \<Rightarrow> uuid \<Rightarrow> llm_error + llm_usage_record" where
  "locked_record db uid = (case find_usage db uid of None \<Rightarrow> Inl LlmUsageInvalidState | Some r \<Rightarrow> Inr r)"

definition settle_usage ::
    "uuid \<Rightarrow> int \<Rightarrow> int \<Rightarrow> timestamp \<Rightarrow> llm_db \<Rightarrow> llm_error + llm_usage_record \<times> llm_db" where
  "settle_usage uid input_tokens output_tokens now db =
     (if input_tokens < 0 \<or> output_tokens < 0 then Inl LlmValueError
      else bind_r (locked_record db uid) (\<lambda>record.
        if lu_status record = LLM_SETTLED then Inr (record, db)
        else if lu_status record \<noteq> LLM_HELD then Inl LlmUsageInvalidState
        else (let actual_tokens = input_tokens + output_tokens;
                  actual_cost = usage_cost input_tokens output_tokens (lu_input_price record) (lu_output_price record);
                  record' = record\<lparr>lu_actual_input_tokens := Some input_tokens,
                    lu_actual_output_tokens := Some output_tokens, lu_actual_token_count := Some actual_tokens,
                    lu_actual_cost_micro_usd := Some actual_cost, lu_status := LLM_SETTLED,
                    lu_settled_at := Some now\<rparr>
              in bind_r (settle_holds (lu_id record) actual_tokens actual_cost db)
                   (\<lambda>db1. if usage_fits record' \<and> list_all counter_fits (g_counters db1)
                          then Inr (record', write_usage record' db1) else Inl LlmDataError))))"

definition release_usage ::
    "uuid \<Rightarrow> string \<Rightarrow> timestamp \<Rightarrow> llm_db \<Rightarrow> llm_error + llm_usage_record \<times> llm_db" where
  "release_usage uid code now db =
     bind_r (locked_record db uid) (\<lambda>record.
       if lu_status record = LLM_RELEASED then Inr (record, db)
       else if lu_status record \<noteq> LLM_HELD then Inl LlmUsageInvalidState
       else (let record' = record\<lparr>lu_status := LLM_RELEASED, lu_error_code := Some (take 100 code),
                   lu_settled_at := Some now\<rparr>
             in bind_r (settle_holds (lu_id record) 0 0 db) (\<lambda>db1. Inr (record', write_usage record' db1))))"

definition mark_indeterminate ::
    "uuid \<Rightarrow> string \<Rightarrow> timestamp \<Rightarrow> llm_db \<Rightarrow> llm_error + llm_usage_record \<times> llm_db" where
  "mark_indeterminate uid code now db =
     bind_r (locked_record db uid) (\<lambda>record.
       if lu_status record = LLM_INDETERMINATE then Inr (record, db)
       else if lu_status record \<noteq> LLM_HELD then Inl LlmUsageInvalidState
       else (let record' = record\<lparr>lu_status := LLM_INDETERMINATE,
                   lu_error_code := Some (take 100 code), lu_settled_at := Some now\<rparr>
             in Inr (record', write_usage record' db)))"

text \<open>A durable provider-egress lease that matches a revocation scope.\<close>

definition find_active_llm_egress ::
    "llm_db \<Rightarrow> user_role list \<Rightarrow> uuid option \<Rightarrow> uuid option \<Rightarrow> uuid option \<Rightarrow> uuid option \<Rightarrow> string option \<Rightarrow>
     uuid option" where
  "find_active_llm_egress db user_roles knowledge_base_id user_id api_key_id role_id operation =
     map_option lu_id (find (\<lambda>r. lu_status r = LLM_HELD \<and>
       (knowledge_base_id = None \<or> lu_knowledge_base_id r = knowledge_base_id) \<and>
       (user_id = None \<or> lu_user_id r = user_id) \<and>
       (api_key_id = None \<or> lu_api_key_id r = api_key_id) \<and>
       (case role_id of None \<Rightarrow> True
        | Some rid \<Rightarrow> (\<exists>ur \<in> set user_roles. ur_role_id ur = rid \<and> Some (ur_user_id ur) = lu_user_id r)) \<and>
       (case operation of None \<Rightarrow> True | Some op \<Rightarrow> lu_operation r = op)) (g_usage db))"

section \<open>The governed executor\<close>

text \<open>\<open>LlmProviderError.__init__\<close> refuses (with \<open>ValueError\<close>) token counts that do not fit the outcome.\<close>

definition make_provider_error ::
    "string \<Rightarrow> bool \<Rightarrow> metering_outcome \<Rightarrow> int option \<Rightarrow> int option \<Rightarrow> provider_error option" where
  "make_provider_error code retryable outcome prompt completion =
     (if outcome = KNOWN \<and> (prompt = None \<or> completion = None) then None
      else if outcome \<noteq> KNOWN \<and> (prompt \<noteq> None \<or> completion \<noteq> None) then None
      else Some \<lparr>pv_code = code, pv_retryable = retryable, pv_metering_outcome = outcome, pv_prompt_tokens = prompt,
                  pv_completion_tokens = completion\<rparr>)"

text \<open>\<open>_optional_int\<close>: a token count of the provider is used only when it is a non-negative integer.\<close>

definition optional_int :: "json \<Rightarrow> int option" where
  "optional_int value =
     (case value of JInt i \<Rightarrow> (if i \<ge> 0 then Some i else None)
      | JBool b \<Rightarrow> Some (if b then 1 else 0) | _ \<Rightarrow> None)"

record 'c llm_result =
  lr_content :: 'c
  lr_provider :: string
  lr_model :: string
  lr_prompt_tokens :: "int option"
  lr_completion_tokens :: "int option"

datatype 'c provider_reply =
    ReplyCancelled
  | ReplyProviderError provider_error
  | ReplyException
  | ReplyResult "'c llm_result"

datatype egress_check = NoCheck | CheckAllowed | CheckDenied | CheckCancelled | CheckFailed

type_synonym 'a llm_outcome = "(llm_error + 'a) \<times> llm_db"

text \<open>Run a state change; when it raises, the transaction is rolled back and its error is raised instead.\<close>

definition commit_and_raise :: "llm_error \<Rightarrow> llm_error + llm_usage_record \<times> llm_db \<Rightarrow> llm_db \<Rightarrow> 'a llm_outcome" where
  "commit_and_raise e m db = (case m of Inl e' \<Rightarrow> (Inl e', db) | Inr (_, db') \<Rightarrow> (Inl e, db'))"

definition reconcile_provider_error ::
    "uuid \<Rightarrow> provider_error \<Rightarrow> timestamp \<Rightarrow> llm_db \<Rightarrow> llm_error + llm_usage_record \<times> llm_db" where
  "reconcile_provider_error uid err now db =
     (case pv_metering_outcome err of
        NOT_STARTED \<Rightarrow> release_usage uid (pv_code err) now db
      | KNOWN \<Rightarrow>
          (case (pv_prompt_tokens err, pv_completion_tokens err) of
             (Some p, Some c) \<Rightarrow> settle_usage uid p c now db
           | _ \<Rightarrow> Inl LlmUsageUnmetered)
      | UNKNOWN \<Rightarrow> mark_indeterminate uid (pv_code err) now db)"

definition enforce_egress_policy ::
    "uuid \<Rightarrow> egress_check \<Rightarrow> timestamp \<Rightarrow> llm_db \<Rightarrow> unit llm_outcome" where
  "enforce_egress_policy uid before_egress now db =
     (case before_egress of
        NoCheck \<Rightarrow> (Inr (), db)
      | CheckAllowed \<Rightarrow> (Inr (), db)
      | CheckCancelled \<Rightarrow>
          commit_and_raise LlmCancelled (release_usage uid ''llm_egress_preflight_cancelled'' now db) db
      | CheckFailed \<Rightarrow>
          commit_and_raise LlmUnexpected (release_usage uid ''llm_egress_preflight_failed'' now db) db
      | CheckDenied \<Rightarrow>
          commit_and_raise LlmEgressDenied (release_usage uid ''llm_egress_denied'' now db) db)"

definition finish_call ::
    "usage_dimensions \<Rightarrow> uuid \<Rightarrow> 'c provider_reply \<Rightarrow> timestamp \<Rightarrow> llm_db \<Rightarrow> 'c llm_result llm_outcome" where
  "finish_call d uid reply now db =
     (case reply of
        ReplyCancelled \<Rightarrow>
          commit_and_raise LlmCancelled (mark_indeterminate uid ''llm_request_cancelled'' now db) db
      | ReplyProviderError err \<Rightarrow>
          commit_and_raise (LlmProviderRaised err) (reconcile_provider_error uid err now db) db
      | ReplyException \<Rightarrow>
          commit_and_raise LlmUnexpected (mark_indeterminate uid ''llm_unexpected_provider_error'' now db) db
      | ReplyResult result \<Rightarrow>
          if lr_provider result \<noteq> dim_provider d \<or> lr_model result \<noteq> dim_model d
          then commit_and_raise LlmUsageMeteringMismatch
                 (mark_indeterminate uid ''llm_metering_dimension_mismatch'' now db) db
          else (case (lr_prompt_tokens result, lr_completion_tokens result) of
                  (Some p, Some c) \<Rightarrow>
                    (case settle_usage uid p c now db of
                       Inl e \<Rightarrow> (Inl e, db) | Inr (_, db') \<Rightarrow> (Inr result, db'))
                | _ \<Rightarrow> commit_and_raise LlmUsageUnmetered
                        (mark_indeterminate uid ''llm_usage_missing'' now db) db))"

text \<open>
  \<open>before_egress\<close> is the awaited preflight and \<open>call\<close> the awaited provider call: from the committed database each gives its
  answer and the database the other transactions have left when it returns. A call that is refused before its hold is
  committed leaves its session with the counters \<open>reserve\<close> has flushed.
\<close>

definition open_call ::
    "crypto_ops \<Rightarrow> string \<times> string \<Rightarrow> usage_dimensions \<Rightarrow> string \<Rightarrow> llm_error + int \<Rightarrow> int \<Rightarrow> timestamp \<Rightarrow> uuid \<Rightarrow> llm_db \<Rightarrow>
     llm_error + llm_usage_record \<times> llm_db" where
  "open_call co client d key estimate max_out now uid db =
     (if fst client \<noteq> dim_provider d \<or> snd client \<noteq> dim_model d then Inl LlmValueError
      else bind_r estimate (\<lambda>est. reserve_usage co d key est max_out now uid db))"

definition unopened ::
    "crypto_ops \<Rightarrow> string \<times> string \<Rightarrow> usage_dimensions \<Rightarrow> string \<Rightarrow> llm_error + int \<Rightarrow> int \<Rightarrow> timestamp \<Rightarrow> uuid \<Rightarrow> llm_db \<Rightarrow> llm_db" where
  "unopened co client d key estimate max_out now uid db =
     (if fst client \<noteq> dim_provider d \<or> snd client \<noteq> dim_model d then db
      else (case estimate of Inl _ \<Rightarrow> db | Inr est \<Rightarrow> flushed_counters co d key est max_out now uid db))"

text \<open>What stays when the session of a call is closed without a further commit.\<close>

definition committed_part ::
    "crypto_ops \<Rightarrow> string \<times> string \<Rightarrow> usage_dimensions \<Rightarrow> string \<Rightarrow> llm_error + int \<Rightarrow> int \<Rightarrow> timestamp \<Rightarrow> uuid \<Rightarrow> llm_db \<Rightarrow>
     llm_db \<Rightarrow> llm_db" where
  "committed_part co client d key estimate max_out now uid db after =
     (if is_ok (open_call co client d key estimate max_out now uid db) then after else db)"

definition governed_call ::
    "crypto_ops \<Rightarrow> string \<times> string \<Rightarrow> usage_dimensions \<Rightarrow> string \<Rightarrow> llm_error + int \<Rightarrow> int \<Rightarrow> (llm_db \<Rightarrow> egress_check \<times> llm_db) \<Rightarrow>
     (llm_db \<Rightarrow> 'c provider_reply \<times> llm_db) \<Rightarrow> timestamp \<Rightarrow> timestamp \<Rightarrow> uuid \<Rightarrow> llm_db \<Rightarrow>
     'c llm_result llm_outcome" where
  "governed_call co client d key estimate max_out before_egress call now fin uid db =
     (case open_call co client d key estimate max_out now uid db of
        Inl e \<Rightarrow> (Inl e, unopened co client d key estimate max_out now uid db)
      | Inr (record, db1) \<Rightarrow>
          (case before_egress db1 of
             (check, db1') \<Rightarrow>
               (case enforce_egress_policy (lu_id record) check now db1' of
                  (Inl e, db2) \<Rightarrow> (Inl e, db2)
                | (Inr _, db2) \<Rightarrow>
                    (case call db2 of (reply, db3) \<Rightarrow> finish_call d (lu_id record) reply fin db3))))"

definition complete_chat ::
    "crypto_ops \<Rightarrow> string \<times> string \<Rightarrow> usage_dimensions \<Rightarrow> string \<Rightarrow> unicode option list \<Rightarrow> int \<Rightarrow> (llm_db \<Rightarrow> egress_check \<times> llm_db) \<Rightarrow>
     (llm_db \<Rightarrow> unicode provider_reply \<times> llm_db) \<Rightarrow> timestamp \<Rightarrow> timestamp \<Rightarrow> uuid \<Rightarrow> llm_db \<Rightarrow>
     unicode llm_result llm_outcome" where
  "complete_chat co client d key messages max_out before_egress call now fin uid db =
     governed_call co client d key (estimate_input_tokens messages) max_out before_egress call now fin uid db"

definition estimate_source_tokens :: "unicode \<Rightarrow> llm_error + int" where
  "estimate_source_tokens source_text =
     (case utf8_size source_text of None \<Rightarrow> Inl LlmUnicodeEncodeError | Some n \<Rightarrow> Inr (n + 2048))"

definition compile_okf ::
    "crypto_ops \<Rightarrow> string \<times> string \<Rightarrow> usage_dimensions \<Rightarrow> string \<Rightarrow> unicode \<Rightarrow> int \<Rightarrow> (llm_db \<Rightarrow> egress_check \<times> llm_db) \<Rightarrow>
     (llm_db \<Rightarrow> 'c provider_reply \<times> llm_db) \<Rightarrow> timestamp \<Rightarrow> timestamp \<Rightarrow> uuid \<Rightarrow> llm_db \<Rightarrow>
     'c llm_result llm_outcome" where
  "compile_okf co client d key source_text max_out before_egress call now fin uid db =
     governed_call co client d key (estimate_source_tokens source_text) max_out before_egress call now fin uid db"

section \<open>Closed forms of the loops\<close>

lemma day_of_month_range: "1 \<le> day_of_month d \<and> day_of_month d \<le> 31"
proof -
  have b: "0 \<le> x - (153 * ((5 * x + 2) div 153) + 2) div 5 \<and> x - (153 * ((5 * x + 2) div 153) + 2) div 5 \<le> 30" for x :: int
  proof -
    define q where "q = (5 * x + 2) div 153"
    define r where "r = (153 * q + 2) div 5"
    have "153 * q \<le> 5 * x + 2" "5 * x + 2 < 153 * q + 153" unfolding q_def by linarith+
    moreover have "5 * r \<le> 153 * q + 2" "153 * q + 2 < 5 * r + 5" unfolding r_def by linarith+
    ultimately show ?thesis unfolding q_def[symmetric] r_def[symmetric] by linarith
  qed
  define y where "y = (d + 719468) mod 146097 - (365 * (((d + 719468) mod 146097 - (d + 719468) mod 146097 div 1460 +
      (d + 719468) mod 146097 div 36524 - (d + 719468) mod 146097 div 146096) div 365) +
      (((d + 719468) mod 146097 - (d + 719468) mod 146097 div 1460 +
      (d + 719468) mod 146097 div 36524 - (d + 719468) mod 146097 div 146096) div 365) div 4 -
      (((d + 719468) mod 146097 - (d + 719468) mod 146097 div 1460 +
      (d + 719468) mod 146097 div 36524 - (d + 719468) mod 146097 div 146096) div 365) div 100)"
  have "day_of_month d = y - (153 * ((5 * y + 2) div 153) + 2) div 5 + 1"
    unfolding day_of_month_def Let_def y_def ..
  with b[of y] show ?thesis by linarith
qed

lemma locked_counters_simps [simp]:
  "locked_counters [] cs = cs"
  "locked_counters (k # ks) cs =
     locked_counters ks (if \<exists>c \<in> set cs. bc_key c = k then cs else cs @ [zero_counter k])"
  by (simp_all add: locked_counters_def)

lemma bc_key_zero [simp]: "bc_key (zero_counter k) = k"
  by (simp add: bc_key_def zero_counter_def)

lemma locked_counters_form:
  "\<exists>new. locked_counters ks cs = cs @ map zero_counter new \<and> distinct new \<and>
     set new = set ks - bc_key ` set cs"
proof (induction ks arbitrary: cs)
  case Nil
  then show ?case by (intro exI[of _ "[]"]) simp
next
  case (Cons k ks)
  show ?case
  proof (cases "\<exists>c \<in> set cs. bc_key c = k")
    case True
    then have "k \<in> bc_key ` set cs" by blast
    with Cons[of cs] True show ?thesis by auto
  next
    case False
    then have k: "k \<notin> bc_key ` set cs" by blast
    obtain new where "locked_counters ks (cs @ [zero_counter k]) = (cs @ [zero_counter k]) @ map zero_counter new"
      "distinct new" "set new = set ks - bc_key ` set (cs @ [zero_counter k])"
      using Cons[of "cs @ [zero_counter k]"] by blast
    with False k show ?thesis by (intro exI[of _ "k # new"]) auto
  qed
qed

lemma keyed_locked_counters:
  assumes "keyed bc_key cs"
  shows "keyed bc_key (locked_counters ks cs)"
proof -
  obtain new where n: "locked_counters ks cs = cs @ map zero_counter new" "distinct new"
    "set new = set ks - bc_key ` set cs" using locked_counters_form by blast
  have "map bc_key (map zero_counter new) = new" by (simp add: comp_def)
  with n assms show ?thesis unfolding keyed_def by (auto simp: comp_def)
qed

lemma find_counter_in: "find_counter cs k = Some c \<Longrightarrow> c \<in> set cs \<and> bc_key c = k"
  by (auto simp: find_counter_def dest: find_Some_in_set)

lemma find_counter_keyed: "keyed bc_key cs \<Longrightarrow> c \<in> set cs \<Longrightarrow> bc_key c = k \<Longrightarrow> find_counter cs k = Some c"
  using keyed_find[of bc_key cs c] by (auto simp: find_counter_def)

lemma fold_r_check: "fold_r f () xs = Inr u \<longleftrightarrow> (\<forall>x \<in> set xs. f () x = Inr ())"
  by (induction xs) (auto simp: result_simps)

definition hold_row :: "uuid \<Rightarrow> int \<Rightarrow> int \<Rightarrow> window_reservation \<Rightarrow> llm_usage_budget_hold" where
  "hold_row uid tokens cost item =
     \<lparr>bh_usage_id = uid, bh_policy_id = bp_id (wr_policy item), bh_window_kind = wr_window_kind item,
      bh_window_start = wr_window_start item, bh_reserved_token_count = tokens,
      bh_reserved_cost_micro_usd = cost\<rparr>"

definition add_reserved :: "int \<Rightarrow> int \<Rightarrow> llm_budget_counter \<Rightarrow> llm_budget_counter" where
  "add_reserved tokens cost c = c\<lparr>bc_reserved_token_count := bc_reserved_token_count c + tokens,
     bc_reserved_cost_micro_usd := bc_reserved_cost_micro_usd c + cost\<rparr>"

lemma bc_key_updates [simp]:
  "bc_key (add_reserved t c x) = bc_key x" "bc_key (settle_counter t c h x) = bc_key x"
  by (simp_all add: bc_key_def add_reserved_def settle_counter_def)

lemma bh_key_hold_row [simp]: "bh_key (hold_row uid t c i) = wr_key i" "bh_usage_id (hold_row uid t c i) = uid"
  "bh_reserved_token_count (hold_row uid t c i) = t" "bh_reserved_cost_micro_usd (hold_row uid t c i) = c"
  by (simp_all add: hold_row_def bh_key_def wr_key_def)

lemma hold_windows_form:
  assumes "distinct (map wr_key items)"
  shows "foldl (hold_window uid tokens cost) db items =
    db\<lparr>g_counters := update_where (\<lambda>c. bc_key c \<in> wr_key ` set items) (add_reserved tokens cost) (g_counters db),
       g_holds := g_holds db @ map (hold_row uid tokens cost) items\<rparr>"
  using assms
proof (induction items arbitrary: db)
  case Nil
  then show ?case by (simp add: update_where_none)
next
  case (Cons i items)
  have upd: "update_where (\<lambda>c. bc_key c \<in> wr_key ` set items) (add_reserved tokens cost)
      (update_where (\<lambda>c. bc_key c = wr_key i) (add_reserved tokens cost) rows) =
      update_where (\<lambda>c. bc_key c \<in> wr_key ` set (i # items)) (add_reserved tokens cost) rows" for rows
    using Cons.prems by (induction rows) auto
  have "hold_window uid tokens cost db i =
    db\<lparr>g_counters := update_where (\<lambda>c. bc_key c = wr_key i) (add_reserved tokens cost) (g_counters db),
       g_holds := g_holds db @ [hold_row uid tokens cost i]\<rparr>"
    by (simp add: hold_window_def hold_row_def add_reserved_def[abs_def])
  with Cons upd show ?case by simp
qed

lemma settle_fold_form:
  assumes "distinct (map bh_key hs)" "\<And>h. h \<in> set hs \<Longrightarrow> bh_key h \<in> bc_key ` set cs"
  shows "fold_r (settle_hold ut uc) cs hs = Inr (map (\<lambda>c.
     case find (\<lambda>h. bh_key h = bc_key c) hs of None \<Rightarrow> c | Some h \<Rightarrow> settle_counter ut uc h c) cs)"
  using assms
proof (induction hs arbitrary: cs)
  case Nil
  then show ?case by simp
next
  case (Cons h hs)
  let ?cs = "update_where (\<lambda>c. bc_key c = bh_key h) (settle_counter ut uc h) cs"
  have "bh_key h \<in> bc_key ` set cs" using Cons.prems(2) by simp
  then have "settle_hold ut uc cs h = Inr ?cs"
    unfolding settle_hold_def find_counter_def using find_ex_iff[of "\<lambda>c. bc_key c = bh_key h" cs]
    by (auto simp: image_iff split: option.split)
  moreover have "fold_r (settle_hold ut uc) ?cs hs = Inr (map (\<lambda>c.
     case find (\<lambda>h. bh_key h = bc_key c) hs of None \<Rightarrow> c | Some h \<Rightarrow> settle_counter ut uc h c) ?cs)"
    using Cons.prems by (intro Cons.IH) (simp_all add: key_image_update_where)
  moreover have none: "find (\<lambda>x. bh_key x = bh_key h) hs = None"
    using Cons.prems(1) by (auto simp: find_None_iff image_iff)
  then have "map (\<lambda>c. case find (\<lambda>h. bh_key h = bc_key c) hs of None \<Rightarrow> c | Some h \<Rightarrow> settle_counter ut uc h c) ?cs =
      map (\<lambda>c. case find (\<lambda>h. bh_key h = bc_key c) (h # hs) of None \<Rightarrow> c | Some h \<Rightarrow> settle_counter ut uc h c) cs"
    by (auto simp: update_where_def)
  ultimately show ?case by simp
qed

section \<open>Sums over holds\<close>

lemma sum_rows_perm: "mset xs = mset ys \<Longrightarrow> sum_rows p v xs = sum_rows p v ys"
  unfolding sum_rows_def by (metis mset_filter mset_map sum_mset_sum_list)

lemma sum_rows_filter: "sum_rows p v (filter q rows) = sum_rows (\<lambda>r. q r \<and> p r) v rows"
  by (induction rows) auto

lemma sum_rows_split: "sum_rows p v rows = sum_rows (\<lambda>r. p r \<and> \<not> q r) v rows + sum_rows (\<lambda>r. p r \<and> q r) v rows"
  by (induction rows) auto

lemma sum_rows_distinct_key:
  "distinct (map k rows) \<Longrightarrow> sum_rows (\<lambda>r. k r = a) v rows = (case find (\<lambda>r. k r = a) rows of None \<Rightarrow> 0 | Some r \<Rightarrow> v r)"
proof (induction rows)
  case Nil
  then show ?case by simp
next
  case (Cons r rows)
  then have "k r = a \<Longrightarrow> sum_rows (\<lambda>r. k r = a) v rows = 0"
    by (intro sum_rows_none) (auto simp: image_iff)
  with Cons show ?case by auto
qed

definition hold_id :: "llm_usage_budget_hold \<Rightarrow> uuid \<times> uuid \<times> window_kind" where
  "hold_id h = (bh_usage_id h, bh_policy_id h, bh_window_kind h)"

definition own_sum :: "(llm_usage_budget_hold \<Rightarrow> int) \<Rightarrow> uuid \<Rightarrow> budget_key \<Rightarrow> llm_db \<Rightarrow> int" where
  "own_sum v uid q db = sum_rows (\<lambda>h. bh_key h = q \<and> bh_usage_id h = uid) v (g_holds db)"

lemma mset_holds_of: "mset (holds_of uid db) = mset (filter (\<lambda>h. bh_usage_id h = uid) (g_holds db))"
  by (simp add: holds_of_def)

lemma set_holds_of: "set (holds_of uid db) = {h \<in> set (g_holds db). bh_usage_id h = uid}"
  by (simp add: holds_of_def)

lemma distinct_holds_of:
  assumes "keyed hold_id (g_holds db)"
  shows "distinct (map bh_key (holds_of uid db))"
proof -
  have d: "distinct (g_holds db)" "inj_on hold_id (set (g_holds db))"
    using assms by (simp_all add: keyed_def distinct_map)
  have "distinct (holds_of uid db)" using d(1) by (simp add: holds_of_def)
  moreover have "inj_on bh_key (set (holds_of uid db))"
    using d(2) unfolding inj_on_def set_holds_of hold_id_def bh_key_def by auto
  ultimately show ?thesis by (simp add: distinct_map)
qed

lemma own_sum_find:
  assumes "keyed hold_id (g_holds db)"
  shows "(case find (\<lambda>h. bh_key h = q) (holds_of uid db) of None \<Rightarrow> 0 | Some h \<Rightarrow> v h) = own_sum v uid q db"
proof -
  have "sum_rows (\<lambda>h. bh_key h = q) v (holds_of uid db) = own_sum v uid q db"
    unfolding own_sum_def sum_rows_perm[OF mset_holds_of] sum_rows_filter by (metis (mono_tags, lifting) sum_rows_cong)
  with sum_rows_distinct_key[OF distinct_holds_of[OF assms]] show ?thesis by metis
qed

section \<open>The invariant\<close>

definition open_status :: "llm_usage_status \<Rightarrow> bool" where
  "open_status st \<longleftrightarrow> st = LLM_HELD \<or> st = LLM_INDETERMINATE"

definition usage_open :: "llm_db \<Rightarrow> uuid \<Rightarrow> bool" where
  "usage_open db uid \<longleftrightarrow> (\<exists>r \<in> set (g_usage db). lu_id r = uid \<and> open_status (lu_status r))"

definition open_sum :: "(llm_usage_budget_hold \<Rightarrow> int) \<Rightarrow> budget_key \<Rightarrow> llm_db \<Rightarrow> int" where
  "open_sum v q db = sum_rows (\<lambda>h. bh_key h = q \<and> usage_open db (bh_usage_id h)) v (g_holds db)"

definition counter_ok :: "llm_db \<Rightarrow> llm_budget_counter \<Rightarrow> bool" where
  "counter_ok db c \<longleftrightarrow> 0 \<le> bc_used_token_count c \<and> 0 \<le> bc_used_cost_micro_usd c \<and>
     bc_reserved_token_count c = open_sum bh_reserved_token_count (bc_key c) db \<and>
     bc_reserved_cost_micro_usd c = open_sum bh_reserved_cost_micro_usd (bc_key c) db"

definition hold_ok :: "llm_db \<Rightarrow> llm_usage_budget_hold \<Rightarrow> bool" where
  "hold_ok db h \<longleftrightarrow> 0 \<le> bh_reserved_token_count h \<and> 0 \<le> bh_reserved_cost_micro_usd h \<and>
     bh_usage_id h \<in> lu_id ` set (g_usage db) \<and> bh_key h \<in> bc_key ` set (g_counters db)"

definition usage_ok :: "llm_usage_record \<Rightarrow> bool" where
  "usage_ok r \<longleftrightarrow> llm_usage_record_checks r \<and> 0 \<le> lu_input_price r \<and> 0 \<le> lu_output_price r"

definition llm_inv :: "llm_db \<Rightarrow> bool" where
  "llm_inv db \<longleftrightarrow> keyed bc_key (g_counters db) \<and> keyed lu_id (g_usage db) \<and> keyed hold_id (g_holds db) \<and>
     keyed bp_id (g_policies db) \<and> list_all llm_model_price_checks (g_prices db) \<and>
     list_all (counter_ok db) (g_counters db) \<and> list_all (hold_ok db) (g_holds db) \<and>
     list_all usage_ok (g_usage db)"

lemma llm_invD:
  assumes "llm_inv db"
  shows "keyed bc_key (g_counters db)" "keyed lu_id (g_usage db)" "keyed hold_id (g_holds db)"
    "keyed bp_id (g_policies db)" "p \<in> set (g_prices db) \<Longrightarrow> llm_model_price_checks p"
    "c \<in> set (g_counters db) \<Longrightarrow> counter_ok db c" "h \<in> set (g_holds db) \<Longrightarrow> hold_ok db h"
    "r \<in> set (g_usage db) \<Longrightarrow> usage_ok r"
  using assms unfolding llm_inv_def list_all_iff by blast+

lemma llm_invI:
  "keyed bc_key (g_counters db) \<Longrightarrow> keyed lu_id (g_usage db) \<Longrightarrow> keyed hold_id (g_holds db) \<Longrightarrow>
   keyed bp_id (g_policies db) \<Longrightarrow> (\<And>p. p \<in> set (g_prices db) \<Longrightarrow> llm_model_price_checks p) \<Longrightarrow>
   (\<And>c. c \<in> set (g_counters db) \<Longrightarrow> counter_ok db c) \<Longrightarrow> (\<And>h. h \<in> set (g_holds db) \<Longrightarrow> hold_ok db h) \<Longrightarrow>
   (\<And>r. r \<in> set (g_usage db) \<Longrightarrow> usage_ok r) \<Longrightarrow> llm_inv db"
  unfolding llm_inv_def list_all_iff by blast

lemma open_sum_nonneg:
  assumes "llm_inv db" "\<And>h. hold_ok db h \<Longrightarrow> 0 \<le> v h"
  shows "0 \<le> open_sum v q db"
  unfolding open_sum_def using assms llm_invD(7) by (intro sum_rows_nonneg) blast

lemma own_sum_nonneg:
  assumes "llm_inv db" "\<And>h. hold_ok db h \<Longrightarrow> 0 \<le> v h"
  shows "0 \<le> own_sum v uid q db"
  unfolding own_sum_def using assms llm_invD(7) by (intro sum_rows_nonneg) blast

lemma counter_checks_of_inv: "llm_inv db \<Longrightarrow> c \<in> set (g_counters db) \<Longrightarrow> llm_budget_counter_checks c"
  using llm_invD(6)[of db c] open_sum_nonneg[of db bh_reserved_token_count "bc_key c"]
    open_sum_nonneg[of db bh_reserved_cost_micro_usd "bc_key c"]
  by (simp add: counter_ok_def llm_budget_counter_checks_def hold_ok_def)

section \<open>Closing a usage\<close>

definition close_counter ::
    "int \<Rightarrow> int \<Rightarrow> llm_usage_budget_hold list \<Rightarrow> llm_budget_counter \<Rightarrow> llm_budget_counter" where
  "close_counter ut uc hs c =
     (case find (\<lambda>h. bh_key h = bc_key c) hs of None \<Rightarrow> c | Some h \<Rightarrow> settle_counter ut uc h c)"

lemma bc_key_close [simp]: "bc_key (close_counter ut uc hs c) = bc_key c"
  by (simp add: close_counter_def split: option.split)

lemma settle_holds_form:
  assumes "llm_inv db"
  shows "settle_holds uid ut uc db =
    Inr (db\<lparr>g_counters := map (close_counter ut uc (holds_of uid db)) (g_counters db)\<rparr>)"
proof -
  have "fold_r (settle_hold ut uc) (g_counters db) (holds_of uid db) =
      Inr (map (close_counter ut uc (holds_of uid db)) (g_counters db))"
    unfolding close_counter_def
    using distinct_holds_of[OF llm_invD(3)[OF assms]] llm_invD(7)[OF assms]
    by (intro settle_fold_form) (auto simp: set_holds_of hold_ok_def)
  then show ?thesis by (simp add: settle_holds_def)
qed

lemma usage_open_write:
  assumes "keyed lu_id (g_usage db)" "r \<in> set (g_usage db)" "lu_id r' = lu_id r"
  shows "usage_open (write_usage r' (db\<lparr>g_counters := cs\<rparr>)) u \<longleftrightarrow>
    (if u = lu_id r then open_status (lu_status r') else usage_open db u)"
  using assms keyed_unique[OF assms(1)] unfolding usage_open_def write_usage_def
  by (auto simp: set_update_where image_iff split: if_splits)

lemma open_sum_close:
  assumes "keyed lu_id (g_usage db)" "r \<in> set (g_usage db)" "lu_id r' = lu_id r"
    "open_status (lu_status r)" "\<not> open_status (lu_status r')"
  shows "open_sum v q (write_usage r' (db\<lparr>g_counters := cs\<rparr>)) = open_sum v q db - own_sum v (lu_id r) q db"
proof -
  let ?db = "write_usage r' (db\<lparr>g_counters := cs\<rparr>)"
  have op: "usage_open db (lu_id r)" using assms by (auto simp: usage_open_def)
  have holds: "g_holds ?db = g_holds db" by (simp add: write_usage_def)
  have "open_sum v q ?db = sum_rows (\<lambda>h. (bh_key h = q \<and> usage_open db (bh_usage_id h)) \<and> \<not> bh_usage_id h = lu_id r) v (g_holds db)"
    unfolding open_sum_def holds using usage_open_write[OF assms(1-3)] assms(5) by (intro sum_rows_cong) auto
  moreover have "own_sum v (lu_id r) q db =
      sum_rows (\<lambda>h. (bh_key h = q \<and> usage_open db (bh_usage_id h)) \<and> bh_usage_id h = lu_id r) v (g_holds db)"
    unfolding own_sum_def using op by (intro sum_rows_cong) auto
  ultimately show ?thesis
    unfolding open_sum_def
    using sum_rows_split[of "\<lambda>h. bh_key h = q \<and> usage_open db (bh_usage_id h)" v "g_holds db" "\<lambda>h. bh_usage_id h = lu_id r"]
    by simp
qed

lemma open_sum_other:
  assumes "keyed lu_id (g_usage db)" "r \<in> set (g_usage db)" "lu_id r' = lu_id r"
    "open_status (lu_status r') = open_status (lu_status r)"
  shows "open_sum v q (write_usage r' db) = open_sum v q db"
proof -
  have "usage_open (write_usage r' db) u = usage_open db u" for u
    using usage_open_write[OF assms(1-3), of "g_counters db"] assms keyed_unique[OF assms(1)]
    by (auto simp: usage_open_def)
  then show ?thesis by (simp add: open_sum_def write_usage_def)
qed

lemma write_usage_frame [simp]:
  "g_counters (write_usage r db) = g_counters db" "g_holds (write_usage r db) = g_holds db"
  "g_policies (write_usage r db) = g_policies db" "g_prices (write_usage r db) = g_prices db"
  "g_usage (write_usage r db) = update_where (\<lambda>x. lu_id x = lu_id r) (\<lambda>_. r) (g_usage db)"
  by (simp_all add: write_usage_def)

lemma lu_ids_write [simp]:
  "lu_id ` set (update_where (\<lambda>x. lu_id x = lu_id r) (\<lambda>_. r) rows) = lu_id ` set rows"
  "keyed lu_id (update_where (\<lambda>x. lu_id x = lu_id r) (\<lambda>_. r) rows) = keyed lu_id rows"
  by (rule key_image_update_where, simp) (rule keyed_update_where, simp)

lemma close_counter_ok:
  assumes inv: "llm_inv db" and r: "r \<in> set (g_usage db)" "lu_id r' = lu_id r"
    and st: "open_status (lu_status r)" "\<not> open_status (lu_status r')"
    and nn: "0 \<le> ut" "0 \<le> uc" and c: "c \<in> set (g_counters db)"
  shows "counter_ok (write_usage r' (db\<lparr>g_counters := cs\<rparr>)) (close_counter ut uc (holds_of (lu_id r) db) c)"
proof -
  note ok = llm_invD(6)[OF inv c] and os = open_sum_close[OF llm_invD(2)[OF inv] r st]
  note own = own_sum_find[OF llm_invD(3)[OF inv], where uid = "lu_id r" and q = "bc_key c"]
  have le: "0 \<le> open_sum v (bc_key c) db - own_sum v (lu_id r) (bc_key c) db" if v: "\<And>h. hold_ok db h \<Longrightarrow> 0 \<le> v h" for v
  proof -
    have "0 \<le> sum_rows (\<lambda>h. bh_key h = bc_key c \<and> usage_open (write_usage r' (db\<lparr>g_counters := cs\<rparr>)) (bh_usage_id h)) v (g_holds db)"
      using llm_invD(7)[OF inv] v by (intro sum_rows_nonneg) blast
    then show ?thesis using os[of v "bc_key c" cs] by (simp add: open_sum_def)
  qed
  note le2 = le[of bh_reserved_token_count] le[of bh_reserved_cost_micro_usd]
  show ?thesis
    using ok os own[of bh_reserved_token_count] own[of bh_reserved_cost_micro_usd] le2 nn
    unfolding counter_ok_def close_counter_def
    by (auto simp: settle_counter_def bc_key_def hold_ok_def split: option.split_asm)
qed

lemma close_inv:
  assumes inv: "llm_inv db" and r: "r \<in> set (g_usage db)" "lu_id r' = lu_id r"
    and st: "open_status (lu_status r)" "\<not> open_status (lu_status r')"
    and nn: "0 \<le> ut" "0 \<le> uc" and ok: "usage_ok r'"
  shows "llm_inv (write_usage r' (db\<lparr>g_counters := map (close_counter ut uc (holds_of (lu_id r) db)) (g_counters db)\<rparr>))"
    (is "llm_inv ?db")
proof (rule llm_invI)
  show "keyed bc_key (g_counters ?db)" using llm_invD(1)[OF inv] by (simp add: keyed_def comp_def)
  show "counter_ok ?db c" if "c \<in> set (g_counters ?db)" for c
    using that close_counter_ok[OF inv r st nn] by auto
  show "hold_ok ?db h" if "h \<in> set (g_holds ?db)" for h
    using llm_invD(7)[OF inv, of h] that by (simp add: hold_ok_def image_image)
  show "usage_ok x" if "x \<in> set (g_usage ?db)" for x
    using llm_invD(8)[OF inv, of x] that ok by (auto simp: set_update_where)
qed (use llm_invD[OF inv] in simp_all)

lemma find_usageD: "find_usage db uid = Some r \<Longrightarrow> r \<in> set (g_usage db) \<and> lu_id r = uid"
  by (auto simp: find_usage_def dest: find_Some_in_set)

lemma find_usage_keyed: "keyed lu_id (g_usage db) \<Longrightarrow> r \<in> set (g_usage db) \<Longrightarrow> find_usage db (lu_id r) = Some r"
  unfolding find_usage_def by (rule keyed_find)

lemma usage_cost_nonneg:
  "0 \<le> i \<Longrightarrow> 0 \<le> out \<Longrightarrow> 0 \<le> ip \<Longrightarrow> 0 \<le> op \<Longrightarrow> 0 \<le> usage_cost i out ip op"
proof -
  assume a: "0 \<le> i" "0 \<le> out" "0 \<le> ip" "0 \<le> op"
  have "0 \<le> i * ip" "0 \<le> out * op" using a by simp_all
  then show ?thesis by (simp add: usage_cost_def price_denominator_def Let_def)
qed

definition settled_record :: "int \<Rightarrow> int \<Rightarrow> timestamp \<Rightarrow> llm_usage_record \<Rightarrow> llm_usage_record" where
  "settled_record i out now r = r\<lparr>lu_actual_input_tokens := Some i, lu_actual_output_tokens := Some out,
     lu_actual_token_count := Some (i + out),
     lu_actual_cost_micro_usd := Some (usage_cost i out (lu_input_price r) (lu_output_price r)),
     lu_status := LLM_SETTLED, lu_settled_at := Some now\<rparr>"

definition closed_record :: "llm_usage_status \<Rightarrow> string \<Rightarrow> timestamp \<Rightarrow> llm_usage_record \<Rightarrow> llm_usage_record" where
  "closed_record st code now r = r\<lparr>lu_status := st, lu_error_code := Some (take 100 code), lu_settled_at := Some now\<rparr>"

definition close_usage :: "int \<Rightarrow> int \<Rightarrow> llm_usage_record \<Rightarrow> llm_usage_record \<Rightarrow> llm_db \<Rightarrow> llm_db" where
  "close_usage ut uc r r' db =
     write_usage r' (db\<lparr>g_counters := map (close_counter ut uc (holds_of (lu_id r) db)) (g_counters db)\<rparr>)"

lemma record_ids [simp]:
  "lu_id (settled_record i out now r) = lu_id r" "lu_id (closed_record st code now r) = lu_id r"
  "lu_status (settled_record i out now r) = LLM_SETTLED" "lu_status (closed_record st code now r) = st"
  by (simp_all add: settled_record_def closed_record_def)

lemma open_status_simps [simp]:
  "open_status LLM_HELD" "open_status LLM_INDETERMINATE" "\<not> open_status LLM_SETTLED" "\<not> open_status LLM_RELEASED"
  by (simp_all add: open_status_def)

lemma usage_ok_records:
  "usage_ok r \<Longrightarrow> 0 \<le> i \<Longrightarrow> 0 \<le> out \<Longrightarrow> usage_ok (settled_record i out now r)"
  "usage_ok r \<Longrightarrow> usage_ok (closed_record st code now r)"
  by (simp_all add: usage_ok_def llm_usage_record_checks_def settled_record_def closed_record_def
      non_negative_opt_def usage_cost_nonneg)

text \<open>The rows that a settlement writes fit their columns.\<close>

definition settlement_fits :: "int \<Rightarrow> int \<Rightarrow> timestamp \<Rightarrow> llm_usage_record \<Rightarrow> llm_db \<Rightarrow> bool" where
  "settlement_fits i out now r db \<longleftrightarrow> usage_fits (settled_record i out now r) \<and>
     list_all counter_fits (map (close_counter (i + out) (usage_cost i out (lu_input_price r) (lu_output_price r))
       (holds_of (lu_id r) db)) (g_counters db))"

lemma settle_usage_held:
  assumes inv: "llm_inv db" and r: "find_usage db uid = Some r" "lu_status r = LLM_HELD" and nn: "0 \<le> i" "0 \<le> out"
  shows "settle_usage uid i out now db = (if settlement_fits i out now r db then Inr (settled_record i out now r,
      close_usage (i + out) (usage_cost i out (lu_input_price r) (lu_output_price r)) r (settled_record i out now r) db)
      else Inl LlmDataError)"
    and "llm_inv (close_usage (i + out) (usage_cost i out (lu_input_price r) (lu_output_price r)) r
      (settled_record i out now r) db)"
proof -
  note rin = find_usageD[OF r(1)]
  show "settle_usage uid i out now db = (if settlement_fits i out now r db then Inr (settled_record i out now r,
      close_usage (i + out) (usage_cost i out (lu_input_price r) (lu_output_price r)) r (settled_record i out now r) db)
      else Inl LlmDataError)"
    using r nn settle_holds_form[OF inv]
    by (simp add: settle_usage_def locked_record_def Let_def close_usage_def settled_record_def settlement_fits_def)
  have ok: "usage_ok r" using llm_invD(8)[OF inv] rin by blast
  show "llm_inv (close_usage (i + out) (usage_cost i out (lu_input_price r) (lu_output_price r)) r
      (settled_record i out now r) db)"
    unfolding close_usage_def using rin r nn ok
    by (intro close_inv[OF inv]) (auto simp: usage_ok_records usage_cost_nonneg usage_ok_def[of r])
qed

lemma release_usage_held:
  assumes inv: "llm_inv db" and r: "find_usage db uid = Some r" "lu_status r = LLM_HELD"
  shows "release_usage uid code now db = Inr (closed_record LLM_RELEASED code now r,
      close_usage 0 0 r (closed_record LLM_RELEASED code now r) db)"
    and "llm_inv (close_usage 0 0 r (closed_record LLM_RELEASED code now r) db)"
proof -
  note rin = find_usageD[OF r(1)]
  show "release_usage uid code now db = Inr (closed_record LLM_RELEASED code now r,
      close_usage 0 0 r (closed_record LLM_RELEASED code now r) db)"
    using r settle_holds_form[OF inv]
    by (simp add: release_usage_def locked_record_def Let_def close_usage_def closed_record_def)
  have ok: "usage_ok r" using llm_invD(8)[OF inv] rin by blast
  show "llm_inv (close_usage 0 0 r (closed_record LLM_RELEASED code now r) db)"
    unfolding close_usage_def using rin r ok by (intro close_inv[OF inv]) (auto simp: usage_ok_records)
qed

lemma write_open_inv:
  assumes inv: "llm_inv db" and r: "r \<in> set (g_usage db)" "lu_id r' = lu_id r"
    and st: "open_status (lu_status r') = open_status (lu_status r)" and ok: "usage_ok r'"
  shows "llm_inv (write_usage r' db)"
proof (rule llm_invI)
  show "counter_ok (write_usage r' db) c" if "c \<in> set (g_counters (write_usage r' db))" for c
    using that llm_invD(6)[OF inv, of c] open_sum_other[OF llm_invD(2)[OF inv] r st] by (simp add: counter_ok_def)
  show "hold_ok (write_usage r' db) h" if "h \<in> set (g_holds (write_usage r' db))" for h
    using llm_invD(7)[OF inv, of h] that by (simp add: hold_ok_def)
  show "usage_ok x" if "x \<in> set (g_usage (write_usage r' db))" for x
    using llm_invD(8)[OF inv, of x] that ok by (auto simp: set_update_where)
qed (use llm_invD[OF inv] in simp_all)

lemma mark_indeterminate_held:
  assumes inv: "llm_inv db" and r: "find_usage db uid = Some r" "lu_status r = LLM_HELD"
  shows "mark_indeterminate uid code now db = Inr (closed_record LLM_INDETERMINATE code now r,
      write_usage (closed_record LLM_INDETERMINATE code now r) db)"
    and "llm_inv (write_usage (closed_record LLM_INDETERMINATE code now r) db)"
proof -
  note rin = find_usageD[OF r(1)]
  show "mark_indeterminate uid code now db = Inr (closed_record LLM_INDETERMINATE code now r,
      write_usage (closed_record LLM_INDETERMINATE code now r) db)"
    using r by (simp add: mark_indeterminate_def locked_record_def Let_def closed_record_def)
  have ok: "usage_ok r" using llm_invD(8)[OF inv] rin by blast
  show "llm_inv (write_usage (closed_record LLM_INDETERMINATE code now r) db)"
    using rin r ok by (intro write_open_inv[OF inv, of r]) (auto simp: usage_ok_records)
qed

text \<open>What a successful settlement of any kind did.\<close>

lemma settle_usage_cases:
  assumes inv: "llm_inv db" and ok: "settle_usage uid i out now db = Inr (r', db')"
  obtains (idem) "find_usage db uid = Some r'" "lu_status r' = LLM_SETTLED" "db' = db"
  | (held) r where "find_usage db uid = Some r" "lu_status r = LLM_HELD" "0 \<le> i" "0 \<le> out"
      "r' = settled_record i out now r"
      "db' = close_usage (i + out) (usage_cost i out (lu_input_price r) (lu_output_price r)) r r' db"
proof -
  from ok have nn: "0 \<le> i" "0 \<le> out" by (auto simp: settle_usage_def split: if_split_asm)
  from ok obtain r where r: "find_usage db uid = Some r"
    by (auto simp: settle_usage_def locked_record_def split: if_split_asm option.split_asm)
  consider "lu_status r = LLM_SETTLED" | "lu_status r = LLM_HELD"
    using ok r by (auto simp: settle_usage_def locked_record_def split: if_split_asm)
  then show thesis
  proof cases
    case 1
    with ok r nn show thesis by (intro idem) (auto simp: settle_usage_def locked_record_def)
  next
    case 2
    from settle_usage_held(1)[OF inv r 2 nn] ok have "r' = settled_record i out now r"
      "db' = close_usage (i + out) (usage_cost i out (lu_input_price r) (lu_output_price r)) r r' db" by (auto split: if_split_asm)
    with r 2 nn show thesis by (intro held)
  qed
qed

lemma release_usage_cases:
  assumes inv: "llm_inv db" and ok: "release_usage uid code now db = Inr (r', db')"
  obtains (idem) "find_usage db uid = Some r'" "lu_status r' = LLM_RELEASED" "db' = db"
  | (held) r where "find_usage db uid = Some r" "lu_status r = LLM_HELD"
      "r' = closed_record LLM_RELEASED code now r" "db' = close_usage 0 0 r r' db"
proof -
  from ok obtain r where r: "find_usage db uid = Some r"
    by (auto simp: release_usage_def locked_record_def split: option.split_asm)
  consider "lu_status r = LLM_RELEASED" | "lu_status r = LLM_HELD"
    using ok r by (auto simp: release_usage_def locked_record_def split: if_split_asm)
  then show thesis
  proof cases
    case 1
    with ok r show thesis by (intro idem) (auto simp: release_usage_def locked_record_def)
  next
    case 2
    from release_usage_held(1)[OF inv r 2] ok have "r' = closed_record LLM_RELEASED code now r"
      "db' = close_usage 0 0 r r' db" by auto
    with r 2 show thesis by (intro held)
  qed
qed

lemma mark_indeterminate_cases:
  assumes ok: "mark_indeterminate uid code now db = Inr (r', db')"
  obtains (idem) "find_usage db uid = Some r'" "lu_status r' = LLM_INDETERMINATE" "db' = db"
  | (held) r where "find_usage db uid = Some r" "lu_status r = LLM_HELD"
      "r' = closed_record LLM_INDETERMINATE code now r" "db' = write_usage r' db"
proof -
  from ok obtain r where r: "find_usage db uid = Some r"
    by (auto simp: mark_indeterminate_def locked_record_def split: option.split_asm)
  consider "lu_status r = LLM_INDETERMINATE" | "lu_status r = LLM_HELD"
    using ok r by (auto simp: mark_indeterminate_def locked_record_def split: if_split_asm)
  then show thesis
  proof cases
    case 1
    with ok r show thesis by (intro idem) (auto simp: mark_indeterminate_def locked_record_def)
  next
    case 2
    with ok r have "r' = closed_record LLM_INDETERMINATE code now r" "db' = write_usage r' db"
      by (auto simp: mark_indeterminate_def locked_record_def Let_def closed_record_def)
    with r 2 show thesis by (intro held)
  qed
qed

section \<open>Reserving\<close>

lemma reservation_specs_key:
  "map wr_key (reservation_specs (p # ps) now) =
     map wr_key (reservation_specs [p] now) @ map wr_key (reservation_specs ps now)"
  by (simp add: reservation_specs_def)

definition spec_row :: "llm_budget_policy \<Rightarrow> window_kind \<Rightarrow> timestamp \<Rightarrow> window_reservation" where
  "spec_row p k now = \<lparr>wr_policy = p, wr_window_kind = k, wr_window_start = usage_window_start k now,
     wr_token_limit = fst (policy_limits p k), wr_cost_limit_micro_usd = snd (policy_limits p k)\<rparr>"

lemma in_reservation_specs:
  "w \<in> set (reservation_specs ps now) \<longleftrightarrow>
   (\<exists>p \<in> set ps. \<exists>k. policy_limits p k \<noteq> (None, None) \<and> w = spec_row p k now)"
proof -
  define F where "F p k = (case policy_limits p k of (t1, c1) \<Rightarrow> if t1 = None \<and> c1 = None then []
      else [\<lparr>wr_policy = p, wr_window_kind = k, wr_window_start = usage_window_start k now,
             wr_token_limit = t1, wr_cost_limit_micro_usd = c1\<rparr>])" for p k
  have one: "w \<in> set (F p k) \<longleftrightarrow> policy_limits p k \<noteq> (None, None) \<and> w = spec_row p k now" for p k
    unfolding F_def by (cases "policy_limits p k") (auto simp: spec_row_def)
  have two: "(\<exists>k. P k) \<longleftrightarrow> P DAY \<or> P MONTH" for P by (metis window_kind.exhaust)
  have "reservation_specs ps now = concat (map (\<lambda>p. F p DAY @ F p MONTH) ps)"
    unfolding reservation_specs_def F_def by simp
  then show ?thesis by (simp add: one two)
qed

lemma wr_key_spec_row [simp]: "wr_key (spec_row p k now) = (bp_id p, k, usage_window_start k now)"
  by (simp add: wr_key_def spec_row_def)

lemma distinct_specs:
  assumes "distinct (map bp_id ps)"
  shows "distinct (map wr_key (reservation_specs ps now))"
  using assms
proof (induction ps)
  case Nil
  then show ?case by (simp add: reservation_specs_def)
next
  case (Cons p ps)
  have one: "distinct (map wr_key (reservation_specs [p] now))"
    by (auto simp: reservation_specs_def wr_key_def split: prod.split)
  have a: "fst k = bp_id p" if "k \<in> set (map wr_key (reservation_specs [p] now))" for k
    using that by (auto simp: in_reservation_specs)
  have b: "fst k \<in> bp_id ` set ps" if "k \<in> set (map wr_key (reservation_specs ps now))" for k
    using that by (auto simp: in_reservation_specs)
  have "set (map wr_key (reservation_specs [p] now)) \<inter> set (map wr_key (reservation_specs ps now)) = {}"
  proof (rule equals0I)
    fix k assume "k \<in> set (map wr_key (reservation_specs [p] now)) \<inter> set (map wr_key (reservation_specs ps now))"
    with a[of k] b[of k] have "bp_id p \<in> bp_id ` set ps" by simp
    with Cons.prems show False by simp
  qed
  with Cons one have "distinct (map wr_key (reservation_specs [p] now) @ map wr_key (reservation_specs ps now))"
    by simp
  then show ?case by (subst reservation_specs_key)
qed

text \<open>What a successful reservation did.\<close>

definition matched_policies :: "usage_dimensions \<Rightarrow> llm_db \<Rightarrow> llm_budget_policy list" where
  "matched_policies d db = sort_key bp_id (filter (policy_matches d) (g_policies db))"

definition reserved_db :: "llm_usage_record \<Rightarrow> window_reservation list \<Rightarrow> llm_db \<Rightarrow> llm_db" where
  "reserved_db rec items db =
     db\<lparr>g_counters := update_where (\<lambda>c. bc_key c \<in> wr_key ` set items)
          (add_reserved (lu_reserved_token_count rec) (lu_reserved_cost_micro_usd rec))
          (locked_counters (map wr_key items) (g_counters db)),
        g_usage := g_usage db @ [rec],
        g_holds := g_holds db @ map (hold_row (lu_id rec) (lu_reserved_token_count rec) (lu_reserved_cost_micro_usd rec)) items\<rparr>"

lemma reserveD:
  assumes inv: "llm_inv db" and ok: "reserve_usage co d key est out now uid db = Inr (rec, db')"
  obtains price items where
    "find_usage_by_hash db (dim_tenant_key d) (idempotency_hash co d key) = None"
    "price \<in> set (g_prices db)" "rec = new_usage co d key est out price now uid"
    "items = reservation_specs (matched_policies d db) now" "distinct (map wr_key items)"
    "\<And>w. w \<in> set items \<Longrightarrow> check_window (locked_counters (map wr_key items) (g_counters db))
        (lu_reserved_token_count rec) (lu_reserved_cost_micro_usd rec) () w = Inr ()"
    "uid \<notin> lu_id ` set (g_usage db)" "db' = reserved_db rec items db" "0 \<le> est" "0 \<le> out"
    "dim_api_key_id d = None \<or> dim_api_key_credential_family_id d \<noteq> None"
proof -
  let ?ps = "take (max_matched_budget_policies + 1) (matched_policies d db)"
  from ok obtain price items0 where b: "budget_items co d key est out now db = Inr (price, items0)"
    by (auto simp: reserve_usage_def result_simps)
  then have g: "0 \<le> est" "0 \<le> out" "dim_api_key_id d = None \<or> dim_api_key_credential_family_id d \<noteq> None"
    "find_usage_by_hash db (dim_tenant_key d) (idempotency_hash co d key) = None"
    by (auto simp: budget_items_def split: if_split_asm option.split_asm)
  from b have p: "price \<in> set (g_prices db)" "length ?ps \<le> max_matched_budget_policies" "items0 = reservation_specs ?ps now"
    unfolding budget_items_def Let_def matched_policies_def
    by (auto simp: not_less split: if_split_asm option.split_asm dest!: find_Some_in_set)
  have ps: "?ps = matched_policies d db" using p(2) by (simp add: max_matched_budget_policies_def)
  have "distinct (map bp_id (matched_policies d db))"
    using keyed_filter[OF llm_invD(4)[OF inv], of "policy_matches d"] unfolding matched_policies_def keyed_def
    by (metis mset_eq_imp_distinct_iff mset_map mset_sort)
  then have dist: "distinct (map wr_key (reservation_specs (matched_policies d db) now))" by (rule distinct_specs)
  let ?rec = "new_usage co d key est out price now uid"
  have rid: "lu_id ?rec = uid" by (simp add: new_usage_def)
  have run: "checked_items ?rec (reservation_specs (matched_policies d db) now) db = Inr ()" "rec = ?rec"
    "db' = foldl (hold_window uid (lu_reserved_token_count ?rec) (lu_reserved_cost_micro_usd ?rec))
      (db\<lparr>g_counters := locked_counters (map wr_key (reservation_specs (matched_policies d db) now)) (g_counters db),
         g_usage := g_usage db @ [?rec]\<rparr>) (reservation_specs (matched_policies d db) now)"
    using ok p(3)[unfolded ps] by (auto simp: reserve_usage_def b Let_def result_simps split: if_split_asm)
  show thesis
    by (rule that[OF g(4) p(1) _ refl dist])
      (use run g rid in
        \<open>auto simp: checked_items_def result_simps fold_r_check hold_windows_form[OF dist] reserved_db_def image_iff split: if_split_asm\<close>)
qed

lemma budget_counter_locked_ok:
  assumes inv: "llm_inv db" and c: "c \<in> set (locked_counters ks (g_counters db))"
  shows "counter_ok db c"
proof -
  obtain new where n: "locked_counters ks (g_counters db) = g_counters db @ map zero_counter new"
    "set new = set ks - bc_key ` set (g_counters db)" using locked_counters_form by blast
  from c n(1) consider "c \<in> set (g_counters db)" | k where "k \<in> set new" "c = zero_counter k" by auto
  then show ?thesis
  proof cases
    case 1
    then show ?thesis by (rule llm_invD(6)[OF inv])
  next
    case 2
    with n(2) have "k \<notin> bc_key ` set (g_counters db)" by blast
    then have "open_sum v k db = 0" for v
      unfolding open_sum_def using llm_invD(7)[OF inv] by (intro sum_rows_none) (auto simp: hold_ok_def)
    with 2 show ?thesis by (simp add: counter_ok_def) (simp add: zero_counter_def)
  qed
qed

lemma reserved_db_frame [simp]:
  "g_usage (reserved_db rec items db) = g_usage db @ [rec]"
  "g_holds (reserved_db rec items db) = g_holds db @
     map (hold_row (lu_id rec) (lu_reserved_token_count rec) (lu_reserved_cost_micro_usd rec)) items"
  "g_policies (reserved_db rec items db) = g_policies db" "g_prices (reserved_db rec items db) = g_prices db"
  by (simp_all add: reserved_db_def)

lemma open_sum_reserved:
  assumes inv: "llm_inv db" and dist: "distinct (map wr_key items)" and new: "lu_id rec \<notin> lu_id ` set (g_usage db)"
    and held: "lu_status rec = LLM_HELD"
    and v: "\<And>w. v (hold_row (lu_id rec) (lu_reserved_token_count rec) (lu_reserved_cost_micro_usd rec) w) = n"
  shows "open_sum v q (reserved_db rec items db) = open_sum v q db + (if q \<in> wr_key ` set items then n else 0)"
proof -
  let ?db = "reserved_db rec items db"
  let ?rows = "map (hold_row (lu_id rec) (lu_reserved_token_count rec) (lu_reserved_cost_micro_usd rec)) items"
  have op: "usage_open ?db u \<longleftrightarrow> u = lu_id rec \<or> usage_open db u" for u
    using held by (auto simp: usage_open_def)
  have old: "sum_rows (\<lambda>h. bh_key h = q \<and> usage_open ?db (bh_usage_id h)) v (g_holds db) = open_sum v q db"
  proof -
    have "bh_usage_id h \<noteq> lu_id rec" if "h \<in> set (g_holds db)" for h
      using llm_invD(7)[OF inv that] new by (auto simp: hold_ok_def)
    then show ?thesis unfolding open_sum_def op by (intro sum_rows_cong) auto
  qed
  have "sum_rows (\<lambda>h. bh_key h = q \<and> usage_open ?db (bh_usage_id h)) v ?rows = sum_rows (\<lambda>h. bh_key h = q) v ?rows"
    by (rule sum_rows_cong) (auto simp: op)
  also have "\<dots> = (case find (\<lambda>h. bh_key h = q) ?rows of None \<Rightarrow> 0 | Some h \<Rightarrow> v h)"
    by (rule sum_rows_distinct_key) (use dist in \<open>simp add: comp_def\<close>)
  also have "\<dots> = (if q \<in> wr_key ` set items then n else 0)"
  proof (cases "find (\<lambda>h. bh_key h = q) ?rows")
    case None
    then have "q \<notin> wr_key ` set items" by (auto simp: find_None_iff)
    with None show ?thesis by simp
  next
    case (Some h)
    from find_Some_in_set[OF Some] obtain w where "w \<in> set items" "h = hold_row (lu_id rec) (lu_reserved_token_count rec)
        (lu_reserved_cost_micro_usd rec) w" "bh_key h = q" by auto
    with Some v show ?thesis by auto
  qed
  finally show ?thesis using old by (simp add: open_sum_def)
qed

lemma keyed_reserved_holds:
  assumes inv: "llm_inv db" and dist: "distinct (map (\<lambda>w. (bp_id (wr_policy w), wr_window_kind w)) items)"
    and new: "uid \<notin> lu_id ` set (g_usage db)"
  shows "keyed hold_id (g_holds db @ map (hold_row uid t c) items)"
proof -
  have id: "hold_id (hold_row uid t c w) = (uid, bp_id (wr_policy w), wr_window_kind w)" for w
    by (simp add: hold_id_def hold_row_def)
  have "distinct (map (\<lambda>w. (uid, bp_id (wr_policy w), wr_window_kind w)) items)"
    using dist by (auto simp: distinct_map inj_on_def)
  moreover have "hold_id ` set (g_holds db) \<inter> hold_id ` set (map (hold_row uid t c) items) = {}"
    using llm_invD(7)[OF inv] new by (auto simp: id hold_id_def hold_ok_def)
  ultimately show ?thesis using llm_invD(3)[OF inv] by (simp add: keyed_append) (simp add: keyed_def comp_def id)
qed

lemma specs_distinct_windows:
  assumes "distinct (map wr_key items)" "items = reservation_specs ps now"
  shows "distinct (map (\<lambda>w. (bp_id (wr_policy w), wr_window_kind w)) items)"
proof -
  have "inj_on (\<lambda>w. (bp_id (wr_policy w), wr_window_kind w)) (set items)"
  proof (rule inj_onI)
    fix x y assume xy: "x \<in> set items" "y \<in> set items"
      "(bp_id (wr_policy x), wr_window_kind x) = (bp_id (wr_policy y), wr_window_kind y)"
    then have "wr_key x = wr_key y" using assms(2) by (auto simp: in_reservation_specs spec_row_def wr_key_def)
    with assms(1) xy(1,2) show "x = y" by (simp add: distinct_map inj_on_def)
  qed
  then show ?thesis using assms(1) by (simp add: distinct_map)
qed

lemma reserved_counter_ok:
  assumes inv: "llm_inv db" and dist: "distinct (map wr_key items)" and new: "lu_id rec \<notin> lu_id ` set (g_usage db)"
    and held: "lu_status rec = LLM_HELD" and c: "c \<in> set (locked_counters (map wr_key items) (g_counters db))"
  shows "counter_ok (reserved_db rec items db) (if bc_key c \<in> wr_key ` set items
     then add_reserved (lu_reserved_token_count rec) (lu_reserved_cost_micro_usd rec) c else c)"
proof -
  note t = open_sum_reserved[OF inv dist new held, of bh_reserved_token_count "lu_reserved_token_count rec" "bc_key c"]
    and u = open_sum_reserved[OF inv dist new held, of bh_reserved_cost_micro_usd "lu_reserved_cost_micro_usd rec" "bc_key c"]
  show ?thesis
    using budget_counter_locked_ok[OF inv c] t u unfolding counter_ok_def by (simp add: add_reserved_def bc_key_def)
qed

lemma reserve_inv:
  assumes inv: "llm_inv db" and ok: "reserve_usage co d key est out now uid db = Inr (rec, db')"
  shows "llm_inv db'"
proof -
  obtain price items where price: "price \<in> set (g_prices db)" and rec: "rec = new_usage co d key est out price now uid"
    and items: "items = reservation_specs (matched_policies d db) now" and dist: "distinct (map wr_key items)"
    and new: "uid \<notin> lu_id ` set (g_usage db)" and db': "db' = reserved_db rec items db"
    and nn: "0 \<le> est" "0 \<le> out" and fam: "dim_api_key_id d = None \<or> dim_api_key_credential_family_id d \<noteq> None"
    using reserveD[OF inv ok] by metis
  have r: "lu_id rec = uid" "lu_status rec = LLM_HELD" by (simp_all add: rec new_usage_def)
  have pok: "0 \<le> mp_input_price price" "0 \<le> mp_output_price price"
    using llm_invD(5)[OF inv price] by (simp_all add: llm_model_price_checks_def)
  have uok: "usage_ok rec"
    using nn pok fam by (simp add: rec new_usage_def usage_ok_def llm_usage_record_checks_def non_negative_opt_def usage_cost_nonneg)
  then have amounts: "0 \<le> lu_reserved_token_count rec" "0 \<le> lu_reserved_cost_micro_usd rec"
    by (simp_all add: usage_ok_def llm_usage_record_checks_def)
  let ?cs = "locked_counters (map wr_key items) (g_counters db)"
  have cs: "g_counters db' = update_where (\<lambda>c. bc_key c \<in> wr_key ` set items)
      (add_reserved (lu_reserved_token_count rec) (lu_reserved_cost_micro_usd rec)) ?cs"
    by (simp add: db' reserved_db_def)
  have keys: "bc_key ` set (g_counters db') = bc_key ` set (g_counters db) \<union> wr_key ` set items"
  proof -
    obtain n where "?cs = g_counters db @ map zero_counter n" "set n = set (map wr_key items) - bc_key ` set (g_counters db)"
      using locked_counters_form by blast
    then have "bc_key ` set ?cs = bc_key ` set (g_counters db) \<union> wr_key ` set items"
      by (simp add: image_Un image_image)
    then show ?thesis unfolding cs by (subst key_image_update_where) simp_all
  qed
  show ?thesis
  proof (rule llm_invI)
    show "keyed bc_key (g_counters db')"
      unfolding cs using keyed_locked_counters[OF llm_invD(1)[OF inv]] by (subst keyed_update_where) simp_all
    show "counter_ok db' c" if "c \<in> set (g_counters db')" for c
      using that[unfolded cs set_update_where] reserved_counter_ok[OF inv dist _ r(2)] new r(1) unfolding db' by blast
    show "keyed hold_id (g_holds db')"
      using keyed_reserved_holds[OF inv specs_distinct_windows[OF dist items] new] r(1) by (simp add: db')
    show "hold_ok db' h" if "h \<in> set (g_holds db')" for h
      using that llm_invD(7)[OF inv, of h] amounts keys r unfolding db' hold_ok_def by auto
  qed (use llm_invD[OF inv] new r uok in \<open>auto simp: db' keyed_append\<close>)
qed

section \<open>Reachable ledgers\<close>

text \<open>
  Any sequence of ledger transactions, interleaved with an administrator who replaces the
  policies and prices, from an empty ledger. A refused reservation may leave counters at zero.
\<close>

inductive llm_step :: "llm_db \<Rightarrow> llm_db \<Rightarrow> bool" where
  reserve: "reserve_usage co d key est out now uid db = Inr (r, db') \<Longrightarrow> llm_step db db'"
| settle: "settle_usage uid i out now db = Inr (r, db') \<Longrightarrow> llm_step db db'"
| release: "release_usage uid code now db = Inr (r, db') \<Longrightarrow> llm_step db db'"
| indeterminate: "mark_indeterminate uid code now db = Inr (r, db') \<Longrightarrow> llm_step db db'"
| touch: "llm_step db (db\<lparr>g_counters := locked_counters ks (g_counters db)\<rparr>)"
| administer: "keyed bp_id ps \<Longrightarrow> list_all llm_model_price_checks prs \<Longrightarrow>
     llm_step db (db\<lparr>g_policies := ps, g_prices := prs\<rparr>)"

inductive llm_reachable :: "llm_db \<Rightarrow> bool" where
  start: "g_counters db = [] \<Longrightarrow> g_usage db = [] \<Longrightarrow> g_holds db = [] \<Longrightarrow> keyed bp_id (g_policies db) \<Longrightarrow>
     list_all llm_model_price_checks (g_prices db) \<Longrightarrow> llm_reachable db"
| step: "llm_reachable db \<Longrightarrow> llm_step db db' \<Longrightarrow> llm_reachable db'"

lemma administer_inv:
  assumes "llm_inv db" "keyed bp_id ps" "list_all llm_model_price_checks prs"
  shows "llm_inv (db\<lparr>g_policies := ps, g_prices := prs\<rparr>)"
  using assms unfolding llm_inv_def
  by (simp add: list_all_iff counter_ok_def hold_ok_def open_sum_def usage_open_def)

lemma touch_inv:
  assumes inv: "llm_inv db"
  shows "llm_inv (db\<lparr>g_counters := locked_counters ks (g_counters db)\<rparr>)" (is "llm_inv ?db")
proof (rule llm_invI)
  have os: "open_sum v q ?db = open_sum v q db" for v q by (simp add: open_sum_def usage_open_def)
  show "keyed bc_key (g_counters ?db)" using keyed_locked_counters[OF llm_invD(1)[OF inv]] by simp
  show "counter_ok ?db c" if "c \<in> set (g_counters ?db)" for c
    using budget_counter_locked_ok[OF inv, of c ks] that by (simp add: counter_ok_def os)
  show "hold_ok ?db h" if "h \<in> set (g_holds ?db)" for h
  proof -
    obtain n where "locked_counters ks (g_counters db) = g_counters db @ map zero_counter n" using locked_counters_form by blast
    then show ?thesis using llm_invD(7)[OF inv, of h] that by (auto simp: hold_ok_def)
  qed
qed (use llm_invD[OF inv] in simp_all)

lemma settle_usage_inv: "llm_inv db \<Longrightarrow> settle_usage uid i out now db = Inr (r', db') \<Longrightarrow> llm_inv db'"
  by (frule (1) settle_usage_cases[of db uid i out now r' db' "llm_inv db'"]) (auto intro: settle_usage_held(2))

lemma release_usage_inv: "llm_inv db \<Longrightarrow> release_usage uid code now db = Inr (r', db') \<Longrightarrow> llm_inv db'"
  by (frule (1) release_usage_cases[of db uid code now r' db' "llm_inv db'"]) (auto intro: release_usage_held(2))

lemma mark_indeterminate_inv: "llm_inv db \<Longrightarrow> mark_indeterminate uid code now db = Inr (r', db') \<Longrightarrow> llm_inv db'"
  by (erule mark_indeterminate_cases) (auto intro: mark_indeterminate_held(2))

lemma llm_step_inv:
  assumes "llm_step db db'" "llm_inv db"
  shows "llm_inv db'"
  using assms(1)
proof cases
  case (reserve co d key est out now uid r)
  then show ?thesis by (intro reserve_inv[OF assms(2)])
next
  case (settle uid i out now r)
  then show ?thesis by (intro settle_usage_inv[OF assms(2)])
next
  case (release uid code now r)
  then show ?thesis by (intro release_usage_inv[OF assms(2)])
next
  case (indeterminate uid code now r)
  then show ?thesis by (intro mark_indeterminate_inv[OF assms(2)])
next
  case (touch ks)
  then show ?thesis using touch_inv[OF assms(2)] by simp
next
  case (administer ps prs)
  then show ?thesis using administer_inv[OF assms(2)] by simp
qed

lemma llm_reachable_inv: "llm_reachable db \<Longrightarrow> llm_inv db"
proof (induction rule: llm_reachable.induct)
  case (start db)
  then show ?case by (simp add: llm_inv_def)
next
  case (step db db')
  then show ?case by (rule_tac llm_step_inv)
qed

text \<open>How the usage table changes in one step: rows are kept, and a row in a final state is kept as it is.\<close>

definition usage_kept :: "llm_usage_record \<Rightarrow> llm_usage_record \<Rightarrow> bool" where
  "usage_kept r r' \<longleftrightarrow> lu_id r' = lu_id r \<and> lu_tenant_key r' = lu_tenant_key r \<and>
     lu_idempotency_hash r' = lu_idempotency_hash r \<and> (lu_status r \<noteq> LLM_HELD \<longrightarrow> r' = r)"

lemma usage_kept_refl [simp]: "usage_kept r r"
  by (simp add: usage_kept_def)

lemma usage_kept_trans: "usage_kept a b \<Longrightarrow> usage_kept b c \<Longrightarrow> usage_kept a c"
  unfolding usage_kept_def by metis

lemma usage_kept_records:
  "lu_status r = LLM_HELD \<Longrightarrow> usage_kept r (settled_record i out now r)"
  "lu_status r = LLM_HELD \<Longrightarrow> usage_kept r (closed_record st code now r)"
  by (simp_all add: usage_kept_def settled_record_def closed_record_def)

lemma write_usage_kept:
  assumes "keyed lu_id (g_usage db)" "r \<in> set (g_usage db)" "usage_kept r r'" "x \<in> set (g_usage db)"
  shows "\<exists>x' \<in> set (update_where (\<lambda>y. lu_id y = lu_id r') (\<lambda>_. r') (g_usage db)). usage_kept x x'"
proof (cases "lu_id x = lu_id r")
  case True
  then have "x = r" using keyed_unique[OF assms(1,4,2)] by simp
  moreover have "r' \<in> set (update_where (\<lambda>y. lu_id y = lu_id r') (\<lambda>_. r') (g_usage db))"
    using assms(2,3) by (force simp: set_update_where usage_kept_def)
  ultimately show ?thesis using assms(3) by blast
next
  case False
  then have "x \<in> set (update_where (\<lambda>y. lu_id y = lu_id r') (\<lambda>_. r') (g_usage db))"
    using assms(3,4) by (force simp: set_update_where usage_kept_def)
  then show ?thesis by (rule rev_bexI) simp
qed

lemma close_usage_usage [simp]:
  "g_usage (close_usage ut uc r r' db) = update_where (\<lambda>x. lu_id x = lu_id r') (\<lambda>_. r') (g_usage db)"
  by (simp add: close_usage_def)

lemma llm_step_kept:
  assumes step: "llm_step db db'" and inv: "llm_inv db" and x: "x \<in> set (g_usage db)"
  shows "\<exists>x' \<in> set (g_usage db'). usage_kept x x'"
  using step
proof cases
  case (reserve co d key est out now uid r)
  from reserveD[OF inv reserve] obtain items where "db' = reserved_db r items db" by metis
  with x show ?thesis by (intro bexI[of _ x]) simp_all
next
  case (settle uid i out now r')
  from inv settle show ?thesis
  proof (cases rule: settle_usage_cases)
    case idem
    with x show ?thesis by (intro bexI[of _ x]) simp_all
  next
    case (held r)
    then show ?thesis
      using write_usage_kept[OF llm_invD(2)[OF inv] _ _ x, of r r'] find_usageD[OF held(1)]
      by (simp add: usage_kept_records)
  qed
next
  case (release uid code now r')
  from inv release show ?thesis
  proof (cases rule: release_usage_cases)
    case idem
    with x show ?thesis by (intro bexI[of _ x]) simp_all
  next
    case (held r)
    then show ?thesis
      using write_usage_kept[OF llm_invD(2)[OF inv] _ _ x, of r r'] find_usageD[OF held(1)]
      by (simp add: usage_kept_records)
  qed
next
  case (indeterminate uid code now r')
  from indeterminate show ?thesis
  proof (cases rule: mark_indeterminate_cases)
    case idem
    with x show ?thesis by (intro bexI[of _ x]) simp_all
  next
    case (held r)
    then show ?thesis
      using write_usage_kept[OF llm_invD(2)[OF inv] _ _ x, of r r'] find_usageD[OF held(1)]
      by (simp add: usage_kept_records)
  qed
next
  case (touch ks)
  with x show ?thesis by (intro bexI[of _ x]) simp_all
next
  case (administer ps prs)
  with x show ?thesis by (intro bexI[of _ x]) simp_all
qed

interpretation llm_run: row_evolution llm_step llm_inv g_usage usage_kept
  by unfold_locales (simp_all add: llm_step_inv llm_step_kept usage_kept_trans)

lemma llm_steps_kept:
  assumes "llm_step\<^sup>*\<^sup>* db db'" "llm_inv db" "x \<in> set (g_usage db)"
  shows "llm_inv db' \<and> (\<exists>x' \<in> set (g_usage db'). usage_kept x x')"
  using llm_run.steps_inv[OF assms(1,2)] llm_run.row_kept[OF assms] by blast

section \<open>What an open or closed call leaves behind\<close>

lemma find_usage_write:
  assumes "keyed lu_id (g_usage db)" "r \<in> set (g_usage db)" "lu_id r' = lu_id r"
  shows "find (\<lambda>x. lu_id x = lu_id r) (update_where (\<lambda>x. lu_id x = lu_id r') (\<lambda>_. r') (g_usage db)) = Some r'"
proof -
  have "find (\<lambda>x. lu_id x = lu_id r) (update_where (\<lambda>x. lu_id x = lu_id r') (\<lambda>_. r') (g_usage db)) =
      map_option (\<lambda>x. if lu_id x = lu_id r' then r' else x) (find (\<lambda>x. lu_id x = lu_id r) (g_usage db))"
    using assms(3) by (intro find_update_where_key) simp
  with keyed_find[OF assms(1,2)] assms(3) show ?thesis by simp
qed

text \<open>The reply has the shape the client can produce: its errors are built by the constructor, and its counts passed \<open>_optional_int\<close>.\<close>

definition reply_ok :: "'c provider_reply \<Rightarrow> bool" where
  "reply_ok reply = (case reply of
     ReplyProviderError e \<Rightarrow> make_provider_error (pv_code e) (pv_retryable e) (pv_metering_outcome e) (pv_prompt_tokens e) (pv_completion_tokens e) = Some e \<and>
        non_negative_opt (pv_prompt_tokens e) \<and> non_negative_opt (pv_completion_tokens e)
   | ReplyResult r \<Rightarrow> non_negative_opt (lr_prompt_tokens r) \<and> non_negative_opt (lr_completion_tokens r)
   | _ \<Rightarrow> True)"

definition call_closed :: "uuid \<Rightarrow> ((llm_error + 'a) \<times> llm_db) \<Rightarrow> bool" where
  "call_closed uid out \<longleftrightarrow> llm_inv (snd out) \<and>
     (\<exists>r. find_usage (snd out) uid = Some r \<and> lu_status r \<noteq> LLM_HELD \<and> (is_ok (fst out) \<longrightarrow> lu_status r = LLM_SETTLED))"

lemma find_closed:
  assumes "llm_inv db" "find_usage db uid = Some r" "lu_id r' = lu_id r"
  shows "find_usage (close_usage ut uc r r' db) uid = Some r'" "find_usage (write_usage r' db) uid = Some r'"
proof -
  note rin = find_usageD[OF assms(2)]
  have "find (\<lambda>x. lu_id x = lu_id r) (update_where (\<lambda>x. lu_id x = lu_id r') (\<lambda>_. r') (g_usage db)) = Some r'"
    by (rule find_usage_write[OF llm_invD(2)[OF assms(1)] _ assms(3)]) (use rin in simp)
  with rin show "find_usage (close_usage ut uc r r' db) uid = Some r'" "find_usage (write_usage r' db) uid = Some r'"
    by (simp_all add: find_usage_def)
qed

text \<open>
  A settlement that does not fit the columns: the row stays held. Otherwise a row that is held is closed, and
  a row that is not held (an operator may have released it) stays closed.
\<close>

definition metered_counts :: "'c provider_reply \<Rightarrow> (int \<times> int) option" where
  "metered_counts reply = (case reply of
     ReplyProviderError e \<Rightarrow> (case (pv_prompt_tokens e, pv_completion_tokens e) of (Some p, Some c) \<Rightarrow> Some (p, c) | _ \<Rightarrow> None)
   | ReplyResult r \<Rightarrow> (case (lr_prompt_tokens r, lr_completion_tokens r) of (Some p, Some c) \<Rightarrow> Some (p, c) | _ \<Rightarrow> None)
   | _ \<Rightarrow> None)"

definition left_unfit :: "uuid \<Rightarrow> 'c provider_reply \<Rightarrow> timestamp \<Rightarrow> ((llm_error + 'a) \<times> llm_db) \<Rightarrow> bool" where
  "left_unfit uid reply fin out \<longleftrightarrow> fst out = Inl LlmDataError \<and> llm_inv (snd out) \<and>
     (\<exists>r i c. find_usage (snd out) uid = Some r \<and> lu_status r = LLM_HELD \<and> metered_counts reply = Some (i, c) \<and>
        \<not> settlement_fits i c fin r (snd out))"

lemma settle_closed:
  assumes "llm_inv db" "find_usage db uid = Some r" "lu_status r = LLM_HELD" "0 \<le> i" "0 \<le> out" "settlement_fits i out now r db"
  shows "\<exists>r' db'. settle_usage uid i out now db = Inr (r', db') \<and> llm_inv db' \<and>
    find_usage db' uid = Some r' \<and> lu_status r' = LLM_SETTLED"
  using settle_usage_held[OF assms(1-5)] find_closed(1)[OF assms(1,2)] assms(6) by auto

lemma release_closed:
  assumes "llm_inv db" "find_usage db uid = Some r" "lu_status r = LLM_HELD"
  shows "\<exists>r' db'. release_usage uid code now db = Inr (r', db') \<and> llm_inv db' \<and>
    find_usage db' uid = Some r' \<and> lu_status r' = LLM_RELEASED"
  using release_usage_held[OF assms] find_closed(1)[OF assms(1,2)] by auto

lemma indeterminate_closed:
  assumes "llm_inv db" "find_usage db uid = Some r" "lu_status r = LLM_HELD"
  shows "\<exists>r' db'. mark_indeterminate uid code now db = Inr (r', db') \<and> llm_inv db' \<and>
    find_usage db' uid = Some r' \<and> lu_status r' = LLM_INDETERMINATE"
  using mark_indeterminate_held[OF assms] find_closed(2)[OF assms(1,2)] by auto

lemma commit_and_raise_closed:
  "\<exists>r' db'. m = Inr (r', db') \<and> llm_inv db' \<and> find_usage db' uid = Some r' \<and> lu_status r' = st \<Longrightarrow> st \<noteq> LLM_HELD \<Longrightarrow>
   call_closed uid (commit_and_raise e m db :: 'a llm_outcome)"
  by (auto simp: commit_and_raise_def call_closed_def)

lemma reconcile_closed:
  assumes inv: "llm_inv db" and r: "find_usage db uid = Some r" "lu_status r = LLM_HELD"
    and e: "reply_ok (ReplyProviderError e :: 'c provider_reply)"
  shows "call_closed uid (commit_and_raise x (reconcile_provider_error uid e now db) db :: 'a llm_outcome) \<or>
    left_unfit uid (ReplyProviderError e :: 'c provider_reply) now
      (commit_and_raise x (reconcile_provider_error uid e now db) db :: 'a llm_outcome)"
proof (cases "pv_metering_outcome e")
  case NOT_STARTED
  then show ?thesis using commit_and_raise_closed[OF release_closed[OF inv r], where ?'a = 'a] by (simp add: reconcile_provider_error_def)
next
  case KNOWN
  with e obtain p c where pc: "pv_prompt_tokens e = Some p" "pv_completion_tokens e = Some c" "0 \<le> p" "0 \<le> c"
    by (auto simp: reply_ok_def make_provider_error_def non_negative_opt_def split: if_split_asm)
  show ?thesis
  proof (cases "settlement_fits p c now r db")
    case True
    with KNOWN pc commit_and_raise_closed[OF settle_closed[OF inv r pc(3,4) True], where ?'a = 'a] show ?thesis
      by (simp add: reconcile_provider_error_def)
  next
    case False
    with KNOWN pc inv r settle_usage_held(1)[OF inv r pc(3,4), of now] show ?thesis
      by (simp add: reconcile_provider_error_def commit_and_raise_def left_unfit_def metered_counts_def)
  qed
next
  case UNKNOWN
  then show ?thesis using commit_and_raise_closed[OF indeterminate_closed[OF inv r], where ?'a = 'a]
    by (simp add: reconcile_provider_error_def)
qed

lemma finish_call_closed:
  fixes reply :: "'c provider_reply"
  assumes inv: "llm_inv db" and r: "find_usage db uid = Some r" "lu_status r = LLM_HELD" and ok: "reply_ok reply"
  shows "call_closed uid (finish_call d uid reply now db) \<or> left_unfit uid reply now (finish_call d uid reply now db)"
proof -
  note ind = commit_and_raise_closed[OF indeterminate_closed[OF inv r], where ?'a = "'c llm_result"]
  show ?thesis
  proof (cases reply)
    case (ReplyResult result)
    show ?thesis
    proof (cases "lr_provider result = dim_provider d \<and> lr_model result = dim_model d")
      case True
      show ?thesis
      proof (cases "lr_prompt_tokens result = None \<or> lr_completion_tokens result = None")
        case True
        with ReplyResult \<open>lr_provider result = dim_provider d \<and> lr_model result = dim_model d\<close> ind show ?thesis
          by (auto simp: finish_call_def split: option.split)
      next
        case False
        then obtain p c where pc: "lr_prompt_tokens result = Some p" "lr_completion_tokens result = Some c" by auto
        with ok ReplyResult have nn: "0 \<le> p" "0 \<le> c" by (auto simp: reply_ok_def non_negative_opt_def)
        show ?thesis
        proof (cases "settlement_fits p c now r db")
          case fits: True
          from settle_closed[OF inv r nn fits] pc True ReplyResult show ?thesis
            by (auto simp: finish_call_def call_closed_def)
        next
          case False
          with settle_usage_held(1)[OF inv r nn, of now] pc True ReplyResult inv r show ?thesis
            by (simp add: finish_call_def left_unfit_def metered_counts_def)
        qed
      qed
    qed (use ReplyResult ind in \<open>auto simp: finish_call_def\<close>)
  qed (use ind ok reconcile_closed[OF inv r, where ?'c = 'c and ?'a = "'c llm_result"] in \<open>auto simp: finish_call_def\<close>)
qed

lemma transitions_not_held:
  assumes "find_usage db uid = Some r" "lu_status r \<noteq> LLM_HELD"
  shows "settle_usage uid i out now db = Inr (a, db') \<Longrightarrow> db' = db \<and> lu_status r = LLM_SETTLED"
    and "release_usage uid code now db = Inr (a, db') \<Longrightarrow> db' = db"
    and "mark_indeterminate uid code now db = Inr (a, db') \<Longrightarrow> db' = db"
  using assms by (auto simp: settle_usage_def release_usage_def mark_indeterminate_def locked_record_def split: if_split_asm)

lemma commit_and_raise_not_held:
  assumes "llm_inv db" "find_usage db uid = Some r" "lu_status r \<noteq> LLM_HELD" "\<And>a db'. m = Inr (a, db') \<Longrightarrow> db' = db"
  shows "call_closed uid (commit_and_raise e m db :: 'a llm_outcome)"
  using assms by (auto simp: commit_and_raise_def call_closed_def split: sum.split)

lemma finish_call_not_held:
  assumes inv: "llm_inv db" and r: "find_usage db uid = Some r" "lu_status r \<noteq> LLM_HELD"
  shows "call_closed uid (finish_call d uid reply now db)"
proof -
  note t = transitions_not_held[OF r] and cr = commit_and_raise_not_held[OF inv r]
  have ind: "call_closed uid (commit_and_raise e (mark_indeterminate uid code now db) db)" for e code
    by (rule cr) (rule t(3))
  show ?thesis
  proof (cases reply)
    case (ReplyProviderError e)
    have "call_closed uid (commit_and_raise (LlmProviderRaised e) (reconcile_provider_error uid e now db) db)"
      by (rule cr) (auto simp: reconcile_provider_error_def dest: t split: metering_outcome.split_asm option.split_asm)
    with ReplyProviderError show ?thesis by (simp add: finish_call_def)
  next
    case (ReplyResult result)
    show ?thesis
    proof (cases "settle_usage uid (the (lr_prompt_tokens result)) (the (lr_completion_tokens result)) now db")
      case (Inl e)
      with ReplyResult inv r ind show ?thesis by (auto simp: finish_call_def call_closed_def split: option.split)
    next
      case (Inr a)
      moreover have "snd a = db" "lu_status r = LLM_SETTLED" using t(1)[of _ _ _ "fst a" "snd a"] Inr by simp_all
      ultimately show ?thesis using ReplyResult inv r ind
        by (cases a) (auto simp: finish_call_def call_closed_def split: option.split)
    qed
  qed (use ind in \<open>simp_all add: finish_call_def\<close>)
qed

text \<open>A run of other transactions keeps the row of a call, and from there the executor closes it or leaves it unfit.\<close>

lemma find_after_steps:
  assumes "llm_step\<^sup>*\<^sup>* db db'" "llm_inv db" "find_usage db uid = Some r"
  obtains r' where "find_usage db' uid = Some r'" "llm_inv db'" "usage_kept r r'"
proof -
  note rin = find_usageD[OF assms(3)]
  obtain x where x: "llm_inv db'" "x \<in> set (g_usage db')" "usage_kept r x"
    using llm_steps_kept[OF assms(1,2)] rin by blast
  with rin keyed_find[OF llm_invD(2)[OF x(1)] x(2)] have "find_usage db' uid = Some x"
    by (simp add: find_usage_def usage_kept_def)
  with x that show thesis by blast
qed

lemma finish_after_steps:
  assumes "llm_step\<^sup>*\<^sup>* db db'" "llm_inv db" "find_usage db uid = Some r" "reply_ok reply"
  shows "call_closed uid (finish_call d uid reply now db') \<or> left_unfit uid reply now (finish_call d uid reply now db')"
proof -
  obtain r' where r': "find_usage db' uid = Some r'" "llm_inv db'" using find_after_steps[OF assms(1-3)] by blast
  show ?thesis
    using finish_call_closed[OF r'(2,1) _ assms(4)] finish_call_not_held[OF r'(2,1)] by (cases "lu_status r' = LLM_HELD") blast+
qed

lemma release_after_steps:
  assumes "llm_inv db" "find_usage db uid = Some r"
  shows "call_closed uid (commit_and_raise e (release_usage uid code now db) db :: 'a llm_outcome)"
proof (cases "lu_status r = LLM_HELD")
  case True
  then show ?thesis using commit_and_raise_closed[OF release_closed[OF assms]] by simp
next
  case False
  show ?thesis by (rule commit_and_raise_not_held[OF assms False]) (rule transitions_not_held(2)[OF assms(2) False])
qed

lemma reserve_find:
  assumes inv: "llm_inv db" and ok: "reserve_usage co d key est out now uid db = Inr (rec, db')"
  shows "find_usage db' uid = Some rec" "lu_status rec = LLM_HELD" "lu_id rec = uid"
proof -
  obtain price items where r: "rec = new_usage co d key est out price now uid" "uid \<notin> lu_id ` set (g_usage db)"
    "db' = reserved_db rec items db" using reserveD[OF inv ok] by metis
  show "lu_status rec = LLM_HELD" "lu_id rec = uid" by (simp_all add: r(1) new_usage_def)
  then show "find_usage db' uid = Some rec"
    using r(2,3) by (auto simp: find_usage_def find_append find_None_iff image_iff split: option.split dest!: find_Some_in_set)
qed

lemma sorted_context:
  "sort_keys [(''tenant'', a), (''user'', b), (''api_key'', c), (''knowledge_base'', d), (''provider'', e),
     (''model'', f), (''operation'', g), (''client_key'', h)] =
   [(''api_key'', c), (''client_key'', h), (''knowledge_base'', d), (''model'', f), (''operation'', g),
    (''provider'', e), (''tenant'', a), (''user'', b)]"
  by (simp add: sort_keys_def less_eq_char_simp)

lemma find_map_key:
  "(\<And>x. k (f x) = k x) \<Longrightarrow> find (\<lambda>x. k x = q) (map f xs) = map_option f (find (\<lambda>x. k x = q) xs)"
  by (induction xs) auto

lemma find_close_counter [simp]:
  "find (\<lambda>c. bc_key c = q) (map (close_counter ut uc hs) cs) = map_option (close_counter ut uc hs) (find (\<lambda>c. bc_key c = q) cs)"
  by (rule find_map_key) simp

lemma unopened_form:
  "\<exists>keys. unopened co client d key estimate max_out now uid db = db\<lparr>g_counters := locked_counters keys (g_counters db)\<rparr>"
proof -
  have "\<exists>keys. db = db\<lparr>g_counters := locked_counters keys (g_counters db)\<rparr>" by (rule exI[of _ "[]"]) simp
  then show ?thesis
    unfolding unopened_def flushed_counters_def by (auto split: sum.split)
qed

section \<open>Properties\<close>


text \<open>C17. A granted reservation stays inside every hard budget that applies to it: for each enabled policy
  that matches the request and each of its windows, used plus reserved after the reservation is within the token limit
  and within the cost limit.\<close>

theorem llm_reserve_within_budget:
  assumes reach: "llm_reachable db" and ok: "reserve_usage co d key est out now uid db = Inr (rec, db')"
    and p: "p \<in> set (g_policies db)" "policy_matches d p" and lim: "policy_limits p k = (tok, cst)"
      "tok \<noteq> None \<or> cst \<noteq> None"
  shows "\<exists>c. find_counter (g_counters db') (bp_id p, k, usage_window_start k now) = Some c \<and>
    (\<forall>l. tok = Some l \<longrightarrow> bc_used_token_count c + bc_reserved_token_count c \<le> l) \<and>
    (\<forall>l. cst = Some l \<longrightarrow> bc_used_cost_micro_usd c + bc_reserved_cost_micro_usd c \<le> l)"
proof -
  note inv = llm_reachable_inv[OF reach]
  obtain items where items: "items = reservation_specs (matched_policies d db) now"
    and chk: "\<And>w. w \<in> set items \<Longrightarrow> check_window (locked_counters (map wr_key items) (g_counters db))
        (lu_reserved_token_count rec) (lu_reserved_cost_micro_usd rec) () w = Inr ()"
    and db': "db' = reserved_db rec items db"
    using reserveD[OF inv ok] by metis
  let ?w = "spec_row p k now" and ?cs = "locked_counters (map wr_key items) (g_counters db)"
  have w: "?w \<in> set items"
    using p lim unfolding items in_reservation_specs by (intro bexI[of _ p] exI[of _ k]) (auto simp: matched_policies_def)
  from chk[OF w] obtain c0 where c0: "find_counter ?cs (wr_key ?w) = Some c0"
    and le: "\<not> exceeds tok (bc_used_token_count c0 + bc_reserved_token_count c0 + lu_reserved_token_count rec)"
      "\<not> exceeds cst (bc_used_cost_micro_usd c0 + bc_reserved_cost_micro_usd c0 + lu_reserved_cost_micro_usd rec)"
    using lim(1) by (auto simp: check_window_def spec_row_def split: option.split_asm if_split_asm)
  have "find_counter (g_counters db') (wr_key ?w) =
      Some (add_reserved (lu_reserved_token_count rec) (lu_reserved_cost_micro_usd rec) c0)"
  proof -
    have "find (\<lambda>c. bc_key c = wr_key ?w) (update_where (\<lambda>c. bc_key c \<in> wr_key ` set items)
        (add_reserved (lu_reserved_token_count rec) (lu_reserved_cost_micro_usd rec)) ?cs) =
      map_option (\<lambda>c. if bc_key c \<in> wr_key ` set items
        then add_reserved (lu_reserved_token_count rec) (lu_reserved_cost_micro_usd rec) c else c)
        (find (\<lambda>c. bc_key c = wr_key ?w) ?cs)"
      by (rule find_update_where_key) simp
    moreover have "bc_key c0 \<in> wr_key ` set items" using w find_counter_in[OF c0] by (metis imageI)
    ultimately show ?thesis using c0 by (simp add: find_counter_def db' reserved_db_def)
  qed
  then show ?thesis using le by (auto simp: exceeds_def add_reserved_def)
qed

text \<open>A usage that left the held state never changes again: through any sequence of ledger transactions its
  row (status, actual counts, cost, error code) stays as it is, so it is charged at most once.\<close>

theorem llm_settlement_final:
  assumes "llm_reachable db" "r \<in> set (g_usage db)" "lu_status r \<noteq> LLM_HELD" "llm_step\<^sup>*\<^sup>* db db'"
  shows "r \<in> set (g_usage db')"
  using llm_steps_kept[OF assms(4) llm_reachable_inv[OF assms(1)] assms(2)] assms(3)
  by (auto simp: usage_kept_def)

text \<open>One idempotency key buys one provider call: after a reservation for a request context and key was
  granted, and after any further ledger transactions, every new reservation for the same context and key is refused
  as a duplicate.\<close>

theorem llm_idempotency_key_once:
  assumes reach: "llm_reachable db" and first: "reserve_usage co d key est out now uid db = Inr (rec, db1)"
    and later: "llm_step\<^sup>*\<^sup>* db1 db2" and args: "0 \<le> est2" "0 \<le> out2"
  shows "\<exists>u st. reserve_usage co d key est2 out2 now2 uid2 db2 = Inl (LlmUsageDuplicate u st)"
proof -
  note inv = llm_reachable_inv[OF reach]
  obtain price items where rec: "rec = new_usage co d key est out price now uid" "db1 = reserved_db rec items db"
    using reserveD[OF inv first] by metis
  have "rec \<in> set (g_usage db1)" using rec(2) by simp
  from llm_steps_kept[OF later reserve_inv[OF inv first] this] obtain x where
    "x \<in> set (g_usage db2)" "usage_kept rec x" by blast
  then have "lu_tenant_key x = dim_tenant_key d \<and> lu_idempotency_hash x = idempotency_hash co d key"
    by (simp add: usage_kept_def rec(1) new_usage_def)
  with \<open>x \<in> set (g_usage db2)\<close> obtain y where
    "find_usage_by_hash db2 (dim_tenant_key d) (idempotency_hash co d key) = Some y"
    unfolding find_usage_by_hash_def using find_ex_iff by (metis (mono_tags, lifting))
  moreover have "1 \<le> length key \<and> length key \<le> 200" "\<not> (dim_tenant_key d = [] \<or> length (dim_tenant_key d) > 100)"
    "\<not> (dim_api_key_id d \<noteq> None \<and> dim_api_key_credential_family_id d = None)"
    using first by (auto simp: reserve_usage_def budget_items_def split: if_split_asm)
  ultimately show ?thesis using args by (simp add: reserve_usage_def budget_items_def)
qed

text \<open>Idempotency keys of different requests do not collide: when two requests have the same idempotency
  digest, then unless SHA-256 itself collides on their contexts they have the same tenant, user, knowledge base,
  provider, model, operation and client key.\<close>

theorem llm_idempotency_context_unique:
  assumes "idempotency_hash co d key = idempotency_hash co d' key'"
    and "inj_on (co_sha256 co) {json_dumps (idempotency_context co d key), json_dumps (idempotency_context co d' key')}"
    and "inj (co_str_uuid co)"
  shows "dim_tenant_key d = dim_tenant_key d' \<and> dim_user_id d = dim_user_id d' \<and>
    dim_knowledge_base_id d = dim_knowledge_base_id d' \<and> dim_provider d = dim_provider d' \<and>
    dim_model d = dim_model d' \<and> dim_operation d = dim_operation d' \<and> key = key'"
proof -
  have "json_dumps (idempotency_context co d key) = json_dumps (idempotency_context co d' key')"
    using assms(1,2) by (auto simp: idempotency_hash_def dest: inj_onD)
  then have "idempotency_context co d key = idempotency_context co d' key'" by (rule json_dumps_inj)
  then show ?thesis
    using assms(3) unfolding idempotency_context_def sorted_context
    by (auto simp: opt_str_def inj_eq split: option.split_asm)
qed

text \<open>Settling a held usage moves its hold to the used side: on every window the usage holds, the reserved
  values drop by the hold and the used values grow by the actual tokens and by the cost at the prices recorded when it
  was reserved; every other counter is unchanged, and the settled row records the actual numbers. The values must fit
  their columns.\<close>

theorem llm_settle_charges_actual:
  assumes reach: "llm_reachable db" and r: "find_usage db uid = Some r" "lu_status r = LLM_HELD"
    and nn: "0 \<le> i" "0 \<le> out" and c: "find_counter (g_counters db) q = Some c" and fits: "settlement_fits i out now r db"
  shows "\<exists>r' db' c'. settle_usage uid i out now db = Inr (r', db') \<and> find_counter (g_counters db') q = Some c' \<and>
    lu_status r' = LLM_SETTLED \<and> lu_actual_token_count r' = Some (i + out) \<and>
    lu_actual_cost_micro_usd r' = Some (usage_cost i out (lu_input_price r) (lu_output_price r)) \<and>
    bc_reserved_token_count c' = bc_reserved_token_count c - own_sum bh_reserved_token_count uid q db \<and>
    bc_reserved_cost_micro_usd c' = bc_reserved_cost_micro_usd c - own_sum bh_reserved_cost_micro_usd uid q db \<and>
    bc_used_token_count c' = bc_used_token_count c +
      (if q \<in> bh_key ` {h \<in> set (g_holds db). bh_usage_id h = uid} then i + out else 0) \<and>
    bc_used_cost_micro_usd c' = bc_used_cost_micro_usd c +
      (if q \<in> bh_key ` {h \<in> set (g_holds db). bh_usage_id h = uid}
       then usage_cost i out (lu_input_price r) (lu_output_price r) else 0)"
proof -
  note inv = llm_reachable_inv[OF reach] and rin = find_usageD[OF r(1)] and cin = find_counter_in[OF c]
  let ?cost = "usage_cost i out (lu_input_price r) (lu_output_price r)"
  let ?c = "close_counter (i + out) ?cost (holds_of uid db) c"
  let ?db = "close_usage (i + out) ?cost r (settled_record i out now r) db"
  have fc: "find_counter (g_counters ?db) q = Some ?c"
    using c rin by (simp add: close_usage_def find_counter_def)
  have uok: "usage_ok r" using llm_invD(8)[OF inv] rin by blast
  have "counter_ok ?db ?c"
    unfolding close_usage_def using close_counter_ok[OF inv, of r "settled_record i out now r" "i + out" ?cost c] rin r nn cin uok
    by (simp add: usage_cost_nonneg usage_ok_def)
  moreover have "open_sum v q ?db = open_sum v q db - own_sum v uid q db" for v
    unfolding close_usage_def using open_sum_close[OF llm_invD(2)[OF inv], of r "settled_record i out now r"] rin r by simp
  ultimately have res: "bc_reserved_token_count ?c = bc_reserved_token_count c - own_sum bh_reserved_token_count uid q db"
    "bc_reserved_cost_micro_usd ?c = bc_reserved_cost_micro_usd c - own_sum bh_reserved_cost_micro_usd uid q db"
    using llm_invD(6)[OF inv, of c] cin by (simp_all add: counter_ok_def)
  have mem: "q \<in> bh_key ` {h \<in> set (g_holds db). bh_usage_id h = uid} \<longleftrightarrow> find (\<lambda>h. bh_key h = q) (holds_of uid db) \<noteq> None"
    unfolding set_holds_of[symmetric] by (auto simp: find_None_iff)
  have used: "bc_used_token_count ?c = bc_used_token_count c +
      (if q \<in> bh_key ` {h \<in> set (g_holds db). bh_usage_id h = uid} then i + out else 0)"
    "bc_used_cost_micro_usd ?c = bc_used_cost_micro_usd c +
      (if q \<in> bh_key ` {h \<in> set (g_holds db). bh_usage_id h = uid} then ?cost else 0)"
    unfolding mem using cin by (auto simp: close_counter_def settle_counter_def split: option.split)
  show ?thesis
    using settle_usage_held(1)[OF inv r nn, of now] fits fc res used
    by (intro exI[of _ "settled_record i out now r"] exI[of _ ?db] exI[of _ ?c]) (simp add: settled_record_def)
qed


section \<open>Concrete runs\<close>

definition llm_demo :: llm_db where
  "llm_demo = \<lparr>g_prices = [\<lparr>mp_provider = ''qwen'', mp_model = ''m'', mp_input_price = 2000000,
        mp_output_price = 6000000, mp_active = True\<rparr>],
     g_policies = [\<lparr>bp_id = 1, bp_name = ''all'', bp_tenant_key = ''t'', bp_user_id = None, bp_api_key_id = None,
        bp_provider = None, bp_model = None, bp_daily_token_limit = Some 100, bp_monthly_token_limit = None,
        bp_daily_cost_limit_micro_usd = None, bp_monthly_cost_limit_micro_usd = Some 1000, bp_enabled = True,
        bp_updated_by = None\<rparr>],
     g_counters = [], g_usage = [], g_holds = []\<rparr>"

definition demo_dims :: usage_dimensions where
  "demo_dims = \<lparr>dim_tenant_key = ''t'', dim_user_id = 7, dim_api_key_id = None, dim_knowledge_base_id = Some 2,
     dim_provider = ''qwen'', dim_model = ''m'', dim_operation = ''chat'', dim_api_key_credential_family_id = None\<rparr>"

definition demo_reserve :: "llm_error + llm_usage_record \<times> llm_db" where
  "demo_reserve = reserve_usage tiny_crypto demo_dims ''k'' 10 20 0 5 llm_demo"

definition demo_ledger :: llm_db where
  "demo_ledger = (case demo_reserve of Inr (_, db) \<Rightarrow> db | Inl _ \<Rightarrow> llm_demo)"

definition demo_usage :: llm_usage_record where
  "demo_usage = (case demo_reserve of Inr (r, _) \<Rightarrow> r | Inl _ \<Rightarrow> undefined)"

lemma demo_reserve_ok: "demo_reserve = Inr (demo_usage, demo_ledger)"
proof -
  have "is_ok demo_reserve" by code_simp
  then obtain a b where e: "demo_reserve = Inr (a, b)" by (auto simp: is_ok_iff)
  show ?thesis unfolding demo_usage_def demo_ledger_def e by simp
qed

lemma llm_demo_reachable: "llm_reachable llm_demo"
  by (rule llm_reachable.start) (simp_all add: llm_demo_def llm_model_price_checks_def)

lemma demo_ledger_reachable: "llm_reachable demo_ledger"
  by (rule llm_reachable.step[OF llm_demo_reachable llm_step.reserve[OF demo_reserve_ok[unfolded demo_reserve_def]]])

definition demo_counter :: llm_budget_counter where
  "demo_counter = \<lparr>bc_policy_id = 1, bc_window_kind = DAY, bc_window_start = 0, bc_used_token_count = 0,
     bc_reserved_token_count = 30, bc_used_cost_micro_usd = 0, bc_reserved_cost_micro_usd = 140\<rparr>"

lemma demo_counter_in: "find_counter (g_counters demo_ledger) (1, DAY, 0) = Some demo_counter"
  by code_simp

lemma demo_usage_in: "find_usage demo_ledger 5 = Some demo_usage"
  using demo_reserve_ok[unfolded demo_reserve_def] reserve_find(1)[OF llm_reachable_inv[OF llm_demo_reachable]] by blast

lemma demo_usage_held: "lu_status demo_usage = LLM_HELD"
  by code_simp


theorem llm_reserve_within_budget_witness:
  "\<exists>c. find_counter (g_counters demo_ledger) (1, DAY, 0) = Some c \<and>
     bc_used_token_count c + bc_reserved_token_count c \<le> 100"
  using llm_reserve_within_budget[OF llm_demo_reachable demo_reserve_ok[unfolded demo_reserve_def],
      of "hd (g_policies llm_demo)" DAY "Some 100" None]
  by (simp add: llm_demo_def demo_dims_def policy_matches_def wildcard_def policy_limits_def usage_window_start_def)

theorem llm_settlement_final_witness:
  "closed_record LLM_RELEASED ''x'' 1 demo_usage \<in>
     set (g_usage (close_usage 0 0 demo_usage (closed_record LLM_RELEASED ''x'' 1 demo_usage) demo_ledger))"
proof -
  let ?r = "closed_record LLM_RELEASED ''x'' 1 demo_usage" and ?db = "close_usage 0 0 demo_usage (closed_record LLM_RELEASED ''x'' 1 demo_usage) demo_ledger"
  note inv = llm_reachable_inv[OF demo_ledger_reachable]
  have reach: "llm_reachable ?db"
    using llm_reachable.step[OF demo_ledger_reachable llm_step.release[OF release_usage_held(1)[OF inv demo_usage_in demo_usage_held]]] .
  have "find_usage ?db 5 = Some ?r" by (rule find_closed(1)[OF inv demo_usage_in]) simp
  then have mem: "?r \<in> set (g_usage ?db)" by (rule find_usageD[THEN conjunct1])
  have "lu_status ?r \<noteq> LLM_HELD" by simp
  then show ?thesis by (rule llm_settlement_final[OF reach mem _ rtranclp.rtrancl_refl])
qed

theorem llm_idempotency_key_once_witness:
  "\<exists>u st. reserve_usage tiny_crypto demo_dims ''k'' 1 2 9 6 demo_ledger = Inl (LlmUsageDuplicate u st)"
  by (rule llm_idempotency_key_once[OF llm_demo_reachable demo_reserve_ok[unfolded demo_reserve_def] rtranclp.rtrancl_refl])
    simp_all

theorem llm_idempotency_context_unique_witness:
  "idempotency_hash tiny_crypto demo_dims ''k'' \<noteq> idempotency_hash tiny_crypto (demo_dims\<lparr>dim_user_id := 8\<rparr>) ''k''"
proof
  assume "idempotency_hash tiny_crypto demo_dims ''k'' = idempotency_hash tiny_crypto (demo_dims\<lparr>dim_user_id := 8\<rparr>) ''k''"
  from llm_idempotency_context_unique[OF this] show False
    by (auto simp: tiny_crypto_def inj_on_def unary_def demo_dims_def)
qed

lemma demo_fits: "settlement_fits 4 6 1 demo_usage demo_ledger"
  by code_simp

theorem llm_settle_charges_actual_witness:
  "\<exists>r' db' c'. settle_usage 5 4 6 1 demo_ledger = Inr (r', db') \<and> find_counter (g_counters db') (1, DAY, 0) = Some c' \<and>
     lu_actual_cost_micro_usd r' = Some 44 \<and> bc_reserved_token_count c' = 0 \<and> bc_used_token_count c' = 10"
proof -
  have own: "own_sum bh_reserved_token_count 5 (1, DAY, 0) demo_ledger = 30" by code_simp
  have mem: "(1, DAY, 0) \<in> bh_key ` {h \<in> set (g_holds demo_ledger). bh_usage_id h = 5}" by code_simp
  have price: "lu_input_price demo_usage = 2000000" "lu_output_price demo_usage = 6000000" by code_simp+
  have "usage_cost 4 6 (lu_input_price demo_usage) (lu_output_price demo_usage) = 44"
    by (simp add: price usage_cost_def price_denominator_def)
  moreover have "bc_reserved_token_count demo_counter = 30" "bc_used_token_count demo_counter = 0"
    by (simp_all add: demo_counter_def)
  moreover obtain r' db' c' where "settle_usage 5 4 6 1 demo_ledger = Inr (r', db')"
    "find_counter (g_counters db') (1, DAY, 0) = Some c'"
    "lu_actual_cost_micro_usd r' = Some (usage_cost 4 6 (lu_input_price demo_usage) (lu_output_price demo_usage))"
    "bc_reserved_token_count c' = bc_reserved_token_count demo_counter - own_sum bh_reserved_token_count 5 (1, DAY, 0) demo_ledger"
    "bc_used_token_count c' = bc_used_token_count demo_counter +
      (if (1, DAY, 0) \<in> bh_key ` {h \<in> set (g_holds demo_ledger). bh_usage_id h = 5} then 4 + 6 else 0)"
    using llm_settle_charges_actual[OF demo_ledger_reachable demo_usage_in demo_usage_held _ _ demo_counter_in demo_fits]
    by fastforce
  ultimately show ?thesis using own mem by (intro exI[of _ r'] exI[of _ db'] exI[of _ c']) simp
qed

definition demo_reply :: "llm_db \<Rightarrow> unicode provider_reply \<times> llm_db" where
  "demo_reply db = (ReplyResult \<lparr>lr_content = [], lr_provider = ''qwen'', lr_model = ''m'',
     lr_prompt_tokens = Some 4, lr_completion_tokens = Some 6\<rparr>, db)"

text \<open>An environment in which the operator releases the usage while the provider call is awaited.\<close>

definition demo_released :: "llm_db \<Rightarrow> llm_db" where
  "demo_released db = (case release_usage 5 ''operator_released'' 1 db of Inl _ \<Rightarrow> db | Inr (_, db1) \<Rightarrow> db1)"

definition released_reply :: "llm_db \<Rightarrow> unicode provider_reply \<times> llm_db" where
  "released_reply db = (fst (demo_reply db), demo_released db)"

lemma demo_released_step: "llm_step\<^sup>*\<^sup>* db (demo_released db)"
proof (cases "release_usage 5 ''operator_released'' 1 db")
  case (Inl e)
  then show ?thesis by (simp add: demo_released_def)
next
  case (Inr a)
  then have "llm_step db (snd a)" using llm_step.release[of 5 "''operator_released''" 1 db "fst a" "snd a"] by simp
  with Inr show ?thesis by (cases a) (auto simp: demo_released_def)
qed

lemma demo_reply_ok: "reply_ok (fst (demo_reply db))"
  by (simp add: demo_reply_def reply_ok_def non_negative_opt_def)


end
