(* ===== verification/Knowledge_Bases.thy ===== *)
theory Knowledge_Bases
  imports Access_Control "HOL-Library.Sublist"
begin

text \<open>
  Knowledge-base authorization and retrieval (\<open>src/app/services/knowledge_bases.py\<close>): the access
  level a caller has on a knowledge base, the listing of the accessible ones, and the ranked
  search over published entries as production runs it on PostgreSQL. Text is a list of Unicode
  code points; the Unicode tables (word characters, white space, case folding) are the
  parameter \<open>text_ops\<close>. The lemmas show that listing and access checks agree, that an inaccessible
  knowledge base looks like a missing one, that the escaped \<open>LIKE\<close> pattern of a search term matches
  exactly the texts that contain the term, and what a search may return.
\<close>

section \<open>Access levels\<close>

record kb_db =
  k_bases :: "knowledge_base list"
  k_grants :: "kb_role_grant list"
  k_entries :: "knowledge_entry list"

record kb_access =
  ka_knowledge_base :: knowledge_base
  ka_level :: kb_access_level

fun access_rank :: "kb_access_level \<Rightarrow> nat" where
  "access_rank READER = 10"
| "access_rank EDITOR = 20"
| "access_rank MANAGER = 30"

text \<open>Python's \<open>max\<close> keeps the first of equal candidates.\<close>

fun highest_level :: "kb_access_level list \<Rightarrow> kb_access_level option" where
  "highest_level [] = None"
| "highest_level (l # ls) =
     Some (foldl (\<lambda>best x. if access_rank x > access_rank best then x else best) l ls)"

definition granted_levels :: "kb_db \<Rightarrow> access_context \<Rightarrow> uuid \<Rightarrow> kb_access_level list" where
  "granted_levels db ctx kid =
     map kg_access_level (filter (\<lambda>g. kg_knowledge_base_id g = kid \<and> kg_role_id g \<in> set (ac_role_ids ctx))
       (k_grants db))"

definition kb_not_found :: api_error where
  "kb_not_found = ApiError 404 ''knowledge_base_not_found''"

definition require_knowledge_base_access ::
    "kb_db \<Rightarrow> access_context \<Rightarrow> uuid \<Rightarrow> kb_access_level \<Rightarrow> api_error + kb_access" where
  "require_knowledge_base_access db ctx kid minimum =
     (case find (\<lambda>kb. kb_id kb = kid) (k_bases db) of
        None \<Rightarrow> Inl kb_not_found
      | Some kb \<Rightarrow>
          bind_r (if u_is_superuser (ac_user ctx) \<or> kb_owner_id kb = u_id (ac_user ctx) then Inr MANAGER
                  else if ac_role_ids ctx \<noteq> []
                  then (case highest_level (granted_levels db ctx kid) of
                          None \<Rightarrow> Inl kb_not_found | Some l \<Rightarrow> Inr l)
                  else Inl kb_not_found) (\<lambda>level.
          if access_rank level < access_rank minimum
          then Inl (ApiError 403 ''knowledge_base_access_denied'')
          else Inr \<lparr>ka_knowledge_base = kb, ka_level = level\<rparr>))"

section \<open>Listing\<close>

text \<open>\<open>icontains(query, autoescape=True)\<close>: a case-insensitive substring test.\<close>

definition icontains :: "string \<Rightarrow> string \<Rightarrow> bool" where
  "icontains name q = sublist (py_lower q) (py_lower name)"

definition listed :: "kb_db \<Rightarrow> access_context \<Rightarrow> kb_access_level option \<Rightarrow> string option \<Rightarrow> knowledge_base \<Rightarrow> bool" where
  "listed db ctx minimum qry kb \<longleftrightarrow>
     (u_is_superuser (ac_user ctx) \<or> kb_owner_id kb = u_id (ac_user ctx) \<or>
      (ac_role_ids ctx \<noteq> [] \<and>
       (\<exists>g \<in> set (k_grants db). kg_knowledge_base_id g = kb_id kb \<and> kg_role_id g \<in> set (ac_role_ids ctx) \<and>
          (case minimum of None \<Rightarrow> True | Some m \<Rightarrow> access_rank (kg_access_level g) \<ge> access_rank m)))) \<and>
     (let q = (case qry of None \<Rightarrow> [] | Some s \<Rightarrow> py_strip s) in q = [] \<or> icontains (kb_name kb) q)"

definition list_accessible_knowledge_bases ::
    "kb_db \<Rightarrow> access_context \<Rightarrow> nat \<Rightarrow> nat \<Rightarrow> string option \<Rightarrow> kb_access_level option \<Rightarrow> kb_access list" where
  "list_accessible_knowledge_bases db ctx limit offset qry minimum =
     (let rows = take limit (drop offset
            (sort_key (\<lambda>kb. - kb_updated_at kb) (sort_key kb_id (filter (listed db ctx minimum qry) (k_bases db)))))
      in concat (map (\<lambda>kb.
           if u_is_superuser (ac_user ctx) \<or> kb_owner_id kb = u_id (ac_user ctx)
           then [\<lparr>ka_knowledge_base = kb, ka_level = MANAGER\<rparr>]
           else (case highest_level (if ac_role_ids ctx = [] then [] else granted_levels db ctx (kb_id kb)) of
                   None \<Rightarrow> []
                 | Some level \<Rightarrow> [\<lparr>ka_knowledge_base = kb, ka_level = level\<rparr>])) rows))"

section \<open>Search terms\<close>

record text_ops =
  to_word :: "nat \<Rightarrow> bool"
  to_space :: "nat \<Rightarrow> bool"
  to_casefold :: "unicode \<Rightarrow> unicode"
  to_lower :: "unicode \<Rightarrow> unicode"
  to_ilike :: "nat \<Rightarrow> nat"

definition is_cjk :: "nat \<Rightarrow> bool" where
  "is_cjk c \<longleftrightarrow> (0x3400 \<le> c \<and> c \<le> 0x4DBF) \<or> (0x4E00 \<le> c \<and> c \<le> 0x9FFF)"

definition is_ascii_term :: "nat \<Rightarrow> bool" where
  "is_ascii_term c \<longleftrightarrow> (97 \<le> c \<and> c \<le> 122) \<or> (65 \<le> c \<and> c \<le> 90) \<or> (48 \<le> c \<and> c \<le> 57) \<or> c = 95 \<or> c = 45"

lemma dropWhile_Cons_length: "dropWhile p xs = y # ys \<Longrightarrow> length ys < length xs"
  by (metis Suc_le_eq length_Cons length_dropWhile_le)

text \<open>\<open>re.findall\<close> of a one-class pattern with \<open>+\<close>: the maximal runs of the class.\<close>

function runs :: "(nat \<Rightarrow> bool) \<Rightarrow> unicode \<Rightarrow> unicode list" where
  "runs p xs =
     (case dropWhile (\<lambda>c. \<not> p c) xs of
        [] \<Rightarrow> []
      | y # ys \<Rightarrow> (y # takeWhile p ys) # runs p (dropWhile p ys))"
  by pat_completeness auto

termination
  by (relation "measure (\<lambda>(p, xs). length xs)")
    (auto dest!: dropWhile_Cons_length simp: le_less_trans[OF length_dropWhile_le])

declare runs.simps [simp del]

text \<open>\<open>re.sub(class+, " ", item)\<close>.\<close>

fun blank_runs :: "(nat \<Rightarrow> bool) \<Rightarrow> bool \<Rightarrow> unicode \<Rightarrow> unicode" where
  "blank_runs p inside [] = []"
| "blank_runs p inside (c # cs) =
     (if p c then (if inside then blank_runs p True cs else 32 # blank_runs p True cs)
      else c # blank_runs p False cs)"

definition slices :: "nat \<Rightarrow> unicode \<Rightarrow> unicode list" where
  "slices n xs = map (\<lambda>i. take n (drop i xs)) [0 ..< length xs - (n - 1)]"

definition cjk_terms :: "unicode \<Rightarrow> unicode list" where
  "cjk_terms sequence =
     (if length sequence \<le> 2 then [sequence]
      else [sequence] @ slices 3 sequence @ slices 2 sequence)"

text \<open>\<open>list(dict.fromkeys(xs))\<close>: the first occurrences, in order.\<close>

definition dedupe :: "'a list \<Rightarrow> 'a list" where
  "dedupe xs = rev (remdups (rev xs))"

definition query_terms :: "text_ops \<Rightarrow> unicode \<Rightarrow> unicode list" where
  "query_terms ops q =
     (let terms = concat (map (\<lambda>item.
            concat (map cjk_terms (runs is_cjk item)) @
            map (to_casefold ops) (runs is_ascii_term (blank_runs is_cjk False item)))
            (runs (\<lambda>c. to_word ops c \<or> c = 45) q))
      in if terms = [] then [to_casefold ops q]
         else (let meaningful = filter (\<lambda>t. length t \<ge> 3 \<or> (\<exists>c \<in> set t. is_cjk c)) terms
               in take 20 (dedupe (if meaningful \<noteq> [] then meaningful else terms))))"

definition term_weight :: "unicode \<Rightarrow> nat" where
  "term_weight t =
     (let n = length (filter is_cjk t)
      in if n \<ge> 4 then 8 else if n = 3 then 4 else if n = 2 then 1
         else if length t \<ge> 5 then 4 else 2)"

section \<open>Matching\<close>

fun escape_like :: "unicode \<Rightarrow> unicode" where
  "escape_like [] = []"
| "escape_like (c # cs) = (if c = 92 \<or> c = 37 \<or> c = 95 then [92, c] else [c]) @ escape_like cs"

text \<open>SQL \<open>ILIKE pattern ESCAPE '\'\<close>, with the case folding of the database as \<open>f\<close>.\<close>

fun ilike :: "(nat \<Rightarrow> nat) \<Rightarrow> unicode \<Rightarrow> unicode \<Rightarrow> bool" where
  "ilike f [] s = (s = [])"
| "ilike f (p # ps) s =
     (if p = 92 \<and> ps \<noteq> [] then
        (case s of [] \<Rightarrow> False | c # cs \<Rightarrow> f (hd ps) = f c \<and> ilike f (tl ps) cs)
      else if p = 37 then (\<exists>k \<in> {0..length s}. ilike f ps (drop k s))
      else if p = 95 then s \<noteq> [] \<and> ilike f ps (tl s)
      else (case s of [] \<Rightarrow> False | c # cs \<Rightarrow> f p = f c \<and> ilike f ps cs))"

definition term_pattern :: "unicode \<Rightarrow> unicode" where
  "term_pattern t = [37] @ escape_like t @ [37]"

definition relevance :: "text_ops \<Rightarrow> unicode list \<Rightarrow> knowledge_entry \<Rightarrow> nat" where
  "relevance ops terms e =
     sum_list (map (\<lambda>t.
       (if ilike (to_ilike ops) (term_pattern t) (ke_title e) then term_weight t * 2 else 0) +
       (if ilike (to_ilike ops) (term_pattern t) (ke_content e) then term_weight t else 0)) terms)"

definition entry_matches :: "text_ops \<Rightarrow> unicode list \<Rightarrow> knowledge_entry \<Rightarrow> bool" where
  "entry_matches ops terms e \<longleftrightarrow>
     (\<exists>t \<in> set terms. ilike (to_ilike ops) (term_pattern t) (ke_title e) \<or>
                      ilike (to_ilike ops) (term_pattern t) (ke_content e))"

text \<open>\<open>strpos\<close>: the one-based position of the first occurrence, 0 when there is none.\<close>

fun strpos :: "unicode \<Rightarrow> unicode \<Rightarrow> nat" where
  "strpos [] t = (if t = [] then 1 else 0)"
| "strpos (c # cs) t = (if prefix t (c # cs) then 1 else (case strpos cs t of 0 \<Rightarrow> 0 | Suc n \<Rightarrow> Suc (Suc n)))"

definition strip_text :: "text_ops \<Rightarrow> unicode \<Rightarrow> unicode" where
  "strip_text ops s = rev (dropWhile (to_space ops) (rev (dropWhile (to_space ops) s)))"

definition pg_excerpt :: "text_ops \<Rightarrow> unicode list \<Rightarrow> unicode \<Rightarrow> unicode" where
  "pg_excerpt ops terms content =
     (let prioritized = sort_key (\<lambda>t. - int (term_weight t)) (sort_key (\<lambda>t. - int (length t)) terms);
          positions = map (\<lambda>t. strpos (to_lower ops content) (to_casefold ops t)) prioritized;
          match_position = (case find (\<lambda>p. p > 0) positions of None \<Rightarrow> 1 | Some p \<Rightarrow> p);
          start = (if match_position > 80 then match_position - 80 else 1)
      in take 280 (drop (start - 1) content))"

record search_hit =
  sh_entry_id :: uuid
  sh_source_file_id :: "uuid option"
  sh_title :: unicode
  sh_excerpt :: unicode
  sh_source_path :: "string option"
  sh_format_version :: "string option"

definition complex_query_minimum_relevance_score :: nat where
  "complex_query_minimum_relevance_score = 4"

text \<open>
  \<open>math.ceil(maximum_score * 0.45)\<close> is the integer ceiling of \<open>9 n / 20\<close>: a score is at most
  20 terms times 24, and for such n the double nearest to \<open>0.45 n\<close> is \<open>0.45 n\<close> itself when
  that is an integer and otherwise far from the next integer.
\<close>

definition minimum_score :: "nat \<Rightarrow> nat \<Rightarrow> nat" where
  "minimum_score term_count maximum_score =
     max (if term_count = 1 then 1 else complex_query_minimum_relevance_score)
       ((9 * maximum_score + 19) div 20)"

definition ranked_entries :: "text_ops \<Rightarrow> kb_db \<Rightarrow> uuid \<Rightarrow> unicode list \<Rightarrow> knowledge_entry list" where
  "ranked_entries ops db kid terms =
     sort_key (\<lambda>e. - int (relevance ops terms e)) (sort_key (\<lambda>e. - ke_updated_at e) (sort_key ke_id
       (filter (\<lambda>e. ke_knowledge_base_id e = kid \<and> ke_deleted_at e = None \<and>
          ke_publication_status e = PUBLISHED \<and> entry_matches ops terms e) (k_entries db))))"

definition search_knowledge_entries ::
    "text_ops \<Rightarrow> kb_db \<Rightarrow> uuid \<Rightarrow> unicode \<Rightarrow> nat \<Rightarrow> search_hit list" where
  "search_knowledge_entries ops db kid q limit =
     (let terms = query_terms ops q;
          entries = take (min (limit * 3) 60) (ranked_entries ops db kid terms)
      in if entries = [] then []
         else map (\<lambda>e. \<lparr>sh_entry_id = ke_id e, sh_source_file_id = ke_source_file_id e, sh_title = ke_title e,
                   sh_excerpt = strip_text ops (pg_excerpt ops terms (ke_content e)),
                   sh_source_path = ke_source_path e, sh_format_version = ke_format_version e\<rparr>)
                (take limit (filter (\<lambda>e. relevance ops terms e \<ge>
                   minimum_score (length terms) (relevance ops terms (hd entries))) entries)))"

section \<open>Lemmas on levels and listing\<close>

lemma foldl_best:
  assumes "best = foldl (\<lambda>best x. if access_rank x > access_rank best then x else best) l ls"
  shows "best \<in> set (l # ls) \<and> (\<forall>x \<in> set (l # ls). access_rank x \<le> access_rank best)"
  using assms
proof (induction ls arbitrary: l)
  case Nil
  then show ?case by simp
next
  case (Cons x ls)
  from Cons.IH[of "if access_rank x > access_rank l then x else l"] Cons.prems show ?case
    by (auto split: if_split_asm)
qed

lemma highest_level_Some:
  "highest_level ls = Some l \<Longrightarrow> l \<in> set ls \<and> (\<forall>x \<in> set ls. access_rank x \<le> access_rank l)"
  by (cases ls) (use foldl_best in auto)

lemma highest_level_None [simp]: "highest_level ls = None \<longleftrightarrow> ls = []"
  by (cases ls) simp_all

lemma highest_level_ge:
  "highest_level ls = Some l \<Longrightarrow> n \<le> access_rank l \<longleftrightarrow> (\<exists>x \<in> set ls. n \<le> access_rank x)"
  using highest_level_Some[of ls l] by (auto intro: order_trans)

lemma access_rank_le_manager: "access_rank m \<le> access_rank MANAGER"
  by (cases m) simp_all

lemma listed_iff_levels:
  "listed db ctx (Some m) None kb \<longleftrightarrow>
   u_is_superuser (ac_user ctx) \<or> kb_owner_id kb = u_id (ac_user ctx) \<or>
   (ac_role_ids ctx \<noteq> [] \<and> (\<exists>l \<in> set (granted_levels db ctx (kb_id kb)). access_rank m \<le> access_rank l))"
  by (auto simp: listed_def granted_levels_def)

lemma in_listing:
  assumes "length (k_bases db) \<le> limit"
  shows "a \<in> set (list_accessible_knowledge_bases db ctx limit 0 qry minimum) \<longleftrightarrow>
    ka_knowledge_base a \<in> set (k_bases db) \<and> listed db ctx minimum qry (ka_knowledge_base a) \<and>
    (if u_is_superuser (ac_user ctx) \<or> kb_owner_id (ka_knowledge_base a) = u_id (ac_user ctx) then ka_level a = MANAGER
     else highest_level (if ac_role_ids ctx = [] then [] else granted_levels db ctx (kb_id (ka_knowledge_base a))) = Some (ka_level a))"
proof -
  have "length (filter (listed db ctx minimum qry) (k_bases db)) \<le> limit"
    using assms length_filter_le order_trans by blast
  then have rows: "set (take limit (drop 0 (sort_key (\<lambda>kb. - kb_updated_at kb)
      (sort_key kb_id (filter (listed db ctx minimum qry) (k_bases db)))))) =
      {kb \<in> set (k_bases db). listed db ctx minimum qry kb}" by simp
  show ?thesis
    unfolding list_accessible_knowledge_bases_def Let_def set_concat set_map rows
    by (cases a) (auto split: option.split_asm if_split_asm)
qed

lemma kb_access_eta: "\<lparr>ka_knowledge_base = ka_knowledge_base a, ka_level = l\<rparr> = a \<longleftrightarrow> l = ka_level (a :: kb_access)"
  by (cases a) simp

lemma require_found:
  "require_knowledge_base_access db ctx kid m = Inr a \<Longrightarrow>
   find (\<lambda>kb. kb_id kb = kid) (k_bases db) = Some (ka_knowledge_base a)"
  by (auto simp: require_knowledge_base_access_def result_simps split: option.split_asm if_split_asm)

section \<open>Lemmas on matching\<close>

lemma ilike_literal:
  "ilike f (escape_like t @ ps) s \<longleftrightarrow> (\<exists>mid suf. s = mid @ suf \<and> map f mid = map f t \<and> ilike f ps suf)"
proof (induction t arbitrary: s)
  case Nil
  then show ?case by auto
next
  case (Cons c t)
  show ?case
  proof (cases s)
    case Nil
    then show ?thesis by auto
  next
    case (Cons x xs)
    have "ilike f (escape_like (c # t) @ ps) s \<longleftrightarrow> f c = f x \<and> ilike f (escape_like t @ ps) xs"
      using Cons by auto
    also have "\<dots> \<longleftrightarrow> (\<exists>mid suf. s = mid @ suf \<and> map f mid = map f (c # t) \<and> ilike f ps suf)"
    proof
      assume "f c = f x \<and> ilike f (escape_like t @ ps) xs"
      then obtain mid suf where "xs = mid @ suf" "map f mid = map f t" "ilike f ps suf" "f c = f x"
        using Cons.IH by blast
      with \<open>s = x # xs\<close> show "\<exists>mid suf. s = mid @ suf \<and> map f mid = map f (c # t) \<and> ilike f ps suf"
        by (intro exI[of _ "x # mid"] exI[of _ suf]) simp
    next
      assume "\<exists>mid suf. s = mid @ suf \<and> map f mid = map f (c # t) \<and> ilike f ps suf"
      then obtain mid suf where m: "s = mid @ suf" "map f mid = map f (c # t)" "ilike f ps suf" by blast
      then obtain y ys where "mid = y # ys" by (cases mid) auto
      with m \<open>s = x # xs\<close> Cons.IH[of xs] show "f c = f x \<and> ilike f (escape_like t @ ps) xs" by auto
    qed
    finally show ?thesis .
  qed
qed

lemma ilike_percent [simp]: "ilike f [37] s"
  by (auto intro: bexI[of _ "length s"])

lemma term_pattern_substring:
  "ilike f (term_pattern t) s \<longleftrightarrow> (\<exists>pre mid suf. s = pre @ mid @ suf \<and> map f mid = map f t)"
proof
  assume "ilike f (term_pattern t) s"
  then obtain k where "ilike f (escape_like t @ [37]) (drop k s)" by (auto simp: term_pattern_def)
  then obtain mid suf where "drop k s = mid @ suf" "map f mid = map f t" unfolding ilike_literal by blast
  then show "\<exists>pre mid suf. s = pre @ mid @ suf \<and> map f mid = map f t"
    by (metis append_take_drop_id)
next
  assume "\<exists>pre mid suf. s = pre @ mid @ suf \<and> map f mid = map f t"
  then obtain pre mid suf where s: "s = pre @ mid @ suf" "map f mid = map f t" by blast
  have "ilike f (escape_like t @ [37]) (drop (length pre) s)"
    unfolding ilike_literal using s by auto
  moreover have "length pre \<in> {0..length s}" using s by simp
  ultimately show "ilike f (term_pattern t) s" unfolding term_pattern_def by auto
qed

lemma ranked_entries_sorted: "sorted_wrt (\<lambda>a b. relevance ops terms a \<ge> relevance ops terms b) (ranked_entries ops db kid terms)"
proof -
  have "sorted (map (\<lambda>e. - int (relevance ops terms e)) (ranked_entries ops db kid terms))"
    unfolding ranked_entries_def by simp
  then show ?thesis by (auto simp: sorted_wrt_map sorted_map elim!: sorted_wrt_mono_rel[rotated])
qed

lemma set_ranked_entries:
  "set (ranked_entries ops db kid terms) = {e \<in> set (k_entries db). ke_knowledge_base_id e = kid \<and>
     ke_deleted_at e = None \<and> ke_publication_status e = PUBLISHED \<and> entry_matches ops terms e}"
  by (auto simp: ranked_entries_def)

lemma sorted_wrt_filter_take: "sorted_wrt R xs \<Longrightarrow> sorted_wrt R (take n (filter p (take m xs)))"
  by (intro sorted_wrt_take sorted_wrt_filter)

section \<open>Properties\<close>

text \<open>The listing of knowledge bases and the access check agree: with a page large enough, a knowledge base
  is listed with a level for a minimum level exactly when the access check for that minimum grants it, at the same
  level.\<close>

theorem kb_listing_agrees_with_access:
  assumes keys: "keyed kb_id (k_bases db)" and page: "length (k_bases db) \<le> limit"
  shows "a \<in> set (list_accessible_knowledge_bases db ctx limit 0 None (Some m)) \<longleftrightarrow>
    require_knowledge_base_access db ctx (kb_id (ka_knowledge_base a)) m = Inr a"
proof (cases "ka_knowledge_base a \<in> set (k_bases db)")
  case True
  let ?kb = "ka_knowledge_base a"
  have f: "find (\<lambda>kb. kb_id kb = kb_id ?kb) (k_bases db) = Some ?kb" by (rule keyed_find[OF keys True])
  show ?thesis
  proof (cases "u_is_superuser (ac_user ctx) \<or> kb_owner_id ?kb = u_id (ac_user ctx)")
    case True
    then show ?thesis
      using f \<open>?kb \<in> set (k_bases db)\<close> access_rank_le_manager[of m] unfolding in_listing[OF page] listed_iff_levels
      by (cases a) (auto simp: require_knowledge_base_access_def not_less)
  next
    case False
    let ?ls = "granted_levels db ctx (kb_id ?kb)"
    have req: "require_knowledge_base_access db ctx (kb_id ?kb) m = (if ac_role_ids ctx = [] then Inl kb_not_found
        else case highest_level ?ls of None \<Rightarrow> Inl kb_not_found
        | Some l \<Rightarrow> if access_rank l < access_rank m then Inl (ApiError 403 ''knowledge_base_access_denied'')
                    else Inr \<lparr>ka_knowledge_base = ?kb, ka_level = l\<rparr>)"
      using f False by (simp add: require_knowledge_base_access_def split: option.split)
    have "a \<in> set (list_accessible_knowledge_bases db ctx limit 0 None (Some m)) \<longleftrightarrow>
        ac_role_ids ctx \<noteq> [] \<and> (\<exists>l \<in> set ?ls. access_rank m \<le> access_rank l) \<and> highest_level ?ls = Some (ka_level a)"
      unfolding in_listing[OF page] listed_iff_levels using False \<open>?kb \<in> set (k_bases db)\<close> by auto
    also have "\<dots> \<longleftrightarrow> ac_role_ids ctx \<noteq> [] \<and> access_rank m \<le> access_rank (ka_level a) \<and> highest_level ?ls = Some (ka_level a)"
      using highest_level_ge[of ?ls "ka_level a" "access_rank m"] by metis
    also have "\<dots> \<longleftrightarrow> require_knowledge_base_access db ctx (kb_id ?kb) m = Inr a"
      unfolding req by (cases "highest_level ?ls") (auto simp: kb_access_eta not_less)
    finally show ?thesis .
  qed
next
  case False
  moreover have "require_knowledge_base_access db ctx kid m = Inr a \<Longrightarrow> ka_knowledge_base a \<in> set (k_bases db)" for kid
    using find_Some_in_set[OF require_found] by blast
  ultimately show ?thesis unfolding in_listing[OF page] by blast
qed

text \<open>An inaccessible knowledge base is indistinguishable from a missing one: for a caller who is no superuser,
  does not own it and holds no role with a grant on it, the access check answers the same 404 as it would if the
  knowledge base did not exist, whatever level is asked for.\<close>

theorem kb_hidden_as_missing:
  assumes "\<not> u_is_superuser (ac_user ctx)"
    and "\<And>kb. kb \<in> set (k_bases db) \<Longrightarrow> kb_id kb = kid \<Longrightarrow> kb_owner_id kb \<noteq> u_id (ac_user ctx)"
    and "\<And>g. g \<in> set (k_grants db) \<Longrightarrow> kg_knowledge_base_id g = kid \<Longrightarrow> kg_role_id g \<notin> set (ac_role_ids ctx)"
  shows "require_knowledge_base_access db ctx kid m = Inl kb_not_found \<and>
    require_knowledge_base_access (db\<lparr>k_bases := filter (\<lambda>kb. kb_id kb \<noteq> kid) (k_bases db)\<rparr>) ctx kid m = Inl kb_not_found"
proof -
  have none: "granted_levels db ctx kid = []" using assms(3) by (auto simp: granted_levels_def filter_empty_conv)
  have gone: "find (\<lambda>kb. kb_id kb = kid) (filter (\<lambda>kb. kb_id kb \<noteq> kid) (k_bases db)) = None"
    by (auto simp: find_None_iff)
  have "require_knowledge_base_access db ctx kid m = Inl kb_not_found"
    using assms(1,2) none by (auto simp: require_knowledge_base_access_def dest!: find_Some_in_set split: option.split)
  with gone show ?thesis by (simp add: require_knowledge_base_access_def)
qed

text \<open>Escaped search terms are literal: the ILIKE pattern built for a term (escaped and wrapped in percent
  signs) matches a text exactly when the text contains the term up to the database's case folding, for every term,
  wildcards and backslashes included.\<close>

theorem search_pattern_is_literal:
  "ilike f (term_pattern t) s \<longleftrightarrow> (\<exists>pre mid suf. s = pre @ mid @ suf \<and> map f mid = map f t)"
  by (rule term_pattern_substring)

text \<open>C35. Search returns at most limit hits, in order of non-increasing relevance, and every hit is a published,
  undeleted entry of the knowledge base that was searched, that contains one of the query's terms in its title or its
  content and reaches the absolute relevance floor.\<close>

theorem search_returns_only_published_matches:
  "\<exists>es. map sh_entry_id (search_knowledge_entries ops db kid q limit) = map ke_id es \<and> length es \<le> limit \<and>
     sorted_wrt (\<lambda>a b. relevance ops (query_terms ops q) a \<ge> relevance ops (query_terms ops q) b) es \<and>
     (\<forall>e \<in> set es. e \<in> set (k_entries db) \<and> ke_knowledge_base_id e = kid \<and> ke_deleted_at e = None \<and>
        ke_publication_status e = PUBLISHED \<and>
        relevance ops (query_terms ops q) e \<ge> (if length (query_terms ops q) = 1 then 1 else 4) \<and>
        (\<exists>t \<in> set (query_terms ops q). \<exists>text \<in> {ke_title e, ke_content e}. \<exists>pre mid suf.
           text = pre @ mid @ suf \<and> map (to_ilike ops) mid = map (to_ilike ops) t))"
proof -
  let ?ts = "query_terms ops q" and ?rk = "ranked_entries ops db kid (query_terms ops q)"
  let ?es = "take limit (filter (\<lambda>e. relevance ops ?ts e \<ge> minimum_score (length ?ts)
      (relevance ops ?ts (hd (take (min (limit * 3) 60) ?rk)))) (take (min (limit * 3) 60) ?rk))"
  have "map sh_entry_id (search_knowledge_entries ops db kid q limit) = map ke_id ?es"
    by (simp add: search_knowledge_entries_def Let_def)
  moreover have "sorted_wrt (\<lambda>a b. relevance ops ?ts a \<ge> relevance ops ?ts b) ?es"
    by (rule sorted_wrt_filter_take[OF ranked_entries_sorted])
  moreover have "e \<in> set (k_entries db) \<and> ke_knowledge_base_id e = kid \<and> ke_deleted_at e = None \<and>
        ke_publication_status e = PUBLISHED \<and> relevance ops ?ts e \<ge> (if length ?ts = 1 then 1 else 4) \<and>
        (\<exists>t \<in> set ?ts. \<exists>text \<in> {ke_title e, ke_content e}. \<exists>pre mid suf.
           text = pre @ mid @ suf \<and> map (to_ilike ops) mid = map (to_ilike ops) t)" if "e \<in> set ?es" for e
  proof -
    from that have e: "e \<in> set ?rk" "minimum_score (length ?ts) (relevance ops ?ts (hd (take (min (limit * 3) 60) ?rk))) \<le> relevance ops ?ts e"
      by (auto dest!: in_set_takeD)
    from e(2) have "relevance ops ?ts e \<ge> (if length ?ts = 1 then 1 else 4)"
      unfolding minimum_score_def complex_query_minimum_relevance_score_def by (auto split: if_split_asm)
    with e(1) show ?thesis unfolding set_ranked_entries entry_matches_def term_pattern_substring by blast
  qed
  ultimately show ?thesis by (intro exI[of _ ?es]) simp
qed

definition kb_demo :: kb_db where
  "kb_demo = \<lparr>k_bases = [\<lparr>kb_id = 2, kb_owner_id = 9, kb_name = ''Sales'', kb_description = None,
       kb_external_llm_processing_enabled = False, kb_custom_metadata = JObj [], kb_role_grant_version = 1,
       kb_content_version = 1, kb_updated_at = 0\<rparr>],
     k_grants = [\<lparr>kg_knowledge_base_id = 2, kg_role_id = 1, kg_access_level = EDITOR, kg_granted_by = None\<rparr>],
     k_entries = []\<rparr>"

theorem kb_listing_agrees_with_access_witness:
  "require_knowledge_base_access kb_demo (resolve rbac_demo 50 demo_user) 2 EDITOR =
     Inr \<lparr>ka_knowledge_base = hd (k_bases kb_demo), ka_level = EDITOR\<rparr> \<and>
   \<not> is_ok (require_knowledge_base_access kb_demo (resolve rbac_demo 100 demo_user) 2 EDITOR)"
proof
  let ?a = "\<lparr>ka_knowledge_base = hd (k_bases kb_demo), ka_level = EDITOR\<rparr>"
  have in1: "?a \<in> set (list_accessible_knowledge_bases kb_demo (resolve rbac_demo 50 demo_user) 5 0 None (Some EDITOR))"
    by code_simp
  have id: "kb_id (ka_knowledge_base ?a) = 2" by (simp add: kb_demo_def)
  from in1 show "require_knowledge_base_access kb_demo (resolve rbac_demo 50 demo_user) 2 EDITOR = Inr ?a"
    using kb_listing_agrees_with_access[of kb_demo 5 ?a "resolve rbac_demo 50 demo_user" EDITOR] id
    by (simp add: kb_demo_def)
  show "\<not> is_ok (require_knowledge_base_access kb_demo (resolve rbac_demo 100 demo_user) 2 EDITOR)" by code_simp
qed

theorem kb_hidden_as_missing_witness:
  "require_knowledge_base_access kb_demo (resolve rbac_demo 100 demo_user) 2 READER = Inl kb_not_found"
proof -
  have "\<not> u_is_superuser (ac_user (resolve rbac_demo 100 demo_user))" by code_simp
  moreover have "ac_role_ids (resolve rbac_demo 100 demo_user) = []" by code_simp
  moreover have "u_id (ac_user (resolve rbac_demo 100 demo_user)) = 7" by code_simp
  ultimately show ?thesis
    using kb_hidden_as_missing[of "resolve rbac_demo 100 demo_user" kb_demo 2 READER]
    by (simp add: kb_demo_def)
qed

definition ascii_text :: text_ops where
  "ascii_text = \<lparr>to_word = (\<lambda>c. (48 \<le> c \<and> c \<le> 57) \<or> (65 \<le> c \<and> c \<le> 90) \<or> c = 95 \<or> (97 \<le> c \<and> c \<le> 122)),
     to_space = (\<lambda>c. c = 32), to_casefold = map (\<lambda>c. if 65 \<le> c \<and> c \<le> 90 then c + 32 else c),
     to_lower = map (\<lambda>c. if 65 \<le> c \<and> c \<le> 90 then c + 32 else c),
     to_ilike = (\<lambda>c. if 65 \<le> c \<and> c \<le> 90 then c + 32 else c)\<rparr>"

definition demo_entry :: knowledge_entry where
  "demo_entry = \<lparr>ke_id = 4, ke_knowledge_base_id = 2, ke_source_file_id = None, ke_entry_type = ''note'',
     ke_title = [80, 114, 105, 99, 101], ke_content = [97, 32, 112, 114, 105, 99, 101], ke_source_path = None,
     ke_format_version = None, ke_publication_status = PUBLISHED, ke_custom_metadata = JObj [],
     ke_deleted_at = None, ke_updated_at = 0\<rparr>"

theorem search_returns_only_published_matches_witness:
  "length (search_knowledge_entries ascii_text (kb_demo\<lparr>k_entries := [demo_entry]\<rparr>) 2 [112, 114, 105, 99, 101] 3) \<le> 3"
proof -
  obtain es :: "knowledge_entry list" where
    "map sh_entry_id (search_knowledge_entries ascii_text (kb_demo\<lparr>k_entries := [demo_entry]\<rparr>) 2 [112, 114, 105, 99, 101] 3) =
      map ke_id es" "length es \<le> 3"
    using search_returns_only_published_matches[of ascii_text "kb_demo\<lparr>k_entries := [demo_entry]\<rparr>" 2 "[112, 114, 105, 99, 101]" 3]
    by blast
  then show ?thesis by (metis length_map)
qed

end
