(* ===== verification/Api_Keys.thy ===== *)
theory Api_Keys
  imports Llm_Usage Knowledge_Bases
begin

text \<open>
  Service credentials: authentication of an API key (\<open>src/app/services/api_keys.py\<close>), its request
  dependencies (\<open>src/app/api/dependencies.py\<close>), and the routes that list, create, rotate and
  revoke keys (\<open>src/app/api/v1/routes/api_keys.py\<close>), with the guard that refuses a revocation while
  a provider call of the key is in flight (\<open>src/app/api/egress_leases.py\<close>). A handler returns its
  response or error and the committed database. Re-reads under the locks of one transaction
  return the rows read before, so each check is written once per row state. The lemmas show
  that a key never grants more than its owner holds, that a revoked or rotated secret is dead
  for ever, and that rotation keeps one active key per credential family.
\<close>

section \<open>State\<close>

record keys_db =
  x_auth :: auth_db
  x_kb :: kb_db
  x_llm :: llm_db
  x_keys :: "api_key list"

record api_key_access =
  ax_api_key :: api_key
  ax_access :: access_context
  ax_knowledge_base_ids :: "uuid list"

definition allows_knowledge_base :: "api_key_access \<Rightarrow> uuid \<Rightarrow> bool" where
  "allows_knowledge_base ax kid \<longleftrightarrow> kid \<in> set (ax_knowledge_base_ids ax)"

definition api_key_prefix :: string where
  "api_key_prefix = ''kb_live_''"

definition public_api_permissions :: "string list" where
  "public_api_permissions = [''chat:query'', ''knowledge:read'']"

definition api_key_hash :: "crypto_ops \<Rightarrow> string \<Rightarrow> string" where
  "api_key_hash co cleartext = co_sha256 co cleartext"

text \<open>\<open>token_urlsafe(32)\<close> is the argument \<open>secret\<close>.\<close>

definition generate_api_key :: "crypto_ops \<Rightarrow> string \<Rightarrow> string \<times> string \<times> string" where
  "generate_api_key co secret =
     (let cleartext = api_key_prefix @ secret
      in (cleartext, api_key_hash co cleartext, take 20 cleartext))"

definition x_rbac :: "keys_db \<Rightarrow> rbac_db" where
  "x_rbac db = a_rbac (x_auth db)"

definition write_key :: "uuid \<Rightarrow> (api_key \<Rightarrow> api_key) \<Rightarrow> keys_db \<Rightarrow> keys_db" where
  "write_key kid f db = db\<lparr>x_keys := update_where (\<lambda>k. ak_id k = kid) f (x_keys db)\<rparr>"

definition audit_row ::
    "timestamp \<Rightarrow> string \<Rightarrow> audit_result \<Rightarrow> string \<Rightarrow> uuid \<Rightarrow> string \<Rightarrow> string option \<Rightarrow> json \<Rightarrow> keys_db \<Rightarrow> keys_db" where
  "audit_row now action result resource_type actor resource_id request_id details db =
     db\<lparr>x_auth := audit_auth now action result resource_type (Some actor) (Some resource_id) request_id None details
          (x_auth db)\<rparr>"

abbreviation audit_key ::
    "crypto_ops \<Rightarrow> timestamp \<Rightarrow> string \<Rightarrow> audit_result \<Rightarrow> uuid \<Rightarrow> uuid \<Rightarrow> string option \<Rightarrow> json \<Rightarrow> keys_db \<Rightarrow> keys_db" where
  "audit_key co now action result actor resource request_id details \<equiv>
     audit_row now action result ''api_key'' actor (co_str_uuid co resource) request_id details"

text \<open>An optional instant inside audit details, as its number of microseconds.\<close>

definition json_time :: "timestamp option \<Rightarrow> json" where
  "json_time v = (case v of None \<Rightarrow> JNull | Some t \<Rightarrow> JInt t)"

section \<open>Authentication\<close>

definition invalid_api_key :: api_error where
  "invalid_api_key = ApiError 401 ''invalid_api_key''"

definition parse_uuids :: "crypto_ops \<Rightarrow> string list \<Rightarrow> uuid list option" where
  "parse_uuids co values =
     foldr (\<lambda>v acc. Option.bind (co_parse_uuid co v) (\<lambda>u. map_option ((#) u) acc)) values (Some [])"

definition authenticate_api_key ::
    "crypto_ops \<Rightarrow> timestamp \<Rightarrow> string option \<Rightarrow> keys_db \<Rightarrow> api_error + api_key_access \<times> keys_db" where
  "authenticate_api_key co now cleartext db =
     (case cleartext of
        None \<Rightarrow> Inl invalid_api_key
      | Some text \<Rightarrow>
          if take (length api_key_prefix) text \<noteq> api_key_prefix \<or> \<not> (40 \<le> length text \<and> length text \<le> 128)
          then Inl invalid_api_key
          else (case find (\<lambda>k. ak_key_hash k = api_key_hash co text) (x_keys db) of
                  None \<Rightarrow> Inl invalid_api_key
                | Some key \<Rightarrow>
                    if ak_revoked_at key \<noteq> None \<or> (case ak_expires_at key of None \<Rightarrow> False | Some t \<Rightarrow> t \<le> now)
                    then Inl invalid_api_key
                    else (case find_user (x_auth db) (ak_user_id key) of
                            None \<Rightarrow> Inl invalid_api_key
                          | Some user \<Rightarrow>
                              if \<not> active_user user then Inl invalid_api_key
                              else (let current = resolve (x_rbac db) now user;
                                        scoped = filter (\<lambda>p. p \<in> set public_api_permissions \<and> allows current p)
                                                   (ak_permission_codes key)
                                    in case parse_uuids co (ak_knowledge_base_ids key) of
                                         None \<Rightarrow> Inl invalid_api_key
                                       | Some kids \<Rightarrow>
                                           (let stale = (case ak_last_used_at key of None \<Rightarrow> True
                                                         | Some t \<Rightarrow> t < now - seconds 60);
                                                key' = (if stale then key\<lparr>ak_last_used_at := Some now\<rparr> else key)
                                            in Inr (\<lparr>ax_api_key = key',
                                                     ax_access = current\<lparr>ac_permissions := scoped\<rparr>,
                                                     ax_knowledge_base_ids = kids\<rparr>,
                                                    if stale then write_key (ak_id key) (\<lambda>_. key') db else db))))))"

definition get_api_key_access ::
    "crypto_ops \<Rightarrow> 'r redis_ops \<Rightarrow> int \<Rightarrow> string \<Rightarrow> timestamp \<Rightarrow> string option \<Rightarrow> keys_db \<Rightarrow> 'r \<Rightarrow>
     (api_error + api_key_access \<times> keys_db) \<times> 'r" where
  "get_api_key_access co ops attempts_per_minute source now cleartext db r =
     (case rate_gate ops (''rate:api-key-auth:source:'' @ source) attempts_per_minute r of
        (Inl e, r') \<Rightarrow> (Inl e, r')
      | (Inr _, r') \<Rightarrow> (authenticate_api_key co now cleartext db, r'))"

definition require_api_key_permission ::
    "crypto_ops \<Rightarrow> 'r redis_ops \<Rightarrow> auth_settings \<Rightarrow> string \<Rightarrow> api_key_access \<Rightarrow> 'r \<Rightarrow>
     (api_error + api_key_access) \<times> 'r" where
  "require_api_key_permission co ops st permission ax r =
     (case enforce_access_rate_limit co ops st (ax_access ax) r of
        (Inl e, r1) \<Rightarrow> (Inl e, r1)
      | (Inr _, r1) \<Rightarrow>
          (case rate_gate ops (''rate:api-key-family:'' @ co_str_uuid co (ak_credential_family_id (ax_api_key ax)))
                  (ak_requests_per_minute (ax_api_key ax)) r1 of
             (Inl e, r2) \<Rightarrow> (Inl e, r2)
           | (Inr _, r2) \<Rightarrow>
               (if \<not> allows (ax_access ax) permission then Inl (ApiError 403 ''api_key_scope_denied'')
                else Inr ax, r2)))"

section \<open>The egress guard\<close>

text \<open>Either no matching provider call is held (\<open>None\<close>), or the denial is audited and committed.\<close>

record revocation =
  rv_scope :: string
  rv_resource_type :: string
  rv_resource_id :: string
  rv_knowledge_base_id :: "uuid option"
  rv_user_id :: "uuid option"
  rv_api_key_id :: "uuid option"
  rv_role_id :: "uuid option"

definition deny_if_active_external_llm_egress ::
    "crypto_ops \<Rightarrow> timestamp \<Rightarrow> user \<Rightarrow> string option \<Rightarrow> revocation \<Rightarrow> keys_db \<Rightarrow> (api_error \<times> keys_db) option" where
  "deny_if_active_external_llm_egress co now actor request_id rv db =
     (case find_active_llm_egress (x_llm db) (db_user_roles (x_rbac db)) (rv_knowledge_base_id rv) (rv_user_id rv)
             (rv_api_key_id rv) (rv_role_id rv) None of
        None \<Rightarrow> None
      | Some usage_id \<Rightarrow>
          Some (ApiError 409 ''external_llm_processing_in_progress'',
                audit_row now ''external_llm.revocation_denied'' DENIED (rv_resource_type rv) (u_id actor)
                  (rv_resource_id rv) request_id
                  (JObj [(''reason_code'', JStr ''external_llm_processing_in_progress''),
                         (''revocation_scope'', JStr (rv_scope rv)),
                         (''usage_id'', JStr (co_str_uuid co usage_id))]) db))"

definition key_revocation :: "crypto_ops \<Rightarrow> string \<Rightarrow> uuid \<Rightarrow> revocation" where
  "key_revocation co scope kid =
     \<lparr>rv_scope = scope, rv_resource_type = ''api_key'', rv_resource_id = co_str_uuid co kid,
      rv_knowledge_base_id = None, rv_user_id = None, rv_api_key_id = Some kid, rv_role_id = None\<rparr>"

section \<open>Routes\<close>

definition api_key_not_found :: api_error where
  "api_key_not_found = ApiError 404 ''api_key_not_found''"

definition user_not_found :: api_error where
  "user_not_found = ApiError 404 ''user_not_found''"

definition may_manage :: "user \<Rightarrow> api_key option \<Rightarrow> bool" where
  "may_manage actor candidate =
     (case candidate of None \<Rightarrow> False | Some k \<Rightarrow> u_is_superuser actor \<or> ak_user_id k = u_id actor)"

definition find_key :: "keys_db \<Rightarrow> uuid \<Rightarrow> api_key option" where
  "find_key db kid = find (\<lambda>k. ak_id k = kid) (x_keys db)"

definition locked_actor ::
    "string list \<Rightarrow> keys_db \<Rightarrow> timestamp \<Rightarrow> access_context \<Rightarrow> api_error + access_context" where
  "locked_actor required db now access =
     (case find_user (x_auth db) (u_id (ac_user access)) of
        None \<Rightarrow> Inl (ApiError 401 ''inactive_user'')
      | Some actor \<Rightarrow> refresh_locked_actor_access (x_rbac db) now actor required)"

definition lock_api_key_mutation ::
    "keys_db \<Rightarrow> timestamp \<Rightarrow> access_context \<Rightarrow> uuid \<Rightarrow> api_error + api_key \<times> access_context \<times> user" where
  "lock_api_key_mutation db now access kid =
     (if \<not> may_manage (ac_user access) (find_key db kid) then Inl api_key_not_found
      else bind_r (locked_actor [''api-key:manage''] db now access) (\<lambda>current.
        if \<not> may_manage (ac_user current) (find_key db kid) then Inl api_key_not_found
        else (case find_key db kid of
                None \<Rightarrow> Inl api_key_not_found
              | Some key \<Rightarrow>
                  (case find_user (x_auth db) (ak_user_id key) of
                     None \<Rightarrow> Inl user_not_found
                   | Some target \<Rightarrow> Inr (key, current, target)))))"

definition lock_api_key_creation ::
    "keys_db \<Rightarrow> timestamp \<Rightarrow> access_context \<Rightarrow> uuid \<Rightarrow> api_error + access_context \<times> user" where
  "lock_api_key_creation db now access target_user_id =
     bind_r (locked_actor [''api-key:manage''] db now access) (\<lambda>current.
     (case find_user (x_auth db) target_user_id of
        None \<Rightarrow> Inl user_not_found
      | Some candidate \<Rightarrow>
          if u_id candidate \<noteq> u_id (ac_user current) \<and> \<not> u_is_superuser (ac_user current)
          then Inl (ApiError 403 ''api_key_escalation_denied'')
          else if \<not> active_user candidate then Inl user_not_found
          else Inr (current, candidate)))"

definition list_api_keys ::
    "keys_db \<Rightarrow> user \<Rightarrow> uuid option \<Rightarrow> bool \<Rightarrow> nat \<Rightarrow> nat \<Rightarrow> api_key list" where
  "list_api_keys db actor user_id include_revoked limit offset =
     (if \<not> u_is_superuser actor \<and> user_id \<noteq> None \<and> user_id \<noteq> Some (u_id actor) then []
      else take limit (drop offset (sort_key (\<lambda>k. - ak_created_at k) (sort_key ak_id
             (filter (\<lambda>k. (if \<not> u_is_superuser actor then ak_user_id k = u_id actor
                            else user_id = None \<or> user_id = Some (ak_user_id k)) \<and>
                          (include_revoked \<or> ak_revoked_at k = None)) (x_keys db))))))"

record api_key_create =
  ck_name :: string
  ck_user_id :: "uuid option"
  ck_permission_codes :: "string list"
  ck_knowledge_base_ids :: "uuid list"
  ck_expires_at :: "timestamp option"
  ck_requests_per_minute :: int

record key_ids =
  ki_id :: uuid
  ki_family :: uuid
  ki_secret :: string

text \<open>Primary key, unique hash, the row check, and the partial unique index of the active family.\<close>

definition insert_key :: "api_key \<Rightarrow> keys_db \<Rightarrow> api_error + keys_db" where
  "insert_key k db =
     (if \<not> api_key_checks k \<or>
         (\<exists>x \<in> set (x_keys db). ak_id x = ak_id k \<or> ak_key_hash x = ak_key_hash k \<or>
            (ak_credential_family_id x = ak_credential_family_id k \<and>
             ak_revoked_at x = None \<and> ak_revoked_at k = None))
      then Inl unhandled else Inr (db\<lparr>x_keys := x_keys db @ [k]\<rparr>))"

type_synonym 'a keys_outcome = "(api_error + 'a) \<times> keys_db"

definition or_rollback :: "keys_db \<Rightarrow> api_error + 'a \<times> keys_db \<Rightarrow> 'a keys_outcome" where
  "or_rollback db m = (case m of Inl e \<Rightarrow> (Inl e, db) | Inr (x, db') \<Rightarrow> (Inr x, db'))"

definition create_api_key ::
    "crypto_ops \<Rightarrow> timestamp \<Rightarrow> key_ids \<Rightarrow> string option \<Rightarrow> access_context \<Rightarrow> api_key_create \<Rightarrow> keys_db \<Rightarrow>
     (api_key \<times> string) keys_outcome" where
  "create_api_key co now ids request_id access payload db =
     or_rollback db
      (bind_r (lock_api_key_creation db now access
         (case ck_user_id payload of None \<Rightarrow> u_id (ac_user access) | Some u \<Rightarrow> u)) (\<lambda>(current, target).
       let requested = remdups (ck_permission_codes payload);
           target_access = resolve (x_rbac db) now target
       in if \<not> set requested \<subseteq> set public_api_permissions
          then Inl (ApiError 422 ''unsupported_api_key_permission'')
          else if \<exists>p \<in> set requested. \<not> allows target_access p
          then Inl (ApiError 422 ''api_key_permission_escalation'')
          else bind_r (fold_r (\<lambda>_ kid. bind_r (require_knowledge_base_access (x_kb db) target_access kid READER) (\<lambda>_. Inr ()))
                 () (ck_knowledge_base_ids payload)) (\<lambda>_.
               if (case ck_expires_at payload of None \<Rightarrow> False | Some t \<Rightarrow> t \<le> now)
               then Inl (ApiError 422 ''invalid_api_key_expiry'')
               else (case generate_api_key co (ki_secret ids) of
                 (cleartext, fingerprint, shown) \<Rightarrow>
                   (let key = \<lparr>ak_id = ki_id ids, ak_user_id = u_id target, ak_created_by = Some (u_id (ac_user current)),
                          ak_credential_family_id = ki_family ids, ak_name = ck_name payload,
                          ak_key_hash = fingerprint, ak_key_prefix = shown,
                          ak_permission_codes = sort requested,
                          ak_knowledge_base_ids = sort (map (co_str_uuid co) (ck_knowledge_base_ids payload)),
                          ak_requests_per_minute = ck_requests_per_minute payload,
                          ak_expires_at = ck_expires_at payload, ak_revoked_at = None,
                          ak_last_used_at = None, ak_created_at = now\<rparr>
                    in bind_r (insert_key key db) (\<lambda>db1.
                       Inr ((key, cleartext),
                            audit_key co now ''api_key.created'' SUCCESS (u_id (ac_user current)) (ak_id key) request_id
                              (JObj [(''target_user_id'', JStr (co_str_uuid co (u_id target))),
                                     (''key_prefix'', JStr (ak_key_prefix key)),
                                     (''permission_codes'', JList (map JStr (ak_permission_codes key))),
                                     (''knowledge_base_ids'', JList (map JStr (ak_knowledge_base_ids key))),
                                     (''requests_per_minute'', JInt (ak_requests_per_minute key)),
                                     (''expires_at'', json_time (ck_expires_at payload))]) db1)))))))"

definition replacement_key :: "crypto_ops \<Rightarrow> timestamp \<Rightarrow> key_ids \<Rightarrow> uuid \<Rightarrow> api_key \<Rightarrow> api_key \<times> string" where
  "replacement_key co now ids actor previous =
     (case generate_api_key co (ki_secret ids) of
        (cleartext, fingerprint, shown) \<Rightarrow>
          (previous\<lparr>ak_id := ki_id ids, ak_created_by := Some actor, ak_key_hash := fingerprint,
             ak_key_prefix := shown, ak_revoked_at := None, ak_last_used_at := None, ak_created_at := now\<rparr>,
           cleartext))"

text \<open>The writes of a rotation: revoke, insert the replacement, move the key's budget policies to it.\<close>

definition rotate_rows ::
    "crypto_ops \<Rightarrow> timestamp \<Rightarrow> string option \<Rightarrow> uuid \<Rightarrow> api_key \<Rightarrow> api_key \<times> string \<Rightarrow> keys_db \<Rightarrow>
     api_error + (api_key \<times> string) \<times> keys_db" where
  "rotate_rows co now request_id actor previous new db =
     (let replacement = fst new
      in bind_r (insert_key replacement (write_key (ak_id previous) (\<lambda>k. k\<lparr>ak_revoked_at := Some now\<rparr>) db)) (\<lambda>db1.
         Inr (new, audit_key co now ''api_key.rotated'' SUCCESS actor (ak_id replacement) request_id
           (JObj [(''previous_api_key_id'', JStr (co_str_uuid co (ak_id previous))),
                  (''replacement_api_key_id'', JStr (co_str_uuid co (ak_id replacement))),
                  (''credential_family_id'', JStr (co_str_uuid co (ak_credential_family_id replacement))),
                  (''previous_key_prefix'', JStr (ak_key_prefix previous)),
                  (''replacement_key_prefix'', JStr (ak_key_prefix replacement))])
           (db1\<lparr>x_llm := (x_llm db1)\<lparr>g_policies := update_where
               (\<lambda>p. bp_api_key_id p = Some (ak_id previous))
               (\<lambda>p. p\<lparr>bp_api_key_id := Some (ak_id replacement)\<rparr>) (g_policies (x_llm db1))\<rparr>\<rparr>))))"

definition rotate_api_key ::
    "crypto_ops \<Rightarrow> timestamp \<Rightarrow> key_ids \<Rightarrow> string option \<Rightarrow> access_context \<Rightarrow> uuid \<Rightarrow> keys_db \<Rightarrow>
     (api_key \<times> string) keys_outcome" where
  "rotate_api_key co now ids request_id access kid db =
     (case lock_api_key_mutation db now access kid of
        Inl e \<Rightarrow> (Inl e, db)
      | Inr (previous, current, target) \<Rightarrow>
          if ak_revoked_at previous \<noteq> None \<or> (case ak_expires_at previous of None \<Rightarrow> False | Some t \<Rightarrow> t \<le> now)
          then (Inl (ApiError 409 ''api_key_not_rotatable''), db)
          else if \<not> active_user target then (Inl user_not_found, db)
          else (case deny_if_active_external_llm_egress co now (ac_user current) request_id
                       (key_revocation co ''api_key_rotation'' (ak_id previous)) db of
                  Some (e, db1) \<Rightarrow> (Inl e, db1)
                | None \<Rightarrow> or_rollback db (rotate_rows co now request_id (u_id (ac_user current)) previous
                            (replacement_key co now ids (u_id (ac_user current)) previous) db)))"

definition revoke_api_key ::
    "crypto_ops \<Rightarrow> timestamp \<Rightarrow> string option \<Rightarrow> access_context \<Rightarrow> uuid \<Rightarrow> keys_db \<Rightarrow> unit keys_outcome" where
  "revoke_api_key co now request_id access kid db =
     (case lock_api_key_mutation db now access kid of
        Inl e \<Rightarrow> (Inl e, db)
      | Inr (key, current, _) \<Rightarrow>
          if ak_revoked_at key \<noteq> None then (Inr (), db)
          else (case deny_if_active_external_llm_egress co now (ac_user current) request_id
                       (key_revocation co ''api_key'' (ak_id key)) db of
                  Some (e, db1) \<Rightarrow> (Inl e, db1)
                | None \<Rightarrow>
                    (Inr (), audit_key co now ''api_key.revoked'' SUCCESS (u_id (ac_user current)) (ak_id key) request_id
                       (JObj [(''target_user_id'', JStr (co_str_uuid co (ak_user_id key))),
                              (''key_prefix'', JStr (ak_key_prefix key))])
                       (write_key (ak_id key) (\<lambda>k. k\<lparr>ak_revoked_at := Some now\<rparr>) db))))"

section \<open>Lemmas on authentication\<close>

lemma audit_row_frame [simp]:
  "x_keys (audit_row now a res rt act rid rq d db) = x_keys db"
  "x_llm (audit_row now a res rt act rid rq d db) = x_llm db"
  "x_kb (audit_row now a res rt act rid rq d db) = x_kb db"
  "x_rbac (audit_row now a res rt act rid rq d db) = x_rbac db"
  "find_user (x_auth (audit_row now a res rt act rid rq d db)) = find_user (x_auth db)"
  "a_tokens (x_auth (audit_row now a res rt act rid rq d db)) = a_tokens (x_auth db)"
  by (simp_all add: audit_row_def x_rbac_def)

lemma write_key_frame [simp]:
  "x_keys (write_key kid f db) = update_where (\<lambda>k. ak_id k = kid) f (x_keys db)"
  "x_auth (write_key kid f db) = x_auth db" "x_kb (write_key kid f db) = x_kb db" "x_llm (write_key kid f db) = x_llm db"
  "x_rbac (write_key kid f db) = x_rbac db"
  by (simp_all add: write_key_def x_rbac_def)

lemma authenticateD:
  assumes "authenticate_api_key co now cleartext db = Inr (ax, db')"
  obtains sec key user kids where "cleartext = Some sec" "find (\<lambda>k. ak_key_hash k = api_key_hash co sec) (x_keys db) = Some key"
    "ak_revoked_at key = None" "\<And>t. ak_expires_at key = Some t \<Longrightarrow> now < t"
    "find_user (x_auth db) (ak_user_id key) = Some user" "active_user user"
    "parse_uuids co (ak_knowledge_base_ids key) = Some kids" "ax_knowledge_base_ids ax = kids"
    "ax_access ax = (resolve (x_rbac db) now user)\<lparr>ac_permissions := filter (\<lambda>p. p \<in> set public_api_permissions \<and>
        allows (resolve (x_rbac db) now user) p) (ak_permission_codes key)\<rparr>"
    "ax_api_key ax = key \<or> ax_api_key ax = key\<lparr>ak_last_used_at := Some now\<rparr>"
    "x_keys db' = x_keys db \<or>
     x_keys db' = update_where (\<lambda>k. ak_id k = ak_id key) (\<lambda>_. key\<lparr>ak_last_used_at := Some now\<rparr>) (x_keys db)"
proof -
  from assms obtain sec where t: "cleartext = Some sec"
    by (cases cleartext) (auto simp: authenticate_api_key_def)
  from assms t obtain key where k: "find (\<lambda>k. ak_key_hash k = api_key_hash co sec) (x_keys db) = Some key"
    by (auto simp: authenticate_api_key_def split: if_split_asm option.split_asm)
  from assms t k obtain user where u: "find_user (x_auth db) (ak_user_id key) = Some user"
    by (auto simp: authenticate_api_key_def split: if_split_asm option.split_asm)
  from assms t k u obtain kids where p: "parse_uuids co (ak_knowledge_base_ids key) = Some kids"
    by (auto simp: authenticate_api_key_def Let_def split: if_split_asm option.split_asm)
  from assms t k u p have g: "ak_revoked_at key = None" "\<And>x. ak_expires_at key = Some x \<Longrightarrow> now < x" "active_user user"
    by (auto simp: authenticate_api_key_def split: if_split_asm option.split_asm)
  let ?ctx = "(resolve (x_rbac db) now user)\<lparr>ac_permissions := filter (\<lambda>p. p \<in> set public_api_permissions \<and>
        allows (resolve (x_rbac db) now user) p) (ak_permission_codes key)\<rparr>"
  let ?used = "key\<lparr>ak_last_used_at := Some now\<rparr>"
  from assms t k u p g have "(ax, db') = (\<lparr>ax_api_key = key, ax_access = ?ctx, ax_knowledge_base_ids = kids\<rparr>, db) \<or>
      (ax, db') = (\<lparr>ax_api_key = ?used, ax_access = ?ctx, ax_knowledge_base_ids = kids\<rparr>, write_key (ak_id key) (\<lambda>_. ?used) db)"
    unfolding authenticate_api_key_def Let_def by (simp split: if_split_asm) (elim disjE conjE; simp)+
  then have o: "ax_knowledge_base_ids ax = kids"
    "ax_access ax = (resolve (x_rbac db) now user)\<lparr>ac_permissions := filter (\<lambda>p. p \<in> set public_api_permissions \<and>
        allows (resolve (x_rbac db) now user) p) (ak_permission_codes key)\<rparr>"
    "ax_api_key ax = key \<or> ax_api_key ax = key\<lparr>ak_last_used_at := Some now\<rparr>"
    "x_keys db' = x_keys db \<or>
     x_keys db' = update_where (\<lambda>k. ak_id k = ak_id key) (\<lambda>_. key\<lparr>ak_last_used_at := Some now\<rparr>) (x_keys db)"
    by auto
  show thesis by (rule that[OF t k g(1,2) u g(3) p o])
qed

text \<open>No public permission contains a wildcard, so a scoped context allows exactly its codes.\<close>

lemma allows_public:
  assumes "set ps \<subseteq> set public_api_permissions"
  shows "has_permission ps p \<longleftrightarrow> p \<in> set ps"
proof -
  have pub: "p \<noteq> ''*'' \<and> last p \<noteq> CHR ''*''" if "p \<in> set ps" for p
    using assms that by (auto simp: public_api_permissions_def)
  then have "''*'' \<notin> set ps" by blast
  moreover have "res @ '':*'' \<notin> set ps" for res using pub[of "res @ '':*''"] by auto
  ultimately show ?thesis by (auto simp: has_permission_def split: prod.split)
qed

section \<open>The key table\<close>

definition one_active :: "api_key list \<Rightarrow> bool" where
  "one_active rows \<longleftrightarrow> (\<forall>a \<in> set rows. \<forall>b \<in> set rows. ak_credential_family_id a = ak_credential_family_id b \<longrightarrow>
     ak_revoked_at a = None \<longrightarrow> ak_revoked_at b = None \<longrightarrow> ak_id a = ak_id b)"

lemma one_activeI:
  "(\<And>a b. a \<in> set rows \<Longrightarrow> b \<in> set rows \<Longrightarrow> ak_credential_family_id a = ak_credential_family_id b \<Longrightarrow>
     ak_revoked_at a = None \<Longrightarrow> ak_revoked_at b = None \<Longrightarrow> ak_id a = ak_id b) \<Longrightarrow> one_active rows"
  unfolding one_active_def by blast

lemma one_activeD:
  "one_active rows \<Longrightarrow> a \<in> set rows \<Longrightarrow> b \<in> set rows \<Longrightarrow> ak_credential_family_id a = ak_credential_family_id b \<Longrightarrow>
   ak_revoked_at a = None \<Longrightarrow> ak_revoked_at b = None \<Longrightarrow> ak_id a = ak_id b"
  unfolding one_active_def by blast

definition keys_inv :: "keys_db \<Rightarrow> bool" where
  "keys_inv db \<longleftrightarrow> keyed ak_id (x_keys db) \<and> keyed ak_key_hash (x_keys db) \<and> one_active (x_keys db)"

definition later_key :: "api_key \<Rightarrow> api_key \<Rightarrow> bool" where
  "later_key k k' \<longleftrightarrow> ak_id k' = ak_id k \<and> ak_key_hash k' = ak_key_hash k \<and>
     ak_credential_family_id k' = ak_credential_family_id k \<and> (ak_revoked_at k' = None \<longrightarrow> ak_revoked_at k = None)"

lemma later_key_simps [simp]:
  "later_key k k" "later_key k (k\<lparr>ak_revoked_at := Some t\<rparr>)" "later_key k (k\<lparr>ak_last_used_at := u\<rparr>)"
  by (simp_all add: later_key_def)

lemma later_key_trans: "later_key a b \<Longrightarrow> later_key b c \<Longrightarrow> later_key a c"
  by (simp add: later_key_def)

text \<open>An update of rows that never un-revokes keeps the invariant, and so does the insertion of a new row.\<close>

definition rows_updated :: "(api_key \<Rightarrow> api_key) \<Rightarrow> api_key list \<Rightarrow> bool" where
  "rows_updated f rows \<longleftrightarrow> (\<forall>k \<in> set rows. later_key k (f k))"

lemma keys_inv_map:
  assumes inv: "keys_inv db" and upd: "rows_updated f (x_keys db)" and rows: "x_keys db' = map f (x_keys db)"
  shows "keys_inv db'"
proof -
  have m: "map ak_id (map f (x_keys db)) = map ak_id (x_keys db)"
    "map ak_key_hash (map f (x_keys db)) = map ak_key_hash (x_keys db)"
    using upd by (simp_all add: rows_updated_def later_key_def)
  have keys: "keyed ak_id (x_keys db')" "keyed ak_key_hash (x_keys db')"
    using inv unfolding keys_inv_def keyed_def rows m by blast+
  have "one_active (map f (x_keys db))"
  proof (rule one_activeI)
    fix x y assume "x \<in> set (map f (x_keys db))" "y \<in> set (map f (x_keys db))"
      and eq: "ak_credential_family_id x = ak_credential_family_id y" "ak_revoked_at x = None" "ak_revoked_at y = None"
    then obtain a b where ab: "a \<in> set (x_keys db)" "b \<in> set (x_keys db)" "x = f a" "y = f b" by auto
    have l: "later_key a x" "later_key b y" using upd ab by (simp_all add: rows_updated_def)
    then have "ak_id a = ak_id b"
      using inv ab eq unfolding keys_inv_def by (intro one_activeD[of "x_keys db"]) (auto simp: later_key_def)
    with l show "ak_id x = ak_id y" by (simp add: later_key_def)
  qed
  with keys show ?thesis unfolding keys_inv_def rows by blast
qed

lemma keys_inv_insert:
  assumes inv: "keys_inv db" and ins: "insert_key k db = Inr db'"
  shows "keys_inv db' \<and> x_keys db' = x_keys db @ [k] \<and> x_auth db' = x_auth db \<and> x_llm db' = x_llm db"
proof -
  from ins have db': "db' = db\<lparr>x_keys := x_keys db @ [k]\<rparr>"
    and new: "\<And>x. x \<in> set (x_keys db) \<Longrightarrow> ak_id x \<noteq> ak_id k \<and> ak_key_hash x \<noteq> ak_key_hash k \<and>
      \<not> (ak_credential_family_id x = ak_credential_family_id k \<and> ak_revoked_at x = None \<and> ak_revoked_at k = None)"
    by (auto simp: insert_key_def split: if_split_asm)
  have keys: "keyed ak_id (x_keys db @ [k])" "keyed ak_key_hash (x_keys db @ [k])"
    using inv new unfolding keys_inv_def keyed_append by force+
  have old: "one_active (x_keys db)" using inv by (simp add: keys_inv_def)
  have "one_active (x_keys db @ [k])"
  proof (rule one_activeI)
    fix a b assume ab: "a \<in> set (x_keys db @ [k])" "b \<in> set (x_keys db @ [k])"
      and eq: "ak_credential_family_id a = ak_credential_family_id b" "ak_revoked_at a = None" "ak_revoked_at b = None"
    consider "a \<in> set (x_keys db)" "b \<in> set (x_keys db)" | "a \<in> set (x_keys db)" "b = k" | "a = k" "b \<in> set (x_keys db)" | "a = k" "b = k"
      using ab by auto
    then show "ak_id a = ak_id b"
    proof cases
      case 1
      then show ?thesis using one_activeD[OF old] eq by blast
    next
      case 2
      with new[of a] eq show ?thesis by simp
    next
      case 3
      with new[of b] eq show ?thesis by simp
    qed simp
  qed
  with keys show ?thesis by (simp add: db' keys_inv_def)
qed

lemma insert_key_new: "insert_key k db = Inr db' \<Longrightarrow> ak_id k \<notin> ak_id ` set (x_keys db)"
  by (auto simp: insert_key_def split: if_split_asm)

lemma update_where_map: "update_where p f rows = map (\<lambda>r. if p r then f r else r) rows"
  by (simp add: update_where_def)

definition keys_evolve :: "keys_db \<Rightarrow> keys_db \<Rightarrow> bool" where
  "keys_evolve db db' \<longleftrightarrow> keys_inv db' \<and> (\<forall>k \<in> set (x_keys db). \<exists>k' \<in> set (x_keys db'). later_key k k')"

lemma keys_evolve_same: "keys_inv db \<Longrightarrow> x_keys db' = x_keys db \<Longrightarrow> keys_evolve db db'"
  by (auto simp: keys_evolve_def keys_inv_def intro: later_key_simps(1))

lemma keys_evolve_update:
  assumes inv: "keys_inv db" and rows: "x_keys db' = update_where p f (x_keys db)"
    and f: "\<And>k. k \<in> set (x_keys db) \<Longrightarrow> p k \<Longrightarrow> later_key k (f k)"
  shows "keys_evolve db db'"
proof -
  have upd: "rows_updated (\<lambda>k. if p k then f k else k) (x_keys db)" using f by (simp add: rows_updated_def)
  then have "keys_inv db'" using keys_inv_map[OF inv upd] rows by (simp add: update_where_map)
  moreover have "\<exists>k' \<in> set (x_keys db'). later_key k k'" if "k \<in> set (x_keys db)" for k
    using upd that unfolding rows update_where_map rows_updated_def set_map by blast
  ultimately show ?thesis by (simp add: keys_evolve_def)
qed

lemma keys_evolve_insert:
  assumes "keys_inv db" "insert_key k db = Inr db'"
  shows "keys_evolve db db'"
  using keys_inv_insert[OF assms] by (auto simp: keys_evolve_def intro: later_key_simps(1))

lemma keys_evolve_trans: "keys_evolve a b \<Longrightarrow> keys_evolve b c \<Longrightarrow> keys_evolve a c"
  unfolding keys_evolve_def using later_key_trans by blast

lemma keys_evolve_cong: "keys_evolve a b \<Longrightarrow> x_keys c = x_keys b \<Longrightarrow> keys_evolve a c"
  by (simp add: keys_evolve_def keys_inv_def)

lemma authenticate_evolves:
  assumes inv: "keys_inv db" and ok: "authenticate_api_key co now t db = Inr (ax, db')"
  shows "keys_evolve db db'"
proof -
  obtain sec key where k: "find (\<lambda>k. ak_key_hash k = api_key_hash co sec) (x_keys db) = Some key"
    and rows: "x_keys db' = x_keys db \<or>
     x_keys db' = update_where (\<lambda>k. ak_id k = ak_id key) (\<lambda>_. key\<lparr>ak_last_used_at := Some now\<rparr>) (x_keys db)"
    by (rule authenticateD[OF ok]) (rule that; assumption)
  from rows show ?thesis
  proof
    assume "x_keys db' = x_keys db"
    then show ?thesis by (rule keys_evolve_same[OF inv])
  next
    assume rows: "x_keys db' = update_where (\<lambda>k. ak_id k = ak_id key) (\<lambda>_. key\<lparr>ak_last_used_at := Some now\<rparr>) (x_keys db)"
    have "later_key x (key\<lparr>ak_last_used_at := Some now\<rparr>)" if "x \<in> set (x_keys db)" "ak_id x = ak_id key" for x
    proof -
      have "x = key" using inv that find_Some_in_set[OF k] unfolding keys_inv_def by (metis keyed_unique)
      then show ?thesis by simp
    qed
    then show ?thesis by (rule keys_evolve_update[OF inv rows])
  qed
qed

lemma deny_frame:
  "deny_if_active_external_llm_egress co now actor rq rv db = Some (e, db') \<Longrightarrow> x_keys db' = x_keys db"
  by (auto simp: deny_if_active_external_llm_egress_def split: option.split_asm)

lemma or_rollback_cases:
  assumes "or_rollback db m = (res, db')"
  obtains e where "m = Inl e" "res = Inl e" "db' = db" | x where "m = Inr (x, db')" "res = Inr x"
  using assms by (cases m) (auto simp: or_rollback_def)

lemma createD:
  assumes "create_api_key co now ids rq access payload db = (Inr (key, clear), db')"
  obtains current target db1 where "lock_api_key_creation db now access
      (case ck_user_id payload of None \<Rightarrow> u_id (ac_user access) | Some u \<Rightarrow> u) = Inr (current, target)"
    "set (ak_permission_codes key) \<subseteq> set public_api_permissions"
    "\<forall>p \<in> set (ak_permission_codes key). allows (resolve (x_rbac db) now target) p"
    "\<forall>kid \<in> set (ck_knowledge_base_ids payload). is_ok (require_knowledge_base_access (x_kb db) (resolve (x_rbac db) now target) kid READER)"
    "ak_user_id key = u_id target" "ak_key_hash key = api_key_hash co clear" "ak_revoked_at key = None"
    "ak_knowledge_base_ids key = sort (map (co_str_uuid co) (ck_knowledge_base_ids payload))"
    "insert_key key db = Inr db1" "x_keys db' = x_keys db1"
proof -
  have chk: "fold_r (\<lambda>_ kid. bind_r (require_knowledge_base_access kdb ctx kid READER) (\<lambda>_. Inr ())) () kids = Inr u \<longleftrightarrow>
      (\<forall>kid \<in> set kids. is_ok (require_knowledge_base_access kdb ctx kid READER))" for kdb ctx kids u
    by (subst fold_r_check) (auto simp: is_ok_iff result_simps)
  show thesis
    using assms that unfolding create_api_key_def Let_def
    by (auto simp: or_rollback_def result_simps chk generate_api_key_def Let_def split: sum.split_asm if_split_asm prod.split_asm)
qed

lemma create_evolves:
  assumes inv: "keys_inv db" and run: "create_api_key co now ids rq access payload db = (res, db')"
  shows "keys_evolve db db'"
proof (cases res)
  case (Inl e)
  then have "db' = db" using run unfolding create_api_key_def by (auto elim: or_rollback_cases)
  then show ?thesis using keys_evolve_same[OF inv] by simp
next
  case (Inr kc)
  obtain key clear where kc: "kc = (key, clear)" by (cases kc)
  obtain db1 where "insert_key key db = Inr db1" "x_keys db' = x_keys db1"
    using createD[OF run[unfolded Inr kc]] by metis
  then show ?thesis using keys_evolve_cong[OF keys_evolve_insert[OF inv]] by blast
qed

text \<open>What rotating and revoking did.\<close>

lemma lock_mutationD:
  "lock_api_key_mutation db now access kid = Inr (key, current, target) \<Longrightarrow> find_key db kid = Some key \<and>
   (u_is_superuser (ac_user current) \<or> ak_user_id key = u_id (ac_user current)) \<and>
   find_user (x_auth db) (ak_user_id key) = Some target \<and> locked_actor [''api-key:manage''] db now access = Inr current"
  by (auto simp: lock_api_key_mutation_def result_simps may_manage_def split: if_split_asm option.split_asm)

lemma lock_creationD:
  "lock_api_key_creation db now access uid = Inr (current, target) \<Longrightarrow> locked_actor [''api-key:manage''] db now access = Inr current \<and>
   find_user (x_auth db) uid = Some target \<and> active_user target \<and>
   (u_id target = u_id (ac_user current) \<or> u_is_superuser (ac_user current))"
proof -
  assume "lock_api_key_creation db now access uid = Inr (current, target)"
  then obtain cur where a: "locked_actor [''api-key:manage''] db now access = Inr cur"
    and b: "(case find_user (x_auth db) uid of None \<Rightarrow> Inl user_not_found
      | Some candidate \<Rightarrow> if u_id candidate \<noteq> u_id (ac_user cur) \<and> \<not> u_is_superuser (ac_user cur)
          then Inl (ApiError 403 ''api_key_escalation_denied'')
          else if \<not> active_user candidate then Inl user_not_found else Inr (cur, candidate)) = Inr (current, target)"
    unfolding lock_api_key_creation_def bind_r_eq_Inr by blast
  from b have "cur = current \<and> find_user (x_auth db) uid = Some target \<and> active_user target \<and>
      (u_id target = u_id (ac_user cur) \<or> u_is_superuser (ac_user cur))"
    by (simp split: option.split_asm if_split_asm)
  with a show ?thesis by blast
qed

lemma find_keyD: "find_key db kid = Some k \<Longrightarrow> k \<in> set (x_keys db) \<and> ak_id k = kid"
  by (auto simp: find_key_def dest: find_Some_in_set)

lemma rotate_cases:
  assumes run: "rotate_api_key co now ids rq access kid db = (res, db')"
  obtains (refused) e where "res = Inl e" "x_keys db' = x_keys db"
  | (rotated) previous actor new db1 where "find_key db kid = Some previous" "ak_revoked_at previous = None"
      "new = replacement_key co now ids actor previous" "res = Inr new"
      "insert_key (fst new) (write_key kid (\<lambda>k. k\<lparr>ak_revoked_at := Some now\<rparr>) db) = Inr db1" "x_keys db' = x_keys db1"
      "g_policies (x_llm db') = update_where (\<lambda>p. bp_api_key_id p = Some kid) (\<lambda>p. p\<lparr>bp_api_key_id := Some (ak_id (fst new))\<rparr>)
         (g_policies (x_llm db1))"
proof (cases "lock_api_key_mutation db now access kid")
  case (Inl e)
  with run show thesis by (intro refused[of e]) (auto simp: rotate_api_key_def)
next
  case (Inr t)
  obtain previous current target where t: "t = (previous, current, target)" by (cases t)
  note l = lock_mutationD[OF Inr[unfolded t]]
  have kid: "ak_id previous = kid" using l find_keyD by blast
  let ?deny = "deny_if_active_external_llm_egress co now (ac_user current) rq (key_revocation co ''api_key_rotation'' (ak_id previous)) db"
  let ?new = "replacement_key co now ids (u_id (ac_user current)) previous"
  consider (no) "\<exists>e. res = Inl e \<and> x_keys db' = x_keys db"
    | (yes) "ak_revoked_at previous = None" "or_rollback db (rotate_rows co now rq (u_id (ac_user current)) previous ?new db) = (res, db')"
    using run Inr t by (cases ?deny) (auto simp: rotate_api_key_def dest: deny_frame split: if_split_asm)
  then show thesis
  proof cases
    case no
    then show thesis using refused by blast
  next
    case yes
    from yes(2) show thesis
    proof (cases rule: or_rollback_cases)
      case (1 e)
      then show thesis by (intro refused) simp_all
    next
      case (2 x)
      then show thesis
        using l kid yes(1) by (auto simp: rotate_rows_def Let_def result_simps intro!: rotated)
    qed
  qed
qed

lemma revoke_cases:
  assumes run: "revoke_api_key co now rq access kid db = (res, db')"
  obtains (unchanged) "x_keys db' = x_keys db" "is_ok res \<Longrightarrow> \<exists>k. find_key db kid = Some k \<and> ak_revoked_at k \<noteq> None"
  | (revoked) key where "find_key db kid = Some key" "ak_revoked_at key = None" "res = Inr ()"
      "x_keys db' = update_where (\<lambda>k. ak_id k = kid) (\<lambda>k. k\<lparr>ak_revoked_at := Some now\<rparr>) (x_keys db)"
proof (cases "lock_api_key_mutation db now access kid")
  case (Inl e)
  with run show thesis by (intro unchanged) (auto simp: revoke_api_key_def)
next
  case (Inr t)
  obtain key current target where t: "t = (key, current, target)" by (cases t)
  note l = lock_mutationD[OF Inr[unfolded t]]
  have kid: "ak_id key = kid" using l find_keyD by blast
  show thesis
  proof (cases "ak_revoked_at key = None \<and> deny_if_active_external_llm_egress co now (ac_user current) rq (key_revocation co ''api_key'' (ak_id key)) db = None")
    case True
    with run Inr t l kid show thesis by (intro revoked[of key]) (auto simp: revoke_api_key_def)
  next
    case False
    then have "x_keys db' = x_keys db \<and> (is_ok res \<longrightarrow> ak_revoked_at key \<noteq> None)"
      using run Inr t by (auto simp: revoke_api_key_def dest: deny_frame split: if_split_asm)
    with l show thesis by (intro unchanged) auto
  qed
qed

lemma revoke_write_evolves:
  "keys_inv db \<Longrightarrow> keys_evolve db (write_key kid (\<lambda>k. k\<lparr>ak_revoked_at := Some now\<rparr>) db)"
  by (rule keys_evolve_update[where p = "\<lambda>k. ak_id k = kid" and f = "\<lambda>k. k\<lparr>ak_revoked_at := Some now\<rparr>"]) simp_all

lemma rotate_evolves_keys:
  assumes inv: "keys_inv db" and run: "rotate_api_key co now ids rq access kid db = (res, db')"
  shows "keys_evolve db db'"
  using run
proof (cases rule: rotate_cases)
  case (refused e)
  then show ?thesis using keys_evolve_same[OF inv] by blast
next
  case (rotated previous actor new db1)
  let ?w = "write_key kid (\<lambda>k. k\<lparr>ak_revoked_at := Some now\<rparr>) db"
  have w: "keys_evolve db ?w" by (rule revoke_write_evolves[OF inv])
  then have "keys_inv ?w" by (simp add: keys_evolve_def)
  from keys_evolve_trans[OF w keys_evolve_insert[OF this rotated(5)]] rotated(6) show ?thesis
    by (rule keys_evolve_cong)
qed

lemma revoke_evolves:
  assumes inv: "keys_inv db" and run: "revoke_api_key co now rq access kid db = (res, db')"
  shows "keys_evolve db db'"
  using run
proof (cases rule: revoke_cases)
  case unchanged
  then show ?thesis using keys_evolve_same[OF inv] by blast
next
  case (revoked key)
  then show ?thesis
    by (intro keys_evolve_update[where p = "\<lambda>k. ak_id k = kid" and f = "\<lambda>k. k\<lparr>ak_revoked_at := Some now\<rparr>", OF inv]) simp_all
qed

section \<open>Reachable states\<close>

text \<open>
  Any interleaving of key management, key authentication and the retirement of key owners with transactions of
  the other components, which do not write the key table.
\<close>

definition revoke_keys :: "timestamp \<Rightarrow> uuid \<Rightarrow> api_key list \<Rightarrow> api_key list" where
  "revoke_keys now uid = update_where (\<lambda>k. ak_user_id k = uid \<and> ak_revoked_at k = None) (\<lambda>k. k\<lparr>ak_revoked_at := Some now\<rparr>)"

inductive key_step :: "keys_db \<Rightarrow> keys_db \<Rightarrow> bool" where
  authenticate: "authenticate_api_key co now t db = Inr (ax, db') \<Longrightarrow> key_step db db'"
| create: "create_api_key co now ids rq access payload db = (res, db') \<Longrightarrow> key_step db db'"
| rotate: "rotate_api_key co now ids rq access kid db = (res2, db') \<Longrightarrow> key_step db db'"
| revoke: "revoke_api_key co now rq access kid db = (res3, db') \<Longrightarrow> key_step db db'"
| owner_retired: "x_keys db' = revoke_keys now uid (x_keys db) \<Longrightarrow> key_step db db'"
| elsewhere: "x_keys db' = x_keys db \<Longrightarrow> key_step db db'"

inductive keys_reachable :: "keys_db \<Rightarrow> bool" where
  start: "x_keys db = [] \<Longrightarrow> keys_reachable db"
| step: "keys_reachable db \<Longrightarrow> key_step db db' \<Longrightarrow> keys_reachable db'"

lemma key_step_evolves:
  assumes "key_step db db'" "keys_inv db"
  shows "keys_evolve db db'"
  using assms(1)
proof cases
  case (authenticate co now t ax)
  then show ?thesis by (rule authenticate_evolves[OF assms(2)])
next
  case (create co now ids rq access payload res)
  then show ?thesis by (rule create_evolves[OF assms(2)])
next
  case (rotate co now ids rq access kid res2)
  then show ?thesis by (rule rotate_evolves_keys[OF assms(2)])
next
  case (revoke co now rq access kid res3)
  then show ?thesis by (rule revoke_evolves[OF assms(2)])
next
  case (owner_retired now uid)
  then show ?thesis unfolding revoke_keys_def by (rule keys_evolve_update[OF assms(2)]) simp
next
  case elsewhere
  then show ?thesis by (rule keys_evolve_same[OF assms(2)])
qed

lemma keys_reachable_inv: "keys_reachable db \<Longrightarrow> keys_inv db"
proof (induction rule: keys_reachable.induct)
  case (start db)
  then show ?case by (simp add: keys_inv_def one_active_def)
next
  case (step db db')
  then show ?case using key_step_evolves by (simp add: keys_evolve_def)
qed

interpretation key_run: row_evolution key_step keys_inv x_keys later_key
proof unfold_locales
  show "keys_inv t" if "key_step s t" "keys_inv s" for s t
    using key_step_evolves[OF that] by (simp add: keys_evolve_def)
  show "\<exists>k' \<in> set (x_keys t). later_key k k'" if "key_step s t" "keys_inv s" "k \<in> set (x_keys s)" for s t k
    using key_step_evolves[OF that(1,2)] that(3) by (simp add: keys_evolve_def)
qed (simp_all add: later_key_trans)

lemma keys_reachable_steps: "key_step\<^sup>*\<^sup>* db db' \<Longrightarrow> keys_reachable db \<Longrightarrow> keys_reachable db'"
  by (induction rule: rtranclp_induct) (simp_all add: keys_reachable.step)

lemma revoked_key_rejected:
  assumes inv: "keys_inv db" and k: "k \<in> set (x_keys db)" "ak_revoked_at k \<noteq> None" "ak_key_hash k = api_key_hash co sec"
  shows "authenticate_api_key co now (Some sec) db = Inl invalid_api_key"
proof -
  have "find (\<lambda>x. ak_key_hash x = api_key_hash co sec) (x_keys db) = Some k"
    using keyed_find[of ak_key_hash "x_keys db" k] inv k by (simp add: keys_inv_def)
  with k(2) show ?thesis by (auto simp: authenticate_api_key_def)
qed

lemma revoked_stays_rejected:
  assumes inv: "keys_inv db" and k: "k \<in> set (x_keys db)" "ak_revoked_at k \<noteq> None" "ak_key_hash k = api_key_hash co sec"
    and later: "key_step\<^sup>*\<^sup>* db db'"
  shows "authenticate_api_key co now (Some sec) db' = Inl invalid_api_key"
proof -
  from key_run.row_kept[OF later inv k(1)] obtain k' where "k' \<in> set (x_keys db')" "later_key k k'" by blast
  moreover have "keys_inv db'" by (rule key_run.steps_inv[OF later inv])
  ultimately show ?thesis using k by (intro revoked_key_rejected[of db' k']) (auto simp: later_key_def)
qed

section \<open>Properties\<close>

text \<open>What an API key grants: an authenticated key is unrevoked and unexpired and its owner is active, and it
  allows exactly the public permissions that are both written on the key and allowed to its owner by the roles the owner
  holds at that moment.\<close>

theorem api_key_scope_exact:
  assumes "authenticate_api_key co now cleartext db = Inr (ax, db')"
  shows "\<exists>sec key user. cleartext = Some sec \<and> key \<in> set (x_keys db) \<and> ak_key_hash key = api_key_hash co sec \<and>
    ak_revoked_at key = None \<and> (\<forall>t. ak_expires_at key = Some t \<longrightarrow> now < t) \<and>
    find_user (x_auth db) (ak_user_id key) = Some user \<and> active_user user \<and> ac_user (ax_access ax) = user \<and>
    (\<forall>p. allows (ax_access ax) p \<longleftrightarrow>
       p \<in> {''chat:query'', ''knowledge:read''} \<and> p \<in> set (ak_permission_codes key) \<and> allows (resolve (x_rbac db) now user) p)"
proof -
  obtain sec key user where k: "cleartext = Some sec" "find (\<lambda>k. ak_key_hash k = api_key_hash co sec) (x_keys db) = Some key"
    "ak_revoked_at key = None" "\<And>t. ak_expires_at key = Some t \<Longrightarrow> now < t"
    "find_user (x_auth db) (ak_user_id key) = Some user" "active_user user"
    and acc: "ax_access ax = (resolve (x_rbac db) now user)\<lparr>ac_permissions := filter (\<lambda>p. p \<in> set public_api_permissions \<and>
        allows (resolve (x_rbac db) now user) p) (ak_permission_codes key)\<rparr>"
    by (rule authenticateD[OF assms]) (rule that; assumption)
  have pub: "set public_api_permissions = {''chat:query'', ''knowledge:read''}" by (simp add: public_api_permissions_def)
  have "allows (ax_access ax) p \<longleftrightarrow> p \<in> set public_api_permissions \<and> p \<in> set (ak_permission_codes key) \<and>
      allows (resolve (x_rbac db) now user) p" for p
    unfolding acc allows_def[of "_\<lparr>ac_permissions := _\<rparr>"] by (subst allows_public) auto
  then show ?thesis using k find_Some_in_set[OF k(2)] acc unfolding pub
    by (intro exI[of _ sec] exI[of _ key] exI[of _ user]) simp
qed

text \<open>C33. Revocation is for ever: after a successful revocation of a key, and after any further transactions, every
  attempt to authenticate with its secret is refused with 401.\<close>

theorem revoked_secret_never_authenticates:
  assumes "keys_reachable db" and "find_key db kid = Some k" and "ak_key_hash k = api_key_hash co sec"
    and "revoke_api_key co' now rq access kid db = (Inr (), db1)" and "key_step\<^sup>*\<^sup>* db1 db2"
  shows "authenticate_api_key co now2 (Some sec) db2 = Inl invalid_api_key"
proof -
  note inv = keys_reachable_inv[OF assms(1)] and kin = find_keyD[OF assms(2)]
  have inv1: "keys_inv db1" using revoke_evolves[OF inv assms(4)] by (simp add: keys_evolve_def)
  have "\<exists>k' \<in> set (x_keys db1). ak_revoked_at k' \<noteq> None \<and> ak_key_hash k' = ak_key_hash k"
    using assms(4)
  proof (cases rule: revoke_cases)
    case unchanged
    then show ?thesis using assms(2) kin by auto
  next
    case (revoked key)
    have "k\<lparr>ak_revoked_at := Some now\<rparr> \<in> set (x_keys db1)" using revoked(4) kin by (auto simp: set_update_where)
    then show ?thesis by (rule rev_bexI) simp
  qed
  then show ?thesis using revoked_stays_rejected[OF inv1 _ _ _ assms(5)] assms(3) by auto
qed

text \<open>Rotation replaces the secret and nothing else: the new key has the owner, family, name, permissions,
  knowledge bases, rate and expiry of the old one and is the only active key of its family, the budget policies of the
  old key follow it, and the old secret is refused in every later state.\<close>

theorem api_key_rotation_replaces_secret:
  assumes reach: "keys_reachable db" and old: "find_key db kid = Some k" "ak_key_hash k = api_key_hash co sec"
    and run: "rotate_api_key co' now ids rq access kid db = (Inr (new, clear), db1)" and later: "key_step\<^sup>*\<^sup>* db1 db2"
  shows "ak_key_hash new = api_key_hash co' clear \<and> ak_user_id new = ak_user_id k \<and>
    ak_credential_family_id new = ak_credential_family_id k \<and> ak_name new = ak_name k \<and>
    ak_permission_codes new = ak_permission_codes k \<and> ak_knowledge_base_ids new = ak_knowledge_base_ids k \<and>
    ak_requests_per_minute new = ak_requests_per_minute k \<and> ak_expires_at new = ak_expires_at k \<and>
    filter (\<lambda>x. ak_credential_family_id x = ak_credential_family_id k \<and> ak_revoked_at x = None) (x_keys db1) = [new] \<and>
    (\<forall>p \<in> set (g_policies (x_llm db1)). bp_api_key_id p \<noteq> Some kid) \<and>
    authenticate_api_key co now2 (Some sec) db2 = Inl invalid_api_key"
  using run
proof (cases rule: rotate_cases)
  case (refused e)
  then show ?thesis by simp
next
  case (rotated previous actor nw db0)
  note inv = keys_reachable_inv[OF reach] and kin = find_keyD[OF old(1)]
  let ?w = "write_key kid (\<lambda>k. k\<lparr>ak_revoked_at := Some now\<rparr>) db"
  have prev: "previous = k" "nw = (new, clear)" using rotated(1,4) old(1) by auto
  have new: "new = k\<lparr>ak_id := ki_id ids, ak_created_by := Some actor, ak_key_hash := api_key_hash co' clear,
      ak_key_prefix := take 20 clear, ak_revoked_at := None, ak_last_used_at := None, ak_created_at := now\<rparr>"
    using rotated(3) prev by (auto simp: replacement_key_def generate_api_key_def Let_def)
  have inv1: "keys_inv db1" using rotate_evolves_keys[OF inv run] by (simp add: keys_evolve_def)
  have w: "keys_inv ?w" using revoke_write_evolves[OF inv] by (simp add: keys_evolve_def)
  have rows: "x_keys db1 = update_where (\<lambda>k. ak_id k = kid) (\<lambda>k. k\<lparr>ak_revoked_at := Some now\<rparr>) (x_keys db) @ [new]"
    using keys_inv_insert[OF w rotated(5)] rotated(6) prev by simp
  have gone: "filter (\<lambda>x. ak_credential_family_id x = ak_credential_family_id k \<and> ak_revoked_at x = None)
      (update_where (\<lambda>k. ak_id k = kid) (\<lambda>k. k\<lparr>ak_revoked_at := Some now\<rparr>) (x_keys db)) = []"
  proof -
    have "\<not> (ak_credential_family_id x = ak_credential_family_id k \<and> ak_revoked_at x = None)"
      if "x \<in> set (update_where (\<lambda>k. ak_id k = kid) (\<lambda>k. k\<lparr>ak_revoked_at := Some now\<rparr>) (x_keys db))" for x
      using that
    proof (rule in_update_whereE)
      assume x: "x \<in> set (x_keys db)" "ak_id x \<noteq> kid"
      have "one_active (x_keys db)" using inv by (simp add: keys_inv_def)
      from one_activeD[OF this x(1), of k] x(2) kin rotated(2) prev show ?thesis by auto
    qed simp
    then show ?thesis by (simp add: filter_empty_conv)
  qed
  have "ak_id new \<notin> ak_id ` set (x_keys ?w)" using insert_key_new[OF rotated(5)] prev by simp
  moreover have "kid \<in> ak_id ` set (x_keys ?w)" using kin by (simp add: key_image_update_where) blast
  moreover have "ak_id new = ki_id ids" by (simp add: new)
  ultimately have kid: "kid \<noteq> ki_id ids" by metis
  have pol: "\<forall>p \<in> set (g_policies (x_llm db1)). bp_api_key_id p \<noteq> Some kid"
    unfolding rotated(7) using prev new kid by (auto simp: set_update_where)
  have "k\<lparr>ak_revoked_at := Some now\<rparr> \<in> set (x_keys db1)" unfolding rows using kin by (auto simp: set_update_where)
  then have "authenticate_api_key co now2 (Some sec) db2 = Inl invalid_api_key"
    by (rule revoked_stays_rejected[OF inv1 _ _ _ later]) (simp_all add: old(2))
  then show ?thesis using gone rows pol by (simp add: new)
qed

text \<open>C34. Issuing a key is no way to escalate: a created key carries only public permissions that its target user
  holds, its stored knowledge bases are exactly those of the request and its target can read each of them, and it is issued for another user only by an active superuser; the
  issuer currently holds api-key:manage.\<close>

theorem api_key_creation_no_escalation:
  assumes "create_api_key co now ids rq access payload db = (Inr (key, clear), db')"
  shows "\<exists>actor target. find_user (x_auth db) (u_id (ac_user access)) = Some actor \<and> active_user actor \<and>
    allows (resolve (x_rbac db) now actor) ''api-key:manage'' \<and>
    find_user (x_auth db) (ak_user_id key) = Some target \<and> active_user target \<and>
    (ak_user_id key = u_id actor \<or> u_is_superuser actor) \<and>
    set (ak_permission_codes key) \<subseteq> {''chat:query'', ''knowledge:read''} \<and>
    (\<forall>p \<in> set (ak_permission_codes key). allows (resolve (x_rbac db) now target) p) \<and>
    set (ak_knowledge_base_ids key) = co_str_uuid co ` set (ck_knowledge_base_ids payload) \<and>
    (\<forall>s \<in> set (ak_knowledge_base_ids key). \<exists>kid. s = co_str_uuid co kid \<and>
       is_ok (require_knowledge_base_access (x_kb db) (resolve (x_rbac db) now target) kid READER)) \<and>
    key \<in> set (x_keys db')"
proof -
  obtain current target where lock: "lock_api_key_creation db now access
      (case ck_user_id payload of None \<Rightarrow> u_id (ac_user access) | Some u \<Rightarrow> u) = Inr (current, target)"
    and c: "set (ak_permission_codes key) \<subseteq> set public_api_permissions"
      "\<forall>p \<in> set (ak_permission_codes key). allows (resolve (x_rbac db) now target) p"
      "\<forall>kid \<in> set (ck_knowledge_base_ids payload). is_ok (require_knowledge_base_access (x_kb db) (resolve (x_rbac db) now target) kid READER)"
      "ak_user_id key = u_id target" "ak_knowledge_base_ids key = sort (map (co_str_uuid co) (ck_knowledge_base_ids payload))"
      "key \<in> set (x_keys db')"
    by (rule createD[OF assms]) (rule that; auto simp: insert_key_def split: if_split_asm)
  note t = lock_creationD[OF lock]
  from t obtain actor where a: "find_user (x_auth db) (u_id (ac_user access)) = Some actor"
    "refresh_locked_actor_access (x_rbac db) now actor [''api-key:manage''] = Inr current"
    by (auto simp: locked_actor_def split: option.split_asm)
  from a(2) have cur: "current = resolve (x_rbac db) now actor" "active_user actor" "allows current ''api-key:manage''"
    by (auto simp: refresh_locked_actor_access_def active_user_def Let_def split: if_split_asm)
  have f: "find_user (x_auth db) (u_id target) = Some target" using t find_user_id by metis
  show ?thesis
    using a(1) cur t f c by (intro exI[of _ actor] exI[of _ target]) (auto simp: public_api_permissions_def)
qed

section \<open>Concrete runs\<close>

definition key_admin :: user where
  "key_admin = demo_user\<lparr>u_is_superuser := True\<rparr>"

definition keys_demo :: keys_db where
  "keys_demo = \<lparr>x_auth = demo_db\<lparr>a_rbac := rbac_demo\<lparr>db_users := [key_admin]\<rparr>\<rparr>, x_kb = kb_demo,
     x_llm = llm_demo, x_keys = []\<rparr>"

definition admin_access :: access_context where
  "admin_access = resolve (x_rbac keys_demo) 0 key_admin"

definition demo_secret :: string where
  "demo_secret = replicate 40 (CHR ''x'')"

definition demo_key_ids :: "nat \<Rightarrow> key_ids" where
  "demo_key_ids n = \<lparr>ki_id = n, ki_family = 21, ki_secret = (if n = 20 then demo_secret else CHR ''y'' # demo_secret)\<rparr>"

definition demo_payload :: api_key_create where
  "demo_payload = \<lparr>ck_name = ''bot'', ck_user_id = None, ck_permission_codes = [''chat:query''],
     ck_knowledge_base_ids = [2], ck_expires_at = None, ck_requests_per_minute = 60\<rparr>"

definition demo_create :: "(api_key \<times> string) keys_outcome" where
  "demo_create = create_api_key tiny_crypto 0 (demo_key_ids 20) None admin_access demo_payload keys_demo"

definition demo_key :: api_key where
  "demo_key = \<lparr>ak_id = 20, ak_user_id = 7, ak_created_by = Some 7, ak_credential_family_id = 21, ak_name = ''bot'',
     ak_key_hash = ''#kb_live_'' @ demo_secret, ak_key_prefix = take 20 (''kb_live_'' @ demo_secret),
     ak_permission_codes = [''chat:query''], ak_knowledge_base_ids = [unary 2], ak_requests_per_minute = 60,
     ak_expires_at = None, ak_revoked_at = None, ak_last_used_at = None, ak_created_at = 0\<rparr>"

lemma demo_create_ok: "fst demo_create = Inr (demo_key, ''kb_live_'' @ demo_secret)"
  by code_simp

lemma demo_create_keys: "x_keys (snd demo_create) = [demo_key]"
  by code_simp

lemma demo_create_run:
  "create_api_key tiny_crypto 0 (demo_key_ids 20) None admin_access demo_payload keys_demo =
   (Inr (demo_key, ''kb_live_'' @ demo_secret), snd demo_create)"
  using demo_create_ok unfolding demo_create_def by (simp only: prod_eq_iff fst_conv snd_conv)

lemma demo_keys_reachable: "keys_reachable (snd demo_create)"
  by (rule keys_reachable.step[OF keys_reachable.start key_step.create[OF demo_create_run]]) (simp add: keys_demo_def)

lemma demo_find_key: "find_key (snd demo_create) 20 = Some demo_key"
  by (simp add: find_key_def demo_create_keys demo_key_def)

lemma demo_key_hash: "ak_key_hash demo_key = api_key_hash tiny_crypto (''kb_live_'' @ demo_secret)"
  by (simp add: demo_key_def api_key_hash_def tiny_crypto_def)

theorem api_key_scope_exact_witness:
  "\<exists>ax db'. authenticate_api_key tiny_crypto 1 (Some (''kb_live_'' @ demo_secret)) (snd demo_create) = Inr (ax, db') \<and>
     \<not> allows (ax_access ax) ''user:delete''"
proof -
  have "is_ok (authenticate_api_key tiny_crypto 1 (Some (''kb_live_'' @ demo_secret)) (snd demo_create))" by code_simp
  then obtain ax db' where a: "authenticate_api_key tiny_crypto 1 (Some (''kb_live_'' @ demo_secret)) (snd demo_create) = Inr (ax, db')"
    by (auto simp: is_ok_iff)
  have "\<And>p. allows (ax_access ax) p \<Longrightarrow> p \<in> {''chat:query'', ''knowledge:read''}"
    using api_key_scope_exact[OF a] by (elim exE conjE) blast
  from this[of "''user:delete''"] have "\<not> allows (ax_access ax) ''user:delete''" by fastforce
  with a show ?thesis by blast
qed

theorem revoked_secret_never_authenticates_witness:
  "authenticate_api_key tiny_crypto 9 (Some (''kb_live_'' @ demo_secret))
     (snd (revoke_api_key tiny_crypto 5 None admin_access 20 (snd demo_create))) = Inl invalid_api_key"
proof -
  have "fst (revoke_api_key tiny_crypto 5 None admin_access 20 (snd demo_create)) = Inr ()" by code_simp
  then have run: "revoke_api_key tiny_crypto 5 None admin_access 20 (snd demo_create) =
      (Inr (), snd (revoke_api_key tiny_crypto 5 None admin_access 20 (snd demo_create)))" by (simp only: prod_eq_iff fst_conv snd_conv)
  show ?thesis
    by (rule revoked_secret_never_authenticates[OF demo_keys_reachable demo_find_key demo_key_hash run rtranclp.rtrancl_refl])
qed

definition demo_rotated :: api_key where
  "demo_rotated = fst (replacement_key tiny_crypto 5 (demo_key_ids 22) 7 demo_key)"

theorem api_key_rotation_replaces_secret_witness:
  "let db1 = snd (rotate_api_key tiny_crypto 5 (demo_key_ids 22) None admin_access 20 (snd demo_create))
   in filter (\<lambda>x. ak_credential_family_id x = 21 \<and> ak_revoked_at x = None) (x_keys db1) = [demo_rotated] \<and>
      authenticate_api_key tiny_crypto 9 (Some (''kb_live_'' @ demo_secret)) db1 = Inl invalid_api_key"
proof -
  let ?run = "rotate_api_key tiny_crypto 5 (demo_key_ids 22) None admin_access 20 (snd demo_create)"
  have "fst ?run = Inr (demo_rotated, ''kb_live_'' @ CHR ''y'' # demo_secret)" by code_simp
  then have run: "?run = (Inr (demo_rotated, ''kb_live_'' @ CHR ''y'' # demo_secret), snd ?run)" by (simp only: prod_eq_iff fst_conv snd_conv)
  show ?thesis
    using api_key_rotation_replaces_secret[OF demo_keys_reachable demo_find_key demo_key_hash run rtranclp.rtrancl_refl, of 9]
    by (simp add: demo_key_def)
qed

theorem api_key_creation_no_escalation_witness:
  "allows (resolve (x_rbac keys_demo) 0 key_admin) ''chat:query'' \<and> set (ak_knowledge_base_ids demo_key) = {unary 2} \<and>
   is_ok (require_knowledge_base_access (x_kb keys_demo) (resolve (x_rbac keys_demo) 0 key_admin) 2 READER)"
proof -
  have u: "find_user (x_auth keys_demo) 7 = Some key_admin" by code_simp
  have inj: "unary a = unary b \<longleftrightarrow> a = b" for a b by (simp add: unary_def)
  show ?thesis using api_key_creation_no_escalation[OF demo_create_run] u by (auto simp: demo_key_def tiny_crypto_def inj)
qed

end
