(* ===== verification/Codec.thy ===== *)
theory Codec
  imports Domain
begin

text \<open>
  Base64 and hexadecimal text of byte strings, as \<open>base64\<close> and \<open>bytes\<close> of the standard library give it to the
  services that exchange keys and checksums. A byte is a character. \<open>None\<close> is a raised \<open>ValueError\<close> (or its
  subclass \<open>binascii.Error\<close>). The lemmas show that both decoders invert their encoders on every byte string.
\<close>

section \<open>Base64\<close>

definition b64_value :: "char \<Rightarrow> nat option" where
  "b64_value c =
     (let n = of_char c in
      if 65 \<le> n \<and> n \<le> 90 then Some (n - 65)
      else if 97 \<le> n \<and> n \<le> 122 then Some (n - 71)
      else if 48 \<le> n \<and> n \<le> 57 then Some (n + 4)
      else if c = CHR ''+'' \<or> c = CHR ''-'' then Some 62
      else if c = CHR ''/'' \<or> c = CHR ''_'' then Some 63
      else None)"

fun b64_bytes :: "nat list \<Rightarrow> string" where
  "b64_bytes (a # b # c # d # rest) =
     char_of (a * 4 + b div 16) # char_of (b mod 16 * 16 + c div 4) # char_of (c mod 4 * 64 + d) # b64_bytes rest"
| "b64_bytes [a, b, c] = [char_of (a * 4 + b div 16), char_of (b mod 16 * 16 + c div 4)]"
| "b64_bytes [a, b] = [char_of (a * 4 + b div 16)]"
| "b64_bytes _ = []"

text \<open>
  \<open>b64decode(value, altchars=b"-_", validate=True)\<close>: only characters of either alphabet, then exactly the
  padding that completes the last group. Without \<open>altchars\<close> the two alternative characters are invalid.
\<close>

definition b64decode :: "string \<Rightarrow> string option" where
  "b64decode value =
     (let body = takeWhile (\<lambda>c. c \<noteq> CHR ''='') value; pads = dropWhile (\<lambda>c. c \<noteq> CHR ''='') value;
          sextets = map b64_value body
      in if None \<in> set sextets \<or> \<not> list_all (\<lambda>c. c = CHR ''='') pads \<or> length body mod 4 = 1 \<or>
            (length body + length pads) mod 4 \<noteq> 0 \<or> 4 \<le> length pads
         then None else Some (b64_bytes (map the sextets)))"

definition b64decode_std :: "string \<Rightarrow> string option" where
  "b64decode_std value =
     (if CHR ''-'' \<in> set value \<or> CHR ''_'' \<in> set value then None else b64decode value)"

definition b64_char :: "nat \<Rightarrow> char" where
  "b64_char n = (if n < 26 then char_of (n + 65) else if n < 52 then char_of (n + 71)
     else if n < 62 then char_of (n - 4) else if n = 62 then CHR ''+'' else CHR ''/'')"

fun b64encode :: "string \<Rightarrow> string" where
  "b64encode (x # y # z # rest) =
     (let a = of_char x; b = of_char y; c = of_char z
      in b64_char (a div 4) # b64_char (a mod 4 * 16 + b div 16) # b64_char (b mod 16 * 4 + c div 64) #
         b64_char (c mod 64) # b64encode rest)"
| "b64encode [x, y] =
     (let a = of_char x; b = of_char y
      in [b64_char (a div 4), b64_char (a mod 4 * 16 + b div 16), b64_char (b mod 16 * 4), CHR ''=''])"
| "b64encode [x] = (let a = of_char x in [b64_char (a div 4), b64_char (a mod 4 * 16), CHR ''='', CHR ''=''])"
| "b64encode [] = []"

section \<open>Hexadecimal\<close>

definition hex_value :: "char \<Rightarrow> nat option" where
  "hex_value c =
     (let n = of_char c in
      if 48 \<le> n \<and> n \<le> 57 then Some (n - 48)
      else if 97 \<le> n \<and> n \<le> 102 then Some (n - 87)
      else if 65 \<le> n \<and> n \<le> 70 then Some (n - 55)
      else None)"

definition hex_char :: "nat \<Rightarrow> char" where
  "hex_char n = (if n < 10 then char_of (n + 48) else char_of (n + 87))"

definition hex_space :: "char \<Rightarrow> bool" where
  "hex_space c = (let n = of_char c :: nat in n = 32 \<or> (9 \<le> n \<and> n \<le> 13))"

text \<open>\<open>bytes.fromhex\<close>: two digits per byte, ASCII white space between bytes is skipped.\<close>

fun fromhex :: "string \<Rightarrow> string option" where
  "fromhex [] = Some []"
| "fromhex [c] = (if hex_space c then Some [] else None)"
| "fromhex (c # d # rest) =
     (if hex_space c then fromhex (d # rest)
      else (case (hex_value c, hex_value d) of
              (Some a, Some b) \<Rightarrow> map_option (Cons (char_of (16 * a + b))) (fromhex rest)
            | _ \<Rightarrow> None))"

definition tohex :: "string \<Rightarrow> string" where
  "tohex bs = concat (map (\<lambda>c. [hex_char (of_char c div 16), hex_char (of_char c mod 16)]) bs)"

section \<open>Round trips\<close>

lemma byte_bound: "of_char (c :: char) < (256 :: nat)"
  using of_char_of [of "of_char c"] by (simp add: of_char_def)

lemma b64_char_code:
  assumes "n < 64"
  shows "of_char (b64_char n) = (if n < 26 then n + 65 else if n < 52 then n + 71
     else if n < 62 then n - 4 else if n = 62 then 43 else (47 :: nat))"
  using assms by (auto simp: b64_char_def)

lemma char_ne_code: "of_char c \<noteq> (of_char d :: nat) \<Longrightarrow> c \<noteq> (d :: char)"
  by auto

lemma b64_char_plain:
  assumes "n < 64"
  shows "b64_char n \<noteq> CHR ''=''" "b64_char n \<noteq> CHR ''-''" "b64_char n \<noteq> CHR ''_''"
  by (rule char_ne_code; use assms in \<open>auto simp: b64_char_code\<close>)+

lemma b64_value_char:
  assumes "n < 64"
  shows "b64_value (b64_char n) = Some n"
proof (cases "n < 62")
  case True
  then have c: "of_char (b64_char n) = (if n < 26 then n + 65 else if n < 52 then n + 71 else n - (4 :: nat))"
    using b64_char_code[OF assms] by simp
  show ?thesis unfolding b64_value_def Let_def c using True by auto
next
  case False
  with assms have "n = 62 \<or> n = 63" by linarith
  then have "b64_char n = (if n = 62 then CHR ''+'' else CHR ''/'')" by (auto simp: b64_char_def)
  with \<open>n = 62 \<or> n = 63\<close> show ?thesis by (auto simp: b64_value_def)
qed

lemma sextet_bounds:
  "of_char (x :: char) div 4 < (64 :: nat)" "of_char x mod 4 * 16 + of_char (y :: char) div 16 < (64 :: nat)"
  "of_char y mod 16 * 4 + of_char (z :: char) div 64 < (64 :: nat)" "of_char z mod 64 < (64 :: nat)"
  "of_char x mod 4 * 16 < (64 :: nat)" "of_char y mod 16 * 4 < (64 :: nat)"
proof -
  have d: "a < 256 \<Longrightarrow> a div 4 < 64" "a < 256 \<Longrightarrow> a div 16 < 16" "a < 256 \<Longrightarrow> a div 64 < 4"
    "a mod 4 * 16 \<le> 48" "a mod 16 * 4 \<le> 60" "a mod 64 < 64" for a :: nat
    by (simp_all add: div_less_iff_less_mult)
  note b = byte_bound[of x] byte_bound[of y] byte_bound[of z]
  show "of_char x div 4 < (64 :: nat)" "of_char z mod 64 < (64 :: nat)"
    using b d by simp_all
  show "of_char x mod 4 * 16 + of_char y div 16 < (64 :: nat)"
    using d(4)[of "of_char x"] d(2)[OF b(2)] by linarith
  show "of_char y mod 16 * 4 + of_char z div 64 < (64 :: nat)"
    using d(5)[of "of_char y"] d(3)[OF b(3)] by linarith
  show "of_char x mod 4 * 16 < (64 :: nat)" "of_char y mod 16 * 4 < (64 :: nat)"
    using d(4)[of "of_char x"] d(5)[of "of_char y"] by linarith+
qed

text \<open>The text of an encoding: sextets of the alphabet, then the padding of the last group.\<close>

fun b64_sextets :: "string \<Rightarrow> nat list" where
  "b64_sextets (x # y # z # rest) =
     (let a = of_char x; b = of_char y; c = of_char z
      in [a div 4, a mod 4 * 16 + b div 16, b mod 16 * 4 + c div 64, c mod 64] @ b64_sextets rest)"
| "b64_sextets [x, y] = (let a = of_char x; b = of_char y in [a div 4, a mod 4 * 16 + b div 16, b mod 16 * 4])"
| "b64_sextets [x] = (let a = of_char x in [a div 4, a mod 4 * 16])"
| "b64_sextets [] = []"

definition b64_pad :: "string \<Rightarrow> nat" where
  "b64_pad bs = (3 - length bs mod 3) mod 3"

lemma b64encode_text:
  "b64encode bs = map b64_char (b64_sextets bs) @ replicate (b64_pad bs) (CHR ''='')"
  by (induction bs rule: b64encode.induct) (simp_all add: Let_def b64_pad_def numeral_2_eq_2)

lemma b64_sextets_bound: "\<forall>n \<in> set (b64_sextets bs). n < 64"
  by (induction bs rule: b64_sextets.induct) (simp_all add: Let_def sextet_bounds)

lemma b64_sextets_length:
  "length (b64_sextets bs) mod 4 \<noteq> 1" "(length (b64_sextets bs) + b64_pad bs) mod 4 = 0" "b64_pad bs < 4"
  by (induction bs rule: b64_sextets.induct) (simp_all add: Let_def b64_pad_def)

lemma recombine:
  fixes x y z a b c :: nat
  shows "b < 256 \<Longrightarrow> x div 4 * 4 + (x mod 4 * 16 + b div 16) div 16 = x"
    and "y < 256 \<Longrightarrow> c < 256 \<Longrightarrow> (a mod 4 * 16 + y div 16) mod 16 * 16 + (y mod 16 * 4 + c div 64) div 4 = y"
    and "z < 256 \<Longrightarrow> (b mod 16 * 4 + z div 64) mod 4 * 64 + z mod 64 = z"
proof -
  show "x div 4 * 4 + (x mod 4 * 16 + b div 16) div 16 = x" if "b < 256"
  proof -
    have "b div 16 < 16" using that by (simp add: div_less_iff_less_mult)
    then show ?thesis by simp
  qed
  show "(a mod 4 * 16 + y div 16) mod 16 * 16 + (y mod 16 * 4 + c div 64) div 4 = y" if "y < 256" "c < 256"
  proof -
    have "y div 16 < 16" "c div 64 < 4" using that by (simp_all add: div_less_iff_less_mult)
    then have "(a mod 4 * 16 + y div 16) mod 16 = y div 16" "(y mod 16 * 4 + c div 64) div 4 = y mod 16"
      by simp_all
    then show ?thesis by simp
  qed
  show "(b mod 16 * 4 + z div 64) mod 4 * 64 + z mod 64 = z" if "z < 256"
  proof -
    have "z div 64 < 4" using that by (simp add: div_less_iff_less_mult)
    then have "(b mod 16 * 4 + z div 64) mod 4 = z div 64" by simp
    then show ?thesis by simp
  qed
qed

lemmas byte_recombine = recombine(1)[of "of_char (y :: char)" "of_char (x :: char)" for x y, OF byte_bound]
  recombine(2)[of "of_char (y :: char)" "of_char (z :: char)" "of_char (x :: char)" for x y z, OF byte_bound byte_bound]
  recombine(3)[of "of_char (z :: char)" "of_char (y :: char)" for y z, OF byte_bound]

lemma b64_bytes_sextets: "b64_bytes (b64_sextets bs) = bs"
proof (induction bs rule: b64_sextets.induct)
  case (1 x y z rest)
  then show ?case
    by (simp only: b64_sextets.simps b64_bytes.simps Let_def byte_recombine append_Cons append_Nil char_of_char)
next
  case (2 x y)
  then show ?case
    using recombine(2)[OF byte_bound[of y], of 0 "of_char x"] by (simp only: b64_sextets.simps b64_bytes.simps Let_def byte_recombine) simp
next
  case (3 x)
  then show ?case using recombine(1)[of 0 "of_char x"] by (simp add: Let_def)
qed simp

lemma takeWhile_pad:
  "\<forall>c \<in> set xs. P c \<Longrightarrow> \<not> P y \<Longrightarrow> takeWhile P (xs @ replicate n y) = xs"
  "\<forall>c \<in> set xs. P c \<Longrightarrow> \<not> P y \<Longrightarrow> dropWhile P (xs @ replicate n y) = replicate n y"
  by (cases n; simp add: takeWhile_append dropWhile_append)+

lemma neq_refl_false: "a = a \<Longrightarrow> \<not> a \<noteq> a"
  by simp

theorem b64decode_encode: "b64decode (b64encode bs) = Some bs"
proof -
  let ?s = "b64_sextets bs" and ?p = "replicate (b64_pad bs) (CHR ''='')"
  have body: "\<forall>c \<in> set (map b64_char ?s). c \<noteq> CHR ''=''"
    using b64_sextets_bound[of bs] b64_char_plain(1) by auto
  have val: "map b64_value (map b64_char ?s) = map Some ?s"
    using b64_sextets_bound[of bs] b64_value_char by simp
  have the: "map the (map Some ?s) = ?s" by (simp add: comp_def)
  have none: "None \<notin> set (map Some ?s)" by auto
  have pads: "list_all (\<lambda>c. c = CHR ''='') ?p" by (simp add: list_all_iff)
  show ?thesis
    unfolding b64decode_def b64encode_text Let_def takeWhile_pad(1)[OF body refl[THEN neq_refl_false]]
      takeWhile_pad(2)[OF body refl[THEN neq_refl_false]] val the
    using none pads b64_sextets_length[of bs] by (simp add: b64_bytes_sextets del: set_map)
qed

theorem b64decode_std_encode: "b64decode_std (b64encode bs) = Some bs"
proof -
  have "CHR ''-'' \<notin> set (b64encode bs) \<and> CHR ''_'' \<notin> set (b64encode bs)"
    using b64_sextets_bound[of bs] b64_char_plain(2,3)[symmetric] unfolding b64encode_text by (auto split: if_splits)
  then show ?thesis by (simp add: b64decode_std_def b64decode_encode)
qed

lemma hex_char_code: "n < 16 \<Longrightarrow> of_char (hex_char n) = (if n < 10 then n + 48 else n + (87 :: nat))"
  by (auto simp: hex_char_def)

lemma hex_char_value: "n < 16 \<Longrightarrow> hex_value (hex_char n) = Some n \<and> \<not> hex_space (hex_char n)"
  unfolding hex_value_def hex_space_def Let_def by (simp only: hex_char_code) auto

theorem fromhex_tohex: "fromhex (tohex bs) = Some bs"
proof (induction bs)
  case Nil
  then show ?case by (simp add: tohex_def)
next
  case (Cons c bs)
  have "of_char c div 16 < (16 :: nat)" "of_char c mod 16 < (16 :: nat)"
    using byte_bound[of c] by (simp_all add: div_less_iff_less_mult)
  from this[THEN hex_char_value] Cons show ?case by (simp add: tohex_def)
qed

end
