(* ===== verification/Chat_Authorization.thy ===== *)
theory Chat_Authorization
  imports Api_Keys
begin

text \<open>
  The authorization a chat request is re-checked against before a claim, a replay and a completion
  (\<open>src/app/services/chat_replay_authorization.py\<close>). The lock acquisitions order this read against
  the writers of the policy tables; the model is the decision taken on the rows read under them.
  The lemmas say what a granted snapshot proves about the caller.
\<close>

section \<open>Operations\<close>

record chat_snapshot =
  sn_knowledge_base_id :: uuid
  sn_content_version :: int

definition inactive_user :: api_error where
  "inactive_user = ApiError 401 ''inactive_user''"

definition lock_current_access ::
    "keys_db \<Rightarrow> timestamp \<Rightarrow> uuid \<Rightarrow> int option \<Rightarrow> api_error + user \<times> access_context" where
  "lock_current_access db now user_id expected_token_version =
     (case find_user (x_auth db) user_id of
        None \<Rightarrow> Inl inactive_user
      | Some user \<Rightarrow>
          if \<not> active_user user then Inl inactive_user
          else if expected_token_version \<noteq> None \<and> Some (u_token_version user) \<noteq> expected_token_version
          then Inl (ApiError 401 ''token_revoked'')
          else Inr (user, resolve (x_rbac db) now user))"

definition lock_knowledge_base :: "keys_db \<Rightarrow> uuid \<Rightarrow> api_error + knowledge_base" where
  "lock_knowledge_base db kid =
     (case find (\<lambda>kb. kb_id kb = kid) (k_bases (x_kb db)) of None \<Rightarrow> Inl kb_not_found | Some kb \<Rightarrow> Inr kb)"

definition require_chat_and_knowledge_access :: "keys_db \<Rightarrow> access_context \<Rightarrow> uuid \<Rightarrow> api_error + unit" where
  "require_chat_and_knowledge_access db current kid =
     (if \<not> allows current ''chat:query'' then Inl (ApiError 403 ''permission_denied'')
      else bind_r (require_knowledge_base_access (x_kb db) current kid READER) (\<lambda>_. Inr ()))"

definition authorize_interactive_chat_snapshot ::
    "uuid \<Rightarrow> int \<Rightarrow> uuid \<Rightarrow> timestamp \<Rightarrow> keys_db \<Rightarrow> api_error + chat_snapshot" where
  "authorize_interactive_chat_snapshot user_id token_version kid now db =
     bind_r (lock_current_access db now user_id (Some token_version)) (\<lambda>(user, current).
     bind_r (lock_knowledge_base db kid) (\<lambda>kb.
     bind_r (require_chat_and_knowledge_access db current kid) (\<lambda>_.
     Inr \<lparr>sn_knowledge_base_id = kb_id kb, sn_content_version = kb_content_version kb\<rparr>)))"

definition chat_key_refusal :: "crypto_ops \<Rightarrow> timestamp \<Rightarrow> user \<Rightarrow> uuid \<Rightarrow> uuid \<Rightarrow> api_key option \<Rightarrow> api_error option" where
  "chat_key_refusal co now user family kid candidate =
     (case candidate of
        None \<Rightarrow> Some invalid_api_key
      | Some key \<Rightarrow>
          if ak_user_id key \<noteq> u_id user \<or> ak_credential_family_id key \<noteq> family \<or> ak_revoked_at key \<noteq> None \<or>
             (case ak_expires_at key of None \<Rightarrow> False | Some t \<Rightarrow> t \<le> now)
          then Some invalid_api_key
          else if ''chat:query'' \<notin> set (ak_permission_codes key)
          then Some (ApiError 403 ''api_key_scope_denied'')
          else if co_str_uuid co kid \<notin> set (ak_knowledge_base_ids key) then Some kb_not_found
          else None)"

definition authorize_api_key_chat_snapshot ::
    "crypto_ops \<Rightarrow> uuid \<Rightarrow> uuid \<Rightarrow> uuid \<Rightarrow> uuid \<Rightarrow> timestamp \<Rightarrow> keys_db \<Rightarrow> api_error + chat_snapshot" where
  "authorize_api_key_chat_snapshot co api_key_id family user_id kid now db =
     bind_r (lock_current_access db now user_id None) (\<lambda>(user, current).
     (case chat_key_refusal co now user family kid (find_key db api_key_id) of
        Some e \<Rightarrow> Inl e
      | None \<Rightarrow>
          bind_r (lock_knowledge_base db kid) (\<lambda>kb.
          bind_r (require_chat_and_knowledge_access db current kid) (\<lambda>_.
          Inr \<lparr>sn_knowledge_base_id = kb_id kb, sn_content_version = kb_content_version kb\<rparr>))))"

section \<open>What a snapshot proves\<close>

definition may_chat :: "keys_db \<Rightarrow> timestamp \<Rightarrow> user \<Rightarrow> uuid \<Rightarrow> bool" where
  "may_chat db now user kid \<longleftrightarrow> active_user user \<and> allows (resolve (x_rbac db) now user) ''chat:query'' \<and>
     is_ok (require_knowledge_base_access (x_kb db) (resolve (x_rbac db) now user) kid READER)"

definition current_version :: "keys_db \<Rightarrow> uuid \<Rightarrow> int option" where
  "current_version db kid = map_option kb_content_version (find (\<lambda>kb. kb_id kb = kid) (k_bases (x_kb db)))"

lemma lock_current_accessD:
  assumes "lock_current_access db now uid ver = Inr (user, current)"
  shows "find_user (x_auth db) uid = Some user" "active_user user" "current = resolve (x_rbac db) now user"
    "ver \<noteq> None \<Longrightarrow> ver = Some (u_token_version user)"
  using assms by (auto simp: lock_current_access_def split: option.split_asm if_split_asm)

lemma lock_knowledge_baseD:
  "lock_knowledge_base db kid = Inr kb \<Longrightarrow> kb_id kb = kid \<and> current_version db kid = Some (kb_content_version kb)"
  by (auto simp: lock_knowledge_base_def current_version_def find_Some_iff split: option.split_asm)

lemma require_chatD:
  assumes "require_chat_and_knowledge_access db current kid = Inr u"
  shows "allows current ''chat:query''" "is_ok (require_knowledge_base_access (x_kb db) current kid READER)"
  using assms by (auto simp: require_chat_and_knowledge_access_def result_simps is_ok_iff split: if_split_asm)

lemma interactive_snapshotD:
  assumes "authorize_interactive_chat_snapshot uid ver kid now db = Inr sn"
  shows "\<exists>user. find_user (x_auth db) uid = Some user \<and> u_token_version user = ver \<and> may_chat db now user kid"
    "sn_knowledge_base_id sn = kid" "current_version db kid = Some (sn_content_version sn)"
proof -
  from assms obtain user current kb where l: "lock_current_access db now uid (Some ver) = Inr (user, current)"
    and kb: "lock_knowledge_base db kid = Inr kb" and acc: "require_chat_and_knowledge_access db current kid = Inr ()"
    and sn: "sn = \<lparr>sn_knowledge_base_id = kb_id kb, sn_content_version = kb_content_version kb\<rparr>"
    by (auto simp: authorize_interactive_chat_snapshot_def result_simps)
  note u = lock_current_accessD[OF l]
  show "\<exists>user. find_user (x_auth db) uid = Some user \<and> u_token_version user = ver \<and> may_chat db now user kid"
    using u require_chatD[OF acc] by (auto simp: may_chat_def)
  show "sn_knowledge_base_id sn = kid" "current_version db kid = Some (sn_content_version sn)"
    using lock_knowledge_baseD[OF kb] by (simp_all add: sn)
qed

lemma chat_key_refusal_None:
  assumes "chat_key_refusal co now user family kid c = None"
  shows "\<exists>key. c = Some key \<and> ak_user_id key = u_id user \<and> ak_credential_family_id key = family \<and>
    ak_revoked_at key = None \<and> (\<forall>t. ak_expires_at key = Some t \<longrightarrow> now < t) \<and>
    ''chat:query'' \<in> set (ak_permission_codes key) \<and> co_str_uuid co kid \<in> set (ak_knowledge_base_ids key)"
  using assms by (auto simp: chat_key_refusal_def split: option.split_asm if_split_asm)

lemma api_key_snapshotD:
  assumes "authorize_api_key_chat_snapshot co key_id family uid kid now db = Inr sn"
  shows "\<exists>user. find_user (x_auth db) uid = Some user \<and> may_chat db now user kid"
    "\<exists>user. find_user (x_auth db) uid = Some user \<and> chat_key_refusal co now user family kid (find_key db key_id) = None"
    "sn_knowledge_base_id sn = kid" "current_version db kid = Some (sn_content_version sn)"
proof -
  from assms obtain user current kb where l: "lock_current_access db now uid None = Inr (user, current)"
    and key: "chat_key_refusal co now user family kid (find_key db key_id) = None"
    and kb: "lock_knowledge_base db kid = Inr kb" and acc: "require_chat_and_knowledge_access db current kid = Inr ()"
    and sn: "sn = \<lparr>sn_knowledge_base_id = kb_id kb, sn_content_version = kb_content_version kb\<rparr>"
    by (auto simp: authorize_api_key_chat_snapshot_def result_simps split: option.split_asm)
  note u = lock_current_accessD[OF l]
  show "\<exists>user. find_user (x_auth db) uid = Some user \<and> may_chat db now user kid"
    using u require_chatD[OF acc] by (auto simp: may_chat_def)
  show "\<exists>user. find_user (x_auth db) uid = Some user \<and> chat_key_refusal co now user family kid (find_key db key_id) = None"
    using u key by blast
  show "sn_knowledge_base_id sn = kid" "current_version db kid = Some (sn_content_version sn)"
    using lock_knowledge_baseD[OF kb] by (simp_all add: sn)
qed

end
