(* ===== verification/Chat_Idempotency.thy ===== *)
theory Chat_Idempotency
  imports Chat_Authorization Codec
begin

text \<open>
  The durable ledger of chat requests (\<open>src/app/services/chat_idempotency.py\<close>): a claim per principal and
  idempotency key, the encrypted replay of a completed answer, the terminalization that fails closed, and the
  cleanup. Bytes are characters. Pydantic, zlib and AES-GCM are the parameter \<open>replay_ops\<close>; the authorization
  callback and the operation are arguments. Each function that runs one transaction returns its result and the
  committed database. Where the source goes through several transactions, the arguments \<open>turn\<close> and \<open>attempt\<close>
  carry what happens around each of them: the clock, the fresh identifier, the transactions of other sessions
  that ran before it, and whether the connection fails.
\<close>

section \<open>State and parameters\<close>

record chat_db =
  y_keys :: keys_db
  y_records :: "chat_idempotency_record list"

record chat_settings =
  cs_ttl_seconds :: int
  cs_processing_timeout_seconds :: int
  cs_response_max_bytes :: nat
  cs_active_key_version :: "int option"
  cs_encryption_keys :: "(int \<times> string) list"

text \<open>
  \<open>rp_inflate c n\<close> is \<open>decompress(c, n)\<close>, the output and the unconsumed tail; \<open>rp_flush c n m\<close> the following
  \<open>flush(m)\<close> with the \<open>eof\<close> flag and the unused data. \<open>None\<close> is \<open>zlib.error\<close>, and in \<open>rp_decrypt\<close> \<open>InvalidTag\<close>.
\<close>

record 'r replay_ops =
  rp_knowledge_base_id :: "'r \<Rightarrow> uuid"
  rp_dump :: "'r \<Rightarrow> string"
  rp_validate :: "string \<Rightarrow> 'r option"
  rp_compress :: "string \<Rightarrow> string"
  rp_inflate :: "string \<Rightarrow> nat \<Rightarrow> (string \<times> string) option"
  rp_flush :: "string \<Rightarrow> nat \<Rightarrow> nat \<Rightarrow> (string \<times> bool \<times> string) option"
  rp_encrypt :: "string \<Rightarrow> string \<Rightarrow> string \<Rightarrow> string \<Rightarrow> string"
  rp_decrypt :: "string \<Rightarrow> string \<Rightarrow> string \<Rightarrow> string \<Rightarrow> string option"

section \<open>Fingerprints\<close>

datatype principal_kind = PrincipalUser | PrincipalApiKey

record chat_principal =
  cp_kind :: principal_kind
  cp_subject_id :: uuid

definition for_user :: "uuid \<Rightarrow> chat_principal" where
  "for_user uid = \<lparr>cp_kind = PrincipalUser, cp_subject_id = uid\<rparr>"

definition for_api_key :: "uuid \<Rightarrow> chat_principal" where
  "for_api_key family = \<lparr>cp_kind = PrincipalApiKey, cp_subject_id = family\<rparr>"

definition principal_kind_value :: "principal_kind \<Rightarrow> string" where
  "principal_kind_value k = (case k of PrincipalUser \<Rightarrow> ''user'' | PrincipalApiKey \<Rightarrow> ''api_key'')"

definition principal_text :: "crypto_ops \<Rightarrow> chat_principal \<Rightarrow> string" where
  "principal_text co p = ''chat-principal-v1'' @ [CHR 0x00] @ principal_kind_value (cp_kind p) @ [CHR 0x00] @
     co_str_uuid co (cp_subject_id p)"

definition fingerprint :: "crypto_ops \<Rightarrow> chat_principal \<Rightarrow> string" where
  "fingerprint co p = co_sha256 co (principal_text co p)"

definition key_text :: "string \<Rightarrow> string" where
  "key_text key = ''chat-idempotency-key-v1'' @ [CHR 0x00] @ key"

record chat_query =
  cq_knowledge_base_id :: uuid
  cq_message :: string
  cq_limit :: int

definition request_text :: "crypto_ops \<Rightarrow> chat_query \<Rightarrow> string" where
  "request_text co q = ''chat-query-request-v1'' @ [CHR 0x00] @
     json_dumps_utf8 (JObj (sort_keys [(''knowledge_base_id'', JStr (co_str_uuid co (cq_knowledge_base_id q))),
       (''message'', JStr (cq_message q)), (''limit'', JInt (cq_limit q))]))"

definition request_hash :: "crypto_ops \<Rightarrow> chat_query \<Rightarrow> string" where
  "request_hash co q = co_sha256 co (request_text co q)"

section \<open>The replay keyring\<close>

definition decode_key_material :: "string \<Rightarrow> string option" where
  "decode_key_material value =
     (case b64decode (value @ replicate ((4 - length value mod 4) mod 4) (CHR ''='')) of
        None \<Rightarrow> None
      | Some decoded \<Rightarrow> if length decoded \<noteq> 32 then None else Some decoded)"

record replay_keyring =
  kr_active_version :: int
  kr_keys :: "(int \<times> string) list"

definition load_replay_keyring :: "chat_settings \<Rightarrow> replay_keyring option" where
  "load_replay_keyring st =
     (case cs_active_key_version st of
        None \<Rightarrow> None
      | Some v \<Rightarrow>
          if v \<notin> fst ` set (cs_encryption_keys st) then None
          else map_option (\<lambda>ks. \<lparr>kr_active_version = v, kr_keys = ks\<rparr>)
            (those (map (\<lambda>(w, secret). map_option (Pair w) (decode_key_material secret)) (cs_encryption_keys st))))"

section \<open>Encoding and decoding of a response\<close>

definition replay_encoding :: string where
  "replay_encoding = ''aesgcm-zlib-json-v1''"

definition tag_bytes :: nat where
  "tag_bytes = 16"

definition nonce_bytes :: nat where
  "nonce_bytes = 12"

definition response_aad :: "crypto_ops \<Rightarrow> chat_idempotency_record \<Rightarrow> int \<Rightarrow> string option" where
  "response_aad co rec key_version =
     (case (ci_knowledge_base_id rec, ci_knowledge_base_content_version rec) of
        (Some kid, Some v) \<Rightarrow> Some (''chat-replay-aad-v1'' @ [CHR 0x00] @ json_dumps (JObj (sort_keys
          [(''content_version'', JInt v), (''key_version'', JInt key_version),
           (''knowledge_base_id'', JStr (co_str_uuid co kid)), (''principal_fingerprint'', JStr (ci_principal_hash rec)),
           (''record_id'', JStr (co_str_uuid co (ci_id rec))), (''request_hash'', JStr (ci_request_hash rec))])))
      | _ \<Rightarrow> None)"

text \<open>\<open>None\<close> is a raised \<open>ValueError\<close>, here and in the decoder.\<close>

definition encode_response ::
    "crypto_ops \<Rightarrow> 'r replay_ops \<Rightarrow> replay_keyring \<Rightarrow> nat \<Rightarrow> chat_idempotency_record \<Rightarrow> 'r \<Rightarrow> string \<Rightarrow>
     (string \<times> int \<times> int \<times> string) option" where
  "encode_response co ops kr maximum rec response nonce =
     (let raw = rp_dump ops response in
      if raw = [] \<or> maximum < length raw then None
      else (let compressed = rp_compress ops raw in
        if compressed = [] \<or> maximum < length compressed + tag_bytes then None
        else Option.bind (map_of (kr_keys kr) (kr_active_version kr)) (\<lambda>key.
             Option.bind (response_aad co rec (kr_active_version kr)) (\<lambda>aad.
             (let ciphertext = rp_encrypt ops key nonce compressed aad in
              if ciphertext = [] \<or> maximum < length ciphertext then None
              else Some (ciphertext, int (length raw), kr_active_version kr, nonce))))))"

definition decode_response ::
    "crypto_ops \<Rightarrow> 'r replay_ops \<Rightarrow> replay_keyring \<Rightarrow> nat \<Rightarrow> chat_idempotency_record \<Rightarrow> 'r option" where
  "decode_response co ops kr maximum rec =
     (case (ci_response_encoding rec, ci_response_body rec, ci_response_size_bytes rec, ci_response_key_version rec,
            ci_response_nonce rec) of
        (Some enc, Some ciphertext, Some stored, Some version, Some nonce) \<Rightarrow>
          if enc \<noteq> replay_encoding \<or> \<not> (0 < stored \<and> stored \<le> int maximum) \<or> version < 1 \<or> length nonce \<noteq> nonce_bytes
          then None
          else if length ciphertext \<le> tag_bytes \<or> maximum < length ciphertext then None
          else Option.bind (map_of (kr_keys kr) version) (\<lambda>key.
               Option.bind (response_aad co rec version) (\<lambda>aad.
               Option.bind (rp_decrypt ops key nonce ciphertext aad) (\<lambda>compressed.
               if compressed = [] \<or> int maximum - int tag_bytes < int (length compressed) then None
               else Option.bind (rp_inflate ops compressed (maximum + 1)) (\<lambda>(raw, tail).
                 if maximum < length raw \<or> tail \<noteq> [] then None
                 else Option.bind (rp_flush ops compressed (maximum + 1) (maximum + 1 - length raw)) (\<lambda>(more, eof, unused).
                   if maximum < length (raw @ more) \<or> \<not> eof \<or> unused \<noteq> [] \<or> int (length (raw @ more)) \<noteq> stored
                   then None else rp_validate ops (raw @ more))))))
      | _ \<Rightarrow> None)"

definition clear_response :: "chat_idempotency_record \<Rightarrow> chat_idempotency_record" where
  "clear_response rec = rec\<lparr>ci_response_body := None, ci_response_encoding := None, ci_response_size_bytes := None,
     ci_response_key_version := None, ci_response_nonce := None\<rparr>"

section \<open>Errors\<close>

definition conflict_error :: api_error where
  "conflict_error = ApiError 409 ''idempotency_conflict''"

definition in_progress_error :: api_error where
  "in_progress_error = ApiError 409 ''idempotency_in_progress''"

definition outcome_unknown_error :: api_error where
  "outcome_unknown_error = ApiError 409 ''idempotency_outcome_unknown''"

definition resource_changed_error :: api_error where
  "resource_changed_error = ApiError 409 ''idempotency_resource_changed''"

definition terminalization_unavailable_error :: api_error where
  "terminalization_unavailable_error = ApiError 503 ''idempotency_terminalization_unavailable''"

section \<open>Rows\<close>

definition find_record :: "chat_db \<Rightarrow> uuid \<Rightarrow> chat_idempotency_record option" where
  "find_record db rid = find (\<lambda>c. ci_id c = rid) (y_records db)"

definition has_key :: "string \<Rightarrow> string \<Rightarrow> chat_idempotency_record \<Rightarrow> bool" where
  "has_key ph kh c \<longleftrightarrow> ci_principal_hash c = ph \<and> ci_idempotency_key_hash c = kh"

definition find_claim :: "chat_db \<Rightarrow> string \<Rightarrow> string \<Rightarrow> chat_idempotency_record option" where
  "find_claim db ph kh = find (has_key ph kh) (y_records db)"

text \<open>An \<open>UPDATE\<close> of one row, with the \<open>onupdate\<close> column and the row checks; a violated check raises.\<close>

definition write_record :: "timestamp \<Rightarrow> chat_idempotency_record \<Rightarrow> chat_db \<Rightarrow> chat_db option" where
  "write_record now rec db =
     (if chat_idempotency_checks rec
      then Some (db\<lparr>y_records := update_where (\<lambda>c. ci_id c = ci_id rec) (\<lambda>_. rec\<lparr>ci_updated_at := now\<rparr>) (y_records db)\<rparr>)
      else None)"

definition insert_record :: "chat_idempotency_record \<Rightarrow> chat_db \<Rightarrow> chat_db option" where
  "insert_record rec db =
     (if \<not> chat_idempotency_checks rec \<or>
         (\<exists>c \<in> set (y_records db). ci_id c = ci_id rec \<or> has_key (ci_principal_hash rec) (ci_idempotency_key_hash rec) c)
      then None else Some (db\<lparr>y_records := y_records db @ [rec]\<rparr>))"

definition delete_record :: "uuid \<Rightarrow> chat_db \<Rightarrow> chat_db" where
  "delete_record rid db = db\<lparr>y_records := filter (\<lambda>c. ci_id c \<noteq> rid) (y_records db)\<rparr>"

definition is_terminal :: "chat_idempotency_status \<Rightarrow> bool" where
  "is_terminal s \<longleftrightarrow> s \<in> {COMPLETED, OUTCOME_UNKNOWN, INVALIDATED}"

definition close_record :: "chat_idempotency_status \<Rightarrow> chat_settings \<Rightarrow> timestamp \<Rightarrow> chat_idempotency_record \<Rightarrow> chat_idempotency_record" where
  "close_record status st now rec =
     rec\<lparr>ci_status := status, ci_completed_at := Some now, ci_expires_at := Some (now + seconds (cs_ttl_seconds st))\<rparr>"

section \<open>Claim or replay\<close>

datatype 'r claim_result =
    Claimed chat_idempotency_record
  | Replayed chat_idempotency_record 'r
  | Refused api_error
  | ClaimFailed
  | Again

text \<open>
  \<open>decide_existing\<close> is the part of an attempt after the unique key was found taken. \<open>ClaimFailed\<close> is an
  unexpected database error.
\<close>

definition commit_refusal :: "timestamp \<Rightarrow> chat_idempotency_record \<Rightarrow> api_error \<Rightarrow> chat_db \<Rightarrow> 'r claim_result \<times> chat_db" where
  "commit_refusal now rec e db =
     (case write_record now rec db of None \<Rightarrow> (ClaimFailed, db) | Some db' \<Rightarrow> (Refused e, db'))"

definition decide_existing ::
    "crypto_ops \<Rightarrow> 'r replay_ops \<Rightarrow> chat_settings \<Rightarrow> replay_keyring \<Rightarrow> string \<Rightarrow> chat_snapshot \<Rightarrow> timestamp \<Rightarrow>
     chat_idempotency_record \<Rightarrow> chat_db \<Rightarrow> 'r claim_result \<times> chat_db" where
  "decide_existing co ops st kr rh snapshot now existing db =
     (if ci_request_hash existing \<noteq> rh then (Refused conflict_error, db)
      else if is_terminal (ci_status existing) \<and> (case ci_expires_at existing of None \<Rightarrow> False | Some t \<Rightarrow> t \<le> now)
      then (Again, delete_record (ci_id existing) db)
      else if ci_status existing = INVALIDATED then (Refused resource_changed_error, db)
      else if ci_status existing = OUTCOME_UNKNOWN then (Refused outcome_unknown_error, db)
      else if ci_knowledge_base_id existing \<noteq> Some (sn_knowledge_base_id snapshot) \<or>
              ci_knowledge_base_content_version existing \<noteq> Some (sn_content_version snapshot)
      then commit_refusal now (close_record INVALIDATED st now (clear_response existing)) resource_changed_error db
      else if ci_status existing = COMPLETED
      then (case decode_response co ops kr (cs_response_max_bytes st) existing of
              None \<Rightarrow> commit_refusal now (close_record OUTCOME_UNKNOWN st now (clear_response existing)) outcome_unknown_error db
            | Some response \<Rightarrow> (Replayed existing response, db))
      else if ci_updated_at existing \<le> now - seconds (cs_processing_timeout_seconds st)
      then commit_refusal now (close_record OUTCOME_UNKNOWN st now existing) outcome_unknown_error db
      else (Refused in_progress_error, db))"

definition new_claim :: "uuid \<Rightarrow> string \<Rightarrow> string \<Rightarrow> string \<Rightarrow> chat_snapshot \<Rightarrow> timestamp \<Rightarrow> chat_idempotency_record" where
  "new_claim rid ph kh rh snapshot now =
     \<lparr>ci_id = rid, ci_principal_hash = ph, ci_idempotency_key_hash = kh, ci_request_hash = rh,
      ci_knowledge_base_id = Some (sn_knowledge_base_id snapshot),
      ci_knowledge_base_content_version = Some (sn_content_version snapshot), ci_status = PROCESSING,
      ci_response_body = None, ci_response_encoding = None, ci_response_size_bytes = None,
      ci_response_key_version = None, ci_response_nonce = None, ci_completed_at = None, ci_expires_at = None,
      ci_updated_at = now\<rparr>"

type_synonym authorizer = "timestamp \<Rightarrow> keys_db \<Rightarrow> api_error + chat_snapshot"

definition claim_attempt ::
    "crypto_ops \<Rightarrow> 'r replay_ops \<Rightarrow> chat_settings \<Rightarrow> replay_keyring \<Rightarrow> string \<Rightarrow> string \<Rightarrow> string \<Rightarrow> uuid \<Rightarrow> authorizer \<Rightarrow>
     timestamp \<Rightarrow> uuid \<Rightarrow> chat_db \<Rightarrow> 'r claim_result \<times> chat_db" where
  "claim_attempt co ops st kr ph kh rh kid authorize now rid db =
     (case authorize now (y_keys db) of
        Inl e \<Rightarrow> (Refused e, db)
      | Inr snapshot \<Rightarrow>
          if sn_knowledge_base_id snapshot \<noteq> kid then (Refused resource_changed_error, db)
          else (let candidate = new_claim rid ph kh rh snapshot now in
            case insert_record candidate db of
              Some db' \<Rightarrow> (Claimed candidate, db')
            | None \<Rightarrow>
                (case find_claim db ph kh of
                   None \<Rightarrow> (Again, db)
                 | Some existing \<Rightarrow> decide_existing co ops st kr rh snapshot now existing db)))"

record turn =
  tn_now :: timestamp
  tn_id :: uuid
  tn_others :: "chat_db \<Rightarrow> chat_db"

datatype chat_error = ChatApi api_error | ChatCancelled | ChatUnexpected

fun claim_loop ::
    "crypto_ops \<Rightarrow> 'r replay_ops \<Rightarrow> chat_settings \<Rightarrow> replay_keyring \<Rightarrow> string \<Rightarrow> string \<Rightarrow> string \<Rightarrow> uuid \<Rightarrow> authorizer \<Rightarrow>
     turn list \<Rightarrow> chat_db \<Rightarrow> (chat_error + chat_idempotency_record \<times> 'r option) \<times> chat_db" where
  "claim_loop co ops st kr ph kh rh kid authorize [] db = (Inl (ChatApi outcome_unknown_error), db)"
| "claim_loop co ops st kr ph kh rh kid authorize (t # ts) db =
     (case claim_attempt co ops st kr ph kh rh kid authorize (tn_now t) (tn_id t) (tn_others t db) of
        (Claimed rec, db') \<Rightarrow> (Inr (rec, None), db')
      | (Replayed rec response, db') \<Rightarrow> (Inr (rec, Some response), db')
      | (Refused e, db') \<Rightarrow> (Inl (ChatApi e), db')
      | (ClaimFailed, db') \<Rightarrow> (Inl ChatUnexpected, db')
      | (Again, db') \<Rightarrow> claim_loop co ops st kr ph kh rh kid authorize ts db')"

definition claim_or_replay ::
    "crypto_ops \<Rightarrow> 'r replay_ops \<Rightarrow> chat_settings \<Rightarrow> replay_keyring \<Rightarrow> string \<Rightarrow> string \<Rightarrow> string \<Rightarrow> uuid \<Rightarrow> authorizer \<Rightarrow>
     (nat \<Rightarrow> turn) \<Rightarrow> chat_db \<Rightarrow> (chat_error + chat_idempotency_record \<times> 'r option) \<times> chat_db" where
  "claim_or_replay co ops st kr ph kh rh kid authorize turn db =
     claim_loop co ops st kr ph kh rh kid authorize (map turn [0..<4]) db"

section \<open>Completion\<close>

record claim_descriptor =
  cl_record_id :: uuid
  cl_principal_hash :: string
  cl_key_hash :: string
  cl_request_hash :: string

definition matches_claim :: "claim_descriptor \<Rightarrow> chat_idempotency_record \<Rightarrow> bool" where
  "matches_claim d rec \<longleftrightarrow> ci_id rec = cl_record_id d \<and> ci_principal_hash rec = cl_principal_hash d \<and>
     ci_idempotency_key_hash rec = cl_key_hash d \<and> ci_request_hash rec = cl_request_hash d"

text \<open>A raised \<open>RuntimeError\<close> or \<open>ValueError\<close> is \<open>ChatUnexpected\<close>.\<close>

definition store_completed_response ::
    "crypto_ops \<Rightarrow> 'r replay_ops \<Rightarrow> chat_settings \<Rightarrow> replay_keyring \<Rightarrow> claim_descriptor \<Rightarrow> 'r \<Rightarrow> authorizer \<Rightarrow>
     timestamp \<Rightarrow> string \<Rightarrow> chat_db \<Rightarrow> (chat_error + unit) \<times> chat_db" where
  "store_completed_response co ops st kr d response authorize now nonce db =
     (case authorize now (y_keys db) of
        Inl e \<Rightarrow> (Inl (ChatApi e), db)
      | Inr snapshot \<Rightarrow>
          (case find_record db (cl_record_id d) of
             None \<Rightarrow> (Inl ChatUnexpected, db)
           | Some rec \<Rightarrow>
               if \<not> matches_claim d rec then (Inl ChatUnexpected, db)
               else if ci_status rec = INVALIDATED then (Inl (ChatApi resource_changed_error), db)
               else if ci_status rec \<noteq> PROCESSING then (Inl ChatUnexpected, db)
               else if rp_knowledge_base_id ops response \<noteq> sn_knowledge_base_id snapshot \<or>
                       ci_knowledge_base_id rec \<noteq> Some (sn_knowledge_base_id snapshot) \<or>
                       ci_knowledge_base_content_version rec \<noteq> Some (sn_content_version snapshot)
               then (case write_record now (close_record INVALIDATED st now (clear_response rec)) db of
                       None \<Rightarrow> (Inl ChatUnexpected, db)
                     | Some db' \<Rightarrow> (Inl (ChatApi resource_changed_error), db'))
               else (case encode_response co ops kr (cs_response_max_bytes st) rec response nonce of
                       None \<Rightarrow> (Inl ChatUnexpected, db)
                     | Some (body, raw_size, version, used_nonce) \<Rightarrow>
                         (case write_record now (close_record COMPLETED st now
                                 (rec\<lparr>ci_response_body := Some body, ci_response_encoding := Some replay_encoding,
                                      ci_response_size_bytes := Some raw_size, ci_response_key_version := Some version,
                                      ci_response_nonce := Some used_nonce\<rparr>)) db of
                            None \<Rightarrow> (Inl ChatUnexpected, db)
                          | Some db' \<Rightarrow> (Inr (), db')))))"

section \<open>Terminalization\<close>

text \<open>
  A database connection that fails: the transaction was lost, or it committed and the acknowledgement was lost.
\<close>

datatype connection = Stable | Fails bool | Interrupted bool

text \<open>\<open>None\<close> is a raised \<open>ChatTerminalizationError\<close>; \<open>Some None\<close> a row still in \<open>PROCESSING\<close>.\<close>

definition terminal_ack :: "claim_descriptor \<Rightarrow> chat_idempotency_record \<Rightarrow> chat_idempotency_status option option" where
  "terminal_ack d rec =
     (if \<not> matches_claim d rec then None
      else if is_terminal (ci_status rec) then Some (Some (ci_status rec))
      else if ci_status rec = PROCESSING then Some None else None)"

definition verify_terminal_state :: "claim_descriptor \<Rightarrow> chat_db \<Rightarrow> chat_idempotency_status option option" where
  "verify_terminal_state d db = Option.bind (find_record db (cl_record_id d)) (terminal_ack d)"

record attempt =
  at_now :: timestamp
  at_others :: "chat_db \<Rightarrow> chat_db"
  at_update :: connection
  at_between :: "chat_db \<Rightarrow> chat_db"
  at_verify_fails :: bool
  at_after :: "chat_db \<Rightarrow> chat_db"
  at_recheck_fails :: bool

text \<open>The updating transaction: the acknowledgement it can return without a write, or the written database.\<close>

definition unknown_update ::
    "chat_settings \<Rightarrow> claim_descriptor \<Rightarrow> timestamp \<Rightarrow> chat_db \<Rightarrow> (chat_idempotency_status + chat_db) option" where
  "unknown_update st d now db =
     Option.bind (find_record db (cl_record_id d)) (\<lambda>rec.
     Option.bind (terminal_ack d rec) (\<lambda>terminal.
     (case terminal of
        Some status \<Rightarrow> Some (Inl status)
      | None \<Rightarrow> map_option Inr (write_record now (close_record OUTCOME_UNKNOWN st now (clear_response rec)) db))))"

definition transition_outcome_unknown_once ::
    "chat_settings \<Rightarrow> claim_descriptor \<Rightarrow> attempt \<Rightarrow> chat_db \<Rightarrow> chat_idempotency_status option \<times> chat_db" where
  "transition_outcome_unknown_once st d a db =
     (let db0 = at_others a db in
      case unknown_update st d (at_now a) db0 of
        None \<Rightarrow> (None, db0)
      | Some (Inl status) \<Rightarrow> (if at_update a = Stable then Some status else None, db0)
      | Some (Inr db1) \<Rightarrow>
          (case at_update a of
             Stable \<Rightarrow>
               (let db2 = at_between a db1 in
                (if at_verify_fails a then None
                 else Option.bind (verify_terminal_state d db2) (\<lambda>v. v), db2))
           | Fails committed \<Rightarrow> (None, if committed then db1 else db0)
           | Interrupted committed \<Rightarrow> (None, if committed then db1 else db0)))"

fun reconcile_loop ::
    "chat_settings \<Rightarrow> claim_descriptor \<Rightarrow> attempt list \<Rightarrow> chat_db \<Rightarrow> chat_idempotency_status option \<times> chat_db" where
  "reconcile_loop st d [] db = (None, db)"
| "reconcile_loop st d (a # as) db =
     (case transition_outcome_unknown_once st d a db of
        (Some status, db1) \<Rightarrow> (Some status, db1)
      | (None, db1) \<Rightarrow>
          (let db2 = at_after a db1 in
           case (if at_recheck_fails a then None else Option.bind (verify_terminal_state d db2) (\<lambda>v. v)) of
             Some status \<Rightarrow> (Some status, db2)
           | None \<Rightarrow> reconcile_loop st d as db2))"

definition reconcile_outcome_unknown ::
    "chat_settings \<Rightarrow> claim_descriptor \<Rightarrow> (nat \<Rightarrow> attempt) \<Rightarrow> chat_db \<Rightarrow> chat_idempotency_status option \<times> chat_db" where
  "reconcile_outcome_unknown st d attempt db = reconcile_loop st d (map attempt [0..<2]) db"

text \<open>
  What the waiting caller sees of the terminalization task: it finishes, the caller is cancelled while it runs, or
  the deadline passes; a task that outlives its deadline is cancelled and supervised, and may have written or not.
\<close>

datatype waiting = Finishes | CallerCancelled | DeadlinePassed bool bool

definition await_terminalization ::
    "waiting \<Rightarrow> chat_idempotency_status option \<Rightarrow> chat_error + chat_idempotency_status" where
  "await_terminalization w ack =
     (case w of
        DeadlinePassed cancelled _ \<Rightarrow> Inl (if cancelled then ChatCancelled else ChatApi terminalization_unavailable_error)
      | CallerCancelled \<Rightarrow> Inl ChatCancelled
      | Finishes \<Rightarrow> (case ack of None \<Rightarrow> Inl (ChatApi terminalization_unavailable_error) | Some status \<Rightarrow> Inr status))"

definition mark_outcome_unknown ::
    "chat_settings \<Rightarrow> claim_descriptor \<Rightarrow> (nat \<Rightarrow> attempt) \<Rightarrow> waiting \<Rightarrow> chat_db \<Rightarrow>
     (chat_error + chat_idempotency_status) \<times> chat_db" where
  "mark_outcome_unknown st d attempt w db =
     (case reconcile_outcome_unknown st d attempt db of
        (ack, db') \<Rightarrow> (await_terminalization w ack,
           (case w of DeadlinePassed _ written \<Rightarrow> if written then db' else db | _ \<Rightarrow> db')))"

section \<open>Execution of one request\<close>

datatype 'r operation_outcome = OpResponse 'r | OpCancelled | OpApiError api_error | OpException

record schedule =
  sc_turn :: "nat \<Rightarrow> turn"
  sc_failed :: "nat \<Rightarrow> attempt"
  sc_failed_wait :: waiting
  sc_store_others :: "chat_db \<Rightarrow> chat_db"
  sc_store_now :: timestamp
  sc_store_nonce :: string
  sc_store :: connection
  sc_unstored :: "nat \<Rightarrow> attempt"
  sc_unstored_wait :: waiting

text \<open>
  The terminalizer's error is replaced by a 503 for the caller: the model returns that error from
  \<open>mark_outcome_unknown\<close> at once.
\<close>

definition after_failed_operation ::
    "chat_settings \<Rightarrow> claim_descriptor \<Rightarrow> schedule \<Rightarrow> 'r operation_outcome \<Rightarrow> chat_db \<Rightarrow> chat_error \<times> chat_db" where
  "after_failed_operation st d s outcome db =
     (case mark_outcome_unknown st d (sc_failed s) (sc_failed_wait s) db of
        (ack, db') \<Rightarrow>
          (case outcome of
             OpCancelled \<Rightarrow> (ChatCancelled, db')
           | _ \<Rightarrow>
               (case ack of
                  Inl e \<Rightarrow> (e, db')
                | Inr _ \<Rightarrow>
                    (case outcome of
                       OpApiError e \<Rightarrow> (ChatApi (if error_code e = error_code outcome_unknown_error then e
                                              else outcome_unknown_error), db')
                     | _ \<Rightarrow> (ChatApi outcome_unknown_error, db')))))"

definition after_failed_store ::
    "chat_settings \<Rightarrow> claim_descriptor \<Rightarrow> schedule \<Rightarrow> 'r \<Rightarrow> chat_error \<Rightarrow> chat_db \<Rightarrow> (chat_error + 'r) \<times> chat_db" where
  "after_failed_store st d s response e db =
     (if (case e of ChatApi f \<Rightarrow> error_code f = error_code resource_changed_error | _ \<Rightarrow> False) then (Inl e, db)
      else (case mark_outcome_unknown st d (sc_unstored s) (sc_unstored_wait s) db of
        (ack, db') \<Rightarrow>
          (if e = ChatCancelled then (Inl ChatCancelled, db')
           else (case ack of
             Inl e' \<Rightarrow> (Inl e', db')
           | Inr COMPLETED \<Rightarrow> (Inr response, db')
           | Inr INVALIDATED \<Rightarrow> (Inl (ChatApi resource_changed_error), db')
           | Inr _ \<Rightarrow> (Inl (ChatApi outcome_unknown_error), db')))))"

text \<open>The completing transaction over a connection that may fail.\<close>

definition store_over ::
    "connection \<Rightarrow> (chat_error + unit) \<times> chat_db \<Rightarrow> chat_db \<Rightarrow> (chat_error + unit) \<times> chat_db" where
  "store_over c run db =
     (case c of
        Stable \<Rightarrow> run
      | Fails committed \<Rightarrow> (Inl ChatUnexpected, if committed then snd run else db)
      | Interrupted committed \<Rightarrow> (Inl ChatCancelled, if committed then snd run else db))"

definition descriptor_of :: "chat_idempotency_record \<Rightarrow> string \<Rightarrow> string \<Rightarrow> string \<Rightarrow> claim_descriptor" where
  "descriptor_of rec ph kh rh = \<lparr>cl_record_id = ci_id rec, cl_principal_hash = ph, cl_key_hash = kh, cl_request_hash = rh\<rparr>"

definition execute_chat_query_idempotently ::
    "crypto_ops \<Rightarrow> 'r replay_ops \<Rightarrow> chat_settings \<Rightarrow> schedule \<Rightarrow> chat_principal \<Rightarrow> string \<Rightarrow> chat_query \<Rightarrow> authorizer \<Rightarrow>
     (chat_db \<Rightarrow> 'r operation_outcome \<times> chat_db) \<Rightarrow> chat_db \<Rightarrow> (chat_error + 'r) \<times> chat_db" where
  "execute_chat_query_idempotently co ops st s who key request authorize operation db =
     (case load_replay_keyring st of
        None \<Rightarrow> (Inl ChatUnexpected, db)
      | Some kr \<Rightarrow>
          (let ph = fingerprint co who; kh = co_sha256 co (key_text key); rh = request_hash co request in
           case claim_or_replay co ops st kr ph kh rh (cq_knowledge_base_id request) authorize (sc_turn s) db of
             (Inl e, db1) \<Rightarrow> (Inl e, db1)
           | (Inr (rec, Some response), db1) \<Rightarrow> (Inr response, db1)
           | (Inr (rec, None), db1) \<Rightarrow>
               (let d = descriptor_of rec ph kh rh in
                case operation db1 of
                  (OpResponse response, db2) \<Rightarrow>
                    (let db3 = sc_store_others s db2 in
                     case store_over (sc_store s) (store_completed_response co ops st kr d response authorize
                            (sc_store_now s) (sc_store_nonce s) db3) db3 of
                       (Inr _, db4) \<Rightarrow> (Inr response, db4)
                     | (Inl e, db4) \<Rightarrow> after_failed_store st d s response e db4)
                | (outcome, db2) \<Rightarrow>
                    (case after_failed_operation st d s outcome db2 of (e, db3) \<Rightarrow> (Inl e, db3)))))"

section \<open>Cleanup\<close>

text \<open>One batch; \<open>locked\<close> are the rows other sessions hold, which \<open>SKIP LOCKED\<close> passes over.\<close>

definition stale_claims :: "chat_settings \<Rightarrow> timestamp \<Rightarrow> (uuid \<Rightarrow> bool) \<Rightarrow> nat \<Rightarrow> chat_db \<Rightarrow> chat_idempotency_record list" where
  "stale_claims st current locked batch_size db =
     take batch_size (sort_key ci_updated_at (sort_key ci_id (filter (\<lambda>c. ci_status c = PROCESSING \<and>
       ci_updated_at c \<le> current - seconds (cs_processing_timeout_seconds st) \<and> \<not> locked (ci_id c)) (y_records db))))"

definition is_expired :: "timestamp \<Rightarrow> chat_idempotency_record \<Rightarrow> bool" where
  "is_expired current c \<longleftrightarrow> is_terminal (ci_status c) \<and> (case ci_expires_at c of None \<Rightarrow> False | Some t \<Rightarrow> t \<le> current)"

definition expired_claims :: "timestamp \<Rightarrow> (uuid \<Rightarrow> bool) \<Rightarrow> nat \<Rightarrow> chat_db \<Rightarrow> chat_idempotency_record list" where
  "expired_claims current locked batch_size db =
     take batch_size (sort_key (\<lambda>c. the (ci_expires_at c)) (sort_key ci_id
       (filter (\<lambda>c. is_expired current c \<and> \<not> locked (ci_id c)) (y_records db))))"

definition cleanup_batch ::
    "chat_settings \<Rightarrow> timestamp \<Rightarrow> (uuid \<Rightarrow> bool) \<Rightarrow> nat \<Rightarrow> chat_db \<Rightarrow> nat \<times> nat \<times> chat_db" where
  "cleanup_batch st current locked batch_size db =
     (let processing = map ci_id (stale_claims st current locked batch_size db);
          db1 = db\<lparr>y_records := update_where (\<lambda>c. ci_id c \<in> set processing)
                  (\<lambda>c. (close_record OUTCOME_UNKNOWN st current c)\<lparr>ci_updated_at := current\<rparr>) (y_records db)\<rparr>;
          expired = map ci_id (expired_claims current locked batch_size db1)
      in (length processing, length expired, db1\<lparr>y_records := filter (\<lambda>c. ci_id c \<notin> set expired) (y_records db1)\<rparr>))"

fun cleanup_loop :: "chat_settings \<Rightarrow> timestamp \<Rightarrow> (uuid \<Rightarrow> bool) \<Rightarrow> nat \<Rightarrow> nat \<Rightarrow> nat \<Rightarrow> chat_db \<Rightarrow> nat \<times> chat_db" where
  "cleanup_loop st current locked batch_size 0 acc db = (acc, db)"
| "cleanup_loop st current locked batch_size (Suc n) acc db =
     (case cleanup_batch st current locked batch_size db of
        (p, e, db') \<Rightarrow>
          if p < batch_size \<and> e < batch_size then (acc + p + e, db')
          else cleanup_loop st current locked batch_size n (acc + p + e) db')"

definition cleanup_chat_idempotency_records ::
    "chat_settings \<Rightarrow> timestamp \<Rightarrow> (uuid \<Rightarrow> bool) \<Rightarrow> int \<Rightarrow> int \<Rightarrow> chat_db \<Rightarrow> (nat \<times> chat_db) option" where
  "cleanup_chat_idempotency_records st current locked batch_size max_batches db =
     (if batch_size \<le> 0 \<or> max_batches \<le> 0 then None
      else Some (cleanup_loop st current locked (nat batch_size) (nat max_batches) 0 db))"

section \<open>The ledger invariant\<close>

abbreviation claim_key :: "chat_idempotency_record \<Rightarrow> string \<times> string" where
  "claim_key c \<equiv> (ci_principal_hash c, ci_idempotency_key_hash c)"

definition chat_inv :: "chat_db \<Rightarrow> bool" where
  "chat_inv db \<longleftrightarrow> keyed ci_id (y_records db) \<and> keyed claim_key (y_records db) \<and>
     list_all chat_idempotency_checks (y_records db)"

lemma chat_invD:
  assumes "chat_inv db"
  shows "keyed ci_id (y_records db)" "keyed claim_key (y_records db)"
    "c \<in> set (y_records db) \<Longrightarrow> chat_idempotency_checks c"
  using assms by (simp_all add: chat_inv_def list_all_iff)

text \<open>The identity of a claim, which no transition changes.\<close>

definition same_claim :: "chat_idempotency_record \<Rightarrow> chat_idempotency_record \<Rightarrow> bool" where
  "same_claim c c' \<longleftrightarrow> ci_id c' = ci_id c \<and> claim_key c' = claim_key c \<and> ci_request_hash c' = ci_request_hash c \<and>
     ci_knowledge_base_id c' = ci_knowledge_base_id c \<and>
     ci_knowledge_base_content_version c' = ci_knowledge_base_content_version c"

lemma same_claim_simps [simp]:
  "same_claim c c"
  "same_claim c (close_record s st now c') = same_claim c c'"
  "same_claim c (clear_response c') = same_claim c c'"
  "same_claim c (c'\<lparr>ci_updated_at := t\<rparr>) = same_claim c c'"
  "same_claim c (c'\<lparr>ci_response_body := a, ci_response_encoding := b, ci_response_size_bytes := x,
     ci_response_key_version := v, ci_response_nonce := n\<rparr>) = same_claim c c'"
  by (simp_all add: same_claim_def close_record_def clear_response_def)

lemma close_record_simps [simp]:
  "ci_id (close_record s st now c) = ci_id c" "ci_status (close_record s st now c) = s"
  "ci_principal_hash (close_record s st now c) = ci_principal_hash c"
  "ci_idempotency_key_hash (close_record s st now c) = ci_idempotency_key_hash c"
  "ci_request_hash (close_record s st now c) = ci_request_hash c"
  "ci_knowledge_base_id (close_record s st now c) = ci_knowledge_base_id c"
  "ci_knowledge_base_content_version (close_record s st now c) = ci_knowledge_base_content_version c"
  "ci_expires_at (close_record s st now c) = Some (now + seconds (cs_ttl_seconds st))"
  "ci_id (clear_response c) = ci_id c" "ci_principal_hash (clear_response c) = ci_principal_hash c"
  "ci_idempotency_key_hash (clear_response c) = ci_idempotency_key_hash c"
  "ci_request_hash (clear_response c) = ci_request_hash c" "ci_status (clear_response c) = ci_status c"
  by (simp_all add: close_record_def clear_response_def)

text \<open>The status diagram: a claim is closed once, and a completed one can only be withdrawn.\<close>

definition status_moves :: "chat_idempotency_status \<Rightarrow> chat_idempotency_status \<Rightarrow> bool" where
  "status_moves s s' \<longleftrightarrow> s' = s \<or> s = PROCESSING \<or> (s = COMPLETED \<and> s' \<in> {OUTCOME_UNKNOWN, INVALIDATED})"

lemma status_moves_trans: "status_moves a b \<Longrightarrow> status_moves b c \<Longrightarrow> status_moves a c"
  by (auto simp: status_moves_def)

text \<open>
  What one transition may do to the rows: keep them, close one or more, insert an open claim whose identifier
  and key are free, and delete rows.
\<close>

definition closes :: "chat_settings \<Rightarrow> timestamp \<Rightarrow> chat_idempotency_record \<Rightarrow> chat_idempotency_record \<Rightarrow> bool" where
  "closes st now c c' \<longleftrightarrow> same_claim c c' \<and> status_moves (ci_status c) (ci_status c') \<and> ci_status c' \<noteq> PROCESSING \<and>
     ci_expires_at c' = Some (now + seconds (cs_ttl_seconds st))"

lemma closes_simps [simp]:
  "closes st now c (c'\<lparr>ci_updated_at := t\<rparr>) = closes st now c c'"
  by (simp add: closes_def)

lemma closesI:
  assumes "same_claim c c'" "status_moves (ci_status c) s" "s \<noteq> PROCESSING"
  shows "closes st now c (close_record s st now c')"
  using assms by (simp add: closes_def)

lemma find_recordD: "find_record db rid = Some c \<Longrightarrow> c \<in> set (y_records db) \<and> ci_id c = rid"
  unfolding find_record_def by (drule find_Some_in_set) simp

lemma find_claimD: "find_claim db ph kh = Some c \<Longrightarrow> c \<in> set (y_records db) \<and> has_key ph kh c"
  unfolding find_claim_def by (rule find_Some_in_set)

lemma has_key_claim_key: "has_key ph kh c \<longleftrightarrow> claim_key c = (ph, kh)"
  by (simp add: has_key_def)

lemma write_recordD:
  assumes "write_record now rec db = Some db'"
  shows "y_records db' = update_where (\<lambda>c. ci_id c = ci_id rec) (\<lambda>_. rec\<lparr>ci_updated_at := now\<rparr>) (y_records db)"
    "y_keys db' = y_keys db" "chat_idempotency_checks (rec\<lparr>ci_updated_at := now\<rparr>)"
  using assms by (auto simp: write_record_def chat_idempotency_checks_def ci_no_payload_def split: if_split_asm
    chat_idempotency_status.splits)

lemma insert_recordD:
  assumes "insert_record c db = Some db'"
  shows "y_records db' = y_records db @ [c]" "y_keys db' = y_keys db" "chat_idempotency_checks c"
    "ci_id c \<notin> ci_id ` set (y_records db)" "claim_key c \<notin> claim_key ` set (y_records db)"
  using assms by (force simp: insert_record_def has_key_def split: if_split_asm)+

text \<open>A transition of the table: every new row is a kept row, a closed row or a fresh claim.\<close>

inductive table_moves :: "chat_settings \<Rightarrow> timestamp \<Rightarrow> chat_db \<Rightarrow> chat_db \<Rightarrow> bool"
  for st :: chat_settings and now :: timestamp where
  rewrite: "y_records db' = filter (\<lambda>c. \<not> (p c \<and> is_expired now c)) (map f (y_records db)) \<Longrightarrow>
     (\<And>c. c \<in> set (y_records db) \<Longrightarrow> f c = c \<or> closes st now c (f c) \<and> chat_idempotency_checks (f c)) \<Longrightarrow>
     table_moves st now db db'"
| claim: "insert_record c db = Some db' \<Longrightarrow> ci_status c = PROCESSING \<Longrightarrow> table_moves st now db db'"

lemma moves_keep: "y_records db' = y_records db \<Longrightarrow> table_moves st now db db'"
  by (rule table_moves.rewrite[where p = "\<lambda>_. False" and f = "\<lambda>c. c"]) simp_all

lemma moves_close:
  assumes "y_records db' = map f (y_records db)"
    "\<And>c. c \<in> set (y_records db) \<Longrightarrow> f c = c \<or> closes st now c (f c) \<and> chat_idempotency_checks (f c)"
  shows "table_moves st now db db'"
  by (rule table_moves.rewrite[where p = "\<lambda>_. False" and f = f]) (simp_all add: assms)

lemma moves_delete:
  "y_records db' = filter (\<lambda>c. \<not> (p c \<and> is_expired now c)) (y_records db) \<Longrightarrow> table_moves st now db db'"
  by (rule table_moves.rewrite[where p = p and f = "\<lambda>c. c"]) simp_all

lemma write_moves:
  assumes inv: "chat_inv db" and w: "write_record now rec' db = Some db'"
    and c: "c \<in> set (y_records db)" "ci_id rec' = ci_id c" "closes st now c rec'"
  shows "table_moves st now db db'"
proof (rule moves_close)
  show "y_records db' = map (\<lambda>x. if ci_id x = ci_id rec' then rec'\<lparr>ci_updated_at := now\<rparr> else x) (y_records db)"
    using write_recordD(1)[OF w] by (simp add: update_where_def)
  show "(if ci_id x = ci_id rec' then rec'\<lparr>ci_updated_at := now\<rparr> else x) = x \<or>
      closes st now x (if ci_id x = ci_id rec' then rec'\<lparr>ci_updated_at := now\<rparr> else x) \<and>
      chat_idempotency_checks (if ci_id x = ci_id rec' then rec'\<lparr>ci_updated_at := now\<rparr> else x)"
    if "x \<in> set (y_records db)" for x
    using that keyed_unique[OF chat_invD(1)[OF inv], of x c] c write_recordD(3)[OF w] by auto
qed

lemma keyed_map: "(\<And>r. r \<in> set rows \<Longrightarrow> k (f r) = k r) \<Longrightarrow> keyed k (map f rows) = keyed k rows"
  by (simp add: keyed_def cong: map_cong)

lemma table_moves_inv:
  assumes "table_moves st now db db'" "chat_inv db"
  shows "chat_inv db'"
  using assms(1)
proof cases
  case (rewrite p f)
  have f: "ci_id (f c) = ci_id c" "claim_key (f c) = claim_key c" "chat_idempotency_checks (f c)"
    if "c \<in> set (y_records db)" for c
    using rewrite(2)[OF that] chat_invD(3)[OF assms(2) that] by (auto simp: closes_def same_claim_def)
  have "keyed ci_id (map f (y_records db))" "keyed claim_key (map f (y_records db))"
    using assms(2) f by (simp_all add: chat_inv_def keyed_map)
  then show ?thesis using f(3) rewrite(1) by (auto simp: chat_inv_def keyed_filter list_all_iff)
next
  case (claim c)
  from insert_recordD[OF this(1)] show ?thesis
    using assms(2) unfolding chat_inv_def by (simp add: keyed_append)
qed

section \<open>Every transaction is such a transition\<close>

lemma commit_refusal_moves:
  assumes "chat_inv db" "commit_refusal now rec' e db = (res, db')"
    "c \<in> set (y_records db)" "ci_id rec' = ci_id c" "closes st now c rec'"
  shows "table_moves st now db db'"
  using assms by (auto simp: commit_refusal_def intro: moves_keep write_moves split: option.split_asm)

lemma delete_moves:
  assumes inv: "chat_inv db" and c: "c \<in> set (y_records db)" "is_expired now c"
  shows "table_moves st now db (delete_record (ci_id c) db)"
proof (rule moves_delete[where p = "\<lambda>x. ci_id x = ci_id c"])
  show "y_records (delete_record (ci_id c) db) = filter (\<lambda>x. \<not> (ci_id x = ci_id c \<and> is_expired now x)) (y_records db)"
    using keyed_unique[OF chat_invD(1)[OF inv] _ c(1)] c(2) by (auto simp: delete_record_def intro!: filter_cong)
qed

lemma open_moves:
  "ci_status c \<noteq> INVALIDATED \<Longrightarrow> ci_status c \<noteq> OUTCOME_UNKNOWN \<Longrightarrow> s \<in> {OUTCOME_UNKNOWN, INVALIDATED} \<Longrightarrow>
   status_moves (ci_status c) s"
  by (cases "ci_status c") (auto simp: status_moves_def)

lemma decide_existing_moves:
  assumes inv: "chat_inv db" and c: "c \<in> set (y_records db)"
    and run: "decide_existing co ops st kr rh sn now c db = (res, db')"
  shows "table_moves st now db db'"
proof -
  have w: "table_moves st now db db'"
    if "commit_refusal now (close_record s st now c') e db = (res, db')" "same_claim c c'"
      "s \<in> {OUTCOME_UNKNOWN, INVALIDATED}" "ci_status c \<noteq> INVALIDATED" "ci_status c \<noteq> OUTCOME_UNKNOWN" for s c' e
  proof (rule commit_refusal_moves[OF inv that(1) c])
    show "closes st now c (close_record s st now c')" using that by (intro closesI open_moves) auto
    show "ci_id (close_record s st now c') = ci_id c" using that(2) by (simp add: same_claim_def)
  qed
  have d: "table_moves st now db (delete_record (ci_id c) db)"
    if "is_terminal (ci_status c)" "case ci_expires_at c of None \<Rightarrow> False | Some t \<Rightarrow> t \<le> now"
    using that by (intro delete_moves[OF inv c]) (simp add: is_expired_def)
  let ?old = "is_terminal (ci_status c) \<and> (case ci_expires_at c of None \<Rightarrow> False | Some t \<Rightarrow> t \<le> now)"
  show ?thesis
  proof (cases "?old \<or> ci_status c = INVALIDATED \<or> ci_status c = OUTCOME_UNKNOWN \<or> ci_request_hash c \<noteq> rh")
    case True
    with run d show ?thesis unfolding decide_existing_def by (simp add: moves_keep split: if_split_asm)
  next
    case False
    then have n: "\<not> ?old" "ci_status c \<noteq> INVALIDATED" "ci_status c \<noteq> OUTCOME_UNKNOWN" "ci_request_hash c = rh" by simp_all
    from run show ?thesis
      unfolding decide_existing_def if_not_P[OF n(1)] using n(2-4)
      by (simp split: if_split_asm option.split_asm) (erule w; simp | simp add: moves_keep)+
  qed
qed

lemma claim_attempt_moves:
  assumes inv: "chat_inv db" and run: "claim_attempt co ops st kr ph kh rh kid auth now rid db = (res, db')"
  shows "table_moves st now db db'"
proof -
  show ?thesis
  proof (cases "auth now (y_keys db)")
    case (Inl e)
    with run show ?thesis by (simp add: claim_attempt_def moves_keep)
  next
    case (Inr sn)
    show ?thesis
    proof (cases "insert_record (new_claim rid ph kh rh sn now) db")
      case (Some db1)
      with run Inr show ?thesis
        by (auto simp: claim_attempt_def new_claim_def intro: moves_keep table_moves.claim split: if_split_asm)
    next
      case None
      with run Inr show ?thesis
        by (auto simp: claim_attempt_def intro: moves_keep decide_existing_moves[OF inv]
          dest: find_claimD split: if_split_asm option.split_asm)
    qed
  qed
qed

lemma store_moves:
  assumes inv: "chat_inv db" and run: "store_completed_response co ops st kr d response auth now nonce db = (res, db')"
  shows "table_moves st now db db'"
proof (cases "\<exists>rec. find_record db (cl_record_id d) = Some rec \<and> ci_status rec = PROCESSING")
  case False
  with run show ?thesis
    by (auto simp: store_completed_response_def intro: moves_keep split: sum.split_asm option.split_asm if_split_asm)
next
  case True
  then obtain rec where rec: "find_record db (cl_record_id d) = Some rec" "ci_status rec = PROCESSING" by blast
  have r: "rec \<in> set (y_records db)" using find_recordD[OF rec(1)] by simp
  have w: "table_moves st now db db2"
    if "write_record now (close_record s st now rec') db = Some db2" "same_claim rec rec'" "s \<noteq> PROCESSING" for s rec' db2
    using that rec(2) r by (intro write_moves[OF inv that(1) r]) (auto simp: same_claim_def status_moves_def closes_def)
  have "db' = db \<or> (\<exists>s rec'. write_record now (close_record s st now rec') db = Some db' \<and> same_claim rec rec' \<and> s \<noteq> PROCESSING)"
  proof (cases "write_record now (close_record INVALIDATED st now (clear_response rec)) db = Some db'")
    case True
    then show ?thesis by (intro disjI2 exI[of _ INVALIDATED] exI[of _ "clear_response rec"]) simp
  next
    case False
    with run rec show ?thesis
      unfolding store_completed_response_def
      by (simp split: sum.split_asm option.split_asm if_split_asm prod.split_asm)
        (intro exI[of _ COMPLETED] disjI2, rule exI, erule conjI, simp)+
  qed
  then show ?thesis using w by (auto intro: moves_keep)
qed

lemma unknown_update_moves:
  assumes inv: "chat_inv db" and run: "unknown_update st d now db = Some (Inr db')"
  shows "table_moves st now db db'"
proof -
  from run obtain rec where rec: "find_record db (cl_record_id d) = Some rec" "terminal_ack d rec = Some None"
    and w: "write_record now (close_record OUTCOME_UNKNOWN st now (clear_response rec)) db = Some db'"
    by (auto simp: unknown_update_def bind_eq_Some_conv split: option.split_asm)
  from rec(2) have "ci_status rec = PROCESSING" by (simp add: terminal_ack_def split: if_split_asm)
  then show ?thesis
    using find_recordD[OF rec(1)] by (intro write_moves[OF inv w]) (auto intro!: closesI simp: status_moves_def)
qed

lemma in_stale_claims: "c \<in> set (stale_claims st now locked n db) \<Longrightarrow> c \<in> set (y_records db) \<and> ci_status c = PROCESSING"
  by (auto simp: stale_claims_def dest!: in_set_takeD)

lemma in_expired_claims: "c \<in> set (expired_claims now locked n db) \<Longrightarrow> c \<in> set (y_records db) \<and> is_expired now c"
  by (auto simp: expired_claims_def dest!: in_set_takeD)

lemma processing_checks_close:
  "chat_idempotency_checks c \<Longrightarrow> ci_status c = PROCESSING \<Longrightarrow>
   chat_idempotency_checks ((close_record OUTCOME_UNKNOWN st now c)\<lparr>ci_updated_at := t\<rparr>)"
  by (auto simp: chat_idempotency_checks_def close_record_def ci_no_payload_def)

lemma cleanup_batch_moves:
  assumes inv: "chat_inv db" and run: "cleanup_batch st now locked n db = (p, e, db')"
  shows "table_moves st now db db'"
proof -
  define ids where "ids = ci_id ` set (stale_claims st now locked n db)"
  define f where "f = (\<lambda>c. if ci_id c \<in> ids then (close_record OUTCOME_UNKNOWN st now c)\<lparr>ci_updated_at := now\<rparr> else c)"
  define db1 where "db1 = db\<lparr>y_records := map f (y_records db)\<rparr>"
  define gone where "gone = ci_id ` set (expired_claims now locked n db1)"
  have pr: "ci_status c = PROCESSING" if "c \<in> set (y_records db)" "ci_id c \<in> ids" for c
  proof -
    obtain x where "x \<in> set (stale_claims st now locked n db)" "ci_id x = ci_id c" using \<open>ci_id c \<in> ids\<close> by (auto simp: ids_def)
    with in_stale_claims[of x] keyed_unique[OF chat_invD(1)[OF inv] _ that(1)] show ?thesis by metis
  qed
  have f: "f c = c \<or> closes st now c (f c) \<and> chat_idempotency_checks (f c)" if "c \<in> set (y_records db)" for c
    using pr[OF that] chat_invD(3)[OF inv that] processing_checks_close
    by (auto simp: f_def closes_def status_moves_def)
  have inv1: "chat_inv db1" by (rule table_moves_inv[OF moves_close[OF _ f] inv]) (simp_all add: db1_def)
  have old: "is_expired now c" if c: "c \<in> set (map f (y_records db))" "ci_id c \<in> gone" for c
  proof -
    from c(2) obtain x where x: "x \<in> set (expired_claims now locked n db1)" "ci_id x = ci_id c" by (auto simp: gone_def)
    have "c \<in> set (y_records db1)" using c(1) by (simp add: db1_def)
    with keyed_unique[OF chat_invD(1)[OF inv1]] in_expired_claims[OF x(1)] x(2) show ?thesis by metis
  qed
  have "y_records db' = filter (\<lambda>c. ci_id c \<notin> gone) (map f (y_records db))"
    using run by (auto simp: cleanup_batch_def Let_def db1_def ids_def f_def gone_def update_where_def)
  also have "\<dots> = filter (\<lambda>c. \<not> (ci_id c \<in> gone \<and> is_expired now c)) (map f (y_records db))"
    using old by (intro filter_cong) auto
  finally show ?thesis by (rule table_moves.rewrite) (rule f)
qed

section \<open>Runs of the ledger\<close>

inductive chat_step :: "'r replay_ops \<Rightarrow> chat_settings \<Rightarrow> timestamp \<Rightarrow> chat_db \<Rightarrow> chat_db \<Rightarrow> bool"
  for ops :: "'r replay_ops" and st :: chat_settings and now :: timestamp where
  claim: "claim_attempt co ops st kr ph kh rh kid auth now rid db = (res, db') \<Longrightarrow> chat_step ops st now db db'"
| store: "store_completed_response co ops st kr d response auth now nonce db = (res2, db') \<Longrightarrow> chat_step ops st now db db'"
| terminalize: "unknown_update st d now db = Some (Inr db') \<Longrightarrow> chat_step ops st now db db'"
| cleanup: "cleanup_batch st now locked n db = (p, e, db') \<Longrightarrow> chat_step ops st now db db'"
| elsewhere: "y_records db' = y_records db \<Longrightarrow> chat_step ops st now db db'"

lemma chat_step_moves:
  assumes "chat_step ops st now db db'" "chat_inv db"
  shows "table_moves st now db db'"
  using assms(1)
proof cases
  case (claim co kr ph kh rh kid auth rid res)
  then show ?thesis by (rule claim_attempt_moves[OF assms(2)])
next
  case (store co kr d response auth nonce res2)
  then show ?thesis by (rule store_moves[OF assms(2)])
next
  case (terminalize d)
  then show ?thesis by (rule unknown_update_moves[OF assms(2)])
next
  case (cleanup locked n p e)
  then show ?thesis by (rule cleanup_batch_moves[OF assms(2)])
next
  case elsewhere
  then show ?thesis by (rule moves_keep)
qed

lemma chat_step_inv: "chat_step ops st now db db' \<Longrightarrow> chat_inv db \<Longrightarrow> chat_inv db'"
  using chat_step_moves table_moves_inv by blast

definition chat_window :: "'r replay_ops \<Rightarrow> chat_settings \<Rightarrow> timestamp \<Rightarrow> timestamp \<Rightarrow> chat_db \<Rightarrow> chat_db \<Rightarrow> bool" where
  "chat_window ops st a b db db' \<longleftrightarrow> (\<exists>t. a \<le> t \<and> t < b \<and> chat_step ops st t db db')"

inductive chat_reachable :: "'r replay_ops \<Rightarrow> chat_settings \<Rightarrow> chat_db \<Rightarrow> bool"
  for ops :: "'r replay_ops" and st :: chat_settings where
  start: "y_records db = [] \<Longrightarrow> chat_reachable ops st db"
| step: "chat_reachable ops st db \<Longrightarrow> chat_step ops st now db db' \<Longrightarrow> chat_reachable ops st db'"

lemma chat_reachable_inv: "chat_reachable ops st db \<Longrightarrow> chat_inv db"
proof (induction rule: chat_reachable.induct)
  case (start db)
  then show ?case by (simp add: chat_inv_def)
next
  case (step db now db')
  then show ?case by (blast intro: chat_step_inv)
qed

text \<open>A key is guarded while its claim is open or will expire only after the window.\<close>

definition guarded :: "string \<Rightarrow> string \<Rightarrow> timestamp \<Rightarrow> chat_db \<Rightarrow> bool" where
  "guarded ph kh b db \<longleftrightarrow> (\<exists>c \<in> set (y_records db). has_key ph kh c \<and>
     (ci_status c = PROCESSING \<or> (\<exists>t. ci_expires_at c = Some t \<and> b \<le> t)))"

lemma table_moves_kept:
  assumes "table_moves st now db db'" "c \<in> set (y_records db)" "\<not> is_expired now c" "0 < seconds (cs_ttl_seconds st)"
  shows "\<exists>c' \<in> set (y_records db'). c' = c \<or> closes st now c c'"
  using assms(1)
proof cases
  case (rewrite p f)
  from rewrite(2)[OF assms(2)] have "f c = c \<or> closes st now c (f c)" by blast
  moreover from this have "\<not> is_expired now (f c)" using assms(3,4) by (auto simp: is_expired_def closes_def)
  ultimately show ?thesis using rewrite(1) assms(2) by (intro bexI[of _ "f c"]) auto
next
  case (claim c2)
  then show ?thesis using assms(2) insert_recordD(1)[OF claim(1)] by auto
qed

lemma table_moves_origin:
  assumes "table_moves st now db db'" "c' \<in> set (y_records db')"
  shows "ci_id c' \<notin> ci_id ` set (y_records db) \<and> claim_key c' \<notin> claim_key ` set (y_records db) \<and> ci_status c' = PROCESSING \<or>
    (\<exists>c \<in> set (y_records db). same_claim c c' \<and> status_moves (ci_status c) (ci_status c'))"
  using assms(1)
proof cases
  case (rewrite p f)
  then obtain c where "c \<in> set (y_records db)" "c' = f c" using assms(2) by auto
  with rewrite(2) show ?thesis by (force simp: closes_def status_moves_def)
next
  case (claim c2)
  from insert_recordD[OF claim(1)] claim(2) assms(2) show ?thesis by (auto simp: status_moves_def intro: bexI[of _ c'])
qed

lemma table_moves_guarded:
  assumes "table_moves st now db db'" "guarded ph kh b db" "now < b" "b \<le> now + seconds (cs_ttl_seconds st)"
  shows "guarded ph kh b db'"
proof -
  obtain c where c: "c \<in> set (y_records db)" "has_key ph kh c"
    "ci_status c = PROCESSING \<or> (\<exists>t. ci_expires_at c = Some t \<and> b \<le> t)"
    using assms(2) by (auto simp: guarded_def)
  have "\<not> is_expired now c" using c(3) assms(3) by (auto simp: is_expired_def is_terminal_def)
  from table_moves_kept[OF assms(1) c(1) this] assms(3,4)
  have "\<exists>c' \<in> set (y_records db'). c' = c \<or> closes st now c c'" by simp
  then obtain c' where c': "c' \<in> set (y_records db')" "c' = c \<or> closes st now c c'" by blast
  then have "has_key ph kh c'" "ci_status c' = PROCESSING \<or> (\<exists>t. ci_expires_at c' = Some t \<and> b \<le> t)"
    using c(2,3) assms(4) by (auto simp: closes_def same_claim_def has_key_def)
  with c'(1) show ?thesis unfolding guarded_def by blast
qed

interpretation guard_run: step_system "chat_window ops st a b" "\<lambda>db. chat_inv db \<and>
    (b \<le> a + seconds (cs_ttl_seconds st) \<longrightarrow> guarded ph kh b db)" for ops st a b ph kh
proof unfold_locales
  fix s t assume "chat_window ops st a b s t"
    and inv: "chat_inv s \<and> (b \<le> a + seconds (cs_ttl_seconds st) \<longrightarrow> guarded ph kh b s)"
  then obtain now where now: "a \<le> now" "now < b" and step: "chat_step ops st now s t" by (auto simp: chat_window_def)
  have m: "table_moves st now s t" using chat_step_moves[OF step] inv by blast
  have "guarded ph kh b t" if "b \<le> a + seconds (cs_ttl_seconds st)"
    using table_moves_guarded[OF m] inv that now by simp
  then show "chat_inv t \<and> (b \<le> a + seconds (cs_ttl_seconds st) \<longrightarrow> guarded ph kh b t)"
    using chat_step_inv[OF step] inv by simp
qed

section \<open>A guarded key is not claimed again\<close>

lemma guarded_not_claimed:
  assumes "guarded ph kh b db" "claim_attempt co ops st kr ph kh rh kid auth now rid db = (res, db')"
  shows "res \<noteq> Claimed rec"
proof -
  obtain c where c: "c \<in> set (y_records db)" "has_key ph kh c" using assms(1) by (auto simp: guarded_def)
  then have "insert_record (new_claim rid ph kh rh sn now) db = None" for sn
    by (auto simp: insert_record_def new_claim_def has_key_def)
  moreover have "decide_existing co ops st kr rh sn now x db \<noteq> (Claimed rec, d)" for sn x d
    by (auto simp: decide_existing_def commit_refusal_def split: option.split)
  ultimately show ?thesis using assms(2) by (auto simp: claim_attempt_def split: sum.split_asm if_split_asm option.split_asm)
qed

definition turn_within :: "'r replay_ops \<Rightarrow> chat_settings \<Rightarrow> timestamp \<Rightarrow> timestamp \<Rightarrow> turn \<Rightarrow> bool" where
  "turn_within ops st a b t \<longleftrightarrow> a \<le> tn_now t \<and> tn_now t < b \<and> (\<forall>db. (chat_window ops st a b)\<^sup>*\<^sup>* db (tn_others t db))"

lemma claim_loop_guarded:
  assumes "\<And>t. t \<in> set ts \<Longrightarrow> turn_within ops st a b t" "b \<le> a + seconds (cs_ttl_seconds st)"
    and "chat_inv db" "guarded ph kh b db"
  shows "fst (claim_loop co ops st kr ph kh rh kid auth ts db) \<noteq> Inr (rec, None)"
  using assms
proof (induction ts arbitrary: db)
  case Nil
  then show ?case by simp
next
  case (Cons t ts)
  let ?d = "tn_others t db"
  have t: "turn_within ops st a b t" using Cons.prems(1) by simp
  then have d: "chat_inv ?d \<and> guarded ph kh b ?d"
    using guard_run.steps_inv[of ops st a b db ?d ph kh] Cons.prems by (simp add: turn_within_def)
  obtain res db' where run: "claim_attempt co ops st kr ph kh rh kid auth (tn_now t) (tn_id t) ?d = (res, db')"
    by (cases "claim_attempt co ops st kr ph kh rh kid auth (tn_now t) (tn_id t) ?d")
  have m: "table_moves st (tn_now t) ?d db'" using claim_attempt_moves[OF _ run] d by simp
  have d': "chat_inv db'" "guarded ph kh b db'"
    using table_moves_inv[OF m] table_moves_guarded[OF m] d t Cons.prems(2) by (simp_all add: turn_within_def)
  have "res \<noteq> Claimed rec'" for rec' using guarded_not_claimed[OF _ run] d by blast
  moreover have "fst (claim_loop co ops st kr ph kh rh kid auth ts db') \<noteq> Inr (rec, None)"
    using Cons.IH[OF _ _ d'] Cons.prems(1,2) by simp
  ultimately show ?case by (cases res) (simp_all add: run)
qed

lemma execute_without_claim:
  assumes "\<And>kr rec. fst (claim_or_replay co ops st kr (fingerprint co who) (co_sha256 co (key_text key)) (request_hash co request)
      (cq_knowledge_base_id request) auth (sc_turn s) db) \<noteq> Inr (rec, None)"
  shows "execute_chat_query_idempotently co ops st s who key request auth operation db =
         execute_chat_query_idempotently co ops st s who key request auth operation' db"
proof (cases "load_replay_keyring st")
  case None
  then show ?thesis by (simp add: execute_chat_query_idempotently_def)
next
  case (Some kr)
  let ?c = "claim_or_replay co ops st kr (fingerprint co who) (co_sha256 co (key_text key)) (request_hash co request)
      (cq_knowledge_base_id request) auth (sc_turn s) db"
  obtain res db' where c: "?c = (res, db')" by (cases ?c)
  have "res \<noteq> Inr (rec, None)" for rec using assms[of kr rec] c by simp
  then have "(\<exists>e. res = Inl e) \<or> (\<exists>rec response. res = Inr (rec, Some response))" by (cases res) auto
  then show ?thesis using c Some by (auto simp: execute_chat_query_idempotently_def Let_def)
qed

section \<open>What an acknowledgement proves\<close>

lemma verify_terminal_stateD:
  assumes "verify_terminal_state d db = Some (Some status)"
  shows "\<exists>rec. find_record db (cl_record_id d) = Some rec \<and> matches_claim d rec \<and> ci_status rec = status \<and> is_terminal status"
  using assms by (auto simp: verify_terminal_state_def terminal_ack_def bind_eq_Some_conv split: if_split_asm)

lemma unknown_update_InlD:
  assumes "unknown_update st d now db = Some (Inl status)"
  shows "\<exists>rec. find_record db (cl_record_id d) = Some rec \<and> matches_claim d rec \<and> ci_status rec = status \<and> is_terminal status"
  using assms
  by (auto simp: unknown_update_def terminal_ack_def bind_eq_Some_conv split: if_split_asm option.split_asm)

lemma transition_ackD:
  assumes "transition_outcome_unknown_once st d a db = (Some status, db')"
  shows "\<exists>rec. find_record db' (cl_record_id d) = Some rec \<and> matches_claim d rec \<and> ci_status rec = status \<and> is_terminal status"
  using assms unknown_update_InlD[of st d "at_now a" "at_others a db"] verify_terminal_stateD[of d db' status]
  by (auto simp: transition_outcome_unknown_once_def Let_def bind_eq_Some_conv
      split: option.split_asm sum.split_asm connection.split_asm if_split_asm)

lemma reconcile_loop_ackD:
  "reconcile_loop st d as db = (Some status, db') \<Longrightarrow>
   \<exists>rec. find_record db' (cl_record_id d) = Some rec \<and> matches_claim d rec \<and> ci_status rec = status \<and> is_terminal status"
proof (induction as arbitrary: db)
  case Nil
  then show ?case by simp
next
  case (Cons a as)
  show ?case
  proof (cases "transition_outcome_unknown_once st d a db")
    case (Pair ack db1)
    show ?thesis
    proof (cases ack)
      case (Some x)
      with Cons.prems Pair show ?thesis by (auto dest!: transition_ackD)
    next
      case None
      show ?thesis
      proof (cases "if at_recheck_fails a then None else Option.bind (verify_terminal_state d (at_after a db1)) (\<lambda>v. v)")
        case (Some x)
        with Cons.prems Pair None show ?thesis
          using verify_terminal_stateD[of d "at_after a db1" x]
          by (auto simp: Let_def bind_eq_Some_conv split: if_split_asm)
      next
        case n: None
        with Cons.prems Pair None show ?thesis by (intro Cons.IH[of "at_after a db1"]) (simp add: Let_def)
      qed
    qed
  qed
qed

lemma mark_outcome_unknownD:
  assumes "mark_outcome_unknown st d attempt w db = (Inr status, db')"
  shows "\<exists>rec. find_record db' (cl_record_id d) = Some rec \<and> matches_claim d rec \<and> ci_status rec = status \<and> is_terminal status"
  using assms
  by (auto simp: mark_outcome_unknown_def await_terminalization_def reconcile_outcome_unknown_def
      split: prod.split_asm waiting.split_asm option.split_asm intro: reconcile_loop_ackD)

section \<open>The stored answer can be read back\<close>

text \<open>
  What the ledger relies on: a compressed text inflates to itself within a sufficient limit, and AES-GCM decrypts under the same
  key, nonce and associated data and adds a 16-byte tag. Nothing is assumed of the response schema: reading a dumped response
  back may normalize it or refuse it.
\<close>

definition replay_laws :: "'r replay_ops \<Rightarrow> bool" where
  "replay_laws ops \<longleftrightarrow>
     (\<forall>raw n. length raw < n \<longrightarrow> rp_inflate ops (rp_compress ops raw) n = Some (raw, [])) \<and>
     (\<forall>raw n m. length raw < n \<longrightarrow> rp_flush ops (rp_compress ops raw) n m = Some ([], True, [])) \<and>
     (\<forall>k n p a. rp_decrypt ops k n (rp_encrypt ops k n p a) a = Some p) \<and>
     (\<forall>k n p a. length (rp_encrypt ops k n p a) = length p + tag_bytes)"

lemma replay_lawsD:
  assumes "replay_laws ops"
  shows "length raw < n \<Longrightarrow> rp_inflate ops (rp_compress ops raw) n = Some (raw, [])"
    "length raw < n \<Longrightarrow> rp_flush ops (rp_compress ops raw) n m = Some ([], True, [])"
    "rp_decrypt ops k nc (rp_encrypt ops k nc p a) a = Some p"
    "length (rp_encrypt ops k nc p a) = length p + tag_bytes"
  using assms by (simp_all add: replay_laws_def)

lemma response_aad_same: "same_claim c c' \<Longrightarrow> response_aad co c' v = response_aad co c v"
  by (auto simp: same_claim_def response_aad_def split: option.split)

definition carries :: "string \<Rightarrow> int \<Rightarrow> int \<Rightarrow> string \<Rightarrow> chat_idempotency_record \<Rightarrow> bool" where
  "carries body stored version nonce c \<longleftrightarrow> ci_response_body c = Some body \<and> ci_response_encoding c = Some replay_encoding \<and>
     ci_response_size_bytes c = Some stored \<and> ci_response_key_version c = Some version \<and> ci_response_nonce c = Some nonce"

lemma encode_responseD:
  assumes "encode_response co ops kr m rec response nonce = Some (body, stored, version, nonce')"
  shows "rp_dump ops response \<noteq> []" "length (rp_dump ops response) \<le> m" "stored = int (length (rp_dump ops response))"
    "version = kr_active_version kr" "nonce' = nonce"
    "length (rp_compress ops (rp_dump ops response)) + tag_bytes \<le> m" "rp_compress ops (rp_dump ops response) \<noteq> []"
    "\<exists>key aad. map_of (kr_keys kr) version = Some key \<and> response_aad co rec version = Some aad \<and>
       body = rp_encrypt ops key nonce (rp_compress ops (rp_dump ops response)) aad"
  using assms by (auto simp: encode_response_def Let_def bind_eq_Some_conv split: if_split_asm)

lemma decode_encoded:
  assumes enc: "encode_response co ops kr m rec response nonce = Some (body, stored, version, nonce')"
    and laws: "replay_laws ops" and nonce: "length nonce = nonce_bytes" and v: "1 \<le> kr_active_version kr"
    and row: "same_claim rec c" "carries body stored version nonce' c"
    and keys: "map_of (kr_keys kr2) version = map_of (kr_keys kr) version"
  shows "decode_response co ops kr2 m c = rp_validate ops (rp_dump ops response)"
proof -
  note e = encode_responseD[OF enc]
  let ?raw = "rp_dump ops response"
  obtain key aad where k: "map_of (kr_keys kr) version = Some key" "response_aad co rec version = Some aad"
    and body: "body = rp_encrypt ops key nonce (rp_compress ops ?raw) aad" using e(8) by blast
  have len: "length body = length (rp_compress ops ?raw) + tag_bytes" by (simp add: body replay_lawsD(4)[OF laws])
  have "rp_inflate ops (rp_compress ops ?raw) (m + 1) = Some (?raw, [])"
    "rp_flush ops (rp_compress ops ?raw) (m + 1) (m + 1 - length ?raw) = Some ([], True, [])"
    using e(2) by (simp_all add: replay_lawsD(1,2)[OF laws])
  moreover have "rp_decrypt ops key nonce body aad = Some (rp_compress ops ?raw)"
    by (simp add: body replay_lawsD(3)[OF laws])
  moreover have "response_aad co c version = Some aad" using k(2) response_aad_same[OF row(1)] by simp
  ultimately show ?thesis
    using e k row(2) keys nonce v len
    by (simp add: decode_response_def carries_def)
qed

lemma store_okD:
  assumes inv: "chat_inv db"
    and run: "store_completed_response co ops st kr d response auth now nonce db = (Inr (), db')"
  obtains snapshot rec row body stored version nonce' where "auth now (y_keys db) = Inr snapshot"
    "matches_claim d rec" "rec \<in> set (y_records db)" "same_claim rec row" "carries body stored version nonce' row"
    "encode_response co ops kr (cs_response_max_bytes st) rec response nonce = Some (body, stored, version, nonce')"
    "find_record db' (cl_record_id d) = Some row" "ci_status row = COMPLETED"
    "ci_expires_at row = Some (now + seconds (cs_ttl_seconds st))"
    "ci_knowledge_base_id row = Some (sn_knowledge_base_id snapshot)"
    "ci_knowledge_base_content_version row = Some (sn_content_version snapshot)"
proof -
  from run obtain snapshot rec body stored version nonce' where a: "auth now (y_keys db) = Inr snapshot"
    and rec: "find_record db (cl_record_id d) = Some rec" "matches_claim d rec"
    and kb: "ci_knowledge_base_id rec = Some (sn_knowledge_base_id snapshot)"
      "ci_knowledge_base_content_version rec = Some (sn_content_version snapshot)"
    and enc: "encode_response co ops kr (cs_response_max_bytes st) rec response nonce = Some (body, stored, version, nonce')"
    and w: "write_record now (close_record COMPLETED st now (rec\<lparr>ci_response_body := Some body,
        ci_response_encoding := Some replay_encoding, ci_response_size_bytes := Some stored,
        ci_response_key_version := Some version, ci_response_nonce := Some nonce'\<rparr>)) db = Some db'"
    unfolding store_completed_response_def
    by (simp split: sum.split_asm option.split_asm if_split_asm prod.split_asm)
  define row where "row = (close_record COMPLETED st now (rec\<lparr>ci_response_body := Some body,
        ci_response_encoding := Some replay_encoding, ci_response_size_bytes := Some stored,
        ci_response_key_version := Some version, ci_response_nonce := Some nonce'\<rparr>))\<lparr>ci_updated_at := now\<rparr>"
  have r: "rec \<in> set (y_records db)" "ci_id rec = cl_record_id d" using find_recordD[OF rec(1)] by simp_all
  have rows: "y_records db' = update_where (\<lambda>c. ci_id c = ci_id rec) (\<lambda>_. row) (y_records db)"
    using write_recordD(1)[OF w] by (simp add: row_def)
  have id: "ci_id row = ci_id rec" by (simp add: row_def)
  have "row \<in> set (y_records db')" unfolding rows using r(1) by (auto simp: set_update_where)
  moreover have "keyed ci_id (y_records db')"
    using chat_invD(1)[OF inv] id unfolding rows by (subst keyed_update_where) simp_all
  ultimately have "find_record db' (cl_record_id d) = Some row"
    unfolding find_record_def using keyed_find id r(2) by metis
  moreover have "carries body stored version nonce' row" "ci_status row = COMPLETED"
    "ci_expires_at row = Some (now + seconds (cs_ttl_seconds st))" "same_claim rec row"
    by (simp_all add: row_def carries_def close_record_def same_claim_def)
  moreover have "ci_knowledge_base_id row = Some (sn_knowledge_base_id snapshot)"
    "ci_knowledge_base_content_version row = Some (sn_content_version snapshot)" using kb by (simp_all add: row_def)
  ultimately show ?thesis using that a rec(2) r(1) enc by blast
qed

section \<open>What a replay proves\<close>

lemma claim_attempt_replayD:
  assumes "claim_attempt co ops st kr ph kh rh kid auth now rid db = (Replayed rec response, db')"
  shows "db' = db" "rec \<in> set (y_records db)" "has_key ph kh rec" "ci_request_hash rec = rh" "ci_status rec = COMPLETED"
    "\<exists>sn. auth now (y_keys db) = Inr sn \<and> ci_knowledge_base_id rec = Some (sn_knowledge_base_id sn) \<and>
       sn_knowledge_base_id sn = kid \<and> ci_knowledge_base_content_version rec = Some (sn_content_version sn)"
proof -
  have dec: "d = db \<and> x = rec \<and> ci_request_hash x = rh \<and> ci_status x = COMPLETED \<and>
      ci_knowledge_base_id x = Some (sn_knowledge_base_id sn) \<and> ci_knowledge_base_content_version x = Some (sn_content_version sn)"
    if "decide_existing co ops st kr rh sn now x db = (Replayed rec response, d)" for sn x d
    using that by (simp add: decide_existing_def commit_refusal_def split: if_split_asm option.split_asm)
  from assms obtain sn x where "auth now (y_keys db) = Inr sn" "sn_knowledge_base_id sn = kid" "find_claim db ph kh = Some x"
    "decide_existing co ops st kr rh sn now x db = (Replayed rec response, db')"
    by (auto simp: claim_attempt_def Let_def split: sum.split_asm if_split_asm option.split_asm)
  with dec[OF this(4)] find_claimD[OF this(3)]
  show "db' = db" "rec \<in> set (y_records db)" "has_key ph kh rec" "ci_request_hash rec = rh" "ci_status rec = COMPLETED"
    "\<exists>sn. auth now (y_keys db) = Inr sn \<and> ci_knowledge_base_id rec = Some (sn_knowledge_base_id sn) \<and>
       sn_knowledge_base_id sn = kid \<and> ci_knowledge_base_content_version rec = Some (sn_content_version sn)"
    by auto
qed

lemma claim_loop_replayD:
  assumes "claim_loop co ops st kr ph kh rh kid auth ts db = (Inr (rec, Some response), db')"
  shows "\<exists>t \<in> set ts. claim_attempt co ops st kr ph kh rh kid auth (tn_now t) (tn_id t) db' = (Replayed rec response, db')"
  using assms
proof (induction ts arbitrary: db)
  case Nil
  then show ?case by simp
next
  case (Cons t ts)
  show ?case
  proof (cases "claim_attempt co ops st kr ph kh rh kid auth (tn_now t) (tn_id t) (tn_others t db)")
    case (Pair res db1)
    show ?thesis
    proof (cases res)
      case (Replayed r x)
      with Pair Cons.prems have "r = rec" "x = response" "db1 = db'" by simp_all
      with Pair Replayed claim_attempt_replayD(1)[of co ops st kr ph kh rh kid auth "tn_now t" "tn_id t" "tn_others t db"]
      show ?thesis by auto
    next
      case Again
      with Pair Cons.prems have "claim_loop co ops st kr ph kh rh kid auth ts db1 = (Inr (rec, Some response), db')" by simp
      from Cons.IH[OF this] show ?thesis by simp
    qed (use Pair Cons.prems in simp_all)
  qed
qed

section \<open>The table's constraints never fire\<close>

text \<open>
  \<open>write_record\<close> and \<open>insert_record\<close> refuse a row that breaks a constraint of the table, as the database does. The rows that the code
  writes do not: what it closes without a payload, and what it stores with one, satisfies the constraints.
\<close>

lemma find_record_in: "chat_inv db \<Longrightarrow> c \<in> set (y_records db) \<Longrightarrow> find_record db (ci_id c) = Some c"
  unfolding find_record_def by (rule keyed_find[OF chat_invD(1)])

lemma closed_row_checks:
  assumes "chat_idempotency_checks c" "ci_status c = PROCESSING \<or> ci_status c = COMPLETED" "s \<in> {OUTCOME_UNKNOWN, INVALIDATED}"
  shows "chat_idempotency_checks (close_record s st now (clear_response c))"
  using assms by (auto simp: chat_idempotency_checks_def close_record_def clear_response_def ci_no_payload_def split: option.split)

lemma abandoned_row_checks:
  assumes "chat_idempotency_checks c" "ci_status c = PROCESSING"
  shows "chat_idempotency_checks (close_record OUTCOME_UNKNOWN st now c)"
  using assms by (auto simp: chat_idempotency_checks_def close_record_def ci_no_payload_def split: option.split)

lemma stored_row_checks:
  assumes "chat_idempotency_checks c" "ci_status c = PROCESSING"
    and enc: "encode_response co ops kr m c response nonce = Some (body, stored, version, nonce')"
    and "length nonce = 12" "1 \<le> kr_active_version kr" "m \<le> 524288"
  shows "chat_idempotency_checks (close_record COMPLETED st now (c\<lparr>ci_response_body := Some body,
     ci_response_encoding := Some replay_encoding, ci_response_size_bytes := Some stored,
     ci_response_key_version := Some version, ci_response_nonce := Some nonce'\<rparr>))"
proof -
  have "length body \<le> m" "0 < stored" "stored \<le> int m" "version = kr_active_version kr" "nonce' = nonce"
    using enc by (auto simp: encode_response_def Let_def bind_eq_Some_conv split: if_split_asm)
  with assms show ?thesis
    by (auto simp: chat_idempotency_checks_def close_record_def replay_encoding_def split: option.split)
qed

lemma written_row:
  assumes inv: "chat_inv db" and c: "c \<in> set (y_records db)" and row: "ci_id row = ci_id c" "chat_idempotency_checks row"
  obtains db' where "write_record now row db = Some db'" "find_record db' (ci_id c) = Some (row\<lparr>ci_updated_at := now\<rparr>)"
proof -
  obtain db' where w: "write_record now row db = Some db'" using row(2) by (simp add: write_record_def)
  have "find_record db' (ci_id c) = Some (row\<lparr>ci_updated_at := now\<rparr>)"
    using find_record_in[OF inv c] row(1) unfolding find_record_def write_recordD(1)[OF w]
    by (simp add: find_update_where_key)
  with w that show thesis by blast
qed

lemma unknown_update_writes:
  assumes inv: "chat_inv db" and rec: "find_record db (cl_record_id d) = Some rec" "matches_claim d rec" "ci_status rec = PROCESSING"
  shows "\<exists>db'. unknown_update st d now db = Some (Inr db') \<and>
    find_record db' (cl_record_id d) = Some ((close_record OUTCOME_UNKNOWN st now (clear_response rec))\<lparr>ci_updated_at := now\<rparr>)"
proof -
  note rin = find_recordD[OF rec(1)]
  have ck: "chat_idempotency_checks (close_record OUTCOME_UNKNOWN st now (clear_response rec))"
    using closed_row_checks[OF chat_invD(3)[OF inv]] rin rec(3) by simp
  obtain db' where "write_record now (close_record OUTCOME_UNKNOWN st now (clear_response rec)) db = Some db'"
    "find_record db' (ci_id rec) = Some ((close_record OUTCOME_UNKNOWN st now (clear_response rec))\<lparr>ci_updated_at := now\<rparr>)"
    by (rule written_row[OF inv _ _ ck, of rec]) (use rin in simp_all)
  with rec rin show ?thesis by (simp add: unknown_update_def terminal_ack_def is_terminal_def)
qed

lemma decide_existing_writes:
  fixes ops :: "'r replay_ops"
  assumes inv: "chat_inv db" and c: "c \<in> set (y_records db)"
  shows "fst (decide_existing co ops st kr rh sn now c db) \<noteq> ClaimFailed"
proof -
  have ck: "chat_idempotency_checks c" using chat_invD(3)[OF inv c] .
  have w: "fst (commit_refusal now row e db :: 'r claim_result \<times> chat_db) \<noteq> ClaimFailed" if "chat_idempotency_checks row" for row e
    using that by (simp add: commit_refusal_def write_record_def)
  have closed: "fst (commit_refusal now (close_record s st now (clear_response c)) e db :: 'r claim_result \<times> chat_db) \<noteq> ClaimFailed"
    if "ci_status c = PROCESSING \<or> ci_status c = COMPLETED" "s = OUTCOME_UNKNOWN \<or> s = INVALIDATED" for s e
    by (rule w[OF closed_row_checks[OF ck that(1)]]) (use that(2) in simp)
  have gone: "fst (commit_refusal now (close_record OUTCOME_UNKNOWN st now c) e db :: 'r claim_result \<times> chat_db) \<noteq> ClaimFailed"
    if "ci_status c = PROCESSING" for e
    by (rule w[OF abandoned_row_checks[OF ck that]])
  show ?thesis
    using closed gone by (cases "ci_status c") (simp_all add: decide_existing_def split: option.split)
qed

lemma insert_free:
  assumes "length ph = 64" "length kh = 64" "length rh = 64" "1 \<le> sn_content_version sn"
    "find_claim db ph kh = None" "find_record db rid = None"
  shows "\<exists>db'. insert_record (new_claim rid ph kh rh sn now) db = Some db'"
  using assms
  by (auto simp: insert_record_def new_claim_def chat_idempotency_checks_def ci_no_payload_def find_claim_def find_record_def find_None_iff)

lemma store_succeeds:
  assumes inv: "chat_inv db" and rec: "find_record db (cl_record_id d) = Some rec" "matches_claim d rec" "ci_status rec = PROCESSING"
    and auth: "auth now (y_keys db) = Inr sn"
    and kb: "rp_knowledge_base_id ops response = sn_knowledge_base_id sn \<and> ci_knowledge_base_id rec = Some (sn_knowledge_base_id sn) \<and>
      ci_knowledge_base_content_version rec = Some (sn_content_version sn)"
    and lim: "length nonce = 12" "1 \<le> kr_active_version kr" "cs_response_max_bytes st \<le> 524288"
  shows "\<forall>body size version n.
      encode_response co ops kr (cs_response_max_bytes st) rec response nonce = Some (body, size, version, n) \<longrightarrow>
      (\<exists>db' row. store_completed_response co ops st kr d response auth now nonce db = (Inr (), db') \<and>
         find_record db' (cl_record_id d) = Some row \<and> ci_status row = COMPLETED \<and> carries body size version n row)"
proof (intro allI impI)
  fix body stored version n
  assume enc: "encode_response co ops kr (cs_response_max_bytes st) rec response nonce = Some (body, stored, version, n)"
  define row where "row = close_record COMPLETED st now (rec\<lparr>ci_response_body := Some body,
     ci_response_encoding := Some replay_encoding, ci_response_size_bytes := Some stored,
     ci_response_key_version := Some version, ci_response_nonce := Some n\<rparr>)"
  note rin = find_recordD[OF rec(1)]
  have ck: "chat_idempotency_checks row"
    unfolding row_def using stored_row_checks[OF chat_invD(3)[OF inv] rec(3) enc lim] rin by simp
  obtain db' where w: "write_record now row db = Some db'" "find_record db' (ci_id rec) = Some (row\<lparr>ci_updated_at := now\<rparr>)"
    by (rule written_row[OF inv _ _ ck, of rec]) (use rin in \<open>simp_all add: row_def\<close>)
  have "store_completed_response co ops st kr d response auth now nonce db = (Inr (), db')"
    using rec kb enc w(1) by (simp add: store_completed_response_def auth row_def)
  then show "\<exists>db' row. store_completed_response co ops st kr d response auth now nonce db = (Inr (), db') \<and>
      find_record db' (cl_record_id d) = Some row \<and> ci_status row = COMPLETED \<and> carries body stored version n row"
    using w(2) rin by (auto simp: row_def carries_def close_record_def)
qed

lemma store_invalidates:
  assumes inv: "chat_inv db" and rec: "find_record db (cl_record_id d) = Some rec" "matches_claim d rec" "ci_status rec = PROCESSING"
    and auth: "auth now (y_keys db) = Inr sn"
    and kb: "\<not> (rp_knowledge_base_id ops response = sn_knowledge_base_id sn \<and> ci_knowledge_base_id rec = Some (sn_knowledge_base_id sn) \<and>
      ci_knowledge_base_content_version rec = Some (sn_content_version sn))"
  shows "\<exists>db' row. store_completed_response co ops st kr d response auth now nonce db = (Inl (ChatApi resource_changed_error), db') \<and>
     find_record db' (cl_record_id d) = Some row \<and> ci_status row = INVALIDATED \<and> ci_no_payload row"
proof -
  define row where "row = close_record INVALIDATED st now (clear_response rec)"
  note rin = find_recordD[OF rec(1)]
  have ck: "chat_idempotency_checks row"
    unfolding row_def using closed_row_checks[OF chat_invD(3)[OF inv]] rin rec(3) by simp
  obtain db' where w: "write_record now row db = Some db'" "find_record db' (ci_id rec) = Some (row\<lparr>ci_updated_at := now\<rparr>)"
    by (rule written_row[OF inv _ _ ck, of rec]) (use rin in \<open>simp_all add: row_def\<close>)
  have "store_completed_response co ops st kr d response auth now nonce db = (Inl (ChatApi resource_changed_error), db')"
    using rec kb w(1) by (simp add: store_completed_response_def auth row_def)
  then show ?thesis using w(2) rin by (auto simp: row_def ci_no_payload_def close_record_def clear_response_def)
qed

section \<open>Terminalization ends\<close>

definition claim_closed :: "claim_descriptor \<Rightarrow> chat_db \<Rightarrow> bool" where
  "claim_closed d db \<longleftrightarrow> (\<exists>status. verify_terminal_state d db = Some (Some status))"

text \<open>The row of a claim is there and will not expire before \<open>b\<close>.\<close>

definition claim_kept :: "claim_descriptor \<Rightarrow> timestamp \<Rightarrow> chat_db \<Rightarrow> bool" where
  "claim_kept d b db \<longleftrightarrow> (\<exists>rec. find_record db (cl_record_id d) = Some rec \<and> matches_claim d rec \<and>
     (ci_status rec = PROCESSING \<or> (\<exists>t. ci_expires_at rec = Some t \<and> b \<le> t)))"

lemma matches_same: "same_claim c c' \<Longrightarrow> matches_claim d c' = matches_claim d c"
  by (simp add: matches_claim_def same_claim_def)

lemma claim_closed_iff:
  "claim_closed d db \<longleftrightarrow> (\<exists>rec. find_record db (cl_record_id d) = Some rec \<and> matches_claim d rec \<and> ci_status rec \<noteq> PROCESSING)"
proof -
  have "is_terminal s \<longleftrightarrow> s \<noteq> PROCESSING" for s by (cases s) (simp_all add: is_terminal_def)
  then show ?thesis
    by (auto simp: claim_closed_def verify_terminal_state_def terminal_ack_def bind_eq_Some_conv)
qed

lemma table_moves_claim:
  assumes m: "table_moves st now db db'" and inv: "chat_inv db" and k: "claim_kept d b db"
    and t: "now < b" "b \<le> now + seconds (cs_ttl_seconds st)"
  shows "claim_kept d b db' \<and> (claim_closed d db \<longrightarrow> claim_closed d db')"
proof -
  obtain c where c: "find_record db (cl_record_id d) = Some c" "matches_claim d c"
    "ci_status c = PROCESSING \<or> (\<exists>t. ci_expires_at c = Some t \<and> b \<le> t)"
    using k by (auto simp: claim_kept_def)
  note cin = find_recordD[OF c(1)]
  have "\<not> is_expired now c" using c(3) t(1) by (auto simp: is_expired_def is_terminal_def)
  then obtain c' where c': "c' \<in> set (y_records db')" "c' = c \<or> closes st now c c'"
    using table_moves_kept[OF m] cin t by (metis add_less_cancel_left order_le_less_trans order_less_le_trans add.right_neutral)
  have same: "same_claim c c'" using c'(2) by (auto simp: closes_def)
  have "find_record db' (cl_record_id d) = Some c'"
    using find_record_in[OF table_moves_inv[OF m inv] c'(1)] same cin by (simp add: same_claim_def)
  moreover have "ci_status c' = PROCESSING \<or> (\<exists>t. ci_expires_at c' = Some t \<and> b \<le> t)"
    "ci_status c \<noteq> PROCESSING \<longrightarrow> ci_status c' \<noteq> PROCESSING"
    using c'(2) c(3) t(2) by (auto simp: closes_def)
  ultimately show ?thesis
    using c matches_same[OF same] by (auto simp: claim_kept_def claim_closed_iff)
qed

text \<open>Any run of transactions within the retention period keeps the claim, and keeps it closed.\<close>

interpretation claim_run: step_system "chat_window ops st a b" "\<lambda>db. b \<le> a + seconds (cs_ttl_seconds st) \<longrightarrow>
    chat_inv db \<and> claim_kept d b db \<and> (closed \<longrightarrow> claim_closed d db)" for ops st a b d closed
proof unfold_locales
  fix s t assume "chat_window ops st a b s t"
    and inv: "b \<le> a + seconds (cs_ttl_seconds st) \<longrightarrow> chat_inv s \<and> claim_kept d b s \<and> (closed \<longrightarrow> claim_closed d s)"
  then obtain now where now: "a \<le> now" "now < b" and step: "chat_step ops st now s t" by (auto simp: chat_window_def)
  show "b \<le> a + seconds (cs_ttl_seconds st) \<longrightarrow> chat_inv t \<and> claim_kept d b t \<and> (closed \<longrightarrow> claim_closed d t)"
  proof
    assume b: "b \<le> a + seconds (cs_ttl_seconds st)"
    then have i: "chat_inv s" "claim_kept d b s" "closed \<longrightarrow> claim_closed d s" using inv by simp_all
    from table_moves_claim[OF chat_step_moves[OF step i(1)] i(1,2) now(2)] b now(1) i(3) chat_step_inv[OF step i(1)]
    show "chat_inv t \<and> claim_kept d b t \<and> (closed \<longrightarrow> claim_closed d t)" by auto
  qed
qed

definition runs_within :: "'r replay_ops \<Rightarrow> chat_settings \<Rightarrow> timestamp \<Rightarrow> timestamp \<Rightarrow> (chat_db \<Rightarrow> chat_db) \<Rightarrow> bool" where
  "runs_within ops st a b f \<longleftrightarrow> (\<forall>db. (chat_window ops st a b)\<^sup>*\<^sup>* db (f db))"

definition attempt_within :: "'r replay_ops \<Rightarrow> chat_settings \<Rightarrow> timestamp \<Rightarrow> timestamp \<Rightarrow> attempt \<Rightarrow> bool" where
  "attempt_within ops st a b x \<longleftrightarrow> a \<le> at_now x \<and> at_now x < b \<and> b \<le> a + seconds (cs_ttl_seconds st) \<and>
     runs_within ops st a b (at_others x) \<and> runs_within ops st a b (at_between x) \<and> runs_within ops st a b (at_after x)"

lemma runs_within_keep:
  assumes "runs_within ops st a b f" "b \<le> a + seconds (cs_ttl_seconds st)" "chat_inv db" "claim_kept d b db"
  shows "chat_inv (f db) \<and> claim_kept d b (f db) \<and> (claim_closed d db \<longrightarrow> claim_closed d (f db))"
  using claim_run.steps_inv[of ops st a b db "f db" d "claim_closed d db"] assms by (simp add: runs_within_def)

lemma attempt_keeps:
  assumes w: "attempt_within ops st a b x" and k: "chat_inv db" "claim_kept d b db" and f: "f \<in> {at_others x, at_between x, at_after x}"
  shows "chat_inv (f db)" "claim_kept d b (f db)" "claim_closed d db \<Longrightarrow> claim_closed d (f db)"
proof -
  have "runs_within ops st a b f" "b \<le> a + seconds (cs_ttl_seconds st)" using w f by (auto simp: attempt_within_def)
  from runs_within_keep[OF this k]
  show "chat_inv (f db)" "claim_kept d b (f db)" "claim_closed d db \<Longrightarrow> claim_closed d (f db)" by simp_all
qed

lemma unknown_update_ends:
  assumes inv: "chat_inv db" and k: "claim_kept d b db" and t: "now < b" "b \<le> now + seconds (cs_ttl_seconds st)"
  shows "(\<exists>status. unknown_update st d now db = Some (Inl status)) \<or>
         (\<exists>db'. unknown_update st d now db = Some (Inr db') \<and> chat_inv db' \<and> claim_kept d b db' \<and> claim_closed d db')"
proof -
  obtain rec where rec: "find_record db (cl_record_id d) = Some rec" "matches_claim d rec" using k by (auto simp: claim_kept_def)
  note rin = find_recordD[OF rec(1)]
  show ?thesis
  proof (cases "ci_status rec = PROCESSING")
    case False
    then have "is_terminal (ci_status rec)" by (cases "ci_status rec") (simp_all add: is_terminal_def)
    with rec show ?thesis by (simp add: unknown_update_def terminal_ack_def)
  next
    case True
    obtain db' where up: "unknown_update st d now db = Some (Inr db')"
      and rows: "find_record db' (cl_record_id d) = Some ((close_record OUTCOME_UNKNOWN st now (clear_response rec))\<lparr>ci_updated_at := now\<rparr>)"
      using unknown_update_writes[OF inv rec True] by blast
    note m = unknown_update_moves[OF inv up]
    have "claim_closed d db'"
      using rows matches_same[of rec "close_record OUTCOME_UNKNOWN st now (clear_response rec)\<lparr>ci_updated_at := now\<rparr>" d] rec(2)
      by (simp add: claim_closed_iff)
    with up table_moves_claim[OF m inv k t] table_moves_inv[OF m inv] show ?thesis by blast
  qed
qed

lemma transition_kept:
  assumes inv: "chat_inv db" and k: "claim_kept d b db" and w: "attempt_within ops st a b x"
    and run: "transition_outcome_unknown_once st d x db = (ack, db')"
  shows "chat_inv db' \<and> claim_kept d b db'"
proof -
  have t: "at_now x < b" "b \<le> at_now x + seconds (cs_ttl_seconds st)" using w by (simp_all add: attempt_within_def)
  have k0: "chat_inv (at_others x db)" "claim_kept d b (at_others x db)"
    by (rule attempt_keeps[OF w inv k], simp)+
  have "chat_inv (at_between x y) \<and> claim_kept d b (at_between x y)" if "chat_inv y" "claim_kept d b y" for y
    using attempt_keeps(1,2)[OF w that, of "at_between x"] by simp
  note between = this
  consider status where "unknown_update st d (at_now x) (at_others x db) = Some (Inl status)"
    | db1 where "unknown_update st d (at_now x) (at_others x db) = Some (Inr db1)" "chat_inv db1" "claim_kept d b db1"
    using unknown_update_ends[OF k0 t] by blast
  then show ?thesis
  proof cases
    case 1
    with run k0 show ?thesis by (simp add: transition_outcome_unknown_once_def)
  next
    case 2
    with run k0 between[OF 2(2,3)] show ?thesis
      by (cases "at_update x") (auto simp: transition_outcome_unknown_once_def Let_def split: if_split_asm)
  qed
qed

lemma transition_stable:
  assumes inv: "chat_inv db" and k: "claim_kept d b db" and w: "attempt_within ops st a b x"
    and ok: "at_update x = Stable" "\<not> at_verify_fails x"
  shows "\<exists>status db'. transition_outcome_unknown_once st d x db = (Some status, db')"
proof -
  have t: "at_now x < b" "b \<le> at_now x + seconds (cs_ttl_seconds st)" using w by (simp_all add: attempt_within_def)
  have k0: "chat_inv (at_others x db)" "claim_kept d b (at_others x db)"
    by (rule attempt_keeps[OF w inv k], simp)+
  have "claim_closed d (at_between x y)" if "chat_inv y" "claim_kept d b y" "claim_closed d y" for y
    using attempt_keeps(3)[OF w that(1,2) _ that(3)] by simp
  note between = this
  consider status where "unknown_update st d (at_now x) (at_others x db) = Some (Inl status)"
    | db1 where "unknown_update st d (at_now x) (at_others x db) = Some (Inr db1)" "chat_inv db1" "claim_kept d b db1" "claim_closed d db1"
    using unknown_update_ends[OF k0 t] by blast
  then show ?thesis
  proof cases
    case 1
    with ok show ?thesis by (simp add: transition_outcome_unknown_once_def)
  next
    case 2
    with ok between[OF 2(2-4)] show ?thesis
      by (auto simp: transition_outcome_unknown_once_def Let_def claim_closed_def)
  qed
qed

section \<open>Cleanup drains the table\<close>

definition is_stale :: "chat_settings \<Rightarrow> timestamp \<Rightarrow> chat_idempotency_record \<Rightarrow> bool" where
  "is_stale st current c \<longleftrightarrow> ci_status c = PROCESSING \<and> ci_updated_at c \<le> current - seconds (cs_processing_timeout_seconds st)"

definition how_many :: "(chat_idempotency_record \<Rightarrow> bool) \<Rightarrow> chat_db \<Rightarrow> nat" where
  "how_many p db = length (filter p (y_records db))"

lemma filter_not_taken: "keyed k ys \<Longrightarrow> filter (\<lambda>r. k r \<notin> k ` set (take n ys)) ys = drop n ys"
proof -
  assume "keyed k ys"
  then have d: "k ` set (take n ys) \<inter> k ` set (drop n ys) = {}"
    using distinct_append[of "map k (take n ys)" "map k (drop n ys)"]
    by (metis append_take_drop_id keyed_def list.set_map map_append)
  have "filter (\<lambda>r. k r \<notin> k ` set (take n ys)) (drop n ys) = drop n ys" using d by (intro filter_True) blast
  moreover have "filter (\<lambda>r. k r \<notin> k ` set (take n ys)) (take n ys) = []" by (simp add: filter_empty_conv)
  ultimately have "filter (\<lambda>r. k r \<notin> k ` set (take n ys)) (take n ys @ drop n ys) = drop n ys"
    by (simp only: filter_append append_Nil)
  then show ?thesis by simp
qed

lemma length_filter_taken:
  assumes "keyed k rows" "mset ys = mset (filter P rows)"
  shows "length (filter (\<lambda>r. P r \<and> k r \<notin> k ` set (take n ys)) rows) = length ys - n"
proof -
  have "mset (map k ys) = mset (map k (filter P rows))" using assms(2) by (simp add: mset_map)
  then have "keyed k ys" using keyed_filter[OF assms(1), of P] unfolding keyed_def by (metis mset_eq_imp_distinct_iff)
  then have drop: "filter (\<lambda>r. k r \<notin> k ` set (take n ys)) ys = drop n ys" by (rule filter_not_taken)
  have "mset (filter (\<lambda>r. P r \<and> k r \<notin> k ` set (take n ys)) rows) = mset (filter (\<lambda>r. k r \<notin> k ` set (take n ys)) ys)"
    by (simp add: assms(2) filter_filter_mset conj_commute)
  then show ?thesis unfolding drop by (metis length_drop mset_eq_length)
qed

lemma stale_claims_form:
  "\<exists>ys. stale_claims st now (\<lambda>_. False) b db = take b ys \<and> mset ys = mset (filter (is_stale st now) (y_records db))"
  by (rule exI[of _ "sort_key ci_updated_at (sort_key ci_id (filter (is_stale st now) (y_records db)))"])
    (simp add: stale_claims_def is_stale_def[abs_def])

lemma expired_claims_form:
  "\<exists>ys. expired_claims now (\<lambda>_. False) b db = take b ys \<and> mset ys = mset (filter (is_expired now) (y_records db))"
  by (rule exI[of _ "sort_key (\<lambda>c. the (ci_expires_at c)) (sort_key ci_id (filter (is_expired now) (y_records db)))"])
    (simp add: expired_claims_def)

lemma cleanup_batch_counts:
  assumes inv: "chat_inv db" and ttl: "0 < seconds (cs_ttl_seconds st)"
    and run: "cleanup_batch st now (\<lambda>_. False) b db = (p, e, db')"
  shows "p = min b (how_many (is_stale st now) db)" "e = min b (how_many (is_expired now) db)"
    "how_many (is_stale st now) db' = how_many (is_stale st now) db - b"
    "how_many (is_expired now) db' = how_many (is_expired now) db - b"
proof -
  obtain ys where ys: "stale_claims st now (\<lambda>_. False) b db = take b ys" "mset ys = mset (filter (is_stale st now) (y_records db))"
    using stale_claims_form by blast
  define ids where "ids = ci_id ` set (take b ys)"
  define f where "f = (\<lambda>c. if ci_id c \<in> ids then (close_record OUTCOME_UNKNOWN st now c)\<lparr>ci_updated_at := now\<rparr> else c)"
  define db1 where "db1 = db\<lparr>y_records := map f (y_records db)\<rparr>"
  obtain zs where zs: "expired_claims now (\<lambda>_. False) b db1 = take b zs" "mset zs = mset (filter (is_expired now) (y_records db1))"
    using expired_claims_form by blast
  have run': "p = length (take b ys)" "e = length (take b zs)"
    "y_records db' = filter (\<lambda>c. ci_id c \<notin> ci_id ` set (take b zs)) (map f (y_records db))"
    using run by (auto simp: cleanup_batch_def Let_def db1_def ids_def f_def update_where_def ys(1) simp flip: zs(1))
  have ysl: "length ys = how_many (is_stale st now) db" using ys(2) by (metis how_many_def mset_eq_length)
  have stale: "is_stale st now c" if c: "c \<in> set (y_records db)" "ci_id c \<in> ids" for c
  proof -
    obtain x where "x \<in> set (take b ys)" "ci_id x = ci_id c" using c(2) by (auto simp: ids_def)
    then have "x \<in> set (filter (is_stale st now) (y_records db))" using ys(2) in_set_takeD by (metis set_mset_mset)
    with keyed_unique[OF chat_invD(1)[OF inv] _ c(1)] \<open>ci_id x = ci_id c\<close> show ?thesis by auto
  qed
  have fs: "is_stale st now (f c) \<longleftrightarrow> is_stale st now c \<and> ci_id c \<notin> ids" for c by (simp add: f_def is_stale_def)
  have fe: "is_expired now (f c) \<longleftrightarrow> is_expired now c" if "c \<in> set (y_records db)" for c
    using stale[OF that] ttl by (auto simp: f_def is_expired_def is_stale_def is_terminal_def)
  have fid: "ci_id (f c) = ci_id c" for c by (simp add: f_def)
  have keyed1: "keyed ci_id (y_records db1)" using chat_invD(1)[OF inv] by (simp add: db1_def keyed_map fid)
  have e1: "how_many (is_expired now) db1 = how_many (is_expired now) db"
    using fe by (simp add: how_many_def db1_def filter_map o_def cong: filter_cong)
  have zsl: "length zs = how_many (is_expired now) db" using zs(2) e1 by (metis how_many_def mset_eq_length)
  have s1: "how_many (is_stale st now) db1 = length ys - b"
    using length_filter_taken[OF chat_invD(1)[OF inv] ys(2), of b]
    by (simp add: how_many_def db1_def filter_map o_def fs ids_def)
  have "is_expired now c" if c: "c \<in> set (y_records db1)" "ci_id c \<in> ci_id ` set (take b zs)" for c
  proof -
    obtain x where "x \<in> set (take b zs)" "ci_id x = ci_id c" using c(2) by auto
    then have "x \<in> set (filter (is_expired now) (y_records db1))" using zs(2) in_set_takeD by (metis set_mset_mset)
    with keyed_unique[OF keyed1 _ c(1)] \<open>ci_id x = ci_id c\<close> show ?thesis by auto
  qed
  moreover have "\<not> (is_expired now c \<and> is_stale st now c)" for c
    by (auto simp: is_stale_def is_expired_def is_terminal_def)
  ultimately have gone: "ci_id c \<notin> ci_id ` set (take b zs)" if "c \<in> set (y_records db1)" "is_stale st now c" for c
    using that by blast
  have "how_many (is_stale st now) db' = how_many (is_stale st now) db1"
    unfolding how_many_def run'(3) using gone
    by (simp add: db1_def) (intro arg_cong[of _ _ length] filter_cong, auto)
  with s1 ysl show "how_many (is_stale st now) db' = how_many (is_stale st now) db - b" by simp
  show "how_many (is_expired now) db' = how_many (is_expired now) db - b"
    using length_filter_taken[OF keyed1 zs(2), of b] zsl
    by (simp add: how_many_def run'(3) db1_def conj_commute)
  show "p = min b (how_many (is_stale st now) db)" "e = min b (how_many (is_expired now) db)"
    using run'(1,2) ysl zsl by (simp_all add: min.commute)
qed

lemma cleanup_loop_drains:
  assumes "chat_inv db" "0 < seconds (cs_ttl_seconds st)" "0 < b"
    and "how_many (is_stale st now) db \<le> b * m" "how_many (is_expired now) db \<le> b * m"
    and "cleanup_loop st now (\<lambda>_. False) b m acc db = (n, db')"
  shows "n = acc + how_many (is_stale st now) db + how_many (is_expired now) db \<and>
    how_many (is_stale st now) db' = 0 \<and> how_many (is_expired now) db' = 0"
  using assms
proof (induction m arbitrary: acc db)
  case 0
  then show ?case by simp
next
  case (Suc m)
  obtain p e db1 where batch: "cleanup_batch st now (\<lambda>_. False) b db = (p, e, db1)"
    by (cases "cleanup_batch st now (\<lambda>_. False) b db") auto
  note c = cleanup_batch_counts[OF Suc.prems(1,2) batch]
  show ?case
  proof (cases "p < b \<and> e < b")
    case True
    with Suc.prems(6) batch c show ?thesis by auto
  next
    case False
    with Suc.prems(6) batch have "cleanup_loop st now (\<lambda>_. False) b m (acc + p + e) db1 = (n, db')" by simp
    with Suc.IH[OF table_moves_inv[OF cleanup_batch_moves[OF Suc.prems(1) batch] Suc.prems(1)] Suc.prems(2,3) _ _ this]
    show ?thesis using Suc.prems(4,5) c by (simp add: min_def split: if_split_asm)
  qed
qed

section \<open>Properties\<close>

text \<open>C3. Exactly-once execution. Once a chat request has claimed its idempotency key, any request of the same principal with
  the same key whose turns fall within the retention period, whatever its content and whatever claims, completions,
  terminalizations and cleanups other sessions interleave, never runs its operation: its outcome is the same for every
  operation it could be given.\<close>

theorem chat_operation_runs_at_most_once:
  fixes st :: chat_settings
  defines "ttl \<equiv> seconds (cs_ttl_seconds st)"
  assumes reach: "chat_reachable ops st db"
    and first: "claim_attempt co ops st kr (fingerprint co who) (co_sha256 co (key_text key)) rh kid auth now rid db = (Claimed rec, db1)"
    and later: "(chat_window ops st now (now + ttl))\<^sup>*\<^sup>* db1 db2"
    and turns: "\<And>i. i < 4 \<Longrightarrow> turn_within ops st now (now + ttl) (sc_turn s i)"
  shows "execute_chat_query_idempotently co ops st s who key request auth2 operation db2 =
         execute_chat_query_idempotently co ops st s who key request auth2 operation' db2"
proof -
  let ?ph = "fingerprint co who" and ?kh = "co_sha256 co (key_text key)"
  note inv = chat_reachable_inv[OF reach]
  obtain sn where "insert_record (new_claim rid ?ph ?kh rh sn now) db = Some db1"
    using first by (auto simp: claim_attempt_def Let_def decide_existing_def commit_refusal_def
      split: sum.split_asm if_split_asm option.split_asm)
  then have "guarded ?ph ?kh (now + ttl) db1"
    using insert_recordD(1) by (fastforce simp: guarded_def new_claim_def has_key_def)
  then have g: "chat_inv db2 \<and> guarded ?ph ?kh (now + ttl) db2"
    using guard_run.steps_inv[OF later, of ?ph ?kh] table_moves_inv[OF claim_attempt_moves[OF inv first] inv]
    by (simp add: ttl_def)
  show ?thesis
  proof (rule execute_without_claim)
    show "fst (claim_or_replay co ops st kr2 ?ph ?kh (request_hash co request) (cq_knowledge_base_id request) auth2 (sc_turn s) db2)
      \<noteq> Inr (rec', None)" for kr2 rec'
      unfolding claim_or_replay_def
      by (rule claim_loop_guarded[where a = now and b = "now + ttl"]) (use g turns in \<open>auto simp: ttl_def\<close>)
  qed
qed

text \<open>C37. Replay fidelity. When an answer was stored for a claim, every repetition of the request by the same principal with the same
  key gets that stored text back through the response schema, without running the operation, as long as the row is unchanged,
  the retention period has not ended, the caller is still authorized for the same content version and the encryption key is
  still in the keyring: what the schema reads from the dumped answer is returned and nothing is written; and when the schema
  refuses the text, the request is refused as of unknown outcome and the row is closed without its payload. The schema does not
  always read an answer back as it was: the title of a fallback table is stored unnormalized and stripped or refused on replay.\<close>

theorem chat_replay_returns_stored_answer:
  assumes reach: "chat_reachable ops st db" and laws: "replay_laws ops"
    and d: "cl_principal_hash d = fingerprint co who" "cl_key_hash d = co_sha256 co (key_text key)"
      "cl_request_hash d = request_hash co request"
    and stored: "store_completed_response co ops st kr d response auth now nonce db = (Inr (), db1)"
    and params: "length nonce = 12" "1 \<le> kr_active_version kr" "load_replay_keyring st = Some kr2"
      "map_of (kr_keys kr2) (kr_active_version kr) = map_of (kr_keys kr) (kr_active_version kr)"
    and seen: "db3 = tn_others (sc_turn s 0) db2" "chat_reachable ops st db3"
      "find_record db3 (cl_record_id d) = find_record db1 (cl_record_id d)"
    and time: "tn_now (sc_turn s 0) < now + seconds (cs_ttl_seconds st)"
    and authorized: "auth2 (tn_now (sc_turn s 0)) (y_keys db3) = auth now (y_keys db)"
      "auth now (y_keys db) = Inr snapshot" "sn_knowledge_base_id snapshot = cq_knowledge_base_id request"
  shows "case rp_validate ops (rp_dump ops response) of
      Some answer \<Rightarrow> execute_chat_query_idempotently co ops st s who key request auth2 operation db2 = (Inr answer, db3)
    | None \<Rightarrow> (\<exists>db4 row. execute_chat_query_idempotently co ops st s who key request auth2 operation db2 =
          (Inl (ChatApi outcome_unknown_error), db4) \<and>
        find_record db4 (cl_record_id d) = Some row \<and> ci_status row = OUTCOME_UNKNOWN \<and> ci_response_body row = None)"
proof -
  obtain rec row body sz version nonce' where rec: "matches_claim d rec" "same_claim rec row"
    and enc: "carries body sz version nonce' row" "encode_response co ops kr (cs_response_max_bytes st) rec response nonce = Some (body, sz, version, nonce')"
    and row: "find_record db1 (cl_record_id d) = Some row" "ci_status row = COMPLETED"
      "ci_expires_at row = Some (now + seconds (cs_ttl_seconds st))"
      "ci_knowledge_base_id row = Some (sn_knowledge_base_id snapshot)"
      "ci_knowledge_base_content_version row = Some (sn_content_version snapshot)"
    using store_okD[OF chat_reachable_inv[OF reach] stored] authorized(2) by (metis sum.inject(2))
  let ?ph = "fingerprint co who" and ?kh = "co_sha256 co (key_text key)" and ?t = "sc_turn s 0"
  have r: "row \<in> set (y_records db3)" "has_key ?ph ?kh row" "ci_request_hash row = request_hash co request"
    using find_recordD[of db3 "cl_record_id d" row] seen(3) row(1) rec d
    by (simp_all add: matches_claim_def same_claim_def has_key_def)
  have "find_claim db3 ?ph ?kh = Some row"
    using keyed_find[OF chat_invD(2)[OF chat_reachable_inv[OF seen(2)]] r(1)] r(2)
    unfolding find_claim_def has_key_def by simp
  moreover have "insert_record (new_claim (tn_id ?t) ?ph ?kh (request_hash co request) snapshot (tn_now ?t)) db3 = None"
    using r(1,2) by (auto simp: insert_record_def new_claim_def has_key_def)
  moreover have dec: "decode_response co ops kr2 (cs_response_max_bytes st) row = rp_validate ops (rp_dump ops response)"
    using decode_encoded[OF enc(2) laws _ params(2) rec(2) enc(1)] params(1,4) encode_responseD(4)[OF enc(2)]
    by (simp add: nonce_bytes_def)
  moreover have ck: "chat_idempotency_checks (close_record OUTCOME_UNKNOWN st (tn_now ?t) (clear_response row))"
    using closed_row_checks[OF chat_invD(3)[OF chat_reachable_inv[OF seen(2)] r(1)], of OUTCOME_UNKNOWN] row(2) by blast
  moreover obtain db4 where w: "write_record (tn_now ?t) (close_record OUTCOME_UNKNOWN st (tn_now ?t) (clear_response row)) db3 = Some db4"
    "find_record db4 (ci_id row) = Some ((close_record OUTCOME_UNKNOWN st (tn_now ?t) (clear_response row))\<lparr>ci_updated_at := tn_now ?t\<rparr>)"
    using written_row[OF chat_reachable_inv[OF seen(2)] r(1) _ ck] by auto
  ultimately have "claim_attempt co ops st kr2 ?ph ?kh (request_hash co request) (cq_knowledge_base_id request) auth2 (tn_now ?t) (tn_id ?t) db3 =
      (case rp_validate ops (rp_dump ops response) of Some answer \<Rightarrow> (Replayed row answer, db3)
       | None \<Rightarrow> (Refused outcome_unknown_error, db4))"
    using authorized row r(3) time
    by (cases "rp_validate ops (rp_dump ops response)") (simp_all add: claim_attempt_def decide_existing_def commit_refusal_def)
  then have "claim_or_replay co ops st kr2 ?ph ?kh (request_hash co request) (cq_knowledge_base_id request) auth2 (sc_turn s) db2 =
      (case rp_validate ops (rp_dump ops response) of Some answer \<Rightarrow> (Inr (row, Some answer), db3)
       | None \<Rightarrow> (Inl (ChatApi outcome_unknown_error), db4))"
    by (cases "rp_validate ops (rp_dump ops response)") (simp_all add: claim_or_replay_def upt_conv_Cons seen(1))
  moreover have "ci_id row = cl_record_id d" using find_recordD[OF row(1)] by simp
  ultimately show ?thesis
    using w(2) by (cases "rp_validate ops (rp_dump ops response)")
      (simp_all add: execute_chat_query_idempotently_def params(3), simp add: close_record_def clear_response_def)
qed

text \<open>C38. A replay is an authorization decision of its own. When a stored answer is replayed, the row is a completed answer to
  the same request on the knowledge base's current content version, and at that moment the caller could have asked afresh:
  an interactive user is active, holds the unrevoked token version, may chat and may read the knowledge base; an API key
  is unrevoked, unexpired, of the same credential family, scoped to chat and to the knowledge base, and its owner may
  chat there.\<close>

theorem chat_replay_requires_current_access:
  assumes run: "claim_or_replay co ops st kr ph kh rh kid auth turn db = (Inr (rec, Some response), db')"
  shows "rec \<in> set (y_records db') \<and> has_key ph kh rec \<and> ci_request_hash rec = rh \<and> ci_status rec = COMPLETED \<and>
    (auth = authorize_interactive_chat_snapshot uid ver kid \<longrightarrow>
       (\<exists>i < 4. \<exists>user. find_user (x_auth (y_keys db')) uid = Some user \<and> u_token_version user = ver \<and>
          may_chat (y_keys db') (tn_now (turn i)) user kid \<and>
          ci_knowledge_base_content_version rec = current_version (y_keys db') kid)) \<and>
    (auth = authorize_api_key_chat_snapshot co key_id family uid kid \<longrightarrow>
       (\<exists>i < 4. \<exists>user key. find_user (x_auth (y_keys db')) uid = Some user \<and>
          may_chat (y_keys db') (tn_now (turn i)) user kid \<and>
          find_key (y_keys db') key_id = Some key \<and> ak_user_id key = u_id user \<and> ak_credential_family_id key = family \<and>
          ak_revoked_at key = None \<and> (\<forall>t. ak_expires_at key = Some t \<longrightarrow> tn_now (turn i) < t) \<and>
          ''chat:query'' \<in> set (ak_permission_codes key) \<and> co_str_uuid co kid \<in> set (ak_knowledge_base_ids key) \<and>
          ci_knowledge_base_content_version rec = current_version (y_keys db') kid))"
proof -
  obtain i where i: "i < 4" and att: "claim_attempt co ops st kr ph kh rh kid auth (tn_now (turn i)) (tn_id (turn i)) db' =
      (Replayed rec response, db')"
    using claim_loop_replayD[OF run[unfolded claim_or_replay_def]] by auto
  note r = claim_attempt_replayD[OF att]
  obtain sn where sn: "auth (tn_now (turn i)) (y_keys db') = Inr sn" "ci_knowledge_base_content_version rec = Some (sn_content_version sn)"
    using r(6) by blast
  show ?thesis
  proof (intro conjI impI)
    assume auth: "auth = authorize_interactive_chat_snapshot uid ver kid"
    note s = interactive_snapshotD[OF sn(1)[unfolded auth]]
    show "\<exists>i < 4. \<exists>user. find_user (x_auth (y_keys db')) uid = Some user \<and> u_token_version user = ver \<and>
        may_chat (y_keys db') (tn_now (turn i)) user kid \<and> ci_knowledge_base_content_version rec = current_version (y_keys db') kid"
      using i s(1,3) sn(2) by auto
  next
    assume auth: "auth = authorize_api_key_chat_snapshot co key_id family uid kid"
    note s = api_key_snapshotD[OF sn(1)[unfolded auth]]
    from s(1,2) obtain user where u: "find_user (x_auth (y_keys db')) uid = Some user" "may_chat (y_keys db') (tn_now (turn i)) user kid"
      "chat_key_refusal co (tn_now (turn i)) user family kid (find_key (y_keys db') key_id) = None" by auto
    from chat_key_refusal_None[OF u(3)] show "\<exists>i < 4. \<exists>user key. find_user (x_auth (y_keys db')) uid = Some user \<and>
        may_chat (y_keys db') (tn_now (turn i)) user kid \<and>
        find_key (y_keys db') key_id = Some key \<and> ak_user_id key = u_id user \<and> ak_credential_family_id key = family \<and>
        ak_revoked_at key = None \<and> (\<forall>t. ak_expires_at key = Some t \<longrightarrow> tn_now (turn i) < t) \<and>
        ''chat:query'' \<in> set (ak_permission_codes key) \<and> co_str_uuid co kid \<in> set (ak_knowledge_base_ids key) \<and>
        ci_knowledge_base_content_version rec = current_version (y_keys db') kid"
      using i u(1,2) s(4) sn(2) by (intro exI[of _ i]) auto
  qed (use r in auto)
qed

text \<open>No answer without a durable record. Whatever the connections and the other sessions do, a response reaches the caller
  only when the ledger holds a completed row of this principal, key and request, so a lost reply can always be asked for
  again.\<close>

theorem chat_answer_is_durable:
  assumes inv: "chat_reachable ops st (sc_store_others s (snd (operation db1)))"
    and claim: "load_replay_keyring st = Some kr"
      "claim_or_replay co ops st kr (fingerprint co who) (co_sha256 co (key_text key)) (request_hash co request)
         (cq_knowledge_base_id request) auth (sc_turn s) db = (res, db1)"
    and run: "execute_chat_query_idempotently co ops st s who key request auth operation db = (Inr response, db')"
  shows "\<exists>rec \<in> set (y_records db'). has_key (fingerprint co who) (co_sha256 co (key_text key)) rec \<and>
    ci_request_hash rec = request_hash co request \<and> ci_status rec = COMPLETED"
proof -
  let ?ph = "fingerprint co who" and ?kh = "co_sha256 co (key_text key)" and ?rh = "request_hash co request"
  let ?db3 = "sc_store_others s (snd (operation db1))"
  show ?thesis
  proof (cases "\<exists>rec x. res = Inr (rec, Some x)")
    case True
    then obtain rec where "res = Inr (rec, Some response)" "db' = db1"
      using run claim by (auto simp: execute_chat_query_idempotently_def Let_def)
    then obtain t :: turn where "claim_attempt co ops st kr ?ph ?kh ?rh (cq_knowledge_base_id request) auth (tn_now t) (tn_id t) db' =
        (Replayed rec response, db')"
      using claim_loop_replayD[OF claim(2)[unfolded claim_or_replay_def, unfolded \<open>res = _\<close>]] by auto
    from claim_attempt_replayD(2-5)[OF this] show ?thesis by blast
  next
    case False
    then obtain rec where res: "res = Inr (rec, None)"
      using run claim by (cases res) (auto simp: execute_chat_query_idempotently_def Let_def)
    define d where "d = descriptor_of rec ?ph ?kh ?rh"
    obtain op db2 where op: "operation db1 = (op, db2)" by (cases "operation db1")
    have row: "\<exists>rec. find_record db' (cl_record_id d) = Some rec \<and> matches_claim d rec \<and> ci_status rec = COMPLETED"
    proof (cases op)
      case (OpResponse r)
      let ?store = "store_over (sc_store s) (store_completed_response co ops st kr d r auth
        (sc_store_now s) (sc_store_nonce s) ?db3) ?db3"
      obtain out db4 where st: "?store = (out, db4)" by (cases ?store)
      show ?thesis
      proof (cases out)
        case (Inr u)
        then have "store_completed_response co ops st kr d r auth (sc_store_now s) (sc_store_nonce s) ?db3 = (Inr (), db')"
          using run claim res op OpResponse st
          by (auto simp: execute_chat_query_idempotently_def d_def Let_def store_over_def split: connection.split_asm)
        from store_okD[OF chat_reachable_inv[OF inv] this] show ?thesis
          by (auto simp: matches_claim_def same_claim_def)
      next
        case (Inl e)
        then have "after_failed_store st d s r e db4 = (Inr response, db')"
          using run claim res op OpResponse st
          by (simp add: execute_chat_query_idempotently_def d_def Let_def)
        then have "mark_outcome_unknown st d (sc_unstored s) (sc_unstored_wait s) db4 = (Inr COMPLETED, db')"
          by (auto simp: after_failed_store_def split: if_split_asm prod.split_asm sum.split_asm chat_idempotency_status.split_asm)
        from mark_outcome_unknownD[OF this] show ?thesis by blast
      qed
    qed (use run claim res op in \<open>auto simp: execute_chat_query_idempotently_def Let_def split: prod.split_asm\<close>)
    then show ?thesis
      using find_recordD by (fastforce simp: matches_claim_def d_def descriptor_of_def has_key_def)
  qed
qed

text \<open>C39. Terminalization gets through. Within the retention period of its row, a claim that cannot be completed is closed even
  when the first attempt fails in any way, with its transaction lost or committed without an acknowledgement, and whatever
  other claims (of the same key too), completions, terminalizations and cleanups run before, between and after: if the second
  attempt has a working connection, the reconciliation returns a terminal status, and that is the status of the claim's row.
  The window \<open>a\<close> to \<open>b\<close> in which all of this happens is no longer than the retention period.\<close>

theorem chat_terminalization_succeeds:
  assumes reach: "chat_reachable ops st db" and row: "claim_kept d b db"
    and others: "\<And>i. i < 2 \<Longrightarrow> attempt_within ops st a b (attempt i)"
    and second: "at_update (attempt 1) = Stable" "\<not> at_verify_fails (attempt 1)"
  shows "\<exists>status db' rec. reconcile_outcome_unknown st d attempt db = (Some status, db') \<and>
    find_record db' (cl_record_id d) = Some rec \<and> matches_claim d rec \<and> ci_status rec = status \<and>
    status \<in> {COMPLETED, OUTCOME_UNKNOWN, INVALIDATED}"
proof -
  obtain ack db1 where first: "transition_outcome_unknown_once st d (attempt 0) db = (ack, db1)"
    by (cases "transition_outcome_unknown_once st d (attempt 0) db")
  have w: "attempt_within ops st a b (attempt 0)" "attempt_within ops st a b (attempt 1)" using others by simp_all
  have k1: "chat_inv db1" "claim_kept d b db1"
    using transition_kept[OF chat_reachable_inv[OF reach] row w(1) first] by simp_all
  have k2: "chat_inv (at_after (attempt 0) db1)" "claim_kept d b (at_after (attempt 0) db1)"
    by (rule attempt_keeps[OF w(1) k1], simp)+
  obtain status2 db2 where "transition_outcome_unknown_once st d (attempt 1) (at_after (attempt 0) db1) = (Some status2, db2)"
    using transition_stable[OF k2 w(2) second] by blast
  then have "\<exists>status db'. reconcile_loop st d [attempt 0, attempt 1] db = (Some status, db')"
    using first by (simp add: Let_def split: option.split)
  then have "\<exists>status db'. reconcile_outcome_unknown st d attempt db = (Some status, db')"
    by (simp add: reconcile_outcome_unknown_def upt_conv_Cons)
  then obtain status db' where r: "reconcile_outcome_unknown st d attempt db = (Some status, db')" by blast
  from reconcile_loop_ackD[OF r[unfolded reconcile_outcome_unknown_def]] r show ?thesis by (auto simp: is_terminal_def)
qed

text \<open>C40. The ledger never fails on its own table. With hashes of the digest's length, a content version from one, a twelve-byte
  nonce and a response limit within the column's, the code never writes a row that the table's constraints refuse: an authorized
  claim under a free key and identifier is granted and no claim attempt ends in a database error; an open claim whose answer
  encodes and whose content version is unchanged is stored as completed, with its encoding, size, key version and nonce; one whose
  content changed is closed without a payload; terminalizing an open claim writes it as of unknown outcome without a payload. So in
  every reachable state there is one row per principal and key, and a payload only in a completed row.\<close>

theorem chat_ledger_well_formed:
  assumes reach: "chat_reachable ops st db"
    and hashes: "length ph = 64" "length kh = 64" "length rh = 64"
    and auth: "auth now (y_keys db) = Inr snapshot" "1 \<le> sn_content_version snapshot"
    and limits: "length nonce = 12" "1 \<le> kr_active_version kr" "cs_response_max_bytes st \<le> 524288"
  shows "fst (claim_attempt co ops st kr ph kh rh kid auth now rid db) \<noteq> ClaimFailed \<and>
    (sn_knowledge_base_id snapshot = kid \<longrightarrow> find_claim db ph kh = None \<longrightarrow> find_record db rid = None \<longrightarrow>
       fst (claim_attempt co ops st kr ph kh rh kid auth now rid db) = Claimed (new_claim rid ph kh rh snapshot now)) \<and>
    (\<forall>rec. find_record db (cl_record_id d) = Some rec \<longrightarrow> matches_claim d rec \<longrightarrow> ci_status rec = PROCESSING \<longrightarrow>
       (\<exists>db' row. unknown_update st d now db = Some (Inr db') \<and> find_record db' (cl_record_id d) = Some row \<and>
          ci_status row = OUTCOME_UNKNOWN \<and> ci_no_payload row) \<and>
       (if rp_knowledge_base_id ops response = sn_knowledge_base_id snapshot \<and>
           ci_knowledge_base_id rec = Some (sn_knowledge_base_id snapshot) \<and>
           ci_knowledge_base_content_version rec = Some (sn_content_version snapshot)
        then (\<forall>body size version n.
          encode_response co ops kr (cs_response_max_bytes st) rec response nonce = Some (body, size, version, n) \<longrightarrow>
          (\<exists>db' row. store_completed_response co ops st kr d response auth now nonce db = (Inr (), db') \<and>
             find_record db' (cl_record_id d) = Some row \<and> ci_status row = COMPLETED \<and> carries body size version n row))
        else (\<exists>db' row. store_completed_response co ops st kr d response auth now nonce db =
               (Inl (ChatApi resource_changed_error), db') \<and>
             find_record db' (cl_record_id d) = Some row \<and> ci_status row = INVALIDATED \<and> ci_no_payload row))) \<and>
    list_all chat_idempotency_checks (y_records db) \<and> distinct (map ci_id (y_records db)) \<and>
    distinct (map claim_key (y_records db)) \<and>
    (\<forall>c \<in> set (y_records db). ci_status c \<noteq> COMPLETED \<longrightarrow> ci_no_payload c)"
proof (intro conjI allI impI)
  note inv = chat_reachable_inv[OF reach]
  have dec: "fst (decide_existing co ops st kr rh snapshot now c db) \<noteq> ClaimFailed" if "find_claim db ph kh = Some c" for c
    using decide_existing_writes[OF inv] find_claimD[OF that] by blast
  show "fst (claim_attempt co ops st kr ph kh rh kid auth now rid db) \<noteq> ClaimFailed"
    using dec by (auto simp: claim_attempt_def auth(1) Let_def split: option.split)
  show "fst (claim_attempt co ops st kr ph kh rh kid auth now rid db) = Claimed (new_claim rid ph kh rh snapshot now)"
    if "sn_knowledge_base_id snapshot = kid" "find_claim db ph kh = None" "find_record db rid = None"
    using insert_free[OF hashes auth(2) that(2,3), of now] that(1) auth(1) by (auto simp: claim_attempt_def)
  fix rec assume rec: "find_record db (cl_record_id d) = Some rec" "matches_claim d rec" "ci_status rec = PROCESSING"
  show "\<exists>db' row. unknown_update st d now db = Some (Inr db') \<and> find_record db' (cl_record_id d) = Some row \<and>
      ci_status row = OUTCOME_UNKNOWN \<and> ci_no_payload row"
    using unknown_update_writes[OF inv rec, of st now] by (auto simp: ci_no_payload_def close_record_def clear_response_def)
  show "if rp_knowledge_base_id ops response = sn_knowledge_base_id snapshot \<and>
      ci_knowledge_base_id rec = Some (sn_knowledge_base_id snapshot) \<and>
      ci_knowledge_base_content_version rec = Some (sn_content_version snapshot)
    then (\<forall>body size version n.
      encode_response co ops kr (cs_response_max_bytes st) rec response nonce = Some (body, size, version, n) \<longrightarrow>
      (\<exists>db' row. store_completed_response co ops st kr d response auth now nonce db = (Inr (), db') \<and>
         find_record db' (cl_record_id d) = Some row \<and> ci_status row = COMPLETED \<and> carries body size version n row))
    else (\<exists>db' row. store_completed_response co ops st kr d response auth now nonce db =
           (Inl (ChatApi resource_changed_error), db') \<and>
         find_record db' (cl_record_id d) = Some row \<and> ci_status row = INVALIDATED \<and> ci_no_payload row)"
    by (split if_split, intro conjI impI)
      (erule store_succeeds[OF inv rec, where auth = auth and now = now and sn = snapshot, OF auth(1) _ limits],
       erule store_invalidates[OF inv rec, where auth = auth and now = now and sn = snapshot, OF auth(1)])
next
  note inv = chat_reachable_inv[OF reach]
  show "list_all chat_idempotency_checks (y_records db)" "distinct (map ci_id (y_records db))" "distinct (map claim_key (y_records db))"
    using inv by (simp_all add: chat_inv_def keyed_def)
  show "\<forall>c \<in> set (y_records db). ci_status c \<noteq> COMPLETED \<longrightarrow> ci_no_payload c"
  proof (intro ballI impI)
    fix c assume "c \<in> set (y_records db)" "ci_status c \<noteq> COMPLETED"
    then show "ci_no_payload c"
      using chat_invD(3)[OF inv, of c] by (cases "ci_status c") (simp_all add: chat_idempotency_checks_def)
  qed
qed

text \<open>The life of a claim: in every step a row keeps its identity and either keeps its status, is closed from processing,
  or is withdrawn from completed; a new row is an open claim under a free key; and a row disappears only after its
  retention period.\<close>

theorem chat_claim_life_cycle:
  assumes "chat_reachable ops st db" and "chat_step ops st now db db'" and "0 < cs_ttl_seconds st"
  shows "(\<forall>c' \<in> set (y_records db').
      ci_id c' \<notin> ci_id ` set (y_records db) \<and> claim_key c' \<notin> claim_key ` set (y_records db) \<and> ci_status c' = PROCESSING \<or>
      (\<exists>c \<in> set (y_records db). same_claim c c' \<and> status_moves (ci_status c) (ci_status c'))) \<and>
    (\<forall>c \<in> set (y_records db). \<not> is_expired now c \<longrightarrow>
      (\<exists>c' \<in> set (y_records db'). same_claim c c' \<and> status_moves (ci_status c) (ci_status c')))"
proof -
  note m = chat_step_moves[OF assms(2) chat_reachable_inv[OF assms(1)]]
  have ttl: "0 < seconds (cs_ttl_seconds st)" using assms(3) by (simp add: seconds_def)
  have "\<exists>c' \<in> set (y_records db'). same_claim c c' \<and> status_moves (ci_status c) (ci_status c')"
    if c: "c \<in> set (y_records db)" "\<not> is_expired now c" for c
  proof -
    obtain c' where c': "c' \<in> set (y_records db')" "c' = c \<or> closes st now c c'"
      using table_moves_kept[OF m c ttl] by blast
    from c'(2) have "same_claim c c' \<and> status_moves (ci_status c) (ci_status c')"
      by (auto simp: closes_def) (simp add: status_moves_def)
    with c'(1) show ?thesis by blast
  qed
  with table_moves_origin[OF m] show ?thesis by blast
qed

text \<open>Cleanup finishes its work: when the batches suffice for the abandoned and for the expired rows and no other session
  holds a lock, one cleanup closes every abandoned claim, deletes every expired row, and returns their number.\<close>

theorem chat_cleanup_drains:
  assumes "chat_reachable ops st db" "0 < cs_ttl_seconds st"
    and "cleanup_chat_idempotency_records st now (\<lambda>_. False) batch_size max_batches db = Some (n, db')"
    and "int (how_many (is_stale st now) db) \<le> batch_size * max_batches"
      "int (how_many (is_expired now) db) \<le> batch_size * max_batches"
  shows "n = how_many (is_stale st now) db + how_many (is_expired now) db \<and>
    how_many (is_stale st now) db' = 0 \<and> how_many (is_expired now) db' = 0"
proof -
  from assms(3) have pos: "0 < batch_size" "0 < max_batches"
    and run: "cleanup_loop st now (\<lambda>_. False) (nat batch_size) (nat max_batches) 0 db = (n, db')"
    by (auto simp: cleanup_chat_idempotency_records_def split: if_split_asm)
  have mult: "nat batch_size * nat max_batches = nat (batch_size * max_batches)" using pos by (simp add: nat_mult_distrib)
  show ?thesis
    using cleanup_loop_drains[OF chat_reachable_inv[OF assms(1)] _ _ _ _ run] assms(2,4,5) pos
    by (simp add: mult seconds_def)
qed

section \<open>Concrete runs\<close>

definition chat_crypto :: crypto_ops where
  "chat_crypto = tiny_crypto\<lparr>co_sha256 := (\<lambda>x. take 64 (x @ replicate 64 (CHR ''0'')))\<rparr>"

definition toy_replay :: "string replay_ops" where
  "toy_replay = \<lparr>rp_knowledge_base_id = (\<lambda>_. 2), rp_dump = (\<lambda>r. CHR ''r'' # r),
     rp_validate = (\<lambda>x. case x of [] \<Rightarrow> None | _ # r \<Rightarrow> (let t = dropWhile ((=) (CHR '' '')) r in if t = [] then None else Some t)), rp_compress = (\<lambda>x. x),
     rp_inflate = (\<lambda>c n. Some (take n c, drop n c)), rp_flush = (\<lambda>_ _ _. Some ([], True, [])),
     rp_encrypt = (\<lambda>k n x a. x @ replicate tag_bytes (CHR ''t'')),
     rp_decrypt = (\<lambda>k n c a. Some (take (length c - tag_bytes) c))\<rparr>"

definition chat_limits :: chat_settings where
  "chat_limits = \<lparr>cs_ttl_seconds = 60, cs_processing_timeout_seconds = 30, cs_response_max_bytes = 100,
     cs_active_key_version = Some 1, cs_encryption_keys = [(1, replicate 43 (CHR ''A''))]\<rparr>"

definition demo_keyring :: replay_keyring where
  "demo_keyring = \<lparr>kr_active_version = 1, kr_keys = [(1, replicate 32 (CHR 0x00))]\<rparr>"

definition chat_demo :: chat_db where
  "chat_demo = \<lparr>y_keys = keys_demo, y_records = []\<rparr>"

definition demo_query :: chat_query where
  "demo_query = \<lparr>cq_knowledge_base_id = 2, cq_message = ''hi'', cq_limit = 5\<rparr>"

abbreviation demo_chat_auth :: authorizer where
  "demo_chat_auth \<equiv> authorize_interactive_chat_snapshot 7 0 2"

abbreviation demo_ph :: string where
  "demo_ph \<equiv> fingerprint chat_crypto (for_user 7)"

abbreviation demo_kh :: string where
  "demo_kh \<equiv> co_sha256 chat_crypto (key_text ''k'')"

abbreviation demo_rh :: string where
  "demo_rh \<equiv> request_hash chat_crypto demo_query"

abbreviation demo_snapshot :: chat_snapshot where
  "demo_snapshot \<equiv> \<lparr>sn_knowledge_base_id = 2, sn_content_version = 1\<rparr>"

definition demo_claim :: chat_idempotency_record where
  "demo_claim = new_claim 30 demo_ph demo_kh demo_rh demo_snapshot 0"

definition chat_claimed :: chat_db where
  "chat_claimed = \<lparr>y_keys = keys_demo, y_records = [demo_claim]\<rparr>"

definition demo_turn :: "nat \<Rightarrow> turn" where
  "demo_turn i = \<lparr>tn_now = 6, tn_id = 31 + i, tn_others = (\<lambda>db. db)\<rparr>"

definition demo_attempt :: "nat \<Rightarrow> attempt" where
  "demo_attempt i = \<lparr>at_now = 7, at_others = (\<lambda>db. db), at_update = (if i = 0 then Fails True else Stable),
     at_between = (\<lambda>db. db), at_verify_fails = False, at_after = (\<lambda>db. db), at_recheck_fails = (i = 0)\<rparr>"

definition demo_schedule :: schedule where
  "demo_schedule = \<lparr>sc_turn = demo_turn, sc_failed = demo_attempt, sc_failed_wait = Finishes,
     sc_store_others = (\<lambda>db. db), sc_store_now = 5, sc_store_nonce = replicate 12 (CHR ''n''), sc_store = Stable,
     sc_unstored = demo_attempt, sc_unstored_wait = Finishes\<rparr>"

definition demo_descriptor :: claim_descriptor where
  "demo_descriptor = descriptor_of demo_claim demo_ph demo_kh demo_rh"

definition demo_answer :: chat_idempotency_record where
  "demo_answer = (close_record COMPLETED chat_limits 5 (demo_claim\<lparr>ci_response_body := Some (''r hello'' @ replicate 16 (CHR ''t'')),
     ci_response_encoding := Some replay_encoding, ci_response_size_bytes := Some 7, ci_response_key_version := Some 1,
     ci_response_nonce := Some (replicate 12 (CHR ''n''))\<rparr>))\<lparr>ci_updated_at := 5\<rparr>"

definition chat_answered :: chat_db where
  "chat_answered = \<lparr>y_keys = keys_demo, y_records = [demo_answer]\<rparr>"

lemma chat_sha_length [simp]: "length (co_sha256 chat_crypto x) = 64"
  by (simp add: chat_crypto_def)

lemma demo_query_kb [simp]: "cq_knowledge_base_id demo_query = 2"
  by (simp add: demo_query_def)

lemma demo_hash_length [simp]: "length demo_ph = 64" "length demo_rh = 64"
  by (simp_all add: fingerprint_def request_hash_def)

lemma demo_chat_authorized: "demo_chat_auth 0 keys_demo = Inr demo_snapshot"
  "demo_chat_auth 5 keys_demo = Inr demo_snapshot" "demo_chat_auth 6 keys_demo = Inr demo_snapshot"
  by code_simp+

lemma toy_replay_laws: "replay_laws toy_replay"
  by (simp add: replay_laws_def toy_replay_def)

lemma demo_keyring_loads: "load_replay_keyring chat_limits = Some demo_keyring"
  by code_simp

lemma demo_claim_checks: "chat_idempotency_checks demo_claim"
  by (simp add: demo_claim_def new_claim_def chat_idempotency_checks_def ci_no_payload_def)

lemma demo_claimed:
  "claim_attempt chat_crypto toy_replay chat_limits demo_keyring demo_ph demo_kh demo_rh 2 demo_chat_auth 0 30 chat_demo =
   (Claimed demo_claim, chat_claimed)"
  using demo_claim_checks
  by (simp add: claim_attempt_def chat_demo_def chat_claimed_def demo_chat_authorized insert_record_def
    demo_claim_def[symmetric])

lemma demo_stored:
  "store_completed_response chat_crypto toy_replay chat_limits demo_keyring demo_descriptor '' hello'' demo_chat_auth 5
     (replicate 12 (CHR ''n'')) chat_claimed = (Inr (), chat_answered)"
proof -
  have enc: "encode_response chat_crypto toy_replay demo_keyring 100 demo_claim '' hello'' (replicate 12 (CHR ''n'')) =
      Some (''r hello'' @ replicate 16 (CHR ''t''), 7, 1, replicate 12 (CHR ''n''))"
    by (simp add: encode_response_def toy_replay_def tag_bytes_def demo_keyring_def response_aad_def demo_claim_def new_claim_def)
  have f: "find_record chat_claimed (cl_record_id demo_descriptor) = Some demo_claim" "matches_claim demo_descriptor demo_claim"
    "ci_status demo_claim = PROCESSING" "ci_knowledge_base_id demo_claim = Some 2" "ci_knowledge_base_content_version demo_claim = Some 1"
    by (simp_all add: find_record_def chat_claimed_def demo_descriptor_def descriptor_of_def matches_claim_def demo_claim_def new_claim_def)
  have ck: "chat_idempotency_checks (close_record COMPLETED chat_limits 5 (demo_claim\<lparr>ci_response_body := Some (''r hello'' @ replicate 16 (CHR ''t'')),
     ci_response_encoding := Some replay_encoding, ci_response_size_bytes := Some 7, ci_response_key_version := Some 1,
     ci_response_nonce := Some (replicate 12 (CHR ''n''))\<rparr>))"
    by (simp add: close_record_def demo_claim_def new_claim_def chat_idempotency_checks_def replay_encoding_def)
  have keys: "y_keys chat_claimed = keys_demo" "y_records chat_claimed = [demo_claim]" by (simp_all add: chat_claimed_def)
  show ?thesis
    unfolding store_completed_response_def keys(1) demo_chat_authorized(2)
    using f ck enc
    by (simp add: toy_replay_def[THEN arg_cong, of rp_knowledge_base_id] chat_limits_def[THEN arg_cong, of cs_response_max_bytes]
      write_record_def keys(2) demo_answer_def chat_answered_def chat_claimed_def)
qed

lemma chat_claimed_reachable: "chat_reachable toy_replay chat_limits chat_claimed"
  by (rule chat_reachable.step[OF chat_reachable.start chat_step.claim[OF demo_claimed]]) (simp add: chat_demo_def)

lemma chat_answered_step: "chat_step toy_replay chat_limits 5 chat_claimed chat_answered"
  by (rule chat_step.store[OF demo_stored])

lemma chat_answered_reachable: "chat_reachable toy_replay chat_limits chat_answered"
  by (rule chat_reachable.step[OF chat_claimed_reachable chat_answered_step])

theorem chat_operation_runs_at_most_once_witness:
  "execute_chat_query_idempotently chat_crypto toy_replay chat_limits demo_schedule (for_user 7) ''k'' demo_query demo_chat_auth
     (\<lambda>db. (OpCancelled, db)) chat_claimed =
   execute_chat_query_idempotently chat_crypto toy_replay chat_limits demo_schedule (for_user 7) ''k'' demo_query demo_chat_auth
     (\<lambda>db. (OpResponse ''other'', db)) chat_claimed"
proof -
  have start: "chat_reachable toy_replay chat_limits chat_demo" by (rule chat_reachable.start) (simp add: chat_demo_def)
  show ?thesis
    by (rule chat_operation_runs_at_most_once[OF start demo_claimed rtranclp.rtrancl_refl])
      (simp add: turn_within_def demo_schedule_def demo_turn_def chat_limits_def seconds_def)
qed

lemma demo_replayed_at:
  assumes "demo_chat_auth 6 k = Inr demo_snapshot"
  shows "claim_or_replay chat_crypto toy_replay chat_limits demo_keyring demo_ph demo_kh demo_rh 2 demo_chat_auth demo_turn
     (chat_answered\<lparr>y_keys := k\<rparr>) = (Inr (demo_answer, Some ''hello''), chat_answered\<lparr>y_keys := k\<rparr>)"
proof -
  have dec: "decode_response chat_crypto toy_replay demo_keyring 100 demo_answer = Some ''hello''"
    by (simp add: decode_response_def demo_answer_def close_record_def demo_claim_def new_claim_def toy_replay_def
      replay_encoding_def nonce_bytes_def tag_bytes_def demo_keyring_def response_aad_def)
  have row: "ci_request_hash demo_answer = demo_rh" "ci_status demo_answer = COMPLETED" "ci_expires_at demo_answer = Some 60000005"
    "ci_knowledge_base_id demo_answer = Some 2" "ci_knowledge_base_content_version demo_answer = Some 1"
    "has_key demo_ph demo_kh demo_answer"
    by (simp_all add: demo_answer_def demo_claim_def new_claim_def chat_limits_def seconds_def has_key_def)
  have "claim_attempt chat_crypto toy_replay chat_limits demo_keyring demo_ph demo_kh demo_rh 2 demo_chat_auth 6 31
      (chat_answered\<lparr>y_keys := k\<rparr>) = (Replayed demo_answer ''hello'', chat_answered\<lparr>y_keys := k\<rparr>)"
    using row dec assms
    by (simp add: claim_attempt_def chat_answered_def insert_record_def find_claim_def decide_existing_def
      new_claim_def chat_limits_def[THEN arg_cong, of cs_response_max_bytes])
  then show ?thesis by (simp add: claim_or_replay_def upt_conv_Cons demo_turn_def)
qed

lemma demo_replayed:
  "\<exists>rec. claim_or_replay chat_crypto toy_replay chat_limits demo_keyring demo_ph demo_kh demo_rh 2 demo_chat_auth demo_turn
     chat_answered = (Inr (rec, Some ''hello''), chat_answered)"
proof -
  have "chat_answered\<lparr>y_keys := keys_demo\<rparr> = chat_answered" by (simp add: chat_answered_def)
  with demo_replayed_at[OF demo_chat_authorized(3)] show ?thesis by auto
qed

text \<open>The toy schema strips leading spaces, so the stored answer is replayed normalized.\<close>

theorem chat_replay_returns_stored_answer_witness:
  "execute_chat_query_idempotently chat_crypto toy_replay chat_limits demo_schedule (for_user 7) ''k'' demo_query demo_chat_auth
     (\<lambda>db. (OpCancelled, db)) chat_answered = (Inr ''hello'', chat_answered)"
proof -
  have keys: "y_keys chat_answered = keys_demo" "y_keys chat_claimed = keys_demo" by (simp_all add: chat_answered_def chat_claimed_def)
  have v: "rp_validate toy_replay (rp_dump toy_replay '' hello'') = Some ''hello''" by (simp add: toy_replay_def)
  have "case rp_validate toy_replay (rp_dump toy_replay '' hello'') of
      Some answer \<Rightarrow> execute_chat_query_idempotently chat_crypto toy_replay chat_limits demo_schedule (for_user 7) ''k'' demo_query
        demo_chat_auth (\<lambda>db. (OpCancelled, db)) chat_answered = (Inr answer, chat_answered)
    | None \<Rightarrow> (\<exists>db4 row. execute_chat_query_idempotently chat_crypto toy_replay chat_limits demo_schedule (for_user 7) ''k'' demo_query
          demo_chat_auth (\<lambda>db. (OpCancelled, db)) chat_answered = (Inl (ChatApi outcome_unknown_error), db4) \<and>
        find_record db4 (cl_record_id demo_descriptor) = Some row \<and> ci_status row = OUTCOME_UNKNOWN \<and> ci_response_body row = None)"
    by (rule chat_replay_returns_stored_answer[where snapshot = demo_snapshot, OF chat_claimed_reachable toy_replay_laws _ _ _
          demo_stored _ _ demo_keyring_loads _ _ chat_answered_reachable])
      (simp_all add: demo_descriptor_def descriptor_of_def demo_keyring_def demo_schedule_def demo_turn_def
        chat_limits_def seconds_def keys demo_chat_authorized)
  then show ?thesis unfolding v by simp
qed

theorem chat_replay_requires_current_access_witness:
  "\<exists>user. find_user (x_auth keys_demo) 7 = Some user \<and> may_chat keys_demo 6 user 2"
proof -
  obtain rec where run: "claim_or_replay chat_crypto toy_replay chat_limits demo_keyring demo_ph demo_kh demo_rh 2 demo_chat_auth demo_turn
     chat_answered = (Inr (rec, Some ''hello''), chat_answered)"
    using demo_replayed by blast
  show ?thesis
    using chat_replay_requires_current_access[OF run, where uid = 7 and ver = 0 and key_id = 0 and family = 0] by (auto simp: chat_answered_def demo_turn_def)
qed

theorem chat_answer_is_durable_witness:
  "\<exists>rec \<in> set (y_records chat_answered). has_key demo_ph demo_kh rec \<and> ci_request_hash rec = demo_rh \<and> ci_status rec = COMPLETED"
proof -
  obtain rec where run: "claim_or_replay chat_crypto toy_replay chat_limits demo_keyring demo_ph demo_kh demo_rh 2 demo_chat_auth demo_turn
     chat_answered = (Inr (rec, Some ''hello''), chat_answered)"
    using demo_replayed by blast
  have t: "sc_turn demo_schedule = demo_turn" "sc_store_others demo_schedule = (\<lambda>db. db)" by (simp_all add: demo_schedule_def)
  have claim: "claim_or_replay chat_crypto toy_replay chat_limits demo_keyring demo_ph demo_kh demo_rh
      (cq_knowledge_base_id demo_query) demo_chat_auth (sc_turn demo_schedule) chat_answered = (Inr (rec, Some ''hello''), chat_answered)"
    using run by (simp add: t)
  have exec: "execute_chat_query_idempotently chat_crypto toy_replay chat_limits demo_schedule (for_user 7) ''k'' demo_query demo_chat_auth
      (\<lambda>db. (OpCancelled, db)) chat_answered = (Inr ''hello'', chat_answered)"
    by (simp only: execute_chat_query_idempotently_def demo_keyring_loads option.case Let_def claim prod.case sum.case)
  have reach: "chat_reachable toy_replay chat_limits (sc_store_others demo_schedule (snd ((OpCancelled :: string operation_outcome, chat_answered))))"
    using chat_answered_reachable by (simp add: t)
  show ?thesis
    by (rule chat_answer_is_durable[where operation = "\<lambda>db. (OpCancelled, db)", OF _ demo_keyring_loads claim exec])
      (use reach in simp)
qed

text \<open>Around the two attempts the cleanup runs and the same key is claimed again.\<close>

definition demo_cleanup :: "chat_db \<Rightarrow> chat_db" where
  "demo_cleanup db = snd (snd (cleanup_batch chat_limits 7 (\<lambda>_. False) 10 db))"

definition demo_rival :: "chat_db \<Rightarrow> chat_db" where
  "demo_rival db = snd (claim_attempt chat_crypto toy_replay chat_limits demo_keyring demo_ph demo_kh demo_rh 2 demo_chat_auth 7 40 db)"

definition busy_attempt :: "nat \<Rightarrow> attempt" where
  "busy_attempt i = (demo_attempt i)\<lparr>at_others := demo_cleanup, at_between := demo_rival, at_after := demo_rival\<rparr>"

lemma demo_runs: "runs_within toy_replay chat_limits 0 60000000 demo_cleanup" "runs_within toy_replay chat_limits 0 60000000 demo_rival"
proof -
  have c: "chat_step toy_replay chat_limits 7 db (demo_cleanup db)" for db
    unfolding demo_cleanup_def
    by (cases "cleanup_batch chat_limits 7 (\<lambda>_. False) 10 db") (simp add: chat_step.cleanup)
  have r: "chat_step toy_replay chat_limits 7 db (demo_rival db)" for db
    unfolding demo_rival_def by (rule chat_step.claim) (rule prod.collapse[symmetric])
  show "runs_within toy_replay chat_limits 0 60000000 demo_cleanup" "runs_within toy_replay chat_limits 0 60000000 demo_rival"
    using c r by (auto simp: runs_within_def chat_window_def intro!: r_into_rtranclp exI[of _ 7])
qed

theorem chat_terminalization_succeeds_witness:
  "\<exists>status db' rec. reconcile_outcome_unknown chat_limits demo_descriptor busy_attempt chat_claimed = (Some status, db') \<and>
    find_record db' (cl_record_id demo_descriptor) = Some rec \<and> matches_claim demo_descriptor rec \<and> ci_status rec = status \<and>
    status \<in> {COMPLETED, OUTCOME_UNKNOWN, INVALIDATED}"
proof (rule chat_terminalization_succeeds[OF chat_claimed_reachable])
  show "claim_kept demo_descriptor 60000000 chat_claimed"
    by (simp add: claim_kept_def find_record_def chat_claimed_def demo_descriptor_def descriptor_of_def matches_claim_def
      demo_claim_def new_claim_def)
  show "attempt_within toy_replay chat_limits 0 60000000 (busy_attempt i)" if "i < 2" for i
    using demo_runs by (simp add: attempt_within_def busy_attempt_def demo_attempt_def chat_limits_def seconds_def)
qed (simp_all add: busy_attempt_def demo_attempt_def)

theorem chat_ledger_well_formed_witness:
  "(\<exists>db' row. store_completed_response chat_crypto toy_replay chat_limits demo_keyring demo_descriptor '' hello'' demo_chat_auth 5
      (replicate 12 (CHR ''n'')) chat_claimed = (Inr (), db') \<and>
    find_record db' 30 = Some row \<and> ci_status row = COMPLETED) \<and> list_all chat_idempotency_checks (y_records chat_claimed)"
proof -
  have r: "find_record chat_claimed (cl_record_id demo_descriptor) = Some demo_claim" "matches_claim demo_descriptor demo_claim"
    "ci_status demo_claim = PROCESSING" "ci_knowledge_base_id demo_claim = Some 2" "ci_knowledge_base_content_version demo_claim = Some 1"
    "cl_record_id demo_descriptor = 30"
    by (simp_all add: find_record_def chat_claimed_def demo_descriptor_def descriptor_of_def matches_claim_def demo_claim_def new_claim_def)
  have enc: "encode_response chat_crypto toy_replay demo_keyring 100 demo_claim '' hello'' (replicate 12 (CHR ''n'')) =
      Some (''r hello'' @ replicate 16 (CHR ''t''), 7, 1, replicate 12 (CHR ''n''))"
    by (simp add: encode_response_def toy_replay_def tag_bytes_def demo_keyring_def response_aad_def demo_claim_def new_claim_def)
  have a: "demo_chat_auth 5 (y_keys chat_claimed) = Inr demo_snapshot" using demo_chat_authorized by (simp add: chat_claimed_def)
  have lim: "cs_response_max_bytes chat_limits = 100" "1 \<le> kr_active_version demo_keyring"
    by (simp_all add: chat_limits_def demo_keyring_def)
  have kb: "rp_knowledge_base_id toy_replay '' hello'' = 2" by (simp add: toy_replay_def)
  note w = chat_ledger_well_formed[OF chat_claimed_reachable demo_hash_length(1) chat_sha_length demo_hash_length(2),
      where auth = demo_chat_auth and now = 5 and snapshot = demo_snapshot and kr = demo_keyring and co = chat_crypto and
        nonce = "replicate 12 (CHR ''n'')" and d = demo_descriptor and response = "'' hello''", OF a _ _ lim(2), THEN conjunct2, THEN conjunct2]
  show ?thesis using w r enc kb by (auto simp: lim(1))
qed

theorem chat_claim_life_cycle_witness:
  "\<exists>c \<in> set (y_records chat_claimed). same_claim c demo_answer \<and> status_moves (ci_status c) COMPLETED"
proof -
  have "0 < cs_ttl_seconds chat_limits" by (simp add: chat_limits_def)
  from chat_claim_life_cycle[OF chat_claimed_reachable chat_answered_step this]
  show ?thesis by (simp add: chat_answered_def chat_claimed_def demo_answer_def)
qed

theorem chat_cleanup_drains_witness:
  "\<exists>db'. cleanup_chat_idempotency_records chat_limits 70000000 (\<lambda>_. False) 10 1 chat_answered = Some (1, db') \<and>
     how_many (is_expired 70000000) db' = 0"
proof -
  have counts: "how_many (is_stale chat_limits 70000000) chat_answered = 0" "how_many (is_expired 70000000) chat_answered = 1"
    by (simp_all add: how_many_def chat_answered_def is_stale_def is_expired_def is_terminal_def demo_answer_def chat_limits_def seconds_def)
  obtain r where "cleanup_chat_idempotency_records chat_limits 70000000 (\<lambda>_. False) 10 1 chat_answered = Some r"
    by (simp add: cleanup_chat_idempotency_records_def)
  then obtain n db' where run: "cleanup_chat_idempotency_records chat_limits 70000000 (\<lambda>_. False) 10 1 chat_answered = Some (n, db')"
    by (cases r) simp
  have "0 < cs_ttl_seconds chat_limits" by (simp add: chat_limits_def)
  from chat_cleanup_drains[OF chat_answered_reachable this run] counts run show ?thesis by simp
qed

end
