(* ===== verification/Storage.thy ===== *)
theory Storage
  imports Codec Json
begin

text \<open>
  What an upload needs of the object store and of the disk under it: the capacity policy
  (\<open>src/app/services/storage_capacity.py\<close>) and the parts of \<open>StorageService\<close> that compute
  (\<open>src/app/services/storage.py\<close>): the signed headers, the sizes of the parts and the normal form of a
  checksum. The S3 client itself is not in the repository; its answers are arguments. The lemmas show that the
  part sizes tile the object and that a checksum survives the trip to the store and back.
\<close>

section \<open>Capacity policy (storage\_capacity.py)\<close>

text \<open>
  A binary64 number \<open>(m, e)\<close> is \<open>m * 2 ^ e\<close>. \<open>float_of_ratio\<close> is the correctly rounded quotient of a
  non-negative by a positive integer, whose exponent is in the normal range for byte counts.
\<close>

type_synonym binary64 = "int \<times> int"

definition float_of_ratio :: "int \<Rightarrow> int \<Rightarrow> binary64" where
  "float_of_ratio n d =
     (if n = 0 then (0, 0)
      else (let e = floor_log2_div n d - 52 in
        (if e \<le> 0 then round_half_even_div (n * 2 ^ nat (- e)) d else round_half_even_div n (d * 2 ^ nat e), e)))"

definition float_times :: "binary64 \<Rightarrow> int \<Rightarrow> binary64" where
  "float_times x k = (case float_of_ratio (fst x * k) 1 of (m, e) \<Rightarrow> (m, e + snd x))"

definition float_ge :: "binary64 \<Rightarrow> int \<Rightarrow> bool" where
  "float_ge x k = (if snd x \<ge> 0 then fst x * 2 ^ nat (snd x) \<ge> k else fst x \<ge> k * 2 ^ nat (- snd x))"

record filesystem_capacity =
  fc_total_bytes :: int
  fc_used_bytes :: int
  fc_free_bytes :: int

definition used_percent :: "filesystem_capacity \<Rightarrow> binary64" where
  "used_percent fs =
     (if fc_total_bytes fs \<le> 0 then (100, 0)
      else float_times (float_of_ratio (fc_used_bytes fs) (fc_total_bytes fs)) 100)"

record storage_assessment =
  sa_allowed :: bool
  sa_level :: string
  sa_reason_code :: "string option"
  sa_filesystem_used_percent :: binary64
  sa_projected_object_bytes :: int

definition assess_storage_capacity ::
    "filesystem_capacity \<Rightarrow> int \<Rightarrow> int \<Rightarrow> bool \<Rightarrow> int \<Rightarrow> int \<Rightarrow> int \<Rightarrow> int \<Rightarrow> storage_assessment" where
  "assess_storage_capacity filesystem object_used_bytes incoming_bytes is_bulk warning_percent
       bulk_stop_percent reject_percent object_stop_bytes =
     (let projected = object_used_bytes + incoming_bytes;
          percent = used_percent filesystem;
          assess = (\<lambda>allowed level reason.
            \<lparr>sa_allowed = allowed, sa_level = level, sa_reason_code = reason,
             sa_filesystem_used_percent = percent, sa_projected_object_bytes = projected\<rparr>)
      in if projected \<ge> object_stop_bytes
         then assess False ''blocked'' (Some ''object_storage_stop_line_reached'')
         else if float_ge percent reject_percent
         then assess False ''blocked'' (Some ''storage_capacity_critical'')
         else if float_ge percent bulk_stop_percent
         then assess (\<not> is_bulk) ''bulk_blocked'' (if is_bulk then Some ''storage_bulk_uploads_paused'' else None)
         else if float_ge percent warning_percent then assess True ''warning'' None
         else assess True ''normal'' None)"

definition effective_upload_limit :: "int option \<Rightarrow> int \<Rightarrow> int" where
  "effective_upload_limit role_limit_bytes platform_limit_bytes =
     (case role_limit_bytes of None \<Rightarrow> platform_limit_bytes | Some l \<Rightarrow> min l platform_limit_bytes)"

section \<open>Objects and signatures (storage.py)\<close>

record stored_object =
  so_size_bytes :: int
  so_etag :: "string option"
  so_version_id :: "string option"
  so_checksum_sha256 :: "string option"
  so_content_type :: "string option"

definition checksum_sha256_base64_to_hex :: "string option \<Rightarrow> string option" where
  "checksum_sha256_base64_to_hex value =
     Option.bind value (\<lambda>v. Option.bind (b64decode_std v) (\<lambda>decoded.
       if length decoded \<noteq> 32 then None else Some (tohex decoded)))"

record initiated_upload =
  iu_upload_id :: "string option"
  iu_url :: "string option"
  iu_required_headers :: "(string \<times> string) list"

text \<open>\<open>reply\<close> is what boto3 returns: the presigned URL, or the new multipart upload's id.\<close>

definition storage_initiate ::
    "upload_mode \<Rightarrow> string \<Rightarrow> string \<Rightarrow> int \<Rightarrow> string option \<Rightarrow> string \<Rightarrow> initiated_upload" where
  "storage_initiate mode content_type upload_session_id expected_size_bytes checksum reply =
     (case mode of
        SINGLE \<Rightarrow>
          \<lparr>iu_upload_id = None, iu_url = Some reply,
           iu_required_headers =
             [(''Content-Type'', content_type), (''Content-Length'', int_str expected_size_bytes),
              (''x-amz-meta-upload-session-id'', upload_session_id), (''If-None-Match'', ''*'')] @
             (case checksum of None \<Rightarrow> [] | Some c \<Rightarrow> [(''x-amz-checksum-sha256'', c)])\<rparr>
      | MULTIPART \<Rightarrow> \<lparr>iu_upload_id = Some reply, iu_url = None, iu_required_headers = []\<rparr>)"

record presigned_part =
  pp_url :: string
  pp_size_bytes :: int

definition part_size :: "int \<Rightarrow> int \<Rightarrow> int \<Rightarrow> int" where
  "part_size expected_size_bytes part_size_bytes number =
     min part_size_bytes (expected_size_bytes - (number - 1) * part_size_bytes)"

text \<open>\<open>sign number size\<close> is the URL boto3 signs; \<open>None\<close> is the \<open>ValueError\<close> of a part past the object's end.\<close>

definition presign_parts ::
    "(int \<Rightarrow> int \<Rightarrow> string) \<Rightarrow> int list \<Rightarrow> int \<Rightarrow> int \<Rightarrow> (int \<times> presigned_part) list option" where
  "presign_parts sign part_numbers expected_size_bytes part_size_bytes =
     those (map (\<lambda>number.
       let size = part_size expected_size_bytes part_size_bytes number
       in if size \<le> 0 then None
          else Some (number, \<lparr>pp_url = sign number size, pp_size_bytes = size\<rparr>)) part_numbers)"

section \<open>Lemmas\<close>

text \<open>Parts numbered from 1 tile the object: each is positive and they add up to its size.\<close>

lemma part_sizes_prefix:
  assumes "0 < s" "int n * s \<le> N"
  shows "sum_list (map (\<lambda>i. part_size N s (int i)) [1..<Suc n]) = int n * s"
  using assms(2)
proof (induction n)
  case 0
  then show ?case by simp
next
  case (Suc n)
  have le: "int n * s \<le> N" using Suc.prems assms(1) by (simp add: distrib_right)
  have "part_size N s (int (Suc n)) = s" using Suc.prems by (simp add: part_size_def distrib_right)
  with Suc.IH[OF le] show ?case by (simp add: distrib_right)
qed

theorem parts_tile_object:
  assumes "0 < s" and "(int n - 1) * s < N" and "N \<le> int n * s" and "0 < n"
  shows "sum_list (map (\<lambda>i. part_size N s (int i)) [1..<Suc n]) = N"
    and "\<And>i. 1 \<le> i \<Longrightarrow> i \<le> n \<Longrightarrow> 0 < part_size N s (int i) \<and> part_size N s (int i) \<le> s"
proof -
  obtain k where n: "n = Suc k" using assms(4) by (cases n) auto
  have "sum_list (map (\<lambda>i. part_size N s (int i)) [1..<Suc k]) = int k * s"
    using assms n by (intro part_sizes_prefix) simp_all
  moreover have "part_size N s (int n) = N - int k * s"
    using assms n by (simp add: part_size_def min_def distrib_right)
  ultimately show "sum_list (map (\<lambda>i. part_size N s (int i)) [1..<Suc n]) = N" by (simp add: n)
  show "0 < part_size N s (int i) \<and> part_size N s (int i) \<le> s" if "1 \<le> i" "i \<le> n" for i
  proof -
    have "(int i - 1) * s \<le> (int n - 1) * s" using assms(1) that by (intro mult_right_mono) simp_all
    with assms(2) have "(int i - 1) * s < N" by linarith
    with assms(1) show ?thesis by (simp add: part_size_def)
  qed
qed

theorem checksum_text_roundtrip:
  "length bs = 32 \<Longrightarrow> checksum_sha256_base64_to_hex (Some (b64encode bs)) = Some (tohex bs)"
  by (simp add: checksum_sha256_base64_to_hex_def b64decode_std_encode)

lemma effective_upload_limit_le: "effective_upload_limit l p \<le> p"
  by (simp add: effective_upload_limit_def split: option.split)

text \<open>A bulk upload is admitted only below every stop line.\<close>

lemma assess_bulk_allowed:
  "sa_allowed (assess_storage_capacity fs used incoming True w b r stop) \<longleftrightarrow>
     used + incoming < stop \<and> \<not> float_ge (used_percent fs) r \<and> \<not> float_ge (used_percent fs) b"
  by (simp add: assess_storage_capacity_def Let_def not_le)

lemma assess_allowed_below_stop:
  "sa_allowed (assess_storage_capacity fs used incoming bulk w b r stop) \<Longrightarrow>
     used + incoming < stop \<and> \<not> float_ge (used_percent fs) r"
  by (simp add: assess_storage_capacity_def Let_def not_le split: if_splits)

end
