(* ===== verification/Uploads.thy ===== *)
theory Uploads
  imports Storage Quota Chat_Authorization
begin

text \<open>
  Uploads (\<open>src/app/api/v1/routes/files.py\<close>) and the reconciliation of abandoned ones
  (\<open>cleanup_expired_uploads\<close> in \<open>src/app/maintenance.py\<close>). A request that talks to the object store commits
  before it does and re-reads the rows afterwards, so each handler is a sequence of transactions: the function of
  one transaction takes the database and returns the committed one, the answers of the object store are
  arguments, and what others commit while a request waits for the store is the argument \<open>between\<close> of the whole
  handler. The step relation lets every transaction of every request in flight happen in any order, and a
  request may die at any commit.
\<close>

section \<open>State\<close>

record pipe_db =
  v_keys :: keys_db
  v_files :: "file_row list"
  v_uploads :: "upload_session list"
  v_quota :: quota_db
  v_jobs :: "okf_conversion_job list"

record file_settings =
  fs_s3_bucket :: string
  fs_allowed_extensions :: "string list"
  fs_platform_max_upload_bytes :: int
  fs_platform_max_files_per_user :: int
  fs_platform_max_files_total :: int
  fs_multipart_threshold_bytes :: int
  fs_multipart_part_size_bytes :: int
  fs_upload_session_hours :: int
  fs_storage_warning_percent :: int
  fs_storage_bulk_stop_percent :: int
  fs_storage_reject_percent :: int
  fs_storage_object_stop_bytes :: int
  fs_presigned_url_seconds :: int

text \<open>
  The measurement of the disk: no probe configured, a probe that fails, or the capacity it reads.
\<close>

datatype capacity_probe = NoProbe | ProbeFails | Probe filesystem_capacity

definition minutes :: "int \<Rightarrow> timestamp" where
  "minutes n = seconds (60 * n)"

definition hours :: "int \<Rightarrow> timestamp" where
  "hours n = seconds (3600 * n)"

definition write_file :: "uuid \<Rightarrow> (file_row \<Rightarrow> file_row) \<Rightarrow> pipe_db \<Rightarrow> pipe_db" where
  "write_file fid f db = db\<lparr>v_files := update_where (\<lambda>r. f_id r = fid) f (v_files db)\<rparr>"

definition write_upload :: "uuid \<Rightarrow> (upload_session \<Rightarrow> upload_session) \<Rightarrow> pipe_db \<Rightarrow> pipe_db" where
  "write_upload sid f db = db\<lparr>v_uploads := update_where (\<lambda>u. us_id u = sid) f (v_uploads db)\<rparr>"

definition audit_pipe ::
    "timestamp \<Rightarrow> string \<Rightarrow> audit_result \<Rightarrow> string \<Rightarrow> uuid option \<Rightarrow> string \<Rightarrow> string option \<Rightarrow> string option \<Rightarrow> json \<Rightarrow>
     pipe_db \<Rightarrow> pipe_db" where
  "audit_pipe now action result resource_type actor resource_id request_id ip details db =
     db\<lparr>v_keys := (v_keys db)\<lparr>x_auth :=
        audit_auth now action result resource_type actor (Some resource_id) request_id ip details
          (x_auth (v_keys db))\<rparr>\<rparr>"

definition v_kb :: "pipe_db \<Rightarrow> kb_db" where
  "v_kb db = x_kb (v_keys db)"

definition file_of :: "pipe_db \<Rightarrow> uuid \<Rightarrow> file_row option" where
  "file_of db fid = find (\<lambda>f. f_id f = fid) (v_files db)"

definition upload_of :: "pipe_db \<Rightarrow> uuid \<Rightarrow> upload_session option" where
  "upload_of db sid = find (\<lambda>u. us_id u = sid) (v_uploads db)"

text \<open>The handlers of \<open>src/app/main.py\<close> turn what the quota service raises into a response.\<close>

definition quota_api_error :: "quota_error \<Rightarrow> api_error" where
  "quota_api_error e =
     (case e of QuotaDomain (QuotaExceeded _ _ _) \<Rightarrow> ApiError 429 ''quota_exceeded''
      | QuotaDomain (FilePolicyViolation _) \<Rightarrow> ApiError 422 ''file_policy_violation''
      | _ \<Rightarrow> unhandled)"

definition some_or :: "'e \<Rightarrow> 'a option \<Rightarrow> 'e + 'a" where
  "some_or e x = (case x of None \<Rightarrow> Inl e | Some y \<Rightarrow> Inr y)"

lemma some_or_eq [result_simps]: "some_or e x = Inr y \<longleftrightarrow> x = Some y" "some_or e x = Inl e' \<longleftrightarrow> x = None \<and> e' = e"
  by (auto simp: some_or_def split: option.splits)

lemma some_or_simps [simp]: "some_or e None = Inl e" "some_or e (Some y) = Inr y"
  by (simp_all add: some_or_def)

section \<open>Keys, checksums and lookups\<close>

definition strip_prefix :: "string \<Rightarrow> string \<Rightarrow> string option" where
  "strip_prefix p s = (if take (length p) s = p then Some (drop (length p) s) else None)"

text \<open>\<open>None\<close> is a raised \<open>ValueError\<close>.\<close>

definition checksum_base64 :: "string option \<Rightarrow> string option option" where
  "checksum_base64 checksum_hex =
     (case checksum_hex of None \<Rightarrow> Some None | Some h \<Rightarrow> map_option (\<lambda>bs. Some (b64encode bs)) (fromhex h))"

text \<open>Year and month of an instant in the proleptic Gregorian calendar, as \<open>%Y/%m\<close> prints them.\<close>

definition year_month :: "timestamp \<Rightarrow> int \<times> int" where
  "year_month now =
     (let z = now div day_length + 719468;
          doe = z mod 146097;
          yoe = (doe - doe div 1460 + doe div 36524 - doe div 146096) div 365;
          doy = doe - (365 * yoe + yoe div 4 - yoe div 100);
          mp = (5 * doy + 2) div 153;
          month = (if mp < 10 then mp + 3 else mp - 9)
      in (yoe + z div 146097 * 400 + (if month \<le> 2 then 1 else 0), month))"

definition zero_pad :: "nat \<Rightarrow> string \<Rightarrow> string" where
  "zero_pad n s = replicate (n - length s) (CHR ''0'') @ s"

definition object_key :: "crypto_ops \<Rightarrow> timestamp \<Rightarrow> uuid \<Rightarrow> uuid \<Rightarrow> string \<Rightarrow> upload_mode \<Rightarrow> string" where
  "object_key co now user_id file_id extension mode =
     (case year_month now of (y, m) \<Rightarrow>
        (case mode of SINGLE \<Rightarrow> ''staging'' | MULTIPART \<Rightarrow> ''objects'') @ ''/users/'' @ co_str_uuid co user_id @ ''/'' @
        zero_pad 4 (int_str y) @ ''/'' @ zero_pad 2 (int_str m) @ ''/'' @ co_str_uuid co file_id @ extension)"

definition final_object_key :: "string \<Rightarrow> string option" where
  "final_object_key staging_key = map_option ((@) ''objects/'') (strip_prefix ''staging/'' staging_key)"

definition mode_value :: "upload_mode \<Rightarrow> string" where
  "mode_value m = (case m of SINGLE \<Rightarrow> ''single'' | MULTIPART \<Rightarrow> ''multipart'')"

definition upload_not_found :: api_error where
  "upload_not_found = ApiError 404 ''upload_not_found''"

definition owned_upload :: "pipe_db \<Rightarrow> uuid \<Rightarrow> uuid \<Rightarrow> api_error + upload_session \<times> file_row" where
  "owned_upload db upload_session_id user_id =
     (case find (\<lambda>u. us_id u = upload_session_id \<and> us_user_id u = user_id) (v_uploads db) of
        None \<Rightarrow> Inl upload_not_found
      | Some u \<Rightarrow> (case file_of db (us_file_id u) of None \<Rightarrow> Inl upload_not_found | Some f \<Rightarrow> Inr (u, f)))"

definition has_held_upload_reservation :: "pipe_db \<Rightarrow> uuid \<Rightarrow> bool" where
  "has_held_upload_reservation db upload_session_id \<longleftrightarrow>
     (\<exists>r \<in> set (q_reservations (v_quota db)). qr_upload_session_id r = upload_session_id \<and> qr_status r = HELD)"

definition locked_object_usage :: "pipe_db \<Rightarrow> int \<times> int" where
  "locked_object_usage db =
     (let live = filter (\<lambda>f. f_deleted_at f = None \<and> f_status f \<notin> {FILE_FAILED, FILE_DELETED}) (v_files db)
      in (sum_list (map f_size_bytes live), int (length live)))"

definition effective_count_limit :: "int option \<Rightarrow> int \<Rightarrow> int" where
  "effective_count_limit role_limit platform_limit =
     (case role_limit of None \<Rightarrow> platform_limit | Some l \<Rightarrow> min l platform_limit)"

text \<open>The value is the policy level of the response header, when a probe is configured.\<close>

definition enforce_storage_policy ::
    "file_settings \<Rightarrow> capacity_probe \<Rightarrow> int \<Rightarrow> bool \<Rightarrow> pipe_db \<Rightarrow> api_error + string option" where
  "enforce_storage_policy st probe incoming_bytes is_bulk db =
     (case locked_object_usage db of (object_used_bytes, object_count) \<Rightarrow>
        if incoming_bytes > 0 \<and> object_count \<ge> fs_platform_max_files_total st
        then Inl (ApiError 507 ''platform_file_count_limit_reached'')
        else (case probe of
                NoProbe \<Rightarrow> Inr None
              | ProbeFails \<Rightarrow> Inl (ApiError 503 ''storage_capacity_probe_unavailable'')
              | Probe fs \<Rightarrow>
                  (let a = assess_storage_capacity fs object_used_bytes incoming_bytes is_bulk
                        (fs_storage_warning_percent st) (fs_storage_bulk_stop_percent st)
                        (fs_storage_reject_percent st) (fs_storage_object_stop_bytes st)
                   in if sa_allowed a then Inr (Some (sa_level a))
                      else Inl (ApiError 507 (case sa_reason_code a of None \<Rightarrow> ''storage_capacity_rejected''
                             | Some c \<Rightarrow> c)))))"

definition require_kb_editor :: "pipe_db \<Rightarrow> access_context \<Rightarrow> uuid option \<Rightarrow> api_error + unit" where
  "require_kb_editor db access kid =
     (case kid of None \<Rightarrow> Inr ()
      | Some k \<Rightarrow> bind_r (require_knowledge_base_access (v_kb db) access k EDITOR) (\<lambda>_. Inr ()))"

definition reauthorize_upload_finalization ::
    "pipe_db \<Rightarrow> timestamp \<Rightarrow> uuid \<Rightarrow> int \<Rightarrow> api_error + access_context" where
  "reauthorize_upload_finalization db now user_id expected_token_version =
     bind_r (lock_current_access (v_keys db) now user_id (Some expected_token_version)) (\<lambda>(user, current).
       if allows current ''file:upload'' then Inr current else Inl (ApiError 403 ''permission_denied''))"

section \<open>Initiating an upload\<close>

record upload_request =
  iq_filename :: string
  iq_size_bytes :: int
  iq_content_type :: string
  iq_checksum_sha256 :: "string option"
  iq_custom_metadata :: json
  iq_idempotency_key :: string
  iq_knowledge_base_id :: "uuid option"

text \<open>\<open>json.dumps(value, ensure_ascii=False)\<close> with the default separators.\<close>

fun dumps_spaced :: "json \<Rightarrow> string"
  and dumps_spaced_items :: "json list \<Rightarrow> string"
  and dumps_spaced_fields :: "(string \<times> json) list \<Rightarrow> string" where
  "dumps_spaced (JList xs) = ''['' @ dumps_spaced_items xs"
| "dumps_spaced (JObj kvs) = ''{'' @ dumps_spaced_fields kvs"
| "dumps_spaced JNull = json_dumps_utf8 JNull"
| "dumps_spaced (JBool b) = json_dumps_utf8 (JBool b)"
| "dumps_spaced (JInt i) = json_dumps_utf8 (JInt i)"
| "dumps_spaced (JStr t) = json_dumps_utf8 (JStr t)"
| "dumps_spaced_items [] = '']''"
| "dumps_spaced_items (x # xs) = dumps_spaced x @ (if xs = [] then '']'' else '', '' @ dumps_spaced_items xs)"
| "dumps_spaced_fields [] = ''}''"
| "dumps_spaced_fields ((k, v) # kvs) =
     json_dumps_utf8 (JStr k) @ '': '' @ dumps_spaced v @ (if kvs = [] then ''}'' else '', '' @ dumps_spaced_fields kvs)"

record initiate_response =
  ir_upload_session_id :: uuid
  ir_file_id :: uuid
  ir_mode :: string
  ir_expires_at :: timestamp
  ir_part_size_bytes :: int
  ir_part_count :: int
  ir_upload_url :: "string option"
  ir_required_headers :: "(string \<times> string) list"

definition make_initiate_response ::
    "upload_session \<Rightarrow> string option \<Rightarrow> (string \<times> string) list \<Rightarrow> initiate_response" where
  "make_initiate_response upload upload_url required_headers =
     \<lparr>ir_upload_session_id = us_id upload, ir_file_id = us_file_id upload, ir_mode = us_mode upload,
      ir_expires_at = us_expires_at upload, ir_part_size_bytes = us_part_size_bytes upload,
      ir_part_count = us_part_count upload, ir_upload_url = upload_url,
      ir_required_headers = required_headers\<rparr>"

text \<open>
  The first transaction decides: answer with the stored session, sign its single upload again, start its
  multipart upload again, or admit a new session.
\<close>

datatype admission =
    Replayed upload_session
  | Resigned upload_session file_row upload_plan
  | Restarted upload_session file_row upload_plan
  | Admitted upload_session file_row upload_plan

definition replay_admission ::
    "file_settings \<Rightarrow> timestamp \<Rightarrow> validated_upload \<Rightarrow> uuid option \<Rightarrow> upload_session \<Rightarrow> file_row \<Rightarrow>
     api_error + admission" where
  "replay_admission st now validated kid existing existing_file =
     (if f_original_name existing_file \<noteq> vu_filename validated \<or>
         us_expected_size_bytes existing \<noteq> vu_size_bytes validated \<or>
         f_knowledge_base_id existing_file \<noteq> kid
      then Inl (ApiError 409 ''idempotency_conflict'')
      else if us_status existing \<noteq> UPLOAD_INITIATED then Inr (Replayed existing)
      else if us_expires_at existing \<le> now then Inl (ApiError 410 ''upload_expired'')
      else bind_r (map_error (\<lambda>_. unhandled)
             (plan_upload (us_expected_size_bytes existing) (fs_multipart_threshold_bytes st)
                (us_part_size_bytes existing) 10000)) (\<lambda>plan.
           if us_mode existing = mode_value SINGLE then Inr (Resigned existing existing_file plan)
           else if us_storage_upload_id existing = None then Inr (Restarted existing existing_file plan)
           else Inr (Replayed existing)))"

definition new_file ::
    "crypto_ops \<Rightarrow> file_settings \<Rightarrow> timestamp \<Rightarrow> uuid \<Rightarrow> uuid \<Rightarrow> upload_request \<Rightarrow> validated_upload \<Rightarrow> upload_plan \<Rightarrow>
     file_row" where
  "new_file co st now user_id file_id payload validated plan =
     \<lparr>f_id = file_id, f_owner_id = user_id, f_knowledge_base_id = iq_knowledge_base_id payload,
      f_bucket = fs_s3_bucket st,
      f_object_key = object_key co now user_id file_id (vu_extension validated) (up_mode plan),
      f_original_name = vu_filename validated, f_extension = vu_extension validated,
      f_content_type = iq_content_type payload, f_size_bytes = vu_size_bytes validated,
      f_checksum_algorithm =
        (case iq_checksum_sha256 payload of None \<Rightarrow> None | Some c \<Rightarrow> if c = [] then None else Some ''SHA256''),
      f_checksum_value =
        (case iq_checksum_sha256 payload of None \<Rightarrow> None | Some c \<Rightarrow> if c = [] then None else Some (py_lower c)),
      f_status = FILE_UPLOADING, f_knowledge_status = NOT_REQUESTED, f_knowledge_error_code = None,
      f_malware_scan_status = SCAN_PENDING, f_malware_signature = None, f_malware_scan_error_code = None,
      f_malware_scan_started_at = None, f_malware_scanned_at = None, f_malware_scan_lease_id = None,
      f_malware_scan_attempts = 0, f_malware_scan_next_attempt_at = None, f_version = 1,
      f_custom_metadata = iq_custom_metadata payload, f_available_at = None, f_deleted_at = None,
      f_created_at = now\<rparr>"

definition new_upload ::
    "timestamp \<Rightarrow> uuid \<Rightarrow> uuid \<Rightarrow> uuid \<Rightarrow> string \<Rightarrow> int \<Rightarrow> upload_plan \<Rightarrow> upload_session" where
  "new_upload expires_at upload_id file_id user_id key nbytes plan =
     \<lparr>us_id = upload_id, us_file_id = file_id, us_user_id = user_id, us_idempotency_key = key,
      us_mode = mode_value (up_mode plan), us_storage_upload_id = None,
      us_part_size_bytes = up_part_size_bytes plan, us_part_count = up_part_count plan,
      us_expected_size_bytes = nbytes, us_status = UPLOAD_INITIATED, us_expires_at = expires_at,
      us_completed_at = None\<rparr>"

text \<open>Flushing both rows: their primary keys, the object key, the session's file and its idempotency key are unique.\<close>

definition insert_upload :: "file_row \<Rightarrow> upload_session \<Rightarrow> pipe_db \<Rightarrow> api_error + pipe_db" where
  "insert_upload f u db =
     (if (\<exists>x \<in> set (v_files db). f_id x = f_id f \<or> f_object_key x = f_object_key f) \<or>
         (\<exists>x \<in> set (v_uploads db). us_id x = us_id u \<or> us_file_id x = us_file_id u \<or>
            (us_user_id x = us_user_id u \<and> us_idempotency_key x = us_idempotency_key u))
      then Inl unhandled
      else Inr (db\<lparr>v_files := v_files db @ [f], v_uploads := v_uploads db @ [u]\<rparr>))"

definition upload_specs :: "file_settings \<Rightarrow> timestamp \<Rightarrow> access_context \<Rightarrow> int \<Rightarrow> quota_spec list" where
  "upload_specs st now access nbytes =
     (let limit = (\<lambda>k. case ac_limits access k of None \<Rightarrow> Some 0 | Some v \<Rightarrow> v) in
      [\<lparr>qs_key = ''daily_upload_bytes'', qs_amount = nbytes, qs_limit = limit ''daily_upload_bytes'',
        qs_window_start = daily_window_start now\<rparr>,
       \<lparr>qs_key = ''storage_bytes'', qs_amount = nbytes, qs_limit = limit ''storage_bytes'',
        qs_window_start = lifetime_window_start\<rparr>,
       \<lparr>qs_key = ''file_count'', qs_amount = 1,
        qs_limit = Some (effective_count_limit
          (case ac_limits access ''file_count'' of None \<Rightarrow> None | Some v \<Rightarrow> v) (fs_platform_max_files_per_user st)),
        qs_window_start = lifetime_window_start\<rparr>])"

definition admit_new ::
    "crypto_ops \<Rightarrow> file_settings \<Rightarrow> capacity_probe \<Rightarrow> timestamp \<Rightarrow> uuid \<times> uuid \<Rightarrow> access_context \<Rightarrow> upload_request \<Rightarrow>
     validated_upload \<Rightarrow> pipe_db \<Rightarrow> api_error + admission \<times> pipe_db" where
  "admit_new co st probe now ids access payload validated db =
     bind_r (map_error (\<lambda>_. unhandled)
        (plan_upload (vu_size_bytes validated) (fs_multipart_threshold_bytes st)
           (fs_multipart_part_size_bytes st) 10000)) (\<lambda>plan.
     bind_r (enforce_storage_policy st probe (vu_size_bytes validated) (up_mode plan = MULTIPART) db) (\<lambda>_.
     if iq_checksum_sha256 payload \<noteq> None \<and> up_mode plan = MULTIPART
     then Inl (ApiError 422 ''multipart_checksum_not_supported'')
     else
       (let user_id = u_id (ac_user access);
            expires_at = now + hours (fs_upload_session_hours st);
            file = new_file co st now user_id (fst ids) payload validated plan;
            upload = new_upload expires_at (snd ids) (fst ids) user_id (iq_idempotency_key payload)
              (vu_size_bytes validated) plan
        in bind_r (insert_upload file upload db) (\<lambda>db1.
           bind_r (map_error quota_api_error
              (reserve_many user_id (us_id upload) (upload_specs st now access (vu_size_bytes validated)) expires_at
                 (v_quota db1))) (\<lambda>q.
           Inr (Admitted upload file plan, db1\<lparr>v_quota := q\<rparr>))))))"

definition initiate_admit ::
    "crypto_ops \<Rightarrow> file_settings \<Rightarrow> capacity_probe \<Rightarrow> timestamp \<Rightarrow> uuid \<times> uuid \<Rightarrow> access_context \<Rightarrow> upload_request \<Rightarrow>
     pipe_db \<Rightarrow> api_error + admission \<times> pipe_db" where
  "initiate_admit co st probe now ids access payload db =
     (if 16384 < length (dumps_spaced (iq_custom_metadata payload))
      then Inl (ApiError 422 ''metadata_too_large'')
      else
        bind_r (require_kb_editor db access (iq_knowledge_base_id payload)) (\<lambda>_.
        bind_r (map_error (\<lambda>e. case e of FilePolicyViolation m \<Rightarrow>
                    ApiError (if m = ''file exceeds maximum upload size'' then 413 else 422) ''file_policy_violation''
                  | _ \<Rightarrow> unhandled)
           (validate_upload (iq_filename payload) (iq_size_bytes payload)
              (Some (effective_upload_limit
                 (case ac_limits access ''max_upload_bytes'' of None \<Rightarrow> Some 0 | Some v \<Rightarrow> v)
                 (fs_platform_max_upload_bytes st)))
              (fs_allowed_extensions st))) (\<lambda>validated.
        (case find (\<lambda>u. us_user_id u = u_id (ac_user access) \<and> us_idempotency_key u = iq_idempotency_key payload \<and>
                        file_of db (us_file_id u) \<noteq> None) (v_uploads db) of
           Some existing \<Rightarrow>
             bind_r (some_or unhandled (file_of db (us_file_id existing))) (\<lambda>existing_file.
             bind_r (replay_admission st now validated (iq_knowledge_base_id payload) existing existing_file)
               (\<lambda>a. Inr (a, db)))
         | None \<Rightarrow> admit_new co st probe now ids access payload validated db))))"

text \<open>The second transaction keeps the first multipart id a session was given; a later one is redundant.\<close>

definition record_storage_upload ::
    "uuid \<Rightarrow> uuid \<Rightarrow> string option \<Rightarrow> pipe_db \<Rightarrow> api_error + (upload_session \<times> file_row \<times> string option) \<times> pipe_db" where
  "record_storage_upload user_id upload_session_id upload_id db =
     bind_r (owned_upload db upload_session_id user_id) (\<lambda>(persisted, file).
       if us_storage_upload_id persisted = None
       then Inr ((persisted\<lparr>us_storage_upload_id := upload_id\<rparr>, file, None),
                 write_upload (us_id persisted) (\<lambda>u. u\<lparr>us_storage_upload_id := upload_id\<rparr>) db)
       else Inr ((persisted, file, if upload_id \<noteq> us_storage_upload_id persisted then upload_id else None), db))"

definition record_initiated ::
    "crypto_ops \<Rightarrow> timestamp \<Rightarrow> string option \<Rightarrow> uuid \<Rightarrow> uuid \<Rightarrow> string \<Rightarrow> string option \<Rightarrow> pipe_db \<Rightarrow>
     api_error + (upload_session \<times> file_row \<times> string option) \<times> pipe_db" where
  "record_initiated co now request_id user_id upload_session_id mode upload_id db =
     bind_r (record_storage_upload user_id upload_session_id upload_id db) (\<lambda>((persisted, file, redundant), db1).
       Inr ((persisted, file, redundant),
            audit_pipe now ''upload.initiated'' SUCCESS ''file'' (Some user_id) (co_str_uuid co (f_id file)) request_id None
              (JObj [(''size_bytes'', JInt (f_size_bytes file)), (''mode'', JStr mode),
                     (''knowledge_base_id'', case f_knowledge_base_id file of None \<Rightarrow> JNull
                        | Some k \<Rightarrow> JStr (co_str_uuid co k))]) db1))"

text \<open>
  What the store does during one initiation: the answer to \<open>initiate\<close> (\<open>None\<close> is an exception), and whether the
  abort of a redundant multipart upload succeeds.
\<close>

record initiate_replies =
  ii_initiate :: "string option"
  ii_abort :: bool

definition initiate_upload ::
    "crypto_ops \<Rightarrow> file_settings \<Rightarrow> capacity_probe \<Rightarrow> timestamp \<Rightarrow> uuid \<times> uuid \<Rightarrow> string option \<Rightarrow> access_context \<Rightarrow>
     upload_request \<Rightarrow> initiate_replies \<Rightarrow> (pipe_db \<Rightarrow> pipe_db) \<Rightarrow> pipe_db \<Rightarrow> (api_error + initiate_response) \<times> pipe_db" where
  "initiate_upload co st probe now ids request_id access payload replies between db =
     (let sign = (\<lambda>u f plan checksum.
            bind_r (some_or unhandled checksum) (\<lambda>c.
            bind_r (some_or unhandled (ii_initiate replies)) (\<lambda>reply.
            Inr (storage_initiate (up_mode plan) (f_content_type f) (co_str_uuid co (us_id u))
                   (us_expected_size_bytes u) c reply))));
          user_id = u_id (ac_user access)
      in case initiate_admit co st probe now ids access payload db of
           Inl e \<Rightarrow> (Inl e, db)
         | Inr (Replayed u, db1) \<Rightarrow> (Inr (make_initiate_response u None []), db1)
         | Inr (Resigned u f plan, db1) \<Rightarrow>
             (bind_r (sign u f plan (checksum_base64 (f_checksum_value f))) (\<lambda>signed.
                Inr (make_initiate_response u (iu_url signed) (iu_required_headers signed))), db1)
         | Inr (Restarted u f plan, db1) \<Rightarrow>
             (case sign u f plan (Some None) of
                Inl e \<Rightarrow> (Inl e, db1)
              | Inr initiated \<Rightarrow>
                  (let db2 = between db1 in
                   case record_storage_upload user_id (us_id u) (iu_upload_id initiated) db2 of
                     Inl e \<Rightarrow> (Inl e, db2)
                   | Inr ((persisted, _, redundant), db3) \<Rightarrow>
                       if redundant \<noteq> None \<and> \<not> ii_abort replies then (Inl unhandled, db3)
                       else (Inr (make_initiate_response persisted None []), db3)))
         | Inr (Admitted u f plan, db1) \<Rightarrow>
             (case sign u f plan (checksum_base64 (f_checksum_value f)) of
                Inl e \<Rightarrow> (Inl e, db1)
              | Inr initiated \<Rightarrow>
                  (let db2 = between db1 in
                   case record_initiated co now request_id user_id (us_id u) (mode_value (up_mode plan))
                          (iu_upload_id initiated) db2 of
                     Inl e \<Rightarrow> (Inl e, db2)
                   | Inr ((persisted, _, redundant), db3) \<Rightarrow>
                       if redundant \<noteq> None \<and> \<not> ii_abort replies then (Inl unhandled, db3)
                       else (Inr (make_initiate_response persisted (iu_url initiated)
                               (iu_required_headers initiated)), db3))))"

section \<open>Part URLs\<close>

definition truthy :: "string option \<Rightarrow> bool" where
  "truthy v \<longleftrightarrow> v \<noteq> None \<and> v \<noteq> Some []"

record part_url =
  pu_part_number :: int
  pu_url :: string
  pu_size_bytes :: int

definition create_part_urls ::
    "file_settings \<Rightarrow> capacity_probe \<Rightarrow> timestamp \<Rightarrow> access_context \<Rightarrow> (string \<Rightarrow> string \<Rightarrow> int \<Rightarrow> int \<Rightarrow> string) \<Rightarrow>
     uuid \<Rightarrow> int list \<Rightarrow> pipe_db \<Rightarrow> api_error + part_url list \<times> int" where
  "create_part_urls st probe now access sign upload_session_id part_numbers db =
     bind_r (owned_upload db upload_session_id (u_id (ac_user access))) (\<lambda>(upload, file).
     bind_r (require_kb_editor db access (f_knowledge_base_id file)) (\<lambda>_.
     if us_mode upload \<noteq> mode_value MULTIPART \<or> \<not> truthy (us_storage_upload_id upload)
     then Inl (ApiError 409 ''not_multipart'')
     else if us_status upload \<noteq> UPLOAD_INITIATED then Inl (ApiError 409 ''upload_state_conflict'')
     else bind_r (enforce_storage_policy st probe 0 True db) (\<lambda>_.
       if us_status upload = UPLOAD_INITIATED \<and> us_expires_at upload \<le> now
       then Inl (ApiError 410 ''upload_expired'')
       else if \<exists>n \<in> set part_numbers. n < 1 \<or> n > us_part_count upload
       then Inl (ApiError 422 ''invalid_part'')
       else bind_r (some_or unhandled
              (presign_parts (sign (f_object_key file) (the (us_storage_upload_id upload))) part_numbers
                 (us_expected_size_bytes upload) (us_part_size_bytes upload))) (\<lambda>urls.
            Inr (map (\<lambda>(n, p). \<lparr>pu_part_number = n, pu_url = pp_url p, pu_size_bytes = pp_size_bytes p\<rparr>) urls,
                 fs_presigned_url_seconds st)))))"

section \<open>Completing an upload\<close>

record completed_part =
  dp_part_number :: int
  dp_etag :: string
  dp_checksum_sha256 :: "string option"

text \<open>What a completion keeps across the commit that precedes the store.\<close>

record finalization =
  fz_upload_session_id :: uuid
  fz_mode :: string
  fz_source_key :: string
  fz_final_key :: string
  fz_expected_size :: int
  fz_expected_checksum :: "string option"
  fz_storage_upload_id :: "string option"
  fz_actor_id :: uuid
  fz_token_version :: int
  fz_parts :: "completed_part list"

definition complete_parts :: "upload_session \<Rightarrow> completed_part list \<Rightarrow> api_error + completed_part list" where
  "complete_parts upload parts =
     (if us_mode upload = mode_value MULTIPART
      then if sort (map dp_part_number parts) \<noteq> [1..us_part_count upload]
           then Inl (ApiError 422 ''incomplete_parts'')
           else if \<not> truthy (us_storage_upload_id upload) then Inl (ApiError 409 ''missing_upload_id'')
           else Inr (sort_key dp_part_number parts)
      else if parts \<noteq> [] then Inl (ApiError 422 ''unexpected_parts'')
      else Inr [])"

text \<open>
  First transaction: a completed upload answers with its file, an active one becomes \<open>FINALIZING\<close> with at least
  fifteen more minutes.
\<close>

definition complete_begin ::
    "timestamp \<Rightarrow> access_context \<Rightarrow> uuid \<Rightarrow> completed_part list \<Rightarrow> pipe_db \<Rightarrow>
     api_error + (file_row + finalization) \<times> pipe_db" where
  "complete_begin now access upload_session_id parts db =
     bind_r (owned_upload db upload_session_id (u_id (ac_user access))) (\<lambda>(upload, file).
     bind_r (require_kb_editor db access (f_knowledge_base_id file)) (\<lambda>_.
     if us_status upload = UPLOAD_COMPLETED then Inr (Inl file, db)
     else if us_status upload \<notin> {UPLOAD_INITIATED, UPLOAD_FINALIZING}
     then Inl (ApiError 409 ''upload_state_conflict'')
     else if us_status upload = UPLOAD_INITIATED \<and> us_expires_at upload \<le> now
     then Inl (ApiError 410 ''upload_expired'')
     else bind_r (if us_mode upload = mode_value SINGLE then some_or unhandled (final_object_key (f_object_key file))
                  else Inr (f_object_key file)) (\<lambda>final_key.
          bind_r (some_or unhandled (checksum_base64 (f_checksum_value file))) (\<lambda>checksum.
          bind_r (complete_parts upload parts) (\<lambda>ordered.
          Inr (Inr \<lparr>fz_upload_session_id = upload_session_id, fz_mode = us_mode upload,
                     fz_source_key = f_object_key file, fz_final_key = final_key,
                     fz_expected_size = us_expected_size_bytes upload, fz_expected_checksum = checksum,
                     fz_storage_upload_id = us_storage_upload_id upload, fz_actor_id = u_id (ac_user access),
                     fz_token_version = u_token_version (ac_user access), fz_parts = ordered\<rparr>,
               write_upload (us_id upload)
                 (\<lambda>u. u\<lparr>us_status := UPLOAD_FINALIZING,
                         us_expires_at := max (us_expires_at upload) (now + minutes 15)\<rparr>) db))))))"

text \<open>
  The answers of the store to one completion, \<open>None\<close> being a raised client error: \<open>complete_multipart\<close> followed by
  \<open>head\<close>, the two \<open>try_head\<close>s of a single upload, its promotion, and whether the removal of a rejected object works.
\<close>

record completion_replies =
  cr_multipart :: "stored_object option"
  cr_final :: "stored_object option option"
  cr_source :: "stored_object option option"
  cr_promoted :: "stored_object option"
  cr_cleanup :: bool

definition complete_stored :: "finalization \<Rightarrow> completion_replies \<Rightarrow> api_error + stored_object" where
  "complete_stored fz replies =
     (if fz_mode fz = mode_value MULTIPART then some_or unhandled (cr_multipart replies)
      else bind_r (some_or unhandled (cr_final replies)) (\<lambda>final.
        case final of
          Some stored \<Rightarrow> Inr stored
        | None \<Rightarrow>
            bind_r (some_or unhandled (cr_source replies)) (\<lambda>source.
              case source of
                None \<Rightarrow> Inl (ApiError 409 ''stored_object_missing'')
              | Some _ \<Rightarrow> some_or unhandled (cr_promoted replies))))"

definition size_mismatch :: "int \<Rightarrow> stored_object \<Rightarrow> json" where
  "size_mismatch expected stored = JObj [(''expected'', JInt expected), (''actual'', JInt (so_size_bytes stored))]"

text \<open>Why a stored object is refused: error code, audit action and audit details.\<close>

definition completion_rejection :: "finalization \<Rightarrow> stored_object \<Rightarrow> (string \<times> string \<times> json) option" where
  "completion_rejection fz stored =
     (if so_size_bytes stored \<noteq> fz_expected_size fz
      then Some (''uploaded_size_mismatch'', ''upload.rejected_size_mismatch'', size_mismatch (fz_expected_size fz) stored)
      else if fz_expected_checksum fz \<noteq> None \<and> so_checksum_sha256 stored \<noteq> fz_expected_checksum fz
      then Some (''uploaded_checksum_mismatch'', ''upload.rejected_checksum_mismatch'', JObj [])
      else None)"

definition record_finalization_rejection ::
    "crypto_ops \<Rightarrow> timestamp \<Rightarrow> string option \<Rightarrow> access_context \<Rightarrow> uuid \<Rightarrow> string \<Rightarrow> json \<Rightarrow> pipe_db \<Rightarrow>
     api_error + bool \<times> pipe_db" where
  "record_finalization_rejection co now request_id access upload_session_id action details db =
     bind_r (owned_upload db upload_session_id (u_id (ac_user access))) (\<lambda>(upload, file).
     if us_status upload \<noteq> UPLOAD_FINALIZING then Inr (False, db)
     else bind_r (require_kb_editor db access (f_knowledge_base_id file)) (\<lambda>_.
          bind_r (map_error quota_api_error
             (release_upload_reservations (us_id upload) RELEASED (v_quota db))) (\<lambda>q.
          Inr (True,
            audit_pipe now action DENIED ''file'' (Some (u_id (ac_user access))) (co_str_uuid co (f_id file))
              request_id None details
              (write_file (f_id file) (\<lambda>f. f\<lparr>f_status := FILE_FAILED\<rparr>)
                (write_upload (us_id upload) (\<lambda>u. u\<lparr>us_status := UPLOAD_FAILED\<rparr>) (db\<lparr>v_quota := q\<rparr>)))))))"

definition complete_reject ::
    "crypto_ops \<Rightarrow> timestamp \<Rightarrow> string option \<Rightarrow> finalization \<Rightarrow> string \<Rightarrow> json \<Rightarrow> pipe_db \<Rightarrow> api_error + bool \<times> pipe_db" where
  "complete_reject co now request_id fz action details db =
     bind_r (reauthorize_upload_finalization db now (fz_actor_id fz) (fz_token_version fz)) (\<lambda>access.
       record_finalization_rejection co now request_id access (fz_upload_session_id fz) action details db)"

text \<open>Last transaction: re-authorize, re-read, charge the reservation and hand the file to the scanner.\<close>

definition finish_file :: "string \<Rightarrow> stored_object \<Rightarrow> file_row \<Rightarrow> file_row" where
  "finish_file key stored f =
     (let hex = checksum_sha256_base64_to_hex (so_checksum_sha256 stored);
          f1 = f\<lparr>f_object_key := key, f_size_bytes := so_size_bytes stored, f_status := FILE_QUARANTINED\<rparr>
      in if hex \<noteq> None \<and> f_checksum_value f = None
         then f1\<lparr>f_checksum_algorithm := Some ''SHA256'', f_checksum_value := hex\<rparr> else f1)"

definition quarantined_details :: json where
  "quarantined_details = JObj [(''status'', JStr ''quarantined''), (''malware_scan_status'', JStr ''pending'')]"

definition complete_commit ::
    "crypto_ops \<Rightarrow> timestamp \<Rightarrow> string option \<Rightarrow> finalization \<Rightarrow> stored_object \<Rightarrow> pipe_db \<Rightarrow> api_error + file_row \<times> pipe_db" where
  "complete_commit co now request_id fz stored db =
     bind_r (reauthorize_upload_finalization db now (fz_actor_id fz) (fz_token_version fz)) (\<lambda>access.
     bind_r (owned_upload db (fz_upload_session_id fz) (u_id (ac_user access))) (\<lambda>(upload, file).
     if us_status upload = UPLOAD_COMPLETED then Inr (file, db)
     else if us_status upload \<noteq> UPLOAD_FINALIZING then Inl (ApiError 409 ''upload_state_conflict'')
     else bind_r (require_kb_editor db access (f_knowledge_base_id file)) (\<lambda>_.
          bind_r (map_error quota_api_error (consume_upload_reservations (us_id upload) (v_quota db))) (\<lambda>q.
          Inr (finish_file (fz_final_key fz) stored file,
            audit_pipe now ''upload.completed'' SUCCESS ''file'' (Some (u_id (ac_user access)))
              (co_str_uuid co (f_id file)) request_id None quarantined_details
              (write_file (f_id file) (finish_file (fz_final_key fz) stored)
                (write_upload (us_id upload)
                  (\<lambda>u. u\<lparr>us_status := UPLOAD_COMPLETED, us_completed_at := Some now\<rparr>) (db\<lparr>v_quota := q\<rparr>))))))))"

text \<open>
  A failed finalization also removes the object; when the removal itself fails, that exception replaces the error.
  The exceptions are the refusals of the quota service and a lookup that finds no row: those leave at once.
\<close>

definition cleans_up :: "finalization \<Rightarrow> timestamp \<Rightarrow> pipe_db \<Rightarrow> bool" where
  "cleans_up fz now db =
     (case reauthorize_upload_finalization db now (fz_actor_id fz) (fz_token_version fz) of
        Inl _ \<Rightarrow> True
      | Inr access \<Rightarrow>
          (case owned_upload db (fz_upload_session_id fz) (u_id (ac_user access)) of
             Inl _ \<Rightarrow> False
           | Inr (upload, file) \<Rightarrow>
               us_status upload \<noteq> UPLOAD_FINALIZING \<or>
               (case require_kb_editor db access (f_knowledge_base_id file) of Inl _ \<Rightarrow> True | Inr _ \<Rightarrow> False)))"

definition complete_upload ::
    "crypto_ops \<Rightarrow> timestamp \<Rightarrow> timestamp \<Rightarrow> string option \<Rightarrow> access_context \<Rightarrow> uuid \<Rightarrow> completed_part list \<Rightarrow>
     completion_replies \<Rightarrow> (pipe_db \<Rightarrow> pipe_db) \<Rightarrow> pipe_db \<Rightarrow> (api_error + file_row) \<times> pipe_db" where
  "complete_upload co now now' request_id access upload_session_id parts replies between db =
     (case complete_begin now access upload_session_id parts db of
        Inl e \<Rightarrow> (Inl e, db)
      | Inr (Inl file, db1) \<Rightarrow> (Inr file, db1)
      | Inr (Inr fz, db1) \<Rightarrow>
          (case complete_stored fz replies of
             Inl e \<Rightarrow> (Inl e, db1)
           | Inr stored \<Rightarrow>
               (let db2 = between db1 in
                case completion_rejection fz stored of
                  Some (code, action, details) \<Rightarrow>
                    if \<not> cr_cleanup replies then (Inl unhandled, db2)
                    else (case complete_reject co now' request_id fz action details db2 of
                            Inl e \<Rightarrow> (Inl e, db2)
                          | Inr (recorded, db3) \<Rightarrow>
                              (Inl (if recorded then ApiError 422 code else ApiError 409 ''upload_state_conflict''), db3))
                | None \<Rightarrow>
                    (case complete_commit co now' request_id fz stored db2 of
                       Inl e \<Rightarrow> (Inl (if cleans_up fz now' db2 \<and> \<not> cr_cleanup replies then unhandled else e), db2)
                     | Inr (file, db3) \<Rightarrow> (Inr file, db3)))))"

section \<open>Aborting and reading an upload\<close>

datatype abort_claim = AbortDone | AbortStorage uuid string "string option"

definition abort_begin ::
    "timestamp \<Rightarrow> access_context \<Rightarrow> uuid \<Rightarrow> pipe_db \<Rightarrow> api_error + abort_claim \<times> pipe_db" where
  "abort_begin now access upload_session_id db =
     bind_r (owned_upload db upload_session_id (u_id (ac_user access))) (\<lambda>(upload, file).
       if us_status upload = UPLOAD_COMPLETED then Inl (ApiError 409 ''upload_completed'')
       else if us_status upload = UPLOAD_EXPIRED then Inr (AbortDone, db)
       else if us_status upload = UPLOAD_ABORTED \<and> \<not> has_held_upload_reservation db (us_id upload)
       then Inr (AbortDone, db)
       else Inr (AbortStorage (us_id upload) (f_object_key file) (us_storage_upload_id upload),
              if us_status upload \<noteq> UPLOAD_ABORTED
              then write_file (f_id file) (\<lambda>f. f\<lparr>f_status := FILE_FAILED\<rparr>)
                     (write_upload (us_id upload) (\<lambda>u. u\<lparr>us_status := UPLOAD_ABORTED, us_expires_at := now\<rparr>) db)
              else db))"

definition abort_finish ::
    "crypto_ops \<Rightarrow> timestamp \<Rightarrow> string option \<Rightarrow> uuid \<Rightarrow> uuid \<Rightarrow> pipe_db \<Rightarrow> api_error + unit \<times> pipe_db" where
  "abort_finish co now request_id user_id upload_session_id db =
     bind_r (owned_upload db upload_session_id user_id) (\<lambda>(upload, file).
       if \<not> has_held_upload_reservation db (us_id upload) then Inr ((), db)
       else bind_r (map_error quota_api_error
              (release_upload_reservations (us_id upload) RELEASED (v_quota db))) (\<lambda>q.
            Inr ((), audit_pipe now ''upload.aborted'' SUCCESS ''file'' (Some user_id) (co_str_uuid co (f_id file))
                       request_id None (JObj []) (db\<lparr>v_quota := q\<rparr>))))"

definition abort_upload ::
    "crypto_ops \<Rightarrow> timestamp \<Rightarrow> timestamp \<Rightarrow> string option \<Rightarrow> access_context \<Rightarrow> uuid \<Rightarrow> bool \<Rightarrow> (pipe_db \<Rightarrow> pipe_db) \<Rightarrow>
     pipe_db \<Rightarrow> (api_error + unit) \<times> pipe_db" where
  "abort_upload co now now' request_id access upload_session_id storage_ok between db =
     (case abort_begin now access upload_session_id db of
        Inl e \<Rightarrow> (Inl e, db)
      | Inr (AbortDone, db1) \<Rightarrow> (Inr (), db1)
      | Inr (AbortStorage sid key storage_id, db1) \<Rightarrow>
          if \<not> storage_ok then (Inl unhandled, db1)
          else (let db2 = between db1 in
                case abort_finish co now' request_id (u_id (ac_user access)) upload_session_id db2 of
                  Inl e \<Rightarrow> (Inl e, db2)
                | Inr (_, db3) \<Rightarrow> (Inr (), db3)))"

definition get_upload :: "access_context \<Rightarrow> uuid \<Rightarrow> pipe_db \<Rightarrow> api_error + upload_session" where
  "get_upload access upload_session_id db =
     bind_r (owned_upload db upload_session_id (u_id (ac_user access))) (\<lambda>(upload, _). Inr upload)"

section \<open>Reconciling abandoned uploads (maintenance.py)\<close>

definition single_final_object_key :: "string \<Rightarrow> string" where
  "single_final_object_key staging_key =
     (case strip_prefix ''staging/'' staging_key of None \<Rightarrow> staging_key | Some rest \<Rightarrow> ''objects/'' @ rest)"

definition declared_checksum_sha256_base64 :: "file_row \<Rightarrow> string option \<times> bool" where
  "declared_checksum_sha256_base64 file =
     (if f_checksum_algorithm file = None \<and> f_checksum_value file = None then (None, True)
      else (case f_checksum_value file of
              None \<Rightarrow> (None, False)
            | Some v \<Rightarrow>
                if f_checksum_algorithm file \<noteq> Some ''SHA256'' then (None, False)
                else (case fromhex v of
                        None \<Rightarrow> (None, False)
                      | Some checksum \<Rightarrow>
                          if length checksum \<noteq> 32 then (None, False) else (Some (b64encode checksum), True))))"

record cleanup_claim =
  kc_upload_id :: uuid
  kc_file_id :: uuid
  kc_original_status :: upload_session_status
  kc_mode :: string
  kc_object_key :: string
  kc_storage_upload_id :: "string option"
  kc_expected_size_bytes :: int
  kc_expected_checksum_sha256 :: "string option"
  kc_checksum_constraint_valid :: bool

definition cleanup_eligible :: "timestamp \<Rightarrow> pipe_db \<Rightarrow> upload_session \<Rightarrow> bool" where
  "cleanup_eligible now db u \<longleftrightarrow>
     (us_status u \<in> {UPLOAD_INITIATED, UPLOAD_FINALIZING} \<or>
      us_status u \<in> {UPLOAD_ABORTED, UPLOAD_EXPIRED} \<and> has_held_upload_reservation db (us_id u)) \<and>
     us_expires_at u < now \<and> file_of db (us_file_id u) \<noteq> None"

text \<open>An \<open>INITIATED\<close> session expires at once; the lease of fifteen minutes lets a failed clean-up be tried again.\<close>

definition cleanup_claim_upload ::
    "timestamp \<Rightarrow> upload_session \<Rightarrow> file_row \<Rightarrow> pipe_db \<Rightarrow> cleanup_claim \<times> pipe_db" where
  "cleanup_claim_upload now u file db =
     (\<lparr>kc_upload_id = us_id u, kc_file_id = f_id file, kc_original_status = us_status u, kc_mode = us_mode u,
       kc_object_key = f_object_key file, kc_storage_upload_id = us_storage_upload_id u,
       kc_expected_size_bytes = us_expected_size_bytes u,
       kc_expected_checksum_sha256 = fst (declared_checksum_sha256_base64 file),
       kc_checksum_constraint_valid = snd (declared_checksum_sha256_base64 file)\<rparr>,
      write_upload (us_id u)
        (\<lambda>x. x\<lparr>us_status := (if us_status u = UPLOAD_INITIATED then UPLOAD_EXPIRED else us_status u),
                us_expires_at := now + minutes 15\<rparr>) db)"

text \<open>\<open>locked\<close> are the sessions other transactions have locked: \<open>SKIP LOCKED\<close> passes over them.\<close>

definition claim_next :: "timestamp \<Rightarrow> uuid list \<Rightarrow> pipe_db \<Rightarrow> (cleanup_claim \<times> pipe_db) option" where
  "claim_next now locked db =
     (case sort_key us_expires_at
             (filter (\<lambda>u. cleanup_eligible now db u \<and> us_id u \<notin> set locked) (v_uploads db)) of
        [] \<Rightarrow> None
      | u # _ \<Rightarrow> map_option (\<lambda>file. cleanup_claim_upload now u file db) (file_of db (us_file_id u)))"

text \<open>The store's answers to one reconciliation; \<open>None\<close> and \<open>False\<close> are exceptions.\<close>

record cleanup_replies =
  lr_final :: "stored_object option option"
  lr_source :: "stored_object option option"
  lr_promoted :: "stored_object option"
  lr_object :: "stored_object option option"
  lr_remove :: bool
  lr_abort :: bool

definition checksum_refused :: "cleanup_claim \<Rightarrow> stored_object \<Rightarrow> bool" where
  "checksum_refused claim stored \<longleftrightarrow>
     \<not> kc_checksum_constraint_valid claim \<or>
     (kc_expected_checksum_sha256 claim \<noteq> None \<and>
      so_checksum_sha256 stored \<noteq> kc_expected_checksum_sha256 claim)"

definition reconcile_stored :: "cleanup_claim \<Rightarrow> cleanup_replies \<Rightarrow> unit + stored_object option \<times> string" where
  "reconcile_stored claim replies =
     (if kc_mode claim = mode_value SINGLE
      then (let final_key = single_final_object_key (kc_object_key claim) in
        bind_r (some_or () (lr_final replies)) (\<lambda>final.
          case final of
            Some stored \<Rightarrow> Inr (Some stored, final_key)
          | None \<Rightarrow>
              bind_r (some_or () (lr_source replies)) (\<lambda>source.
                case source of
                  None \<Rightarrow> Inr (None, final_key)
                | Some stored \<Rightarrow>
                    if so_size_bytes stored = kc_expected_size_bytes claim \<and> \<not> checksum_refused claim stored
                    then bind_r (some_or () (lr_promoted replies)) (\<lambda>p. Inr (Some p, final_key))
                    else Inr (Some stored, final_key))))
      else bind_r (some_or () (lr_object replies)) (\<lambda>stored. Inr (stored, kc_object_key claim)))"

definition reconcile_rejection :: "cleanup_claim \<Rightarrow> stored_object \<Rightarrow> (string \<times> json) option" where
  "reconcile_rejection claim stored =
     (if so_size_bytes stored \<noteq> kc_expected_size_bytes claim
      then Some (''upload.rejected_size_mismatch'', size_mismatch (kc_expected_size_bytes claim) stored)
      else if checksum_refused claim stored then Some (''upload.rejected_checksum_mismatch'', JObj [])
      else None)"

definition joined_upload :: "pipe_db \<Rightarrow> uuid \<Rightarrow> (upload_session \<times> file_row) option" where
  "joined_upload db sid =
     Option.bind (upload_of db sid) (\<lambda>u. map_option (Pair u) (file_of db (us_file_id u)))"

text \<open>The two transactions that can end a reconciliation. The first value tells whether it published the file.\<close>

definition reconcile_publish ::
    "crypto_ops \<Rightarrow> timestamp \<Rightarrow> cleanup_claim \<Rightarrow> string \<Rightarrow> stored_object \<Rightarrow> pipe_db \<Rightarrow> unit + bool \<times> pipe_db" where
  "reconcile_publish co now claim key stored db =
     (case joined_upload db (kc_upload_id claim) of
        None \<Rightarrow> Inr (False, db)
      | Some (upload, file) \<Rightarrow>
          if us_status upload \<noteq> UPLOAD_FINALIZING then Inr (False, db)
          else bind_r (map_error (\<lambda>_. ()) (consume_upload_reservations (kc_upload_id claim) (v_quota db))) (\<lambda>q.
            Inr (True,
              audit_pipe now ''upload.finalization_reconciled'' SUCCESS ''file'' None (co_str_uuid co (f_id file)) None None
                quarantined_details
                (write_file (f_id file) (\<lambda>f. (finish_file key stored f)\<lparr>f_malware_scan_status := SCAN_PENDING\<rparr>)
                  (write_upload (us_id upload)
                    (\<lambda>u. u\<lparr>us_status := UPLOAD_COMPLETED, us_completed_at := Some now\<rparr>) (db\<lparr>v_quota := q\<rparr>))))))"

definition reconcile_release ::
    "crypto_ops \<Rightarrow> timestamp \<Rightarrow> cleanup_claim \<Rightarrow> (string \<times> json) option \<Rightarrow> pipe_db \<Rightarrow> unit + pipe_db" where
  "reconcile_release co now claim rejection db =
     (case joined_upload db (kc_upload_id claim) of
        None \<Rightarrow> Inr db
      | Some (upload, file) \<Rightarrow>
          if us_status upload = UPLOAD_COMPLETED then Inr db
          else
            (let aborted = (kc_original_status claim = UPLOAD_ABORTED \<or> us_status upload = UPLOAD_ABORTED);
                 failed = (kc_original_status claim = UPLOAD_FINALIZING \<and> rejection \<noteq> None)
             in bind_r (map_error (\<lambda>_. ()) (release_upload_reservations (kc_upload_id claim)
                   (if aborted \<or> failed then RELEASED else EXPIRED) (v_quota db))) (\<lambda>q.
                Inr (audit_pipe now
                  (if aborted then ''upload.abort_reconciled''
                   else case rejection of None \<Rightarrow> ''upload.expired'' | Some (action, _) \<Rightarrow> action)
                  (if failed then DENIED else SUCCESS) ''file'' None (co_str_uuid co (f_id file)) None None
                  (case rejection of None \<Rightarrow> JObj [] | Some (_, details) \<Rightarrow> details)
                  (write_file (f_id file) (\<lambda>f. f\<lparr>f_status := FILE_FAILED\<rparr>)
                    (write_upload (us_id upload)
                      (\<lambda>u. u\<lparr>us_status := (if aborted then UPLOAD_ABORTED else if failed then UPLOAD_FAILED
                                            else UPLOAD_EXPIRED)\<rparr>) (db\<lparr>v_quota := q\<rparr>)))))))"

text \<open>What the store decides for a claim: an exception, an object to publish, or a release with its reason.\<close>

datatype reconcile_action = Publish string stored_object | Release "(string \<times> json) option"

definition reconcile_verdict :: "cleanup_claim \<Rightarrow> cleanup_replies \<Rightarrow> unit + reconcile_action" where
  "reconcile_verdict claim replies =
     (if kc_original_status claim = UPLOAD_FINALIZING
      then bind_r (reconcile_stored claim replies) (\<lambda>(stored, key).
        case stored of
          None \<Rightarrow> Inr (Release None)
        | Some obj \<Rightarrow>
            (case reconcile_rejection claim obj of
               None \<Rightarrow> Inr (Publish key obj)
             | Some r \<Rightarrow> if lr_remove replies then Inr (Release (Some r)) else Inl ()))
      else Inr (Release None))"

definition reconcile_one ::
    "crypto_ops \<Rightarrow> timestamp \<Rightarrow> cleanup_claim \<Rightarrow> cleanup_replies \<Rightarrow> pipe_db \<Rightarrow> (unit + unit) \<times> pipe_db" where
  "reconcile_one co now claim replies db =
     (case reconcile_verdict claim replies of
        Inl _ \<Rightarrow> (Inl (), db)
      | Inr (Publish key obj) \<Rightarrow>
          (case reconcile_publish co now claim key obj db of
             Inl _ \<Rightarrow> (Inl (), db)
           | Inr (published, db1) \<Rightarrow> (if published \<or> lr_remove replies then Inr () else Inl (), db1))
      | Inr (Release rejection) \<Rightarrow>
          if (truthy (kc_storage_upload_id claim) \<or> strip_prefix ''staging/'' (kc_object_key claim) \<noteq> None) \<and>
             \<not> lr_abort replies
          then (Inl (), db)
          else (case reconcile_release co now claim rejection db of
                  Inl _ \<Rightarrow> (Inl (), db) | Inr db1 \<Rightarrow> (Inr (), db1)))"

text \<open>One pass of the loop: the clock and the locks at the claim, the store, and what others commit meanwhile.\<close>

record cleanup_turn =
  lt_now :: timestamp
  lt_locked :: "uuid list"
  lt_replies :: cleanup_replies
  lt_between :: "pipe_db \<Rightarrow> pipe_db"
  lt_then :: timestamp

fun cleanup_uploads_loop :: "crypto_ops \<Rightarrow> (nat \<Rightarrow> cleanup_turn) \<Rightarrow> nat \<Rightarrow> nat \<Rightarrow> pipe_db \<Rightarrow> (unit + nat) \<times> pipe_db" where
  "cleanup_uploads_loop co turns 0 processed db = (Inr processed, db)"
| "cleanup_uploads_loop co turns (Suc left) processed db =
     (let t = turns processed in
      case claim_next (lt_now t) (lt_locked t) db of
        None \<Rightarrow> (Inr processed, db)
      | Some (claim, db1) \<Rightarrow>
          (case reconcile_one co (lt_then t) claim (lt_replies t) (lt_between t db1) of
             (Inl _, db2) \<Rightarrow> (Inl (), db2)
           | (Inr _, db2) \<Rightarrow> cleanup_uploads_loop co turns left (Suc processed) db2))"

definition cleanup_expired_uploads ::
    "crypto_ops \<Rightarrow> (nat \<Rightarrow> cleanup_turn) \<Rightarrow> nat \<Rightarrow> pipe_db \<Rightarrow> (unit + nat) \<times> pipe_db" where
  "cleanup_expired_uploads co turns batch_size db = cleanup_uploads_loop co turns batch_size 0 db"

text \<open>
  A session that another request completed after the claim is not published again; but the same answer makes
  \<open>reconcile_one\<close> remove the published object, which the completed file now needs.
\<close>

lemma reconcile_discards_completed:
  assumes "joined_upload db (kc_upload_id claim) = Some (u, f)" "us_status u = UPLOAD_COMPLETED"
    and "reconcile_verdict claim replies = Inr (Publish key obj)"
  shows "reconcile_publish co now claim key obj db = Inr (False, db)"
    "reconcile_one co now claim replies db = (if lr_remove replies then Inr () else Inl (), db)"
  using assms by (simp_all add: reconcile_publish_def reconcile_one_def)

end
