(* ===== verification/Ingestion.thy ===== *)
theory Ingestion
  imports Uploads
begin

text \<open>
  What happens to a file after its upload: the malware scan with its leases
  (\<open>_claim_next_malware_scan\<close> and \<open>process_malware_scan_batch\<close> in \<open>src/app/maintenance.py\<close>), the hand-off to the
  OKF conversion (\<open>enqueue_okf_conversion\<close>), approval, conversion status and retry, listing and download
  (\<open>src/app/api/v1/routes/files.py\<close>). ClamAV's verdict is an argument.
\<close>

section \<open>Hand-off to the conversion\<close>

definition prompt_version :: string where
  "prompt_version = ''okf-phase1-v1''"

definition job_of_version :: "pipe_db \<Rightarrow> uuid \<Rightarrow> int \<Rightarrow> okf_conversion_job option" where
  "job_of_version db fid version = find (\<lambda>j. oj_file_id j = fid \<and> oj_file_version j = version) (v_jobs db)"

definition new_job :: "timestamp \<Rightarrow> uuid \<Rightarrow> file_row \<Rightarrow> uuid \<Rightarrow> okf_conversion_job" where
  "new_job now jid file kid =
     \<lparr>oj_id = jid, oj_file_id = f_id file, oj_knowledge_base_id = kid, oj_file_version = f_version file,
      oj_status = OKF_PENDING, oj_attempts = 0, oj_retry_generation = 0, oj_model = None,
      oj_prompt_version = prompt_version, oj_output_entry_id = None, oj_error_code = None,
      oj_next_attempt_at = None, oj_locked_at = None, oj_lease_id = None, oj_completed_at = None,
      oj_created_at = now\<rparr>"

text \<open>The job's primary key is fresh; a clash is an integrity error, \<open>Inl ()\<close>.\<close>

definition enqueue_okf_conversion ::
    "timestamp \<Rightarrow> uuid \<Rightarrow> file_row \<Rightarrow> pipe_db \<Rightarrow> unit + okf_conversion_job option \<times> pipe_db" where
  "enqueue_okf_conversion now jid file db =
     (case f_knowledge_base_id file of
        None \<Rightarrow> Inr (None, db)
      | Some kid \<Rightarrow>
          (case job_of_version db (f_id file) (f_version file) of
             Some existing \<Rightarrow> Inr (Some existing, db)
           | None \<Rightarrow>
               if \<exists>j \<in> set (v_jobs db). oj_id j = jid then Inl ()
               else (let job = new_job now jid file kid
                     in Inr (Some job,
                          write_file (f_id file)
                            (\<lambda>f. f\<lparr>f_knowledge_status := INGEST_PENDING, f_knowledge_error_code := None\<rparr>)
                            (db\<lparr>v_jobs := v_jobs db @ [job]\<rparr>)))))"

section \<open>Malware scanning\<close>

record scan_claim =
  sc_file_id :: uuid
  sc_lease_id :: uuid
  sc_object_key :: string

definition scan_due :: "timestamp \<Rightarrow> file_row \<Rightarrow> bool" where
  "scan_due now f \<longleftrightarrow>
     f_status f = FILE_QUARANTINED \<and>
     ((f_malware_scan_status f = SCAN_PENDING \<and>
       (case f_malware_scan_next_attempt_at f of None \<Rightarrow> True | Some t \<Rightarrow> t \<le> now)) \<or>
      (f_malware_scan_status f = SCAN_PROCESSING \<and>
       (case f_malware_scan_next_attempt_at f of None \<Rightarrow> False | Some t \<Rightarrow> t \<le> now)))"

definition claim_scan_row :: "timestamp \<Rightarrow> int \<Rightarrow> uuid \<Rightarrow> file_row \<Rightarrow> file_row" where
  "claim_scan_row now reclaim_seconds lease f =
     f\<lparr>f_malware_scan_status := SCAN_PROCESSING, f_malware_scan_started_at := Some now,
       f_malware_scan_next_attempt_at := Some (now + seconds reclaim_seconds),
       f_malware_scan_lease_id := Some lease, f_malware_scan_attempts := f_malware_scan_attempts f + 1,
       f_malware_scanned_at := None, f_malware_signature := None, f_malware_scan_error_code := None\<rparr>"

definition claim_next_malware_scan ::
    "crypto_ops \<Rightarrow> timestamp \<Rightarrow> int \<Rightarrow> uuid list \<Rightarrow> uuid \<Rightarrow> pipe_db \<Rightarrow> (scan_claim \<times> pipe_db) option" where
  "claim_next_malware_scan co now reclaim_seconds locked lease db =
     (case sort_key f_created_at (filter (\<lambda>f. scan_due now f \<and> f_id f \<notin> set locked) (v_files db)) of
        [] \<Rightarrow> None
      | f # _ \<Rightarrow>
          Some (\<lparr>sc_file_id = f_id f, sc_lease_id = lease, sc_object_key = f_object_key f\<rparr>,
            audit_pipe now ''file.malware_scan.started'' SUCCESS ''file'' None (co_str_uuid co (f_id f)) None None
              (JObj [(''attempt'', JInt (f_malware_scan_attempts f + 1))])
              (write_file (f_id f) (claim_scan_row now reclaim_seconds lease) db)))"

datatype scan_outcome = ScanClean | ScanInfected "string option" | ScanFailed string

definition scan_current :: "scan_claim \<Rightarrow> file_row \<Rightarrow> bool" where
  "scan_current claim f \<longleftrightarrow>
     f_id f = sc_file_id claim \<and> f_status f = FILE_QUARANTINED \<and> f_malware_scan_status f = SCAN_PROCESSING \<and>
     f_malware_scan_lease_id f = Some (sc_lease_id claim) \<and> f_object_key f = sc_object_key claim"

definition scanned_row :: "timestamp \<Rightarrow> scan_outcome \<Rightarrow> file_row \<Rightarrow> file_row" where
  "scanned_row now outcome f =
     (let g = f\<lparr>f_malware_scanned_at := Some now, f_malware_scan_lease_id := None,
               f_malware_scan_next_attempt_at := None\<rparr>
      in case outcome of
           ScanClean \<Rightarrow> g\<lparr>f_malware_scan_status := SCAN_CLEAN, f_status := FILE_PROCESSING\<rparr>
         | ScanInfected signature \<Rightarrow>
             g\<lparr>f_malware_scan_status := SCAN_INFECTED, f_malware_signature := signature,
               f_malware_scan_error_code := Some ''malware_detected'', f_status := FILE_QUARANTINED\<rparr>
         | ScanFailed code \<Rightarrow>
             g\<lparr>f_malware_scan_status := SCAN_ERROR,
               f_malware_scan_error_code := Some (if code = [] then ''scanner_error'' else code),
               f_status := FILE_QUARANTINED\<rparr>)"

text \<open>The transaction after the scan. \<open>jid\<close> is the id a new conversion job would get.\<close>

definition finish_malware_scan ::
    "crypto_ops \<Rightarrow> timestamp \<Rightarrow> uuid \<Rightarrow> scan_claim \<Rightarrow> scan_outcome \<Rightarrow> pipe_db \<Rightarrow> unit + pipe_db" where
  "finish_malware_scan co now jid claim outcome db =
     (case find (scan_current claim) (v_files db) of
        None \<Rightarrow> Inr db
      | Some file \<Rightarrow>
          (let row = scanned_row now outcome file;
               db1 = write_file (f_id file) (scanned_row now outcome) db;
               note = (\<lambda>action result details. audit_pipe now action result ''file'' None (co_str_uuid co (f_id file)) None None details)
           in case outcome of
                ScanClean \<Rightarrow>
                  bind_r (enqueue_okf_conversion now jid row db1) (\<lambda>(conversion, db2).
                    let db3 = note ''file.malware_scan.clean'' SUCCESS (JObj []) db2
                    in Inr (case conversion of
                         None \<Rightarrow> db3
                       | Some job \<Rightarrow>
                           audit_pipe now ''okf.conversion_queued'' SUCCESS ''okf_conversion_job'' None
                             (co_str_uuid co (oj_id job)) None None
                             (JObj [(''file_id'', JStr (co_str_uuid co (f_id file)))]) db3))
              | ScanInfected signature \<Rightarrow>
                  Inr (note ''file.malware_scan.infected'' FAILURE
                    (JObj [(''signature'', case signature of None \<Rightarrow> JNull | Some t \<Rightarrow> JStr t)]) db1)
              | ScanFailed code \<Rightarrow>
                  Inr (note ''file.malware_scan.failed_closed'' FAILURE
                    (JObj [(''error_code'', JStr (if code = [] then ''scanner_error'' else code))]) db1)))"

record scan_turn =
  tn_now :: timestamp
  tn_locked :: "uuid list"
  tn_lease :: uuid
  tn_outcome :: scan_outcome
  tn_between :: "pipe_db \<Rightarrow> pipe_db"
  tn_then :: timestamp
  tn_job_id :: uuid

fun scan_loop :: "crypto_ops \<Rightarrow> int \<Rightarrow> (nat \<Rightarrow> scan_turn) \<Rightarrow> nat \<Rightarrow> nat \<Rightarrow> pipe_db \<Rightarrow> (unit + nat) \<times> pipe_db" where
  "scan_loop co reclaim_seconds turns 0 processed db = (Inr processed, db)"
| "scan_loop co reclaim_seconds turns (Suc left) processed db =
     (let t = turns processed in
      case claim_next_malware_scan co (tn_now t) reclaim_seconds (tn_locked t) (tn_lease t) db of
        None \<Rightarrow> (Inr processed, db)
      | Some (claim, db1) \<Rightarrow>
          (let db2 = tn_between t db1 in
           case finish_malware_scan co (tn_then t) (tn_job_id t) claim (tn_outcome t) db2 of
             Inl _ \<Rightarrow> (Inl (), db2)
           | Inr db3 \<Rightarrow> scan_loop co reclaim_seconds turns left (Suc processed) db3))"

definition process_malware_scan_batch ::
    "crypto_ops \<Rightarrow> int \<Rightarrow> (nat \<Rightarrow> scan_turn) \<Rightarrow> nat \<Rightarrow> pipe_db \<Rightarrow> (unit + nat) \<times> pipe_db" where
  "process_malware_scan_batch co reclaim_seconds turns batch_size db = scan_loop co reclaim_seconds turns batch_size 0 db"

section \<open>Conversion status and retry\<close>

definition okf_conversion_not_found :: api_error where
  "okf_conversion_not_found = ApiError 404 ''okf_conversion_not_found''"

text \<open>The newest version's job that still has its file.\<close>

definition latest_job :: "pipe_db \<Rightarrow> uuid \<Rightarrow> (okf_conversion_job \<times> file_row) option" where
  "latest_job db fid =
     (case file_of db fid of
        None \<Rightarrow> None
      | Some file \<Rightarrow>
          (case sort_key (\<lambda>j. - oj_file_version j) (filter (\<lambda>j. oj_file_id j = fid) (v_jobs db)) of
             [] \<Rightarrow> None | j # _ \<Rightarrow> Some (j, file)))"

definition get_okf_conversion :: "access_context \<Rightarrow> uuid \<Rightarrow> pipe_db \<Rightarrow> api_error + okf_conversion_job" where
  "get_okf_conversion access fid db =
     bind_r (some_or okf_conversion_not_found (latest_job db fid)) (\<lambda>(conversion, file).
       if allows access ''file:read:any'' then Inr conversion
       else (case f_knowledge_base_id file of
               None \<Rightarrow> if f_owner_id file \<noteq> u_id (ac_user access) then Inl okf_conversion_not_found else Inr conversion
             | Some kid \<Rightarrow>
                 bind_r (require_knowledge_base_access (v_kb db) access kid READER) (\<lambda>_. Inr conversion)))"

definition write_job :: "uuid \<Rightarrow> (okf_conversion_job \<Rightarrow> okf_conversion_job) \<Rightarrow> pipe_db \<Rightarrow> pipe_db" where
  "write_job jid f db = db\<lparr>v_jobs := update_where (\<lambda>j. oj_id j = jid) f (v_jobs db)\<rparr>"

definition retried_job :: "okf_conversion_job \<Rightarrow> okf_conversion_job" where
  "retried_job j =
     j\<lparr>oj_status := OKF_PENDING, oj_attempts := 0, oj_retry_generation := oj_retry_generation j + 1,
       oj_error_code := None, oj_next_attempt_at := None, oj_locked_at := None, oj_lease_id := None,
       oj_completed_at := None\<rparr>"

definition retry_okf_conversion ::
    "crypto_ops \<Rightarrow> timestamp \<Rightarrow> string option \<Rightarrow> access_context \<Rightarrow> uuid \<Rightarrow> pipe_db \<Rightarrow>
     api_error + okf_conversion_job \<times> pipe_db" where
  "retry_okf_conversion co now request_id access fid db =
     bind_r (some_or okf_conversion_not_found (latest_job db fid)) (\<lambda>(conversion, file).
     bind_r (require_knowledge_base_access (v_kb db) access (oj_knowledge_base_id conversion) MANAGER) (\<lambda>_.
       if f_status file \<noteq> FILE_PROCESSING then Inl (ApiError 409 ''okf_retry_file_state_conflict'')
       else if oj_status conversion \<notin> {OKF_FAILED, OKF_UNSUPPORTED}
       then Inl (ApiError 409 ''okf_conversion_state_conflict'')
       else Inr (retried_job conversion,
              audit_pipe now ''okf.conversion_retried'' SUCCESS ''okf_conversion_job'' (Some (u_id (ac_user access)))
                (co_str_uuid co (oj_id conversion)) request_id None (JObj [])
                (write_file (f_id file) (\<lambda>f. f\<lparr>f_knowledge_status := INGEST_PENDING, f_knowledge_error_code := None\<rparr>)
                  (write_job (oj_id conversion) retried_job db)))))"

section \<open>Approval\<close>

text \<open>
  Publishing an entry fires the trigger on \<open>knowledge_entries\<close>: the content version of its knowledge base rises.
\<close>

definition bump_content_version :: "uuid \<Rightarrow> pipe_db \<Rightarrow> pipe_db" where
  "bump_content_version kid db =
     db\<lparr>v_keys := (v_keys db)\<lparr>x_kb := (x_kb (v_keys db))\<lparr>k_bases :=
        update_where (\<lambda>kb. kb_id kb = kid) (\<lambda>kb. kb\<lparr>kb_content_version := kb_content_version kb + 1\<rparr>)
          (k_bases (x_kb (v_keys db)))\<rparr>\<rparr>\<rparr>"

definition write_entry :: "uuid \<Rightarrow> (knowledge_entry \<Rightarrow> knowledge_entry) \<Rightarrow> pipe_db \<Rightarrow> pipe_db" where
  "write_entry eid f db =
     db\<lparr>v_keys := (v_keys db)\<lparr>x_kb := (x_kb (v_keys db))\<lparr>k_entries :=
        update_where (\<lambda>e. ke_id e = eid) f (k_entries (x_kb (v_keys db)))\<rparr>\<rparr>\<rparr>"

definition publish_entry :: "timestamp \<Rightarrow> knowledge_entry \<Rightarrow> pipe_db \<Rightarrow> pipe_db" where
  "publish_entry now entry db =
     (let db1 = write_entry (ke_id entry) (\<lambda>e. e\<lparr>ke_publication_status := PUBLISHED, ke_updated_at := now\<rparr>) db
      in if ke_deleted_at entry = None then bump_content_version (ke_knowledge_base_id entry) db1 else db1)"

definition approval_entry :: "pipe_db \<Rightarrow> file_row \<Rightarrow> api_error + knowledge_entry" where
  "approval_entry db file =
     (case job_of_version db (f_id file) (f_version file) of
        None \<Rightarrow> Inl (ApiError 409 ''okf_conversion_not_completed'')
      | Some conversion \<Rightarrow>
          if oj_status conversion \<noteq> OKF_SUCCEEDED then Inl (ApiError 409 ''okf_conversion_not_completed'')
          else (case oj_output_entry_id conversion of
                  None \<Rightarrow> Inl (ApiError 409 ''okf_conversion_result_missing'')
                | Some eid \<Rightarrow>
                    some_or (ApiError 409 ''okf_conversion_result_missing'')
                      (find (\<lambda>e. ke_id e = eid \<and> ke_source_file_id e = Some (f_id file) \<and>
                                 ke_publication_status e = DRAFT) (k_entries (v_kb db)))))"

definition may_approve :: "pipe_db \<Rightarrow> access_context \<Rightarrow> file_row \<Rightarrow> api_error + unit" where
  "may_approve db access file =
     (case f_knowledge_base_id file of
        Some kid \<Rightarrow> bind_r (require_knowledge_base_access (v_kb db) access kid MANAGER) (\<lambda>_. Inr ())
      | None \<Rightarrow>
          if f_owner_id file \<noteq> u_id (ac_user access) \<and> \<not> u_is_superuser (ac_user access) \<and>
             ''file:approve:any'' \<notin> set (ac_permissions access)
          then Inl (ApiError 404 ''file_not_found'') else Inr ())"

definition approved_row :: "timestamp \<Rightarrow> file_row \<Rightarrow> file_row" where
  "approved_row now f =
     f\<lparr>f_status := FILE_AVAILABLE, f_available_at := Some now, f_knowledge_status := INDEXED,
       f_knowledge_error_code := None\<rparr>"

definition approve_processed_file ::
    "crypto_ops \<Rightarrow> timestamp \<Rightarrow> string option \<Rightarrow> access_context \<Rightarrow> uuid \<Rightarrow> pipe_db \<Rightarrow> api_error + file_row \<times> pipe_db" where
  "approve_processed_file co now request_id access fid db =
     bind_r (some_or (ApiError 404 ''file_not_found'') (file_of db fid)) (\<lambda>file.
     bind_r (may_approve db access file) (\<lambda>_.
       if f_malware_scan_status file \<noteq> SCAN_CLEAN then Inl (ApiError 409 ''malware_scan_not_clean'')
       else if f_status file \<noteq> FILE_PROCESSING then Inl (ApiError 409 ''file_state_conflict'')
       else bind_r (approval_entry db file) (\<lambda>entry.
         Inr (approved_row now file,
              audit_pipe now ''file.approved'' SUCCESS ''file'' (Some (u_id (ac_user access))) (co_str_uuid co (f_id file))
                request_id None (JObj [])
                (publish_entry now entry (write_file (f_id file) (approved_row now) db))))))"

section \<open>Download and listing\<close>

record download_grant =
  dg_url :: string
  dg_expires_in :: int

definition create_download_grant ::
    "crypto_ops \<Rightarrow> file_settings \<Rightarrow> timestamp \<Rightarrow> string option \<Rightarrow> string option \<Rightarrow> access_context \<Rightarrow>
     (string \<Rightarrow> string \<Rightarrow> string) \<Rightarrow> uuid \<Rightarrow> pipe_db \<Rightarrow> api_error + download_grant \<times> pipe_db" where
  "create_download_grant co st now request_id ip access presign fid db =
     bind_r (some_or (ApiError 404 ''file_not_found'')
        (find (\<lambda>f. f_id f = fid \<and> f_deleted_at f = None) (v_files db))) (\<lambda>file.
     bind_r (if allows access ''file:read:any'' then Inr ()
             else (case f_knowledge_base_id file of
                     Some kid \<Rightarrow> bind_r (require_knowledge_base_access (v_kb db) access kid READER) (\<lambda>_. Inr ())
                   | None \<Rightarrow> if f_owner_id file \<noteq> u_id (ac_user access)
                             then Inl (ApiError 403 ''permission_denied'') else Inr ())) (\<lambda>_.
       if f_malware_scan_status file \<noteq> SCAN_CLEAN then Inl (ApiError 409 ''malware_scan_not_clean'')
       else if f_status file \<noteq> FILE_AVAILABLE then Inl (ApiError 409 ''file_not_available'')
       else bind_r (map_error quota_api_error
              (consume (u_id (ac_user access)) ''daily_downloads'' 1
                 (case ac_limits access ''daily_downloads'' of None \<Rightarrow> Some 0 | Some v \<Rightarrow> v)
                 (daily_window_start now) (v_quota db))) (\<lambda>q.
            Inr (\<lparr>dg_url = presign (f_object_key file) (f_original_name file),
                  dg_expires_in = min (fs_presigned_url_seconds st) 300\<rparr>,
                 audit_pipe now ''file.download_grant.issued'' SUCCESS ''file'' (Some (u_id (ac_user access)))
                   (co_str_uuid co (f_id file)) request_id ip (JObj []) (db\<lparr>v_quota := q\<rparr>)))))"

definition file_visible :: "pipe_db \<Rightarrow> access_context \<Rightarrow> file_row \<Rightarrow> bool" where
  "file_visible db access f \<longleftrightarrow>
     f_deleted_at f = None \<and>
     (allows access ''file:read:any'' \<or>
      (f_knowledge_base_id f = None \<and> f_owner_id f = u_id (ac_user access)) \<or>
      (\<exists>kb \<in> set (k_bases (v_kb db)). Some (kb_id kb) = f_knowledge_base_id f \<and> kb_owner_id kb = u_id (ac_user access)) \<or>
      (ac_role_ids access \<noteq> [] \<and>
       (\<exists>g \<in> set (k_grants (v_kb db)). Some (kg_knowledge_base_id g) = f_knowledge_base_id f \<and>
          kg_role_id g \<in> set (ac_role_ids access))))"

text \<open>\<open>ILIKE\<close> on the escaped search term is a case-insensitive substring test.\<close>

definition list_files ::
    "access_context \<Rightarrow> nat \<Rightarrow> nat \<Rightarrow> string option \<Rightarrow> pipe_db \<Rightarrow> file_row list" where
  "list_files access limit offset search db =
     (let q = (case search of None \<Rightarrow> [] | Some t \<Rightarrow> py_strip t)
      in take limit (drop offset (sort_key (\<lambda>f. - f_created_at f) (sort_key f_id
           (filter (\<lambda>f. file_visible db access f \<and> (q = [] \<or> icontains (f_original_name f) q)) (v_files db))))))"

end
