(* ===== verification/Okf_Conversion.thy ===== *)
theory Okf_Conversion
  imports Ingestion
begin

text \<open>
  The conversion worker (\<open>src/app/services/okf_conversion.py\<close>) and the egress authorization it asks for
  (\<open>external_llm_egress_allowed\<close> in \<open>src/app/services/llm_egress_policy.py\<close>). A job is claimed under a lease; parsing
  and the model run outside every transaction; each transaction that ends a job repeats the lease in its
  predicate. The object store, the document parser and the model are arguments, and so is what others commit
  while the worker waits for them. The governed call is \<open>compile_okf\<close> of the usage ledger.
\<close>

section \<open>Text\<close>

definition uni :: "string \<Rightarrow> unicode" where
  "uni s = map of_char s"

definition uni_isspace :: "nat \<Rightarrow> bool" where
  "uni_isspace c \<longleftrightarrow> (9 \<le> c \<and> c \<le> 13) \<or> (28 \<le> c \<and> c \<le> 32) \<or> c = 133 \<or> c = 160 \<or> c = 5760 \<or>
     (8192 \<le> c \<and> c \<le> 8202) \<or> c = 8232 \<or> c = 8233 \<or> c = 8239 \<or> c = 8287 \<or> c = 12288"

definition strip_with :: "('a \<Rightarrow> bool) \<Rightarrow> 'a list \<Rightarrow> 'a list" where
  "strip_with p s = rev (dropWhile p (rev (dropWhile p s)))"

definition utf8_char :: "nat \<Rightarrow> string" where
  "utf8_char c =
     (if c < 128 then [char_of c]
      else if c < 2048 then [char_of (192 + c div 64), char_of (128 + c mod 64)]
      else if c < 65536
      then [char_of (224 + c div 4096), char_of (128 + c div 64 mod 64), char_of (128 + c mod 64)]
      else [char_of (240 + c div 262144), char_of (128 + c div 4096 mod 64), char_of (128 + c div 64 mod 64),
            char_of (128 + c mod 64)])"

definition utf8_text :: "unicode \<Rightarrow> string" where
  "utf8_text s = concat (map utf8_char s)"

definition slug_char :: "nat \<Rightarrow> bool" where
  "slug_char c \<longleftrightarrow> (97 \<le> c \<and> c \<le> 122) \<or> (65 \<le> c \<and> c \<le> 90) \<or> (48 \<le> c \<and> c \<le> 57) \<or> (19968 \<le> c \<and> c \<le> 40959)"

fun slug_runs :: "unicode \<Rightarrow> unicode" where
  "slug_runs [] = []"
| "slug_runs (c # cs) =
     (if slug_char c then c # slug_runs cs
      else (case cs of d # _ \<Rightarrow> if slug_char d then 45 # slug_runs cs else slug_runs cs | [] \<Rightarrow> [45]))"

definition slug :: "unicode \<Rightarrow> unicode" where
  "slug value =
     (let normalized = map (\<lambda>c. if 65 \<le> c \<and> c \<le> 90 then c + 32 else c) (strip_with (\<lambda>c. c = 45) (slug_runs value))
      in take 120 (if normalized = [] then uni ''concept'' else normalized))"

text \<open>\<open>now.isoformat().replace("+00:00", "Z")\<close>\<close>

definition iso_utc :: "timestamp \<Rightarrow> string" where
  "iso_utc now =
     (let two = (\<lambda>n. zero_pad 2 (int_str n)); ym = year_month now; s = now mod day_length div 1000000; us = now mod 1000000
      in zero_pad 4 (int_str (fst ym)) @ ''-'' @ two (snd ym) @ ''-'' @ two (day_of_month (now div day_length)) @ ''T'' @
         two (s div 3600) @ '':'' @ two (s div 60 mod 60) @ '':'' @ two (s mod 60) @
         (if us = 0 then [] else ''.'' @ zero_pad 6 (int_str us)) @ ''Z'')"

section \<open>Egress authorization (llm\_egress\_policy.py)\<close>

definition external_llm_egress_allowed ::
    "crypto_ops \<Rightarrow> timestamp \<Rightarrow> uuid \<Rightarrow> uuid \<Rightarrow> uuid option \<Rightarrow> string option \<Rightarrow> kb_access_level \<Rightarrow> keys_db \<Rightarrow> bool" where
  "external_llm_egress_allowed co now user_id kid api_key_id required_permission minimum_access db =
     (case find_user (x_auth db) user_id of
        None \<Rightarrow> False
      | Some user \<Rightarrow>
          if \<not> active_user user then False
          else (let current = resolve (x_rbac db) now user in
            if (case required_permission of None \<Rightarrow> False | Some p \<Rightarrow> \<not> allows current p) then False
            else (case require_knowledge_base_access (x_kb db) current kid minimum_access of
                    Inl _ \<Rightarrow> False
                  | Inr ka \<Rightarrow>
                      if \<not> kb_external_llm_processing_enabled (ka_knowledge_base ka) then False
                      else (case api_key_id of
                              None \<Rightarrow> True
                            | Some aid \<Rightarrow>
                                (case find_key db aid of
                                   None \<Rightarrow> False
                                 | Some key \<Rightarrow>
                                     ak_user_id key = user_id \<and> ak_revoked_at key = None \<and>
                                     (case ak_expires_at key of None \<Rightarrow> True | Some t \<Rightarrow> now < t) \<and>
                                     (case required_permission of None \<Rightarrow> False
                                      | Some p \<Rightarrow> p \<in> set (ak_permission_codes key)) \<and>
                                     co_str_uuid co kid \<in> set (ak_knowledge_base_ids key))))))"

section \<open>Claims\<close>

record claimed_file =
  cf_id :: uuid
  cf_owner_id :: uuid
  cf_knowledge_base_id :: "uuid option"
  cf_bucket :: string
  cf_object_key :: string
  cf_original_name :: string
  cf_extension :: string
  cf_content_type :: string
  cf_size_bytes :: int
  cf_checksum_algorithm :: "string option"
  cf_checksum_value :: "string option"
  cf_status :: file_status
  cf_knowledge_status :: knowledge_ingestion_status
  cf_malware_scan_status :: malware_scan_status
  cf_version :: int
  cf_deleted_at :: "timestamp option"

record claimed_conversion =
  cc_job_id :: uuid
  cc_knowledge_base_id :: uuid
  cc_attempts :: int
  cc_retry_generation :: int
  cc_external_llm_processing_enabled :: bool
  cc_file :: claimed_file

definition claim_file :: "file_row \<Rightarrow> claimed_file" where
  "claim_file f =
     \<lparr>cf_id = f_id f, cf_owner_id = f_owner_id f, cf_knowledge_base_id = f_knowledge_base_id f,
      cf_bucket = f_bucket f, cf_object_key = f_object_key f, cf_original_name = f_original_name f,
      cf_extension = f_extension f, cf_content_type = f_content_type f, cf_size_bytes = f_size_bytes f,
      cf_checksum_algorithm = f_checksum_algorithm f, cf_checksum_value = f_checksum_value f,
      cf_status = f_status f, cf_knowledge_status = f_knowledge_status f,
      cf_malware_scan_status = f_malware_scan_status f, cf_version = f_version f, cf_deleted_at = f_deleted_at f\<rparr>"

definition claimed_file_identity :: "claimed_file \<Rightarrow> file_row \<Rightarrow> bool" where
  "claimed_file_identity file f \<longleftrightarrow>
     f_id f = cf_id file \<and> f_owner_id f = cf_owner_id file \<and> f_knowledge_base_id f = cf_knowledge_base_id file \<and>
     f_bucket f = cf_bucket file \<and> f_object_key f = cf_object_key file \<and> f_original_name f = cf_original_name file \<and>
     f_extension f = cf_extension file \<and> f_content_type f = cf_content_type file \<and>
     f_size_bytes f = cf_size_bytes file \<and> f_checksum_algorithm f = cf_checksum_algorithm file \<and>
     f_checksum_value f = cf_checksum_value file \<and> f_status f = cf_status file \<and>
     f_knowledge_status f = cf_knowledge_status file \<and> f_malware_scan_status f = cf_malware_scan_status file \<and>
     f_version f = cf_version file \<and> f_deleted_at f = cf_deleted_at file"

definition leased_job :: "uuid \<Rightarrow> uuid \<Rightarrow> okf_conversion_job \<Rightarrow> bool" where
  "leased_job jid lease j \<longleftrightarrow> oj_id j = jid \<and> oj_status j = OKF_PROCESSING \<and> oj_lease_id j = Some lease"

definition claim_is_current :: "claimed_conversion \<Rightarrow> uuid \<Rightarrow> pipe_db \<Rightarrow> bool" where
  "claim_is_current claim lease db \<longleftrightarrow>
     (\<exists>j \<in> set (v_jobs db). \<exists>f \<in> set (v_files db).
        leased_job (cc_job_id claim) lease j \<and> f_id f = oj_file_id j \<and>
        oj_file_id j = cf_id (cc_file claim) \<and> oj_file_version j = cf_version (cc_file claim) \<and>
        oj_knowledge_base_id j = cc_knowledge_base_id claim \<and> claimed_file_identity (cc_file claim) f)"

definition external_processing_allowed_at_egress ::
    "crypto_ops \<Rightarrow> timestamp \<Rightarrow> claimed_conversion \<Rightarrow> uuid \<Rightarrow> pipe_db \<Rightarrow> bool" where
  "external_processing_allowed_at_egress co now claim lease db \<longleftrightarrow>
     external_llm_egress_allowed co now (cf_owner_id (cc_file claim)) (cc_knowledge_base_id claim) None None EDITOR
       (v_keys db) \<and> claim_is_current claim lease db"

record okf_settings =
  ok_source_max_bytes :: int
  ok_conversion_max_attempts :: int
  ok_conversion_lease_seconds :: int
  ok_external_llm_enabled :: bool
  ok_llm_tenant_key :: string
  ok_deepseek_max_tokens :: int

definition job_due :: "okf_settings \<Rightarrow> timestamp \<Rightarrow> okf_conversion_job \<Rightarrow> bool" where
  "job_due st now j \<longleftrightarrow>
     (oj_status j \<in> {OKF_PENDING, OKF_RETRY_WAIT} \<and>
      (case oj_next_attempt_at j of None \<Rightarrow> True | Some t \<Rightarrow> t \<le> now)) \<or>
     (oj_status j = OKF_PROCESSING \<and>
      (case oj_locked_at j of None \<Rightarrow> False
       | Some t \<Rightarrow> t < now - seconds (ok_conversion_lease_seconds st)))"

definition claim_job_row :: "timestamp \<Rightarrow> uuid \<Rightarrow> okf_conversion_job \<Rightarrow> okf_conversion_job" where
  "claim_job_row now lease j =
     j\<lparr>oj_status := OKF_PROCESSING, oj_locked_at := Some now, oj_lease_id := Some lease,
       oj_attempts := oj_attempts j + 1, oj_error_code := None\<rparr>"

text \<open>A stale lease is not taken over while a held usage row says its provider call may still run.\<close>

definition claim_job ::
    "okf_settings \<Rightarrow> timestamp \<Rightarrow> uuid list \<Rightarrow> uuid \<Rightarrow> pipe_db \<Rightarrow> (okf_conversion_job \<times> pipe_db) option" where
  "claim_job st now locked lease db =
     (case sort_key oj_created_at (sort_key oj_id
             (filter (\<lambda>j. job_due st now j \<and> oj_id j \<notin> set locked) (v_jobs db))) of
        [] \<Rightarrow> None
      | j # _ \<Rightarrow>
          if oj_status j = OKF_PROCESSING \<and>
             (case file_of db (oj_file_id j) of
                None \<Rightarrow> False
              | Some f \<Rightarrow> find_active_llm_egress (x_llm (v_keys db)) (db_user_roles (x_rbac (v_keys db)))
                            (Some (oj_knowledge_base_id j)) (Some (f_owner_id f)) None None (Some ''okf.compile'') \<noteq> None)
          then None
          else Some (claim_job_row now lease j, write_job (oj_id j) (claim_job_row now lease) db))"

section \<open>Ending a job\<close>

record okf_draft =
  dr_type :: string
  dr_title :: unicode
  dr_description :: unicode
  dr_tags :: "unicode list"
  dr_body_markdown :: unicode

record parsed_document =
  pd_text :: unicode
  pd_source_locations :: "unicode list"
  pd_parser :: string

definition juni :: "unicode \<Rightarrow> json" where
  "juni s = JStr (utf8_text s)"

definition rsplit_dot :: "string \<Rightarrow> string" where
  "rsplit_dot s = (if CHR ''.'' \<in> set s then rev (tl (dropWhile (\<lambda>c. c \<noteq> CHR ''.'') (rev s))) else s)"

text \<open>
  The validation of \<open>OkfConceptDraft\<close>: every text is trimmed (\<open>trim\<close> of the validator does not count the four
  separators below the blank as white space), lengths are bounded, tags are non-empty and distinct up to case. The
  case folding is that of ASCII, which the tags of a local draft are. \<open>None\<close> is a \<open>ValidationError\<close>.
\<close>

definition trim_space :: "nat \<Rightarrow> bool" where
  "trim_space c \<longleftrightarrow> uni_isspace c \<and> \<not> (28 \<le> c \<and> c \<le> 31)"

definition ascii_casefold :: "unicode \<Rightarrow> unicode" where
  "ascii_casefold s = map (\<lambda>c. if 65 \<le> c \<and> c \<le> 90 then c + 32 else c) s"

definition make_okf_draft :: "string \<Rightarrow> unicode \<Rightarrow> unicode \<Rightarrow> unicode list \<Rightarrow> unicode \<Rightarrow> okf_draft option" where
  "make_okf_draft kind title description tags body =
     (let trim = strip_with trim_space; t = trim title; d = trim description; b = trim body;
          gs = map (strip_with uni_isspace \<circ> trim) tags
      in if kind = [] \<or> 100 < length kind \<or> t = [] \<or> 500 < length t \<or> d = [] \<or> 1000 < length d \<or>
            20 < length gs \<or> b = [] \<or> 2000000 < length b \<or> (\<exists>g \<in> set gs. g = [] \<or> 80 < length g) \<or>
            \<not> distinct (map ascii_casefold gs)
         then None
         else Some \<lparr>dr_type = kind, dr_title = t, dr_description = d, dr_tags = gs, dr_body_markdown = b\<rparr>)"

definition compile_local_okf :: "claimed_file \<Rightarrow> unicode \<Rightarrow> okf_draft llm_result option" where
  "compile_local_okf file source_text =
     (let stem = uni (py_strip (rsplit_dot (cf_original_name file)));
          title = (if stem = [] then uni ''Untitled document'' else stem);
          normalized_source = strip_with uni_isspace source_text;
          suffix = (case strip_prefix ''.'' (cf_extension file) of None \<Rightarrow> cf_extension file | Some rest \<Rightarrow> rest)
      in map_option (\<lambda>draft. \<lparr>lr_content = draft, lr_provider = ''local'', lr_model = ''local-deterministic-v1'',
           lr_prompt_tokens = Some 0, lr_completion_tokens = Some 0\<rparr>)
         (make_okf_draft ''document'' (take 500 title)
            (uni ''Locally imported without external model transformation.'') [uni ''local-import'', uni suffix]
            (uni ''# '' @ title @ [10, 10] @ normalized_source)))"

definition okf_entry ::
    "crypto_ops \<Rightarrow> timestamp \<Rightarrow> uuid \<Rightarrow> okf_conversion_job \<Rightarrow> claimed_file \<Rightarrow> okf_draft llm_result \<Rightarrow> parsed_document \<Rightarrow>
     knowledge_entry" where
  "okf_entry co now eid job file result parsed =
     (let d = lr_content result in
      \<lparr>ke_id = eid, ke_knowledge_base_id = oj_knowledge_base_id job, ke_source_file_id = Some (cf_id file),
       ke_entry_type = dr_type d, ke_title = dr_title d, ke_content = dr_body_markdown d,
       ke_source_path = Some (''generated/'' @ co_str_uuid co (cf_id file) @ ''/'' @ utf8_text (slug (dr_title d)) @ ''.md''),
       ke_format_version = Some ''okf/0.1'', ke_publication_status = DRAFT,
       ke_custom_metadata = JObj
         [(''okf_version'', JStr ''0.1''), (''description'', juni (dr_description d)),
          (''resource'', JStr (''kb-file://'' @ co_str_uuid co (cf_id file))), (''tags'', JList (map juni (dr_tags d))),
          (''timestamp'', JStr (iso_utc now)),
          (''generator'', JObj [(''provider'', JStr (lr_provider result)), (''model'', JStr (lr_model result)),
             (''prompt_version'', JStr (oj_prompt_version job))]),
          (''source_parser'', JStr (pd_parser parsed)), (''source_locations'', JList (map juni (pd_source_locations parsed)))],
       ke_deleted_at = None, ke_updated_at = now\<rparr>)"

text \<open>Inserting a draft leaves the content version alone: the trigger counts published entries.\<close>

definition insert_entry :: "knowledge_entry \<Rightarrow> pipe_db \<Rightarrow> unit + pipe_db" where
  "insert_entry e db =
     (if \<exists>x \<in> set (k_entries (v_kb db)). ke_id x = ke_id e then Inl ()
      else (let db1 = db\<lparr>v_keys := (v_keys db)\<lparr>x_kb := (x_kb (v_keys db))\<lparr>k_entries := k_entries (v_kb db) @ [e]\<rparr>\<rparr>\<rparr>
            in Inr (if ke_publication_status e = PUBLISHED \<and> ke_deleted_at e = None
                    then bump_content_version (ke_knowledge_base_id e) db1 else db1)))"

definition job_tokens :: "int option \<Rightarrow> json" where
  "job_tokens n = (case n of None \<Rightarrow> JNull | Some i \<Rightarrow> JInt i)"

definition succeeded_job :: "timestamp \<Rightarrow> uuid \<Rightarrow> string \<Rightarrow> okf_conversion_job \<Rightarrow> okf_conversion_job" where
  "succeeded_job now eid model j =
     j\<lparr>oj_output_entry_id := Some eid, oj_status := OKF_SUCCEEDED, oj_model := Some model, oj_locked_at := None,
       oj_lease_id := None, oj_completed_at := Some now\<rparr>"

definition audit_job :: "crypto_ops \<Rightarrow> timestamp \<Rightarrow> string \<Rightarrow> audit_result \<Rightarrow> uuid \<Rightarrow> json \<Rightarrow> pipe_db \<Rightarrow> pipe_db" where
  "audit_job co now action result jid details db =
     audit_pipe now action result ''okf_conversion_job'' None (co_str_uuid co jid) None None details db"

definition persist_result ::
    "crypto_ops \<Rightarrow> timestamp \<Rightarrow> uuid \<Rightarrow> uuid \<Rightarrow> uuid \<Rightarrow> claimed_file \<Rightarrow> okf_draft llm_result \<Rightarrow> parsed_document \<Rightarrow> pipe_db \<Rightarrow>
     unit + pipe_db" where
  "persist_result co now eid jid lease file result parsed db =
     (case find (leased_job jid lease) (v_jobs db) of
        None \<Rightarrow> Inr db
      | Some job \<Rightarrow>
          (case find (claimed_file_identity file) (v_files db) of
             None \<Rightarrow> Inr db
           | Some f \<Rightarrow>
               bind_r (insert_entry (okf_entry co now eid job file result parsed)
                  (write_file (f_id f) (\<lambda>r. r\<lparr>f_knowledge_status := DRAFT_READY, f_knowledge_error_code := None\<rparr>) db))
                 (\<lambda>db1.
                   Inr (audit_job co now ''okf.conversion_succeeded'' SUCCESS (oj_id job)
                     (JObj [(''file_id'', JStr (co_str_uuid co (cf_id file))), (''entry_id'', JStr (co_str_uuid co eid)),
                            (''model'', JStr (lr_model result)), (''prompt_version'', JStr (oj_prompt_version job)),
                            (''prompt_tokens'', job_tokens (lr_prompt_tokens result)),
                            (''completion_tokens'', job_tokens (lr_completion_tokens result))])
                     (write_job (oj_id job) (succeeded_job now eid (lr_model result)) db1)))))"

definition failed_job :: "okf_settings \<Rightarrow> timestamp \<Rightarrow> string \<Rightarrow> bool \<Rightarrow> okf_conversion_job \<Rightarrow> okf_conversion_job" where
  "failed_job st now code retryable j =
     (let final = (oj_attempts j \<ge> ok_conversion_max_attempts st \<or> \<not> retryable) in
      j\<lparr>oj_status := (if final then OKF_FAILED else OKF_RETRY_WAIT), oj_error_code := Some code,
        oj_locked_at := None, oj_lease_id := None,
        oj_next_attempt_at := (if final then None
          else Some (now + seconds (min (30 * 2 ^ nat (oj_attempts j - 1)) 900))),
        oj_completed_at := (if final then Some now else oj_completed_at j)\<rparr>)"

definition mark_failure ::
    "crypto_ops \<Rightarrow> okf_settings \<Rightarrow> timestamp \<Rightarrow> uuid \<Rightarrow> uuid \<Rightarrow> string \<Rightarrow> bool \<Rightarrow> pipe_db \<Rightarrow> pipe_db" where
  "mark_failure co st now jid lease code retryable db =
     (case find (leased_job jid lease) (v_jobs db) of
        None \<Rightarrow> db
      | Some job \<Rightarrow>
          (let final = (oj_attempts job \<ge> ok_conversion_max_attempts st \<or> \<not> retryable)
           in audit_job co now ''okf.conversion_failed'' FAILURE (oj_id job)
                (JObj [(''error_code'', JStr code),
                       (''retrying'', JBool (oj_attempts job < ok_conversion_max_attempts st \<and> retryable))])
                (write_file (oj_file_id job)
                  (\<lambda>f. f\<lparr>f_knowledge_status := (if final then INGEST_FAILED else INGEST_PENDING),
                          f_knowledge_error_code := Some code\<rparr>)
                  (write_job (oj_id job) (failed_job st now code retryable) db))))"

definition finish_terminal ::
    "crypto_ops \<Rightarrow> timestamp \<Rightarrow> uuid \<Rightarrow> uuid \<Rightarrow> okf_conversion_status \<Rightarrow> string \<Rightarrow> pipe_db \<Rightarrow> pipe_db" where
  "finish_terminal co now jid lease status code db =
     (case find (leased_job jid lease) (v_jobs db) of
        None \<Rightarrow> db
      | Some job \<Rightarrow>
          audit_job co now ''okf.conversion_skipped'' SUCCESS (oj_id job) (JObj [(''reason'', JStr code)])
            (write_file (oj_file_id job)
              (\<lambda>f. f\<lparr>f_knowledge_status := (if status = OKF_UNSUPPORTED then INGEST_UNSUPPORTED else INGEST_FAILED),
                      f_knowledge_error_code := Some code\<rparr>)
              (write_job (oj_id job)
                (\<lambda>j. j\<lparr>oj_status := status, oj_error_code := Some code, oj_locked_at := None,
                        oj_lease_id := None, oj_completed_at := Some now\<rparr>) db)))"

section \<open>Processing a claimed job\<close>

definition supported_document_extensions :: "string list" where
  "supported_document_extensions =
     [''.txt'', ''.csv'', ''.pdf'', ''.docx'', ''.xlsx'', ''.pptx'', ''.doc'', ''.xls'', ''.ppt'']"

datatype read_reply = ReadBytes string | ReadTooLarge | ReadFails
datatype parse_reply = Parsed parsed_document | ParseError string | ParseFails

text \<open>
  Everything a run depends on outside the database: the installed parsers, the store and the parser, the configured
  client (provider, model, whether it has a key), the model's reply, fresh ids, and what others commit while the
  worker parses and while it waits for the model.
\<close>

record okf_world =
  ow_now :: timestamp
  ow_fin :: timestamp
  ow_capable :: "string \<Rightarrow> bool"
  ow_read :: read_reply
  ow_parse :: parse_reply
  ow_client :: "(string \<times> string \<times> bool) option"
  ow_while_parsing :: "pipe_db \<Rightarrow> pipe_db"
  ow_call :: "llm_db \<Rightarrow> okf_draft provider_reply \<times> llm_db"
  ow_while_calling :: "pipe_db \<Rightarrow> pipe_db"
  ow_usage_id :: uuid
  ow_entry_id :: uuid

datatype run_end = RunDone | RunException | RunCancelled

definition okf_usage_key :: "crypto_ops \<Rightarrow> claimed_conversion \<Rightarrow> string" where
  "okf_usage_key co claim =
     ''okf:'' @ co_str_uuid co (cc_job_id claim) @ '':generation:'' @ int_str (cc_retry_generation claim) @
     '':attempt:'' @ int_str (cc_attempts claim)"

definition okf_dimensions :: "okf_settings \<Rightarrow> string \<times> string \<Rightarrow> claimed_conversion \<Rightarrow> usage_dimensions" where
  "okf_dimensions st client claim =
     \<lparr>dim_tenant_key = ok_llm_tenant_key st, dim_user_id = cf_owner_id (cc_file claim), dim_api_key_id = None,
      dim_knowledge_base_id = Some (cc_knowledge_base_id claim), dim_provider = fst client, dim_model = snd client,
      dim_operation = ''okf.compile'', dim_api_key_credential_family_id = None\<rparr>"

definition with_llm :: "llm_db \<Rightarrow> pipe_db \<Rightarrow> pipe_db" where
  "with_llm l db = db\<lparr>v_keys := (v_keys db)\<lparr>x_llm := l\<rparr>\<rparr>"

text \<open>
  What the worker does with the outcome of the governed call. A call that was refused before its hold was committed has left
  flushed counters in the session: the commit of \<open>_mark_failure\<close> keeps them, a rollback drops them.
\<close>

datatype llm_reaction = PersistResult "okf_draft llm_result" | MarkFailure string bool | Escape run_end

definition llm_plan :: "claimed_conversion \<Rightarrow> unicode \<Rightarrow> llm_error + okf_draft llm_result \<Rightarrow> llm_reaction" where
  "llm_plan claim source_text outcome =
     (case outcome of
        Inr result \<Rightarrow> PersistResult result
      | Inl e \<Rightarrow>
          (case e of
             LlmEgressDenied \<Rightarrow>
               (case compile_local_okf (cc_file claim) source_text of
                  None \<Rightarrow> Escape RunException | Some result \<Rightarrow> PersistResult result)
           | LlmBudgetExceeded _ _ _ _ \<Rightarrow> MarkFailure ''llm_budget_exceeded'' True
           | LlmUsagePricingUnavailable \<Rightarrow> MarkFailure ''llm_governance_unavailable'' True
           | LlmBudgetConfigurationUnavailable \<Rightarrow> MarkFailure ''llm_governance_unavailable'' True
           | LlmUsageDuplicate _ _ \<Rightarrow> MarkFailure ''llm_usage_unreconciled'' False
           | LlmUsageUnmetered \<Rightarrow> MarkFailure ''llm_usage_unreconciled'' False
           | LlmUsageMeteringMismatch \<Rightarrow> MarkFailure ''llm_usage_unreconciled'' False
           | LlmProviderRaised err \<Rightarrow>
               MarkFailure (pv_code err) (pv_retryable err \<and> pv_metering_outcome err \<noteq> UNKNOWN)
           | LlmCancelled \<Rightarrow> Escape RunCancelled
           | _ \<Rightarrow> Escape RunException))"

definition persist_run ::
    "crypto_ops \<Rightarrow> okf_world \<Rightarrow> uuid \<Rightarrow> claimed_conversion \<Rightarrow> parsed_document \<Rightarrow> okf_draft llm_result \<Rightarrow> pipe_db \<Rightarrow>
     run_end \<times> pipe_db" where
  "persist_run co w lease claim parsed result db =
     (case persist_result co (ow_fin w) (ow_entry_id w) (cc_job_id claim) lease (cc_file claim) result parsed db of
        Inl _ \<Rightarrow> (RunException, db) | Inr db' \<Rightarrow> (RunDone, db'))"

definition convert_parsed ::
    "crypto_ops \<Rightarrow> okf_settings \<Rightarrow> okf_world \<Rightarrow> uuid \<Rightarrow> claimed_conversion \<Rightarrow> parsed_document \<Rightarrow> pipe_db \<Rightarrow>
     run_end \<times> pipe_db" where
  "convert_parsed co st w lease claim parsed db =
     (let jid = cc_job_id claim
      in if \<not> claim_is_current claim lease db then (RunDone, db)
         else if ok_external_llm_enabled st \<and> cc_external_llm_processing_enabled claim
         then (case ow_client w of
                 Some (provider, model, True) \<Rightarrow>
                   (case compile_okf co (provider, model) (okf_dimensions st (provider, model) claim)
                           (okf_usage_key co claim) (pd_text parsed) (ok_deepseek_max_tokens st)
                           (\<lambda>l. (if external_processing_allowed_at_egress co (ow_now w) claim lease db
                                  then CheckAllowed else CheckDenied, l))
                           (ow_call w) (ow_now w) (ow_fin w) (ow_usage_id w) (x_llm (v_keys db)) of
                      (outcome, l) \<Rightarrow>
                        (let db1 = ow_while_calling w db;
                             kept = committed_part co (provider, model) (okf_dimensions st (provider, model) claim)
                               (okf_usage_key co claim) (estimate_source_tokens (pd_text parsed)) (ok_deepseek_max_tokens st)
                               (ow_now w) (ow_usage_id w) (x_llm (v_keys db)) l in
                         case llm_plan claim (pd_text parsed) outcome of
                           PersistResult result \<Rightarrow> persist_run co w lease claim parsed result (with_llm kept db1)
                         | MarkFailure code retryable \<Rightarrow>
                             (RunDone, mark_failure co st (ow_fin w) jid lease code retryable
                                (with_llm (if find (leased_job jid lease) (v_jobs db1) = None then kept else l) db1))
                         | Escape e \<Rightarrow> (e, with_llm kept db1)))
               | _ \<Rightarrow> (RunDone, mark_failure co st (ow_now w) jid lease ''llm_not_configured'' True db))
         else (case compile_local_okf (cc_file claim) (pd_text parsed) of
                 None \<Rightarrow> (RunException, db) | Some result \<Rightarrow> persist_run co w lease claim parsed result db))"

definition read_claim :: "uuid \<Rightarrow> uuid \<Rightarrow> pipe_db \<Rightarrow> claimed_conversion option" where
  "read_claim jid lease db =
     (case find (leased_job jid lease) (v_jobs db) of
        None \<Rightarrow> None
      | Some j \<Rightarrow>
          (case (file_of db (oj_file_id j), find (\<lambda>kb. kb_id kb = oj_knowledge_base_id j) (k_bases (v_kb db))) of
             (Some f, Some kb) \<Rightarrow>
               Some \<lparr>cc_job_id = oj_id j, cc_knowledge_base_id = oj_knowledge_base_id j, cc_attempts = oj_attempts j,
                      cc_retry_generation = oj_retry_generation j,
                      cc_external_llm_processing_enabled = kb_external_llm_processing_enabled kb,
                      cc_file = claim_file f\<rparr>
           | _ \<Rightarrow> None))"

definition process_claimed_job ::
    "crypto_ops \<Rightarrow> okf_settings \<Rightarrow> okf_world \<Rightarrow> uuid \<Rightarrow> uuid \<Rightarrow> pipe_db \<Rightarrow> run_end \<times> pipe_db" where
  "process_claimed_job co st w jid lease db =
     (case read_claim jid lease db of
        None \<Rightarrow> (RunDone, db)
      | Some claim \<Rightarrow>
          (let file = cc_file claim; ext = cf_extension file;
               unsupported = (\<lambda>code db'. (RunDone, finish_terminal co (ow_now w) jid lease OKF_UNSUPPORTED code db'))
           in if ext \<notin> set supported_document_extensions then unsupported ''parser_unsupported_extension'' db
              else if cf_size_bytes file > ok_source_max_bytes st then unsupported ''source_too_large'' db
              else if \<not> ow_capable w ext
              then unsupported (if ext = ''.pdf'' then ''parser_pdf_capability_unavailable''
                                else ''parser_legacy_capability_unavailable'') db
              else (let db1 = ow_while_parsing w db in
                case ow_read w of
                  ReadFails \<Rightarrow> (RunException, db1)
                | ReadTooLarge \<Rightarrow> unsupported ''source_too_large'' db1
                | ReadBytes _ \<Rightarrow>
                    (case ow_parse w of
                       ParseError code \<Rightarrow> unsupported code db1
                     | ParseFails \<Rightarrow> (RunException, db1)
                     | Parsed parsed \<Rightarrow> convert_parsed co st w lease claim parsed db1))))"

text \<open>The batch stops early when the time budget is used up; an exception fails the job and the batch goes on.\<close>

record okf_turn =
  ot_over_budget :: bool
  ot_locked :: "uuid list"
  ot_lease :: uuid
  ot_claimed_at :: timestamp
  ot_world :: okf_world

fun okf_loop ::
    "crypto_ops \<Rightarrow> okf_settings \<Rightarrow> (nat \<Rightarrow> okf_turn) \<Rightarrow> nat \<Rightarrow> nat \<Rightarrow> pipe_db \<Rightarrow> (unit + nat) \<times> pipe_db" where
  "okf_loop co st turns 0 processed db = (Inr processed, db)"
| "okf_loop co st turns (Suc left) processed db =
     (let t = turns processed in
      if processed > 0 \<and> ot_over_budget t then (Inr processed, db)
      else (case claim_job st (ot_claimed_at t) (ot_locked t) (ot_lease t) db of
              None \<Rightarrow> (Inr processed, db)
            | Some (job, db1) \<Rightarrow>
                (case process_claimed_job co st (ot_world t) (oj_id job) (ot_lease t) db1 of
                   (RunDone, db2) \<Rightarrow> okf_loop co st turns left (Suc processed) db2
                 | (RunCancelled, db2) \<Rightarrow> (Inl (), db2)
                 | (RunException, db2) \<Rightarrow>
                     okf_loop co st turns left (Suc processed)
                       (mark_failure co st (ow_fin (ot_world t)) (oj_id job) (ot_lease t)
                          ''unexpected_processing_error'' True db2))))"

definition process_okf_conversion_batch ::
    "crypto_ops \<Rightarrow> okf_settings \<Rightarrow> (nat \<Rightarrow> okf_turn) \<Rightarrow> nat \<Rightarrow> pipe_db \<Rightarrow> (unit + nat) \<times> pipe_db" where
  "process_okf_conversion_batch co st turns batch_size db = okf_loop co st turns batch_size 0 db"

end
