(* ===== verification/File_Pipeline.thy ===== *)
theory File_Pipeline
  imports Okf_Conversion
begin

text \<open>
  The file pipeline as one system: uploads, the reconciliation worker, the scanner, the conversion worker, approval
  and download act on the same rows, interleaved at every commit. A request or worker that has committed its first
  transaction and waits for the object store is \<^emph>\<open>in flight\<close>; it may go on at any later time, more than once, or
  never. The invariant ties the status of an upload session to its quota reservations and to its file.
\<close>

section \<open>Steps\<close>

datatype flight = Finalizing finalization | Aborting uuid uuid | Cleaning cleanup_claim

type_synonym pipeline = "pipe_db \<times> flight list"

inductive pipe_step :: "crypto_ops \<Rightarrow> pipeline \<Rightarrow> pipeline \<Rightarrow> bool" for co where
  admit: "initiate_admit co st probe now ids access payload db = Inr (a, db') \<Longrightarrow> pipe_step co (db, fl) (db', fl)"
| record_storage: "record_storage_upload user_id sid upload_id db = Inr (x, db') \<Longrightarrow> pipe_step co (db, fl) (db', fl)"
| record_new: "record_initiated co now rid user_id sid mode upload_id db = Inr (x, db') \<Longrightarrow>
    pipe_step co (db, fl) (db', fl)"
| begin_completion: "complete_begin now access sid parts db = Inr (Inr fz, db') \<Longrightarrow>
    pipe_step co (db, fl) (db', Finalizing fz # fl)"
| reject_completion: "Finalizing fz \<in> set fl \<Longrightarrow> complete_reject co now rid fz action details db = Inr (b, db') \<Longrightarrow>
    pipe_step co (db, fl) (db', fl)"
| commit_completion: "Finalizing fz \<in> set fl \<Longrightarrow> completion_rejection fz stored = None \<Longrightarrow>
    complete_commit co now rid fz stored db = Inr (f, db') \<Longrightarrow> pipe_step co (db, fl) (db', fl)"
| begin_abort: "abort_begin now access sid db = Inr (AbortStorage s key storage_id, db') \<Longrightarrow>
    pipe_step co (db, fl) (db', Aborting (u_id (ac_user access)) sid # fl)"
| finish_abort: "Aborting user_id sid \<in> set fl \<Longrightarrow> abort_finish co now rid user_id sid db = Inr (u, db') \<Longrightarrow>
    pipe_step co (db, fl) (db', fl)"
| claim_cleanup: "claim_next now locked db = Some (claim, db') \<Longrightarrow> pipe_step co (db, fl) (db', Cleaning claim # fl)"
| publish_cleanup: "Cleaning claim \<in> set fl \<Longrightarrow> reconcile_rejection claim obj = None \<Longrightarrow>
    reconcile_publish co now claim key obj db = Inr (b, db') \<Longrightarrow> pipe_step co (db, fl) (db', fl)"
| release_cleanup: "Cleaning claim \<in> set fl \<Longrightarrow> reconcile_release co now claim rejection db = Inr db' \<Longrightarrow>
    pipe_step co (db, fl) (db', fl)"
| claim_scan: "claim_next_malware_scan co now reclaim locked lease db = Some (c, db') \<Longrightarrow>
    pipe_step co (db, fl) (db', fl)"
| finish_scan: "finish_malware_scan co now jid c outcome db = Inr db' \<Longrightarrow> pipe_step co (db, fl) (db', fl)"
| claim_conversion: "claim_job ost now locked lease db = Some (j, db') \<Longrightarrow> pipe_step co (db, fl) (db', fl)"
| persist_conversion: "persist_result co now eid jid lease cf result parsed db = Inr db' \<Longrightarrow>
    pipe_step co (db, fl) (db', fl)"
| fail_conversion: "pipe_step co (db, fl) (mark_failure co ost now jid lease code retryable db, fl)"
| skip_conversion: "pipe_step co (db, fl) (finish_terminal co now jid lease OKF_UNSUPPORTED code db, fl)"
| retry_conversion: "retry_okf_conversion co now rid access fid db = Inr (j, db') \<Longrightarrow> pipe_step co (db, fl) (db', fl)"
| approve: "approve_processed_file co now rid access fid db = Inr (f, db') \<Longrightarrow> pipe_step co (db, fl) (db', fl)"
| download: "create_download_grant co st now rid ip access presign fid db = Inr (g, db') \<Longrightarrow>
    pipe_step co (db, fl) (db', fl)"
| meter: "consume uid key amount limit w (v_quota db) = Inr q \<Longrightarrow> pipe_step co (db, fl) (db\<lparr>v_quota := q\<rparr>, fl)"
| elsewhere: "pipe_step co (db, fl) (db\<lparr>v_keys := k\<rparr>, fl)"

section \<open>The invariant\<close>

fun hold_fits :: "upload_session_status \<Rightarrow> reservation_status \<Rightarrow> bool" where
  "hold_fits UPLOAD_INITIATED r \<longleftrightarrow> r = HELD"
| "hold_fits UPLOAD_FINALIZING r \<longleftrightarrow> r = HELD"
| "hold_fits UPLOAD_COMPLETED r \<longleftrightarrow> r = CONSUMED"
| "hold_fits UPLOAD_FAILED r \<longleftrightarrow> r = RELEASED \<or> r = EXPIRED"
| "hold_fits UPLOAD_ABORTED r \<longleftrightarrow> r \<noteq> CONSUMED"
| "hold_fits UPLOAD_EXPIRED r \<longleftrightarrow> r \<noteq> CONSUMED"

fun stage_ok :: "upload_session_status \<Rightarrow> file_status \<Rightarrow> malware_scan_status \<Rightarrow> bool" where
  "stage_ok UPLOAD_INITIATED f s \<longleftrightarrow> f = FILE_UPLOADING \<and> s = SCAN_PENDING"
| "stage_ok UPLOAD_FINALIZING f s \<longleftrightarrow> f = FILE_UPLOADING \<and> s = SCAN_PENDING"
| "stage_ok UPLOAD_COMPLETED f s \<longleftrightarrow>
     (f = FILE_QUARANTINED \<and> s \<noteq> SCAN_CLEAN) \<or> ((f = FILE_PROCESSING \<or> f = FILE_AVAILABLE) \<and> s = SCAN_CLEAN)"
| "stage_ok UPLOAD_FAILED f s \<longleftrightarrow> f = FILE_FAILED \<and> s = SCAN_PENDING"
| "stage_ok UPLOAD_ABORTED f s \<longleftrightarrow> f = FILE_FAILED \<and> s = SCAN_PENDING"
| "stage_ok UPLOAD_EXPIRED f s \<longleftrightarrow> (f = FILE_UPLOADING \<or> f = FILE_FAILED) \<and> s = SCAN_PENDING"

definition file_ok :: "pipe_db \<Rightarrow> upload_session \<Rightarrow> bool" where
  "file_ok db u \<longleftrightarrow> (\<exists>f \<in> set (v_files db). f_id f = us_file_id u \<and>
     stage_ok (us_status u) (f_status f) (f_malware_scan_status f))"

definition reservation_ok :: "pipe_db \<Rightarrow> quota_reservation \<Rightarrow> bool" where
  "reservation_ok db r \<longleftrightarrow> (\<exists>u \<in> set (v_uploads db). us_id u = qr_upload_session_id r \<and>
     us_user_id u = qr_user_id r \<and> hold_fits (us_status u) (qr_status r))"

definition upload_request_key :: "upload_session \<Rightarrow> uuid \<times> string" where
  "upload_request_key u = (us_user_id u, us_idempotency_key u)"

definition pipe_inv :: "pipe_db \<Rightarrow> bool" where
  "pipe_inv db \<longleftrightarrow>
     quota_inv (v_quota db) \<and> keyed f_id (v_files db) \<and> keyed us_id (v_uploads db) \<and>
     keyed us_file_id (v_uploads db) \<and> keyed upload_request_key (v_uploads db) \<and>
     (\<forall>u \<in> set (v_uploads db). file_ok db u) \<and>
     (\<forall>f \<in> set (v_files db). \<exists>u \<in> set (v_uploads db). us_file_id u = f_id f) \<and>
     (\<forall>r \<in> set (q_reservations (v_quota db)). reservation_ok db r)"

text \<open>
  Of the requests in flight only an abort needs a memory: its second transaction releases without reading the status.
\<close>

fun flight_ok :: "pipe_db \<Rightarrow> flight \<Rightarrow> bool" where
  "flight_ok db (Aborting _ sid) \<longleftrightarrow> (\<exists>u \<in> set (v_uploads db). us_id u = sid \<and> us_status u = UPLOAD_ABORTED)"
| "flight_ok db _ \<longleftrightarrow> True"

definition pipeline_inv :: "pipeline \<Rightarrow> bool" where
  "pipeline_inv s \<longleftrightarrow> pipe_inv (fst s) \<and> (\<forall>x \<in> set (snd s). flight_ok (fst s) x)"

text \<open>How the status of a session may change: completed and aborted are final, nothing returns to an active state.\<close>

fun status_later :: "upload_session_status \<Rightarrow> upload_session_status \<Rightarrow> bool" where
  "status_later UPLOAD_INITIATED _ \<longleftrightarrow> True"
| "status_later UPLOAD_FINALIZING t \<longleftrightarrow> t \<noteq> UPLOAD_INITIATED"
| "status_later UPLOAD_COMPLETED t \<longleftrightarrow> t = UPLOAD_COMPLETED"
| "status_later UPLOAD_ABORTED t \<longleftrightarrow> t = UPLOAD_ABORTED"
| "status_later UPLOAD_FAILED t \<longleftrightarrow> t = UPLOAD_FAILED \<or> t = UPLOAD_EXPIRED \<or> t = UPLOAD_ABORTED"
| "status_later UPLOAD_EXPIRED t \<longleftrightarrow> t = UPLOAD_FAILED \<or> t = UPLOAD_EXPIRED \<or> t = UPLOAD_ABORTED"

definition later_upload :: "upload_session \<Rightarrow> upload_session \<Rightarrow> bool" where
  "later_upload u u' \<longleftrightarrow> us_id u' = us_id u \<and> us_file_id u' = us_file_id u \<and> us_user_id u' = us_user_id u \<and>
     us_idempotency_key u' = us_idempotency_key u \<and> status_later (us_status u) (us_status u')"

lemma status_later_refl: "status_later a a"
  by (cases a) simp_all

lemma status_later_trans: "status_later a b \<Longrightarrow> status_later b c \<Longrightarrow> status_later a c"
  by (cases a; cases b; cases c) simp_all

section \<open>Frames\<close>

lemma pipe_inv_keys [simp]: "pipe_inv (db\<lparr>v_keys := k\<rparr>) = pipe_inv db"
  by (simp add: pipe_inv_def file_ok_def reservation_ok_def)

lemma pipe_inv_jobs [simp]: "pipe_inv (db\<lparr>v_jobs := k\<rparr>) = pipe_inv db"
  by (simp add: pipe_inv_def file_ok_def reservation_ok_def)

lemma pipe_frame [simp]:
  "v_uploads (write_file i h db) = v_uploads db" "v_quota (write_file i h db) = v_quota db"
  "v_jobs (write_file i h db) = v_jobs db" "v_keys (write_file i h db) = v_keys db"
  "v_files (write_upload i g db) = v_files db" "v_quota (write_upload i g db) = v_quota db"
  "v_jobs (write_upload i g db) = v_jobs db" "v_keys (write_upload i g db) = v_keys db"
  "v_uploads (write_job i k db) = v_uploads db" "v_quota (write_job i k db) = v_quota db"
  "v_files (write_job i k db) = v_files db" "v_keys (write_job i k db) = v_keys db"
  by (simp_all add: write_file_def write_upload_def write_job_def)

lemma audit_pipe_frame [simp]:
  "v_uploads (audit_pipe now a r t act i rid ip d db) = v_uploads db"
  "v_files (audit_pipe now a r t act i rid ip d db) = v_files db"
  "v_quota (audit_pipe now a r t act i rid ip d db) = v_quota db"
  "v_jobs (audit_pipe now a r t act i rid ip d db) = v_jobs db"
  "pipe_inv (audit_pipe now a r t act i rid ip d db) = pipe_inv db"
  by (simp_all add: audit_pipe_def)

lemma entry_frame [simp]:
  "v_uploads (publish_entry now e db) = v_uploads db" "v_files (publish_entry now e db) = v_files db"
  "v_quota (publish_entry now e db) = v_quota db" "v_jobs (publish_entry now e db) = v_jobs db"
  "pipe_inv (publish_entry now e db) = pipe_inv db"
  by (simp_all add: publish_entry_def write_entry_def bump_content_version_def Let_def)

lemma pipe_inv_write_job [simp]: "pipe_inv (write_job i k db) = pipe_inv db"
  by (simp add: write_job_def)

lemma insert_entry_frame:
  "insert_entry e db = Inr db' \<Longrightarrow> v_uploads db' = v_uploads db \<and> v_files db' = v_files db \<and> v_quota db' = v_quota db \<and>
     v_jobs db' = v_jobs db"
  by (auto simp: insert_entry_def bump_content_version_def Let_def split: if_split_asm)

lemma pipe_inv_same:
  "pipe_inv db \<Longrightarrow> v_uploads db' = v_uploads db \<Longrightarrow> v_files db' = v_files db \<Longrightarrow> v_quota db' = v_quota db \<Longrightarrow> pipe_inv db'"
  by (simp add: pipe_inv_def file_ok_def reservation_ok_def)

lemma pipe_invD:
  assumes "pipe_inv db"
  shows "quota_inv (v_quota db)" "keyed f_id (v_files db)" "keyed us_id (v_uploads db)"
    "keyed us_file_id (v_uploads db)" "keyed upload_request_key (v_uploads db)"
    "\<And>u. u \<in> set (v_uploads db) \<Longrightarrow> file_ok db u"
    "\<And>f. f \<in> set (v_files db) \<Longrightarrow> \<exists>u \<in> set (v_uploads db). us_file_id u = f_id f"
    "\<And>r. r \<in> set (q_reservations (v_quota db)) \<Longrightarrow> reservation_ok db r"
  using assms by (auto simp: pipe_inv_def)

text \<open>
  The move of one session: its row, its file and its held reservations change together, everything else stays. With
  \<open>HELD\<close> as the new status the reservations do not change.
\<close>

definition settle_rows :: "uuid \<Rightarrow> reservation_status \<Rightarrow> quota_reservation list \<Rightarrow> quota_reservation list" where
  "settle_rows sid st rows =
     update_where (\<lambda>x. qr_upload_session_id x = sid \<and> qr_status x = HELD) (\<lambda>x. x\<lparr>qr_status := st\<rparr>) rows"

lemma settle_rows_HELD: "settle_rows sid HELD rows = rows"
  unfolding settle_rows_def update_where_def by (rule map_idI) auto

lemma move_inv:
  assumes inv: "pipe_inv db" and u: "u \<in> set (v_uploads db)" and f: "f \<in> set (v_files db)" "f_id f = us_file_id u"
    and g: "\<And>x. us_id (g x) = us_id x" "\<And>x. us_file_id (g x) = us_file_id x" "\<And>x. us_user_id (g x) = us_user_id x"
      "\<And>x. us_idempotency_key (g x) = us_idempotency_key x"
    and h: "\<And>x. f_id (h x) = f_id x"
    and q: "quota_inv q" "q_reservations q = settle_rows (us_id u) rst (q_reservations (v_quota db))"
    and stage: "stage_ok (us_status (g u)) (f_status (h f)) (f_malware_scan_status (h f))"
    and hold: "\<And>st. hold_fits (us_status u) st \<Longrightarrow> hold_fits (us_status (g u)) (if st = HELD then rst else st)"
  shows "pipe_inv (write_file (f_id f) h (write_upload (us_id u) g (db\<lparr>v_quota := q\<rparr>)))"
proof -
  let ?db = "write_file (f_id f) h (write_upload (us_id u) g (db\<lparr>v_quota := q\<rparr>))"
  note i = pipe_invD[OF inv]
  have ups: "v_uploads ?db = update_where (\<lambda>x. us_id x = us_id u) g (v_uploads db)"
    and fls: "v_files ?db = update_where (\<lambda>x. f_id x = f_id f) h (v_files db)" and qq: "v_quota ?db = q"
    by (simp_all add: write_file_def write_upload_def)
  have gu: "g u \<in> set (v_uploads ?db)" unfolding ups set_update_where using u by force
  have hf: "h f \<in> set (v_files ?db)" unfolding fls set_update_where using f by force
  have other: "x \<in> set (v_uploads ?db)" if "x \<in> set (v_uploads db)" "us_id x \<noteq> us_id u" for x
    using that unfolding ups set_update_where by force
  have files: "file_ok ?db x" if x: "x \<in> set (v_uploads ?db)" for x
  proof -
    from x consider x0 where "x0 \<in> set (v_uploads db)" "us_id x0 = us_id u" "x = g x0"
      | "x \<in> set (v_uploads db)" "us_id x \<noteq> us_id u"
      unfolding ups by (rule in_update_whereE)
    then show ?thesis
    proof cases
      case 1
      with u keyed_unique[OF i(3)] have "x0 = u" by blast
      with 1 hf stage h f(2) g show ?thesis unfolding file_ok_def by (intro bexI[of _ "h f"]) auto
    next
      case 2
      with i(6) obtain y where y: "y \<in> set (v_files db)" "f_id y = us_file_id x"
        "stage_ok (us_status x) (f_status y) (f_malware_scan_status y)" unfolding file_ok_def by blast
      have "f_id y \<noteq> f_id f"
        using 2 y(2) f(2) u keyed_unique[OF i(4) 2(1) u] by auto
      with y(1) have "y \<in> set (v_files ?db)" unfolding fls set_update_where by force
      with y(2,3) show ?thesis unfolding file_ok_def by blast
    qed
  qed
  have owned: "\<exists>x \<in> set (v_uploads ?db). us_file_id x = f_id y" if y: "y \<in> set (v_files ?db)" for y
  proof -
    have "\<exists>y0 \<in> set (v_files db). f_id y = f_id y0"
      using y h unfolding fls set_update_where by auto
    with i(7) obtain x where x: "x \<in> set (v_uploads db)" "us_file_id x = f_id y" by metis
    then have "(if us_id x = us_id u then g x else x) \<in> set (v_uploads ?db)"
      unfolding ups set_update_where by blast
    with x g show ?thesis by (intro bexI[of _ "if us_id x = us_id u then g x else x"]) auto
  qed
  have holds: "reservation_ok ?db r" if r: "r \<in> set (q_reservations q)" for r
  proof -
    from r obtain r0 where r0: "r0 \<in> set (q_reservations (v_quota db))"
      "r = (if qr_upload_session_id r0 = us_id u \<and> qr_status r0 = HELD then r0\<lparr>qr_status := rst\<rparr> else r0)"
      unfolding q(2) settle_rows_def set_update_where by blast
    from i(8)[OF r0(1)] obtain x where x: "x \<in> set (v_uploads db)" "us_id x = qr_upload_session_id r0"
      "us_user_id x = qr_user_id r0" "hold_fits (us_status x) (qr_status r0)" unfolding reservation_ok_def by blast
    show ?thesis
    proof (cases "us_id x = us_id u")
      case True
      with x(1) u keyed_unique[OF i(3)] have "x = u" by blast
      with x hold[of "qr_status r0"] r0(2) g gu show ?thesis unfolding reservation_ok_def
        by (intro bexI[of _ "g u"]) auto
    next
      case False
      with other[OF x(1)] x r0(2) show ?thesis unfolding reservation_ok_def by auto
    qed
  qed
  show ?thesis
    unfolding pipe_inv_def
  proof (intro conjI ballI)
    show "quota_inv (v_quota ?db)" using q(1) qq by simp
    show "keyed f_id (v_files ?db)" unfolding fls using i(2) h by (subst keyed_update_where) auto
    show "keyed us_id (v_uploads ?db)" unfolding ups using i(3) g by (subst keyed_update_where) auto
    show "keyed us_file_id (v_uploads ?db)" unfolding ups using i(4) g by (subst keyed_update_where) auto
    show "keyed upload_request_key (v_uploads ?db)"
      unfolding ups using i(5) g by (subst keyed_update_where) (auto simp: upload_request_key_def)
  qed (use files owned holds qq in auto)
qed

section \<open>Moves of the system\<close>

definition uploads_later :: "pipe_db \<Rightarrow> pipe_db \<Rightarrow> bool" where
  "uploads_later db db' \<longleftrightarrow> (\<forall>u \<in> set (v_uploads db). \<exists>u' \<in> set (v_uploads db'). later_upload u u')"

definition pipe_move :: "pipe_db \<Rightarrow> pipe_db \<Rightarrow> bool" where
  "pipe_move db db' \<longleftrightarrow> pipe_inv db' \<and> uploads_later db db'"

lemma later_upload_refl: "later_upload u u"
  by (simp add: later_upload_def status_later_refl)

lemma uploads_later_same: "v_uploads db' = v_uploads db \<Longrightarrow> uploads_later db db'"
  unfolding uploads_later_def using later_upload_refl by auto

lemma pipe_move_same:
  "pipe_inv db \<Longrightarrow> v_uploads db' = v_uploads db \<Longrightarrow> v_files db' = v_files db \<Longrightarrow> v_quota db' = v_quota db \<Longrightarrow>
   pipe_move db db'"
  unfolding pipe_move_def by (blast intro: pipe_inv_same uploads_later_same)

lemma pipe_move_audit [simp]:
  "pipe_move db (audit_pipe now a r t act i rid ip d db') = pipe_move db db'"
  by (simp add: pipe_move_def uploads_later_def)

lemma owned_uploadD:
  assumes "owned_upload db sid uid = Inr (u, f)"
  shows "u \<in> set (v_uploads db)" "us_id u = sid" "us_user_id u = uid" "f \<in> set (v_files db)" "f_id f = us_file_id u"
  using assms unfolding owned_upload_def file_of_def by (auto split: option.split_asm dest!: find_Some_in_set)

lemma joined_uploadD:
  assumes "joined_upload db sid = Some (u, f)"
  shows "u \<in> set (v_uploads db)" "us_id u = sid" "f \<in> set (v_files db)" "f_id f = us_file_id u"
  using assms unfolding joined_upload_def file_of_def upload_of_def
  by (auto simp: bind_eq_Some_conv dest!: find_Some_in_set)

lemma stage_of:
  assumes "pipe_inv db" "u \<in> set (v_uploads db)" "f \<in> set (v_files db)" "f_id f = us_file_id u"
  shows "stage_ok (us_status u) (f_status f) (f_malware_scan_status f)"
proof -
  obtain y where "y \<in> set (v_files db)" "f_id y = us_file_id u"
    "stage_ok (us_status u) (f_status y) (f_malware_scan_status y)"
    using pipe_invD(6)[OF assms(1,2)] unfolding file_ok_def by blast
  moreover from this have "y = f" using keyed_unique[OF pipe_invD(2)[OF assms(1)]] assms(3,4) by auto
  ultimately show ?thesis by simp
qed

lemma move_session:
  assumes inv: "pipe_inv db" and u: "u \<in> set (v_uploads db)" and f: "f \<in> set (v_files db)" "f_id f = us_file_id u"
    and g: "\<And>x. us_id (g x) = us_id x" "\<And>x. us_file_id (g x) = us_file_id x" "\<And>x. us_user_id (g x) = us_user_id x"
      "\<And>x. us_idempotency_key (g x) = us_idempotency_key x"
    and h: "\<And>x. f_id (h x) = f_id x"
    and q: "quota_inv q" "q_reservations q = settle_rows (us_id u) rst (q_reservations (v_quota db))"
    and stage: "stage_ok (us_status (g u)) (f_status (h f)) (f_malware_scan_status (h f))"
    and hold: "\<And>st. hold_fits (us_status u) st \<Longrightarrow> hold_fits (us_status (g u)) (if st = HELD then rst else st)"
    and later: "status_later (us_status u) (us_status (g u))"
  shows "pipe_move db (write_file (f_id f) h (write_upload (us_id u) g (db\<lparr>v_quota := q\<rparr>)))"
  unfolding pipe_move_def
proof
  show "pipe_inv (write_file (f_id f) h (write_upload (us_id u) g (db\<lparr>v_quota := q\<rparr>)))"
    by (rule move_inv[OF inv u f g h q stage hold])
  show "uploads_later db (write_file (f_id f) h (write_upload (us_id u) g (db\<lparr>v_quota := q\<rparr>)))"
    unfolding uploads_later_def
  proof
    fix x assume x: "x \<in> set (v_uploads db)"
    let ?x = "if us_id x = us_id u then g x else x"
    have "later_upload x ?x"
      using g later x u keyed_unique[OF pipe_invD(3)[OF inv] x u] by (auto simp: later_upload_def status_later_refl)
    moreover have "?x \<in> set (v_uploads (write_file (f_id f) h (write_upload (us_id u) g (db\<lparr>v_quota := q\<rparr>))))"
      using x by (auto simp: write_upload_def set_update_where)
    ultimately show "\<exists>x' \<in> set (v_uploads (write_file (f_id f) h (write_upload (us_id u) g (db\<lparr>v_quota := q\<rparr>)))).
        later_upload x x'" by blast
  qed
qed

lemma write_file_id: "write_file i (\<lambda>x. x) db = db"
  by (simp add: write_file_def update_where_def)

lemma write_upload_id: "write_upload i (\<lambda>x. x) db = db"
  by (simp add: write_upload_def update_where_def)

lemma move_status:
  assumes inv: "pipe_inv db" and u: "u \<in> set (v_uploads db)"
    and g: "\<And>x. us_id (g x) = us_id x" "\<And>x. us_file_id (g x) = us_file_id x" "\<And>x. us_user_id (g x) = us_user_id x"
      "\<And>x. us_idempotency_key (g x) = us_idempotency_key x"
    and stage: "\<And>a b. stage_ok (us_status u) a b \<Longrightarrow> stage_ok (us_status (g u)) a b"
    and hold: "\<And>st. hold_fits (us_status u) st \<Longrightarrow> hold_fits (us_status (g u)) st"
    and later: "status_later (us_status u) (us_status (g u))"
  shows "pipe_move db (write_upload (us_id u) g db)"
proof -
  obtain f where f: "f \<in> set (v_files db)" "f_id f = us_file_id u"
    using pipe_invD(6)[OF inv u] unfolding file_ok_def by blast
  have "pipe_move db (write_file (f_id f) (\<lambda>x. x) (write_upload (us_id u) g (db\<lparr>v_quota := v_quota db\<rparr>)))"
    by (rule move_session[where rst = HELD, OF inv u f g])
      (use stage[OF stage_of[OF inv u f]] hold later pipe_invD(1)[OF inv] in \<open>auto simp: settle_rows_HELD\<close>)
  then show ?thesis by (simp add: write_file_id)
qed

lemma move_file:
  assumes inv: "pipe_inv db" and h: "\<And>x. f_id (h x) = f_id x"
    and stage: "\<And>f st. f \<in> set (v_files db) \<Longrightarrow> f_id f = i \<Longrightarrow> stage_ok st (f_status f) (f_malware_scan_status f) \<Longrightarrow>
      stage_ok st (f_status (h f)) (f_malware_scan_status (h f))"
  shows "pipe_move db (write_file i h db)"
proof (cases "\<exists>f \<in> set (v_files db). f_id f = i")
  case True
  then obtain f where f: "f \<in> set (v_files db)" "f_id f = i" by blast
  obtain u where u: "u \<in> set (v_uploads db)" "f_id f = us_file_id u" using pipe_invD(7)[OF inv f(1)] by metis
  have "pipe_move db (write_file (f_id f) h (write_upload (us_id u) (\<lambda>x. x) (db\<lparr>v_quota := v_quota db\<rparr>)))"
    by (rule move_session[where rst = HELD, OF inv u(1) f(1) u(2)])
      (use stage[OF f stage_of[OF inv u(1) f(1) u(2)]] h pipe_invD(1)[OF inv] in \<open>auto simp: settle_rows_HELD status_later_refl\<close>)
  then show ?thesis by (simp add: f(2) write_upload_id)
next
  case False
  then have "write_file i h db = db"
    unfolding write_file_def by (subst update_where_none) auto
  with inv show ?thesis by (simp add: pipe_move_same)
qed

lemma move_file_frame:
  assumes "pipe_inv db" "\<And>x. f_id (h x) = f_id x" "\<And>x. f_status (h x) = f_status x"
    "\<And>x. f_malware_scan_status (h x) = f_malware_scan_status x"
  shows "pipe_move db (write_file i h db)"
  using assms by (intro move_file) auto

text \<open>Settling a session in the quota ledger, as a change of rows.\<close>

lemma settle_session_rows:
  assumes "quota_inv db" "st \<noteq> HELD" "fold_r (settle_one charge st) db (held_reservations sid db) = Inr db'"
  shows "quota_inv db'" "q_reservations db' = settle_rows sid st (q_reservations db)"
proof -
  note h = held_reservations_facts[OF assms(1), where sid = sid]
  obtain d where d: "fold_r (settle_one charge st) db (held_reservations sid db) = Inr d" "quota_inv d"
    "q_reservations d = map (mark (held_reservations sid db) st) (q_reservations db)"
    using settle_foldE[OF assms(1) h(1,2,3) assms(2)] by metis
  then have "d = db'" using assms(3) by simp
  with d show "quota_inv db'" by simp
  show "q_reservations db' = settle_rows sid st (q_reservations db)"
    using d(3) \<open>d = db'\<close> mark_session[OF _ assms(1)] by (simp add: settle_rows_def update_where_def)
qed

lemmas consume_session_rows = settle_session_rows[where charge = True and st = CONSUMED, folded consume_upload_eq, simplified]
lemmas release_session_rows = settle_session_rows[where charge = False, folded release_upload_eq]

lemma settle_session_ok:
  "quota_inv q \<Longrightarrow> \<exists>q'. consume_upload_reservations sid q = Inr q'"
  "quota_inv q \<Longrightarrow> st \<noteq> HELD \<Longrightarrow> \<exists>q'. release_upload_reservations sid st q = Inr q'"
  unfolding consume_upload_eq release_upload_eq
  by (metis settle_sessionE reservation_status.distinct(1)) (metis settle_sessionE)

section \<open>Every transaction is a move\<close>

lemma record_storage_move:
  assumes inv: "pipe_inv db" and ok: "record_storage_upload uid sid upload_id db = Inr (x, db')"
  shows "pipe_move db db'"
proof -
  obtain u f where o: "owned_upload db sid uid = Inr (u, f)"
    and r: "db' = write_upload (us_id u) (\<lambda>u. u\<lparr>us_storage_upload_id := upload_id\<rparr>) db \<or> db' = db"
    using ok unfolding record_storage_upload_def by (auto simp: result_simps split: if_split_asm)
  have "pipe_move db (write_upload (us_id u) (\<lambda>u. u\<lparr>us_storage_upload_id := upload_id\<rparr>) db)"
    by (rule move_status[OF inv owned_uploadD(1)[OF o]]) (simp_all add: status_later_refl)
  with r inv show ?thesis by (auto intro: pipe_move_same)
qed

lemma record_initiated_move:
  "pipe_inv db \<Longrightarrow> record_initiated co now rid uid sid mode upload_id db = Inr (x, db') \<Longrightarrow> pipe_move db db'"
  unfolding record_initiated_def by (auto simp: result_simps dest: record_storage_move)

lemma complete_beginD:
  assumes "complete_begin now access sid parts db = Inr (Inr fz, db')"
  obtains u f where "owned_upload db sid (u_id (ac_user access)) = Inr (u, f)"
    "us_status u = UPLOAD_INITIATED \<or> us_status u = UPLOAD_FINALIZING" "fz_upload_session_id fz = sid"
    "fz_actor_id fz = u_id (ac_user access)"
    "db' = write_upload (us_id u) (\<lambda>x. x\<lparr>us_status := UPLOAD_FINALIZING,
       us_expires_at := max (us_expires_at u) (now + minutes 15)\<rparr>) db"
  using assms unfolding complete_begin_def by (auto simp: result_simps split: if_split_asm)

lemma complete_begin_move:
  assumes inv: "pipe_inv db" and ok: "complete_begin now access sid parts db = Inr (Inr fz, db')"
  shows "pipe_move db db'"
proof -
  obtain u f where o: "owned_upload db sid (u_id (ac_user access)) = Inr (u, f)"
    and st: "us_status u = UPLOAD_INITIATED \<or> us_status u = UPLOAD_FINALIZING"
    and db': "db' = write_upload (us_id u) (\<lambda>x. x\<lparr>us_status := UPLOAD_FINALIZING,
       us_expires_at := max (us_expires_at u) (now + minutes 15)\<rparr>) db"
    using ok by (rule complete_beginD)
  show ?thesis unfolding db'
    by (rule move_status[OF inv owned_uploadD(1)[OF o]]) (use st in auto)
qed

text \<open>The three ways a session ends: charged, released with its file failed, or only released.\<close>

lemma charge_move:
  assumes inv: "pipe_inv db" and u: "u \<in> set (v_uploads db)" and f: "f \<in> set (v_files db)" "f_id f = us_file_id u"
    and st: "us_status u = UPLOAD_FINALIZING"
    and q: "consume_upload_reservations (us_id u) (v_quota db) = Inr q"
    and h: "\<And>x. f_id (h x) = f_id x" "f_status (h f) = FILE_QUARANTINED" "f_malware_scan_status (h f) \<noteq> SCAN_CLEAN"
  shows "pipe_move db (write_file (f_id f) h (write_upload (us_id u)
     (\<lambda>x. x\<lparr>us_status := UPLOAD_COMPLETED, us_completed_at := Some now\<rparr>) (db\<lparr>v_quota := q\<rparr>)))"
  by (rule move_session[where rst = CONSUMED, OF inv u f])
    (use st h consume_session_rows[OF pipe_invD(1)[OF inv] q] in auto)

lemma release_move:
  assumes inv: "pipe_inv db" and u: "u \<in> set (v_uploads db)" and f: "f \<in> set (v_files db)" "f_id f = us_file_id u"
    and st: "us_status u \<noteq> UPLOAD_COMPLETED"
    and q: "release_upload_reservations (us_id u) rst (v_quota db) = Inr q" "rst = RELEASED \<or> rst = EXPIRED"
    and st': "st' = UPLOAD_FAILED \<or> st' = UPLOAD_ABORTED \<or> st' = UPLOAD_EXPIRED" "us_status u = UPLOAD_ABORTED \<Longrightarrow> st' = UPLOAD_ABORTED"
  shows "pipe_move db (write_file (f_id f) (\<lambda>x. x\<lparr>f_status := FILE_FAILED\<rparr>) (write_upload (us_id u)
     (\<lambda>x. x\<lparr>us_status := st'\<rparr>) (db\<lparr>v_quota := q\<rparr>)))"
proof (rule move_session[where rst = rst, OF inv u f])
  note s = stage_of[OF inv u f]
  have rst: "rst \<noteq> HELD" using q(2) by auto
  show "quota_inv q" "q_reservations q = settle_rows (us_id u) rst (q_reservations (v_quota db))"
    using release_session_rows[OF pipe_invD(1)[OF inv] rst q(1)] by simp_all
  show "stage_ok (us_status (u\<lparr>us_status := st'\<rparr>)) (f_status (f\<lparr>f_status := FILE_FAILED\<rparr>))
      (f_malware_scan_status (f\<lparr>f_status := FILE_FAILED\<rparr>))"
    using s st st'(1) by (cases "us_status u") auto
  show "hold_fits (us_status (u\<lparr>us_status := st'\<rparr>)) (if x = HELD then rst else x)" if "hold_fits (us_status u) x" for x
    using that st st'(1) q(2) by (cases "us_status u"; cases x) auto
  show "status_later (us_status u) (us_status (u\<lparr>us_status := st'\<rparr>))"
    using st st' by (cases "us_status u") auto
qed simp_all

lemma finish_file_simps [simp]:
  "f_id (finish_file key stored f) = f_id f" "f_status (finish_file key stored f) = FILE_QUARANTINED"
  "f_malware_scan_status (finish_file key stored f) = f_malware_scan_status f"
  by (simp_all add: finish_file_def Let_def)

lemma complete_reject_move:
  assumes inv: "pipe_inv db" and ok: "complete_reject co now rid fz action details db = Inr (b, db')"
  shows "pipe_move db db'"
proof -
  obtain access where r: "record_finalization_rejection co now rid access (fz_upload_session_id fz) action details db = Inr (b, db')"
    using ok unfolding complete_reject_def by (auto simp: result_simps)
  then obtain u f where o: "owned_upload db (fz_upload_session_id fz) (u_id (ac_user access)) = Inr (u, f)"
    by (auto simp: record_finalization_rejection_def result_simps)
  note od = owned_uploadD[OF o]
  show ?thesis
  proof (cases "us_status u = UPLOAD_FINALIZING")
    case False
    with r o have "db' = db" by (simp add: record_finalization_rejection_def)
    with inv show ?thesis by (simp add: pipe_move_same)
  next
    case True
    with r o obtain q where q: "release_upload_reservations (us_id u) RELEASED (v_quota db) = Inr q"
      and db': "db' = audit_pipe now action DENIED ''file'' (Some (u_id (ac_user access))) (co_str_uuid co (f_id f))
              rid None details (write_file (f_id f) (\<lambda>f. f\<lparr>f_status := FILE_FAILED\<rparr>)
                (write_upload (us_id u) (\<lambda>u. u\<lparr>us_status := UPLOAD_FAILED\<rparr>) (db\<lparr>v_quota := q\<rparr>)))"
      by (auto simp: record_finalization_rejection_def result_simps)
    show ?thesis unfolding db' pipe_move_audit
      by (rule release_move[OF inv od(1,4,5) _ q]) (use True in auto)
  qed
qed

lemma complete_commitD:
  assumes "complete_commit co now rid fz stored db = Inr (file, db')"
  obtains access u f where "reauthorize_upload_finalization db now (fz_actor_id fz) (fz_token_version fz) = Inr access"
    "owned_upload db (fz_upload_session_id fz) (u_id (ac_user access)) = Inr (u, f)"
    "us_status u = UPLOAD_COMPLETED" "file = f" "db' = db"
  | access u f q where "reauthorize_upload_finalization db now (fz_actor_id fz) (fz_token_version fz) = Inr access"
    "owned_upload db (fz_upload_session_id fz) (u_id (ac_user access)) = Inr (u, f)"
    "us_status u = UPLOAD_FINALIZING" "require_kb_editor db access (f_knowledge_base_id f) = Inr ()"
    "consume_upload_reservations (us_id u) (v_quota db) = Inr q" "file = finish_file (fz_final_key fz) stored f"
    "db' = audit_pipe now ''upload.completed'' SUCCESS ''file'' (Some (u_id (ac_user access)))
              (co_str_uuid co (f_id f)) rid None quarantined_details
              (write_file (f_id f) (finish_file (fz_final_key fz) stored)
                (write_upload (us_id u)
                  (\<lambda>u. u\<lparr>us_status := UPLOAD_COMPLETED, us_completed_at := Some now\<rparr>) (db\<lparr>v_quota := q\<rparr>)))"
proof -
  obtain access u f where a: "reauthorize_upload_finalization db now (fz_actor_id fz) (fz_token_version fz) = Inr access"
    and o: "owned_upload db (fz_upload_session_id fz) (u_id (ac_user access)) = Inr (u, f)"
    using assms unfolding complete_commit_def by (fastforce simp: bind_r_eq_Inr)
  note ok = assms[unfolded complete_commit_def a o bind_r_Inr prod.case]
  show thesis
  proof (cases "us_status u = UPLOAD_COMPLETED")
    case True
    with ok have "file = f" "db' = db" by simp_all
    with True a o that(1) show ?thesis by blast
  next
    case False
    with ok have st: "us_status u = UPLOAD_FINALIZING" by (simp split: if_split_asm)
    from ok False st obtain q where "require_kb_editor db access (f_knowledge_base_id f) = Inr ()"
      "consume_upload_reservations (us_id u) (v_quota db) = Inr q" "file = finish_file (fz_final_key fz) stored f"
      "db' = audit_pipe now ''upload.completed'' SUCCESS ''file'' (Some (u_id (ac_user access)))
              (co_str_uuid co (f_id f)) rid None quarantined_details
              (write_file (f_id f) (finish_file (fz_final_key fz) stored)
                (write_upload (us_id u)
                  (\<lambda>u. u\<lparr>us_status := UPLOAD_COMPLETED, us_completed_at := Some now\<rparr>) (db\<lparr>v_quota := q\<rparr>)))"
      by (auto simp: bind_r_eq_Inr map_error_eq_Inr)
    with a o st that(2) show ?thesis by blast
  qed
qed

lemma complete_commit_move:
  assumes inv: "pipe_inv db" and ok: "complete_commit co now rid fz stored db = Inr (file, db')"
  shows "pipe_move db db'"
  using ok
proof (cases rule: complete_commitD)
  case 1
  with inv show ?thesis by (simp add: pipe_move_same)
next
  case (2 access u f q)
  note od = owned_uploadD[OF 2(2)]
  show ?thesis unfolding 2(7) pipe_move_audit
    by (rule charge_move[OF inv od(1,4,5) 2(3,5)]) (use stage_of[OF inv od(1,4,5)] 2(3) in auto)
qed

lemma abort_begin_move:
  assumes inv: "pipe_inv db" and ok: "abort_begin now access sid db = Inr (AbortStorage s key storage_id, db')"
  shows "pipe_move db db'" and "\<exists>u \<in> set (v_uploads db'). us_id u = sid \<and> us_status u = UPLOAD_ABORTED"
proof -
  obtain u f where o: "owned_upload db sid (u_id (ac_user access)) = Inr (u, f)"
    using ok by (auto simp: abort_begin_def result_simps)
  note od = owned_uploadD[OF o]
  let ?db = "write_file (f_id f) (\<lambda>f. f\<lparr>f_status := FILE_FAILED\<rparr>)
     (write_upload (us_id u) (\<lambda>u. u\<lparr>us_status := UPLOAD_ABORTED, us_expires_at := now\<rparr>) db)"
  from ok o have c: "us_status u = UPLOAD_ABORTED \<and> db' = db \<or>
      us_status u \<noteq> UPLOAD_ABORTED \<and> us_status u \<noteq> UPLOAD_COMPLETED \<and> us_status u \<noteq> UPLOAD_EXPIRED \<and> db' = ?db"
    by (auto simp: abort_begin_def split: if_split_asm)
  have m: "pipe_move db ?db" if st: "us_status u \<noteq> UPLOAD_COMPLETED"
  proof -
    have "pipe_move db (write_file (f_id f) (\<lambda>f. f\<lparr>f_status := FILE_FAILED\<rparr>) (write_upload (us_id u)
       (\<lambda>u. u\<lparr>us_status := UPLOAD_ABORTED, us_expires_at := now\<rparr>) (db\<lparr>v_quota := v_quota db\<rparr>)))"
    proof (rule move_session[where rst = HELD, OF inv od(1,4,5)])
      show "stage_ok (us_status (u\<lparr>us_status := UPLOAD_ABORTED, us_expires_at := now\<rparr>))
         (f_status (f\<lparr>f_status := FILE_FAILED\<rparr>)) (f_malware_scan_status (f\<lparr>f_status := FILE_FAILED\<rparr>))"
        using stage_of[OF inv od(1,4,5)] st by (cases "us_status u") auto
      show "hold_fits (us_status (u\<lparr>us_status := UPLOAD_ABORTED, us_expires_at := now\<rparr>)) (if x = HELD then HELD else x)"
        if "hold_fits (us_status u) x" for x using that st by (cases "us_status u") auto
      show "status_later (us_status u) (us_status (u\<lparr>us_status := UPLOAD_ABORTED, us_expires_at := now\<rparr>))"
        using st by (cases "us_status u") auto
    qed (use pipe_invD(1)[OF inv] in \<open>simp_all add: settle_rows_HELD\<close>)
    then show ?thesis by simp
  qed
  from c m inv show "pipe_move db db'" by (auto intro: pipe_move_same)
  have "\<exists>x \<in> set (v_uploads ?db). us_id x = sid \<and> us_status x = UPLOAD_ABORTED"
    using od(1,2) unfolding write_upload_def write_file_def set_update_where
    by (intro bexI[of _ "u\<lparr>us_status := UPLOAD_ABORTED, us_expires_at := now\<rparr>"]) (auto simp: set_update_where)
  with c od(1,2) show "\<exists>u \<in> set (v_uploads db'). us_id u = sid \<and> us_status u = UPLOAD_ABORTED" by auto
qed

lemma abort_finish_move:
  assumes inv: "pipe_inv db" and ok: "abort_finish co now rid uid sid db = Inr (x, db')"
    and ab: "\<exists>u \<in> set (v_uploads db). us_id u = sid \<and> us_status u = UPLOAD_ABORTED"
  shows "pipe_move db db'"
proof -
  obtain u f where o: "owned_upload db sid uid = Inr (u, f)" using ok by (auto simp: abort_finish_def result_simps)
  note od = owned_uploadD[OF o]
  have st: "us_status u = UPLOAD_ABORTED" using ab od(1,2) keyed_unique[OF pipe_invD(3)[OF inv]] by blast
  show ?thesis
  proof (cases "has_held_upload_reservation db (us_id u)")
    case False
    with ok o have "db' = db" by (simp add: abort_finish_def)
    with inv show ?thesis by (simp add: pipe_move_same)
  next
    case True
    with ok o obtain q where q: "release_upload_reservations (us_id u) RELEASED (v_quota db) = Inr q"
      and db': "db' = audit_pipe now ''upload.aborted'' SUCCESS ''file'' (Some uid) (co_str_uuid co (f_id f)) rid None
         (JObj []) (db\<lparr>v_quota := q\<rparr>)"
      by (auto simp: abort_finish_def result_simps)
    have "pipe_move db (write_file (f_id f) (\<lambda>x. x) (write_upload (us_id u) (\<lambda>x. x) (db\<lparr>v_quota := q\<rparr>)))"
      by (rule move_session[where rst = RELEASED, OF inv od(1,4,5)])
        (use st stage_of[OF inv od(1,4,5)] release_session_rows[OF pipe_invD(1)[OF inv] _ q] in auto)
    then show ?thesis by (simp add: db' write_file_id write_upload_id)
  qed
qed

lemma claim_nextD:
  assumes "claim_next now locked db = Some (claim, db')"
  obtains u f where "u \<in> set (v_uploads db)" "cleanup_eligible now db u" "us_id u \<notin> set locked"
    "f \<in> set (v_files db)" "f_id f = us_file_id u" "(claim, db') = cleanup_claim_upload now u f db"
proof -
  obtain u us where s: "sort_key us_expires_at (filter (\<lambda>u. cleanup_eligible now db u \<and> us_id u \<notin> set locked) (v_uploads db)) = u # us"
    using assms by (auto simp: claim_next_def split: list.split_asm)
  then have "u \<in> set (filter (\<lambda>u. cleanup_eligible now db u \<and> us_id u \<notin> set locked) (v_uploads db))"
    by (metis list.set_intros(1) set_sort)
  moreover obtain f where f: "file_of db (us_file_id u) = Some f" "(claim, db') = cleanup_claim_upload now u f db"
    using assms s by (auto simp: claim_next_def)
  moreover have "f \<in> set (v_files db) \<and> f_id f = us_file_id u"
    using f(1) unfolding file_of_def by (blast dest: find_Some_in_set)
  ultimately show thesis using that by auto
qed

lemma claim_next_move:
  assumes inv: "pipe_inv db" and ok: "claim_next now locked db = Some (claim, db')"
  shows "pipe_move db db'"
proof -
  obtain u f where u: "u \<in> set (v_uploads db)" "cleanup_eligible now db u"
    and c: "(claim, db') = cleanup_claim_upload now u f db" using ok by (rule claim_nextD)
  have db': "db' = write_upload (us_id u)
        (\<lambda>x. x\<lparr>us_status := (if us_status u = UPLOAD_INITIATED then UPLOAD_EXPIRED else us_status u),
                us_expires_at := now + minutes 15\<rparr>) db"
    using c by (simp add: cleanup_claim_upload_def)
  show ?thesis unfolding db'
    by (rule move_status[OF inv u(1)]) (auto simp: status_later_refl)
qed

lemma reconcile_publish_move:
  assumes inv: "pipe_inv db" and ok: "reconcile_publish co now claim key stored db = Inr (b, db')"
  shows "pipe_move db db'"
proof (cases "joined_upload db (kc_upload_id claim)")
  case None
  with ok have "db' = db" by (simp add: reconcile_publish_def)
  with inv show ?thesis by (simp add: pipe_move_same)
next
  case (Some p)
  then obtain u f where j: "joined_upload db (kc_upload_id claim) = Some (u, f)" by (cases p) auto
  note jd = joined_uploadD[OF j]
  show ?thesis
  proof (cases "us_status u = UPLOAD_FINALIZING")
    case False
    with ok j have "db' = db" by (simp add: reconcile_publish_def)
    with inv show ?thesis by (simp add: pipe_move_same)
  next
    case True
    with ok j obtain q where q: "consume_upload_reservations (us_id u) (v_quota db) = Inr q"
      and db': "db' = audit_pipe now ''upload.finalization_reconciled'' SUCCESS ''file'' None (co_str_uuid co (f_id f)) None None
                quarantined_details
                (write_file (f_id f) (\<lambda>f. (finish_file key stored f)\<lparr>f_malware_scan_status := SCAN_PENDING\<rparr>)
                  (write_upload (us_id u)
                    (\<lambda>u. u\<lparr>us_status := UPLOAD_COMPLETED, us_completed_at := Some now\<rparr>) (db\<lparr>v_quota := q\<rparr>)))"
      by (auto simp: reconcile_publish_def jd(2) result_simps)
    show ?thesis unfolding db' pipe_move_audit
      by (rule charge_move[OF inv jd(1,3,4) True q]) auto
  qed
qed

lemma reconcile_release_move:
  assumes inv: "pipe_inv db" and ok: "reconcile_release co now claim rejection db = Inr db'"
  shows "pipe_move db db'"
proof (cases "joined_upload db (kc_upload_id claim)")
  case None
  with ok have "db' = db" by (simp add: reconcile_release_def)
  with inv show ?thesis by (simp add: pipe_move_same)
next
  case (Some p)
  then obtain u f where j: "joined_upload db (kc_upload_id claim) = Some (u, f)" by (cases p) auto
  note jd = joined_uploadD[OF j]
  show ?thesis
  proof (cases "us_status u = UPLOAD_COMPLETED")
    case True
    with ok j have "db' = db" by (simp add: reconcile_release_def)
    with inv show ?thesis by (simp add: pipe_move_same)
  next
    case False
    define aborted where "aborted = (kc_original_status claim = UPLOAD_ABORTED \<or> us_status u = UPLOAD_ABORTED)"
    define failed where "failed = (kc_original_status claim = UPLOAD_FINALIZING \<and> rejection \<noteq> None)"
    let ?w = "\<lambda>q. write_file (f_id f) (\<lambda>f. f\<lparr>f_status := FILE_FAILED\<rparr>)
          (write_upload (us_id u) (\<lambda>u. u\<lparr>us_status := (if aborted then UPLOAD_ABORTED else if failed then UPLOAD_FAILED
             else UPLOAD_EXPIRED)\<rparr>) (db\<lparr>v_quota := q\<rparr>))"
    define a where "a = (if aborted then ''upload.abort_reconciled''
       else case rejection of None \<Rightarrow> ''upload.expired'' | Some (action, _) \<Rightarrow> action)"
    define d where "d = (case rejection of None \<Rightarrow> JObj [] | Some (_, details) \<Rightarrow> details)"
    define res where "res = (if failed then DENIED else SUCCESS)"
    have j': "joined_upload db (us_id u) = Some (u, f)" using j jd(2) by simp
    have "bind_r (map_error (\<lambda>_. ()) (release_upload_reservations (us_id u)
        (if aborted \<or> failed then RELEASED else EXPIRED) (v_quota db)))
        (\<lambda>q. Inr (audit_pipe now a res ''file'' None (co_str_uuid co (f_id f)) None None d (?w q))) = Inr db'"
      using ok False unfolding reconcile_release_def jd(2)[symmetric] j' aborted_def failed_def a_def d_def res_def
      by (simp only: option.case prod.case Let_def if_False)
    then obtain q where
      q: "release_upload_reservations (us_id u) (if aborted \<or> failed then RELEASED else EXPIRED) (v_quota db) = Inr q"
      and db': "db' = audit_pipe now a res ''file'' None (co_str_uuid co (f_id f)) None None d (?w q)"
      by (auto simp: bind_r_eq_Inr map_error_eq_Inr)
    show ?thesis unfolding db' pipe_move_audit
      by (rule release_move[OF inv jd(1,3,4) False q]) (auto simp: aborted_def)
  qed
qed

lemma scan_claim_move:
  assumes inv: "pipe_inv db" and ok: "claim_next_malware_scan co now reclaim locked lease db = Some (c, db')"
  shows "pipe_move db db'"
proof -
  obtain f fs where s: "sort_key f_created_at (filter (\<lambda>f. scan_due now f \<and> f_id f \<notin> set locked) (v_files db)) = f # fs"
    using ok by (auto simp: claim_next_malware_scan_def split: list.split_asm)
  then have "f \<in> set (filter (\<lambda>f. scan_due now f \<and> f_id f \<notin> set locked) (v_files db))"
    by (metis list.set_intros(1) set_sort)
  then have f: "f \<in> set (v_files db)" "scan_due now f" by auto
  have "pipe_move db (write_file (f_id f) (claim_scan_row now reclaim lease) db)"
  proof (rule move_file[OF inv])
    fix x st assume x: "x \<in> set (v_files db)" "f_id x = f_id f" "stage_ok st (f_status x) (f_malware_scan_status x)"
    then have "x = f" using keyed_unique[OF pipe_invD(2)[OF inv]] f(1) by blast
    with x f(2) show "stage_ok st (f_status (claim_scan_row now reclaim lease x))
        (f_malware_scan_status (claim_scan_row now reclaim lease x))"
      by (cases st) (auto simp: scan_due_def claim_scan_row_def)
  qed (simp add: claim_scan_row_def)
  with ok s show ?thesis by (auto simp: claim_next_malware_scan_def)
qed

lemma enqueue_move:
  assumes inv: "pipe_inv db" and ok: "enqueue_okf_conversion now jid file db = Inr (c, db')"
  shows "pipe_move db db'"
proof -
  have j: "pipe_inv (db\<lparr>v_jobs := js\<rparr>)" for js using inv by simp
  have "pipe_move db (write_file (f_id file) (\<lambda>f. f\<lparr>f_knowledge_status := INGEST_PENDING, f_knowledge_error_code := None\<rparr>)
      (db\<lparr>v_jobs := js\<rparr>))" for js
    using move_file_frame[OF j, of "\<lambda>f. f\<lparr>f_knowledge_status := INGEST_PENDING, f_knowledge_error_code := None\<rparr>"]
    by (simp add: pipe_move_def uploads_later_def)
  then show ?thesis using ok inv
    by (auto simp: enqueue_okf_conversion_def Let_def intro: pipe_move_same split: option.split_asm if_split_asm)
qed

lemma pipe_move_trans: "pipe_move a b \<Longrightarrow> pipe_move b c \<Longrightarrow> pipe_move a c"
  unfolding pipe_move_def uploads_later_def later_upload_def
  by (metis status_later_trans)

lemma scan_finish_move:
  assumes inv: "pipe_inv db" and ok: "finish_malware_scan co now jid c outcome db = Inr db'"
  shows "pipe_move db db'"
proof (cases "find (scan_current c) (v_files db)")
  case None
  with ok have "db' = db" by (simp add: finish_malware_scan_def)
  with inv show ?thesis by (simp add: pipe_move_same)
next
  case (Some f)
  then have f: "f \<in> set (v_files db)" "scan_current c f" by (blast dest: find_Some_in_set)+
  have m: "pipe_move db (write_file (f_id f) (scanned_row now outcome) db)"
  proof (rule move_file[OF inv])
    fix x st assume x: "x \<in> set (v_files db)" "f_id x = f_id f" "stage_ok st (f_status x) (f_malware_scan_status x)"
    then have "x = f" using keyed_unique[OF pipe_invD(2)[OF inv]] f(1) by blast
    with x f(2) show "stage_ok st (f_status (scanned_row now outcome x)) (f_malware_scan_status (scanned_row now outcome x))"
      by (cases st) (auto simp: scan_current_def scanned_row_def Let_def split: scan_outcome.split)
  qed (simp add: scanned_row_def Let_def split: scan_outcome.split)
  have inv1: "pipe_inv (write_file (f_id f) (scanned_row now outcome) db)" using m by (simp add: pipe_move_def)
  show ?thesis
  proof (cases outcome)
    case ScanClean
    with ok Some obtain cv db2 where
      e: "enqueue_okf_conversion now jid (scanned_row now outcome f) (write_file (f_id f) (scanned_row now outcome) db) = Inr (cv, db2)"
      and db': "pipe_move db db' = pipe_move db db2"
      by (auto simp: finish_malware_scan_def Let_def result_simps split: option.split_asm)
    show ?thesis unfolding db' by (rule pipe_move_trans[OF m enqueue_move[OF inv1 e]])
  qed (use ok Some m in \<open>auto simp: finish_malware_scan_def Let_def\<close>)
qed

lemma move_job_file:
  assumes "pipe_inv db" "\<And>x. f_id (h x) = f_id x" "\<And>x. f_status (h x) = f_status x"
    "\<And>x. f_malware_scan_status (h x) = f_malware_scan_status x"
  shows "pipe_move db (write_file i h (write_job j k db))"
proof -
  have inv: "pipe_inv (write_job j k db)" using assms(1) by simp
  have "pipe_move (write_job j k db) (write_file i h (write_job j k db))"
    by (rule move_file_frame[OF inv assms(2-4)])
  then show ?thesis by (simp add: pipe_move_def uploads_later_def)
qed

lemma claim_job_move: "pipe_inv db \<Longrightarrow> claim_job st now locked lease db = Some (j, db') \<Longrightarrow> pipe_move db db'"
  by (auto simp: claim_job_def intro!: pipe_move_same split: list.split_asm if_split_asm)

lemma persist_result_move:
  assumes inv: "pipe_inv db" and ok: "persist_result co now eid jid lease cf result parsed db = Inr db'"
  shows "pipe_move db db'"
proof (cases "find (leased_job jid lease) (v_jobs db) = None \<or> find (claimed_file_identity cf) (v_files db) = None")
  case True
  with ok have "db' = db" by (auto simp: persist_result_def split: option.split_asm)
  with inv show ?thesis by (simp add: pipe_move_same)
next
  case False
  let ?h = "\<lambda>r :: file_row. r\<lparr>f_knowledge_status := DRAFT_READY, f_knowledge_error_code := None\<rparr>"
  from False obtain job f where jf: "find (leased_job jid lease) (v_jobs db) = Some job"
    "find (claimed_file_identity cf) (v_files db) = Some f" by auto
  with ok obtain db1 where
    e: "insert_entry (okf_entry co now eid job cf result parsed) (write_file (f_id f) ?h db) = Inr db1"
    and db': "v_uploads db' = v_uploads db1" "v_files db' = v_files db1" "v_quota db' = v_quota db1"
    unfolding persist_result_def jf option.case audit_job_def by (auto simp: bind_r_eq_Inr)
  have m: "pipe_move db (write_file (f_id f) ?h db)" by (rule move_file_frame[OF inv]) simp_all
  have "pipe_move (write_file (f_id f) ?h db) db'"
    by (rule pipe_move_same) (use m insert_entry_frame[OF e] db' in \<open>auto simp: pipe_move_def\<close>)
  with m show ?thesis by (rule pipe_move_trans)
qed

lemma mark_failure_move: "pipe_inv db \<Longrightarrow> pipe_move db (mark_failure co st now jid lease code retryable db)"
  by (auto simp: mark_failure_def audit_job_def Let_def pipe_move_same intro!: move_job_file split: option.split)

lemma finish_terminal_move: "pipe_inv db \<Longrightarrow> pipe_move db (finish_terminal co now jid lease status code db)"
  by (auto simp: finish_terminal_def audit_job_def pipe_move_same intro!: move_job_file split: option.split)

lemma retry_move: "pipe_inv db \<Longrightarrow> retry_okf_conversion co now rid access fid db = Inr (j, db') \<Longrightarrow> pipe_move db db'"
  by (auto simp: retry_okf_conversion_def result_simps intro!: move_job_file split: if_split_asm)

lemma approveD:
  assumes "approve_processed_file co now rid access fid db = Inr (row, db')"
  obtains f entry where "file_of db fid = Some f" "may_approve db access f = Inr ()"
    "f_malware_scan_status f = SCAN_CLEAN" "f_status f = FILE_PROCESSING" "approval_entry db f = Inr entry"
    "row = approved_row now f"
    "db' = audit_pipe now ''file.approved'' SUCCESS ''file'' (Some (u_id (ac_user access))) (co_str_uuid co (f_id f))
       rid None (JObj []) (publish_entry now entry (write_file (f_id f) (approved_row now) db))"
  using assms by (auto simp: approve_processed_file_def result_simps split: if_split_asm)

lemma approve_move:
  assumes inv: "pipe_inv db" and ok: "approve_processed_file co now rid access fid db = Inr (row, db')"
  shows "pipe_move db db'"
proof -
  obtain f entry where f: "file_of db fid = Some f" "f_malware_scan_status f = SCAN_CLEAN" "f_status f = FILE_PROCESSING"
    and db': "db' = audit_pipe now ''file.approved'' SUCCESS ''file'' (Some (u_id (ac_user access))) (co_str_uuid co (f_id f))
       rid None (JObj []) (publish_entry now entry (write_file (f_id f) (approved_row now) db))"
    using ok by (rule approveD)
  have fin: "f \<in> set (v_files db)" using f(1) unfolding file_of_def by (blast dest: find_Some_in_set)
  have "pipe_move db (write_file (f_id f) (approved_row now) db)"
  proof (rule move_file[OF inv])
    fix x st assume x: "x \<in> set (v_files db)" "f_id x = f_id f" "stage_ok st (f_status x) (f_malware_scan_status x)"
    then have "x = f" using keyed_unique[OF pipe_invD(2)[OF inv]] fin by blast
    with x f show "stage_ok st (f_status (approved_row now x)) (f_malware_scan_status (approved_row now x))"
      by (cases st) (auto simp: approved_row_def)
  qed (simp add: approved_row_def)
  then show ?thesis by (simp add: db' pipe_move_def uploads_later_def)
qed

lemma quota_move:
  assumes inv: "pipe_inv db" and q: "quota_inv q" "q_reservations q = q_reservations (v_quota db)"
  shows "pipe_move db (db\<lparr>v_quota := q\<rparr>)"
  using inv q by (simp add: pipe_move_def uploads_later_same pipe_inv_def file_ok_def reservation_ok_def)

lemma consume_move: "pipe_inv db \<Longrightarrow> consume uid key amount limit w (v_quota db) = Inr q \<Longrightarrow> pipe_move db (db\<lparr>v_quota := q\<rparr>)"
  by (rule quota_move) (auto dest: consumeD(3,6) pipe_invD(1))

lemma download_move:
  "pipe_inv db \<Longrightarrow> create_download_grant co st now rid ip access presign fid db = Inr (g, db') \<Longrightarrow> pipe_move db db'"
  by (auto simp: create_download_grant_def result_simps consume_move split: if_split_asm)

text \<open>Admission adds a session, its file and its held reservations.\<close>

lemma admit_newD:
  assumes "admit_new co st probe now ids access payload validated db = Inr (a, db')"
  obtains plan db1 q where "a = Admitted (new_upload (now + hours (fs_upload_session_hours st)) (snd ids) (fst ids)
        (u_id (ac_user access)) (iq_idempotency_key payload) (vu_size_bytes validated) plan)
       (new_file co st now (u_id (ac_user access)) (fst ids) payload validated plan) plan"
    "insert_upload (new_file co st now (u_id (ac_user access)) (fst ids) payload validated plan)
       (new_upload (now + hours (fs_upload_session_hours st)) (snd ids) (fst ids) (u_id (ac_user access))
          (iq_idempotency_key payload) (vu_size_bytes validated) plan) db = Inr db1"
    "reserve_many (u_id (ac_user access)) (snd ids) (upload_specs st now access (vu_size_bytes validated))
       (now + hours (fs_upload_session_hours st)) (v_quota db1) = Inr q"
    "db' = db1\<lparr>v_quota := q\<rparr>"
  using assms unfolding admit_new_def Let_def by (auto simp: result_simps new_upload_def split: if_split_asm)

lemma insert_uploadD:
  assumes "insert_upload f u db = Inr db1"
  shows "db1 = db\<lparr>v_files := v_files db @ [f], v_uploads := v_uploads db @ [u]\<rparr>"
    "\<forall>x \<in> set (v_files db). f_id x \<noteq> f_id f" "\<forall>x \<in> set (v_uploads db). us_id x \<noteq> us_id u \<and> us_file_id x \<noteq> us_file_id u"
    "\<forall>x \<in> set (v_uploads db). upload_request_key x \<noteq> upload_request_key u"
  using assms unfolding insert_upload_def by (auto simp: upload_request_key_def split: if_split_asm)

lemma add_session_move:
  assumes inv: "pipe_inv db" and ins: "insert_upload f u db = Inr db1"
    and f: "f_id f = us_file_id u" "stage_ok (us_status u) (f_status f) (f_malware_scan_status f)"
    and q: "quota_inv q" "q_reservations q = q_reservations (v_quota db) @ rs"
    and rs: "\<forall>r \<in> set rs. qr_upload_session_id r = us_id u \<and> qr_user_id r = us_user_id u \<and> hold_fits (us_status u) (qr_status r)"
  shows "pipe_move db (db1\<lparr>v_quota := q\<rparr>)"
proof -
  note i = pipe_invD[OF inv] and d = insert_uploadD[OF ins]
  have fo: "file_ok (db1\<lparr>v_quota := q\<rparr>) x" if "x \<in> set (v_uploads db)" for x
    using i(6)[OF that] by (auto simp: file_ok_def d(1))
  have ro: "reservation_ok (db1\<lparr>v_quota := q\<rparr>) r" if "r \<in> set (q_reservations (v_quota db))" for r
    using i(8)[OF that] by (auto simp: reservation_ok_def d(1))
  have ow: "\<exists>x \<in> set (v_uploads db @ [u]). us_file_id x = f_id y" if "y \<in> set (v_files db @ [f])" for y
    using that f(1) i(7) by auto
  have "pipe_inv (db1\<lparr>v_quota := q\<rparr>)"
    unfolding pipe_inv_def
  proof (intro conjI ballI)
    show "quota_inv (v_quota (db1\<lparr>v_quota := q\<rparr>))" using q(1) by simp
    show "keyed f_id (v_files (db1\<lparr>v_quota := q\<rparr>))" using i(2) d(2) by (auto simp: d(1) keyed_append)
    show "keyed us_id (v_uploads (db1\<lparr>v_quota := q\<rparr>))" "keyed us_file_id (v_uploads (db1\<lparr>v_quota := q\<rparr>))"
      using i(3,4) d(3) by (auto simp: d(1) keyed_append)
    show "keyed upload_request_key (v_uploads (db1\<lparr>v_quota := q\<rparr>))"
      using i(5) d(4) by (auto simp: d(1) keyed_append)
    show "file_ok (db1\<lparr>v_quota := q\<rparr>) x" if "x \<in> set (v_uploads (db1\<lparr>v_quota := q\<rparr>))" for x
      using that fo f by (auto simp: d(1) file_ok_def)
    show "\<exists>x \<in> set (v_uploads (db1\<lparr>v_quota := q\<rparr>)). us_file_id x = f_id y" if "y \<in> set (v_files (db1\<lparr>v_quota := q\<rparr>))" for y
      using that ow by (simp add: d(1))
    show "reservation_ok (db1\<lparr>v_quota := q\<rparr>) r" if "r \<in> set (q_reservations (v_quota (db1\<lparr>v_quota := q\<rparr>)))" for r
      using that ro rs by (auto simp: q(2) reservation_ok_def d(1))
  qed
  moreover have "uploads_later db (db1\<lparr>v_quota := q\<rparr>)"
    unfolding uploads_later_def using later_upload_refl by (auto simp: d(1))
  ultimately show ?thesis by (simp add: pipe_move_def)
qed

lemma admit_new_move:
  assumes inv: "pipe_inv db" and ok: "admit_new co st probe now ids access payload validated db = Inr (a, db')"
  shows "pipe_move db db'"
proof -
  let ?uid = "u_id (ac_user access)"
  let ?t = "now + hours (fs_upload_session_hours st)"
  obtain plan db1 q where
    ins: "insert_upload (new_file co st now ?uid (fst ids) payload validated plan)
       (new_upload ?t (snd ids) (fst ids) ?uid (iq_idempotency_key payload) (vu_size_bytes validated) plan) db = Inr db1"
    and r: "reserve_many ?uid (snd ids) (upload_specs st now access (vu_size_bytes validated)) ?t (v_quota db1) = Inr q"
    and db': "db' = db1\<lparr>v_quota := q\<rparr>"
    using ok by (rule admit_newD)
  have same: "v_quota db1 = v_quota db" using insert_uploadD(1)[OF ins] by simp
  have fold: "fold_r (reserve_one ?uid (snd ids) ?t) (v_quota db) (sort_key qs_key (upload_specs st now access (vu_size_bytes validated))) = Inr q"
    using r same by (simp add: reserve_many_def)
  show ?thesis unfolding db'
  proof (rule add_session_move[OF inv ins])
    show "quota_inv q" using reserve_many_inv[OF _ r] same pipe_invD(1)[OF inv] by simp
    show "q_reservations q = q_reservations (v_quota db) @
        map (new_reservation ?uid (snd ids) ?t) (sort_key qs_key (upload_specs st now access (vu_size_bytes validated)))"
      by (rule reserve_fold(3)[OF fold])
  qed (simp_all add: new_file_def new_upload_def new_reservation_def)
qed

lemma initiate_admit_move:
  assumes inv: "pipe_inv db" and ok: "initiate_admit co st probe now ids access payload db = Inr (a, db')"
  shows "pipe_move db db'"
proof -
  have "db' = db \<or> (\<exists>validated. admit_new co st probe now ids access payload validated db = Inr (a, db'))"
    using ok unfolding initiate_admit_def by (auto simp: result_simps split: if_split_asm option.split_asm)
  with inv show ?thesis by (auto intro: pipe_move_same admit_new_move)
qed

section \<open>The system\<close>

lemma flight_ok_later:
  "uploads_later db db' \<Longrightarrow> flight_ok db x \<Longrightarrow> flight_ok db' x"
  by (cases x) (auto simp: uploads_later_def later_upload_def, fastforce)

lemma pipe_step_move:
  assumes "pipe_step co s t" and "pipeline_inv s"
  shows "pipe_move (fst s) (fst t) \<and> (\<forall>x \<in> set (snd t). x \<in> set (snd s) \<or> flight_ok (fst t) x)"
  using assms
proof (induction rule: pipe_step.induct)
  case (finish_abort user_id sid fl now rid db u db')
  then have "\<exists>x \<in> set (v_uploads db). us_id x = sid \<and> us_status x = UPLOAD_ABORTED"
    by (auto simp: pipeline_inv_def)
  with finish_abort show ?case by (auto simp: pipeline_inv_def intro: abort_finish_move)
next
  case (begin_abort now access sid db s key storage_id db' fl)
  then show ?case using abort_begin_move[of db] by (auto simp: pipeline_inv_def)
next
  case (elsewhere db fl k)
  then show ?case by (auto simp: pipeline_inv_def intro: pipe_move_same)
qed (auto simp: pipeline_inv_def intro: initiate_admit_move record_storage_move record_initiated_move complete_begin_move
    complete_reject_move complete_commit_move claim_next_move reconcile_publish_move reconcile_release_move
    scan_claim_move scan_finish_move claim_job_move persist_result_move mark_failure_move finish_terminal_move
    retry_move approve_move download_move consume_move)

interpretation pipe_run: row_evolution "pipe_step co" pipeline_inv "\<lambda>s. v_uploads (fst s)" later_upload for co
proof unfold_locales
  fix s t assume st: "pipe_step co s t" and inv: "pipeline_inv s"
  note m = pipe_step_move[OF st inv]
  have "flight_ok (fst t) x" if "x \<in> set (snd t)" for x
    using m that inv flight_ok_later[of "fst s" "fst t"] by (auto simp: pipe_move_def pipeline_inv_def)
  with m show "pipeline_inv t" by (simp add: pipeline_inv_def pipe_move_def)
  show "\<exists>r' \<in> set (v_uploads (fst t)). later_upload r r'" if "r \<in> set (v_uploads (fst s))" for r
    using m that by (auto simp: pipe_move_def uploads_later_def)
next
  show "later_upload r r" for r by (rule later_upload_refl)
  show "later_upload a c" if "later_upload a b" "later_upload b c" for a b c
    using that status_later_trans by (auto simp: later_upload_def)
qed

definition pipe_start :: "pipe_db \<Rightarrow> bool" where
  "pipe_start db \<longleftrightarrow> v_files db = [] \<and> v_uploads db = [] \<and> v_quota db = empty_quota_db"

definition pipe_reachable :: "crypto_ops \<Rightarrow> pipeline \<Rightarrow> bool" where
  "pipe_reachable co s \<longleftrightarrow> (\<exists>db0. pipe_start db0 \<and> (pipe_step co)\<^sup>*\<^sup>* (db0, []) s)"

lemma pipe_start_inv: "pipe_start db \<Longrightarrow> pipeline_inv (db, [])"
  using quota_reachable_inv[OF quota_reachable.start]
  by (simp add: pipe_start_def pipeline_inv_def pipe_inv_def empty_quota_db_def)

lemma pipe_reachable_inv: "pipe_reachable co s \<Longrightarrow> pipeline_inv s"
  unfolding pipe_reachable_def using pipe_run.steps_inv pipe_start_inv by blast

end
