(* ===== verification/File_Runs.thy ===== *)
theory File_Runs
  imports File_Pipeline
begin

text \<open>
  The request handlers and the workers of the file pipeline, whole, are runs of its step relation whatever the other
  requests do at their commits; so everything proved of the relation holds of them. The reconciliation worker drains:
  when the object store answers, a pass settles every session whose time is over. The properties of the pipeline
  are at the end.
\<close>

section \<open>Handlers and workers as runs\<close>

text \<open>
  What others do while a request waits is itself a run of the system; requests in flight stay in flight.
\<close>

definition pipe_runs :: "crypto_ops \<Rightarrow> pipe_db \<Rightarrow> flight list \<Rightarrow> pipe_db \<Rightarrow> bool" where
  "pipe_runs co db fl db' \<longleftrightarrow> (\<exists>fl'. set fl \<subseteq> set fl' \<and> (pipe_step co)\<^sup>*\<^sup>* (db, fl) (db', fl'))"

definition meanwhile :: "crypto_ops \<Rightarrow> (pipe_db \<Rightarrow> pipe_db) \<Rightarrow> bool" where
  "meanwhile co between \<longleftrightarrow> (\<forall>db fl. pipe_runs co db fl (between db))"

lemma pipe_runs_refl: "pipe_runs co db fl db"
  unfolding pipe_runs_def by blast

lemma pipe_runs_step: "pipe_step co (db, fl) (db', fl') \<Longrightarrow> set fl \<subseteq> set fl' \<Longrightarrow> pipe_runs co db fl db'"
  unfolding pipe_runs_def by blast

lemma pipe_runs_trans:
  assumes "pipe_step co (db, fl) (db1, fl1)" "set fl \<subseteq> set fl1" "pipe_runs co db1 fl1 db2"
  shows "pipe_runs co db fl db2"
proof -
  obtain fl2 where "set fl1 \<subseteq> set fl2" "(pipe_step co)\<^sup>*\<^sup>* (db1, fl1) (db2, fl2)"
    using assms(3) unfolding pipe_runs_def by blast
  with assms(1,2) show ?thesis unfolding pipe_runs_def by (meson converse_rtranclp_into_rtranclp subset_trans)
qed

text \<open>Start a request, let the others run, and continue it: it is still in flight.\<close>

lemma pipe_runs_continue:
  assumes "pipe_runs co db1 fl1 db2" and "\<And>fl2. set fl1 \<subseteq> set fl2 \<Longrightarrow> pipe_runs co db2 fl2 db3"
  shows "pipe_runs co db1 fl1 db3"
proof -
  obtain fl2 where "set fl1 \<subseteq> set fl2" "(pipe_step co)\<^sup>*\<^sup>* (db1, fl1) (db2, fl2)"
    using assms(1) unfolding pipe_runs_def by blast
  moreover obtain fl3 where "set fl2 \<subseteq> set fl3" "(pipe_step co)\<^sup>*\<^sup>* (db2, fl2) (db3, fl3)"
    using assms(2)[OF calculation(1)] unfolding pipe_runs_def by blast
  ultimately show ?thesis unfolding pipe_runs_def by (meson rtranclp_trans subset_trans)
qed

lemma meanwhileD: "meanwhile co between \<Longrightarrow> pipe_runs co db fl (between db)"
  unfolding meanwhile_def by blast

lemma initiate_upload_runs:
  assumes m: "meanwhile co between"
  shows "pipe_runs co db fl (snd (initiate_upload co st probe now ids rid access payload replies between db))"
proof (cases "initiate_admit co st probe now ids access payload db")
  case (Inl e)
  then show ?thesis by (simp add: initiate_upload_def Let_def pipe_runs_refl)
next
  case (Inr p)
  obtain a db1 where p: "p = (a, db1)" by force
  have first: "pipe_runs co db fl db2" if "\<And>fl1. set fl \<subseteq> set fl1 \<Longrightarrow> pipe_runs co db1 fl1 db2" for db2
    by (rule pipe_runs_trans[OF pipe_step.admit[OF Inr[unfolded p]] order_refl that]) simp
  have stop: "pipe_runs co db fl db1" by (rule first) (rule pipe_runs_refl)
  have wait: "pipe_runs co db fl (between db1)" by (rule first) (rule meanwhileD[OF m])
  have second: "pipe_runs co db fl db3" if "\<And>fl2. pipe_runs co (between db1) fl2 db3" for db3
    by (rule first) (rule pipe_runs_continue[OF meanwhileD[OF m] that])
  have rs: "pipe_runs co (between db1) fl2 db3" if "record_storage_upload uid sid i (between db1) = Inr (x, db3)" for fl2 db3 uid sid i x
    by (rule pipe_runs_step[OF pipe_step.record_storage[OF that] order_refl])
  have rn: "pipe_runs co (between db1) fl2 db3" if "record_initiated co now rid uid sid mode i (between db1) = Inr (x, db3)" for fl2 db3 uid sid mode i x
    by (rule pipe_runs_step[OF pipe_step.record_new[OF that] order_refl])
  show ?thesis
    unfolding initiate_upload_def Let_def Inr p
    by (cases a) (auto simp: stop wait intro: second rs rn split: sum.split prod.split)
qed

lemma complete_upload_runs:
  assumes m: "meanwhile co between"
  shows "pipe_runs co db fl (snd (complete_upload co now now' rid access sid parts replies between db))"
proof (cases "complete_begin now access sid parts db")
  case (Inl e)
  then show ?thesis by (simp add: complete_upload_def pipe_runs_refl)
next
  case (Inr p)
  obtain a db1 where p: "p = (a, db1)" by force
  show ?thesis
  proof (cases a)
    case (Inl fr)
    with Inr p have "db1 = db"
      unfolding complete_begin_def by (auto simp: result_simps split: if_split_asm)
    then show ?thesis using Inr p Inl by (simp add: complete_upload_def pipe_runs_refl)
  next
    case fz: (Inr fz)
    have b: "pipe_step co (db, fl) (db1, Finalizing fz # fl)"
      using Inr p fz by (intro pipe_step.begin_completion[of now access sid parts]) simp
    have sub: "set fl \<subseteq> set (Finalizing fz # fl)" by auto
    have stop: "pipe_runs co db fl db1" by (rule pipe_runs_step[OF b sub])
    have wait: "pipe_runs co db fl (between db1)" by (rule pipe_runs_trans[OF b sub meanwhileD[OF m]])
    have go: "pipe_runs co db fl db3" if "\<And>fl2. Finalizing fz \<in> set fl2 \<Longrightarrow> pipe_runs co (between db1) fl2 db3" for db3
      by (rule pipe_runs_trans[OF b sub], rule pipe_runs_continue[OF meanwhileD[OF m]], rule that) auto
    have rej: "pipe_runs co db fl db3" if "complete_reject co now' rid fz action details (between db1) = Inr (x, db3)" for db3 action details x
      by (rule go, rule pipe_runs_step[OF pipe_step.reject_completion[OF _ that] order_refl])
    have com: "pipe_runs co db fl db3" if "completion_rejection fz stored = None"
        "complete_commit co now' rid fz stored (between db1) = Inr (x, db3)" for db3 stored x
      by (rule go, rule pipe_runs_step[OF pipe_step.commit_completion[OF _ that] order_refl])
    show ?thesis
      unfolding complete_upload_def Let_def Inr p fz
      by (auto simp: stop wait intro: rej com split: sum.split prod.split option.split)
  qed
qed

lemma abort_upload_runs:
  assumes m: "meanwhile co between"
  shows "pipe_runs co db fl (snd (abort_upload co now now' rid access sid storage_ok between db))"
proof (cases "abort_begin now access sid db")
  case (Inl e)
  then show ?thesis by (simp add: abort_upload_def pipe_runs_refl)
next
  case (Inr p)
  obtain a db1 where p: "p = (a, db1)" by force
  show ?thesis
  proof (cases a)
    case AbortDone
    with Inr p have "db1 = db" unfolding abort_begin_def by (auto simp: result_simps split: if_split_asm)
    then show ?thesis using Inr p AbortDone by (simp add: abort_upload_def pipe_runs_refl)
  next
    case (AbortStorage s key storage_id)
    let ?x = "Aborting (u_id (ac_user access)) sid"
    have b: "pipe_step co (db, fl) (db1, ?x # fl)"
      using Inr p AbortStorage by (intro pipe_step.begin_abort) simp
    have sub: "set fl \<subseteq> set (?x # fl)" by auto
    have stop: "pipe_runs co db fl db1" by (rule pipe_runs_step[OF b sub])
    have wait: "pipe_runs co db fl (between db1)" by (rule pipe_runs_trans[OF b sub meanwhileD[OF m]])
    have fin: "pipe_runs co db fl db3"
      if "abort_finish co now' rid (u_id (ac_user access)) sid (between db1) = Inr (x, db3)" for db3 x
    proof (rule pipe_runs_trans[OF b sub], rule pipe_runs_continue[OF meanwhileD[OF m]])
      fix fl2 assume "set (?x # fl) \<subseteq> set fl2"
      then have "?x \<in> set fl2" by auto
      then show "pipe_runs co (between db1) fl2 db3" by (rule pipe_runs_step[OF pipe_step.finish_abort[OF _ that] order_refl])
    qed
    have eq: "snd (abort_upload co now now' rid access sid storage_ok between db) =
        (if \<not> storage_ok then db1
         else case abort_finish co now' rid (u_id (ac_user access)) sid (between db1) of
           Inl e \<Rightarrow> between db1 | Inr r \<Rightarrow> snd r)"
      by (simp add: abort_upload_def Inr p AbortStorage Let_def split: sum.split prod.split)
    show ?thesis
    proof (cases "abort_finish co now' rid (u_id (ac_user access)) sid (between db1)")
      case Inl
      with eq show ?thesis by (simp add: stop wait)
    next
      case r: (Inr r)
      with fin[of "fst r" "snd r"] have "pipe_runs co db fl (snd r)" by (cases r) simp
      with eq r show ?thesis by (simp add: stop)
    qed
  qed
qed

lemma reconcile_verdict_publish:
  "reconcile_verdict claim replies = Inr (Publish key obj) \<Longrightarrow> reconcile_rejection claim obj = None"
  unfolding reconcile_verdict_def
  by (cases "reconcile_stored claim replies")
    (auto simp: case_prod_beta split: if_split_asm option.split_asm)

lemma reconcile_one_runs:
  assumes c: "Cleaning claim \<in> set fl"
  shows "pipe_runs co db fl (snd (reconcile_one co now claim replies db))"
proof (cases "reconcile_verdict claim replies")
  case (Inl x)
  then show ?thesis by (simp add: reconcile_one_def pipe_runs_refl)
next
  case (Inr v)
  show ?thesis
  proof (cases v)
    case (Publish key obj)
    have "pipe_runs co db fl db1" if "reconcile_publish co now claim key obj db = Inr (b, db1)" for b db1
      by (rule pipe_runs_step[OF pipe_step.publish_cleanup[OF c reconcile_verdict_publish that] order_refl])
        (use Inr Publish in simp)
    then show ?thesis using Inr Publish
      by (simp add: reconcile_one_def pipe_runs_refl split: sum.split prod.split)
  next
    case (Release rejection)
    have "pipe_runs co db fl db1" if "reconcile_release co now claim rejection db = Inr db1" for db1
      by (rule pipe_runs_step[OF pipe_step.release_cleanup[OF c that] order_refl])
    then show ?thesis using Inr Release
      by (simp add: reconcile_one_def pipe_runs_refl split: sum.split)
  qed
qed

lemma cleanup_loop_runs:
  assumes m: "\<And>n. meanwhile co (lt_between (turns n))"
  shows "pipe_runs co db fl (snd (cleanup_uploads_loop co turns left processed db))"
proof (induction left arbitrary: processed db fl)
  case 0
  then show ?case by (simp add: pipe_runs_refl)
next
  case (Suc left)
  let ?t = "turns processed"
  show ?case
  proof (cases "claim_next (lt_now ?t) (lt_locked ?t) db")
    case None
    then show ?thesis by (simp add: Let_def pipe_runs_refl)
  next
    case (Some p)
    obtain claim db1 where p: "p = (claim, db1)" by force
    let ?r = "reconcile_one co (lt_then ?t) claim (lt_replies ?t) (lt_between ?t db1)"
    have b: "pipe_step co (db, fl) (db1, Cleaning claim # fl)"
      using Some p by (intro pipe_step.claim_cleanup) simp
    have "pipe_runs co db fl (snd (case fst ?r of Inl _ \<Rightarrow> (Inl (), snd ?r) | Inr _ \<Rightarrow> cleanup_uploads_loop co turns left (Suc processed) (snd ?r)))"
    proof (rule pipe_runs_trans[OF b], force, rule pipe_runs_continue[OF meanwhileD[OF m]])
      fix fl2 assume "set (Cleaning claim # fl) \<subseteq> set fl2"
      then have c: "Cleaning claim \<in> set fl2" by auto
      show "pipe_runs co (lt_between ?t db1) fl2 (snd (case fst ?r of Inl _ \<Rightarrow> (Inl (), snd ?r)
          | Inr _ \<Rightarrow> cleanup_uploads_loop co turns left (Suc processed) (snd ?r)))"
      proof (rule pipe_runs_continue[OF reconcile_one_runs[OF c]])
        show "pipe_runs co (snd ?r) fl3 (snd (case fst ?r of Inl _ \<Rightarrow> (Inl (), snd ?r)
          | Inr _ \<Rightarrow> cleanup_uploads_loop co turns left (Suc processed) (snd ?r)))" for fl3
          by (simp add: pipe_runs_refl Suc.IH split: sum.split)
      qed
    qed
    then show ?thesis using Some p by (cases ?r) (auto simp: Let_def split: sum.split)
  qed
qed

lemma scan_loop_runs:
  assumes m: "\<And>n. meanwhile co (tn_between (turns n))"
  shows "pipe_runs co db fl (snd (scan_loop co reclaim turns left processed db))"
proof (induction left arbitrary: processed db fl)
  case 0
  then show ?case by (simp add: pipe_runs_refl)
next
  case (Suc left)
  let ?t = "turns processed"
  show ?case
  proof (cases "claim_next_malware_scan co (tn_now ?t) reclaim (tn_locked ?t) (tn_lease ?t) db")
    case None
    then show ?thesis by (simp add: Let_def pipe_runs_refl)
  next
    case (Some p)
    obtain claim db1 where p: "p = (claim, db1)" by force
    have b: "pipe_step co (db, fl) (db1, fl)"
      using Some p by (intro pipe_step.claim_scan) simp
    have "pipe_runs co (tn_between ?t db1) fl2 (snd (scan_loop co reclaim turns left (Suc processed) db3))"
      if "finish_malware_scan co (tn_then ?t) (tn_job_id ?t) claim (tn_outcome ?t) (tn_between ?t db1) = Inr db3" for fl2 db3
      by (rule pipe_runs_trans[OF pipe_step.finish_scan[OF that] order_refl Suc.IH])
    then have "pipe_runs co db1 fl (snd (scan_loop co reclaim turns left (Suc processed) db3))"
      if "finish_malware_scan co (tn_then ?t) (tn_job_id ?t) claim (tn_outcome ?t) (tn_between ?t db1) = Inr db3" for db3
      using that pipe_runs_continue[OF meanwhileD[OF m]] by blast
    then have "pipe_runs co db1 fl (snd (case finish_malware_scan co (tn_then ?t) (tn_job_id ?t) claim (tn_outcome ?t) (tn_between ?t db1) of
        Inl _ \<Rightarrow> (Inl (), tn_between ?t db1) | Inr db3 \<Rightarrow> scan_loop co reclaim turns left (Suc processed) db3))"
      using meanwhileD[OF m] by (simp split: sum.split)
    from pipe_runs_trans[OF b order_refl this] show ?thesis
      using Some p by (simp add: Let_def split: sum.split)
  qed
qed

lemma convert_parsed_runs:
  assumes m: "meanwhile co (ow_while_calling w)"
  shows "pipe_runs co db fl (snd (convert_parsed co st w lease claim parsed db))"
proof -
  let ?jid = "cc_job_id claim"
  have pers: "pipe_runs co db' fl' (snd (persist_run co w lease claim parsed result db'))" for result db' fl'
    by (cases "persist_result co (ow_fin w) (ow_entry_id w) ?jid lease (cc_file claim) result parsed db'")
      (auto simp: persist_run_def pipe_runs_refl intro: pipe_runs_step[OF pipe_step.persist_conversion])
  have fail: "pipe_runs co db' fl' (mark_failure co st t ?jid lease code b db')" for t code b db' fl'
    by (rule pipe_runs_step[OF pipe_step.fail_conversion order_refl])
  have called: "pipe_runs co db fl (with_llm l (ow_while_calling w db))" for l
    by (rule pipe_runs_continue[OF meanwhileD[OF m]], unfold with_llm_def,
        rule pipe_runs_step[OF pipe_step.elsewhere order_refl])
  have after: "pipe_runs co db fl (snd (case llm_plan claim (pd_text parsed) outcome of
       PersistResult result \<Rightarrow> persist_run co w lease claim parsed result (with_llm l (ow_while_calling w db))
     | MarkFailure code retryable \<Rightarrow>
         (RunDone, mark_failure co st (ow_fin w) ?jid lease code retryable (with_llm k (ow_while_calling w db)))
     | Escape e \<Rightarrow> (e, with_llm l (ow_while_calling w db))))" for outcome l k
    by (cases "llm_plan claim (pd_text parsed) outcome")
      (auto simp: called intro: pipe_runs_continue[OF called] pers fail)
  show ?thesis
    unfolding convert_parsed_def Let_def
    by (simp add: pipe_runs_refl pers fail after split: option.split prod.split bool.split)
qed

lemma process_claimed_job_runs:
  assumes m: "meanwhile co (ow_while_calling w)" "meanwhile co (ow_while_parsing w)"
  shows "pipe_runs co db fl (snd (process_claimed_job co st w jid lease db))"
proof -
  have skip: "pipe_runs co db' fl' (finish_terminal co t jid lease OKF_UNSUPPORTED code db')" for t code db' fl'
    by (rule pipe_runs_step[OF pipe_step.skip_conversion order_refl])
  have parsing: "pipe_runs co db fl (ow_while_parsing w db)" by (rule meanwhileD[OF m(2)])
  have later: "pipe_runs co db fl (snd (convert_parsed co st w lease claim parsed (ow_while_parsing w db)))" for claim parsed
    by (rule pipe_runs_continue[OF parsing convert_parsed_runs[OF m(1)]])
  have lskip: "pipe_runs co db fl (finish_terminal co t jid lease OKF_UNSUPPORTED code (ow_while_parsing w db))" for t code
    by (rule pipe_runs_continue[OF parsing skip])
  show ?thesis
    unfolding process_claimed_job_def Let_def
    by (simp add: pipe_runs_refl skip parsing later lskip split: option.split read_reply.split parse_reply.split)
qed

lemma okf_loop_runs:
  assumes m: "\<And>n. meanwhile co (ow_while_calling (ot_world (turns n)))" "\<And>n. meanwhile co (ow_while_parsing (ot_world (turns n)))"
  shows "pipe_runs co db fl (snd (okf_loop co st turns left processed db))"
proof (induction left arbitrary: processed db fl)
  case 0
  then show ?case by (simp add: pipe_runs_refl)
next
  case (Suc left)
  let ?t = "turns processed"
  show ?case
  proof (cases "claim_job st (ot_claimed_at ?t) (ot_locked ?t) (ot_lease ?t) db")
    case None
    then show ?thesis by (simp add: Let_def pipe_runs_refl)
  next
    case (Some p)
    obtain job db1 where p: "p = (job, db1)" by force
    obtain e db2 where r: "process_claimed_job co st (ot_world ?t) (oj_id job) (ot_lease ?t) db1 = (e, db2)" by force
    have b: "pipe_step co (db, fl) (db1, fl)" using Some p by (intro pipe_step.claim_conversion) simp
    have done2: "pipe_runs co db1 fl' db2" for fl'
      using process_claimed_job_runs[OF m(1)[of processed] m(2)[of processed], of db1 fl' st "oj_id job" "ot_lease ?t"] r by simp
    have fail: "pipe_runs co db2 fl' (snd (okf_loop co st turns left (Suc processed)
        (mark_failure co st (ow_fin (ot_world ?t)) (oj_id job) (ot_lease ?t) ''unexpected_processing_error'' True db2)))" for fl'
      by (rule pipe_runs_trans[OF pipe_step.fail_conversion order_refl Suc.IH])
    have "pipe_runs co db1 fl (snd (case e of RunDone \<Rightarrow> okf_loop co st turns left (Suc processed) db2
        | RunCancelled \<Rightarrow> (Inl (), db2)
        | RunException \<Rightarrow> okf_loop co st turns left (Suc processed)
            (mark_failure co st (ow_fin (ot_world ?t)) (oj_id job) (ot_lease ?t) ''unexpected_processing_error'' True db2)))"
      by (cases e) (auto simp: done2 intro: pipe_runs_continue[OF done2] Suc.IH fail)
    from pipe_runs_trans[OF b order_refl this] show ?thesis
      using Some p r by (cases e) (auto simp: Let_def pipe_runs_refl)
  qed
qed

section \<open>Reconciliation drains\<close>

definition settled :: "pipe_db \<Rightarrow> uuid \<Rightarrow> bool" where
  "settled db sid \<longleftrightarrow> (\<exists>u \<in> set (v_uploads db). us_id u = sid \<and>
     us_status u \<notin> {UPLOAD_INITIATED, UPLOAD_FINALIZING}) \<and> \<not> has_held_upload_reservation db sid"

text \<open>An object store that answers every call, and no other transaction in between.\<close>

definition store_answers :: "cleanup_replies \<Rightarrow> bool" where
  "store_answers r \<longleftrightarrow> lr_final r \<noteq> None \<and> lr_source r \<noteq> None \<and> lr_promoted r \<noteq> None \<and> lr_object r \<noteq> None \<and>
     lr_remove r \<and> lr_abort r"

definition quiet_turn :: "timestamp \<Rightarrow> cleanup_turn \<Rightarrow> bool" where
  "quiet_turn now t \<longleftrightarrow> lt_now t = now \<and> lt_locked t = [] \<and> store_answers (lt_replies t) \<and> lt_between t = id"

text \<open>One session is closed and pushed past the clock; the other rows stay.\<close>

definition closes_session :: "timestamp \<Rightarrow> uuid \<Rightarrow> pipe_db \<Rightarrow> pipe_db \<Rightarrow> bool" where
  "closes_session now sid db db' \<longleftrightarrow> (\<exists>g rst.
     v_uploads db' = update_where (\<lambda>x. us_id x = sid) g (v_uploads db) \<and>
     (\<forall>x. us_id (g x) = us_id x \<and> now \<le> us_expires_at (g x) \<and> us_status (g x) \<notin> {UPLOAD_INITIATED, UPLOAD_FINALIZING}) \<and>
     rst \<noteq> HELD \<and> q_reservations (v_quota db') = settle_rows sid rst (q_reservations (v_quota db)) \<and>
     f_id ` set (v_files db') = f_id ` set (v_files db))"

lemma file_of_iff: "file_of db i \<noteq> None \<longleftrightarrow> i \<in> f_id ` set (v_files db)"
  by (auto simp: file_of_def find_None_iff)

lemma held_settle_rows:
  assumes "q_reservations (v_quota db') = settle_rows sid rst (q_reservations (v_quota db))" "rst \<noteq> HELD"
  shows "has_held_upload_reservation db' s \<longleftrightarrow> s \<noteq> sid \<and> has_held_upload_reservation db s"
  using assms by (auto simp: has_held_upload_reservation_def settle_rows_def set_update_where)

lemma closes_facts:
  assumes c: "closes_session now sid db db'" and u: "u \<in> set (v_uploads db)" "us_id u = sid" "cleanup_eligible now db u"
  shows "settled db' sid" and "settled db s \<Longrightarrow> settled db' s"
    and "x \<in> set (v_uploads db) \<Longrightarrow> us_id x \<noteq> sid \<Longrightarrow> x \<in> set (v_uploads db')"
    and "length (filter (cleanup_eligible now db') (v_uploads db')) < length (filter (cleanup_eligible now db) (v_uploads db))"
proof -
  obtain g rst where ups: "v_uploads db' = update_where (\<lambda>x. us_id x = sid) g (v_uploads db)"
    and g: "\<And>x. us_id (g x) = us_id x \<and> now \<le> us_expires_at (g x) \<and> us_status (g x) \<notin> {UPLOAD_INITIATED, UPLOAD_FINALIZING}"
    and rst: "rst \<noteq> HELD" "q_reservations (v_quota db') = settle_rows sid rst (q_reservations (v_quota db))"
    and fs: "f_id ` set (v_files db') = f_id ` set (v_files db)"
    using c unfolding closes_session_def by auto
  note held = held_settle_rows[OF rst(2,1)]
  have "g u \<in> set (v_uploads db')" using u by (auto simp: ups set_update_where)
  with g u held show "settled db' sid" unfolding settled_def by (intro conjI bexI[of _ "g u"]) auto
  have rows: "x \<in> set (v_uploads db')" if "x \<in> set (v_uploads db)" "us_id x \<noteq> sid" for x
    using that by (force simp: ups set_update_where)
  then show "x \<in> set (v_uploads db) \<Longrightarrow> us_id x \<noteq> sid \<Longrightarrow> x \<in> set (v_uploads db')" .
  show "settled db' s" if s: "settled db s"
  proof (cases "s = sid")
    case True
    with \<open>settled db' sid\<close> show ?thesis by simp
  next
    case False
    with s rows held show ?thesis unfolding settled_def by blast
  qed
  have el: "cleanup_eligible now db' (if us_id x = sid then g x else x) \<longleftrightarrow> us_id x \<noteq> sid \<and> cleanup_eligible now db x" for x
  proof (cases "us_id x = sid")
    case True
    then show ?thesis using g[of x] by (simp add: cleanup_eligible_def)
  next
    case False
    have "(file_of db' i \<noteq> None) = (file_of db i \<noteq> None)" for i unfolding file_of_iff fs ..
    with False show ?thesis by (simp add: cleanup_eligible_def held)
  qed
  have len: "length (filter (cleanup_eligible now db') (map (\<lambda>x. if us_id x = sid then g x else x) xs)) =
      length (filter (\<lambda>x. us_id x \<noteq> sid \<and> cleanup_eligible now db x) xs)" for xs
    by (induction xs) (simp_all add: el)
  have "length (filter (\<lambda>x. us_id x \<noteq> sid \<and> cleanup_eligible now db x) (v_uploads db)) <
      length (filter (cleanup_eligible now db) (v_uploads db))"
    using length_filter_less[of u "filter (cleanup_eligible now db) (v_uploads db)" "\<lambda>x. us_id x \<noteq> sid"] u
    by (simp add: conj_commute)
  then show "length (filter (cleanup_eligible now db') (v_uploads db')) < length (filter (cleanup_eligible now db) (v_uploads db))"
    unfolding ups update_where_def len .
qed

lemma joined_uploadI:
  assumes inv: "pipe_inv db" and u: "u \<in> set (v_uploads db)" and f: "f \<in> set (v_files db)" "f_id f = us_file_id u"
  shows "joined_upload db (us_id u) = Some (u, f)"
proof -
  have "upload_of db (us_id u) = Some u"
    unfolding upload_of_def by (rule keyed_find[OF pipe_invD(3)[OF inv] u])
  moreover have "file_of db (us_file_id u) = Some f"
    unfolding file_of_def f(2)[symmetric] by (rule keyed_find[OF pipe_invD(2)[OF inv] f(1)])
  ultimately show ?thesis by (simp add: joined_upload_def)
qed

lemma update_where_twice:
  assumes "\<And>x. us_id (g x) = us_id x"
  shows "update_where (\<lambda>x. us_id x = sid) h (update_where (\<lambda>x. us_id x = sid) g rows) =
    update_where (\<lambda>x. us_id x = sid) (\<lambda>x. h (g x)) rows"
  using assms by (induction rows) auto

lemma reconcile_verdict_ok:
  assumes "store_answers r"
  shows "(\<exists>key obj. reconcile_verdict claim r = Inr (Publish key obj) \<and> kc_original_status claim = UPLOAD_FINALIZING) \<or>
    (\<exists>rej. reconcile_verdict claim r = Inr (Release rej))"
proof -
  have "\<exists>p. reconcile_stored claim r = Inr p"
    using assms unfolding reconcile_stored_def store_answers_def
    by (auto simp: Let_def split: option.split)
  then obtain stored key where "reconcile_stored claim r = Inr (stored, key)" by force
  then show ?thesis using assms
    by (auto simp: reconcile_verdict_def store_answers_def split: option.split)
qed

text \<open>A claimed session ends in the same turn when nothing else interferes.\<close>

lemma reconcile_closes:
  assumes inv: "pipe_inv db" and cl: "claim_next now [] db = Some (claim, db1)" and r: "store_answers replies"
  shows "\<exists>u db2. reconcile_one co now' claim replies db1 = (Inr (), db2) \<and> pipe_inv db2 \<and>
     u \<in> set (v_uploads db) \<and> cleanup_eligible now db u \<and> closes_session now (us_id u) db db2"
proof -
  obtain u f where u: "u \<in> set (v_uploads db)" "cleanup_eligible now db u" and f: "f \<in> set (v_files db)" "f_id f = us_file_id u"
    and c: "(claim, db1) = cleanup_claim_upload now u f db" using cl by (rule claim_nextD)
  define st1 where "st1 = (if us_status u = UPLOAD_INITIATED then UPLOAD_EXPIRED else us_status u)"
  define g where "g = (\<lambda>x :: upload_session. x\<lparr>us_status := st1, us_expires_at := now + minutes 15\<rparr>)"
  have db1: "db1 = write_upload (us_id u) g db" and kid: "kc_upload_id claim = us_id u"
    and orig: "kc_original_status claim = us_status u"
    using c by (auto simp: cleanup_claim_upload_def g_def st1_def)
  have inv1: "pipe_inv db1" using claim_next_move[OF inv cl] by (simp add: pipe_move_def)
  have gu: "g u \<in> set (v_uploads db1)" using u by (auto simp: db1 write_upload_def set_update_where)
  have f1: "f \<in> set (v_files db1)" "f_id f = us_file_id (g u)" using f by (simp_all add: db1 g_def)
  have idg: "us_id (g x) = us_id x" for x by (simp add: g_def)
  have j: "joined_upload db1 (us_id u) = Some (g u, f)"
    using joined_uploadI[OF inv1 gu f1] by (simp add: idg)
  have sg: "us_status (g u) = st1" "us_id (g u) = us_id u" by (simp_all add: g_def)
  have st1: "st1 = UPLOAD_EXPIRED \<or> st1 = UPLOAD_FINALIZING \<or> st1 = UPLOAD_ABORTED"
    using u(2) by (auto simp: cleanup_eligible_def st1_def)
  note qi = pipe_invD(1)[OF inv1]
  have q1: "v_quota db1 = v_quota db" by (simp add: db1)
  have close: "closes_session now (us_id u) db (audit_pipe t a res ty act i rid ip d (write_file (f_id f) h
      (write_upload (us_id u) k (db1\<lparr>v_quota := q\<rparr>))))"
    if "\<And>x. f_id (h x) = f_id x" "\<And>x. us_id (k x) = us_id x \<and> us_expires_at (k x) = us_expires_at x \<and>
        us_status (k x) \<notin> {UPLOAD_INITIATED, UPLOAD_FINALIZING}" "rst \<noteq> HELD"
      "q_reservations q = settle_rows (us_id u) rst (q_reservations (v_quota db))" for h k q rst t a res ty act i rid ip d
    unfolding closes_session_def using that idg
    by (intro exI[of _ "\<lambda>x. k (g x)"] exI[of _ rst])
      (auto simp: write_upload_def write_file_def db1 update_where_twice g_def minutes_def seconds_def
        key_image_update_where[of "\<lambda>x. f_id x = f_id f" f_id h])
  have rel: "\<exists>db2. reconcile_release co now' claim rej db1 = Inr db2 \<and> closes_session now (us_id u) db db2" for rej
  proof -
    define ab where "ab = (kc_original_status claim = UPLOAD_ABORTED \<or> st1 = UPLOAD_ABORTED)"
    define fa where "fa = (kc_original_status claim = UPLOAD_FINALIZING \<and> rej \<noteq> None)"
    define rst where "rst = (if ab \<or> fa then RELEASED else EXPIRED)"
    have rh: "rst \<noteq> HELD" by (simp add: rst_def)
    obtain q where q: "release_upload_reservations (us_id u) rst (v_quota db1) = Inr q"
      using settle_session_ok(2)[OF qi rh] by blast
    have qr: "q_reservations q = settle_rows (us_id u) rst (q_reservations (v_quota db))"
      using release_session_rows(2)[OF qi rh q] by (simp add: q1)
    have "st1 \<noteq> UPLOAD_COMPLETED" using st1 by auto
    then show ?thesis
      unfolding reconcile_release_def j kid option.case prod.case sg Let_def ab_def[symmetric] fa_def[symmetric] rst_def[symmetric] q
      by (auto intro!: close[OF _ _ rh qr])
  qed
  have pub: "\<exists>db2. reconcile_publish co now' claim key obj db1 = Inr (True, db2) \<and> closes_session now (us_id u) db db2"
    if "kc_original_status claim = UPLOAD_FINALIZING" for key obj
  proof -
    have st: "st1 = UPLOAD_FINALIZING" using that orig by (simp add: st1_def)
    obtain q where q: "consume_upload_reservations (us_id u) (v_quota db1) = Inr q"
      using settle_session_ok(1)[OF qi] by blast
    have "q_reservations q = settle_rows (us_id u) CONSUMED (q_reservations (v_quota db))"
      using consume_session_rows(2)[OF qi q] by (simp add: q1)
    note close' = close[where h = "\<lambda>f. (finish_file key obj f)\<lparr>f_malware_scan_status := SCAN_PENDING\<rparr>" and
        k = "\<lambda>u. u\<lparr>us_status := UPLOAD_COMPLETED, us_completed_at := Some now'\<rparr>" and rst = CONSUMED, OF _ _ _ this]
    show ?thesis
      unfolding reconcile_publish_def j kid option.case prod.case sg st q by (auto intro!: close')
  qed
  have "\<exists>db2. reconcile_one co now' claim replies db1 = (Inr (), db2) \<and> closes_session now (us_id u) db db2"
    using reconcile_verdict_ok[OF r, of claim]
  proof (elim disjE exE conjE)
    fix key obj assume v: "reconcile_verdict claim replies = Inr (Publish key obj)" "kc_original_status claim = UPLOAD_FINALIZING"
    obtain db2 where "reconcile_publish co now' claim key obj db1 = Inr (True, db2)" "closes_session now (us_id u) db db2"
      using pub[OF v(2)] by blast
    with v(1) show ?thesis by (simp add: reconcile_one_def)
  next
    fix rej assume v: "reconcile_verdict claim replies = Inr (Release rej)"
    obtain db2 where "reconcile_release co now' claim rej db1 = Inr db2" "closes_session now (us_id u) db db2"
      using rel by blast
    with v r show ?thesis by (simp add: reconcile_one_def store_answers_def)
  qed
  then obtain db2 where d2: "reconcile_one co now' claim replies db1 = (Inr (), db2)" "closes_session now (us_id u) db db2" by blast
  have "pipe_inv db2"
  proof -
    have "pipeline_inv (db1, [Cleaning claim])" using inv1 by (simp add: pipeline_inv_def)
    moreover have "pipe_runs co db1 [Cleaning claim] db2"
      using reconcile_one_runs[of claim "[Cleaning claim]" co db1 now' replies] d2(1) by simp
    ultimately show ?thesis unfolding pipe_runs_def using pipe_run.steps_inv by (fastforce simp: pipeline_inv_def)
  qed
  with d2 u show ?thesis by blast
qed

lemma not_eligible_settled:
  assumes inv: "pipe_inv db" and u: "u \<in> set (v_uploads db)" "us_expires_at u < now" "\<not> cleanup_eligible now db u"
  shows "settled db (us_id u)"
proof -
  obtain f where "f \<in> set (v_files db)" "f_id f = us_file_id u"
    using pipe_invD(6)[OF inv u(1)] unfolding file_ok_def by blast
  then have "file_of db (us_file_id u) \<noteq> None" unfolding file_of_iff by (metis imageI)
  with u(2,3) have st: "us_status u \<notin> {UPLOAD_INITIATED, UPLOAD_FINALIZING}"
    and h: "us_status u = UPLOAD_ABORTED \<or> us_status u = UPLOAD_EXPIRED \<Longrightarrow> \<not> has_held_upload_reservation db (us_id u)"
    by (auto simp: cleanup_eligible_def)
  have "\<not> has_held_upload_reservation db (us_id u)"
  proof
    assume "has_held_upload_reservation db (us_id u)"
    then obtain r where r: "r \<in> set (q_reservations (v_quota db))" "qr_upload_session_id r = us_id u" "qr_status r = HELD"
      by (auto simp: has_held_upload_reservation_def)
    with pipe_invD(8)[OF inv r(1)] obtain x where x: "x \<in> set (v_uploads db)" "us_id x = us_id u" "hold_fits (us_status x) HELD"
      by (auto simp: reservation_ok_def)
    then have "x = u" using keyed_unique[OF pipe_invD(3)[OF inv]] u(1) by blast
    with x(3) st h \<open>has_held_upload_reservation db (us_id u)\<close> show False by (cases "us_status u") auto
  qed
  with st u(1) show ?thesis unfolding settled_def by blast
qed

lemma uploads_loop_drains:
  assumes inv: "pipe_inv db" and t: "\<And>n. quiet_turn now (turns n)"
    and n: "length (filter (cleanup_eligible now db) (v_uploads db)) \<le> left"
  shows "\<exists>k db'. cleanup_uploads_loop co turns left processed db = (Inr k, db') \<and> k \<le> processed + left \<and>
     (\<forall>s. settled db s \<longrightarrow> settled db' s) \<and>
     (\<forall>u \<in> set (v_uploads db). us_expires_at u < now \<longrightarrow> settled db' (us_id u))"
  using inv n
proof (induction left arbitrary: processed db)
  case 0
  then have "\<not> cleanup_eligible now db u" if "u \<in> set (v_uploads db)" for u
    using that by (auto simp: filter_empty_conv)
  with 0 not_eligible_settled[of db] show ?case by auto
next
  case (Suc left)
  have tn: "lt_now (turns processed) = now" "lt_locked (turns processed) = []" "lt_between (turns processed) = id"
    "store_answers (lt_replies (turns processed))" using t by (simp_all add: quiet_turn_def)
  show ?case
  proof (cases "claim_next now [] db")
    case None
    have "\<not> cleanup_eligible now db u" if u: "u \<in> set (v_uploads db)" for u
    proof
      assume e: "cleanup_eligible now db u"
      have "sort_key us_expires_at (filter (\<lambda>u. cleanup_eligible now db u \<and> us_id u \<notin> set []) (v_uploads db)) = []"
      proof (cases "sort_key us_expires_at (filter (\<lambda>u. cleanup_eligible now db u \<and> us_id u \<notin> set []) (v_uploads db))")
        case (Cons x xs)
        then have "x \<in> set (filter (\<lambda>u. cleanup_eligible now db u \<and> us_id u \<notin> set []) (v_uploads db))"
          by (metis list.set_intros(1) set_sort)
        then have "file_of db (us_file_id x) \<noteq> None" by (simp add: cleanup_eligible_def)
        with None Cons show ?thesis by (auto simp: claim_next_def)
      qed
      then have "set (filter (\<lambda>u. cleanup_eligible now db u \<and> us_id u \<notin> set []) (v_uploads db)) = {}"
        by (metis empty_set set_sort)
      with u e show False by (auto simp: filter_empty_conv)
    qed
    with Suc.prems(1) not_eligible_settled[of db] None tn show ?thesis by (auto simp: Let_def)
  next
    case (Some p)
    obtain claim db1 where p: "p = (claim, db1)" by force
    obtain u db2 where r: "reconcile_one co (lt_then (turns processed)) claim (lt_replies (turns processed)) db1 = (Inr (), db2)"
      and inv2: "pipe_inv db2" and u: "u \<in> set (v_uploads db)" "cleanup_eligible now db u" and c: "closes_session now (us_id u) db db2"
      using reconcile_closes[OF Suc.prems(1) Some[unfolded p] tn(4)] by blast
    note cf = closes_facts[OF c u(1) refl u(2)]
    have "length (filter (cleanup_eligible now db2) (v_uploads db2)) \<le> left" using cf(4) Suc.prems(2) by simp
    from Suc.IH[OF inv2 this, of "Suc processed"] obtain k db' where
      k: "cleanup_uploads_loop co turns left (Suc processed) db2 = (Inr k, db')" "k \<le> Suc processed + left"
      and keep: "\<forall>s. settled db2 s \<longrightarrow> settled db' s"
      and due: "\<forall>u \<in> set (v_uploads db2). us_expires_at u < now \<longrightarrow> settled db' (us_id u)" by blast
    have "settled db' (us_id x)" if "x \<in> set (v_uploads db)" "us_expires_at x < now" for x
      using that cf(1,3) keep due by (cases "us_id x = us_id u") auto
    moreover have "cleanup_uploads_loop co turns (Suc left) processed db = (Inr k, db')"
      using Some p tn r k(1) by (simp add: Let_def)
    ultimately show ?thesis using k(2) keep cf(2) by auto
  qed
qed

end
