(* ===== verification/File_Safety.thy ===== *)
theory File_Safety
  imports File_Runs
begin

text \<open>
  The properties of the file pipeline, over every interleaving of uploads, reconciliation, scanning, conversion,
  approval and download. The example at the start drives one file through the whole pipeline.
\<close>

section \<open>One file through the pipeline\<close>

definition file_admin :: user where
  "file_admin = demo_user\<lparr>u_is_superuser := True\<rparr>"

definition file_access :: access_context where
  "file_access = \<lparr>ac_user = file_admin, ac_permissions = [''*''], ac_limits = (\<lambda>_. Some (Some 50)), ac_role_ids = [],
     ac_max_role_priority = 0\<rparr>"

definition file_demo_settings :: file_settings where
  "file_demo_settings = \<lparr>fs_s3_bucket = ''kb'', fs_allowed_extensions = [''.txt''], fs_platform_max_upload_bytes = 40,
     fs_platform_max_files_per_user = 9, fs_platform_max_files_total = 9, fs_multipart_threshold_bytes = 30,
     fs_multipart_part_size_bytes = 8, fs_upload_session_hours = 1, fs_storage_warning_percent = 70,
     fs_storage_bulk_stop_percent = 80, fs_storage_reject_percent = 90, fs_storage_object_stop_bytes = 1000,
     fs_presigned_url_seconds = 60\<rparr>"

definition file_payload :: upload_request where
  "file_payload = \<lparr>iq_filename = ''a.txt'', iq_size_bytes = 5, iq_content_type = ''text/plain'', iq_checksum_sha256 = None,
     iq_custom_metadata = JObj [], iq_idempotency_key = ''k'', iq_knowledge_base_id = Some 2\<rparr>"

definition file_demo :: file_row where
  "file_demo = \<lparr>f_id = 11, f_owner_id = 7, f_knowledge_base_id = Some 2, f_bucket = ''kb'',
     f_object_key = ''staging/users/1111111/1970/01/11111111111.txt'', f_original_name = ''a.txt'',
     f_extension = ''.txt'', f_content_type = ''text/plain'', f_size_bytes = 5, f_checksum_algorithm = None,
     f_checksum_value = None, f_status = FILE_UPLOADING, f_knowledge_status = NOT_REQUESTED,
     f_knowledge_error_code = None, f_malware_scan_status = SCAN_PENDING, f_malware_signature = None,
     f_malware_scan_error_code = None, f_malware_scan_started_at = None, f_malware_scanned_at = None,
     f_malware_scan_lease_id = None, f_malware_scan_attempts = 0, f_malware_scan_next_attempt_at = None, f_version = 1,
     f_custom_metadata = JObj [], f_available_at = None, f_deleted_at = None, f_created_at = 0\<rparr>"

definition file_stored :: file_row where
  "file_stored = file_demo\<lparr>f_object_key := ''objects/users/1111111/1970/01/11111111111.txt'', f_status := FILE_QUARANTINED\<rparr>"

definition file_scanning :: file_row where
  "file_scanning = file_stored\<lparr>f_malware_scan_status := SCAN_PROCESSING, f_malware_scan_started_at := Some 3,
     f_malware_scan_lease_id := Some 21, f_malware_scan_attempts := 1, f_malware_scan_next_attempt_at := Some 300000003\<rparr>"

definition file_clean :: file_row where
  "file_clean = file_scanning\<lparr>f_status := FILE_PROCESSING, f_malware_scan_status := SCAN_CLEAN,
     f_malware_scanned_at := Some 4, f_malware_scan_lease_id := None, f_malware_scan_next_attempt_at := None,
     f_knowledge_status := INGEST_PENDING\<rparr>"

definition file_published :: file_row where
  "file_published = file_clean\<lparr>f_status := FILE_AVAILABLE, f_available_at := Some 7, f_knowledge_status := INDEXED\<rparr>"

definition upload_demo :: "upload_session_status \<Rightarrow> timestamp option \<Rightarrow> upload_session" where
  "upload_demo st t = \<lparr>us_id = 12, us_file_id = 11, us_user_id = 7, us_idempotency_key = ''k'', us_mode = ''single'',
     us_storage_upload_id = None, us_part_size_bytes = 5, us_part_count = 1, us_expected_size_bytes = 5,
     us_status = st, us_expires_at = 3600000000, us_completed_at = t\<rparr>"

definition hold_demo :: "reservation_status \<Rightarrow> quota_db" where
  "hold_demo st =
     \<lparr>q_counters = map (\<lambda>(key, n). \<lparr>qc_user_id = 7, qc_limit_key = key, qc_window_start = 0,
          qc_used_value = (if st = CONSUMED then n else 0), qc_reserved_value = (if st = HELD then n else 0)\<rparr>)
        [(''daily_upload_bytes'', 5), (''file_count'', 1), (''storage_bytes'', 5)],
      q_reservations = map (\<lambda>(key, n). \<lparr>qr_user_id = 7, qr_upload_session_id = 12, qr_limit_key = key,
          qr_window_start = 0, qr_amount = n, qr_status = st, qr_expires_at = 3600000000\<rparr>)
        [(''daily_upload_bytes'', 5), (''file_count'', 1), (''storage_bytes'', 5)]\<rparr>"

definition job_demo :: okf_conversion_job where
  "job_demo = \<lparr>oj_id = 31, oj_file_id = 11, oj_knowledge_base_id = 2, oj_file_version = 1, oj_status = OKF_PENDING,
     oj_attempts = 0, oj_retry_generation = 0, oj_model = None, oj_prompt_version = ''okf-phase1-v1'',
     oj_output_entry_id = None, oj_error_code = None, oj_next_attempt_at = None, oj_locked_at = None,
     oj_lease_id = None, oj_completed_at = None, oj_created_at = 4\<rparr>"

definition job_running :: okf_conversion_job where
  "job_running = job_demo\<lparr>oj_status := OKF_PROCESSING, oj_attempts := 1, oj_locked_at := Some 5, oj_lease_id := Some 41\<rparr>"

definition job_finished :: okf_conversion_job where
  "job_finished = job_running\<lparr>oj_status := OKF_SUCCEEDED, oj_model := Some ''local-deterministic-v1'',
     oj_output_entry_id := Some 51, oj_locked_at := None, oj_lease_id := None, oj_completed_at := Some 6\<rparr>"

definition draft_demo :: knowledge_entry where
  "draft_demo = demo_entry\<lparr>ke_id := 51, ke_source_file_id := Some 11, ke_publication_status := DRAFT\<rparr>"

definition keys_with :: "knowledge_entry list \<Rightarrow> keys_db" where
  "keys_with es = \<lparr>x_auth = demo_db\<lparr>a_rbac := rbac_demo\<lparr>db_users := [file_admin]\<rparr>\<rparr>, x_kb = kb_demo\<lparr>k_entries := es\<rparr>,
     x_llm = llm_demo, x_keys = []\<rparr>"

definition pipe_demo :: pipe_db where
  "pipe_demo = \<lparr>v_keys = keys_with [], v_files = [], v_uploads = [], v_quota = empty_quota_db, v_jobs = []\<rparr>"

definition pipe_at :: "file_row \<Rightarrow> upload_session \<Rightarrow> reservation_status \<Rightarrow> okf_conversion_job list \<Rightarrow> pipe_db" where
  "pipe_at f u st js = \<lparr>v_keys = keys_with [], v_files = [f], v_uploads = [u], v_quota = hold_demo st, v_jobs = js\<rparr>"

definition rows_are :: "file_row \<Rightarrow> upload_session \<Rightarrow> reservation_status \<Rightarrow> okf_conversion_job list \<Rightarrow> pipe_db \<Rightarrow> bool" where
  "rows_are f u st js db \<longleftrightarrow> v_files db = [f] \<and> v_uploads db = [u] \<and> v_quota db = hold_demo st \<and> v_jobs db = js"

lemma rows_areD: "rows_are f u st js db \<Longrightarrow> db\<lparr>v_keys := keys_with []\<rparr> = pipe_at f u st js"
  by (simp add: rows_are_def pipe_at_def)

lemma pipe_reachable_step: "pipe_reachable co s \<Longrightarrow> pipe_step co s t \<Longrightarrow> pipe_reachable co t"
  unfolding pipe_reachable_def by (meson rtranclp.rtrancl_into_rtrancl)

lemma demo_reach:
  assumes "pipe_reachable co s" "pipe_step co s (db, fl)" "rows_are f u st js db"
  shows "pipe_reachable co (pipe_at f u st js, fl)"
  using pipe_reachable_step[OF pipe_reachable_step[OF assms(1,2)] pipe_step.elsewhere[where k = "keys_with []"]]
    rows_areD[OF assms(3)] by simp

lemma demo_admit:
  "case initiate_admit demo_crypto file_demo_settings NoProbe 0 (11, 12) file_access file_payload pipe_demo of
     Inl _ \<Rightarrow> False | Inr (_, db) \<Rightarrow> rows_are file_demo (upload_demo UPLOAD_INITIATED None) HELD [] db"
  by code_simp

lemma demo_admitted: "pipe_reachable demo_crypto (pipe_at file_demo (upload_demo UPLOAD_INITIATED None) HELD [], [])"
proof -
  obtain a db where "initiate_admit demo_crypto file_demo_settings NoProbe 0 (11, 12) file_access file_payload pipe_demo = Inr (a, db)"
    "rows_are file_demo (upload_demo UPLOAD_INITIATED None) HELD [] db"
    using demo_admit by (auto split: sum.split_asm)
  moreover have "pipe_reachable demo_crypto (pipe_demo, [])"
    unfolding pipe_reachable_def by (intro exI[of _ pipe_demo]) (simp add: pipe_start_def pipe_demo_def)
  ultimately show ?thesis by (blast intro: demo_reach pipe_step.admit)
qed


definition finalization_demo :: finalization where
  "finalization_demo = \<lparr>fz_upload_session_id = 12, fz_mode = ''single'',
     fz_source_key = ''staging/users/1111111/1970/01/11111111111.txt'',
     fz_final_key = ''objects/users/1111111/1970/01/11111111111.txt'', fz_expected_size = 5, fz_expected_checksum = None,
     fz_storage_upload_id = None, fz_actor_id = 7, fz_token_version = 0, fz_parts = []\<rparr>"

definition object_demo :: stored_object where
  "object_demo = \<lparr>so_size_bytes = 5, so_etag = None, so_version_id = None, so_checksum_sha256 = None,
     so_content_type = Some ''text/plain''\<rparr>"

definition scan_demo :: scan_claim where
  "scan_demo = \<lparr>sc_file_id = 11, sc_lease_id = 21, sc_object_key = ''objects/users/1111111/1970/01/11111111111.txt''\<rparr>"

definition okf_demo :: okf_settings where
  "okf_demo = \<lparr>ok_source_max_bytes = 100, ok_conversion_max_attempts = 3, ok_conversion_lease_seconds = 60,
     ok_external_llm_enabled = False, ok_llm_tenant_key = ''t'', ok_deepseek_max_tokens = 10\<rparr>"

definition draft_result :: "okf_draft llm_result" where
  "draft_result = \<lparr>lr_content = \<lparr>dr_type = ''document'', dr_title = [97], dr_description = [98], dr_tags = [],
       dr_body_markdown = [35]\<rparr>, lr_provider = ''local'', lr_model = ''local-deterministic-v1'',
     lr_prompt_tokens = Some 0, lr_completion_tokens = Some 0\<rparr>"

definition parsed_demo :: parsed_document where
  "parsed_demo = \<lparr>pd_text = [97], pd_source_locations = [], pd_parser = ''text''\<rparr>"

abbreviation "admitted_demo \<equiv> pipe_at file_demo (upload_demo UPLOAD_INITIATED None) HELD []"
abbreviation "finalizing_demo \<equiv> pipe_at file_demo (upload_demo UPLOAD_FINALIZING None) HELD []"
abbreviation "completed_demo \<equiv> upload_demo UPLOAD_COMPLETED (Some 2)"
abbreviation "stored_demo \<equiv> pipe_at file_stored completed_demo CONSUMED []"
abbreviation "drafted_demo \<equiv> pipe_at (file_clean\<lparr>f_knowledge_status := DRAFT_READY\<rparr>) completed_demo CONSUMED [job_finished]"

lemma demo_begin:
  "case complete_begin 1 file_access 12 [] admitted_demo of
     Inr (Inr fz, db) \<Rightarrow> fz = finalization_demo \<and> rows_are file_demo (upload_demo UPLOAD_FINALIZING None) HELD [] db
   | _ \<Rightarrow> False"
  by code_simp

lemma demo_commit:
  "case complete_commit demo_crypto 2 None finalization_demo object_demo finalizing_demo of
     Inl _ \<Rightarrow> False | Inr (_, db) \<Rightarrow> rows_are file_stored completed_demo CONSUMED [] db"
  by code_simp

lemma demo_scan:
  "case claim_next_malware_scan demo_crypto 3 300 [] 21 stored_demo of
     None \<Rightarrow> False | Some (c, db) \<Rightarrow> c = scan_demo \<and> rows_are file_scanning completed_demo CONSUMED [] db"
  by code_simp

lemma demo_scanned:
  "case finish_malware_scan demo_crypto 4 31 scan_demo ScanClean (pipe_at file_scanning completed_demo CONSUMED []) of
     Inl _ \<Rightarrow> False | Inr db \<Rightarrow> rows_are file_clean completed_demo CONSUMED [job_demo] db"
  by code_simp

lemma demo_job:
  "case claim_job okf_demo 5 [] 41 (pipe_at file_clean completed_demo CONSUMED [job_demo]) of
     None \<Rightarrow> False | Some (_, db) \<Rightarrow> rows_are file_clean completed_demo CONSUMED [job_running] db"
  by code_simp

lemma demo_persist:
  "case persist_result demo_crypto 6 51 31 41 (claim_file file_clean) draft_result parsed_demo
       (pipe_at file_clean completed_demo CONSUMED [job_running]) of
     Inl _ \<Rightarrow> False
   | Inr db \<Rightarrow> rows_are (file_clean\<lparr>f_knowledge_status := DRAFT_READY\<rparr>) completed_demo CONSUMED [job_finished] db"
  by code_simp

lemma demo_approve:
  "case approve_processed_file demo_crypto 7 None file_access 11 (drafted_demo\<lparr>v_keys := keys_with [draft_demo]\<rparr>) of
     Inl _ \<Rightarrow> False | Inr (_, db) \<Rightarrow> rows_are file_published completed_demo CONSUMED [job_finished] db"
  by code_simp

lemma pipe_stored: "pipe_reachable demo_crypto (stored_demo, [Finalizing finalization_demo])"
proof -
  obtain db1 where b: "complete_begin 1 file_access 12 [] admitted_demo = Inr (Inr finalization_demo, db1)"
    "rows_are file_demo (upload_demo UPLOAD_FINALIZING None) HELD [] db1"
    using demo_begin by (auto split: sum.split_asm) (metis sum.exhaust)
  have r1: "pipe_reachable demo_crypto (finalizing_demo, [Finalizing finalization_demo])"
    by (rule demo_reach[OF demo_admitted pipe_step.begin_completion[OF b(1)] b(2)])
  obtain f db2 where c: "complete_commit demo_crypto 2 None finalization_demo object_demo finalizing_demo = Inr (f, db2)"
    "rows_are file_stored completed_demo CONSUMED [] db2"
    using demo_commit by (auto split: sum.split_asm)
  have "completion_rejection finalization_demo object_demo = None" by code_simp
  then show ?thesis by (rule demo_reach[OF r1 pipe_step.commit_completion[OF _ _ c(1)] c(2), rotated]) simp
qed

lemma demo_drafted: "pipe_reachable demo_crypto (drafted_demo, [Finalizing finalization_demo])"
proof -
  obtain db3 where s: "claim_next_malware_scan demo_crypto 3 300 [] 21 stored_demo = Some (scan_demo, db3)"
    "rows_are file_scanning completed_demo CONSUMED [] db3"
    using demo_scan by (auto split: option.split_asm)
  obtain db4 where t: "finish_malware_scan demo_crypto 4 31 scan_demo ScanClean (pipe_at file_scanning completed_demo CONSUMED []) = Inr db4"
    "rows_are file_clean completed_demo CONSUMED [job_demo] db4"
    using demo_scanned by (auto split: sum.split_asm)
  obtain j db5 where j: "claim_job okf_demo 5 [] 41 (pipe_at file_clean completed_demo CONSUMED [job_demo]) = Some (j, db5)"
    "rows_are file_clean completed_demo CONSUMED [job_running] db5"
    using demo_job by (auto split: option.split_asm)
  obtain db6 where p: "persist_result demo_crypto 6 51 31 41 (claim_file file_clean) draft_result parsed_demo
       (pipe_at file_clean completed_demo CONSUMED [job_running]) = Inr db6"
    "rows_are (file_clean\<lparr>f_knowledge_status := DRAFT_READY\<rparr>) completed_demo CONSUMED [job_finished] db6"
    using demo_persist by (auto split: sum.split_asm)
  note r3 = demo_reach[OF pipe_stored pipe_step.claim_scan[OF s(1)] s(2)]
  note r4 = demo_reach[OF r3 pipe_step.finish_scan[OF t(1)] t(2)]
  note r5 = demo_reach[OF r4 pipe_step.claim_conversion[OF j(1)] j(2)]
  show ?thesis by (rule demo_reach[OF r5 pipe_step.persist_conversion[OF p(1)] p(2)])
qed

lemma demo_published:
  "pipe_reachable demo_crypto (pipe_at file_published completed_demo CONSUMED [job_finished], [Finalizing finalization_demo])"
proof -
  obtain f db7 where a: "approve_processed_file demo_crypto 7 None file_access 11 (drafted_demo\<lparr>v_keys := keys_with [draft_demo]\<rparr>)
      = Inr (f, db7)" "rows_are file_published completed_demo CONSUMED [job_finished] db7"
    using demo_approve by (auto split: sum.split_asm)
  note r = pipe_reachable_step[OF demo_drafted pipe_step.elsewhere[where k = "keys_with [draft_demo]"]]
  show ?thesis by (rule demo_reach[OF r pipe_step.approve[OF a(1)] a(2)])
qed


section \<open>Properties\<close>

lemma pipe_reachable_pipe_inv: "pipe_reachable co (db, fl) \<Longrightarrow> pipe_inv db"
  using pipe_reachable_inv[of co "(db, fl)"] by (simp add: pipeline_inv_def)

lemma session_reservation:
  assumes "pipe_inv db" "u \<in> set (v_uploads db)" "r \<in> set (q_reservations (v_quota db))" "qr_upload_session_id r = us_id u"
  shows "qr_user_id r = us_user_id u \<and> hold_fits (us_status u) (qr_status r)"
proof -
  obtain v where "v \<in> set (v_uploads db)" "us_id v = us_id u" "us_user_id v = qr_user_id r" "hold_fits (us_status v) (qr_status r)"
    using pipe_invD(8)[OF assms(1,3)] assms(4) unfolding reservation_ok_def by auto
  then show ?thesis using keyed_unique[OF pipe_invD(3)[OF assms(1)]] assms(2) by metis
qed

text \<open>C4. The storage quota is charged for an upload exactly when the upload completed. In every state that interleaved
  requests and workers of the file pipeline can reach, a reservation of an upload session belongs to the session's
  user; it is consumed exactly when the session is completed, it is still held while the session is open or finalizing,
  and no reservation of a failed session is held.
\<close>

theorem upload_charged_iff_completed:
  assumes "pipe_reachable co (db, fl)" and "u \<in> set (v_uploads db)"
    and "r \<in> set (q_reservations (v_quota db))" and "qr_upload_session_id r = us_id u"
  shows "qr_user_id r = us_user_id u \<and> (qr_status r = CONSUMED \<longleftrightarrow> us_status u = UPLOAD_COMPLETED) \<and>
    (us_status u \<in> {UPLOAD_INITIATED, UPLOAD_FINALIZING} \<longrightarrow> qr_status r = HELD) \<and>
    (us_status u = UPLOAD_FAILED \<longrightarrow> qr_status r \<noteq> HELD)"
  using session_reservation[OF pipe_reachable_pipe_inv[OF assms(1)] assms(2-4)] by (cases "us_status u") auto

theorem upload_charged_iff_completed_witness:
  "qr_status (hd (q_reservations (v_quota stored_demo))) = CONSUMED"
proof -
  let ?r = "hd (q_reservations (v_quota stored_demo))"
  have "?r \<in> set (q_reservations (v_quota stored_demo))" "qr_upload_session_id ?r = us_id completed_demo"
    by (simp_all add: pipe_at_def hold_demo_def upload_demo_def)
  then show ?thesis
    using upload_charged_iff_completed[OF pipe_stored, of completed_demo ?r] by (simp add: pipe_at_def upload_demo_def)
qed

text \<open>C19. The life of an upload session is one-way. Whatever the file pipeline does after a reachable state, the session is
  still there with the same file, user and idempotency key; a completed session stays completed, an aborted one stays
  aborted, a failed or expired one never becomes active or completed again, and a finalizing one never returns to
  the initial state.
\<close>

theorem upload_status_final:
  assumes "pipe_reachable co s" and "(pipe_step co)\<^sup>*\<^sup>* s t" and "u \<in> set (v_uploads (fst s))"
  shows "\<exists>u' \<in> set (v_uploads (fst t)). us_id u' = us_id u \<and> us_file_id u' = us_file_id u \<and>
    us_user_id u' = us_user_id u \<and> us_idempotency_key u' = us_idempotency_key u \<and>
    (us_status u \<in> {UPLOAD_COMPLETED, UPLOAD_ABORTED} \<longrightarrow> us_status u' = us_status u) \<and>
    (us_status u \<in> {UPLOAD_FAILED, UPLOAD_EXPIRED} \<longrightarrow> us_status u' \<in> {UPLOAD_FAILED, UPLOAD_EXPIRED, UPLOAD_ABORTED}) \<and>
    (us_status u = UPLOAD_FINALIZING \<longrightarrow> us_status u' \<noteq> UPLOAD_INITIATED)"
proof -
  obtain u' where "u' \<in> set (v_uploads (fst t))" "later_upload u u'"
    using pipe_run.row_kept[OF assms(2) pipe_reachable_inv[OF assms(1)] assms(3)] by blast
  then show ?thesis by (intro bexI[of _ u']) (cases "us_status u"; auto simp: later_upload_def)+
qed

theorem upload_status_final_witness:
  "\<exists>t. pipe_step demo_crypto (stored_demo, [Finalizing finalization_demo]) t \<and>
     (\<exists>u \<in> set (v_uploads (fst t)). us_id u = 12 \<and> us_status u = UPLOAD_COMPLETED)"
proof -
  obtain db where "claim_next_malware_scan demo_crypto 3 300 [] 21 stored_demo = Some (scan_demo, db)"
    using demo_scan by (auto split: option.split_asm)
  then have step: "pipe_step demo_crypto (stored_demo, [Finalizing finalization_demo]) (db, [Finalizing finalization_demo])"
    by (rule pipe_step.claim_scan)
  from upload_status_final[OF pipe_stored r_into_rtranclp[of "pipe_step demo_crypto", OF step], of completed_demo] step
  show ?thesis by (intro exI[of _ "(db, [Finalizing finalization_demo])"]) (auto simp: pipe_at_def upload_demo_def)
qed

text \<open>C9. Only a scanned, approved file can be downloaded. If a download link is issued in a reachable state of the pipeline,
  the file exists undeleted, its malware scan came out clean and it was published, its upload completed and every
  reservation of that upload was charged to the uploader, and the caller may read every file, owns the file outside a
  knowledge base, or has reader access to its knowledge base.
\<close>

theorem download_only_published:
  assumes "pipe_reachable co (db, fl)" and "create_download_grant co st now rid ip access presign fid db = Inr (g, db')"
  shows "\<exists>f u. f \<in> set (v_files db) \<and> f_id f = fid \<and> dg_url g = presign (f_object_key f) (f_original_name f) \<and>
    f_deleted_at f = None \<and> f_malware_scan_status f = SCAN_CLEAN \<and> f_status f = FILE_AVAILABLE \<and>
    u \<in> set (v_uploads db) \<and> us_file_id u = fid \<and> us_status u = UPLOAD_COMPLETED \<and>
    (\<forall>r \<in> set (q_reservations (v_quota db)). qr_upload_session_id r = us_id u \<longrightarrow>
       qr_user_id r = us_user_id u \<and> qr_status r = CONSUMED) \<and>
    (allows access ''file:read:any'' \<or> (f_knowledge_base_id f = None \<and> f_owner_id f = u_id (ac_user access)) \<or>
     (\<exists>kid. f_knowledge_base_id f = Some kid \<and> is_ok (require_knowledge_base_access (v_kb db) access kid READER)))"
proof -
  have inv: "pipe_inv db" by (rule pipe_reachable_pipe_inv[OF assms(1)])
  obtain f where f: "find (\<lambda>f. f_id f = fid \<and> f_deleted_at f = None) (v_files db) = Some f"
    "f_malware_scan_status f = SCAN_CLEAN" "f_status f = FILE_AVAILABLE" "dg_url g = presign (f_object_key f) (f_original_name f)"
    and who: "allows access ''file:read:any'' \<or> (f_knowledge_base_id f = None \<and> f_owner_id f = u_id (ac_user access)) \<or>
     (\<exists>kid. f_knowledge_base_id f = Some kid \<and> is_ok (require_knowledge_base_access (v_kb db) access kid READER))"
    using assms(2) by (auto simp: create_download_grant_def result_simps is_ok_def split: if_split_asm option.split_asm)
  have fin: "f \<in> set (v_files db)" "f_id f = fid" "f_deleted_at f = None" using find_Some_in_set[OF f(1)] by auto
  obtain u where u: "u \<in> set (v_uploads db)" "us_file_id u = fid" using pipe_invD(7)[OF inv fin(1)] fin(2) by auto
  obtain x where x: "x \<in> set (v_files db)" "f_id x = fid" "stage_ok (us_status u) (f_status x) (f_malware_scan_status x)"
    using pipe_invD(6)[OF inv u(1)] u(2) unfolding file_ok_def by auto
  have "x = f" using keyed_unique[OF pipe_invD(2)[OF inv] x(1) fin(1)] x(2) fin(2) by simp
  with x(3) f(2,3) have st: "us_status u = UPLOAD_COMPLETED" by (cases "us_status u") auto
  have "qr_user_id r = us_user_id u \<and> qr_status r = CONSUMED"
    if "r \<in> set (q_reservations (v_quota db))" "qr_upload_session_id r = us_id u" for r
    using session_reservation[OF inv u(1) that] st by simp
  with f fin u st who show ?thesis by blast
qed

theorem download_only_published_witness:
  "(case create_download_grant demo_crypto file_demo_settings 8 None None file_access (\<lambda>key name. key) 11
      (pipe_at file_published completed_demo CONSUMED [job_finished]) of Inl _ \<Rightarrow> False | Inr _ \<Rightarrow> True) \<and>
   us_status completed_demo = UPLOAD_COMPLETED"
proof -
  let ?db = "pipe_at file_published completed_demo CONSUMED [job_finished]"
  let ?grant = "create_download_grant demo_crypto file_demo_settings 8 None None file_access (\<lambda>key name. key) 11 ?db"
  have ok: "case ?grant of Inl _ \<Rightarrow> False | Inr _ \<Rightarrow> True" by code_simp
  then obtain g db' where "?grant = Inr (g, db')" by (auto split: sum.split_asm)
  from download_only_published[OF demo_published this] have "us_status completed_demo = UPLOAD_COMPLETED"
    by (auto simp: pipe_at_def)
  with ok show ?thesis by simp
qed

text \<open>C20. The handlers and the workers refine the step relation. Whatever runs of the pipeline the other requests make while
  they wait for the object store, the scanner or the model, initiating, completing and aborting an upload and a batch
  of reconciliation, scanning or conversion are each a run of the step relation, so every invariant of the
  relation holds after them.
\<close>

theorem file_handlers_refine_steps:
  assumes "meanwhile co between" and "\<forall>n. meanwhile co (lt_between (cleanup n))" and "\<forall>n. meanwhile co (tn_between (scans n))"
    and "\<forall>n. meanwhile co (ow_while_calling (ot_world (conversions n))) \<and> meanwhile co (ow_while_parsing (ot_world (conversions n)))"
  shows "pipe_runs co db fl (snd (initiate_upload co st probe now ids rid access payload ireplies between db)) \<and>
    pipe_runs co db fl (snd (complete_upload co now now' rid access sid parts creplies between db)) \<and>
    pipe_runs co db fl (snd (abort_upload co now now' rid access sid storage_ok between db)) \<and>
    pipe_runs co db fl (snd (cleanup_expired_uploads co cleanup batch db)) \<and>
    pipe_runs co db fl (snd (process_malware_scan_batch co reclaim scans batch db)) \<and>
    pipe_runs co db fl (snd (process_okf_conversion_batch co ost conversions batch db))"
  unfolding cleanup_expired_uploads_def process_malware_scan_batch_def process_okf_conversion_batch_def
  using assms by (simp add: initiate_upload_runs complete_upload_runs abort_upload_runs cleanup_loop_runs scan_loop_runs okf_loop_runs)

lemma meanwhile_id: "meanwhile co id"
  unfolding meanwhile_def by (simp add: pipe_runs_refl)

definition cleanup_demo :: "nat \<Rightarrow> cleanup_turn" where
  "cleanup_demo n = \<lparr>lt_now = 3600000001, lt_locked = [], lt_replies = \<lparr>lr_final = Some None, lr_source = Some None,
     lr_promoted = Some object_demo, lr_object = Some None, lr_remove = True, lr_abort = True\<rparr>, lt_between = id,
     lt_then = 3600000002\<rparr>"

definition scans_demo :: "nat \<Rightarrow> scan_turn" where
  "scans_demo n = \<lparr>tn_now = 3, tn_locked = [], tn_lease = 21 + n, tn_outcome = ScanClean, tn_between = id, tn_then = 4,
     tn_job_id = 31 + n\<rparr>"

definition conversions_demo :: "nat \<Rightarrow> okf_turn" where
  "conversions_demo n = \<lparr>ot_over_budget = False, ot_locked = [], ot_lease = 41 + n, ot_claimed_at = 5,
     ot_world = \<lparr>ow_now = 5, ow_fin = 6, ow_capable = (\<lambda>_. False), ow_read = ReadFails, ow_parse = ParseFails,
       ow_client = None, ow_while_parsing = id, ow_call = (\<lambda>l. (ReplyCancelled, l)), ow_while_calling = id,
       ow_usage_id = 61, ow_entry_id = 51\<rparr>\<rparr>"

theorem file_handlers_refine_steps_witness:
  "pipe_runs demo_crypto admitted_demo [] (snd (abort_upload demo_crypto 1 2 None file_access 12 True id admitted_demo)) \<and>
   pipe_runs demo_crypto stored_demo [] (snd (process_malware_scan_batch demo_crypto 300 scans_demo 2 stored_demo))"
proof -
  have m: "\<forall>n. meanwhile demo_crypto (lt_between (cleanup_demo n))" "\<forall>n. meanwhile demo_crypto (tn_between (scans_demo n))"
    "\<forall>n. meanwhile demo_crypto (ow_while_calling (ot_world (conversions_demo n))) \<and>
       meanwhile demo_crypto (ow_while_parsing (ot_world (conversions_demo n)))"
    by (simp_all add: cleanup_demo_def scans_demo_def conversions_demo_def meanwhile_id)
  note h = file_handlers_refine_steps[OF meanwhile_id m, THEN conjunct2, THEN conjunct2]
  show ?thesis by (intro conjI h[THEN conjunct1] h[THEN conjunct2, THEN conjunct2, THEN conjunct1])
qed

text \<open>C21. Reconciliation drains. If the object store answers, nothing else runs in between and the clock shows
  the same time at every claim of the pass, one pass with a batch
  at least as large as the number of eligible sessions returns, and afterwards every session whose time was over is settled:
  it is neither open nor finalizing and none of its reservations is held.
\<close>

theorem cleanup_drains:
  assumes "pipe_reachable co (db, fl)" and "\<forall>n. quiet_turn now (turns n)"
    and "length (filter (cleanup_eligible now db) (v_uploads db)) \<le> batch_size"
  shows "\<exists>k db'. cleanup_expired_uploads co turns batch_size db = (Inr k, db') \<and> k \<le> batch_size \<and>
    (\<forall>u \<in> set (v_uploads db). us_expires_at u < now \<longrightarrow> settled db' (us_id u))"
  using uploads_loop_drains[OF pipe_reachable_pipe_inv[OF assms(1)] _ assms(3), of turns co 0] assms(2)
  unfolding cleanup_expired_uploads_def by auto

theorem cleanup_drains_witness:
  "\<exists>k db'. cleanup_expired_uploads demo_crypto cleanup_demo 1 admitted_demo = (Inr k, db') \<and> settled db' 12"
proof -
  have "\<forall>n. quiet_turn 3600000001 (cleanup_demo n)"
    by (simp add: quiet_turn_def store_answers_def cleanup_demo_def)
  moreover have "length (filter (cleanup_eligible 3600000001 admitted_demo) (v_uploads admitted_demo)) \<le> 1"
    by (simp add: pipe_at_def)
  ultimately obtain k db' where "cleanup_expired_uploads demo_crypto cleanup_demo 1 admitted_demo = (Inr k, db')"
    "\<forall>u \<in> set (v_uploads admitted_demo). us_expires_at u < 3600000001 \<longrightarrow> settled db' (us_id u)"
    using cleanup_drains[OF demo_admitted, of 3600000001 cleanup_demo 1] by blast
  then show ?thesis by (simp add: pipe_at_def upload_demo_def)
qed

end
