(* ===== verification/Roles.thy ===== *)
theory Roles
  imports Api_Keys
begin

text \<open>
  Administration of roles (\<open>src/app/api/v1/routes/roles.py\<close>): the catalogue of roles with their permissions and
  limits, the candidates an actor may assign, and the routes that create, change and delete a role. Every mutating
  route refreshes the actor's access under the policy lock before it decides; re-reads inside that transaction return
  the rows read before, so each check is written once. A JSON object is a list of pairs with distinct keys.
\<close>

section \<open>Reading a role\<close>

record role_read =
  rr_role :: role
  rr_permission_codes :: "string list"
  rr_limits :: "(string \<times> limit_value) list"

definition role_not_found :: api_error where
  "role_not_found = ApiError 404 ''role_not_found''"

definition find_role :: "rbac_db \<Rightarrow> uuid \<Rightarrow> role option" where
  "find_role db rid = find (\<lambda>r. ro_id r = rid) (db_roles db)"

text \<open>The joins of a role with the permission and limit catalogues.\<close>

definition current_permission_codes :: "rbac_db \<Rightarrow> uuid \<Rightarrow> string list" where
  "current_permission_codes db rid =
     concat (map (\<lambda>rp. map pe_code (filter (\<lambda>p. pe_id p = rp_permission_id rp) (db_permissions db)))
       (filter (\<lambda>rp. rp_role_id rp = rid) (db_role_permissions db)))"

definition role_limit_rows :: "rbac_db \<Rightarrow> uuid \<Rightarrow> (string \<times> limit_value) list" where
  "role_limit_rows db rid =
     concat (map (\<lambda>rl. map (\<lambda>d. (ld_key d, rl_value rl))
         (filter (\<lambda>d. ld_id d = rl_limit_definition_id rl) (db_limit_definitions db)))
       (filter (\<lambda>rl. rl_role_id rl = rid) (db_role_limits db)))"

definition current_limits :: "rbac_db \<Rightarrow> uuid \<Rightarrow> (string \<times> limit_value) list" where
  "current_limits db rid = foldl (\<lambda>d (k, v). dict_set k v d) [] (role_limit_rows db rid)"

definition role_reads :: "rbac_db \<Rightarrow> role list \<Rightarrow> role_read list" where
  "role_reads db roles =
     map (\<lambda>r. \<lparr>rr_role = r, rr_permission_codes = sort (current_permission_codes db (ro_id r)),
                rr_limits = sort_key fst (current_limits db (ro_id r))\<rparr>) roles"

definition read_role :: "rbac_db \<Rightarrow> role \<Rightarrow> role_read" where
  "read_role db r = hd (role_reads db [r])"

definition get_role :: "rbac_db \<Rightarrow> uuid \<Rightarrow> api_error + role_read" where
  "get_role db rid = (case find_role db rid of None \<Rightarrow> Inl role_not_found | Some r \<Rightarrow> Inr (read_role db r))"

section \<open>What an actor may grant\<close>

text \<open>A missing limit counts as zero, \<open>None\<close> as unlimited.\<close>

definition own_limit :: "access_context \<Rightarrow> string \<Rightarrow> limit_value" where
  "own_limit access key = (case ac_limits access key of None \<Rightarrow> Some 0 | Some v \<Rightarrow> v)"

definition over_limit :: "limit_value \<Rightarrow> limit_value \<Rightarrow> bool" where
  "over_limit v own = (case own of None \<Rightarrow> False | Some b \<Rightarrow> (case v of None \<Rightarrow> True | Some x \<Rightarrow> x > b))"

definition ensure_role_mutable :: "access_context \<Rightarrow> role \<Rightarrow> api_error + unit" where
  "ensure_role_mutable access role =
     (if ro_is_system role then Inl (ApiError 403 ''system_role'')
      else if \<not> u_is_superuser (ac_user access) \<and> ro_priority role \<ge> ac_max_role_priority access
      then Inl (ApiError 403 ''role_escalation_denied'') else Inr ())"

definition ensure_policy_grantable ::
    "access_context \<Rightarrow> string list \<Rightarrow> (string \<times> limit_value) list \<Rightarrow> api_error + unit" where
  "ensure_policy_grantable access codes limits =
     (if u_is_superuser (ac_user access) then Inr ()
      else if \<exists>code \<in> set codes. \<not> allows access code then Inl (ApiError 403 ''permission_escalation_denied'')
      else if \<exists>(key, v) \<in> set limits. over_limit v (own_limit access key)
      then Inl (ApiError 403 ''limit_escalation_denied'') else Inr ())"

definition ensure_role_policy_version :: "role \<Rightarrow> int \<Rightarrow> api_error + unit" where
  "ensure_role_policy_version role expected =
     (if expected \<noteq> ro_policy_version role then Inl (ApiError 409 ''stale_role_policy'') else Inr ())"

section \<open>Listing roles\<close>

definition denied_permission :: "rbac_db \<Rightarrow> access_context \<Rightarrow> role \<Rightarrow> bool" where
  "denied_permission db access r \<longleftrightarrow> (\<exists>code \<in> set (current_permission_codes db (ro_id r)). code \<notin> set (ac_permissions access))"

text \<open>The condition on a limit the actor has, on one the actor does not have, and on an actor without limits.\<close>

definition denied_limit :: "rbac_db \<Rightarrow> access_context \<Rightarrow> role \<Rightarrow> bool" where
  "denied_limit db access r \<longleftrightarrow> (\<exists>(key, v) \<in> set (role_limit_rows db (ro_id r)).
     case ac_limits access key of
       Some (Some own) \<Rightarrow> (case v of None \<Rightarrow> True | Some x \<Rightarrow> x > own)
     | Some None \<Rightarrow> False
     | None \<Rightarrow> (case v of None \<Rightarrow> True | Some x \<Rightarrow> x > 0))"

definition denied_knowledge_grant :: "kb_db \<Rightarrow> access_context \<Rightarrow> role \<Rightarrow> bool" where
  "denied_knowledge_grant kb access r \<longleftrightarrow> (\<exists>g \<in> set (k_grants kb). kg_role_id g = ro_id r \<and>
     (\<exists>b \<in> set (k_bases kb). kb_id b = kg_knowledge_base_id g \<and> kb_owner_id b \<noteq> u_id (ac_user access)) \<and>
     foldl max 0 (map access_rank (granted_levels kb access (kg_knowledge_base_id g))) < access_rank (kg_access_level g))"

definition assignable_role :: "rbac_db \<Rightarrow> kb_db \<Rightarrow> access_context \<Rightarrow> role \<Rightarrow> bool" where
  "assignable_role db kb access r \<longleftrightarrow>
     \<not> ro_is_system r \<and> ro_priority r < ac_max_role_priority access \<and>
     (u_is_superuser (ac_user access) \<or>
      \<not> denied_permission db access r \<and> \<not> denied_limit db access r \<and> \<not> denied_knowledge_grant kb access r)"

definition list_roles ::
    "rbac_db \<Rightarrow> kb_db \<Rightarrow> access_context \<Rightarrow> nat \<Rightarrow> nat \<Rightarrow> string option \<Rightarrow> bool \<Rightarrow> api_error + role_read list" where
  "list_roles db kb access limit offset q assignable =
     (if assignable \<and> \<not> allows access ''role:assign'' then Inl (ApiError 403 ''permission_denied'')
      else (let nq = (case q of None \<Rightarrow> [] | Some t \<Rightarrow> py_strip t);
                rows = filter (\<lambda>r. (assignable \<longrightarrow> assignable_role db kb access r) \<and>
                         (nq = [] \<or> icontains (ro_name r) nq \<or> icontains (ro_code r) nq)) (db_roles db)
            in Inr (role_reads db (take limit (drop offset
                 (sort_key (\<lambda>r. - ro_priority r) (sort_key ro_code (sort_key ro_id rows))))))))"

definition list_permissions :: "rbac_db \<Rightarrow> permission list" where
  "list_permissions db = sort_key pe_code (db_permissions db)"

definition list_limit_definitions :: "rbac_db \<Rightarrow> limit_definition list" where
  "list_limit_definitions db = sort_key ld_key (db_limit_definitions db)"

section \<open>Writing roles\<close>

definition on_rbac :: "(rbac_db \<Rightarrow> rbac_db) \<Rightarrow> keys_db \<Rightarrow> keys_db" where
  "on_rbac f db = db\<lparr>x_auth := (x_auth db)\<lparr>a_rbac := f (a_rbac (x_auth db))\<rparr>\<rparr>"

definition resolve_permissions :: "rbac_db \<Rightarrow> string list \<Rightarrow> api_error + permission list" where
  "resolve_permissions db codes =
     (let ps = filter (\<lambda>p. pe_code p \<in> set codes) (db_permissions db)
      in if pe_code ` set ps \<noteq> set codes then Inl (ApiError 422 ''unknown_permission'') else Inr ps)"

definition resolve_limits ::
    "rbac_db \<Rightarrow> (string \<times> limit_value) list \<Rightarrow> api_error + (limit_definition \<times> limit_value) list" where
  "resolve_limits db limits =
     (let ds = filter (\<lambda>d. ld_key d \<in> fst ` set limits) (db_limit_definitions db)
      in if ld_key ` set ds \<noteq> fst ` set limits then Inl (ApiError 422 ''unknown_limit'')
         else Inr (map (\<lambda>d. (d, dict_get limits (ld_key d) None)) ds))"

definition put_permissions :: "uuid \<Rightarrow> permission list \<Rightarrow> rbac_db \<Rightarrow> rbac_db" where
  "put_permissions rid ps db = db\<lparr>db_role_permissions := filter (\<lambda>rp. rp_role_id rp \<noteq> rid) (db_role_permissions db) @
     map (\<lambda>p. \<lparr>rp_role_id = rid, rp_permission_id = pe_id p\<rparr>) ps\<rparr>"

definition put_limits :: "uuid \<Rightarrow> (limit_definition \<times> limit_value) list \<Rightarrow> rbac_db \<Rightarrow> rbac_db" where
  "put_limits rid ls db = db\<lparr>db_role_limits := filter (\<lambda>rl. rl_role_id rl \<noteq> rid) (db_role_limits db) @
     map (\<lambda>(d, v). \<lparr>rl_role_id = rid, rl_limit_definition_id = ld_id d, rl_value = v\<rparr>) ls\<rparr>"

definition write_role :: "uuid \<Rightarrow> (role \<Rightarrow> role) \<Rightarrow> rbac_db \<Rightarrow> rbac_db" where
  "write_role rid f db = db\<lparr>db_roles := update_where (\<lambda>r. ro_id r = rid) f (db_roles db)\<rparr>"

definition bump_policy :: "role \<Rightarrow> role" where
  "bump_policy r = r\<lparr>ro_policy_version := ro_policy_version r + 1\<rparr>"

definition json_limits :: "(string \<times> limit_value) list \<Rightarrow> json" where
  "json_limits ls = JObj (map (\<lambda>(k, v). (k, case v of None \<Rightarrow> JNull | Some n \<Rightarrow> JInt n)) ls)"

definition json_versions :: "role \<Rightarrow> (string \<times> json) list" where
  "json_versions r = [(''from_version'', JInt (ro_policy_version r)), (''to_version'', JInt (ro_policy_version r + 1))]"

definition audit_role ::
    "crypto_ops \<Rightarrow> timestamp \<Rightarrow> string \<Rightarrow> access_context \<Rightarrow> uuid \<Rightarrow> string option \<Rightarrow> (string \<times> json) list \<Rightarrow> keys_db \<Rightarrow> keys_db" where
  "audit_role co now action access rid request_id details db =
     audit_row now action SUCCESS ''role'' (u_id (ac_user access)) (co_str_uuid co rid) request_id (JObj details) db"

section \<open>Routes\<close>

record role_create =
  rc_code :: string
  rc_name :: string
  rc_description :: "string option"
  rc_priority :: int
  rc_permission_codes :: "string list"
  rc_limits :: "(string \<times> limit_value) list"

text \<open>The primary key and the unique code of the new row.\<close>

definition insert_role :: "role \<Rightarrow> rbac_db \<Rightarrow> api_error + rbac_db" where
  "insert_role r db =
     (if \<exists>x \<in> set (db_roles db). ro_id x = ro_id r \<or> ro_code x = ro_code r then Inl unhandled
      else Inr (db\<lparr>db_roles := db_roles db @ [r]\<rparr>))"

definition create_role ::
    "crypto_ops \<Rightarrow> timestamp \<Rightarrow> uuid \<Rightarrow> string option \<Rightarrow> access_context \<Rightarrow> role_create \<Rightarrow> keys_db \<Rightarrow> role_read keys_outcome" where
  "create_role co now rid request_id access0 payload db =
     or_rollback db
      (bind_r (locked_actor [''role:manage''] db now access0) (\<lambda>access.
       if \<not> u_is_superuser (ac_user access) \<and> rc_priority payload \<ge> ac_max_role_priority access
       then Inl (ApiError 403 ''role_escalation_denied'')
       else bind_r (ensure_policy_grantable access (rc_permission_codes payload) (rc_limits payload)) (\<lambda>_.
         if \<exists>r \<in> set (db_roles (x_rbac db)). ro_code r = rc_code payload then Inl (ApiError 409 ''role_exists'')
         else bind_r (resolve_permissions (x_rbac db) (rc_permission_codes payload)) (\<lambda>ps.
              bind_r (resolve_limits (x_rbac db) (rc_limits payload)) (\<lambda>ls.
              let r = \<lparr>ro_id = rid, ro_code = rc_code payload, ro_name = rc_name payload,
                    ro_description = rc_description payload, ro_priority = rc_priority payload,
                    ro_is_system = False, ro_policy_version = 1\<rparr>
              in bind_r (insert_role r (x_rbac db)) (\<lambda>db1.
                 let db2 = db1\<lparr>db_role_permissions := db_role_permissions db1 @
                              map (\<lambda>p. \<lparr>rp_role_id = rid, rp_permission_id = pe_id p\<rparr>) ps,
                            db_role_limits := db_role_limits db1 @
                              map (\<lambda>(d, v). \<lparr>rl_role_id = rid, rl_limit_definition_id = ld_id d, rl_value = v\<rparr>) ls\<rparr>
                 in Inr (read_role db2 r,
                         audit_role co now ''role.created'' access rid request_id
                           [(''permissions'', JList (map JStr (rc_permission_codes payload))),
                            (''limits'', json_limits (rc_limits payload))] (on_rbac (\<lambda>_. db2) db))))))))"

text \<open>
  The guard that opens every change of an existing role: refreshed access, the role, its mutability, its version.
\<close>

definition lock_role ::
    "keys_db \<Rightarrow> timestamp \<Rightarrow> access_context \<Rightarrow> uuid \<Rightarrow> int \<Rightarrow> api_error + access_context \<times> role" where
  "lock_role db now access0 rid expected =
     bind_r (locked_actor [''role:manage''] db now access0) (\<lambda>access.
     case find_role (x_rbac db) rid of
       None \<Rightarrow> Inl role_not_found
     | Some role \<Rightarrow>
         bind_r (ensure_role_mutable access role) (\<lambda>_.
         bind_r (ensure_role_policy_version role expected) (\<lambda>_. Inr (access, role))))"

text \<open>
  \<open>model_dump(exclude_unset=True)\<close>: a field that was sent is \<open>Some\<close> of its value. Fields equal to the stored value
  are dropped.
\<close>

record role_update =
  rx_expected_version :: int
  rx_name :: "string option"
  rx_description :: "string option option"
  rx_priority :: "int option"

definition role_changes :: "role_update \<Rightarrow> role \<Rightarrow> string list" where
  "role_changes p r =
     (if rx_name p \<noteq> None \<and> rx_name p \<noteq> Some (ro_name r) then [''name''] else []) @
     (if rx_description p \<noteq> None \<and> rx_description p \<noteq> Some (ro_description r) then [''description''] else []) @
     (if rx_priority p \<noteq> None \<and> rx_priority p \<noteq> Some (ro_priority r) then [''priority''] else [])"

definition updated_role :: "role_update \<Rightarrow> role \<Rightarrow> role" where
  "updated_role p r =
     r\<lparr>ro_name := (case rx_name p of None \<Rightarrow> ro_name r | Some v \<Rightarrow> v),
       ro_description := (case rx_description p of None \<Rightarrow> ro_description r | Some v \<Rightarrow> v),
       ro_priority := (case rx_priority p of None \<Rightarrow> ro_priority r | Some v \<Rightarrow> v)\<rparr>"

definition update_role ::
    "crypto_ops \<Rightarrow> timestamp \<Rightarrow> string option \<Rightarrow> access_context \<Rightarrow> uuid \<Rightarrow> role_update \<Rightarrow> keys_db \<Rightarrow> role_read keys_outcome" where
  "update_role co now request_id access0 rid payload db =
     or_rollback db
      (bind_r (lock_role db now access0 rid (rx_expected_version payload)) (\<lambda>(access, role).
       let new = updated_role payload role in
       if \<not> u_is_superuser (ac_user access) \<and> ro_priority new \<ge> ac_max_role_priority access
       then Inl (ApiError 403 ''role_escalation_denied'')
       else if role_changes payload role = [] then Inr (read_role (x_rbac db) role, db)
       else (let row = bump_policy new; db1 = on_rbac (write_role rid (\<lambda>_. row)) db
             in Inr (read_role (x_rbac db1) row,
                  audit_role co now ''role.updated'' access rid request_id
                    ((''fields'', JList (map JStr (sort (role_changes payload role)))) # json_versions role) db1))))"

definition delete_role ::
    "crypto_ops \<Rightarrow> timestamp \<Rightarrow> string option \<Rightarrow> access_context \<Rightarrow> uuid \<Rightarrow> int \<Rightarrow> keys_db \<Rightarrow> unit keys_outcome" where
  "delete_role co now request_id access0 rid expected db =
     or_rollback db
      (bind_r (lock_role db now access0 rid expected) (\<lambda>(access, role).
       if (\<exists>ur \<in> set (db_user_roles (x_rbac db)). ur_role_id ur = rid) \<or>
          (\<exists>g \<in> set (k_grants (x_kb db)). kg_role_id g = rid)
       then Inl (ApiError 409 ''role_in_use'')
       else Inr ((), audit_role co now ''role.deleted'' access rid request_id
              [(''code'', JStr (ro_code role)), (''name'', JStr (ro_name role)),
               (''policy_version'', JInt (ro_policy_version role))]
              (on_rbac (\<lambda>b. b\<lparr>db_role_permissions := filter (\<lambda>rp. rp_role_id rp \<noteq> rid) (db_role_permissions b),
                             db_role_limits := filter (\<lambda>rl. rl_role_id rl \<noteq> rid) (db_role_limits b),
                             db_roles := filter (\<lambda>r. ro_id r \<noteq> rid) (db_roles b)\<rparr>) db))))"

text \<open>The guard on a revocation of permissions, which commits its denial.\<close>

definition role_revocation :: "crypto_ops \<Rightarrow> string \<Rightarrow> uuid \<Rightarrow> revocation" where
  "role_revocation co scope rid =
     \<lparr>rv_scope = scope, rv_resource_type = ''role'', rv_resource_id = co_str_uuid co rid,
      rv_knowledge_base_id = None, rv_user_id = None, rv_api_key_id = None, rv_role_id = Some rid\<rparr>"

definition replace_permissions ::
    "crypto_ops \<Rightarrow> timestamp \<Rightarrow> string option \<Rightarrow> access_context \<Rightarrow> uuid \<Rightarrow> int \<Rightarrow> string list \<Rightarrow> keys_db \<Rightarrow>
     role_read keys_outcome" where
  "replace_permissions co now request_id access0 rid expected codes db =
     (case lock_role db now access0 rid expected of
        Inl e \<Rightarrow> (Inl e, db)
      | Inr (access, role) \<Rightarrow>
          if set codes = set (current_permission_codes (x_rbac db) rid) then (Inr (read_role (x_rbac db) role), db)
          else (case bind_r (ensure_policy_grantable access codes []) (\<lambda>_. resolve_permissions (x_rbac db) codes) of
                  Inl e \<Rightarrow> (Inl e, db)
                | Inr ps \<Rightarrow>
                    (case deny_if_active_external_llm_egress co now (ac_user access) request_id
                            (role_revocation co ''role_permissions'' rid) db of
                       Some (e, db1) \<Rightarrow> (Inl e, db1)
                     | None \<Rightarrow>
                         (let row = bump_policy role;
                              db1 = on_rbac (write_role rid (\<lambda>_. row) \<circ> put_permissions rid ps) db
                          in (Inr (read_role (x_rbac db1) row),
                              audit_role co now ''role.permissions.replaced'' access rid request_id
                                ((''permissions'', JList (map JStr (sort (remdups codes)))) # json_versions role) db1)))))"

definition replace_limits ::
    "crypto_ops \<Rightarrow> timestamp \<Rightarrow> string option \<Rightarrow> access_context \<Rightarrow> uuid \<Rightarrow> int \<Rightarrow> (string \<times> limit_value) list \<Rightarrow>
     keys_db \<Rightarrow> role_read keys_outcome" where
  "replace_limits co now request_id access0 rid expected limits db =
     or_rollback db
      (bind_r (lock_role db now access0 rid expected) (\<lambda>(access, role).
       if set limits = set (current_limits (x_rbac db) rid) then Inr (read_role (x_rbac db) role, db)
       else bind_r (ensure_policy_grantable access [] limits) (\<lambda>_.
            bind_r (resolve_limits (x_rbac db) limits) (\<lambda>ls.
            let row = bump_policy role;
                db1 = on_rbac (write_role rid (\<lambda>_. row) \<circ> put_limits rid ls) db
            in Inr (read_role (x_rbac db1) row,
                 audit_role co now ''role.limits.replaced'' access rid request_id
                   ((''limits'', json_limits (sort_key fst limits)) # json_versions role) db1)))))"

definition replace_policy ::
    "crypto_ops \<Rightarrow> timestamp \<Rightarrow> string option \<Rightarrow> access_context \<Rightarrow> uuid \<Rightarrow> int \<Rightarrow> string list \<Rightarrow>
     (string \<times> limit_value) list \<Rightarrow> keys_db \<Rightarrow> role_read keys_outcome" where
  "replace_policy co now request_id access0 rid expected codes limits db =
     (case lock_role db now access0 rid expected of
        Inl e \<Rightarrow> (Inl e, db)
      | Inr (access, role) \<Rightarrow>
          if set codes = set (current_permission_codes (x_rbac db) rid) \<and> set limits = set (current_limits (x_rbac db) rid)
          then (Inr (read_role (x_rbac db) role), db)
          else (case bind_r (ensure_policy_grantable access codes limits) (\<lambda>_.
                       bind_r (resolve_permissions (x_rbac db) codes) (\<lambda>ps.
                       bind_r (resolve_limits (x_rbac db) limits) (\<lambda>ls. Inr (ps, ls)))) of
                  Inl e \<Rightarrow> (Inl e, db)
                | Inr (ps, ls) \<Rightarrow>
                    (case deny_if_active_external_llm_egress co now (ac_user access) request_id
                            (role_revocation co ''role_policy'' rid) db of
                       Some (e, db1) \<Rightarrow> (Inl e, db1)
                     | None \<Rightarrow>
                         (let row = bump_policy role;
                              db1 = on_rbac (write_role rid (\<lambda>_. row) \<circ> put_limits rid ls \<circ> put_permissions rid ps) db
                          in (Inr (read_role (x_rbac db1) row),
                              audit_role co now ''role.policy.replaced'' access rid request_id
                                ([(''permissions'', JList (map JStr (sort (remdups codes)))),
                                  (''limits'', json_limits (sort_key fst limits))] @ json_versions role) db1)))))"

end
