(* ===== verification/Users.thy ===== *)
theory Users
  imports Roles
begin

text \<open>
  Administration of accounts (\<open>src/app/api/v1/routes/users.py\<close>, \<open>src/app/core/password_policy.py\<close>): creating,
  changing and retiring users, replacing their roles and passwords. A route first refreshes the actor's access under the
  policy lock and authorizes the target; a denial that the source commits before it raises carries the committed
  database, every other error the database as it was.
\<close>

section \<open>Password policy\<close>

text \<open>The character classes of \<open>validate_strong_password\<close> on code points; \<open>None\<close> accepts, otherwise the message.\<close>

definition printable :: "nat \<Rightarrow> bool" where
  "printable c \<longleftrightarrow> 0x21 \<le> c \<and> c \<le> 0x7E"

definition lower_code :: "nat \<Rightarrow> bool" where "lower_code c \<longleftrightarrow> 97 \<le> c \<and> c \<le> 122"
definition upper_code :: "nat \<Rightarrow> bool" where "upper_code c \<longleftrightarrow> 65 \<le> c \<and> c \<le> 90"
definition digit_code :: "nat \<Rightarrow> bool" where "digit_code c \<longleftrightarrow> 48 \<le> c \<and> c \<le> 57"

definition validate_strong_password :: "text_ops \<Rightarrow> unicode \<Rightarrow> string option" where
  "validate_strong_password t value =
     (if \<exists>c \<in> set value. to_space t c then Some ''password must not contain whitespace''
      else if \<exists>c \<in> set value. \<not> printable c then Some ''password must contain only printable ASCII characters''
      else if (\<exists>c \<in> set value. lower_code c) \<and> (\<exists>c \<in> set value. upper_code c) \<and> (\<exists>c \<in> set value. digit_code c) \<and>
              (\<exists>c \<in> set value. \<not> (lower_code c \<or> upper_code c \<or> digit_code c))
      then None
      else Some ''password must contain lowercase, uppercase, numeric, and symbol characters'')"

section \<open>Reading accounts\<close>

record user_read =
  ud_user :: user
  ud_role_ids :: "uuid list"

definition user_reads :: "crypto_ops \<Rightarrow> rbac_db \<Rightarrow> user list \<Rightarrow> user_read list" where
  "user_reads co db users =
     map (\<lambda>u. \<lparr>ud_user = u, ud_role_ids = sort_key (co_str_uuid co)
            (map ur_role_id (filter (\<lambda>ur. ur_user_id ur = u_id u) (db_user_roles db)))\<rparr>) users"

definition read_user :: "crypto_ops \<Rightarrow> rbac_db \<Rightarrow> user \<Rightarrow> user_read" where
  "read_user co db u = hd (user_reads co db [u])"

definition list_users :: "crypto_ops \<Rightarrow> rbac_db \<Rightarrow> nat \<Rightarrow> nat \<Rightarrow> string option \<Rightarrow> user_read list" where
  "list_users co db limit offset search =
     (let term = (case search of None \<Rightarrow> [] | Some t \<Rightarrow> py_strip t);
          rows = filter (\<lambda>u. term = [] \<or> icontains (u_email u) term \<or>
                   (case u_display_name u of None \<Rightarrow> False | Some n \<Rightarrow> icontains n term)) (db_users db)
      in user_reads co db (take limit (drop offset (sort_key (\<lambda>u. - u_created_at u) (sort_key u_id rows)))))"

section \<open>Authorizing a target\<close>

type_synonym failure = "api_error \<times> keys_db"

definition refuse :: "keys_db \<Rightarrow> api_error + 'a \<Rightarrow> failure + 'a" where
  "refuse db m = map_error (\<lambda>e. (e, db)) m"

definition committed :: "failure + 'a \<times> keys_db \<Rightarrow> 'a keys_outcome" where
  "committed m = (case m of Inl (e, db) \<Rightarrow> (Inl e, db) | Inr (x, db) \<Rightarrow> (Inr x, db))"

definition audit_user ::
    "crypto_ops \<Rightarrow> timestamp \<Rightarrow> string \<Rightarrow> audit_result \<Rightarrow> access_context \<Rightarrow> uuid \<Rightarrow> string option \<Rightarrow> (string \<times> json) list \<Rightarrow>
     keys_db \<Rightarrow> keys_db" where
  "audit_user co now action result access uid request_id details db =
     audit_row now action result ''user'' (u_id (ac_user access)) (co_str_uuid co uid) request_id (JObj details) db"

definition commit_user_denial ::
    "crypto_ops \<Rightarrow> timestamp \<Rightarrow> string option \<Rightarrow> access_context \<Rightarrow> string \<Rightarrow> uuid \<Rightarrow> string \<Rightarrow> (string \<times> json) list \<Rightarrow>
     keys_db \<Rightarrow> keys_db" where
  "commit_user_denial co now request_id access action uid reason_code details db =
     audit_user co now action DENIED access uid request_id ((''reason_code'', JStr reason_code) # details) db"

definition target_role_rows :: "rbac_db \<Rightarrow> timestamp \<Rightarrow> uuid \<Rightarrow> (int \<times> bool) list" where
  "target_role_rows db now uid =
     concat (map (\<lambda>ur. map (\<lambda>r. (ro_priority r, ro_is_system r))
       (filter (\<lambda>r. ro_id r = ur_role_id ur) (db_roles db))) (active_roles db now uid))"

definition ensure_target_is_below_actor :: "rbac_db \<Rightarrow> timestamp \<Rightarrow> access_context \<Rightarrow> uuid \<Rightarrow> api_error + unit" where
  "ensure_target_is_below_actor db now access uid =
     (if u_is_superuser (ac_user access) then Inr ()
      else (let rows = target_role_rows db now uid in
            if (\<exists>row \<in> set rows. snd row) \<or> foldl max (-10001) (map fst rows) \<ge> ac_max_role_priority access
            then Inl (ApiError 403 ''target_user_protected'') else Inr ()))"

definition authorize_managed_user_target :: "rbac_db \<Rightarrow> timestamp \<Rightarrow> access_context \<Rightarrow> user \<Rightarrow> api_error + unit" where
  "authorize_managed_user_target db now access target =
     bind_r (ensure_target_is_below_actor db now access (u_id target)) (\<lambda>_.
     if u_is_superuser target \<and> \<not> u_is_superuser (ac_user access)
     then Inl (ApiError 403 ''superuser_protected'') else Inr ())"

definition authorize_password_target :: "access_context \<Rightarrow> user \<Rightarrow> api_error + unit" where
  "authorize_password_target access target =
     (if u_id target \<noteq> u_id (ac_user access) \<and> \<not> u_is_superuser (ac_user access)
      then Inl (ApiError 403 ''superuser_required'') else Inr ())"

definition lock_authorized_user_target ::
    "string list \<Rightarrow> (access_context \<Rightarrow> user \<Rightarrow> failure + unit) \<Rightarrow> keys_db \<Rightarrow> timestamp \<Rightarrow> access_context \<Rightarrow> uuid \<Rightarrow>
     failure + access_context \<times> user" where
  "lock_authorized_user_target required authorize_target db now access0 uid =
     bind_r (refuse db (locked_actor required db now access0)) (\<lambda>access.
     case find_user (x_auth db) uid of
       None \<Rightarrow> Inl (user_not_found, db)
     | Some target \<Rightarrow> bind_r (authorize_target access target) (\<lambda>_. Inr (access, target)))"

definition other_superusers :: "keys_db \<Rightarrow> uuid \<Rightarrow> user list" where
  "other_superusers db uid = filter (\<lambda>u. u_is_superuser u \<and> active_user u \<and> u_id u \<noteq> uid) (db_users (x_rbac db))"

definition guard_last_superuser ::
    "crypto_ops \<Rightarrow> timestamp \<Rightarrow> string option \<Rightarrow> access_context \<Rightarrow> string \<Rightarrow> uuid \<Rightarrow> keys_db \<Rightarrow> failure + unit" where
  "guard_last_superuser co now request_id access action uid db =
     (if other_superusers db uid = []
      then Inl (ApiError 409 ''last_superuser_protected'',
                commit_user_denial co now request_id access action uid ''last_superuser_protected'' [] db)
      else Inr ())"

definition guard_egress ::
    "crypto_ops \<Rightarrow> timestamp \<Rightarrow> string option \<Rightarrow> access_context \<Rightarrow> revocation \<Rightarrow> keys_db \<Rightarrow> failure + unit" where
  "guard_egress co now request_id access rv db =
     (case deny_if_active_external_llm_egress co now (ac_user access) request_id rv db of
        None \<Rightarrow> Inr () | Some f \<Rightarrow> Inl f)"

definition user_revocation :: "crypto_ops \<Rightarrow> string \<Rightarrow> uuid \<Rightarrow> revocation" where
  "user_revocation co scope uid =
     \<lparr>rv_scope = scope, rv_resource_type = ''user'', rv_resource_id = co_str_uuid co uid,
      rv_knowledge_base_id = None, rv_user_id = Some uid, rv_api_key_id = None, rv_role_id = None\<rparr>"

definition kb_revocation :: "crypto_ops \<Rightarrow> string \<Rightarrow> uuid \<Rightarrow> revocation" where
  "kb_revocation co scope kid =
     \<lparr>rv_scope = scope, rv_resource_type = ''knowledge_base'', rv_resource_id = co_str_uuid co kid,
      rv_knowledge_base_id = Some kid, rv_user_id = None, rv_api_key_id = None, rv_role_id = None\<rparr>"

section \<open>Assigning roles\<close>

definition ensure_kb_grants_delegable ::
    "kb_db \<Rightarrow> access_context \<Rightarrow> (uuid \<times> kb_access_level) list \<Rightarrow> api_error + unit" where
  "ensure_kb_grants_delegable kb access rows =
     fold_r (\<lambda>_ (kid, level). bind_r (require_knowledge_base_access kb access kid level) (\<lambda>_. Inr ())) () rows"

definition role_grant_rows :: "kb_db \<Rightarrow> uuid list \<Rightarrow> (uuid \<times> kb_access_level) list" where
  "role_grant_rows kb rids =
     map (\<lambda>g. (kg_knowledge_base_id g, kg_access_level g))
       (sort_key kg_knowledge_base_id (sort_key kg_role_id (filter (\<lambda>g. kg_role_id g \<in> set rids) (k_grants kb))))"

definition ensure_roles_assignable :: "rbac_db \<Rightarrow> kb_db \<Rightarrow> access_context \<Rightarrow> role list \<Rightarrow> api_error + unit" where
  "ensure_roles_assignable db kb access roles =
     (if u_is_superuser (ac_user access) then Inr ()
      else if \<exists>r \<in> set roles. ro_is_system r \<or> ro_priority r \<ge> ac_max_role_priority access
      then Inl (ApiError 403 ''role_escalation_denied'')
      else if \<exists>r \<in> set roles. \<exists>code \<in> set (current_permission_codes db (ro_id r)). \<not> allows access code
      then Inl (ApiError 403 ''permission_escalation_denied'')
      else if \<exists>r \<in> set roles. \<exists>(key, v) \<in> set (role_limit_rows db (ro_id r)). over_limit v (own_limit access key)
      then Inl (ApiError 403 ''limit_escalation_denied'')
      else ensure_kb_grants_delegable kb access (role_grant_rows kb (map ro_id roles)))"

text \<open>The requested roles as the locked rows; a role that does not exist is an error.\<close>

definition requested_roles :: "rbac_db \<Rightarrow> uuid list \<Rightarrow> api_error + role list" where
  "requested_roles db rids =
     (let roles = filter (\<lambda>r. ro_id r \<in> set rids) (db_roles db)
      in if ro_id ` set roles \<noteq> set rids then Inl (ApiError 422 ''unknown_role'') else Inr roles)"

definition assign_rows :: "uuid \<Rightarrow> uuid \<Rightarrow> uuid list \<Rightarrow> user_role list" where
  "assign_rows uid assigner rids =
     map (\<lambda>rid. \<lparr>ur_user_id = uid, ur_role_id = rid, ur_assigned_by = Some assigner, ur_expires_at = None\<rparr>) (remdups rids)"

section \<open>Creating and changing accounts\<close>

record user_create =
  uc_email :: string
  uc_display_name :: "string option"
  uc_role_ids :: "uuid list"

definition insert_user :: "user \<Rightarrow> rbac_db \<Rightarrow> api_error + rbac_db" where
  "insert_user u db =
     (if \<not> user_checks u \<or> (\<exists>x \<in> set (db_users db). u_id x = u_id u \<or> u_email x = u_email u) then Inl unhandled
      else Inr (db\<lparr>db_users := db_users db @ [u]\<rparr>))"

definition new_user :: "timestamp \<Rightarrow> uuid \<Rightarrow> string \<Rightarrow> user_create \<Rightarrow> user" where
  "new_user now uid password_hash payload =
     \<lparr>u_id = uid, u_email = py_lower (uc_email payload), u_password_hash = password_hash,
      u_display_name = uc_display_name payload, u_status = USER_ACTIVE, u_is_superuser = False, u_token_version = 0,
      u_role_assignment_version = 1, u_last_login_at = None, u_retired_at = None, u_retired_by_id = None,
      u_retirement_reason = None, u_created_at = now\<rparr>"

text \<open>\<open>uid\<close> is the fresh id, \<open>password_hash\<close> the salted hash of the password.\<close>

definition create_user ::
    "crypto_ops \<Rightarrow> timestamp \<Rightarrow> uuid \<Rightarrow> string \<Rightarrow> string option \<Rightarrow> access_context \<Rightarrow> user_create \<Rightarrow> keys_db \<Rightarrow>
     user_read keys_outcome" where
  "create_user co now uid password_hash request_id access0 payload db =
     (let rids = uc_role_ids payload; u = new_user now uid password_hash payload in
      or_rollback db
       (bind_r (locked_actor (''user:manage'' # (if rids = [] then [] else [''role:assign''])) db now access0) (\<lambda>access.
        if \<exists>x \<in> set (db_users (x_rbac db)). u_email x = u_email u then Inl (ApiError 409 ''email_exists'')
        else if rids \<noteq> [] \<and> \<not> allows access ''role:assign'' then Inl (ApiError 403 ''permission_denied'')
        else bind_r (if rids = [] then Inr ()
                     else bind_r (requested_roles (x_rbac db) rids)
                            (\<lambda>roles. ensure_roles_assignable (x_rbac db) (x_kb db) access roles)) (\<lambda>_.
             bind_r (insert_user u (x_rbac db)) (\<lambda>db1.
             let db2 = db1\<lparr>db_user_roles := db_user_roles db1 @ assign_rows uid (u_id (ac_user access)) rids\<rparr>
             in Inr (read_user co db2 u,
                     audit_user co now ''user.created'' SUCCESS access uid request_id
                       [(''roles'', JList (map (\<lambda>i. JStr (co_str_uuid co i)) (remdups rids)))] (on_rbac (\<lambda>_. db2) db)))))))"

text \<open>\<open>ux_display_name\<close> is \<open>Some\<close> when the field was sent; a sent status is never null.\<close>

record user_update =
  ux_display_name :: "string option option"
  ux_status :: "user_status option"

definition updated_user :: "user_update \<Rightarrow> user \<Rightarrow> user" where
  "updated_user p u =
     (let u1 = u\<lparr>u_display_name := (case ux_display_name p of None \<Rightarrow> u_display_name u | Some v \<Rightarrow> v)\<rparr>
      in case ux_status p of
           None \<Rightarrow> u1
         | Some s \<Rightarrow> u1\<lparr>u_status := s, u_token_version := u_token_version u + 1\<rparr>)"

definition user_fields :: "user_update \<Rightarrow> string list" where
  "user_fields p = (if ux_display_name p = None then [] else [''display_name'']) @
     (if ux_status p = None then [] else [''status''])"

definition put_user :: "user \<Rightarrow> keys_db \<Rightarrow> keys_db" where
  "put_user u db = db\<lparr>x_auth := write_user (u_id u) (\<lambda>_. u) (x_auth db)\<rparr>"

definition update_user ::
    "crypto_ops \<Rightarrow> timestamp \<Rightarrow> string option \<Rightarrow> access_context \<Rightarrow> uuid \<Rightarrow> user_update \<Rightarrow> keys_db \<Rightarrow> user_read keys_outcome" where
  "update_user co now request_id access0 uid payload db =
     committed
      (bind_r (lock_authorized_user_target [''user:manage'']
          (\<lambda>access target. refuse db (authorize_managed_user_target (x_rbac db) now access target)) db now access0 uid)
        (\<lambda>(access, user).
         let inactive = (case ux_status payload of None \<Rightarrow> False | Some s \<Rightarrow> s \<noteq> USER_ACTIVE);
             row = updated_user payload user
         in if u_retired_at user \<noteq> None \<and> (case ux_status payload of None \<Rightarrow> False | Some s \<Rightarrow> s \<noteq> USER_DISABLED)
            then Inl (ApiError 409 ''user_retired'', db)
            else bind_r (if u_is_superuser user \<and> inactive
                         then guard_last_superuser co now request_id access ''user.status_change.denied'' (u_id user) db
                         else Inr ()) (\<lambda>_.
                 bind_r (if u_status user = USER_ACTIVE \<and> inactive
                         then guard_egress co now request_id access (user_revocation co ''user_status'' (u_id user)) db
                         else Inr ()) (\<lambda>_.
                 Inr (read_user co (x_rbac (put_user row db)) row,
                      audit_user co now ''user.updated'' SUCCESS access (u_id user) request_id
                        [(''fields'', JList (map JStr (sort (user_fields payload))))] (put_user row db))))))"

section \<open>Retirement\<close>

record user_retirement =
  ut_confirmation_email :: string
  ut_reason :: "string option"
  ut_replacement_owner_id :: "uuid option"

definition authorize_retirement_target ::
    "crypto_ops \<Rightarrow> timestamp \<Rightarrow> string option \<Rightarrow> user_retirement \<Rightarrow> keys_db \<Rightarrow> access_context \<Rightarrow> user \<Rightarrow> failure + unit" where
  "authorize_retirement_target co now request_id payload db access target =
     (let denied = (\<lambda>reason. Inl (ApiError 409 reason,
            commit_user_denial co now request_id access ''user.retirement.denied'' (u_id target) reason [] db))
      in if u_id target = u_id (ac_user access) then denied ''self_retirement_forbidden''
         else bind_r (refuse db (authorize_managed_user_target (x_rbac db) now access target)) (\<lambda>_.
              if ut_confirmation_email payload \<noteq> u_email target then denied ''retirement_confirmation_mismatch''
              else if u_retired_at target \<noteq> None then Inr ()
              else (case ut_replacement_owner_id payload of
                      None \<Rightarrow> Inr ()
                    | Some rid \<Rightarrow>
                        if rid = u_id target then Inl (ApiError 409 ''replacement_owner_invalid'', db)
                        else if \<not> allows access ''knowledge:grant'' then Inl (ApiError 403 ''permission_denied'', db)
                        else (case find_user (x_auth db) rid of
                                None \<Rightarrow> Inl (ApiError 404 ''replacement_owner_not_found'', db)
                              | Some replacement \<Rightarrow>
                                  if active_user replacement then Inr ()
                                  else Inl (ApiError 409 ''replacement_owner_invalid'', db)))))"

definition owned_knowledge_bases :: "kb_db \<Rightarrow> uuid \<Rightarrow> knowledge_base list" where
  "owned_knowledge_bases kb uid = sort_key kb_id (filter (\<lambda>b. kb_owner_id b = uid) (k_bases kb))"

definition ensure_transfer ::
    "crypto_ops \<Rightarrow> timestamp \<Rightarrow> string option \<Rightarrow> user_retirement \<Rightarrow> keys_db \<Rightarrow> access_context \<Rightarrow> user \<Rightarrow> failure + unit" where
  "ensure_transfer co now request_id payload db access user =
     (let owned = owned_knowledge_bases (x_kb db) (u_id user) in
      if owned \<noteq> [] \<and> ut_replacement_owner_id payload = None
      then Inl (ApiError 409 ''user_ownership_conflict'',
                commit_user_denial co now request_id access ''user.retirement.denied'' (u_id user) ''user_ownership_conflict''
                  [(''references'', JObj [(''owned_knowledge_bases'', JInt (int (length owned)))])] db)
      else if owned \<noteq> [] \<and> \<not> u_is_superuser (ac_user access)
      then if \<not> allows access ''knowledge:grant'' then Inl (ApiError 403 ''permission_denied'', db)
           else refuse db (fold_r (\<lambda>_ b. bind_r (require_knowledge_base_access (x_kb db) access (kb_id b) MANAGER) (\<lambda>_. Inr ()))
                  () owned)
      else Inr ())"

definition guard_retirement ::
    "crypto_ops \<Rightarrow> timestamp \<Rightarrow> string option \<Rightarrow> keys_db \<Rightarrow> access_context \<Rightarrow> user \<Rightarrow> failure + unit" where
  "guard_retirement co now request_id db access user =
     bind_r (guard_egress co now request_id access (user_revocation co ''user_retirement'' (u_id user)) db) (\<lambda>_.
       fold_r (\<lambda>_ b. guard_egress co now request_id access (kb_revocation co ''knowledge_base_owner_transfer'' (kb_id b)) db)
         () (owned_knowledge_bases (x_kb db) (u_id user)))"

definition retired_user :: "timestamp \<Rightarrow> uuid \<Rightarrow> user_retirement \<Rightarrow> bool \<Rightarrow> user \<Rightarrow> user" where
  "retired_user now actor payload had_roles u =
     u\<lparr>u_status := USER_DISABLED, u_retired_at := Some now, u_retired_by_id := Some actor,
       u_retirement_reason := ut_reason payload, u_token_version := u_token_version u + 1,
       u_role_assignment_version := (if had_roles then u_role_assignment_version u + 1 else u_role_assignment_version u)\<rparr>"

definition revoke_tokens :: "timestamp \<Rightarrow> uuid \<Rightarrow> refresh_token list \<Rightarrow> refresh_token list" where
  "revoke_tokens now uid = update_where (\<lambda>t. rt_user_id t = uid \<and> rt_revoked_at t = None) (\<lambda>t. t\<lparr>rt_revoked_at := Some now\<rparr>)"

definition transfer_owned :: "timestamp \<Rightarrow> uuid \<Rightarrow> uuid option \<Rightarrow> knowledge_base list \<Rightarrow> knowledge_base list" where
  "transfer_owned now uid replacement bases =
     (case replacement of
        None \<Rightarrow> bases
      | Some rid \<Rightarrow> update_where (\<lambda>b. kb_owner_id b = uid) (\<lambda>b. b\<lparr>kb_owner_id := rid, kb_updated_at := now\<rparr>) bases)"

definition retire_rows :: "timestamp \<Rightarrow> uuid \<Rightarrow> user_retirement \<Rightarrow> user \<Rightarrow> keys_db \<Rightarrow> keys_db" where
  "retire_rows now actor payload user db =
     (let uid = u_id user;
          had_roles = (\<exists>ur \<in> set (db_user_roles (x_rbac db)). ur_user_id ur = uid);
          db1 = put_user (retired_user now actor payload had_roles user) db;
          db2 = on_rbac (\<lambda>b. b\<lparr>db_user_roles := filter (\<lambda>ur. ur_user_id ur \<noteq> uid) (db_user_roles b)\<rparr>) db1
      in db2\<lparr>x_auth := (x_auth db2)\<lparr>a_tokens := revoke_tokens now uid (a_tokens (x_auth db2))\<rparr>,
             x_keys := revoke_keys now uid (x_keys db2),
             x_kb := (x_kb db2)\<lparr>k_bases := transfer_owned now uid (ut_replacement_owner_id payload) (k_bases (x_kb db2))\<rparr>\<rparr>)"

definition retirement_details :: "crypto_ops \<Rightarrow> user_retirement \<Rightarrow> user \<Rightarrow> keys_db \<Rightarrow> (string \<times> json) list" where
  "retirement_details co payload user db =
     (let uid = u_id user; owned = owned_knowledge_bases (x_kb db) uid;
          count = (\<lambda>n. JInt (int n))
      in [(''reason'', case ut_reason payload of None \<Rightarrow> JNull | Some r \<Rightarrow> JStr r),
          (''revoked_api_keys'', count (length (filter (\<lambda>k. ak_user_id k = uid \<and> ak_revoked_at k = None) (x_keys db)))),
          (''revoked_refresh_tokens'',
             count (length (filter (\<lambda>t. rt_user_id t = uid \<and> rt_revoked_at t = None) (a_tokens (x_auth db))))),
          (''removed_role_assignments'', count (length (filter (\<lambda>ur. ur_user_id ur = uid) (db_user_roles (x_rbac db)))))] @
         (case ut_replacement_owner_id payload of
            None \<Rightarrow> []
          | Some rid \<Rightarrow>
              if owned = [] then []
              else [(''transferred_knowledge_bases'', count (length owned)),
                    (''knowledge_base_owner_from'', JStr (co_str_uuid co uid)),
                    (''knowledge_base_owner_to'', JStr (co_str_uuid co rid)),
                    (''transferred_knowledge_base_ids'', JList (map (\<lambda>b. JStr (co_str_uuid co (kb_id b))) (take 100 owned))),
                    (''transferred_knowledge_base_ids_truncated'', JBool (100 < length owned))]))"

definition retire_user ::
    "crypto_ops \<Rightarrow> timestamp \<Rightarrow> string option \<Rightarrow> access_context \<Rightarrow> uuid \<Rightarrow> user_retirement \<Rightarrow> keys_db \<Rightarrow> unit keys_outcome" where
  "retire_user co now request_id access0 uid payload db =
     committed
      (bind_r (lock_authorized_user_target [''user:manage'']
          (authorize_retirement_target co now request_id payload db) db now access0 uid) (\<lambda>(access, user).
       if u_retired_at user \<noteq> None then Inr ((), db)
       else bind_r (if u_is_superuser user
                    then guard_last_superuser co now request_id access ''user.retirement.denied'' (u_id user) db
                    else Inr ()) (\<lambda>_.
            bind_r (ensure_transfer co now request_id payload db access user) (\<lambda>_.
            bind_r (guard_retirement co now request_id db access user) (\<lambda>_.
            Inr ((), audit_user co now ''user.retired'' SUCCESS access (u_id user) request_id
                       (retirement_details co payload user db)
                       (retire_rows now (u_id (ac_user access)) payload user db)))))))"

section \<open>Passwords\<close>

text \<open>
  \<open>access0\<close> is the snapshot of the caller that the request authenticated, \<open>password_hash\<close> the salted hash of the new
  password. The check against the locked row binds the proof of the old password to the hash it was made for.
\<close>

record password_reset =
  pr_current_password :: "string option"
  pr_new_password :: string

definition reset_rows :: "timestamp \<Rightarrow> string \<Rightarrow> user \<Rightarrow> keys_db \<Rightarrow> keys_db" where
  "reset_rows now password_hash user db =
     (let db1 = put_user (user\<lparr>u_password_hash := password_hash, u_token_version := u_token_version user + 1\<rparr>) db
      in db1\<lparr>x_auth := (x_auth db1)\<lparr>a_tokens := revoke_tokens now (u_id user) (a_tokens (x_auth db1))\<rparr>\<rparr>)"

definition replace_user_password ::
    "crypto_ops \<Rightarrow> timestamp \<Rightarrow> string list \<Rightarrow> string \<Rightarrow> string option \<Rightarrow> access_context \<Rightarrow> uuid \<Rightarrow> password_reset \<Rightarrow> keys_db \<Rightarrow>
     unit keys_outcome" where
  "replace_user_password co now required password_hash request_id access0 uid payload db =
     (let own = (u_id (ac_user access0) = uid); verified = u_password_hash (ac_user access0) in
      if \<not> own \<and> \<not> u_is_superuser (ac_user access0) then (Inl (ApiError 403 ''superuser_required''), db)
      else if own \<and> pr_current_password payload = None then (Inl (ApiError 422 ''current_password_required''), db)
      else if \<not> own \<and> pr_current_password payload \<noteq> None then (Inl (ApiError 422 ''current_password_not_allowed''), db)
      else if own \<and> \<not> co_verify co (case pr_current_password payload of None \<Rightarrow> [] | Some p \<Rightarrow> p) verified
      then (Inl (ApiError 401 ''invalid_current_password''), db)
      else committed
        (bind_r (lock_authorized_user_target required (\<lambda>access target. refuse db (authorize_password_target access target))
            db now access0 uid) (\<lambda>(access, user).
         if u_retired_at user \<noteq> None then Inl (ApiError 409 ''user_retired'', db)
         else if u_id user = u_id (ac_user access) \<and> (\<not> own \<or> u_password_hash (ac_user access) \<noteq> verified)
         then Inl (ApiError 401 ''invalid_current_password'', db)
         else if u_id user \<noteq> u_id (ac_user access) \<and> \<not> u_is_superuser (ac_user access)
         then Inl (ApiError 403 ''superuser_required'', db)
         else Inr ((), audit_user co now ''user.password.reset'' SUCCESS access (u_id user) request_id
                [(''from_token_version'', JInt (u_token_version user)), (''to_token_version'', JInt (u_token_version user + 1)),
                 (''revoked_refresh_tokens'', JInt (int (length (filter (\<lambda>t. rt_user_id t = u_id user \<and> rt_revoked_at t = None)
                    (a_tokens (x_auth db))))))] (reset_rows now password_hash user db)))))"

definition enforce_self_password_change_rate_limit ::
    "crypto_ops \<Rightarrow> 'r redis_ops \<Rightarrow> auth_settings \<Rightarrow> access_context \<Rightarrow> 'r \<Rightarrow> (api_error + rate_limit_decision) \<times> 'r" where
  "enforce_self_password_change_rate_limit co ops st access r =
     rate_gate ops (''rate:password-change:user:'' @ co_str_uuid co (u_id (ac_user access)))
       (st_login_attempts_per_account_per_minute st) r"

definition change_own_password ::
    "crypto_ops \<Rightarrow> 'r redis_ops \<Rightarrow> auth_settings \<Rightarrow> timestamp \<Rightarrow> string \<Rightarrow> string option \<Rightarrow> access_context \<Rightarrow> password_reset \<Rightarrow>
     keys_db \<Rightarrow> 'r \<Rightarrow> unit keys_outcome \<times> 'r" where
  "change_own_password co ops st now password_hash request_id access0 payload db r =
     (case enforce_self_password_change_rate_limit co ops st access0 r of
        (Inl e, r') \<Rightarrow> ((Inl e, db), r')
      | (Inr _, r') \<Rightarrow>
          (replace_user_password co now [] password_hash request_id access0 (u_id (ac_user access0)) payload db, r'))"

definition reset_user_password ::
    "crypto_ops \<Rightarrow> 'r redis_ops \<Rightarrow> auth_settings \<Rightarrow> timestamp \<Rightarrow> string \<Rightarrow> string option \<Rightarrow> access_context \<Rightarrow> uuid \<Rightarrow>
     password_reset \<Rightarrow> keys_db \<Rightarrow> 'r \<Rightarrow> unit keys_outcome \<times> 'r" where
  "reset_user_password co ops st now password_hash request_id access0 uid payload db r =
     (case (if uid = u_id (ac_user access0)
            then (case enforce_self_password_change_rate_limit co ops st access0 r of
                    (Inl e, r') \<Rightarrow> (Inl e, r') | (Inr _, r') \<Rightarrow> (Inr (), r'))
            else (Inr (), r)) of
        (Inl e, r') \<Rightarrow> ((Inl e, db), r')
      | (Inr _, r') \<Rightarrow>
          (replace_user_password co now [''user:manage''] password_hash request_id access0 uid payload db, r'))"

section \<open>Replacing roles\<close>

definition replace_role_rows :: "uuid \<Rightarrow> uuid list \<Rightarrow> user \<Rightarrow> keys_db \<Rightarrow> keys_db" where
  "replace_role_rows assigner rids user db =
     put_user (user\<lparr>u_role_assignment_version := u_role_assignment_version user + 1,
                    u_token_version := u_token_version user + 1\<rparr>)
       (on_rbac (\<lambda>b. b\<lparr>db_user_roles := filter (\<lambda>ur. ur_user_id ur \<noteq> u_id user) (db_user_roles b) @
            assign_rows (u_id user) assigner rids\<rparr>) db)"

definition replace_user_roles ::
    "crypto_ops \<Rightarrow> timestamp \<Rightarrow> string option \<Rightarrow> access_context \<Rightarrow> uuid \<Rightarrow> int \<Rightarrow> uuid list \<Rightarrow> keys_db \<Rightarrow> user_read keys_outcome" where
  "replace_user_roles co now request_id access0 uid expected rids db =
     committed
      (bind_r (lock_authorized_user_target [''role:assign'']
          (\<lambda>access target. refuse db (authorize_managed_user_target (x_rbac db) now access target)) db now access0 uid)
        (\<lambda>(access, user).
         if u_retired_at user \<noteq> None \<and> rids \<noteq> [] then Inl (ApiError 409 ''user_retired'', db)
         else bind_r (if u_is_superuser user
                      then guard_last_superuser co now request_id access ''user.roles_replace.denied'' (u_id user) db
                      else Inr ()) (\<lambda>_.
              if expected \<noteq> u_role_assignment_version user then Inl (ApiError 409 ''stale_role_assignment'', db)
              else bind_r (refuse db (bind_r (requested_roles (x_rbac db) rids)
                     (\<lambda>roles. ensure_roles_assignable (x_rbac db) (x_kb db) access roles))) (\<lambda>_.
                   if set (map ur_role_id (filter (\<lambda>ur. ur_user_id ur = uid) (db_user_roles (x_rbac db)))) = set rids
                   then Inr (read_user co (x_rbac db) user, db)
                   else bind_r (guard_egress co now request_id access (user_revocation co ''user_roles'' (u_id user)) db) (\<lambda>_.
                        let db1 = replace_role_rows (u_id (ac_user access)) rids user db;
                            row = user\<lparr>u_role_assignment_version := expected + 1, u_token_version := u_token_version user + 1\<rparr>
                        in Inr (read_user co (x_rbac db1) row,
                                audit_user co now ''user.roles.replaced'' SUCCESS access (u_id user) request_id
                                  [(''from_version'', JInt expected), (''to_version'', JInt (expected + 1))] db1))))))"

end
