(* ===== verification/Capabilities.thy ===== *)
theory Capabilities
  imports Users
begin

text \<open>
  What a user may do, as a set of capabilities: permissions, limits, rank and reach into knowledge bases. The tables
  may change in ways that only pass on capabilities of an administrator (\<open>bounded\<close>); the lemmas show that after such a
  change every capability of a user was one of that user or of the administrator before. At the end, how the service
  enforces limits, where a limit that is not set may mean a default and not zero.
\<close>

section \<open>Capabilities\<close>

datatype capability =
    CanDo string
  | CanUse string limit_value
  | CanOutrank int
  | CanReach uuid kb_access_level

text \<open>
  What the role and user administration weighs when a policy is granted: a limit that is not set counts as zero there. A limit up
  to zero is no capability; a rank is a priority strictly below one's own.
\<close>

fun entitled :: "keys_db \<Rightarrow> timestamp \<Rightarrow> user \<Rightarrow> capability \<Rightarrow> bool" where
  "entitled db now u (CanDo code) \<longleftrightarrow> allows (resolve (x_rbac db) now u) code"
| "entitled db now u (CanUse key v) \<longleftrightarrow>
     \<not> over_limit v (own_limit (resolve (x_rbac db) now u) key) \<or> \<not> over_limit v (Some 0)"
| "entitled db now u (CanOutrank p) \<longleftrightarrow> p < ac_max_role_priority (resolve (x_rbac db) now u)"
| "entitled db now u (CanReach kid level) \<longleftrightarrow>
     is_ok (require_knowledge_base_access (x_kb db) (resolve (x_rbac db) now u) kid level)"

text \<open>Capabilities on a knowledge base that exists; others are created with it, for its owner.\<close>

definition concerns :: "keys_db \<Rightarrow> capability \<Rightarrow> bool" where
  "concerns db cap \<longleftrightarrow> (\<forall>kid level. cap = CanReach kid level \<longrightarrow> kid \<in> kb_id ` set (k_bases (x_kb db)))"

text \<open>How the tables may change under an administrator with the access \<open>ctx\<close>.\<close>

definition perm_bounded :: "access_context \<Rightarrow> rbac_db \<Rightarrow> rbac_db \<Rightarrow> bool" where
  "perm_bounded ctx a b \<longleftrightarrow> db_permissions b = db_permissions a \<and>
     (\<forall>ur \<in> set (db_user_roles b). \<forall>rp \<in> set (db_role_permissions b). \<forall>p \<in> set (db_permissions a).
        rp_role_id rp = ur_role_id ur \<longrightarrow> pe_id p = rp_permission_id rp \<longrightarrow>
        ur \<in> set (db_user_roles a) \<and> rp \<in> set (db_role_permissions a) \<or> allows ctx (pe_code p))"

definition limit_bounded :: "access_context \<Rightarrow> rbac_db \<Rightarrow> rbac_db \<Rightarrow> bool" where
  "limit_bounded ctx a b \<longleftrightarrow> db_limit_definitions b = db_limit_definitions a \<and>
     db_user_limit_overrides b = db_user_limit_overrides a \<and>
     (\<forall>ur \<in> set (db_user_roles b). \<forall>rl \<in> set (db_role_limits b). \<forall>d \<in> set (db_limit_definitions a).
        rl_role_id rl = ur_role_id ur \<longrightarrow> ld_id d = rl_limit_definition_id rl \<longrightarrow>
        ur \<in> set (db_user_roles a) \<and> rl \<in> set (db_role_limits a) \<or> \<not> over_limit (rl_value rl) (own_limit ctx (ld_key d)))"

definition rank_bounded :: "access_context \<Rightarrow> rbac_db \<Rightarrow> rbac_db \<Rightarrow> bool" where
  "rank_bounded ctx a b \<longleftrightarrow> (\<forall>ur \<in> set (db_user_roles b). \<forall>r \<in> set (db_roles b). ro_id r = ur_role_id ur \<longrightarrow>
     ur \<in> set (db_user_roles a) \<and> (\<exists>r0 \<in> set (db_roles a). ro_id r0 = ro_id r \<and> ro_priority r0 = ro_priority r) \<or>
     ro_priority r < ac_max_role_priority ctx)"

definition reach_bounded :: "access_context \<Rightarrow> keys_db \<Rightarrow> keys_db \<Rightarrow> bool" where
  "reach_bounded ctx db db' \<longleftrightarrow>
     (\<forall>g \<in> set (k_grants (x_kb db')). g \<in> set (k_grants (x_kb db)) \<or>
        is_ok (require_knowledge_base_access (x_kb db) ctx (kg_knowledge_base_id g) MANAGER)) \<and>
     (\<forall>kid b'. kid \<in> kb_id ` set (k_bases (x_kb db)) \<longrightarrow>
        find (\<lambda>b. kb_id b = kid) (k_bases (x_kb db')) = Some b' \<longrightarrow>
        (\<exists>b. find (\<lambda>b. kb_id b = kid) (k_bases (x_kb db)) = Some b \<and>
           (kb_owner_id b' = kb_owner_id b \<or> is_ok (require_knowledge_base_access (x_kb db) ctx kid MANAGER)))) \<and>
     (\<forall>ur \<in> set (db_user_roles (x_rbac db')).
        ur \<in> set (db_user_roles (x_rbac db)) \<and> ur_role_id ur \<in> ro_id ` set (db_roles (x_rbac db)) \<or>
        (\<forall>g \<in> set (k_grants (x_kb db)). kg_role_id g = ur_role_id ur \<longrightarrow>
           is_ok (require_knowledge_base_access (x_kb db) ctx (kg_knowledge_base_id g) (kg_access_level g))))"

definition bounded :: "access_context \<Rightarrow> keys_db \<Rightarrow> keys_db \<Rightarrow> bool" where
  "bounded ctx db db' \<longleftrightarrow> perm_bounded ctx (x_rbac db) (x_rbac db') \<and> limit_bounded ctx (x_rbac db) (x_rbac db') \<and>
     rank_bounded ctx (x_rbac db) (x_rbac db') \<and> reach_bounded ctx db db'"

section \<open>Permissions\<close>

lemma has_permission_ex: "has_permission g c \<Longrightarrow> \<exists>x \<in> set g. has_permission [x] c"
  by (auto simp: has_permission_def split: if_split_asm prod.split_asm)

lemma partition_star:
  assumes "py_partition CHR '':'' d = (r, sep, rest)" "sep \<noteq> []"
  shows "py_partition CHR '':'' (r @ '':*'') = (r, '':'', ''*'')"
proof -
  have "CHR '':'' \<notin> set r" using assms by (auto simp: py_partition_def Let_def dest: set_takeWhileD split: if_split_asm)
  then show ?thesis using py_partition_colon[of "CHR '':''" r "''*''"] by simp
qed

lemma has_permission_trans:
  assumes "has_permission g c" "has_permission [c] d"
  shows "has_permission g d"
proof (cases "c = d")
  case True
  with assms show ?thesis by simp
next
  case False
  consider "c = ''*''" | r sep rest where "py_partition CHR '':'' d = (r, sep, rest)" "sep \<noteq> []" "c = r @ '':*''"
    using assms(2) False by (auto simp: has_permission_def split: if_split_asm prod.split_asm)
  then show ?thesis
  proof cases
    case 1
    with assms(1) show ?thesis by (auto simp: has_permission_def py_partition_def split: if_split_asm prod.split_asm)
  next
    case 2
    with assms(1) partition_star[OF 2(1,2)] show ?thesis by (auto simp: has_permission_def split: if_split_asm prod.split_asm)
  qed
qed

lemma active_earlier: "now \<le> now' \<Longrightarrow> active_assignment now' ur \<Longrightarrow> active_assignment now ur"
  by (auto simp: active_assignment_def split: option.split_asm)

lemma do_bounded:
  assumes b: "perm_bounded ctx a b" and t: "now \<le> now'" and su: "\<not> u_is_superuser v"
    and ok: "allows (resolve b now' v) code"
  shows "allows (resolve a now v) code \<or> allows ctx code"
proof -
  obtain c where c: "c \<in> set (permission_rows b now' (u_id v))" "has_permission [c] code"
    using has_permission_ex[OF ok[unfolded allows_def]] su unfolding set_resolve_permissions by auto
  obtain ur rp p where r: "ur \<in> set (db_user_roles b)" "ur_user_id ur = u_id v" "active_assignment now' ur"
    "rp \<in> set (db_role_permissions b)" "p \<in> set (db_permissions b)" "rp_role_id rp = ur_role_id ur"
    "pe_id p = rp_permission_id rp" "pe_code p = c"
    using c(1) unfolding in_permission_rows by (auto simp: in_active_roles)
  with b have "ur \<in> set (db_user_roles a) \<and> rp \<in> set (db_role_permissions a) \<or> allows ctx c" "p \<in> set (db_permissions a)"
    unfolding perm_bounded_def by auto
  moreover have "allows (resolve a now v) c" if "ur \<in> set (db_user_roles a)" "rp \<in> set (db_role_permissions a)"
  proof -
    have "c \<in> set (permission_rows a now (u_id v))"
      unfolding in_permission_rows using r that calculation(2) active_earlier[OF t] by (force simp: in_active_roles)
    then show ?thesis by (simp add: allows_def has_permission_def set_resolve_permissions)
  qed
  ultimately show ?thesis using c(2) has_permission_trans unfolding allows_def by blast
qed

section \<open>Limits\<close>

lemma over_limit_simps [simp]:
  "\<not> over_limit v None" "over_limit None (Some b)" "over_limit (Some x) (Some b) \<longleftrightarrow> x > b"
  by (simp_all add: over_limit_def)

lemma over_limit_trans: "\<not> over_limit v w \<Longrightarrow> \<not> over_limit w z \<Longrightarrow> \<not> over_limit v z"
  by (cases v; cases w; cases z) auto

definition set_limits :: "rbac_db \<Rightarrow> timestamp \<Rightarrow> uuid \<Rightarrow> string \<Rightarrow> limit_value set" where
  "set_limits db now uid k = {rl_value rl | ur rl ld. ur \<in> set (active_roles db now uid) \<and>
     rl \<in> set (db_role_limits db) \<and> ld \<in> set (db_limit_definitions db) \<and>
     rl_role_id rl = ur_role_id ur \<and> ld_id ld = rl_limit_definition_id rl \<and> ld_key ld = k}"

lemma finite_set_limits: "finite (set_limits db now uid k)"
proof (rule finite_subset)
  show "set_limits db now uid k \<subseteq> rl_value ` set (db_role_limits db)" by (auto simp: set_limits_def)
qed simp

definition limit_tables :: "rbac_db \<Rightarrow> bool" where
  "limit_tables db \<longleftrightarrow> keyed ld_key (db_limit_definitions db) \<and> keyed ld_id (db_limit_definitions db) \<and>
     keyed (\<lambda>rl. (rl_role_id rl, rl_limit_definition_id rl)) (db_role_limits db)"

lemma below_sup:
  assumes "finite vs" "vs \<noteq> {}"
  shows "\<not> over_limit v (if None \<in> vs then None else Some (Max (the ` vs))) \<longleftrightarrow> (\<exists>w \<in> vs. \<not> over_limit v w)"
proof (cases "None \<in> vs")
  case True
  then show ?thesis by (auto intro!: bexI[of _ None])
next
  case False
  have w: "w = Some (the w)" if "w \<in> vs" for w using False that by (cases w) auto
  show ?thesis
  proof (cases v)
    case None
    then show ?thesis using False w by (metis over_limit_simps(2))
  next
    case (Some x)
    have "x \<le> Max (the ` vs) \<longleftrightarrow> (\<exists>w \<in> vs. x \<le> the w)" using assms by (simp add: Max_ge_iff)
    also have "\<dots> \<longleftrightarrow> (\<exists>w \<in> vs. \<not> over_limit v w)" using w Some by (metis over_limit_simps(3) linorder_not_less)
    finally show ?thesis using False Some by (simp add: not_less)
  qed
qed

lemma within_own_limit:
  assumes "limit_tables db"
  shows "\<not> over_limit v (own_limit (resolve db now u) k) \<longleftrightarrow>
    (case map_of (rev (override_rows db (u_id u))) k of
       Some w \<Rightarrow> \<not> over_limit v w
     | None \<Rightarrow> (\<exists>w \<in> set_limits db now (u_id u) k. \<not> over_limit v w) \<or>
         set_limits db now (u_id u) k = {} \<and> \<not> over_limit v (Some 0))"
proof -
  have own: "own_limit (resolve db now u) k =
    (case map_of (rev (override_rows db (u_id u))) k of
       Some w \<Rightarrow> w
     | None \<Rightarrow> if set_limits db now (u_id u) k = {} then Some 0
         else if None \<in> set_limits db now (u_id u) k then None else Some (Max (the ` set_limits db now (u_id u) k)))"
    using assms effective_limit_of_user[of db now u k, folded set_limits_def]
    by (simp add: limit_tables_def own_limit_def Let_def split: option.split)
  show ?thesis
    unfolding own using below_sup[OF finite_set_limits, of db now "u_id u" k v]
    by (cases "set_limits db now (u_id u) k = {}") (simp_all split: option.split if_split_asm)
qed

lemma use_bounded:
  assumes b: "limit_bounded ctx a b" and t: "now \<le> now'" and la: "limit_tables a" and lb: "limit_tables b"
    and ok: "\<not> over_limit v (own_limit (resolve b now' u) k)" and pos: "over_limit v (Some 0)"
  shows "\<not> over_limit v (own_limit (resolve a now u) k) \<or> \<not> over_limit v (own_limit ctx k)"
proof (cases "map_of (rev (override_rows a (u_id u))) k")
  case (Some w)
  have "override_rows b (u_id u) = override_rows a (u_id u)"
    using b by (simp add: limit_bounded_def override_rows_def)
  with Some ok la lb show ?thesis by (simp add: within_own_limit)
next
  case None
  have same: "override_rows b (u_id u) = override_rows a (u_id u)"
    using b by (simp add: limit_bounded_def override_rows_def)
  obtain w where w: "w \<in> set_limits b now' (u_id u) k" "\<not> over_limit v w"
    using ok pos None lb same by (auto simp: within_own_limit)
  obtain ur rl d where r: "ur \<in> set (db_user_roles b)" "ur_user_id ur = u_id u" "active_assignment now' ur"
    "rl \<in> set (db_role_limits b)" "d \<in> set (db_limit_definitions a)" "rl_role_id rl = ur_role_id ur"
    "ld_id d = rl_limit_definition_id rl" "ld_key d = k" "rl_value rl = w"
    using w(1) b unfolding set_limits_def in_active_roles limit_bounded_def by auto
  show ?thesis
  proof (cases "ur \<in> set (db_user_roles a) \<and> rl \<in> set (db_role_limits a)")
    case True
    then have "w \<in> set_limits a now (u_id u) k"
      using r active_earlier[OF t r(3)] unfolding set_limits_def in_active_roles by blast
    with w(2) None la show ?thesis by (auto simp: within_own_limit)
  next
    case False
    then have "\<not> over_limit w (own_limit ctx k)" using b r unfolding limit_bounded_def by blast
    with w(2) show ?thesis using over_limit_trans by (intro disjI2)
  qed
qed

section \<open>Rank and reach\<close>

lemma outranks_iff:
  "p < ac_max_role_priority (resolve db now u) \<longleftrightarrow>
   p < -10001 \<or> (\<exists>ur \<in> set (active_roles db now (u_id u)). \<exists>r \<in> set (db_roles db). ro_id r = ur_role_id ur \<and> p < ro_priority r)"
proof -
  have "p < ac_max_role_priority (resolve db now u) \<longleftrightarrow>
      p < -10001 \<or> (\<exists>(i, q) \<in> set (role_rows db now (u_id u)). p < q)"
    unfolding resolve_priority by (force simp: Max_gr_iff split: prod.split)
  also have "(\<exists>(i, q) \<in> set (role_rows db now (u_id u)). p < q) \<longleftrightarrow>
      (\<exists>ur \<in> set (active_roles db now (u_id u)). \<exists>r \<in> set (db_roles db). ro_id r = ur_role_id ur \<and> p < ro_priority r)"
    using in_role_rows[of _ _ db now "u_id u"] by (auto simp: Bex_def)
  finally show ?thesis .
qed

lemma rank_kept:
  assumes b: "rank_bounded ctx a b" and t: "now \<le> now'" and ok: "p < ac_max_role_priority (resolve b now' u)"
  shows "p < ac_max_role_priority (resolve a now u) \<or> p < ac_max_role_priority ctx"
  using ok unfolding outranks_iff
proof (elim disjE bexE conjE)
  fix ur r assume ur: "ur \<in> set (active_roles b now' (u_id u))"
    and r: "r \<in> set (db_roles b)" "ro_id r = ur_role_id ur" "p < ro_priority r"
  have u: "ur \<in> set (db_user_roles b)" "ur_user_id ur = u_id u" "active_assignment now' ur"
    using ur by (simp_all add: in_active_roles)
  consider r0 where "ur \<in> set (db_user_roles a)" "r0 \<in> set (db_roles a)" "ro_id r0 = ro_id r" "ro_priority r0 = ro_priority r"
    | "ro_priority r < ac_max_role_priority ctx"
    using b u(1) r(1,2) unfolding rank_bounded_def by blast
  then show "(p < - 10001 \<or> (\<exists>ur\<in>set (active_roles a now (u_id u)). \<exists>r\<in>set (db_roles a). ro_id r = ur_role_id ur \<and> p < ro_priority r)) \<or>
    p < ac_max_role_priority ctx"
  proof cases
    case 1
    then have "ur \<in> set (active_roles a now (u_id u))" using u active_earlier[OF t] by (simp add: in_active_roles)
    with 1 r show ?thesis by (intro disjI1 disjI2 bexI[of _ ur] bexI[of _ r0]) auto
  next
    case 2
    with r(3) show ?thesis by simp
  qed
qed simp

lemma reach_iff:
  assumes "\<not> u_is_superuser (ac_user ctx)"
  shows "is_ok (require_knowledge_base_access kb ctx kid level) \<longleftrightarrow>
    (\<exists>b. find (\<lambda>b. kb_id b = kid) (k_bases kb) = Some b \<and>
      (kb_owner_id b = u_id (ac_user ctx) \<or>
       (\<exists>g \<in> set (k_grants kb). kg_knowledge_base_id g = kid \<and> kg_role_id g \<in> set (ac_role_ids ctx) \<and>
          access_rank level \<le> access_rank (kg_access_level g))))"
proof (cases "find (\<lambda>b. kb_id b = kid) (k_bases kb)")
  case None
  then show ?thesis by (simp add: require_knowledge_base_access_def)
next
  case (Some b)
  have lv: "(\<exists>g \<in> set (k_grants kb). kg_knowledge_base_id g = kid \<and> kg_role_id g \<in> set (ac_role_ids ctx) \<and>
      access_rank level \<le> access_rank (kg_access_level g)) \<longleftrightarrow>
      (\<exists>l \<in> set (granted_levels kb ctx kid). access_rank level \<le> access_rank l)"
    by (auto simp: granted_levels_def)
  have none: "ac_role_ids ctx = [] \<Longrightarrow> granted_levels kb ctx kid = []" by (simp add: granted_levels_def)
  show ?thesis
    unfolding lv require_knowledge_base_access_def Some
    using assms access_rank_le_manager[of level] none highest_level_ge[of "granted_levels kb ctx kid" _ "access_rank level"]
    by (auto simp: not_less[symmetric] split: option.split)
qed

lemma reach_kept:
  assumes b: "reach_bounded ctx db db'" and t: "now \<le> now'" and su: "\<not> u_is_superuser u" "\<not> u_is_superuser (ac_user ctx)"
    and old: "kid \<in> kb_id ` set (k_bases (x_kb db))"
    and ok: "is_ok (require_knowledge_base_access (x_kb db') (resolve (x_rbac db') now' u) kid level)"
  shows "is_ok (require_knowledge_base_access (x_kb db) (resolve (x_rbac db) now u) kid level) \<or>
    is_ok (require_knowledge_base_access (x_kb db) ctx kid level)"
proof -
  obtain b' where b': "find (\<lambda>b. kb_id b = kid) (k_bases (x_kb db')) = Some b'"
    and how: "kb_owner_id b' = u_id u \<or> (\<exists>g \<in> set (k_grants (x_kb db')). kg_knowledge_base_id g = kid \<and>
        kg_role_id g \<in> set (ac_role_ids (resolve (x_rbac db') now' u)) \<and> access_rank level \<le> access_rank (kg_access_level g))"
    using ok su by (auto simp: reach_iff)
  obtain b0 where b0: "find (\<lambda>b. kb_id b = kid) (k_bases (x_kb db)) = Some b0"
    "kb_owner_id b' = kb_owner_id b0 \<or> is_ok (require_knowledge_base_access (x_kb db) ctx kid MANAGER)"
    using b b' old unfolding reach_bounded_def by blast
  from how show ?thesis
  proof
    assume "kb_owner_id b' = u_id u"
    with b0 su show ?thesis using access_rank_le_manager[of level] by (auto simp: reach_iff intro: order_trans)
  next
    assume "\<exists>g \<in> set (k_grants (x_kb db')). kg_knowledge_base_id g = kid \<and>
        kg_role_id g \<in> set (ac_role_ids (resolve (x_rbac db') now' u)) \<and> access_rank level \<le> access_rank (kg_access_level g)"
    then obtain g ur where g': "g \<in> set (k_grants (x_kb db'))" "kg_knowledge_base_id g = kid" "kg_role_id g = ur_role_id ur"
      "access_rank level \<le> access_rank (kg_access_level g)"
      and ur: "ur \<in> set (db_user_roles (x_rbac db'))" "ur_user_id ur = u_id u" "active_assignment now' ur"
      unfolding resolve_role_ids in_active_roles by force
    consider "is_ok (require_knowledge_base_access (x_kb db) ctx kid MANAGER)"
      | "g \<in> set (k_grants (x_kb db))" "ur \<in> set (db_user_roles (x_rbac db))" "ur_role_id ur \<in> ro_id ` set (db_roles (x_rbac db))"
      | "is_ok (require_knowledge_base_access (x_kb db) ctx kid (kg_access_level g))"
      using b ur(1) g'(1,2,3) unfolding reach_bounded_def by blast
    then show ?thesis
    proof cases
      case 1
      with su b0 access_rank_le_manager[of level] show ?thesis by (auto simp: reach_iff intro: order_trans)
    next
      case 2
      then have "ur_role_id ur \<in> set (ac_role_ids (resolve (x_rbac db) now u))"
        unfolding resolve_role_ids using ur active_earlier[OF t] by (force simp: in_active_roles)
      with 2(1) g'(2-4) b0 su show ?thesis by (auto simp: reach_iff)
    next
      case 3
      with g'(4) su b0 show ?thesis by (auto simp: reach_iff intro: order_trans)
    qed
  qed
qed

text \<open>The four together: whatever a user can do after a bounded change, the user or the administrator could before.\<close>

lemma entitled_bounded:
  assumes b: "bounded (resolve (x_rbac db) now actor) db db'" and t: "now \<le> now'"
    and su: "\<not> u_is_superuser v" "\<not> u_is_superuser actor"
    and l: "limit_tables (x_rbac db)" "limit_tables (x_rbac db')"
    and old: "concerns db cap" and ok: "entitled db' now' v cap"
  shows "entitled db now v cap \<or> entitled db now actor cap"
proof (cases cap)
  case (CanDo code)
  with b ok su t show ?thesis by (auto simp: bounded_def dest: do_bounded)
next
  case (CanUse key x)
  with b ok su t l show ?thesis unfolding bounded_def by (auto dest: use_bounded)
next
  case (CanOutrank p)
  with b ok t show ?thesis unfolding bounded_def by (auto dest: rank_kept)
next
  case (CanReach kid level)
  with old have "kid \<in> kb_id ` set (k_bases (x_kb db))" by (simp add: concerns_def)
  with CanReach b ok t su show ?thesis unfolding bounded_def using reach_kept[of _ db db' now now' v kid level] by auto
qed

text \<open>A change is bounded when each table changes within the administrator's capabilities.\<close>

definition permission_ok :: "access_context \<Rightarrow> rbac_db \<Rightarrow> role_permission \<Rightarrow> bool" where
  "permission_ok ctx b rp \<longleftrightarrow> (\<forall>p \<in> set (db_permissions b). pe_id p = rp_permission_id rp \<longrightarrow> allows ctx (pe_code p))"

definition limit_ok :: "access_context \<Rightarrow> rbac_db \<Rightarrow> role_limit \<Rightarrow> bool" where
  "limit_ok ctx b rl \<longleftrightarrow> (\<forall>d \<in> set (db_limit_definitions b). ld_id d = rl_limit_definition_id rl \<longrightarrow>
     \<not> over_limit (rl_value rl) (own_limit ctx (ld_key d)))"

definition role_ok :: "access_context \<Rightarrow> keys_db \<Rightarrow> uuid \<Rightarrow> bool" where
  "role_ok ctx db rid \<longleftrightarrow>
     (\<forall>rp \<in> set (db_role_permissions (x_rbac db)). rp_role_id rp = rid \<longrightarrow> permission_ok ctx (x_rbac db) rp) \<and>
     (\<forall>rl \<in> set (db_role_limits (x_rbac db)). rl_role_id rl = rid \<longrightarrow> limit_ok ctx (x_rbac db) rl) \<and>
     (\<forall>r \<in> set (db_roles (x_rbac db)). ro_id r = rid \<longrightarrow> ro_priority r < ac_max_role_priority ctx) \<and>
     (\<forall>g \<in> set (k_grants (x_kb db)). kg_role_id g = rid \<longrightarrow>
        is_ok (require_knowledge_base_access (x_kb db) ctx (kg_knowledge_base_id g) (kg_access_level g)))"

lemma boundedI:
  assumes "db_permissions (x_rbac db') = db_permissions (x_rbac db)"
    "db_limit_definitions (x_rbac db') = db_limit_definitions (x_rbac db)"
    "db_user_limit_overrides (x_rbac db') = db_user_limit_overrides (x_rbac db)"
    and gr: "\<And>g. g \<in> set (k_grants (x_kb db')) \<Longrightarrow> g \<in> set (k_grants (x_kb db)) \<or>
       is_ok (require_knowledge_base_access (x_kb db) ctx (kg_knowledge_base_id g) MANAGER)"
    and ur: "\<And>ur. ur \<in> set (db_user_roles (x_rbac db')) \<Longrightarrow>
       ur \<in> set (db_user_roles (x_rbac db)) \<and> ur_role_id ur \<in> ro_id ` set (db_roles (x_rbac db)) \<or> role_ok ctx db (ur_role_id ur)"
    and rp: "\<And>rp. rp \<in> set (db_role_permissions (x_rbac db')) \<Longrightarrow>
       rp \<in> set (db_role_permissions (x_rbac db)) \<or> permission_ok ctx (x_rbac db) rp"
    and rl: "\<And>rl. rl \<in> set (db_role_limits (x_rbac db')) \<Longrightarrow> rl \<in> set (db_role_limits (x_rbac db)) \<or> limit_ok ctx (x_rbac db) rl"
    and ro: "\<And>r. r \<in> set (db_roles (x_rbac db')) \<Longrightarrow>
       (\<exists>r0 \<in> set (db_roles (x_rbac db)). ro_id r0 = ro_id r \<and> ro_priority r0 = ro_priority r) \<or> ro_priority r < ac_max_role_priority ctx"
    and kb: "\<And>kid b'. kid \<in> kb_id ` set (k_bases (x_kb db)) \<Longrightarrow> find (\<lambda>b. kb_id b = kid) (k_bases (x_kb db')) = Some b' \<Longrightarrow>
       \<exists>b. find (\<lambda>b. kb_id b = kid) (k_bases (x_kb db)) = Some b \<and>
         (kb_owner_id b' = kb_owner_id b \<or> is_ok (require_knowledge_base_access (x_kb db) ctx kid MANAGER))"
  shows "bounded ctx db db'"
  unfolding bounded_def
proof (intro conjI)
  show "perm_bounded ctx (x_rbac db) (x_rbac db')"
    unfolding perm_bounded_def using assms(1) ur rp unfolding role_ok_def permission_ok_def by metis
  show "limit_bounded ctx (x_rbac db) (x_rbac db')"
    unfolding limit_bounded_def using assms(2,3) ur rl unfolding role_ok_def limit_ok_def by metis
  show "rank_bounded ctx (x_rbac db) (x_rbac db')"
    unfolding rank_bounded_def using ur ro unfolding role_ok_def by metis
  show "reach_bounded ctx db db'"
    unfolding reach_bounded_def using gr ur kb unfolding role_ok_def by blast
qed

text \<open>A capability depends on the user's id and superuser flag only, and never grows with time alone.\<close>

lemma resolve_same_id:
  assumes "u_id u = u_id w" "u_is_superuser u = u_is_superuser w"
  shows "resolve b now u = (resolve b now w)\<lparr>ac_user := u\<rparr>"
  using assms by (simp add: resolve_def Let_def)

lemma entitled_same_id:
  assumes "u_id u = u_id w" "u_is_superuser u = u_is_superuser w"
  shows "entitled db now u cap = entitled db now w cap"
  using assms
  by (cases cap) (simp_all add: resolve_same_id[OF assms] allows_def own_limit_def require_knowledge_base_access_def granted_levels_def
      split: option.split)

lemma entitled_concerns: "entitled db now u cap \<Longrightarrow> concerns db cap"
  by (cases cap) (auto simp: concerns_def is_ok_iff dest!: require_found find_Some_in_set)

lemma entitled_earlier:
  assumes "limit_tables (x_rbac db)" "\<forall>ur \<in> set (db_user_roles (x_rbac db)). ur_role_id ur \<in> ro_id ` set (db_roles (x_rbac db))"
    "\<not> u_is_superuser u" "now \<le> now'" "entitled db now' u cap"
  shows "entitled db now u cap"
proof -
  have "bounded (resolve (x_rbac db) now u) db db" using assms(2) by (intro boundedI) auto
  from entitled_bounded[OF this assms(4,3,3,1,1) entitled_concerns[OF assms(5)] assms(5)] show ?thesis by simp
qed

section \<open>What the service lets a user do\<close>

text \<open>
  The service reads a limit where it enforces it, with the settings of the deployment: the files per user and the size of one
  upload are capped by the platform, a missing \<open>file_count\<close> is the platform's maximum, a missing \<open>requests_per_minute\<close> the
  service default, and any other missing limit is zero.
\<close>

record service_limits =
  platform_max_files_per_user :: int
  platform_max_upload_bytes :: int
  default_requests_per_minute :: int

definition capped :: "limit_value \<Rightarrow> int \<Rightarrow> limit_value" where
  "capped role_limit platform_limit = (case role_limit of None \<Rightarrow> Some platform_limit | Some n \<Rightarrow> Some (min n platform_limit))"

definition enforced_limit :: "service_limits \<Rightarrow> access_context \<Rightarrow> string \<Rightarrow> limit_value" where
  "enforced_limit sl access key =
     (if key = ''file_count''
      then capped (case ac_limits access key of None \<Rightarrow> None | Some v \<Rightarrow> v) (platform_max_files_per_user sl)
      else if key = ''requests_per_minute''
      then (case ac_limits access key of None \<Rightarrow> Some (default_requests_per_minute sl) | Some v \<Rightarrow> v)
      else if key = ''max_upload_bytes'' then capped (own_limit access key) (platform_max_upload_bytes sl)
      else own_limit access key)"

definition missing_limit :: "service_limits \<Rightarrow> string \<Rightarrow> int" where
  "missing_limit sl key =
     (if key = ''file_count'' then platform_max_files_per_user sl
      else if key = ''requests_per_minute'' then default_requests_per_minute sl else 0)"

definition capable :: "service_limits \<Rightarrow> keys_db \<Rightarrow> timestamp \<Rightarrow> user \<Rightarrow> capability \<Rightarrow> bool" where
  "capable sl db now u cap =
     (case cap of
        CanUse key v \<Rightarrow> \<not> over_limit v (enforced_limit sl (resolve (x_rbac db) now u) key) \<or> \<not> over_limit v (Some 0)
      | _ \<Rightarrow> entitled db now u cap)"

text \<open>A user whose limit is not set and falls back to a default above zero.\<close>

definition unlimited_by_default :: "service_limits \<Rightarrow> keys_db \<Rightarrow> timestamp \<Rightarrow> user \<Rightarrow> capability \<Rightarrow> bool" where
  "unlimited_by_default sl db now u cap =
     (case cap of
        CanUse key v \<Rightarrow> key \<in> {''file_count'', ''requests_per_minute''} \<and> ac_limits (resolve (x_rbac db) now u) key = None \<and>
          \<not> over_limit v (Some (missing_limit sl key))
      | _ \<Rightarrow> False)"

lemma over_capped [simp]: "over_limit v (capped w m) \<longleftrightarrow> over_limit v w \<or> over_limit v (Some m)"
  by (cases v; cases w) (auto simp: capped_def)

lemma capable_entitled:
  assumes "capable sl db now u cap" "\<not> unlimited_by_default sl db now u cap"
  shows "entitled db now u cap"
proof (cases cap)
  case (CanUse key v)
  with assms show ?thesis
    by (cases "ac_limits (resolve (x_rbac db) now u) key")
      (auto simp: capable_def unlimited_by_default_def enforced_limit_def missing_limit_def own_limit_def split: if_split_asm)
qed (use assms in \<open>simp_all add: capable_def\<close>)

text \<open>The platform's caps are the same before and after.\<close>

lemma entitled_capable:
  assumes "entitled db now u cap" "capable sl db' now' v cap" "\<not> unlimited_by_default sl db' now' v cap"
  shows "capable sl db now u cap"
proof (cases cap)
  case (CanUse key x)
  show ?thesis
  proof (cases "ac_limits (resolve (x_rbac db) now u) key")
    case None
    with CanUse assms(1) show ?thesis by (simp add: capable_def own_limit_def)
  next
    case (Some w)
    with CanUse assms show ?thesis
      by (cases "ac_limits (resolve (x_rbac db') now' v) key")
        (auto simp: capable_def unlimited_by_default_def enforced_limit_def missing_limit_def own_limit_def split: if_split_asm)
  qed
qed (use assms in \<open>simp_all add: capable_def\<close>)

end
