(* ===== verification/Kb_Admin.thy ===== *)
theory Kb_Admin
  imports Users Okf_Conversion
begin

text \<open>
  Administration of knowledge bases and their entries (\<open>src/app/api/v1/routes/knowledge_bases.py\<close>). The caller's
  \<open>access\<close> is what the permission dependency of the route returned. A column whose new value equals the stored one is
  not written, and an \<open>UPDATE\<close> that would write no column is not sent: then neither \<open>updated_at\<close> nor the trigger on
  \<open>knowledge_entries\<close> moves. The routes on knowledge bases run on the tables of \<open>keys_db\<close>, those on entries also on
  files and quota.
\<close>

section \<open>Checks\<close>

definition ensure_metadata_size :: "json \<Rightarrow> api_error + unit" where
  "ensure_metadata_size v = ensure (length (dumps_spaced v) \<le> 16384) (ApiError 422 ''metadata_too_large'')"

record entry_settings =
  es_platform_max_entries_per_knowledge_base :: int
  es_platform_max_entry_bytes_per_knowledge_base :: int

text \<open>\<open>octet_length\<close> of a stored text, which holds no surrogates.\<close>

definition octet_length :: "unicode \<Rightarrow> int" where
  "octet_length t = sum_list (map utf8_char_size t)"

definition entries_of :: "kb_db \<Rightarrow> uuid \<Rightarrow> knowledge_entry list" where
  "entries_of kb kid = filter (\<lambda>e. ke_knowledge_base_id e = kid \<and> ke_deleted_at e = None) (k_entries kb)"

definition knowledge_entry_usage :: "kb_db \<Rightarrow> uuid \<Rightarrow> int \<times> int" where
  "knowledge_entry_usage kb kid =
     (int (length (entries_of kb kid)), sum_list (map (\<lambda>e. octet_length (ke_content e)) (entries_of kb kid)))"

definition enforce_knowledge_entry_capacity ::
    "int \<Rightarrow> int \<Rightarrow> int \<Rightarrow> int \<Rightarrow> entry_settings \<Rightarrow> api_error + unit" where
  "enforce_knowledge_entry_capacity current_count current_bytes incoming_count incoming_bytes st =
     (if current_count + incoming_count > es_platform_max_entries_per_knowledge_base st
      then Inl (ApiError 507 ''knowledge_entry_count_limit_reached'')
      else if current_bytes + incoming_bytes > es_platform_max_entry_bytes_per_knowledge_base st
      then Inl (ApiError 507 ''knowledge_entry_bytes_limit_reached'') else Inr ())"

text \<open>Equality of JSON values as Python compares them: the order of keys does not count, \<open>True\<close> equals 1.\<close>

fun py_eq :: "json \<Rightarrow> json \<Rightarrow> bool"
  and py_eq_items :: "json list \<Rightarrow> json list \<Rightarrow> bool"
  and py_eq_fields :: "(string \<times> json) list \<Rightarrow> (string \<times> json) list \<Rightarrow> bool" where
  "py_eq JNull w \<longleftrightarrow> w = JNull"
| "py_eq (JBool b) w \<longleftrightarrow> w = JBool b \<or> w = JInt (of_bool b)"
| "py_eq (JInt i) w \<longleftrightarrow> w = JInt i \<or> (\<exists>b \<in> {True, False}. w = JBool b \<and> i = of_bool b)"
| "py_eq (JStr s) w \<longleftrightarrow> w = JStr s"
| "py_eq (JList xs) w \<longleftrightarrow> (case w of JList ys \<Rightarrow> py_eq_items xs ys | _ \<Rightarrow> False)"
| "py_eq (JObj a) w \<longleftrightarrow> (case w of JObj b \<Rightarrow> length a = length b \<and> py_eq_fields a b | _ \<Rightarrow> False)"
| "py_eq_items [] ys \<longleftrightarrow> ys = []"
| "py_eq_items (x # xs) ys \<longleftrightarrow> (case ys of [] \<Rightarrow> False | y # zs \<Rightarrow> py_eq x y \<and> py_eq_items xs zs)"
| "py_eq_fields [] b \<longleftrightarrow> True"
| "py_eq_fields ((k, v) # a) b \<longleftrightarrow> (case map_of b k of None \<Rightarrow> False | Some w \<Rightarrow> py_eq v w) \<and> py_eq_fields a b"

text \<open>A column after the assignment of a sent value.\<close>

definition set_column :: "'a option \<Rightarrow> 'a \<Rightarrow> 'a" where
  "set_column sent old = (case sent of None \<Rightarrow> old | Some v \<Rightarrow> v)"

definition set_metadata :: "json option \<Rightarrow> json \<Rightarrow> json" where
  "set_metadata sent old = (case sent of None \<Rightarrow> old | Some v \<Rightarrow> if py_eq old v then old else v)"

definition sent_field :: "string \<Rightarrow> 'a option \<Rightarrow> string list" where
  "sent_field name v = (if v = None then [] else [name])"

definition json_fields :: "string list \<Rightarrow> json" where
  "json_fields fs = JList (map JStr (sort fs))"

section \<open>Knowledge bases\<close>

record kb_create =
  bc_name :: string
  bc_description :: "string option"
  bc_external_llm_processing_enabled :: bool
  bc_custom_metadata :: json

definition on_kb :: "(kb_db \<Rightarrow> kb_db) \<Rightarrow> keys_db \<Rightarrow> keys_db" where
  "on_kb f db = db\<lparr>x_kb := f (x_kb db)\<rparr>"

definition audit_kb ::
    "crypto_ops \<Rightarrow> timestamp \<Rightarrow> string \<Rightarrow> access_context \<Rightarrow> uuid \<Rightarrow> string option \<Rightarrow> (string \<times> json) list \<Rightarrow> keys_db \<Rightarrow> keys_db" where
  "audit_kb co now action access kid request_id details db =
     audit_row now action SUCCESS ''knowledge_base'' (u_id (ac_user access)) (co_str_uuid co kid) request_id (JObj details) db"

definition list_knowledge_bases ::
    "kb_db \<Rightarrow> access_context \<Rightarrow> nat \<Rightarrow> nat \<Rightarrow> string option \<Rightarrow> kb_access_level option \<Rightarrow> kb_access list" where
  "list_knowledge_bases db access limit offset q minimum = list_accessible_knowledge_bases db access limit offset q minimum"

definition create_knowledge_base ::
    "crypto_ops \<Rightarrow> timestamp \<Rightarrow> uuid \<Rightarrow> string option \<Rightarrow> access_context \<Rightarrow> kb_create \<Rightarrow> keys_db \<Rightarrow> kb_access keys_outcome" where
  "create_knowledge_base co now kid request_id access payload db =
     or_rollback db
      (bind_r (ensure_metadata_size (bc_custom_metadata payload)) (\<lambda>_.
       if \<exists>kb \<in> set (k_bases (x_kb db)). kb_id kb = kid then Inl unhandled
       else (let kb = \<lparr>kb_id = kid, kb_owner_id = u_id (ac_user access), kb_name = py_strip (bc_name payload),
                    kb_description = bc_description payload,
                    kb_external_llm_processing_enabled = bc_external_llm_processing_enabled payload,
                    kb_custom_metadata = bc_custom_metadata payload, kb_role_grant_version = 1, kb_content_version = 1,
                    kb_updated_at = now\<rparr>
             in Inr (\<lparr>ka_knowledge_base = kb, ka_level = MANAGER\<rparr>,
                  audit_kb co now ''knowledge_base.created'' access kid request_id []
                    (on_kb (\<lambda>k. k\<lparr>k_bases := k_bases k @ [kb]\<rparr>) db)))))"

definition get_knowledge_base :: "kb_db \<Rightarrow> access_context \<Rightarrow> uuid \<Rightarrow> api_error + kb_access" where
  "get_knowledge_base db access kid = require_knowledge_base_access db access kid READER"

record kb_update =
  bx_name :: "string option"
  bx_description :: "string option option"
  bx_external_llm_processing_enabled :: "bool option"
  bx_custom_metadata :: "json option"

definition kb_sent_fields :: "kb_update \<Rightarrow> string list" where
  "kb_sent_fields p = sent_field ''name'' (bx_name p) @ sent_field ''description'' (bx_description p) @
     sent_field ''external_llm_processing_enabled'' (bx_external_llm_processing_enabled p) @
     sent_field ''custom_metadata'' (bx_custom_metadata p)"

definition patched_kb :: "timestamp \<Rightarrow> kb_update \<Rightarrow> knowledge_base \<Rightarrow> knowledge_base" where
  "patched_kb now p kb =
     (let consent = set_column (bx_external_llm_processing_enabled p) (kb_external_llm_processing_enabled kb);
          row = kb\<lparr>kb_content_version := kb_content_version kb + of_bool (consent \<noteq> kb_external_llm_processing_enabled kb),
                  kb_name := set_column (map_option py_strip (bx_name p)) (kb_name kb),
                  kb_description := set_column (bx_description p) (kb_description kb),
                  kb_external_llm_processing_enabled := consent,
                  kb_custom_metadata := set_metadata (bx_custom_metadata p) (kb_custom_metadata kb)\<rparr>
      in if row = kb then kb else row\<lparr>kb_updated_at := now\<rparr>)"

definition write_kb :: "uuid \<Rightarrow> (knowledge_base \<Rightarrow> knowledge_base) \<Rightarrow> kb_db \<Rightarrow> kb_db" where
  "write_kb kid f k = k\<lparr>k_bases := update_where (\<lambda>kb. kb_id kb = kid) f (k_bases k)\<rparr>"

definition update_knowledge_base ::
    "crypto_ops \<Rightarrow> timestamp \<Rightarrow> string option \<Rightarrow> access_context \<Rightarrow> uuid \<Rightarrow> kb_update \<Rightarrow> keys_db \<Rightarrow> kb_access keys_outcome" where
  "update_knowledge_base co now request_id access kid payload db =
     committed
      (bind_r (refuse db (require_knowledge_base_access (x_kb db) access kid MANAGER)) (\<lambda>item.
       bind_r (refuse db (case bx_custom_metadata payload of None \<Rightarrow> Inr () | Some v \<Rightarrow> ensure_metadata_size v)) (\<lambda>_.
       let kb = ka_knowledge_base item; row = patched_kb now payload kb in
       bind_r (if bx_external_llm_processing_enabled payload = Some False \<and> kb_external_llm_processing_enabled kb
               then guard_egress co now request_id access (kb_revocation co ''knowledge_base_external_processing'' kid) db
               else Inr ()) (\<lambda>_.
       Inr (item\<lparr>ka_knowledge_base := row\<rparr>,
            audit_kb co now ''knowledge_base.updated'' access kid request_id
              [(''fields'', json_fields (kb_sent_fields payload))]
              (on_kb (write_kb kid (\<lambda>_. row)) db))))))"

section \<open>Role grants\<close>

definition role_grants :: "kb_db \<Rightarrow> uuid \<Rightarrow> kb_role_grant list" where
  "role_grants kb kid = sort_key kg_role_id (filter (\<lambda>g. kg_knowledge_base_id g = kid) (k_grants kb))"

definition list_role_grants :: "kb_db \<Rightarrow> access_context \<Rightarrow> uuid \<Rightarrow> api_error + kb_role_grant list" where
  "list_role_grants kb access kid =
     bind_r (require_knowledge_base_access kb access kid MANAGER) (\<lambda>_. Inr (role_grants kb kid))"

text \<open>\<open>KnowledgeBaseRoleGrantSet\<close>: validation refuses two grants for one role.\<close>

record role_grant_set =
  rg_expected_version :: int
  rg_grants :: "(uuid \<times> kb_access_level) list"

definition unique_roles :: "role_grant_set \<Rightarrow> bool" where
  "unique_roles p \<longleftrightarrow> rg_expected_version p \<ge> 1 \<and> length (rg_grants p) \<le> 200 \<and> distinct (map fst (rg_grants p))"

definition grant_policy :: "kb_db \<Rightarrow> uuid \<Rightarrow> (uuid \<times> kb_access_level) set" where
  "grant_policy kb kid = (\<lambda>g. (kg_role_id g, kg_access_level g)) ` {g \<in> set (k_grants kb). kg_knowledge_base_id g = kid}"

definition put_grants :: "uuid \<Rightarrow> uuid \<Rightarrow> (uuid \<times> kb_access_level) list \<Rightarrow> kb_db \<Rightarrow> kb_db" where
  "put_grants kid actor grants k =
     k\<lparr>k_grants := filter (\<lambda>g. kg_knowledge_base_id g \<noteq> kid) (k_grants k) @
        map (\<lambda>(rid, level). \<lparr>kg_knowledge_base_id = kid, kg_role_id = rid, kg_access_level = level,
                             kg_granted_by = Some actor\<rparr>) grants\<rparr>"

definition bump_grants :: "timestamp \<Rightarrow> knowledge_base \<Rightarrow> knowledge_base" where
  "bump_grants now kb = kb\<lparr>kb_role_grant_version := kb_role_grant_version kb + 1, kb_updated_at := now\<rparr>"

definition replace_role_grants ::
    "crypto_ops \<Rightarrow> timestamp \<Rightarrow> string option \<Rightarrow> access_context \<Rightarrow> uuid \<Rightarrow> role_grant_set \<Rightarrow> keys_db \<Rightarrow>
     kb_role_grant list keys_outcome" where
  "replace_role_grants co now request_id access0 kid payload db =
     committed
      (bind_r (refuse db (require_knowledge_base_access (x_kb db) access0 kid MANAGER)) (\<lambda>_.
       bind_r (refuse db (locked_actor [''knowledge:grant''] db now access0)) (\<lambda>access.
       bind_r (refuse db (ensure (fst ` set (rg_grants payload) \<subseteq> ro_id ` set (db_roles (x_rbac db)))
                 (ApiError 422 ''unknown_role''))) (\<lambda>_.
       bind_r (refuse db (require_knowledge_base_access (x_kb db) access kid MANAGER)) (\<lambda>item.
       let kb = ka_knowledge_base item in
       if rg_expected_version payload \<noteq> kb_role_grant_version kb
       then Inl (ApiError 409 ''stale_knowledge_grants'', db)
       else if grant_policy (x_kb db) kid = set (rg_grants payload) then Inr (role_grants (x_kb db) kid, db)
       else bind_r (guard_egress co now request_id access (kb_revocation co ''knowledge_base_role_grants'' kid) db) (\<lambda>_.
         let db1 = on_kb (write_kb kid (bump_grants now) \<circ> put_grants kid (u_id (ac_user access)) (rg_grants payload)) db
         in Inr (role_grants (x_kb db1) kid,
              audit_kb co now ''knowledge_base.role_grants_replaced'' access kid request_id
                [(''from_version'', JInt (kb_role_grant_version kb)), (''to_version'', JInt (kb_role_grant_version kb + 1)),
                 (''role_ids'', JList (map (JStr \<circ> co_str_uuid co) (sort (map fst (rg_grants payload)))))] db1)))))))"

section \<open>Entries\<close>

definition knowledge_entry_not_found :: api_error where
  "knowledge_entry_not_found = ApiError 404 ''knowledge_entry_not_found''"

definition entry_visible :: "kb_access \<Rightarrow> knowledge_entry \<Rightarrow> bool" where
  "entry_visible item e \<longleftrightarrow> ka_level item = MANAGER \<or> ke_publication_status e = PUBLISHED"

text \<open>The listing returns the rows without their contents.\<close>

definition list_entries :: "kb_db \<Rightarrow> access_context \<Rightarrow> uuid \<Rightarrow> nat \<Rightarrow> nat \<Rightarrow> api_error + knowledge_entry list" where
  "list_entries kb access kid limit offset =
     bind_r (require_knowledge_base_access kb access kid READER) (\<lambda>item.
     Inr (take limit (drop offset (sort_key (\<lambda>e. - ke_updated_at e) (sort_key ke_id
       (filter (entry_visible item) (entries_of kb kid)))))))"

definition get_entry :: "kb_db \<Rightarrow> access_context \<Rightarrow> uuid \<Rightarrow> uuid \<Rightarrow> api_error + knowledge_entry" where
  "get_entry kb access kid eid =
     bind_r (require_knowledge_base_access kb access kid READER) (\<lambda>item.
     some_or knowledge_entry_not_found (find (\<lambda>e. ke_id e = eid) (filter (entry_visible item) (entries_of kb kid))))"

record entry_create =
  ec_source_file_id :: "uuid option"
  ec_entry_type :: string
  ec_title :: unicode
  ec_content :: unicode
  ec_source_path :: "string option"
  ec_format_version :: "string option"
  ec_custom_metadata :: json

definition encoded_size :: "unicode \<Rightarrow> api_error + int" where
  "encoded_size t = some_or unhandled (utf8_size t)"

definition charge_entry ::
    "access_context \<Rightarrow> unicode option \<Rightarrow> unicode \<Rightarrow> quota_db \<Rightarrow> api_error + int \<times> quota_db" where
  "charge_entry access previous content q =
     map_error quota_api_error
       (consume_manual_entry_storage_quota (u_id (ac_user access)) (own_limit access ''storage_bytes'') previous content q)"

definition check_capacity :: "entry_settings \<Rightarrow> kb_db \<Rightarrow> uuid \<Rightarrow> int \<Rightarrow> int \<Rightarrow> int \<Rightarrow> api_error + unit" where
  "check_capacity st kb kid previous_bytes incoming_count incoming_bytes =
     (let (count, bytes) = knowledge_entry_usage kb kid
      in enforce_knowledge_entry_capacity count (max (bytes - previous_bytes) 0) incoming_count incoming_bytes st)"

definition source_file_ok :: "pipe_db \<Rightarrow> uuid \<Rightarrow> uuid option \<Rightarrow> bool" where
  "source_file_ok db kid fid = (case fid of None \<Rightarrow> True
     | Some i \<Rightarrow> \<exists>f \<in> set (v_files db). f_id f = i \<and> f_knowledge_base_id f = Some kid \<and> f_deleted_at f = None)"

definition new_entry :: "timestamp \<Rightarrow> uuid \<Rightarrow> uuid \<Rightarrow> entry_create \<Rightarrow> knowledge_entry" where
  "new_entry now eid kid p =
     \<lparr>ke_id = eid, ke_knowledge_base_id = kid, ke_source_file_id = ec_source_file_id p,
      ke_entry_type = py_strip (ec_entry_type p), ke_title = strip_with uni_isspace (ec_title p),
      ke_content = ec_content p, ke_source_path = ec_source_path p, ke_format_version = ec_format_version p,
      ke_publication_status = PUBLISHED, ke_custom_metadata = ec_custom_metadata p, ke_deleted_at = None,
      ke_updated_at = now\<rparr>"

definition audit_entry ::
    "crypto_ops \<Rightarrow> timestamp \<Rightarrow> string \<Rightarrow> access_context \<Rightarrow> uuid \<Rightarrow> string option \<Rightarrow> (string \<times> json) list \<Rightarrow> pipe_db \<Rightarrow> pipe_db" where
  "audit_entry co now action access eid request_id details db =
     audit_pipe now action SUCCESS ''knowledge_entry'' (Some (u_id (ac_user access))) (co_str_uuid co eid) request_id None
       (JObj details) db"

definition create_entry ::
    "crypto_ops \<Rightarrow> entry_settings \<Rightarrow> timestamp \<Rightarrow> uuid \<Rightarrow> string option \<Rightarrow> access_context \<Rightarrow> uuid \<Rightarrow> entry_create \<Rightarrow> pipe_db \<Rightarrow>
     api_error + knowledge_entry \<times> pipe_db" where
  "create_entry co st now eid request_id access kid payload db =
     bind_r (require_knowledge_base_access (v_kb db) access kid EDITOR) (\<lambda>_.
     bind_r (ensure_metadata_size (ec_custom_metadata payload)) (\<lambda>_.
     bind_r (encoded_size (ec_content payload)) (\<lambda>incoming.
     bind_r (check_capacity st (v_kb db) kid 0 1 incoming) (\<lambda>_.
     bind_r (ensure (source_file_ok db kid (ec_source_file_id payload)) (ApiError 422 ''invalid_source_file'')) (\<lambda>_.
     bind_r (charge_entry access None (ec_content payload) (v_quota db)) (\<lambda>(charged, q).
     bind_r (map_error (\<lambda>_. unhandled) (insert_entry (new_entry now eid kid payload) (db\<lparr>v_quota := q\<rparr>))) (\<lambda>db1.
     Inr (new_entry now eid kid payload,
          audit_entry co now ''knowledge_entry.created'' access eid request_id
            [(''knowledge_base_id'', JStr (co_str_uuid co kid)), (''storage_bytes_charged'', JInt charged)] db1))))))))"

record entry_update =
  ex_entry_type :: "string option"
  ex_title :: "unicode option"
  ex_content :: "unicode option"
  ex_source_path :: "string option option"
  ex_format_version :: "string option option"
  ex_custom_metadata :: "json option"

definition entry_sent_fields :: "entry_update \<Rightarrow> string list" where
  "entry_sent_fields p = sent_field ''entry_type'' (ex_entry_type p) @ sent_field ''title'' (ex_title p) @
     sent_field ''content'' (ex_content p) @ sent_field ''source_path'' (ex_source_path p) @
     sent_field ''format_version'' (ex_format_version p) @ sent_field ''custom_metadata'' (ex_custom_metadata p)"

definition patched_entry :: "timestamp \<Rightarrow> entry_update \<Rightarrow> knowledge_entry \<Rightarrow> knowledge_entry" where
  "patched_entry now p e =
     (let row = e\<lparr>ke_entry_type := set_column (ex_entry_type p) (ke_entry_type e),
                  ke_title := set_column (ex_title p) (ke_title e),
                  ke_content := set_column (ex_content p) (ke_content e),
                  ke_source_path := set_column (ex_source_path p) (ke_source_path e),
                  ke_format_version := set_column (ex_format_version p) (ke_format_version e),
                  ke_custom_metadata := set_metadata (ex_custom_metadata p) (ke_custom_metadata e)\<rparr>
      in if row = e then e else row\<lparr>ke_updated_at := now\<rparr>)"

text \<open>The \<open>UPDATE\<close> of one entry with its trigger, which counts rows published before or after.\<close>

definition store_entry :: "knowledge_entry \<Rightarrow> knowledge_entry \<Rightarrow> pipe_db \<Rightarrow> pipe_db" where
  "store_entry old new db =
     (if new = old then db
      else (let db1 = write_entry (ke_id old) (\<lambda>_. new) db
            in if \<exists>e \<in> {old, new}. ke_publication_status e = PUBLISHED \<and> ke_deleted_at e = None
               then bump_content_version (ke_knowledge_base_id old) db1 else db1))"

definition update_charge ::
    "entry_settings \<Rightarrow> access_context \<Rightarrow> uuid \<Rightarrow> knowledge_entry \<Rightarrow> unicode option \<Rightarrow> pipe_db \<Rightarrow> api_error + int \<times> quota_db" where
  "update_charge st access kid e content db =
     (case content of
        None \<Rightarrow> Inr (0, v_quota db)
      | Some t \<Rightarrow>
          bind_r (encoded_size (ke_content e)) (\<lambda>previous_bytes.
          bind_r (encoded_size t) (\<lambda>next_bytes.
          bind_r (check_capacity st (v_kb db) kid previous_bytes 0 next_bytes) (\<lambda>_.
          charge_entry access (Some (ke_content e)) t (v_quota db)))))"

definition update_entry ::
    "crypto_ops \<Rightarrow> entry_settings \<Rightarrow> timestamp \<Rightarrow> string option \<Rightarrow> access_context \<Rightarrow> uuid \<Rightarrow> uuid \<Rightarrow> entry_update \<Rightarrow> pipe_db \<Rightarrow>
     api_error + knowledge_entry \<times> pipe_db" where
  "update_entry co st now request_id access kid eid payload db =
     bind_r (require_knowledge_base_access (v_kb db) access kid EDITOR) (\<lambda>_.
     bind_r (some_or knowledge_entry_not_found (find (\<lambda>e. ke_id e = eid) (entries_of (v_kb db) kid))) (\<lambda>e.
     bind_r (case ex_custom_metadata payload of None \<Rightarrow> Inr () | Some v \<Rightarrow> ensure_metadata_size v) (\<lambda>_.
     bind_r (update_charge st access kid e (ex_content payload) db) (\<lambda>(charged, q).
     let new = patched_entry now payload e in
     Inr (new, audit_entry co now ''knowledge_entry.updated'' access eid request_id
            [(''fields'', json_fields (entry_sent_fields payload)), (''storage_bytes_charged'', JInt charged)]
            (store_entry e new (db\<lparr>v_quota := q\<rparr>)))))))"

definition search_entries ::
    "text_ops \<Rightarrow> kb_db \<Rightarrow> access_context \<Rightarrow> uuid \<Rightarrow> unicode \<Rightarrow> nat \<Rightarrow> api_error + search_hit list" where
  "search_entries ops kb access kid q limit =
     bind_r (require_knowledge_base_access kb access kid READER) (\<lambda>_. Inr (search_knowledge_entries ops kb kid q limit))"

end
