(* ===== verification/Admin_Safety.thy ===== *)
theory Admin_Safety
  imports Capabilities Kb_Admin
begin

text \<open>
  The administration routes of \<open>roles.py\<close> and \<open>users.py\<close> and the grants of \<open>knowledge_bases.py\<close> as one system. \<open>admin_effect\<close> is the abstract
  specification of what a route may do to the tables and under which guard; every route refines it
  (\<open>admin_step_effect\<close>). The invariants and properties are proved of the effects: delegation creates no capability,
  the last superuser survives, retirement is final, a new password ends every session, and a role's version
  changes with its policy.
\<close>

section \<open>Effects\<close>

definition same_core :: "keys_db \<Rightarrow> keys_db \<Rightarrow> bool" where
  "same_core db db' \<longleftrightarrow> x_rbac db' = x_rbac db \<and> x_kb db' = x_kb db \<and> x_keys db' = x_keys db \<and>
     a_tokens (x_auth db') = a_tokens (x_auth db)"

text \<open>Only the access tables change, by \<open>f\<close>.\<close>

definition only_rbac :: "(rbac_db \<Rightarrow> rbac_db) \<Rightarrow> keys_db \<Rightarrow> keys_db \<Rightarrow> bool" where
  "only_rbac f db db' \<longleftrightarrow> x_rbac db' = f (x_rbac db) \<and> x_kb db' = x_kb db \<and> x_keys db' = x_keys db \<and>
     a_tokens (x_auth db') = a_tokens (x_auth db)"

abbreviation store_user :: "user \<Rightarrow> rbac_db \<Rightarrow> rbac_db" where
  "store_user u b \<equiv> b\<lparr>db_users := update_where (\<lambda>x. u_id x = u_id u) (\<lambda>_. u) (db_users b)\<rparr>"

abbreviation may_rank :: "access_context \<Rightarrow> int \<Rightarrow> bool" where
  "may_rank access p \<equiv> u_is_superuser (ac_user access) \<or> p < ac_max_role_priority access"

definition may_assign :: "access_context \<Rightarrow> keys_db \<Rightarrow> uuid list \<Rightarrow> bool" where
  "may_assign access db rids \<longleftrightarrow> (\<exists>roles. requested_roles (x_rbac db) rids = Inr roles \<and>
     ensure_roles_assignable (x_rbac db) (x_kb db) access roles = Inr ())"

inductive admin_effect :: "access_context \<Rightarrow> timestamp \<Rightarrow> keys_db \<Rightarrow> keys_db \<Rightarrow> bool"
  for access :: access_context and now :: timestamp and db :: keys_db and db' :: keys_db where
  idle: "same_core db db' \<Longrightarrow> admin_effect access now db db'"
| role_created:
    "may_rank access (ro_priority r) \<Longrightarrow> \<not> ro_is_system r \<Longrightarrow> ro_policy_version r = 1 \<Longrightarrow>
     ensure_policy_grantable access codes limits = Inr () \<Longrightarrow>
     resolve_permissions (x_rbac db) codes = Inr ps \<Longrightarrow> resolve_limits (x_rbac db) limits = Inr ls \<Longrightarrow>
     ro_id r \<notin> ro_id ` set (db_roles (x_rbac db)) \<Longrightarrow>
     only_rbac (\<lambda>b. b\<lparr>db_roles := db_roles b @ [r],
       db_role_permissions := db_role_permissions b @ map (\<lambda>p. \<lparr>rp_role_id = ro_id r, rp_permission_id = pe_id p\<rparr>) ps,
       db_role_limits := db_role_limits b @
         map (\<lambda>(d, v). \<lparr>rl_role_id = ro_id r, rl_limit_definition_id = ld_id d, rl_value = v\<rparr>) ls\<rparr>) db db' \<Longrightarrow>
     admin_effect access now db db'"
| role_changed:
    "find_role (x_rbac db) rid = Some role \<Longrightarrow> ensure_role_mutable access role = Inr () \<Longrightarrow>
     ro_id row = rid \<Longrightarrow> ro_is_system row = ro_is_system role \<Longrightarrow> ro_policy_version row = ro_policy_version role + 1 \<Longrightarrow>
     may_rank access (ro_priority row) \<Longrightarrow>
     only_rbac (write_role rid (\<lambda>_. row)) db db' \<Longrightarrow> admin_effect access now db db'"
| role_deleted:
    "find_role (x_rbac db) rid = Some role \<Longrightarrow> ensure_role_mutable access role = Inr () \<Longrightarrow>
     rid \<notin> ur_role_id ` set (db_user_roles (x_rbac db)) \<Longrightarrow> rid \<notin> kg_role_id ` set (k_grants (x_kb db)) \<Longrightarrow>
     only_rbac (\<lambda>b. b\<lparr>db_role_permissions := filter (\<lambda>rp. rp_role_id rp \<noteq> rid) (db_role_permissions b),
                     db_role_limits := filter (\<lambda>rl. rl_role_id rl \<noteq> rid) (db_role_limits b),
                     db_roles := filter (\<lambda>r. ro_id r \<noteq> rid) (db_roles b)\<rparr>) db db' \<Longrightarrow>
     admin_effect access now db db'"
| permissions_replaced:
    "find_role (x_rbac db) rid = Some role \<Longrightarrow> ensure_role_mutable access role = Inr () \<Longrightarrow>
     ensure_policy_grantable access codes limits = Inr () \<Longrightarrow> resolve_permissions (x_rbac db) codes = Inr ps \<Longrightarrow>
     only_rbac (\<lambda>b. write_role rid (\<lambda>_. bump_policy role) (put_permissions rid ps b)) db db' \<Longrightarrow>
     admin_effect access now db db'"
| limits_replaced:
    "find_role (x_rbac db) rid = Some role \<Longrightarrow> ensure_role_mutable access role = Inr () \<Longrightarrow>
     ensure_policy_grantable access codes limits = Inr () \<Longrightarrow> resolve_limits (x_rbac db) limits = Inr ls \<Longrightarrow>
     only_rbac (\<lambda>b. write_role rid (\<lambda>_. bump_policy role) (put_limits rid ls b)) db db' \<Longrightarrow>
     admin_effect access now db db'"
| policy_replaced:
    "find_role (x_rbac db) rid = Some role \<Longrightarrow> ensure_role_mutable access role = Inr () \<Longrightarrow>
     ensure_policy_grantable access codes limits = Inr () \<Longrightarrow> resolve_permissions (x_rbac db) codes = Inr ps \<Longrightarrow>
     resolve_limits (x_rbac db) limits = Inr ls \<Longrightarrow>
     only_rbac (\<lambda>b. write_role rid (\<lambda>_. bump_policy role) (put_limits rid ls (put_permissions rid ps b))) db db' \<Longrightarrow>
     admin_effect access now db db'"
| user_created:
    "u_id u \<notin> u_id ` set (db_users (x_rbac db)) \<Longrightarrow> \<not> u_is_superuser u \<Longrightarrow> u_retired_at u = None \<Longrightarrow>
     rids = [] \<or> may_assign access db rids \<Longrightarrow>
     only_rbac (\<lambda>b. b\<lparr>db_users := db_users b @ [u], db_user_roles := db_user_roles b @
        assign_rows (u_id u) (u_id (ac_user access)) rids\<rparr>) db db' \<Longrightarrow>
     admin_effect access now db db'"
| user_changed:
    "find_user (x_auth db) uid = Some user \<Longrightarrow> u_is_superuser user \<longrightarrow> u_is_superuser (ac_user access) \<Longrightarrow>
     u_retired_at user \<noteq> None \<longrightarrow> ux_status payload \<in> {None, Some USER_DISABLED} \<Longrightarrow>
     u_is_superuser user \<longrightarrow> u_status (updated_user payload user) \<noteq> USER_ACTIVE \<longrightarrow> u_status user = USER_ACTIVE \<longrightarrow>
       other_superusers db uid \<noteq> [] \<Longrightarrow>
     only_rbac (store_user (updated_user payload user)) db db' \<Longrightarrow> admin_effect access now db db'"
| user_retired:
    "find_user (x_auth db) uid = Some user \<Longrightarrow> u_is_superuser user \<longrightarrow> u_is_superuser (ac_user access) \<Longrightarrow>
     u_retired_at user = None \<Longrightarrow> uid \<noteq> u_id (ac_user access) \<Longrightarrow>
     u_is_superuser user \<longrightarrow> other_superusers db uid \<noteq> [] \<Longrightarrow>
     owned_knowledge_bases (x_kb db) uid \<noteq> [] \<longrightarrow> ut_replacement_owner_id payload \<noteq> None \<and>
       (u_is_superuser (ac_user access) \<or>
        (\<forall>b \<in> set (owned_knowledge_bases (x_kb db) uid).
           is_ok (require_knowledge_base_access (x_kb db) access (kb_id b) MANAGER))) \<Longrightarrow>
     \<forall>r. ut_replacement_owner_id payload = Some r \<longrightarrow> (\<exists>x. find_user (x_auth db) r = Some x \<and> active_user x \<and> u_id x \<noteq> uid) \<Longrightarrow>
     x_rbac db' = x_rbac (retire_rows now (u_id (ac_user access)) payload user db) \<Longrightarrow>
     x_kb db' = x_kb (retire_rows now (u_id (ac_user access)) payload user db) \<Longrightarrow>
     x_keys db' = x_keys (retire_rows now (u_id (ac_user access)) payload user db) \<Longrightarrow>
     a_tokens (x_auth db') = a_tokens (x_auth (retire_rows now (u_id (ac_user access)) payload user db)) \<Longrightarrow>
     admin_effect access now db db'"
| password_replaced:
    "find_user (x_auth db) uid = Some user \<Longrightarrow> uid = u_id (ac_user access) \<or> u_is_superuser (ac_user access) \<Longrightarrow>
     u_retired_at user = None \<Longrightarrow>
     x_rbac db' = store_user (user\<lparr>u_password_hash := h, u_token_version := u_token_version user + 1\<rparr>) (x_rbac db) \<Longrightarrow>
     x_kb db' = x_kb db \<Longrightarrow> x_keys db' = x_keys db \<Longrightarrow>
     a_tokens (x_auth db') = revoke_tokens now uid (a_tokens (x_auth db)) \<Longrightarrow>
     admin_effect access now db db'"
| roles_replaced:
    "find_user (x_auth db) uid = Some user \<Longrightarrow> u_is_superuser user \<longrightarrow> u_is_superuser (ac_user access) \<Longrightarrow>
     u_retired_at user \<noteq> None \<longrightarrow> rids = [] \<Longrightarrow> may_assign access db rids \<Longrightarrow>
     only_rbac (\<lambda>b. store_user (user\<lparr>u_role_assignment_version := u_role_assignment_version user + 1,
           u_token_version := u_token_version user + 1\<rparr>)
         (b\<lparr>db_user_roles := filter (\<lambda>ur. ur_user_id ur \<noteq> uid) (db_user_roles b) @
            assign_rows uid (u_id (ac_user access)) rids\<rparr>)) db db' \<Longrightarrow>
     admin_effect access now db db'"
| grants_replaced:
    "is_ok (require_knowledge_base_access (x_kb db) access kid MANAGER) \<Longrightarrow>
     x_kb db' = write_kb kid (bump_grants now) (put_grants kid (u_id (ac_user access)) grants (x_kb db)) \<Longrightarrow>
     x_rbac db' = x_rbac db \<Longrightarrow> x_keys db' = x_keys db \<Longrightarrow> a_tokens (x_auth db') = a_tokens (x_auth db) \<Longrightarrow>
     admin_effect access now db db'"

section \<open>The routes refine the effects\<close>

lemma only_rbac_audit [simp]:
  "only_rbac f db (audit_row t a res rt act rid rq d db') \<longleftrightarrow> only_rbac f db db'"
  "same_core db (audit_row t a res rt act rid rq d db') \<longleftrightarrow> same_core db db'"
  by (simp_all add: only_rbac_def same_core_def)

lemma on_rbac_frame [simp]:
  "x_rbac (on_rbac f db) = f (x_rbac db)" "x_kb (on_rbac f db) = x_kb db" "x_keys (on_rbac f db) = x_keys db"
  "a_tokens (x_auth (on_rbac f db)) = a_tokens (x_auth db)"
  by (simp_all add: on_rbac_def x_rbac_def)

lemma put_user_frame [simp]:
  "x_rbac (put_user u db) = store_user u (x_rbac db)" "x_kb (put_user u db) = x_kb db"
  "x_keys (put_user u db) = x_keys db" "a_tokens (x_auth (put_user u db)) = a_tokens (x_auth db)"
  by (simp_all add: put_user_def x_rbac_def write_user_def)

lemma same_core_refl [simp]: "same_core db db"
  by (simp add: same_core_def)

lemma deny_same:
  "deny_if_active_external_llm_egress co now actor rq rv db = Some (e, db') \<Longrightarrow> same_core db db'"
  by (auto simp: deny_if_active_external_llm_egress_def split: option.split_asm)

lemma guard_egress_same: "guard_egress co now rq access rv db = Inl (e, db') \<Longrightarrow> same_core db db'"
  by (auto simp: guard_egress_def deny_same split: option.split_asm)

lemma guard_last_superuserD:
  "guard_last_superuser co now rq access a uid db = Inl (e, db') \<Longrightarrow> same_core db db'"
  "guard_last_superuser co now rq access a uid db = Inr x \<Longrightarrow> other_superusers db uid \<noteq> []"
  by (auto simp: guard_last_superuser_def commit_user_denial_def audit_user_def split: if_split_asm)

lemma locked_actorD:
  assumes "locked_actor req db now access0 = Inr access"
  obtains actor where "find_user (x_auth db) (u_id (ac_user access0)) = Some actor" "active_user actor"
    "access = resolve (x_rbac db) now actor" "\<And>p. p \<in> set req \<Longrightarrow> allows access p"
proof -
  obtain actor where a: "find_user (x_auth db) (u_id (ac_user access0)) = Some actor"
    "refresh_locked_actor_access (x_rbac db) now actor req = Inr access"
    using assms unfolding locked_actor_def by (cases "find_user (x_auth db) (u_id (ac_user access0))") simp_all
  show ?thesis using refresh_ok[OF a(2)] a(1) by (intro that[of actor]) (simp_all add: active_user_def)
qed

lemma refuse_eq [result_simps]:
  "refuse db m = Inr x \<longleftrightarrow> m = Inr x" "refuse db m = Inl f \<longleftrightarrow> (\<exists>e. m = Inl e \<and> f = (e, db))"
  by (cases m; auto simp: refuse_def)+

lemma lock_roleD:
  assumes "lock_role db now access0 rid expected = Inr (access, role)"
  shows "locked_actor [''role:manage''] db now access0 = Inr access" "find_role (x_rbac db) rid = Some role"
    "ensure_role_mutable access role = Inr ()" "expected = ro_policy_version role" "ro_id role = rid"
proof -
  obtain a where a: "locked_actor [''role:manage''] db now access0 = Inr a"
    and c: "(case find_role (x_rbac db) rid of None \<Rightarrow> Inl role_not_found
      | Some role \<Rightarrow> bind_r (ensure_role_mutable a role) (\<lambda>_. bind_r (ensure_role_policy_version role expected) (\<lambda>_. Inr (a, role))))
      = Inr (access, role)"
    using assms unfolding lock_role_def bind_r_eq_Inr by blast
  from c obtain r where r: "find_role (x_rbac db) rid = Some r" by (cases "find_role (x_rbac db) rid") simp_all
  with c have "a = access \<and> r = role \<and> ensure_role_mutable access role = Inr () \<and> expected = ro_policy_version role"
    by (auto simp: ensure_role_policy_version_def bind_r_eq_Inr split: if_split_asm)
  with a r show "locked_actor [''role:manage''] db now access0 = Inr access" "find_role (x_rbac db) rid = Some role"
    "ensure_role_mutable access role = Inr ()" "expected = ro_policy_version role" "ro_id role = rid"
    using find_Some_in_set[of "\<lambda>r. ro_id r = rid" "db_roles (x_rbac db)" role] by (simp_all add: find_role_def)
qed

definition administered :: "string list \<Rightarrow> timestamp \<Rightarrow> access_context \<Rightarrow> keys_db \<Rightarrow> keys_db \<Rightarrow> bool" where
  "administered req now access0 db db' \<longleftrightarrow> same_core db db' \<or>
     (\<exists>access. locked_actor req db now access0 = Inr access \<and> admin_effect access now db db')"

lemma administeredI:
  "locked_actor req db now access0 = Inr access \<Longrightarrow> admin_effect access now db db' \<Longrightarrow> administered req now access0 db db'"
  by (auto simp: administered_def)

lemma administered_same [simp]: "same_core db db' \<Longrightarrow> administered req now access0 db db'"
  by (simp add: administered_def)

lemma insert_roleD:
  "insert_role r db = Inr db1 \<Longrightarrow> ro_id r \<notin> ro_id ` set (db_roles db) \<and> db1 = db\<lparr>db_roles := db_roles db @ [r]\<rparr>"
  by (auto simp: insert_role_def split: if_split_asm)

lemma create_role_effect:
  assumes "create_role co now rid rq access0 p db = (res, db')"
  shows "administered [''role:manage''] now access0 db db'"
  using assms unfolding create_role_def
proof (cases rule: or_rollback_cases)
  case 1
  then show ?thesis by simp
next
  case (2 x)
  then obtain access ps ls db1 where a: "locked_actor [''role:manage''] db now access0 = Inr access"
    "may_rank access (rc_priority p)" "ensure_policy_grantable access (rc_permission_codes p) (rc_limits p) = Inr ()"
    "resolve_permissions (x_rbac db) (rc_permission_codes p) = Inr ps" "resolve_limits (x_rbac db) (rc_limits p) = Inr ls"
    and i: "insert_role \<lparr>ro_id = rid, ro_code = rc_code p, ro_name = rc_name p, ro_description = rc_description p,
        ro_priority = rc_priority p, ro_is_system = False, ro_policy_version = 1\<rparr> (x_rbac db) = Inr db1"
    and d: "x_rbac db' = db1\<lparr>db_role_permissions := db_role_permissions db1 @
          map (\<lambda>p. \<lparr>rp_role_id = rid, rp_permission_id = pe_id p\<rparr>) ps,
        db_role_limits := db_role_limits db1 @
          map (\<lambda>(d, v). \<lparr>rl_role_id = rid, rl_limit_definition_id = ld_id d, rl_value = v\<rparr>) ls\<rparr>"
      "x_kb db' = x_kb db" "x_keys db' = x_keys db" "a_tokens (x_auth db') = a_tokens (x_auth db)"
    unfolding bind_r_eq_Inr by (auto simp: bind_r_eq_Inr Let_def audit_role_def not_le split: if_split_asm)
  show ?thesis
    by (rule administeredI[OF a(1)], rule admin_effect.role_created[where r = "\<lparr>ro_id = rid, ro_code = rc_code p,
        ro_name = rc_name p, ro_description = rc_description p, ro_priority = rc_priority p, ro_is_system = False,
        ro_policy_version = 1\<rparr>", OF _ _ _ a(3-5)])
      (use a(2) insert_roleD[OF i] d in \<open>simp_all add: only_rbac_def\<close>)
qed

lemma update_role_effect:
  assumes "update_role co now rq access0 rid p db = (res, db')"
  shows "administered [''role:manage''] now access0 db db'"
  using assms unfolding update_role_def
proof (cases rule: or_rollback_cases)
  case 1
  then show ?thesis by simp
next
  case (2 x)
  then obtain access role where l: "lock_role db now access0 rid (rx_expected_version p) = Inr (access, role)"
    and c: "db' = db \<or> may_rank access (ro_priority (updated_role p role)) \<and>
      only_rbac (write_role rid (\<lambda>_. bump_policy (updated_role p role))) db db'"
    unfolding bind_r_eq_Inr by (auto simp: Let_def audit_role_def only_rbac_def not_le split: if_split_asm)
  note d = lock_roleD[OF l]
  from c show ?thesis
  proof
    assume "db' = db"
    then show ?thesis by simp
  next
    assume w: "may_rank access (ro_priority (updated_role p role)) \<and>
      only_rbac (write_role rid (\<lambda>_. bump_policy (updated_role p role))) db db'"
    show ?thesis
      by (rule administeredI[OF d(1)], rule admin_effect.role_changed[OF d(2,3), of "bump_policy (updated_role p role)"])
        (use w d(5) in \<open>simp_all add: bump_policy_def updated_role_def\<close>)
  qed
qed

lemma delete_role_effect:
  assumes "delete_role co now rq access0 rid expected db = (res, db')"
  shows "administered [''role:manage''] now access0 db db'"
  using assms unfolding delete_role_def
proof (cases rule: or_rollback_cases)
  case 1
  then show ?thesis by simp
next
  case (2 x)
  then obtain access role where l: "lock_role db now access0 rid expected = Inr (access, role)"
    and c: "\<not> (\<exists>ur \<in> set (db_user_roles (x_rbac db)). ur_role_id ur = rid)" "\<not> (\<exists>g \<in> set (k_grants (x_kb db)). kg_role_id g = rid)"
      "only_rbac (\<lambda>b. b\<lparr>db_role_permissions := filter (\<lambda>rp. rp_role_id rp \<noteq> rid) (db_role_permissions b),
                     db_role_limits := filter (\<lambda>rl. rl_role_id rl \<noteq> rid) (db_role_limits b),
                     db_roles := filter (\<lambda>r. ro_id r \<noteq> rid) (db_roles b)\<rparr>) db db'"
    unfolding bind_r_eq_Inr by (auto simp: audit_role_def only_rbac_def split: if_split_asm)
  show ?thesis
    by (rule administeredI[OF lock_roleD(1)[OF l]], rule admin_effect.role_deleted[OF lock_roleD(2,3)[OF l] _ _ c(3)])
      (use c(1,2) in auto)
qed

lemma replace_limits_effect:
  assumes "replace_limits co now rq access0 rid expected limits db = (res, db')"
  shows "administered [''role:manage''] now access0 db db'"
  using assms unfolding replace_limits_def
proof (cases rule: or_rollback_cases)
  case 1
  then show ?thesis by simp
next
  case (2 x)
  then obtain access role where l: "lock_role db now access0 rid expected = Inr (access, role)"
    and c: "db' = db \<or> (\<exists>ls. ensure_policy_grantable access [] limits = Inr () \<and> resolve_limits (x_rbac db) limits = Inr ls \<and>
      only_rbac (\<lambda>b. write_role rid (\<lambda>_. bump_policy role) (put_limits rid ls b)) db db')"
    unfolding bind_r_eq_Inr by (auto simp: bind_r_eq_Inr Let_def audit_role_def only_rbac_def split: if_split_asm)
  note d = lock_roleD[OF l]
  from c show ?thesis
  proof (elim disjE exE conjE)
    assume "db' = db"
    then show ?thesis by simp
  next
    fix ls assume w: "ensure_policy_grantable access [] limits = Inr ()" "resolve_limits (x_rbac db) limits = Inr ls"
      "only_rbac (\<lambda>b. write_role rid (\<lambda>_. bump_policy role) (put_limits rid ls b)) db db'"
    show ?thesis by (rule administeredI[OF d(1)], rule admin_effect.limits_replaced[OF d(2,3) w])
  qed
qed

lemma egress_cases:
  assumes "(case deny_if_active_external_llm_egress co now actor rq rv db of Some (e, db1) \<Rightarrow> (Inl e, db1) | None \<Rightarrow> w)
      = (res, db')"
  obtains "same_core db db'" | "w = (res, db')"
  using assms deny_same by (cases "deny_if_active_external_llm_egress co now actor rq rv db") auto

lemma replace_permissions_effect:
  assumes "replace_permissions co now rq access0 rid expected codes db = (res, db')"
  shows "administered [''role:manage''] now access0 db db'"
proof (cases "lock_role db now access0 rid expected")
  case (Inl e)
  with assms show ?thesis by (simp add: replace_permissions_def)
next
  case (Inr ar)
  obtain access role where l: "lock_role db now access0 rid expected = Inr (access, role)" using Inr by (cases ar) simp
  note d = lock_roleD[OF l]
  consider "same_core db db'" | ps where "ensure_policy_grantable access codes [] = Inr ()"
      "resolve_permissions (x_rbac db) codes = Inr ps"
      "only_rbac (\<lambda>b. write_role rid (\<lambda>_. bump_policy role) (put_permissions rid ps b)) db db'"
  proof (cases "set codes = set (current_permission_codes (x_rbac db) rid)")
    case True
    with assms show ?thesis by (intro that(1)) (simp add: replace_permissions_def l)
  next
    case False
    show ?thesis
    proof (cases "bind_r (ensure_policy_grantable access codes []) (\<lambda>_. resolve_permissions (x_rbac db) codes)")
      case (Inl e)
      with assms False show ?thesis by (intro that(1)) (simp add: replace_permissions_def l)
    next
      case (Inr ps)
      with assms False show ?thesis
        by (simp add: replace_permissions_def l)
          (erule egress_cases, auto intro: that simp: bind_r_eq_Inr Let_def audit_role_def only_rbac_def)
    qed
  qed
  then show ?thesis
  proof cases
    case 1
    then show ?thesis by simp
  next
    case (2 ps)
    then show ?thesis by (intro administeredI[OF d(1)] admin_effect.permissions_replaced[OF d(2,3)])
  qed
qed

lemma replace_policy_effect:
  assumes "replace_policy co now rq access0 rid expected codes limits db = (res, db')"
  shows "administered [''role:manage''] now access0 db db'"
proof (cases "lock_role db now access0 rid expected")
  case (Inl e)
  with assms show ?thesis by (simp add: replace_policy_def)
next
  case (Inr ar)
  obtain access role where l: "lock_role db now access0 rid expected = Inr (access, role)" using Inr by (cases ar) simp
  note d = lock_roleD[OF l]
  consider "same_core db db'" | ps ls where "ensure_policy_grantable access codes limits = Inr ()"
      "resolve_permissions (x_rbac db) codes = Inr ps" "resolve_limits (x_rbac db) limits = Inr ls"
      "only_rbac (\<lambda>b. write_role rid (\<lambda>_. bump_policy role) (put_limits rid ls (put_permissions rid ps b))) db db'"
  proof (cases "set codes = set (current_permission_codes (x_rbac db) rid) \<and> set limits = set (current_limits (x_rbac db) rid)")
    case True
    with assms show ?thesis by (intro that(1)) (simp add: replace_policy_def l)
  next
    case False
    show ?thesis
    proof (cases "bind_r (ensure_policy_grantable access codes limits) (\<lambda>_.
        bind_r (resolve_permissions (x_rbac db) codes) (\<lambda>ps. bind_r (resolve_limits (x_rbac db) limits) (\<lambda>ls. Inr (ps, ls))))")
      case (Inl e)
      with assms False show ?thesis by (intro that(1)) (simp add: replace_policy_def l)
    next
      case (Inr pl)
      obtain ps ls where pl: "pl = (ps, ls)" by (cases pl)
      from Inr have "ensure_policy_grantable access codes limits = Inr ()"
        "resolve_permissions (x_rbac db) codes = Inr ps" "resolve_limits (x_rbac db) limits = Inr ls"
        by (auto simp: pl bind_r_eq_Inr)
      with assms False Inr show ?thesis
        by (simp add: replace_policy_def l pl)
          (erule egress_cases, auto intro: that simp: Let_def audit_role_def only_rbac_def)
    qed
  qed
  then show ?thesis
  proof cases
    case 1
    then show ?thesis by simp
  next
    case (2 ps ls)
    then show ?thesis by (intro administeredI[OF d(1)] admin_effect.policy_replaced[OF d(2,3)])
  qed
qed

lemma lock_targetD:
  assumes "lock_authorized_user_target req authz db now access0 uid = Inr (access, user)"
  shows "locked_actor req db now access0 = Inr access" "find_user (x_auth db) uid = Some user" "authz access user = Inr ()"
    "u_id user = uid"
proof -
  obtain a where a: "locked_actor req db now access0 = Inr a"
    and c: "(case find_user (x_auth db) uid of None \<Rightarrow> Inl (user_not_found, db)
       | Some target \<Rightarrow> bind_r (authz a target) (\<lambda>_. Inr (a, target))) = Inr (access, user)"
    using assms unfolding lock_authorized_user_target_def bind_r_eq_Inr refuse_eq by blast
  from c obtain u where u: "find_user (x_auth db) uid = Some u" by (cases "find_user (x_auth db) uid") simp_all
  with c have "a = access \<and> u = user \<and> authz access user = Inr ()" by (auto simp: bind_r_eq_Inr)
  with a u show "locked_actor req db now access0 = Inr access" "find_user (x_auth db) uid = Some user"
    "authz access user = Inr ()" "u_id user = uid" using find_user_id[OF u] by simp_all
qed

lemma lock_target_fails:
  assumes "lock_authorized_user_target req authz db now access0 uid = Inl (e, db')"
    and "\<And>access user e db'. authz access user = Inl (e, db') \<Longrightarrow> P db'" and "P db"
  shows "P db'"
  using assms unfolding lock_authorized_user_target_def bind_r_eq_Inl refuse_eq
  by (auto simp: bind_r_eq_Inl split: option.split_asm)

lemma authorize_managedD:
  "authorize_managed_user_target b now access target = Inr x \<Longrightarrow> u_is_superuser target \<longrightarrow> u_is_superuser (ac_user access)"
  by (auto simp: authorize_managed_user_target_def bind_r_eq_Inr split: if_split_asm)

lemma insert_userD:
  "insert_user u b = Inr b1 \<Longrightarrow> u_id u \<notin> u_id ` set (db_users b) \<and> b1 = b\<lparr>db_users := db_users b @ [u]\<rparr>"
  by (auto simp: insert_user_def split: if_split_asm)

lemma create_user_effect:
  assumes "create_user co now uid h rq access0 p db = (res, db')"
  shows "\<exists>req. administered (''user:manage'' # req) now access0 db db'"
  using assms unfolding create_user_def Let_def
proof (cases rule: or_rollback_cases)
  case 1
  then show ?thesis by simp
next
  case (2 x)
  let ?req = "if uc_role_ids p = [] then [] else [''role:assign'']"
  from 2 obtain access b1 where a: "locked_actor (''user:manage'' # ?req) db now access0 = Inr access"
    and r: "uc_role_ids p = [] \<or> may_assign access db (uc_role_ids p)"
    and i: "insert_user (new_user now uid h p) (x_rbac db) = Inr b1"
    and d: "x_rbac db' = b1\<lparr>db_user_roles := db_user_roles b1 @ assign_rows uid (u_id (ac_user access)) (uc_role_ids p)\<rparr>"
      "x_kb db' = x_kb db" "x_keys db' = x_keys db" "a_tokens (x_auth db') = a_tokens (x_auth db)"
    unfolding bind_r_eq_Inr by (auto simp: bind_r_eq_Inr audit_user_def may_assign_def split: if_split_asm)
  have "administered (''user:manage'' # ?req) now access0 db db'"
    by (rule administeredI[OF a], rule admin_effect.user_created[where u = "new_user now uid h p", OF _ _ _ r])
      (use insert_userD[OF i] d in \<open>simp_all add: only_rbac_def new_user_def\<close>)
  then show ?thesis by blast
qed

lemma committed_cases:
  assumes "committed m = (res, db')"
  obtains e where "m = Inl (e, db')" | x where "m = Inr (x, db')"
  using assms by (cases m) (auto simp: committed_def)

lemma managed_target_fails:
  "lock_authorized_user_target req (\<lambda>access target. refuse db (authorize_managed_user_target b now access target)) db now access0 uid
     = Inl (e, db') \<Longrightarrow> same_core db db'"
  by (erule lock_target_fails) (auto simp: refuse_eq)

lemma update_user_effect:
  assumes "update_user co now rq access0 uid p db = (res, db')"
  shows "administered [''user:manage''] now access0 db db'"
  using assms unfolding update_user_def
proof (cases rule: committed_cases)
  case (1 e)
  then have "same_core db db'"
    unfolding bind_r_eq_Inl using managed_target_fails
    by (auto simp: Let_def bind_r_eq_Inl intro: guard_egress_same guard_last_superuserD(1) split: if_split_asm)
  then show ?thesis by simp
next
  case (2 x)
  then obtain access user where l: "lock_authorized_user_target [''user:manage'']
      (\<lambda>access target. refuse db (authorize_managed_user_target (x_rbac db) now access target)) db now access0 uid = Inr (access, user)"
    and g: "\<not> (u_retired_at user \<noteq> None \<and> (case ux_status p of None \<Rightarrow> False | Some s \<Rightarrow> s \<noteq> USER_DISABLED))"
      "u_is_superuser user \<and> (case ux_status p of None \<Rightarrow> False | Some s \<Rightarrow> s \<noteq> USER_ACTIVE) \<Longrightarrow> other_superusers db (u_id user) \<noteq> []"
      "only_rbac (store_user (updated_user p user)) db db'"
    unfolding bind_r_eq_Inr
    by (auto simp: Let_def bind_r_eq_Inr audit_user_def only_rbac_def dest: guard_last_superuserD(2) split: if_split_asm)
  note d = lock_targetD[OF l]
  show ?thesis
    by (rule administeredI[OF d(1)], rule admin_effect.user_changed[OF d(2) _ _ _ g(3)])
      (use authorize_managedD d(3,4) g(1,2) in \<open>auto simp: refuse_eq updated_user_def Let_def split: option.split_asm\<close>)
qed

lemma replace_user_password_cases:
  assumes "replace_user_password co now req h rq access0 uid p db = (res, db')"
  obtains (refused) e where "res = Inl e" "db' = db"
  | (replaced) access user where "res = Inr ()" "locked_actor req db now access0 = Inr access"
      "find_user (x_auth db) uid = Some user" "u_retired_at user = None"
      "uid = u_id (ac_user access) \<or> u_is_superuser (ac_user access)"
      "x_rbac db' = store_user (user\<lparr>u_password_hash := h, u_token_version := u_token_version user + 1\<rparr>) (x_rbac db)"
      "x_kb db' = x_kb db" "x_keys db' = x_keys db" "a_tokens (x_auth db') = revoke_tokens now uid (a_tokens (x_auth db))"
proof (cases "\<exists>e. res = Inl e \<and> db' = db")
  case True
  then show thesis using refused by blast
next
  case False
  let ?lock = "lock_authorized_user_target req (\<lambda>access target. refuse db (authorize_password_target access target)) db now access0 uid"
  have fails: "?lock = Inl (e, db1) \<Longrightarrow> db1 = db" for e db1
    by (erule lock_target_fails) (auto simp: refuse_eq)
  from assms False obtain access user where l: "?lock = Inr (access, user)"
    and g: "res = Inr ()" "u_retired_at user = None" "u_id user = u_id (ac_user access) \<or> u_is_superuser (ac_user access)"
      "x_rbac db' = x_rbac (reset_rows now h user db)" "x_kb db' = x_kb (reset_rows now h user db)"
      "x_keys db' = x_keys (reset_rows now h user db)" "a_tokens (x_auth db') = a_tokens (x_auth (reset_rows now h user db))"
    unfolding replace_user_password_def Let_def committed_def using fails
    by (auto split: if_split_asm sum.split_asm simp: bind_r_eq_Inr bind_r_eq_Inl audit_user_def)
  note d = lock_targetD[OF l]
  show thesis
    by (rule replaced[OF g(1) d(1,2) g(2)]) (use g d(4) in \<open>auto simp: reset_rows_def Let_def x_rbac_def put_user_def write_user_def\<close>)
qed

lemma replace_user_password_effect:
  assumes "replace_user_password co now req h rq access0 uid p db = (res, db')"
  shows "administered req now access0 db db'"
  using assms
proof (cases rule: replace_user_password_cases)
  case (replaced access user)
  show ?thesis by (rule administeredI[OF replaced(2) admin_effect.password_replaced[OF replaced(3,5,4,6-9)]])
qed simp

lemma replace_user_roles_effect:
  assumes "replace_user_roles co now rq access0 uid expected rids db = (res, db')"
  shows "administered [''role:assign''] now access0 db db'"
  using assms unfolding replace_user_roles_def
proof (cases rule: committed_cases)
  case (1 e)
  then have "same_core db db'"
    unfolding bind_r_eq_Inl using managed_target_fails
    by (auto simp: Let_def bind_r_eq_Inl bind_r_eq_Inr refuse_eq intro: guard_egress_same guard_last_superuserD(1) split: if_split_asm)
  then show ?thesis by simp
next
  case (2 x)
  then obtain access user where l: "lock_authorized_user_target [''role:assign'']
      (\<lambda>access target. refuse db (authorize_managed_user_target (x_rbac db) now access target)) db now access0 uid = Inr (access, user)"
    and g: "\<not> (u_retired_at user \<noteq> None \<and> rids \<noteq> [])" "may_assign access db rids"
      "db' = db \<or> only_rbac (\<lambda>b. x_rbac (replace_role_rows (u_id (ac_user access)) rids user db)) db db'"
    unfolding bind_r_eq_Inr
    by (auto simp: Let_def bind_r_eq_Inr refuse_eq audit_user_def may_assign_def only_rbac_def replace_role_rows_def split: if_split_asm)
  note d = lock_targetD[OF l]
  from g(3) show ?thesis
  proof
    assume "db' = db"
    then show ?thesis by simp
  next
    assume w: "only_rbac (\<lambda>b. x_rbac (replace_role_rows (u_id (ac_user access)) rids user db)) db db'"
    show ?thesis
      by (rule administeredI[OF d(1)], rule admin_effect.roles_replaced[OF d(2) _ _ g(2)])
        (use authorize_managedD d(3,4) g(1) w in \<open>auto simp: refuse_eq only_rbac_def replace_role_rows_def\<close>)
  qed
qed

lemma x_rbac_updates:
  "x_rbac (db\<lparr>x_keys := ks\<rparr>) = x_rbac db" "x_rbac (db\<lparr>x_llm := l\<rparr>) = x_rbac db" "x_rbac (db\<lparr>x_kb := k\<rparr>) = x_rbac db"
  "x_rbac (db\<lparr>x_auth := a\<rparr>) = a_rbac a"
  by (simp_all add: x_rbac_def)

text \<open>A replacement of grants fails, leaves them, or replaces those of one knowledge base under its version.\<close>

lemma replace_role_grants_cases:
  assumes "replace_role_grants co now rq access0 kid p db = (res, db')"
  obtains (failed) e where "res = Inl e" "same_core db db'"
  | (unchanged) "db' = db"
  | (replaced) access kb where "locked_actor [''knowledge:grant''] db now access0 = Inr access"
      "is_ok (require_knowledge_base_access (x_kb db) access kid MANAGER)"
      "find (\<lambda>b. kb_id b = kid) (k_bases (x_kb db)) = Some kb" "kb_role_grant_version kb = rg_expected_version p"
      "x_kb db' = write_kb kid (bump_grants now) (put_grants kid (u_id (ac_user access)) (rg_grants p) (x_kb db))"
      "x_rbac db' = x_rbac db" "x_keys db' = x_keys db" "a_tokens (x_auth db') = a_tokens (x_auth db)"
  using assms unfolding replace_role_grants_def
proof (cases rule: committed_cases)
  case (1 e)
  then have "same_core db db'"
    by (auto simp: Let_def bind_r_eq_Inl bind_r_eq_Inr refuse_eq intro: guard_egress_same split: if_split_asm)
  with 1 show ?thesis using assms by (intro failed[of e]) (auto simp: replace_role_grants_def committed_def)
next
  case (2 x)
  then obtain access item where l: "locked_actor [''knowledge:grant''] db now access0 = Inr access"
    and r: "require_knowledge_base_access (x_kb db) access kid MANAGER = Inr item"
    and d: "db' = db \<or> rg_expected_version p = kb_role_grant_version (ka_knowledge_base item) \<and>
       (\<exists>act details. db' = audit_row now act SUCCESS ''knowledge_base'' (u_id (ac_user access)) (co_str_uuid co kid) rq (JObj details)
         (on_kb (write_kb kid (bump_grants now) \<circ> put_grants kid (u_id (ac_user access)) (rg_grants p)) db))"
    by (auto simp: Let_def bind_r_eq_Inr refuse_eq audit_kb_def split: if_split_asm)
  from d show ?thesis
  proof (elim disjE conjE exE)
    fix act details
    assume v: "rg_expected_version p = kb_role_grant_version (ka_knowledge_base item)"
      and w: "db' = audit_row now act SUCCESS ''knowledge_base'' (u_id (ac_user access)) (co_str_uuid co kid) rq (JObj details)
         (on_kb (write_kb kid (bump_grants now) \<circ> put_grants kid (u_id (ac_user access)) (rg_grants p)) db)"
    show ?thesis
      by (rule replaced[OF l _ require_found[OF r]]) (simp_all add: r v w on_kb_def x_rbac_updates)
  qed (rule unchanged)
qed

lemma replace_role_grants_effect:
  assumes "replace_role_grants co now rq access0 kid p db = (res, db')"
  shows "administered [''knowledge:grant''] now access0 db db'"
  using assms
proof (cases rule: replace_role_grants_cases)
  case (replaced access kb)
  from admin_effect.grants_replaced[OF replaced(2,5-8)] show ?thesis by (rule administeredI[OF replaced(1)])
qed simp_all

lemma fold_r_unit_ok: "fold_r (\<lambda>_. f) () xs = Inr u \<longleftrightarrow> (\<forall>x \<in> set xs. f x = Inr ())"
  by (induction xs) (auto simp: bind_r_eq_Inr)

lemma fold_r_unit_fails: "fold_r (\<lambda>_. f) () xs = Inl e \<Longrightarrow> \<exists>x \<in> set xs. f x = Inl e"
  by (induction xs) (auto simp: bind_r_eq_Inl)

lemma bind_unit_ok: "bind_r m (\<lambda>_. Inr ()) = Inr () \<longleftrightarrow> is_ok m"
  by (cases m) simp_all

lemma retirement_target_fails:
  "lock_authorized_user_target req (authorize_retirement_target co now rq p db) db now access0 uid = Inl (e, db') \<Longrightarrow> same_core db db'"
  by (erule lock_target_fails)
    (auto simp: authorize_retirement_target_def Let_def commit_user_denial_def audit_user_def bind_r_eq_Inl refuse_eq
      split: if_split_asm option.split_asm)

lemma retirement_targetD:
  assumes "authorize_retirement_target co now rq p db access target = Inr x"
  shows "u_id target \<noteq> u_id (ac_user access)" "u_is_superuser target \<longrightarrow> u_is_superuser (ac_user access)"
    "u_retired_at target = None \<Longrightarrow> ut_replacement_owner_id p = Some r \<Longrightarrow>
       \<exists>x. find_user (x_auth db) r = Some x \<and> active_user x \<and> u_id x \<noteq> u_id target"
  using assms authorize_managedD[of "x_rbac db" now access target]
  by (auto simp: authorize_retirement_target_def Let_def bind_r_eq_Inr refuse_eq dest: find_user_id
      split: if_split_asm option.split_asm)

lemma ensure_transferD:
  assumes "ensure_transfer co now rq p db access user = Inr x" "owned_knowledge_bases (x_kb db) (u_id user) \<noteq> []"
  shows "ut_replacement_owner_id p \<noteq> None \<and> (u_is_superuser (ac_user access) \<or>
     (\<forall>b \<in> set (owned_knowledge_bases (x_kb db) (u_id user)).
        is_ok (require_knowledge_base_access (x_kb db) access (kb_id b) MANAGER)))"
  using assms
  by (auto simp: ensure_transfer_def Let_def refuse_eq fold_r_unit_ok bind_unit_ok split: if_split_asm)

lemma ensure_transfer_fails: "ensure_transfer co now rq p db access user = Inl (e, db') \<Longrightarrow> same_core db db'"
  by (auto simp: ensure_transfer_def Let_def refuse_eq commit_user_denial_def audit_user_def split: if_split_asm)

lemma guard_retirement_fails: "guard_retirement co now rq db access user = Inl (e, db') \<Longrightarrow> same_core db db'"
  by (auto simp: guard_retirement_def bind_r_eq_Inl dest!: fold_r_unit_fails intro: guard_egress_same)

lemma retire_user_cases:
  assumes "retire_user co now rq access0 uid p db = (res, db')"
  obtains (refused) e where "res = Inl e" "same_core db db'"
  | (already) user where "res = Inr ()" "db' = db" "find_user (x_auth db) uid = Some user" "u_retired_at user \<noteq> None"
  | (retired) access user where "res = Inr ()" "locked_actor [''user:manage''] db now access0 = Inr access"
      "find_user (x_auth db) uid = Some user" "u_is_superuser user \<longrightarrow> u_is_superuser (ac_user access)"
      "u_retired_at user = None" "uid \<noteq> u_id (ac_user access)" "u_is_superuser user \<longrightarrow> other_superusers db uid \<noteq> []"
      "owned_knowledge_bases (x_kb db) uid \<noteq> [] \<longrightarrow> ut_replacement_owner_id p \<noteq> None \<and>
         (u_is_superuser (ac_user access) \<or>
          (\<forall>b \<in> set (owned_knowledge_bases (x_kb db) uid).
             is_ok (require_knowledge_base_access (x_kb db) access (kb_id b) MANAGER)))"
      "\<forall>r. ut_replacement_owner_id p = Some r \<longrightarrow> (\<exists>x. find_user (x_auth db) r = Some x \<and> active_user x \<and> u_id x \<noteq> uid)"
      "x_rbac db' = x_rbac (retire_rows now (u_id (ac_user access)) p user db)"
      "x_kb db' = x_kb (retire_rows now (u_id (ac_user access)) p user db)"
      "x_keys db' = x_keys (retire_rows now (u_id (ac_user access)) p user db)"
      "a_tokens (x_auth db') = a_tokens (x_auth (retire_rows now (u_id (ac_user access)) p user db))"
  using assms unfolding retire_user_def
proof (cases rule: committed_cases)
  case (1 e)
  then have "same_core db db'"
    unfolding bind_r_eq_Inl using retirement_target_fails
    by (auto simp: bind_r_eq_Inl intro: guard_last_superuserD(1) ensure_transfer_fails guard_retirement_fails split: if_split_asm)
  moreover have "\<exists>e. res = Inl e" using 1 assms by (auto simp: retire_user_def committed_def)
  ultimately show thesis using refused by blast
next
  case (2 x)
  have res: "res = Inr ()" using 2 assms by (auto simp: retire_user_def committed_def)
  from 2 obtain access user where l: "lock_authorized_user_target [''user:manage''] (authorize_retirement_target co now rq p db) db now access0 uid
      = Inr (access, user)"
    and body: "(if u_retired_at user \<noteq> None then Inr ((), db)
       else bind_r (if u_is_superuser user
                    then guard_last_superuser co now rq access ''user.retirement.denied'' (u_id user) db else Inr ()) (\<lambda>_.
            bind_r (ensure_transfer co now rq p db access user) (\<lambda>_.
            bind_r (guard_retirement co now rq db access user) (\<lambda>_.
            Inr ((), audit_user co now ''user.retired'' SUCCESS access (u_id user) rq (retirement_details co p user db)
                       (retire_rows now (u_id (ac_user access)) p user db)))))) = Inr (x, db')"
    unfolding bind_r_eq_Inr[of "lock_authorized_user_target _ _ _ _ _ _"] by auto
  have w: "db' = db \<and> u_retired_at user \<noteq> None \<or> u_retired_at user = None \<and> (u_is_superuser user \<longrightarrow> other_superusers db (u_id user) \<noteq> []) \<and>
      ensure_transfer co now rq p db access user = Inr () \<and>
      x_rbac db' = x_rbac (retire_rows now (u_id (ac_user access)) p user db) \<and>
      x_kb db' = x_kb (retire_rows now (u_id (ac_user access)) p user db) \<and>
      x_keys db' = x_keys (retire_rows now (u_id (ac_user access)) p user db) \<and>
      a_tokens (x_auth db') = a_tokens (x_auth (retire_rows now (u_id (ac_user access)) p user db))"
  proof (cases "u_retired_at user = None")
    case True
    with body show ?thesis
      by (intro disjI2) (auto simp: bind_r_eq_Inr audit_user_def dest: guard_last_superuserD(2) split: if_split_asm)
  qed (use body in auto)
  note d = lock_targetD[OF l] and t = retirement_targetD[OF lock_targetD(3)[OF l]]
  from w show thesis
  proof (elim disjE conjE)
    assume "db' = db" "u_retired_at user \<noteq> None"
    then show thesis by (rule already[OF res _ d(2)])
  next
    assume w: "u_retired_at user = None" "u_is_superuser user \<longrightarrow> other_superusers db (u_id user) \<noteq> []"
      "ensure_transfer co now rq p db access user = Inr ()"
      and rows: "x_rbac db' = x_rbac (retire_rows now (u_id (ac_user access)) p user db)"
        "x_kb db' = x_kb (retire_rows now (u_id (ac_user access)) p user db)"
        "x_keys db' = x_keys (retire_rows now (u_id (ac_user access)) p user db)"
        "a_tokens (x_auth db') = a_tokens (x_auth (retire_rows now (u_id (ac_user access)) p user db))"
    show thesis
      by (rule retired[OF res d(1,2) t(2) w(1) _ _ _ _ rows])
        (use t(1) t(3)[OF w(1)] d(4) w(2) ensure_transferD[OF w(3)] in auto)
  qed
qed

lemma retire_user_effect:
  assumes "retire_user co now rq access0 uid p db = (res, db')"
  shows "administered [''user:manage''] now access0 db db'"
  using assms
proof (cases rule: retire_user_cases)
  case (retired access user)
  show ?thesis by (rule administeredI[OF retired(2) admin_effect.user_retired[OF retired(3-13)]])
qed simp_all

section \<open>The invariant of the tables\<close>

definition admin_inv :: "rbac_db \<Rightarrow> bool" where
  "admin_inv b \<longleftrightarrow> keyed u_id (db_users b) \<and> keyed ro_id (db_roles b) \<and> keyed pe_id (db_permissions b) \<and> limit_tables b \<and>
     (\<forall>ur \<in> set (db_user_roles b). ur_role_id ur \<in> ro_id ` set (db_roles b)) \<and>
     (\<forall>rl \<in> set (db_role_limits b). rl_role_id rl \<in> ro_id ` set (db_roles b))"

lemma resolve_permissionsD:
  assumes "resolve_permissions b codes = Inr ps" "p \<in> set ps"
  shows "p \<in> set (db_permissions b)" "pe_code p \<in> set codes"
  using assms by (auto simp: resolve_permissions_def Let_def split: if_split_asm)

lemma resolve_limitsD:
  assumes "resolve_limits b limits = Inr ls"
  shows "map fst ls = filter (\<lambda>d. ld_key d \<in> fst ` set limits) (db_limit_definitions b)"
    "(d, v) \<in> set ls \<Longrightarrow> d \<in> set (db_limit_definitions b) \<and> (ld_key d, v) \<in> set limits"
proof -
  let ?ds = "filter (\<lambda>d. ld_key d \<in> fst ` set limits) (db_limit_definitions b)"
  have ls: "ls = map (\<lambda>d. (d, dict_get limits (ld_key d) None)) ?ds"
    using assms by (auto simp: resolve_limits_def Let_def split: if_split_asm)
  then show "map fst ls = ?ds" by (simp add: comp_def)
  have "(k, dict_get limits k None) \<in> set limits" if "k \<in> fst ` set limits" for k
  proof -
    have "map_of limits k \<noteq> None" using that by (simp add: map_of_eq_None_iff)
    then obtain w where "map_of limits k = Some w" by blast
    then show ?thesis by (simp add: dict_get_def map_of_SomeD)
  qed
  with ls show "(d, v) \<in> set ls \<Longrightarrow> d \<in> set (db_limit_definitions b) \<and> (ld_key d, v) \<in> set limits" by auto
qed

abbreviation limit_key :: "role_limit \<Rightarrow> uuid \<times> uuid" where
  "limit_key rl \<equiv> (rl_role_id rl, rl_limit_definition_id rl)"

abbreviation limit_row :: "uuid \<Rightarrow> limit_definition \<times> limit_value \<Rightarrow> role_limit" where
  "limit_row rid \<equiv> (\<lambda>(d, v). \<lparr>rl_role_id = rid, rl_limit_definition_id = ld_id d, rl_value = v\<rparr>)"

lemma new_limits_keyed:
  assumes k: "keyed ld_id (db_limit_definitions b)" "keyed limit_key rows" and l: "resolve_limits b limits = Inr ls"
    and fresh: "\<And>rl. rl \<in> set rows \<Longrightarrow> rl_role_id rl \<noteq> rid"
  shows "keyed limit_key (rows @ map (limit_row rid) ls)"
proof -
  have "map limit_key (map (limit_row rid) ls) = map (\<lambda>d. (rid, ld_id d)) (map fst ls)"
    by (induction ls) (auto simp: split_beta)
  moreover have "distinct (map ld_id (map fst ls))"
    unfolding resolve_limitsD(1)[OF l] using k(1) by (simp add: keyed_def distinct_map_filter)
  then have "distinct (map (\<lambda>d. (rid, ld_id d)) (map fst ls))" by (auto simp: distinct_map inj_on_def)
  ultimately have "keyed limit_key (map (limit_row rid) ls)" unfolding keyed_def by (simp only:)
  with k(2) fresh show ?thesis by (fastforce simp: keyed_append)
qed

lemma find_roleD: "find_role b rid = Some r \<Longrightarrow> r \<in> set (db_roles b) \<and> ro_id r = rid"
  using find_Some_in_set by (fastforce simp: find_role_def)

lemma write_role_inv:
  assumes "admin_inv b" "ro_id row = rid"
  shows "admin_inv (write_role rid (\<lambda>_. row) b)"
proof -
  let ?up = "update_where (\<lambda>r. ro_id r = rid) (\<lambda>_. row)"
  have "keyed ro_id (?up (db_roles b)) = keyed ro_id (db_roles b)" using assms(2) by (intro keyed_update_where) simp
  moreover have "ro_id ` set (?up (db_roles b)) = ro_id ` set (db_roles b)"
    using assms(2) by (intro key_image_update_where) simp
  ultimately show ?thesis using assms(1) by (simp add: admin_inv_def write_role_def limit_tables_def)
qed

lemma put_permissions_inv: "admin_inv b \<Longrightarrow> admin_inv (put_permissions rid ps b)"
  by (simp add: admin_inv_def put_permissions_def limit_tables_def)

lemma put_limits_inv:
  assumes "admin_inv b" "resolve_limits b limits = Inr ls" "rid \<in> ro_id ` set (db_roles b)"
  shows "admin_inv (put_limits rid ls b)"
proof -
  let ?rows = "filter (\<lambda>rl. rl_role_id rl \<noteq> rid) (db_role_limits b)"
  have "keyed limit_key (?rows @ map (limit_row rid) ls)"
    using assms(1) by (intro new_limits_keyed[OF _ _ assms(2)]) (simp_all add: admin_inv_def limit_tables_def keyed_filter)
  moreover have "\<forall>rl \<in> set (?rows @ map (limit_row rid) ls). rl_role_id rl \<in> ro_id ` set (db_roles b)"
    using assms(1,3) by (auto simp: admin_inv_def)
  ultimately show ?thesis using assms(1) by (simp add: admin_inv_def put_limits_def limit_tables_def)
qed

lemma store_user_inv: "admin_inv b \<Longrightarrow> admin_inv (store_user u b)"
  using keyed_update_where[of "\<lambda>x. u_id x = u_id u" u_id "\<lambda>_. u" "db_users b"] by (simp add: admin_inv_def limit_tables_def)

lemma may_assign_roles: "may_assign access db rids \<Longrightarrow> rid \<in> set rids \<Longrightarrow> rid \<in> ro_id ` set (db_roles (x_rbac db))"
  by (auto simp: may_assign_def requested_roles_def Let_def split: if_split_asm)

lemma retire_rows_frame:
  "x_rbac (retire_rows now actor p user db) =
     store_user (retired_user now actor p (\<exists>ur \<in> set (db_user_roles (x_rbac db)). ur_user_id ur = u_id user) user)
       (x_rbac db\<lparr>db_user_roles := filter (\<lambda>ur. ur_user_id ur \<noteq> u_id user) (db_user_roles (x_rbac db))\<rparr>)"
  "x_kb (retire_rows now actor p user db) =
     x_kb db\<lparr>k_bases := transfer_owned now (u_id user) (ut_replacement_owner_id p) (k_bases (x_kb db))\<rparr>"
  "x_keys (retire_rows now actor p user db) = revoke_keys now (u_id user) (x_keys db)"
  "a_tokens (x_auth (retire_rows now actor p user db)) = revoke_tokens now (u_id user) (a_tokens (x_auth db))"
  by (simp_all add: retire_rows_def Let_def x_rbac_def on_rbac_def put_user_def write_user_def retired_user_def)

lemma admin_effect_inv:
  assumes "admin_effect access now db db'" "admin_inv (x_rbac db)"
  shows "admin_inv (x_rbac db')"
  using assms(1)
proof cases
  case idle
  with assms(2) show ?thesis by (simp add: same_core_def)
next
  case (role_created r codes limits ps ls)
  have "keyed limit_key (db_role_limits (x_rbac db) @ map (limit_row (ro_id r)) ls)"
    using assms(2) role_created(7)
    by (intro new_limits_keyed[OF _ _ role_created(6)]) (simp_all add: admin_inv_def limit_tables_def, metis)
  with role_created(7,8) assms(2) show ?thesis
    by (auto simp: only_rbac_def admin_inv_def limit_tables_def keyed_append)
next
  case (role_changed rid role row)
  with assms(2) show ?thesis by (simp add: only_rbac_def write_role_inv)
next
  case (role_deleted rid role)
  have ids: "ro_id ` {x \<in> set (db_roles (x_rbac db)). ro_id x \<noteq> rid} = ro_id ` set (db_roles (x_rbac db)) - {rid}" by auto
  from role_deleted(3,5) assms(2) show ?thesis
    by (auto simp: only_rbac_def admin_inv_def limit_tables_def keyed_filter ids)
next
  case (permissions_replaced rid role codes limits ps)
  with assms(2) show ?thesis
    by (auto simp: only_rbac_def bump_policy_def dest!: find_roleD intro!: write_role_inv put_permissions_inv)
next
  case (limits_replaced rid role codes limits ls)
  then have "admin_inv (put_limits rid ls (x_rbac db))" using assms(2) find_roleD by (intro put_limits_inv) auto
  with limits_replaced show ?thesis by (auto simp: only_rbac_def bump_policy_def dest!: find_roleD intro!: write_role_inv)
next
  case (policy_replaced rid role codes limits ps ls)
  have "admin_inv (put_limits rid ls (put_permissions rid ps (x_rbac db)))"
    using policy_replaced assms(2) find_roleD
    by (intro put_limits_inv[of _ limits] put_permissions_inv) (auto simp: put_permissions_def resolve_limits_def)
  with policy_replaced show ?thesis by (auto simp: only_rbac_def bump_policy_def dest!: find_roleD intro!: write_role_inv)
next
  case (user_created u rids)
  with assms(2) may_assign_roles show ?thesis
    by (auto simp: only_rbac_def admin_inv_def limit_tables_def keyed_append assign_rows_def)
next
  case (user_changed uid user payload)
  with assms(2) show ?thesis by (simp only: only_rbac_def store_user_inv)
next
  case (user_retired uid user payload)
  have "admin_inv (x_rbac db\<lparr>db_user_roles := filter (\<lambda>ur. ur_user_id ur \<noteq> u_id user) (db_user_roles (x_rbac db))\<rparr>)"
    using assms(2) by (simp add: admin_inv_def limit_tables_def)
  then show ?thesis unfolding user_retired(8) retire_rows_frame by (rule store_user_inv)
next
  case (password_replaced uid user h)
  show ?thesis unfolding password_replaced(4) using assms(2) by (rule store_user_inv)
next
  case (roles_replaced uid user rids)
  have "admin_inv (x_rbac db\<lparr>db_user_roles := filter (\<lambda>ur. ur_user_id ur \<noteq> uid) (db_user_roles (x_rbac db)) @
      assign_rows uid (u_id (ac_user access)) rids\<rparr>)"
    using assms(2) may_assign_roles[OF roles_replaced(4)] by (auto simp: admin_inv_def limit_tables_def assign_rows_def)
  with roles_replaced(5) show ?thesis by (simp only: only_rbac_def store_user_inv)
next
  case (grants_replaced kid grants)
  with assms(2) show ?thesis by simp
qed

section \<open>Effects are bounded\<close>

lemma grantableD:
  assumes "ensure_policy_grantable access codes limits = Inr ()" "\<not> u_is_superuser (ac_user access)"
  shows "code \<in> set codes \<Longrightarrow> allows access code" "(k, v) \<in> set limits \<Longrightarrow> \<not> over_limit v (own_limit access k)"
  using assms by (auto simp: ensure_policy_grantable_def split: if_split_asm)

lemma new_permission_ok:
  assumes "admin_inv b" "ensure_policy_grantable access codes limits = Inr ()" "\<not> u_is_superuser (ac_user access)"
    "resolve_permissions b codes = Inr ps" "p \<in> set ps"
  shows "permission_ok access b \<lparr>rp_role_id = rid, rp_permission_id = pe_id p\<rparr>"
  unfolding permission_ok_def
proof (intro ballI impI)
  fix q assume q: "q \<in> set (db_permissions b)" "pe_id q = rp_permission_id \<lparr>rp_role_id = rid, rp_permission_id = pe_id p\<rparr>"
  then have "q = p" using keyed_unique[of pe_id "db_permissions b" q p] resolve_permissionsD(1)[OF assms(4,5)] assms(1)
    by (simp add: admin_inv_def)
  then show "allows access (pe_code q)" using grantableD(1)[OF assms(2,3)] resolve_permissionsD(2)[OF assms(4,5)] by blast
qed

lemma new_limit_ok:
  assumes "admin_inv b" "ensure_policy_grantable access codes limits = Inr ()" "\<not> u_is_superuser (ac_user access)"
    "resolve_limits b limits = Inr ls" "l \<in> set ls"
  shows "limit_ok access b (limit_row rid l)"
proof -
  obtain d v where l: "l = (d, v)" by (cases l)
  have d: "d \<in> set (db_limit_definitions b)" "(ld_key d, v) \<in> set limits"
    using resolve_limitsD(2)[OF assms(4)] assms(5) by (auto simp: l)
  have "e = d" if "e \<in> set (db_limit_definitions b)" "ld_id e = ld_id d" for e
    using keyed_unique[of ld_id "db_limit_definitions b" e d] that d(1) assms(1) by (simp add: admin_inv_def limit_tables_def)
  then show ?thesis using grantableD(2)[OF assms(2,3) d(2)] by (auto simp: limit_ok_def l)
qed

lemma assigned_role_ok:
  assumes m: "may_assign access db rids" and su: "\<not> u_is_superuser (ac_user access)" and rid: "rid \<in> set rids"
  shows "role_ok access db rid"
proof -
  obtain roles where req: "requested_roles (x_rbac db) rids = Inr roles"
    and ok: "ensure_roles_assignable (x_rbac db) (x_kb db) access roles = Inr ()"
    using m unfolding may_assign_def by blast
  have roles: "roles = filter (\<lambda>r. ro_id r \<in> set rids) (db_roles (x_rbac db))" "ro_id ` set roles = set rids"
    using req by (auto simp: requested_roles_def Let_def split: if_split_asm)
  have g: "\<forall>r \<in> set roles. ro_priority r < ac_max_role_priority access"
    "\<forall>r \<in> set roles. \<forall>c \<in> set (current_permission_codes (x_rbac db) (ro_id r)). allows access c"
    "\<forall>r \<in> set roles. \<forall>(k, v) \<in> set (role_limit_rows (x_rbac db) (ro_id r)). \<not> over_limit v (own_limit access k)"
    "ensure_kb_grants_delegable (x_kb db) access (role_grant_rows (x_kb db) (map ro_id roles)) = Inr ()"
    using ok su by (auto simp: ensure_roles_assignable_def not_le split: if_split_asm)
  have grants: "\<forall>(kid, level) \<in> set (role_grant_rows (x_kb db) (map ro_id roles)).
      is_ok (require_knowledge_base_access (x_kb db) access kid level)"
    using g(4) unfolding ensure_kb_grants_delegable_def fold_r_unit_ok by (auto simp: bind_unit_ok)
  have "rid \<in> ro_id ` set roles" using roles(2) rid by simp
  then obtain r where r: "r \<in> set roles" "ro_id r = rid" by blast
  show ?thesis unfolding role_ok_def
  proof (intro conjI)
    show "\<forall>rp \<in> set (db_role_permissions (x_rbac db)). rp_role_id rp = rid \<longrightarrow> permission_ok access (x_rbac db) rp"
      using g(2) r by (fastforce simp: permission_ok_def current_permission_codes_def)
    show "\<forall>rl \<in> set (db_role_limits (x_rbac db)). rl_role_id rl = rid \<longrightarrow> limit_ok access (x_rbac db) rl"
      using g(3) r by (fastforce simp: limit_ok_def role_limit_rows_def)
    show "\<forall>r \<in> set (db_roles (x_rbac db)). ro_id r = rid \<longrightarrow> ro_priority r < ac_max_role_priority access"
      using g(1) rid by (auto simp: roles(1))
    show "\<forall>g \<in> set (k_grants (x_kb db)). kg_role_id g = rid \<longrightarrow>
        is_ok (require_knowledge_base_access (x_kb db) access (kg_knowledge_base_id g) (kg_access_level g))"
      using grants r by (fastforce simp: role_grant_rows_def)
  qed
qed

lemma transfer_bounded:
  assumes "find (\<lambda>b. kb_id b = kid) (transfer_owned now uid rep (k_bases kb)) = Some b'"
    and "\<And>b. b \<in> set (k_bases kb) \<Longrightarrow> kb_owner_id b = uid \<Longrightarrow> is_ok (require_knowledge_base_access kb ctx (kb_id b) MANAGER)"
  shows "\<exists>b. find (\<lambda>b. kb_id b = kid) (k_bases kb) = Some b \<and>
    (kb_owner_id b' = kb_owner_id b \<or> is_ok (require_knowledge_base_access kb ctx kid MANAGER))"
proof (cases rep)
  case None
  with assms(1) show ?thesis by (simp add: transfer_owned_def)
next
  case (Some rid)
  let ?f = "\<lambda>b. b\<lparr>kb_owner_id := rid, kb_updated_at := now\<rparr>"
  have "find (\<lambda>b. kb_id b = kid) (update_where (\<lambda>b. kb_owner_id b = uid) ?f (k_bases kb)) =
      map_option (\<lambda>r. if kb_owner_id r = uid then ?f r else r) (find (\<lambda>b. kb_id b = kid) (k_bases kb))"
    by (rule find_update_where_key) simp
  with assms(1) Some obtain b where b: "find (\<lambda>b. kb_id b = kid) (k_bases kb) = Some b"
    "b' = (if kb_owner_id b = uid then ?f b else b)" by (auto simp: transfer_owned_def)
  with assms(2)[of b] find_Some_in_set[OF b(1)] show ?thesis by auto
qed

lemma write_kb_frame: "k_grants (write_kb kid f k) = k_grants k" "k_entries (write_kb kid f k) = k_entries k"
  "k_bases (write_kb kid f k) = update_where (\<lambda>kb. kb_id kb = kid) f (k_bases k)"
  by (simp_all add: write_kb_def)

lemma find_write_kb:
  assumes "\<And>kb. kb_id (f kb) = kb_id kb"
  shows "find (\<lambda>b. kb_id b = i) (update_where (\<lambda>kb. kb_id kb = kid) f bs) =
    map_option (\<lambda>b. if kb_id b = kid then f b else b) (find (\<lambda>b. kb_id b = i) bs)"
  by (rule find_update_where_key) (simp add: assms)

lemma write_kb_owner:
  assumes "find (\<lambda>b. kb_id b = i) (update_where (\<lambda>kb. kb_id kb = kid) (bump_grants now) bs) = Some b'"
  shows "\<exists>b. find (\<lambda>b. kb_id b = i) bs = Some b \<and> kb_owner_id b' = kb_owner_id b"
  using assms by (subst (asm) find_write_kb) (auto simp: bump_grants_def)

lemma admin_effect_bounded:
  assumes "admin_effect access now db db'" "admin_inv (x_rbac db)" "\<not> u_is_superuser (ac_user access)"
  shows "bounded access db db'"
proof -
  have urs: "ur_role_id ur \<in> ro_id ` set (db_roles (x_rbac db))" if "ur \<in> set (db_user_roles (x_rbac db))" for ur
    using assms(2) that by (simp add: admin_inv_def)
  have keep: "\<exists>r0 \<in> set (db_roles (x_rbac db)). ro_id r0 = ro_id r \<and> ro_priority r0 = ro_priority r"
    if "r \<in> set (update_where (\<lambda>r. ro_id r = rid) (\<lambda>_. bump_policy role) (db_roles (x_rbac db)))"
      "find_role (x_rbac db) rid = Some role" for r rid role
    using that find_roleD[OF that(2)] by (auto simp: bump_policy_def elim!: in_update_whereE)
  note new = new_permission_ok[OF assms(2) _ assms(3)] new_limit_ok[OF assms(2) _ assms(3)]
  from assms(1) show ?thesis
  proof cases
    case idle
    then show ?thesis by (intro boundedI) (auto simp: same_core_def urs)
  next
    case (role_created r codes limits ps ls)
    then show ?thesis using new(1)[OF role_created(4,5)] new(2)[OF role_created(4,6)] assms(3)
      by (intro boundedI) (auto simp: only_rbac_def urs)
  next
    case (role_changed rid role row)
    then show ?thesis using assms(3)
      by (intro boundedI) (auto simp: only_rbac_def write_role_def urs elim!: in_update_whereE)
  next
    case (role_deleted rid role)
    then show ?thesis by (intro boundedI) (auto simp: only_rbac_def urs)
  next
    case (permissions_replaced rid role codes limits ps)
    then show ?thesis using new(1)[OF permissions_replaced(3,4)]
      by (intro boundedI) (auto simp: only_rbac_def write_role_def put_permissions_def urs dest: keep)
  next
    case (limits_replaced rid role codes limits ls)
    then show ?thesis using new(2)[OF limits_replaced(3,4)]
      by (intro boundedI) (auto simp: only_rbac_def write_role_def put_limits_def urs dest: keep)
  next
    case (policy_replaced rid role codes limits ps ls)
    then show ?thesis using new(1)[OF policy_replaced(3,4)] new(2)[OF policy_replaced(3,5)]
      by (intro boundedI) (auto simp: only_rbac_def write_role_def put_permissions_def put_limits_def urs dest: keep)
  next
    case (user_created u rids)
    then show ?thesis using assigned_role_ok[OF _ assms(3)]
      by (intro boundedI) (auto simp: only_rbac_def assign_rows_def urs)
  next
    case (user_changed uid user payload)
    then show ?thesis by (intro boundedI) (auto simp: only_rbac_def urs)
  next
    case (user_retired uid user payload)
    have uid: "u_id user = uid" using find_user_id[OF user_retired(1)] by simp
    have own: "is_ok (require_knowledge_base_access (x_kb db) access (kb_id b) MANAGER)"
      if "b \<in> set (k_bases (x_kb db))" "kb_owner_id b = uid" for b
    proof -
      have b: "b \<in> set (owned_knowledge_bases (x_kb db) uid)" using that by (simp add: owned_knowledge_bases_def)
      then have "owned_knowledge_bases (x_kb db) uid \<noteq> []" by auto
      with user_retired(6) assms(3) b show ?thesis by blast
    qed
    show ?thesis
      by (rule boundedI; simp only: user_retired(8-9) retire_rows_frame)
        (auto simp: urs uid dest: transfer_bounded[OF _ own])
  next
    case (password_replaced uid user h)
    then show ?thesis by (intro boundedI) (auto simp: urs)
  next
    case (roles_replaced uid user rids)
    then show ?thesis using assigned_role_ok[OF roles_replaced(4) assms(3)]
      by (intro boundedI) (auto simp: only_rbac_def assign_rows_def urs)
  next
    case (grants_replaced kid grants)
    then show ?thesis
      by (intro boundedI) (auto simp: write_kb_frame put_grants_def urs dest: write_kb_owner)
  qed
qed

section \<open>Administration as a step relation\<close>

text \<open>One step is one call of a mutating route by the caller \<open>aid\<close>, whatever its outcome.\<close>

inductive admin_step :: "crypto_ops \<Rightarrow> timestamp \<Rightarrow> uuid \<Rightarrow> keys_db \<Rightarrow> keys_db \<Rightarrow> bool"
  for co :: crypto_ops and now :: timestamp and aid :: uuid and db :: keys_db and db' :: keys_db where
  create_role: "create_role co now rid rq a p db = (res, db') \<Longrightarrow> u_id (ac_user a) = aid \<Longrightarrow> admin_step co now aid db db'"
| update_role: "update_role co now rq a rid up db = (res2, db') \<Longrightarrow> u_id (ac_user a) = aid \<Longrightarrow> admin_step co now aid db db'"
| delete_role: "delete_role co now rq a rid v db = (res3, db') \<Longrightarrow> u_id (ac_user a) = aid \<Longrightarrow> admin_step co now aid db db'"
| replace_permissions: "replace_permissions co now rq a rid v codes db = (res4, db') \<Longrightarrow> u_id (ac_user a) = aid \<Longrightarrow>
    admin_step co now aid db db'"
| replace_limits: "replace_limits co now rq a rid v limits db = (res5, db') \<Longrightarrow> u_id (ac_user a) = aid \<Longrightarrow>
    admin_step co now aid db db'"
| replace_policy: "replace_policy co now rq a rid v codes limits db = (res6, db') \<Longrightarrow> u_id (ac_user a) = aid \<Longrightarrow>
    admin_step co now aid db db'"
| create_user: "create_user co now uid h rq a uc db = (res7, db') \<Longrightarrow> u_id (ac_user a) = aid \<Longrightarrow> admin_step co now aid db db'"
| update_user: "update_user co now rq a uid ux db = (res8, db') \<Longrightarrow> u_id (ac_user a) = aid \<Longrightarrow> admin_step co now aid db db'"
| retire_user: "retire_user co now rq a uid ut db = (res9, db') \<Longrightarrow> u_id (ac_user a) = aid \<Longrightarrow> admin_step co now aid db db'"
| replace_user_password: "replace_user_password co now req h rq a uid pr db = (res10, db') \<Longrightarrow> u_id (ac_user a) = aid \<Longrightarrow>
    admin_step co now aid db db'"
| replace_user_roles: "replace_user_roles co now rq a uid v rids db = (res11, db') \<Longrightarrow> u_id (ac_user a) = aid \<Longrightarrow>
    admin_step co now aid db db'"
| replace_role_grants: "replace_role_grants co now rq a kid gs db = (res12, db') \<Longrightarrow> u_id (ac_user a) = aid \<Longrightarrow>
    admin_step co now aid db db'"

inductive_cases admin_stepE: "admin_step co now aid db db'"

lemma administeredD:
  assumes "administered req now access0 db db'"
  shows "same_core db db' \<or> (\<exists>actor. find_user (x_auth db) (u_id (ac_user access0)) = Some actor \<and> active_user actor \<and>
     admin_effect (resolve (x_rbac db) now actor) now db db')"
  using assms unfolding administered_def by (auto elim!: locked_actorD)

lemma admin_step_effect:
  assumes "admin_step co now aid db db'"
  shows "same_core db db' \<or> (\<exists>actor. find_user (x_auth db) aid = Some actor \<and> active_user actor \<and>
     admin_effect (resolve (x_rbac db) now actor) now db db')"
proof -
  from assms obtain req a where "administered req now a db db'" "u_id (ac_user a) = aid"
    by cases (blast dest: create_role_effect update_role_effect delete_role_effect replace_permissions_effect
      replace_limits_effect replace_policy_effect create_user_effect update_user_effect retire_user_effect
      replace_user_password_effect replace_user_roles_effect replace_role_grants_effect)+
  with administeredD show ?thesis by blast
qed

lemma same_core_effect: "same_core db db' \<Longrightarrow> admin_effect access now db db'"
  by (rule admin_effect.idle)

lemma admin_step_inv: "admin_step co now aid db db' \<Longrightarrow> admin_inv (x_rbac db) \<Longrightarrow> admin_inv (x_rbac db')"
  using admin_step_effect admin_effect_inv same_core_effect by blast

text \<open>How an effect changes the accounts.\<close>

definition row_changed :: "user \<Rightarrow> user \<Rightarrow> bool" where
  "row_changed u u' \<longleftrightarrow> u_id u' = u_id u \<and> u_is_superuser u' = u_is_superuser u \<and>
     (u_retired_at u \<noteq> None \<longrightarrow> u_retired_at u' = u_retired_at u) \<and>
     (u_retired_at u \<noteq> None \<longrightarrow> u_status u = USER_DISABLED \<longrightarrow> u_status u' = USER_DISABLED) \<and>
     u_token_version u \<le> u_token_version u'"

lemma row_changed_refl [simp]: "row_changed u u"
  by (simp add: row_changed_def)

lemma store_user_rows:
  assumes "find_user (x_auth db) uid = Some user" "row_changed user u'" "x' \<in> set (db_users (store_user u' b))"
    "db_users b = db_users (x_rbac db)"
  shows "\<exists>x \<in> set (db_users (x_rbac db)). row_changed x x'"
  using assms find_user_id[OF assms(1)]
  by (auto simp: x_rbac_def elim!: in_update_whereE intro: bexI[of _ x'] bexI[of _ user])

lemma admin_effect_users:
  assumes "admin_effect access now db db'" "u' \<in> set (db_users (x_rbac db'))"
  shows "(\<exists>u \<in> set (db_users (x_rbac db)). row_changed u u') \<or>
    \<not> u_is_superuser u' \<and> u_retired_at u' = None \<and> u_id u' \<notin> u_id ` set (db_users (x_rbac db))"
proof -
  have st: "row_changed user u2 \<Longrightarrow> find_user (x_auth db) uid = Some user \<Longrightarrow> db_users b = db_users (x_rbac db) \<Longrightarrow>
      u' \<in> set (db_users (store_user u2 b)) \<Longrightarrow> \<exists>u \<in> set (db_users (x_rbac db)). row_changed u u'" for user u2 uid b
    using store_user_rows by blast
  from assms(1) show ?thesis
  proof cases
    case (user_created u rids)
    with assms(2) show ?thesis by (auto simp: only_rbac_def intro!: bexI[of _ u'])
  next
    case (user_changed uid user payload)
    have "row_changed user (updated_user payload user)"
      using user_changed(3) by (auto simp: row_changed_def updated_user_def Let_def split: option.split)
    with user_changed assms(2) show ?thesis by (intro disjI1) (rule st, auto simp: only_rbac_def)
  next
    case (user_retired uid user payload)
    have "row_changed user (retired_user now act payload hr user)" for act hr
      using user_retired(3) by (auto simp: row_changed_def retired_user_def)
    with user_retired assms(2) show ?thesis unfolding retire_rows_frame by (intro disjI1) (rule st, auto)
  next
    case (password_replaced uid user h)
    have "row_changed user (user\<lparr>u_password_hash := h, u_token_version := u_token_version user + 1\<rparr>)"
      by (simp add: row_changed_def)
    with password_replaced assms(2) show ?thesis by (intro disjI1) (rule st, auto)
  next
    case (roles_replaced uid user rids)
    have "row_changed user (user\<lparr>u_role_assignment_version := u_role_assignment_version user + 1,
           u_token_version := u_token_version user + 1\<rparr>)"
      by (simp add: row_changed_def)
    with roles_replaced assms(2) show ?thesis by (intro disjI1) (rule st, auto simp: only_rbac_def)
  qed (use assms(2) in \<open>auto simp: same_core_def only_rbac_def write_role_def put_limits_def put_permissions_def intro!: bexI[of _ u']\<close>)
qed

section \<open>Delegation\<close>

definition limited :: "uuid set \<Rightarrow> keys_db \<Rightarrow> bool" where
  "limited A db \<longleftrightarrow> (\<forall>u \<in> set (db_users (x_rbac db)). u_id u \<in> A \<longrightarrow> \<not> u_is_superuser u)"

text \<open>
  A transaction of another component: the access tables, the grants and the owners stay, users keep id and flag, and
  knowledge bases may be created.
\<close>

definition other_step :: "keys_db \<Rightarrow> keys_db \<Rightarrow> bool" where
  "other_step db db' \<longleftrightarrow> (\<exists>us. x_rbac db' = x_rbac db\<lparr>db_users := us\<rparr> \<and>
       map (\<lambda>u. (u_id u, u_is_superuser u)) us = map (\<lambda>u. (u_id u, u_is_superuser u)) (db_users (x_rbac db))) \<and>
     k_grants (x_kb db') = k_grants (x_kb db) \<and>
     (\<exists>new. map (\<lambda>b. (kb_id b, kb_owner_id b)) (k_bases (x_kb db')) = map (\<lambda>b. (kb_id b, kb_owner_id b)) (k_bases (x_kb db)) @ new)"

inductive delegation_run :: "crypto_ops \<Rightarrow> uuid set \<Rightarrow> keys_db \<Rightarrow> timestamp \<Rightarrow> keys_db \<Rightarrow> timestamp \<Rightarrow> bool"
  for co :: crypto_ops and A :: "uuid set" and db0 :: keys_db and t0 :: timestamp where
  start: "delegation_run co A db0 t0 db0 t0"
| administer: "delegation_run co A db0 t0 db t \<Longrightarrow> t \<le> now \<Longrightarrow> aid \<in> A \<Longrightarrow> admin_step co now aid db db' \<Longrightarrow>
    delegation_run co A db0 t0 db' now"
| elsewhere: "delegation_run co A db0 t0 db t \<Longrightarrow> t \<le> now \<Longrightarrow> other_step db db' \<Longrightarrow> delegation_run co A db0 t0 db' now"

lemma admin_step_limited: "admin_step co now aid db db' \<Longrightarrow> limited A db \<Longrightarrow> limited A db'"
  using admin_step_effect[of co now aid db db'] admin_effect_users[of _ now db db'] same_core_effect
  unfolding limited_def row_changed_def by metis

lemma other_step_owner:
  assumes "map (\<lambda>b. (kb_id b, kb_owner_id b)) bs' = map (\<lambda>b. (kb_id b, kb_owner_id b)) bs @ new"
    "find (\<lambda>b. kb_id b = kid) bs' = Some b'" "kid \<in> kb_id ` set bs"
  shows "\<exists>b. find (\<lambda>b. kb_id b = kid) bs = Some b \<and> kb_owner_id b' = kb_owner_id b"
  using assms
proof (induction bs arbitrary: bs')
  case Nil
  then show ?case by simp
next
  case (Cons x xs)
  then obtain y ys where "bs' = y # ys" by (cases bs') auto
  with Cons show ?case by (auto split: if_split_asm)
qed

lemma other_step_ids: "other_step db db' \<Longrightarrow> kb_id ` set (k_bases (x_kb db)) \<subseteq> kb_id ` set (k_bases (x_kb db'))"
proof -
  assume "other_step db db'"
  then obtain new where "map (\<lambda>b. (kb_id b, kb_owner_id b)) (k_bases (x_kb db')) =
      map (\<lambda>b. (kb_id b, kb_owner_id b)) (k_bases (x_kb db)) @ new" unfolding other_step_def by blast
  from arg_cong[OF this, of "\<lambda>l. fst ` set l"] show ?thesis by (auto simp: image_image image_Un)
qed

lemma other_step_bounded:
  assumes "other_step db db'" "admin_inv (x_rbac db)"
  shows "bounded ctx db db'" "admin_inv (x_rbac db')" "limited A db \<Longrightarrow> limited A db'"
proof -
  obtain us where us: "x_rbac db' = x_rbac db\<lparr>db_users := us\<rparr>"
    "map (\<lambda>u. (u_id u, u_is_superuser u)) us = map (\<lambda>u. (u_id u, u_is_superuser u)) (db_users (x_rbac db))"
    using assms(1) unfolding other_step_def by blast
  have ids: "map u_id us = map u_id (db_users (x_rbac db))"
    using arg_cong[OF us(2), of "map fst"] by (simp add: comp_def)
  have fl: "(\<lambda>u. (u_id u, u_is_superuser u)) ` set us = (\<lambda>u. (u_id u, u_is_superuser u)) ` set (db_users (x_rbac db))"
    using arg_cong[OF us(2), of set] by simp
  have own: "\<exists>b. find (\<lambda>b. kb_id b = kid) (k_bases (x_kb db)) = Some b \<and>
      (kb_owner_id b' = kb_owner_id b \<or> is_ok (require_knowledge_base_access (x_kb db) ctx kid MANAGER))"
    if "kid \<in> kb_id ` set (k_bases (x_kb db))" "find (\<lambda>b. kb_id b = kid) (k_bases (x_kb db')) = Some b'" for kid b'
    using other_step_owner[OF _ that(2,1)] assms(1) unfolding other_step_def by blast
  show "bounded ctx db db'"
    by (rule boundedI; (erule (1) own)?) (use assms us(1) in \<open>auto simp: other_step_def admin_inv_def\<close>)
  show "admin_inv (x_rbac db')" using assms(2) ids by (simp add: us(1) admin_inv_def keyed_def limit_tables_def)
  show "limited A db'" if l: "limited A db"
    unfolding limited_def
  proof (intro ballI impI)
    fix u assume u: "u \<in> set (db_users (x_rbac db'))" "u_id u \<in> A"
    then have "(u_id u, u_is_superuser u) \<in> (\<lambda>u. (u_id u, u_is_superuser u)) ` set (db_users (x_rbac db))"
      unfolding fl[symmetric] by (simp add: us(1))
    with l u(2) show "\<not> u_is_superuser u" by (auto simp: limited_def)
  qed
qed

lemma admin_effect_kb_ids:
  assumes "admin_effect access now db db'"
  shows "kb_id ` set (k_bases (x_kb db)) \<subseteq> kb_id ` set (k_bases (x_kb db'))"
  using assms
proof cases
  case (user_retired uid user payload)
  have "map kb_id (transfer_owned t u r bs) = map kb_id bs" for t u r bs
    by (cases r) (simp_all add: transfer_owned_def update_where_def)
  from arg_cong[OF this, of set] show ?thesis by (simp add: user_retired(9) retire_rows_frame)
next
  case (grants_replaced kid grants)
  have "map kb_id (update_where (\<lambda>b. kb_id b = kid) (bump_grants now) bs) = map kb_id bs" for bs
    by (simp add: update_where_def bump_grants_def)
  from arg_cong[OF this, of set] show ?thesis by (simp add: grants_replaced(2) write_kb_frame put_grants_def)
qed (auto simp: same_core_def only_rbac_def)

lemma delegation_run_ids: "delegation_run co A db0 t0 db t \<Longrightarrow> concerns db0 cap \<Longrightarrow> concerns db cap"
proof (induction rule: delegation_run.induct)
  case (administer db t now aid db')
  with admin_step_effect[OF administer.hyps(4)] admin_effect_kb_ids same_core_effect show ?case
    unfolding concerns_def by blast
next
  case (elsewhere db t now db')
  with other_step_ids[OF elsewhere.hyps(3)] show ?case unfolding concerns_def by blast
qed simp

lemma delegation_run_inv:
  assumes "delegation_run co A db0 t0 db t" "admin_inv (x_rbac db0)" "limited A db0"
  shows "admin_inv (x_rbac db) \<and> limited A db"
  using assms
proof (induction rule: delegation_run.induct)
  case (administer db t now aid db')
  then show ?case using admin_step_inv admin_step_limited by blast
next
  case (elsewhere db t now db')
  then show ?case using other_step_bounded[of db db'] by blast
qed simp

text \<open>What one step of a limited administrator gives a user, the user or the administrator had before.\<close>

lemma admin_step_delegates:
  assumes step: "admin_step co now aid db db'" and inv: "admin_inv (x_rbac db)" "limited A db" "aid \<in> A"
    and v: "\<not> u_is_superuser v" "entitled db' now v cap"
    and old: "concerns db cap"
  shows "\<exists>w. \<not> u_is_superuser w \<and> (u_id w = u_id v \<or> u_id w \<in> A) \<and> entitled db now w cap"
proof -
  have l: "limit_tables (x_rbac db)" "limit_tables (x_rbac db')"
    using inv(1) admin_step_inv[OF step inv(1)] by (simp_all add: admin_inv_def)
  from admin_step_effect[OF step] show ?thesis
  proof (elim disjE exE conjE)
    assume c: "same_core db db'"
    have "bounded (resolve (x_rbac db) now v) db db'"
      using admin_effect_bounded[OF same_core_effect[OF c] inv(1)] v(1) by simp
    then have "entitled db now v cap" using entitled_bounded[OF _ order_refl v(1) v(1) l old v(2)] by blast
    with v(1) show ?thesis by blast
  next
    fix actor assume a: "find_user (x_auth db) aid = Some actor" "admin_effect (resolve (x_rbac db) now actor) now db db'"
    have su: "\<not> u_is_superuser actor" "u_id actor \<in> A"
      using find_user_id[OF a(1)] inv(2,3) by (auto simp: limited_def x_rbac_def)
    have "bounded (resolve (x_rbac db) now actor) db db'" using admin_effect_bounded[OF a(2) inv(1)] su(1) by simp
    from entitled_bounded[OF this order_refl v(1) su(1) l old v(2)] show ?thesis using v(1) su by blast
  qed
qed

lemma delegation_run_bounded:
  assumes "delegation_run co A db0 t0 db t" "admin_inv (x_rbac db0)" "limited A db0"
    "concerns db0 cap" "\<not> u_is_superuser v" "entitled db t v cap"
  shows "\<exists>w. \<not> u_is_superuser w \<and> (u_id w = u_id v \<or> u_id w \<in> A) \<and> entitled db0 t0 w cap"
  using assms
proof (induction arbitrary: v rule: delegation_run.induct)
  case start
  then show ?case by blast
next
  case (administer db t now aid db')
  note inv = delegation_run_inv[OF administer.hyps(1) administer.prems(1,2)]
  note old = delegation_run_ids[OF administer.hyps(1) administer.prems(3)]
  from admin_step_delegates[OF administer.hyps(4) _ _ administer.hyps(3) administer.prems(4,5) old] inv
  obtain w where w: "\<not> u_is_superuser w" "u_id w = u_id v \<or> u_id w \<in> A" "entitled db now w cap" by blast
  have "entitled db t w cap" using entitled_earlier[OF _ _ w(1) administer.hyps(2) w(3)] inv by (simp add: admin_inv_def)
  from administer.IH[OF administer.prems(1-3) w(1) this] w(2) show ?case by metis
next
  case (elsewhere db t now db')
  note inv = delegation_run_inv[OF elsewhere.hyps(1) elsewhere.prems(1,2)]
  note old = delegation_run_ids[OF elsewhere.hyps(1) elsewhere.prems(3)]
  note o = other_step_bounded[OF elsewhere.hyps(3)]
  have "entitled db t v cap"
    using entitled_bounded[OF o(1) elsewhere.hyps(2) elsewhere.prems(4) elsewhere.prems(4) _ _ old elsewhere.prems(5)] inv o(2)
    by (auto simp: admin_inv_def)
  from elsewhere.IH[OF elsewhere.prems(1-4) this] show ?case .
qed

section \<open>Versions of a role\<close>

text \<open>What the version of a role protects: its row, permissions and limits.\<close>

definition role_policy :: "rbac_db \<Rightarrow> uuid \<Rightarrow> role option \<times> string list \<times> (string \<times> limit_value) list" where
  "role_policy b rid = (find_role b rid, current_permission_codes b rid, role_limit_rows b rid)"

lemma find_write_role:
  assumes "ro_id row = rid"
  shows "find_role (write_role rid (\<lambda>_. row) b) k = (if k = rid then map_option (\<lambda>_. row) (find_role b rid) else find_role b k)"
proof -
  have "find_role (write_role rid (\<lambda>_. row) b) k = map_option (\<lambda>r. if ro_id r = rid then row else r) (find_role b k)"
    unfolding find_role_def write_role_def using assms by simp (rule find_update_where_key, simp)
  then show ?thesis by (cases "find_role b k") (auto dest: find_roleD)
qed

lemma filter_other: "(\<And>y. y \<in> set ys \<Longrightarrow> \<not> q y) \<Longrightarrow> (\<And>x. q x \<Longrightarrow> p x) \<Longrightarrow> filter q (filter p xs @ ys) = filter q xs"
  by (induction xs) auto

lemma put_permissions_codes:
  assumes "k \<noteq> rid"
  shows "current_permission_codes (put_permissions rid ps b) k = current_permission_codes b k"
proof -
  have "filter (\<lambda>rp. rp_role_id rp = k) (db_role_permissions (put_permissions rid ps b)) =
      filter (\<lambda>rp. rp_role_id rp = k) (db_role_permissions b)"
    unfolding put_permissions_def using assms by (simp del: filter_append filter_filter) (rule filter_other, auto)
  then show ?thesis by (simp add: current_permission_codes_def) (simp add: put_permissions_def)
qed

lemma put_limits_rows:
  assumes "k \<noteq> rid"
  shows "role_limit_rows (put_limits rid ls b) k = role_limit_rows b k"
proof -
  have "filter (\<lambda>rl. rl_role_id rl = k) (db_role_limits (put_limits rid ls b)) = filter (\<lambda>rl. rl_role_id rl = k) (db_role_limits b)"
    unfolding put_limits_def using assms by (simp del: filter_append filter_filter) (rule filter_other, auto)
  then show ?thesis by (simp add: role_limit_rows_def) (simp add: put_limits_def)
qed

lemma policy_frames [simp]:
  "current_permission_codes (write_role rid f b) k = current_permission_codes b k"
  "role_limit_rows (write_role rid f b) k = role_limit_rows b k"
  "current_permission_codes (put_limits rid ls b) k = current_permission_codes b k"
  "role_limit_rows (put_permissions rid ps b) k = role_limit_rows b k"
  "find_role (put_limits rid ls b) k = find_role b k" "find_role (put_permissions rid ps b) k = find_role b k"
  by (simp_all add: current_permission_codes_def role_limit_rows_def write_role_def put_limits_def put_permissions_def find_role_def)

lemma users_policy_frames [simp]:
  "role_policy (b\<lparr>db_users := us\<rparr>) k = role_policy b k" "role_policy (b\<lparr>db_user_roles := urs\<rparr>) k = role_policy b k"
  by (simp_all add: role_policy_def find_role_def current_permission_codes_def role_limit_rows_def)

lemma admin_effect_versions:
  assumes "admin_effect access now db db'" "find_role (x_rbac db) k = Some r" "find_role (x_rbac db') k = Some r'"
  shows "role_policy (x_rbac db') k = role_policy (x_rbac db) k \<or> ro_policy_version r' = ro_policy_version r + 1"
  using assms(1)
proof cases
  case idle
  then show ?thesis by (simp add: same_core_def)
next
  case (role_created n codes limits ps ls)
  have "k \<noteq> ro_id n" using find_roleD[OF assms(2)] role_created(7) by (metis imageI)
  then have "find_role (x_rbac db') k = find_role (x_rbac db) k"
    "current_permission_codes (x_rbac db') k = current_permission_codes (x_rbac db) k"
    "role_limit_rows (x_rbac db') k = role_limit_rows (x_rbac db) k"
    using role_created(8) by (auto simp: only_rbac_def find_role_def current_permission_codes_def role_limit_rows_def find_append
        filter_empty_conv split: option.split)
  then show ?thesis by (simp add: role_policy_def)
next
  case (role_changed rid role row)
  with assms(2,3) show ?thesis by (auto simp: only_rbac_def role_policy_def find_write_role split: if_split_asm)
next
  case (role_deleted rid role)
  then have "k \<noteq> rid" using find_roleD[OF assms(3)] by (auto simp: only_rbac_def)
  have f0: "find (\<lambda>r. ro_id r = k) (filter (\<lambda>r. ro_id r \<noteq> rid) rs) = find (\<lambda>r. ro_id r = k) rs" for rs
    using \<open>k \<noteq> rid\<close> by (induction rs) auto
  have f1: "filter (\<lambda>r. rp_role_id r = k) (filter (\<lambda>rp. rp_role_id rp \<noteq> rid) rps) = filter (\<lambda>r. rp_role_id r = k) rps" for rps
    using \<open>k \<noteq> rid\<close> by (induction rps) auto
  have f2: "filter (\<lambda>r. rl_role_id r = k) (filter (\<lambda>rl. rl_role_id rl \<noteq> rid) rls) = filter (\<lambda>r. rl_role_id r = k) rls" for rls
    using \<open>k \<noteq> rid\<close> by (induction rls) auto
  show ?thesis using role_deleted(5)
    by (simp add: only_rbac_def role_policy_def find_role_def current_permission_codes_def role_limit_rows_def f0 f1 f2
        del: filter_filter)
next
  case (permissions_replaced rid role codes limits ps)
  with assms(2,3) find_roleD[OF permissions_replaced(1)] show ?thesis
    by (auto simp: only_rbac_def role_policy_def find_write_role bump_policy_def put_permissions_codes split: if_split_asm)
next
  case (limits_replaced rid role codes limits ls)
  with assms(2,3) find_roleD[OF limits_replaced(1)] show ?thesis
    by (auto simp: only_rbac_def role_policy_def find_write_role bump_policy_def put_limits_rows split: if_split_asm)
next
  case (policy_replaced rid role codes limits ps ls)
  with assms(2,3) find_roleD[OF policy_replaced(1)] show ?thesis
    by (auto simp: only_rbac_def role_policy_def find_write_role bump_policy_def put_limits_rows put_permissions_codes split: if_split_asm)
next
  case (user_created u rids)
  have "role_policy (b\<lparr>db_users := us, db_user_roles := urs\<rparr>) k = role_policy b k" for b us urs
    by (simp add: role_policy_def find_role_def current_permission_codes_def role_limit_rows_def)
  with user_created show ?thesis by (simp add: only_rbac_def)
next
  case (user_retired uid user payload)
  then show ?thesis unfolding user_retired(8) retire_rows_frame by simp
qed (simp_all add: only_rbac_def)

text \<open>Runs that keep the role.\<close>

definition role_step :: "crypto_ops \<Rightarrow> uuid \<Rightarrow> keys_db \<Rightarrow> keys_db \<Rightarrow> bool" where
  "role_step co rid db db' \<longleftrightarrow> (\<exists>now aid. admin_step co now aid db db') \<and> find_role (x_rbac db') rid \<noteq> None"

definition role_version :: "uuid \<Rightarrow> keys_db \<Rightarrow> int" where
  "role_version rid db = (case find_role (x_rbac db) rid of None \<Rightarrow> 0 | Some r \<Rightarrow> ro_policy_version r)"

lemma role_step_version:
  assumes "role_step co rid db db'" "find_role (x_rbac db) rid \<noteq> None"
  shows "role_version rid db \<le> role_version rid db'"
    "role_policy (x_rbac db') rid \<noteq> role_policy (x_rbac db) rid \<Longrightarrow> role_version rid db' = role_version rid db + 1"
proof -
  obtain now aid access where "admin_effect access now db db'"
    using assms(1) admin_step_effect same_core_effect unfolding role_step_def by blast
  note v = admin_effect_versions[OF this]
  obtain r r' where r: "find_role (x_rbac db) rid = Some r" "find_role (x_rbac db') rid = Some r'"
    using assms unfolding role_step_def by auto
  show "role_version rid db \<le> role_version rid db'"
    "role_policy (x_rbac db') rid \<noteq> role_policy (x_rbac db) rid \<Longrightarrow> role_version rid db' = role_version rid db + 1"
    using v[OF r] r by (auto simp: role_version_def role_policy_def)
qed

interpretation role_run: evolution "role_step co rid" "\<lambda>db. find_role (x_rbac db) rid \<noteq> None"
    "\<lambda>db db'. role_version rid db \<le> role_version rid db'" for co rid
proof unfold_locales
  show "role_version rid s \<le> role_version rid t" if "role_step co rid s t" "find_role (x_rbac s) rid \<noteq> None" for s t
    using role_step_version(1)[OF that] .
qed (auto simp: role_step_def)

lemma lock_role_stale:
  assumes "expected \<noteq> role_version rid db" "find_role (x_rbac db) rid \<noteq> None"
  shows "\<exists>e. lock_role db now access rid expected = Inl e"
proof (cases "lock_role db now access rid expected")
  case (Inr ar)
  then obtain a role where "lock_role db now access rid expected = Inr (a, role)" by (cases ar) auto
  from lock_roleD[OF this] assms(1) show ?thesis by (simp add: role_version_def)
qed simp

section \<open>Candidates for an assignment\<close>

lemma foldl_max_nat: "foldl max (a::nat) xs \<in> insert a (set xs)"
proof (induction xs arbitrary: a)
  case (Cons x xs)
  from Cons[of "max a x"] show ?case by (auto simp: max_def split: if_split_asm)
qed simp

lemma grant_not_denied:
  assumes su: "\<not> u_is_superuser (ac_user access)" and ok: "\<not> denied_knowledge_grant kb access r"
    and g: "g \<in> set (k_grants kb)" "kg_role_id g = ro_id r" "kg_knowledge_base_id g \<in> kb_id ` set (k_bases kb)"
  shows "is_ok (require_knowledge_base_access kb access (kg_knowledge_base_id g) (kg_access_level g))"
proof -
  let ?kid = "kg_knowledge_base_id g"
  have "\<exists>b \<in> set (k_bases kb). kb_id b = ?kid" using g(3) by auto
  then obtain b where b: "find (\<lambda>b. kb_id b = ?kid) (k_bases kb) = Some b" using find_ex_iff[of "\<lambda>b. kb_id b = ?kid"] by metis
  note m = find_Some_in_set[OF b]
  show ?thesis
  proof (cases "kb_owner_id b = u_id (ac_user access)")
    case True
    with b su show ?thesis by (simp add: reach_iff)
  next
    case False
    with ok g(1,2) m have "access_rank (kg_access_level g) \<le> foldl max 0 (map access_rank (granted_levels kb access ?kid))"
      unfolding denied_knowledge_grant_def by (metis not_less)
    moreover have "0 < access_rank (kg_access_level g)" by (cases "kg_access_level g") simp_all
    ultimately obtain l where "l \<in> set (granted_levels kb access ?kid)" "access_rank (kg_access_level g) \<le> access_rank l"
      using foldl_max_nat[of 0 "map access_rank (granted_levels kb access ?kid)"] by auto
    with b su show ?thesis unfolding reach_iff[OF su] by (auto simp: granted_levels_def)
  qed
qed

lemma assignable_role_passes:
  assumes "assignable_role b kb access r" "\<And>g. g \<in> set (k_grants kb) \<Longrightarrow> kg_knowledge_base_id g \<in> kb_id ` set (k_bases kb)"
  shows "ensure_roles_assignable b kb access [r] = Inr ()"
proof (cases "u_is_superuser (ac_user access)")
  case True
  then show ?thesis by (simp add: ensure_roles_assignable_def)
next
  case su: False
  with assms(1) have a: "\<not> ro_is_system r" "ro_priority r < ac_max_role_priority access" "\<not> denied_permission b access r"
    "\<not> denied_limit b access r" "\<not> denied_knowledge_grant kb access r" by (simp_all add: assignable_role_def)
  have codes: "allows access c" if "c \<in> set (current_permission_codes b (ro_id r))" for c
    using a(3) that by (auto simp: denied_permission_def allows_def has_permission_def)
  have limits: "\<not> over_limit v (own_limit access k)" if "(k, v) \<in> set (role_limit_rows b (ro_id r))" for k v
    using a(4) that unfolding denied_limit_def
    by (fastforce simp: own_limit_def over_limit_def split: option.split_asm option.split)
  have "fold_r (\<lambda>_ (kid, level). bind_r (require_knowledge_base_access kb access kid level) (\<lambda>_. Inr ())) ()
      (role_grant_rows kb [ro_id r]) = Inr ()"
    using grant_not_denied[OF su a(5)] assms(2) by (auto simp: fold_r_unit_ok bind_unit_ok role_grant_rows_def)
  with a(1,2) codes limits show ?thesis
    by (auto simp: ensure_roles_assignable_def ensure_kb_grants_delegable_def)
qed

section \<open>Properties\<close>

text \<open>C5. Delegation never escalates, with one disclosed exception: however administrators who are no superusers use the role and user routes and the grants of knowledge bases, in any order and interleaved with the other components, every permission, limit as the service enforces it, rank and access to an existing knowledge base that some user ends up with was held at the start by that user or by one of these administrators. The exception is a user who ends up with no \<open>file_count\<close> or no \<open>requests_per_minute\<close> limit at all: the service then applies the platform's maximum or its default, and an administrator can bring this about by removing a lower limit from a role.\<close>

theorem delegation_never_escalates:
  assumes "delegation_run co A db0 t0 db t" "admin_inv (x_rbac db0)" "limited A db0"
    and "concerns db0 cap" "\<not> u_is_superuser v" "capable sl db t v cap"
  shows "(\<exists>w. \<not> u_is_superuser w \<and> (u_id w = u_id v \<or> u_id w \<in> A) \<and> capable sl db0 t0 w cap) \<or>
    unlimited_by_default sl db t v cap"
proof (cases "unlimited_by_default sl db t v cap")
  case False
  have "entitled db t v cap" using capable_entitled[OF assms(6) False] .
  from delegation_run_bounded[OF assms(1-5) this] show ?thesis using entitled_capable[OF _ assms(6) False] by blast
qed simp

text \<open>C25. No lost update of a role: once a step has changed a role that was at some version, every later attempt to change, replace the policy of, or delete the role on the basis of that version is refused and writes nothing, as long as the role exists.\<close>

theorem role_policy_no_lost_update:
  assumes "find_role (x_rbac db) rid = Some r" "role_step co rid db db1"
    and "role_policy (x_rbac db1) rid \<noteq> role_policy (x_rbac db) rid" "(role_step co rid)\<^sup>*\<^sup>* db1 db2"
    and "rx_expected_version up = ro_policy_version r"
  shows "(\<exists>e. update_role co now rq a rid up db2 = (Inl e, db2)) \<and>
    (\<exists>e. delete_role co now rq a rid (ro_policy_version r) db2 = (Inl e, db2)) \<and>
    (\<exists>e. replace_permissions co now rq a rid (ro_policy_version r) codes db2 = (Inl e, db2)) \<and>
    (\<exists>e. replace_limits co now rq a rid (ro_policy_version r) limits db2 = (Inl e, db2)) \<and>
    (\<exists>e. replace_policy co now rq a rid (ro_policy_version r) codes limits db2 = (Inl e, db2))"
proof -
  have v: "role_version rid db = ro_policy_version r" using assms(1) by (simp add: role_version_def)
  have "role_version rid db1 = ro_policy_version r + 1"
    using role_step_version(2)[OF assms(2) _ assms(3)] assms(1) v by simp
  moreover have ex: "find_role (x_rbac db1) rid \<noteq> None" using assms(2) by (simp add: role_step_def)
  ultimately have "ro_policy_version r \<noteq> role_version rid db2" "find_role (x_rbac db2) rid \<noteq> None"
    using role_run.steps_evo[OF assms(4) ex] role_run.steps_inv[OF assms(4) ex] by simp_all
  from lock_role_stale[OF this, of now a] obtain e where l: "lock_role db2 now a rid (ro_policy_version r) = Inl e" by blast
  show ?thesis
    by (simp add: update_role_def delete_role_def replace_permissions_def replace_limits_def replace_policy_def assms(5) l or_rollback_def)
qed

text \<open>C27. Every role that the list of assignable roles offers a caller can be assigned by that caller: the filter of the listing query implies the checks that an assignment makes, on rank, permissions, limits and the knowledge bases the role grants.\<close>

theorem assignable_listing_sound:
  assumes "list_roles b kb access limit offset q True = Inr rows" "rr \<in> set rows"
    and "\<forall>g \<in> set (k_grants kb). kg_knowledge_base_id g \<in> kb_id ` set (k_bases kb)"
  shows "ensure_roles_assignable b kb access [rr_role rr] = Inr ()"
proof -
  have "rr_role rr \<in> set (db_roles b)" "assignable_role b kb access (rr_role rr)"
    using assms(1,2) by (auto simp: list_roles_def Let_def role_reads_def dest!: in_set_takeD in_set_dropD split: if_split_asm)
  with assms(3) show ?thesis by (intro assignable_role_passes) auto
qed

section \<open>Concrete runs\<close>

text \<open>A superuser, a manager and a member; the manager's role outranks the readers' role.\<close>

definition boss :: user where
  "boss = demo_user\<lparr>u_id := 2, u_email := ''boss@b''\<rparr>"

definition root_user :: user where
  "root_user = demo_user\<lparr>u_id := 1, u_email := ''root@b'', u_is_superuser := True\<rparr>"

definition office_rbac :: rbac_db where
  "office_rbac =
     \<lparr>db_users = [root_user, boss, demo_user],
      db_roles = [\<lparr>ro_id = 10, ro_code = ''manager'', ro_name = ''Manager'', ro_description = None, ro_priority = 100,
                   ro_is_system = False, ro_policy_version = 1\<rparr>,
                  \<lparr>ro_id = 11, ro_code = ''reader'', ro_name = ''Reader'', ro_description = None, ro_priority = 5,
                   ro_is_system = False, ro_policy_version = 1\<rparr>],
      db_permissions = [\<lparr>pe_id = 1, pe_code = ''role:manage'', pe_name = ''roles''\<rparr>, \<lparr>pe_id = 2, pe_code = ''role:assign'', pe_name = ''assign''\<rparr>,
                        \<lparr>pe_id = 3, pe_code = ''user:manage'', pe_name = ''users''\<rparr>, \<lparr>pe_id = 4, pe_code = ''knowledge:read'', pe_name = ''read''\<rparr>],
      db_user_roles = [\<lparr>ur_user_id = 2, ur_role_id = 10, ur_assigned_by = None, ur_expires_at = None\<rparr>],
      db_role_permissions = map (\<lambda>i. \<lparr>rp_role_id = 10, rp_permission_id = i\<rparr>) [1, 2, 3, 4] @ [\<lparr>rp_role_id = 11, rp_permission_id = 4\<rparr>],
      db_limit_definitions = [\<lparr>ld_id = 4, ld_key = ''files_per_day'', ld_unit = ''count'', ld_window = ''day''\<rparr>],
      db_role_limits = [\<lparr>rl_role_id = 10, rl_limit_definition_id = 4, rl_value = Some 20\<rparr>,
                        \<lparr>rl_role_id = 11, rl_limit_definition_id = 4, rl_value = Some 5\<rparr>],
      db_user_limit_overrides = []\<rparr>"

definition office_kb :: kb_db where
  "office_kb = kb_demo\<lparr>k_grants := [\<lparr>kg_knowledge_base_id = 2, kg_role_id = 10, kg_access_level = EDITOR, kg_granted_by = None\<rparr>,
     \<lparr>kg_knowledge_base_id = 2, kg_role_id = 11, kg_access_level = READER, kg_granted_by = None\<rparr>]\<rparr>"

definition office :: keys_db where
  "office = \<lparr>x_auth = demo_db\<lparr>a_rbac := office_rbac\<rparr>, x_kb = office_kb, x_llm = llm_demo, x_keys = []\<rparr>"

lemma x_rbac_office [simp]: "x_rbac office = office_rbac"
  by (simp add: x_rbac_def office_def)

lemma office_inv: "admin_inv office_rbac"
  by (simp add: admin_inv_def limit_tables_def office_rbac_def root_user_def boss_def demo_user_def)

lemma office_limited: "limited {2} office"
  by (simp add: limited_def office_rbac_def root_user_def boss_def demo_user_def)

definition by_user :: "user \<Rightarrow> access_context" where
  "by_user u = resolve office_rbac 0 u"

lemma by_user_id [simp]: "ac_user (by_user u) = u"
  by (simp add: by_user_def)

definition assigned :: "user_read keys_outcome" where
  "assigned = replace_user_roles tiny_crypto 5 None (by_user boss) 7 1 [11] office"

definition demo_service :: service_limits where
  "demo_service = \<lparr>platform_max_files_per_user = 100000, platform_max_upload_bytes = 2147483648, default_requests_per_minute = 60\<rparr>"

lemma assigned_ok: "is_ok (fst assigned)" "capable demo_service (snd assigned) 5 demo_user (CanDo ''knowledge:read'')"
  by code_simp+

theorem delegation_never_escalates_witness:
  "is_ok (fst assigned) \<and> capable demo_service (snd assigned) 5 demo_user (CanDo ''knowledge:read'') \<and>
   (\<exists>w. \<not> u_is_superuser w \<and> (u_id w = u_id demo_user \<or> u_id w \<in> {2}) \<and> capable demo_service office 0 w (CanDo ''knowledge:read''))"
proof -
  have step: "admin_step tiny_crypto 5 2 office (snd assigned)"
    by (rule admin_step.replace_user_roles[of _ _ None "by_user boss" 7 1 "[11]" office "fst assigned"])
      (simp_all add: assigned_def boss_def)
  have run: "delegation_run tiny_crypto {2} office 0 (snd assigned) 5"
    by (rule delegation_run.administer[OF delegation_run.start _ _ step]) simp_all
  show ?thesis
    using delegation_never_escalates[OF run _ office_limited _ _ assigned_ok(2)] assigned_ok office_inv
    by (simp add: demo_user_def concerns_def unlimited_by_default_def)
qed

text \<open>
  The exception is real: a reader throttled to five requests a minute gets sixty when an administrator, who has twenty, removes
  the limits of the reader role.
\<close>

definition throttled :: keys_db where
  "throttled = office\<lparr>x_auth := demo_db\<lparr>a_rbac := office_rbac
     \<lparr>db_user_roles := \<lparr>ur_user_id = 7, ur_role_id = 11, ur_assigned_by = None, ur_expires_at = None\<rparr> # db_user_roles office_rbac,
      db_limit_definitions := [\<lparr>ld_id = 4, ld_key = ''requests_per_minute'', ld_unit = ''count'', ld_window = ''minute''\<rparr>]\<rparr>\<rparr>\<rparr>"

definition unthrottled :: "role_read keys_outcome" where
  "unthrottled = replace_limits tiny_crypto 5 None (by_user boss) 11 1 [] throttled"

theorem removed_limit_raises_user:
  "is_ok (fst unthrottled) \<and> capable demo_service (snd unthrottled) 5 demo_user (CanUse ''requests_per_minute'' (Some 60)) \<and>
   \<not> capable demo_service throttled 5 demo_user (CanUse ''requests_per_minute'' (Some 6)) \<and>
   \<not> capable demo_service throttled 5 boss (CanUse ''requests_per_minute'' (Some 60))"
  by code_simp

definition changed :: "role_read keys_outcome" where
  "changed = replace_permissions tiny_crypto 5 None (by_user boss) 11 1 [] office"

definition stale_update :: role_update where
  "stale_update = \<lparr>rx_expected_version = 1, rx_name = Some ''Guest'', rx_description = None, rx_priority = None\<rparr>"

lemma changed_facts:
  "find_role (x_rbac (snd changed)) 11 \<noteq> None"
  "role_policy (x_rbac (snd changed)) 11 \<noteq> role_policy (x_rbac office) 11"
  by code_simp+

theorem role_policy_no_lost_update_witness:
  "\<exists>e. update_role tiny_crypto 6 None (by_user root_user) 11 stale_update (snd changed) = (Inl e, snd changed)"
proof -
  have step: "role_step tiny_crypto 11 office (snd changed)"
    unfolding role_step_def using changed_facts(1)
      admin_step.replace_permissions[of tiny_crypto 5 None "by_user boss" 11 1 "[]" office "fst changed" "snd changed" 2]
    by (auto simp: changed_def boss_def)
  have role: "find_role (x_rbac office) 11 = Some \<lparr>ro_id = 11, ro_code = ''reader'', ro_name = ''Reader'', ro_description = None,
      ro_priority = 5, ro_is_system = False, ro_policy_version = 1\<rparr>"
    by (simp add: find_role_def office_rbac_def)
  show ?thesis
    using role_policy_no_lost_update[OF role step changed_facts(2) rtranclp.rtrancl_refl, of stale_update 6 None "by_user root_user"]
    by (simp add: stale_update_def)
qed

theorem assignable_listing_sound_witness:
  "ensure_roles_assignable office_rbac office_kb (by_user boss)
     [\<lparr>ro_id = 11, ro_code = ''reader'', ro_name = ''Reader'', ro_description = None, ro_priority = 5, ro_is_system = False,
       ro_policy_version = 1\<rparr>] = Inr ()"
proof -
  have "list_roles office_rbac office_kb (by_user boss) 10 0 None True = Inr [\<lparr>rr_role = \<lparr>ro_id = 11, ro_code = ''reader'',
      ro_name = ''Reader'', ro_description = None, ro_priority = 5, ro_is_system = False, ro_policy_version = 1\<rparr>,
      rr_permission_codes = [''knowledge:read''], rr_limits = [(''files_per_day'', Some 5)]\<rparr>]"
    by code_simp
  from assignable_listing_sound[OF this, simplified] show ?thesis by (simp add: office_kb_def kb_demo_def)
qed

end
