(* ===== verification/Account_Safety.thy ===== *)
theory Account_Safety
  imports Admin_Safety
begin

text \<open>
  Accounts over their life. A run interleaves administration, sessions (login, refresh, logout), API-key management and
  transactions of other components. What holds along every run: the last superuser survives, a retired account stays
  retired without roles, sessions, keys or knowledge bases, and a new password ends every session of the account.
\<close>

section \<open>Sessions and keys as account changes\<close>

definition keeps_account :: "(user \<Rightarrow> user) \<Rightarrow> bool" where
  "keeps_account f \<longleftrightarrow> (\<forall>u. u_id (f u) = u_id u \<and> u_is_superuser (f u) = u_is_superuser u \<and> u_status (f u) = u_status u \<and>
     u_retired_at (f u) = u_retired_at u \<and> u_token_version u \<le> u_token_version (f u))"

definition session_change :: "auth_db \<Rightarrow> auth_db \<Rightarrow> bool" where
  "session_change a a' \<longleftrightarrow>
     (\<exists>p f. keeps_account f \<and> a_rbac a' = a_rbac a\<lparr>db_users := update_where p f (db_users (a_rbac a))\<rparr>) \<and>
     (\<forall>t \<in> set (a_tokens a'). rt_revoked_at t = None \<longrightarrow>
        (\<exists>s \<in> set (a_tokens a). rt_user_id s = rt_user_id t \<and> rt_revoked_at s = None) \<or>
        (\<exists>u \<in> set (db_users (a_rbac a)). u_id u = rt_user_id t \<and> active_user u))"

lemma same_users: "\<exists>p f. keeps_account f \<and> b = b\<lparr>db_users := update_where p f (db_users b)\<rparr>"
  by (rule exI[of _ "\<lambda>_. False"], rule exI[of _ id]) (simp add: keeps_account_def update_where_none)

lemma revoking_keeps_live:
  assumes "t \<in> set (update_where p f ts)" "rt_revoked_at t = None" "only_revokes f"
  shows "\<exists>s \<in> set ts. rt_user_id s = rt_user_id t \<and> rt_revoked_at s = None"
  using assms(1)
proof (cases rule: in_update_whereE)
  case (1 r0)
  with assms(2,3) show ?thesis by (intro bexI[of _ r0]) (auto simp: only_revokes_def)
qed (use assms(2) in blast)

lemma auth_step_session: "auth_step ops a a' \<Longrightarrow> session_change a a'"
proof (erule auth_stepE)
  fix co st now fr rq name pw r res r'
  assume "login co ops st now fr rq name pw a r = (res, a', r')"
  then show ?thesis
  proof (cases rule: login_outcomes)
    case (denied e)
    then show ?thesis using same_users by (auto simp: session_change_def)
  next
    case (accepted user pair rec db1)
    note i = insert_tokenD[OF accepted(7)] and m = mint_pair_record[OF accepted(6)]
    have "a_rbac a' = a_rbac a\<lparr>db_users := update_where (\<lambda>u. u_id u = u_id user) (\<lambda>u. u\<lparr>u_last_login_at := Some now\<rparr>) (db_users (a_rbac a))\<rparr>"
      using accepted i by (simp add: write_user_def)
    moreover have "keeps_account (\<lambda>u. u\<lparr>u_last_login_at := Some now\<rparr>)" by (simp add: keeps_account_def)
    ultimately show ?thesis using accepted i m unfolding session_change_def by auto
  qed
next
  fix co st now fr rq token r res r'
  assume "refresh_tokens co ops st now fr rq token a r = (res, a', r')"
  then show ?thesis
  proof (cases rule: refresh_outcomes)
    case (refused e)
    then show ?thesis using same_users by (auto simp: session_change_def)
  next
    case (reuse claims user rec)
    have "a_rbac a' = a_rbac a\<lparr>db_users := update_where (\<lambda>u. u_id u = u_id user) (\<lambda>u. u\<lparr>u_token_version := u_token_version u + 1\<rparr>) (db_users (a_rbac a))\<rparr>"
      unfolding reuse by (simp add: detect_reuse_def Let_def write_user_def)
    moreover have "keeps_account (\<lambda>u. u\<lparr>u_token_version := u_token_version u + 1\<rparr>)" by (simp add: keeps_account_def)
    ultimately show ?thesis unfolding session_change_def reuse(7) detect_reuse_tokens using revoking_keeps_live by (auto; fastforce)
  next
    case (rotated claims user rec pair)
    from rotateD[OF rotated(10)] obtain repl where t: "a_tokens a' = update_where (\<lambda>t. rt_id t = rt_id rec) (\<lambda>t. t\<lparr>rt_replaced_by_id := Some (rt_id repl)\<rparr>)
       (update_where (\<lambda>t. rt_id t = rt_id rec) (\<lambda>t. t\<lparr>rt_revoked_at := Some now\<rparr>) (a_tokens a) @ [repl])"
      "a_rbac a' = a_rbac a" "rt_user_id repl = u_id user" by metis
    have "(\<exists>s \<in> set (a_tokens a). rt_user_id s = rt_user_id t \<and> rt_revoked_at s = None) \<or>
        (\<exists>u \<in> set (db_users (a_rbac a)). u_id u = rt_user_id t \<and> active_user u)"
      if "t \<in> set (a_tokens a')" "rt_revoked_at t = None" for t
      using that find_user_id[OF rotated(3)] rotated(8) t(3) unfolding t(1) by (auto elim!: in_update_whereE split: if_split_asm)
    then show ?thesis unfolding session_change_def t(2) using same_users by blast
  qed
next
  fix co now rq token assume a': "a' = logout co now rq token a"
  obtain p where "a_tokens a' = update_where p (\<lambda>t. t\<lparr>rt_revoked_at := Some now\<rparr>) (a_tokens a)"
    using logout_tokens(1) a' by blast
  then show ?thesis unfolding session_change_def using same_users[of "a_rbac a"] logout_tokens(2) a' revoking_keeps_live by (auto; fastforce)
qed

declare x_rbac_updates [simp]

definition key_change :: "keys_db \<Rightarrow> keys_db \<Rightarrow> bool" where
  "key_change db db' \<longleftrightarrow> x_rbac db' = x_rbac db \<and> x_kb db' = x_kb db \<and> a_tokens (x_auth db') = a_tokens (x_auth db) \<and>
     (\<forall>k \<in> set (x_keys db'). ak_revoked_at k = None \<longrightarrow>
        (\<exists>j \<in> set (x_keys db). ak_user_id j = ak_user_id k \<and> ak_revoked_at j = None) \<or>
        (\<exists>u \<in> set (db_users (x_rbac db)). u_id u = ak_user_id k \<and> active_user u))"

lemma key_change_same: "same_core db db' \<Longrightarrow> key_change db db'"
  by (auto simp: key_change_def same_core_def)

lemma insert_keyD: "insert_key k db = Inr db1 \<Longrightarrow> db1 = db\<lparr>x_keys := x_keys db @ [k]\<rparr>"
  by (auto simp: insert_key_def split: if_split_asm)

lemma create_key_change:
  assumes "create_api_key co now ids rq access payload db = (res, db')"
  shows "key_change db db'"
proof (cases res)
  case (Inl e)
  then have "db' = db" using assms unfolding create_api_key_def by (auto elim: or_rollback_cases)
  then show ?thesis by (simp add: key_change_same)
next
  case (Inr kc)
  obtain key clear where kc: "kc = (key, clear)" by (cases kc)
  have frame: "x_rbac db' = x_rbac db \<and> x_kb db' = x_kb db \<and> a_tokens (x_auth db') = a_tokens (x_auth db)"
    using assms unfolding create_api_key_def Let_def
    by (auto simp: or_rollback_def result_simps generate_api_key_def Let_def dest!: insert_keyD
        split: sum.split_asm if_split_asm prod.split_asm)
  obtain current target db1 where "lock_api_key_creation db now access
      (case ck_user_id payload of None \<Rightarrow> u_id (ac_user access) | Some u \<Rightarrow> u) = Inr (current, target)"
    "ak_user_id key = u_id target" "insert_key key db = Inr db1" "x_keys db' = x_keys db1"
    using createD[OF assms[unfolded Inr kc]] by metis
  moreover from this have "target \<in> set (db_users (x_rbac db))" "active_user target"
    using lock_creationD[of db now access _ current target] by (auto simp: x_rbac_def dest: find_user_id)
  ultimately show ?thesis using frame by (auto simp: key_change_def dest!: insert_keyD)
qed

lemma revoked_keys_live:
  assumes "k \<in> set (update_where p (\<lambda>k. k\<lparr>ak_revoked_at := Some now\<rparr>) ks)" "ak_revoked_at k = None"
  shows "k \<in> set ks"
  using assms by (auto elim!: in_update_whereE)

lemma rotate_key_change:
  assumes "rotate_api_key co now ids rq access kid db = (res, db')"
  shows "key_change db db'"
proof (cases "lock_api_key_mutation db now access kid")
  case (Inl e)
  with assms show ?thesis by (simp add: rotate_api_key_def key_change_same)
next
  case (Inr t)
  obtain previous current target where t: "t = (previous, current, target)" by (cases t)
  have l: "find_user (x_auth db) (ak_user_id previous) = Some target" using lock_mutationD[OF Inr[unfolded t]] by blast
  let ?deny = "deny_if_active_external_llm_egress co now (ac_user current) rq (key_revocation co ''api_key_rotation'' (ak_id previous)) db"
  let ?new = "replacement_key co now ids (u_id (ac_user current)) previous"
  consider "same_core db db'" | "active_user target" "or_rollback db (rotate_rows co now rq (u_id (ac_user current)) previous ?new db) = (res, db')"
    using assms Inr t deny_same by (cases ?deny) (auto simp: rotate_api_key_def split: if_split_asm)
  then show ?thesis
  proof cases
    case 1
    then show ?thesis by (rule key_change_same)
  next
    case 2
    from 2(2) show ?thesis
    proof (cases rule: or_rollback_cases)
      case (1 e)
      then show ?thesis by (simp add: key_change_same)
    next
      case r: (2 x)
      have own: "ak_user_id (fst ?new) = ak_user_id previous" by (simp add: replacement_key_def split: prod.split)
      from r have "x_keys db' = update_where (\<lambda>k. ak_id k = ak_id previous) (\<lambda>k. k\<lparr>ak_revoked_at := Some now\<rparr>) (x_keys db) @ [fst ?new]"
        "x_rbac db' = x_rbac db" "x_kb db' = x_kb db" "a_tokens (x_auth db') = a_tokens (x_auth db)"
        by (auto simp: rotate_rows_def Let_def bind_r_eq_Inr dest!: insert_keyD)
      with own 2(1) find_user_id[OF l] show ?thesis
        by (auto simp: key_change_def x_rbac_def dest: revoked_keys_live)
    qed
  qed
qed

lemma revoke_key_change:
  assumes "revoke_api_key co now rq access kid db = (res, db')"
  shows "key_change db db'"
proof (cases "lock_api_key_mutation db now access kid")
  case (Inl e)
  with assms show ?thesis by (simp add: revoke_api_key_def key_change_same)
next
  case (Inr t)
  obtain key current target where t: "t = (key, current, target)" by (cases t)
  let ?deny = "deny_if_active_external_llm_egress co now (ac_user current) rq (key_revocation co ''api_key'' (ak_id key)) db"
  consider "same_core db db'" | "x_keys db' = update_where (\<lambda>k. ak_id k = ak_id key) (\<lambda>k. k\<lparr>ak_revoked_at := Some now\<rparr>) (x_keys db)"
      "x_rbac db' = x_rbac db" "x_kb db' = x_kb db" "a_tokens (x_auth db') = a_tokens (x_auth db)"
    using assms Inr t deny_same by (cases ?deny) (auto simp: revoke_api_key_def split: if_split_asm)
  then show ?thesis
  proof cases
    case 1
    then show ?thesis by (rule key_change_same)
  next
    case 2
    then show ?thesis by (auto simp: key_change_def dest: revoked_keys_live)
  qed
qed

lemma authenticate_key_change:
  assumes "authenticate_api_key co now t db = Inr (ax, db')"
  shows "key_change db db'"
proof -
  have frame: "x_rbac db' = x_rbac db \<and> x_kb db' = x_kb db \<and> a_tokens (x_auth db') = a_tokens (x_auth db)"
    using assms by (simp add: authenticate_api_key_def Let_def split: option.split_asm if_split_asm)
      (elim conjE, hypsubst, simp)+
  obtain sec key where k: "find (\<lambda>k. ak_key_hash k = api_key_hash co sec) (x_keys db) = Some key" "ak_revoked_at key = None"
    and rows: "x_keys db' = x_keys db \<or>
     x_keys db' = update_where (\<lambda>k. ak_id k = ak_id key) (\<lambda>_. key\<lparr>ak_last_used_at := Some now\<rparr>) (x_keys db)"
    by (rule authenticateD[OF assms]) (rule that; assumption)
  have "\<exists>j \<in> set (x_keys db). ak_user_id j = ak_user_id k' \<and> ak_revoked_at j = None"
    if "k' \<in> set (x_keys db')" "ak_revoked_at k' = None" for k'
    using rows
  proof
    assume "x_keys db' = x_keys db"
    with that show ?thesis by (intro bexI[of _ k']) simp_all
  next
    assume "x_keys db' = update_where (\<lambda>k. ak_id k = ak_id key) (\<lambda>_. key\<lparr>ak_last_used_at := Some now\<rparr>) (x_keys db)"
    with that(1) have "k' = key\<lparr>ak_last_used_at := Some now\<rparr> \<or> k' \<in> set (x_keys db)" by (auto elim!: in_update_whereE)
    then show ?thesis
    proof
      assume "k' = key\<lparr>ak_last_used_at := Some now\<rparr>"
      then show ?thesis using k(2) find_Some_in_set[OF k(1)] by (intro bexI[of _ key]) simp_all
    qed (use that(2) in \<open>intro bexI[of _ k'], simp_all\<close>)
  qed
  with frame show ?thesis by (auto simp: key_change_def)
qed

section \<open>Runs over accounts\<close>

inductive account_step :: "'r redis_ops \<Rightarrow> crypto_ops \<Rightarrow> keys_db \<Rightarrow> keys_db \<Rightarrow> bool"
  for ops :: "'r redis_ops" and co :: crypto_ops and db :: keys_db where
  administration: "admin_step co now aid db db' \<Longrightarrow> account_step ops co db db'"
| session: "auth_step ops (x_auth db) a \<Longrightarrow> account_step ops co db (db\<lparr>x_auth := a\<rparr>)"
| key_created: "create_api_key co now ids rq access payload db = (res, db') \<Longrightarrow> account_step ops co db db'"
| key_rotated: "rotate_api_key co now ids rq access kid db = (res2, db') \<Longrightarrow> account_step ops co db db'"
| key_revoked: "revoke_api_key co now rq access kid db = (res3, db') \<Longrightarrow> account_step ops co db db'"
| key_used: "authenticate_api_key co now tok db = Inr (ax, db') \<Longrightarrow> account_step ops co db db'"
| elsewhere: "x_rbac db' = x_rbac db \<Longrightarrow> x_keys db' = x_keys db \<Longrightarrow> a_tokens (x_auth db') = a_tokens (x_auth db) \<Longrightarrow>
    \<forall>b \<in> set (k_bases (x_kb db')). kb_owner_id b \<in> kb_owner_id ` set (k_bases (x_kb db)) \<or>
      (\<exists>u \<in> set (db_users (x_rbac db)). u_id u = kb_owner_id b \<and> active_user u) \<Longrightarrow>
    account_step ops co db db'"

inductive_cases account_stepE: "account_step ops co db db'"

text \<open>The four kinds of change a step is.\<close>

lemma account_step_cases:
  assumes "account_step ops co db db'"
  obtains (admin) access now where "admin_effect access now db db'"
  | (sess) a where "session_change (x_auth db) a" "db' = db\<lparr>x_auth := a\<rparr>"
  | (key) "key_change db db'"
  | (other) "x_rbac db' = x_rbac db" "x_keys db' = x_keys db" "a_tokens (x_auth db') = a_tokens (x_auth db)"
      "\<forall>b \<in> set (k_bases (x_kb db')). kb_owner_id b \<in> kb_owner_id ` set (k_bases (x_kb db)) \<or>
        (\<exists>u \<in> set (db_users (x_rbac db)). u_id u = kb_owner_id b \<and> active_user u)"
  using assms
proof cases
  case (administration now aid)
  then show thesis using admin_step_effect admin same_core_effect by blast
next
  case (session a)
  then show thesis using sess auth_step_session by blast
qed (blast intro: key other create_key_change rotate_key_change revoke_key_change authenticate_key_change)+

section \<open>Invariants of accounts\<close>

definition user_ids :: "keys_db \<Rightarrow> uuid set" where
  "user_ids db = u_id ` set (db_users (x_rbac db))"

lemma store_user_ids [simp]: "u_id u = i \<Longrightarrow> u_id ` set (update_where (\<lambda>x. u_id x = i) (\<lambda>_. u) us) = u_id ` set us"
  by (rule key_image_update_where) simp

lemma admin_effect_ids: "admin_effect access now db db' \<Longrightarrow> user_ids db \<subseteq> user_ids db'"
proof (erule admin_effect.cases)
  fix uid user payload
  assume r: "x_rbac db' = x_rbac (retire_rows now (u_id (ac_user access)) payload user db)"
  show ?thesis unfolding user_ids_def r retire_rows_frame by simp
qed (auto simp: same_core_def only_rbac_def user_ids_def write_role_def put_limits_def put_permissions_def)

lemma session_users:
  assumes "session_change a a'" "u' \<in> set (db_users (a_rbac a'))"
  obtains u where "u \<in> set (db_users (a_rbac a))" "row_changed u u'" "active_user u' = active_user u"
proof -
  from assms obtain p f where f: "keeps_account f" "u' \<in> set (update_where p f (db_users (a_rbac a)))"
    by (auto simp: session_change_def)
  from f(2) show thesis
  proof (cases rule: in_update_whereE)
    case (1 r0)
    with f(1) show thesis by (intro that[of r0]) (auto simp: keeps_account_def row_changed_def active_user_def)
  next
    case 2
    then show thesis by (intro that[of u']) simp_all
  qed
qed

lemma session_tables:
  assumes "session_change a a'"
  shows "db_user_roles (a_rbac a') = db_user_roles (a_rbac a)" "u_id ` set (db_users (a_rbac a')) = u_id ` set (db_users (a_rbac a))"
    "admin_inv (a_rbac a) \<Longrightarrow> admin_inv (a_rbac a')"
proof -
  from assms obtain p f where f: "keeps_account f" "a_rbac a' = a_rbac a\<lparr>db_users := update_where p f (db_users (a_rbac a))\<rparr>"
    by (auto simp: session_change_def)
  have ids: "u_id (f u) = u_id u" for u using f(1) by (simp add: keeps_account_def)
  show "db_user_roles (a_rbac a') = db_user_roles (a_rbac a)" by (simp add: f(2))
  show "u_id ` set (db_users (a_rbac a')) = u_id ` set (db_users (a_rbac a))" by (simp add: f(2) key_image_update_where ids)
  show "admin_inv (a_rbac a) \<Longrightarrow> admin_inv (a_rbac a')"
    by (simp add: f(2) admin_inv_def limit_tables_def keyed_update_where ids)
qed

text \<open>Every account row comes from an earlier version of itself, or is new.\<close>

lemma account_step_users:
  assumes "account_step ops co db db'" "u' \<in> set (db_users (x_rbac db'))"
  shows "(\<exists>u \<in> set (db_users (x_rbac db)). row_changed u u') \<or> u_id u' \<notin> user_ids db \<and> u_retired_at u' = None \<and> \<not> u_is_superuser u'"
  using assms(1)
proof (cases rule: account_step_cases)
  case (admin access now)
  then show ?thesis using admin_effect_users[OF admin assms(2)] by (auto simp: user_ids_def)
next
  case (sess a)
  have "u' \<in> set (db_users (a_rbac a))" using assms(2) sess(2) by simp
  from session_users[OF sess(1) this] show ?thesis by (auto simp: x_rbac_def)
next
  case key
  then show ?thesis using assms(2) by (auto simp: key_change_def intro!: bexI[of _ u'])
next
  case other
  then show ?thesis using assms(2) by (auto intro!: bexI[of _ u'])
qed

lemma account_step_inv:
  assumes "account_step ops co db db'" "admin_inv (x_rbac db)"
  shows "admin_inv (x_rbac db') \<and> user_ids db \<subseteq> user_ids db'"
  using assms(1)
proof (cases rule: account_step_cases)
  case (admin access now)
  with assms(2) show ?thesis using admin_effect_inv admin_effect_ids by blast
next
  case (sess a)
  with session_tables[OF sess(1)] assms(2) show ?thesis by (simp add: user_ids_def x_rbac_def)
qed (use assms(2) in \<open>auto simp: key_change_def user_ids_def\<close>)

text \<open>An account without anything left.\<close>

definition gone :: "uuid \<Rightarrow> keys_db \<Rightarrow> bool" where
  "gone uid db \<longleftrightarrow> uid \<in> user_ids db \<and>
     (\<forall>u \<in> set (db_users (x_rbac db)). u_id u = uid \<longrightarrow> u_retired_at u \<noteq> None \<and> u_status u = USER_DISABLED) \<and>
     (\<forall>ur \<in> set (db_user_roles (x_rbac db)). ur_user_id ur \<noteq> uid) \<and>
     (\<forall>t \<in> set (a_tokens (x_auth db)). rt_user_id t = uid \<longrightarrow> rt_revoked_at t \<noteq> None) \<and>
     (\<forall>k \<in> set (x_keys db). ak_user_id k = uid \<longrightarrow> ak_revoked_at k \<noteq> None) \<and>
     (\<forall>b \<in> set (k_bases (x_kb db)). kb_owner_id b \<noteq> uid)"

lemma gone_inactive: "gone uid db \<Longrightarrow> u \<in> set (db_users (x_rbac db)) \<Longrightarrow> active_user u \<Longrightarrow> u_id u \<noteq> uid"
  by (auto simp: gone_def active_user_def)

lemma gone_users:
  assumes "gone uid db" "account_step ops co db db'" "u' \<in> set (db_users (x_rbac db'))" "u_id u' = uid"
  shows "u_retired_at u' \<noteq> None \<and> u_status u' = USER_DISABLED"
  using account_step_users[OF assms(2,3)] assms(1,4) by (auto simp: gone_def row_changed_def)

lemma gone_admin_roles:
  assumes "admin_effect access now db db'" "gone uid db" "ur \<in> set (db_user_roles (x_rbac db'))"
  shows "ur_user_id ur \<noteq> uid"
  using assms(1)
proof cases
  case (user_created u rids)
  with assms(2,3) show ?thesis by (auto simp: only_rbac_def gone_def assign_rows_def user_ids_def)
next
  case (user_retired v user payload)
  with assms(2,3) show ?thesis by (auto simp: retire_rows_frame gone_def)
next
  case (roles_replaced v user rids)
  have "v = uid \<Longrightarrow> rids = []"
    using roles_replaced(3) assms(2) find_user_id[OF roles_replaced(1)] by (auto simp: gone_def x_rbac_def)
  with roles_replaced assms(2,3) show ?thesis by (auto simp: only_rbac_def gone_def assign_rows_def)
qed (use assms(2,3) in \<open>auto simp: gone_def same_core_def only_rbac_def write_role_def put_limits_def put_permissions_def\<close>)

lemma revoke_tokens_live:
  "t \<in> set (revoke_tokens now v ts) \<Longrightarrow> rt_revoked_at t = None \<Longrightarrow> t \<in> set ts \<and> rt_user_id t \<noteq> v"
  by (auto simp: revoke_tokens_def elim!: in_update_whereE)

lemma revoke_keys_live: "k \<in> set (revoke_keys now v ks) \<Longrightarrow> ak_revoked_at k = None \<Longrightarrow> k \<in> set ks \<and> ak_user_id k \<noteq> v"
  by (auto simp: revoke_keys_def elim!: in_update_whereE)

lemma gone_admin_rest:
  assumes "admin_effect access now db db'" "gone uid db"
  shows "t \<in> set (a_tokens (x_auth db')) \<Longrightarrow> rt_user_id t = uid \<Longrightarrow> rt_revoked_at t \<noteq> None"
    "k \<in> set (x_keys db') \<Longrightarrow> ak_user_id k = uid \<Longrightarrow> ak_revoked_at k \<noteq> None"
    "b \<in> set (k_bases (x_kb db')) \<Longrightarrow> kb_owner_id b \<noteq> uid"
proof -
  note g = assms(2)[unfolded gone_def]
  have T: "t \<in> set (a_tokens (x_auth db')) \<longrightarrow> rt_user_id t = uid \<longrightarrow> rt_revoked_at t \<noteq> None"
    and K: "k \<in> set (x_keys db') \<longrightarrow> ak_user_id k = uid \<longrightarrow> ak_revoked_at k \<noteq> None"
    and B: "b \<in> set (k_bases (x_kb db')) \<longrightarrow> kb_owner_id b \<noteq> uid"
    using assms(1)
  proof (atomize (full), cases)
    case (user_retired v user payload)
    have rep: "ut_replacement_owner_id payload \<noteq> Some uid"
    proof
      assume "ut_replacement_owner_id payload = Some uid"
      then obtain x where x: "find_user (x_auth db) uid = Some x" "active_user x" using user_retired(7) by blast
      have "x \<in> set (db_users (x_rbac db))" "u_id x = uid" using find_user_id[OF x(1)] by (simp_all add: x_rbac_def)
      with gone_inactive[OF assms(2) _ x(2)] show False by blast
    qed
    show "(t \<in> set (a_tokens (x_auth db')) \<longrightarrow> rt_user_id t = uid \<longrightarrow> rt_revoked_at t \<noteq> None) \<and>
      (k \<in> set (x_keys db') \<longrightarrow> ak_user_id k = uid \<longrightarrow> ak_revoked_at k \<noteq> None) \<and>
      (b \<in> set (k_bases (x_kb db')) \<longrightarrow> kb_owner_id b \<noteq> uid)"
      unfolding user_retired(8-11) retire_rows_frame using g rep
      by (auto dest: revoke_tokens_live revoke_keys_live simp: transfer_owned_def elim!: in_update_whereE split: option.split_asm)
  next
    case (password_replaced v user h)
    with g show "(t \<in> set (a_tokens (x_auth db')) \<longrightarrow> rt_user_id t = uid \<longrightarrow> rt_revoked_at t \<noteq> None) \<and>
      (k \<in> set (x_keys db') \<longrightarrow> ak_user_id k = uid \<longrightarrow> ak_revoked_at k \<noteq> None) \<and>
      (b \<in> set (k_bases (x_kb db')) \<longrightarrow> kb_owner_id b \<noteq> uid)" by (auto dest: revoke_tokens_live)
  qed (use g in \<open>auto simp: same_core_def only_rbac_def write_kb_frame put_grants_def bump_grants_def elim!: in_update_whereE\<close>)
  from T K B show "t \<in> set (a_tokens (x_auth db')) \<Longrightarrow> rt_user_id t = uid \<Longrightarrow> rt_revoked_at t \<noteq> None"
    "k \<in> set (x_keys db') \<Longrightarrow> ak_user_id k = uid \<Longrightarrow> ak_revoked_at k \<noteq> None"
    "b \<in> set (k_bases (x_kb db')) \<Longrightarrow> kb_owner_id b \<noteq> uid" by blast+
qed

lemma gone_step:
  assumes step: "account_step ops co db db'" and inv: "admin_inv (x_rbac db)" and g: "gone uid db"
  shows "gone uid db'"
proof -
  note d = g[unfolded gone_def]
  have inact: "\<not> active_user u" if "u \<in> set (db_users (x_rbac db))" "u_id u = uid" for u
    using gone_inactive[OF g that(1)] that(2) by blast
  have ids: "uid \<in> user_ids db'" using account_step_inv[OF step inv] d by blast
  have rest: "(\<forall>ur \<in> set (db_user_roles (x_rbac db')). ur_user_id ur \<noteq> uid) \<and>
     (\<forall>t \<in> set (a_tokens (x_auth db')). rt_user_id t = uid \<longrightarrow> rt_revoked_at t \<noteq> None) \<and>
     (\<forall>k \<in> set (x_keys db'). ak_user_id k = uid \<longrightarrow> ak_revoked_at k \<noteq> None) \<and>
     (\<forall>b \<in> set (k_bases (x_kb db')). kb_owner_id b \<noteq> uid)"
    using step
  proof (cases rule: account_step_cases)
    case (admin access now)
    then show ?thesis using gone_admin_roles[OF admin g] gone_admin_rest[OF admin g] by blast
  next
    case (sess a)
    have "\<forall>t \<in> set (a_tokens a). rt_user_id t = uid \<longrightarrow> rt_revoked_at t \<noteq> None"
      using sess(1) d inact unfolding session_change_def x_rbac_def by metis
    then show ?thesis using d session_tables(1)[OF sess(1)] by (simp add: sess(2) x_rbac_def)
  next
    case key
    have "\<forall>k \<in> set (x_keys db'). ak_user_id k = uid \<longrightarrow> ak_revoked_at k \<noteq> None"
      using key d inact unfolding key_change_def by metis
    then show ?thesis using key d by (simp add: key_change_def)
  next
    case other
    then show ?thesis using d inact by fastforce
  qed
  with ids gone_users[OF g step] show ?thesis unfolding gone_def by blast
qed

text \<open>In every reachable state the retired accounts are gone.\<close>

definition account_inv :: "keys_db \<Rightarrow> bool" where
  "account_inv db \<longleftrightarrow> admin_inv (x_rbac db) \<and> (\<forall>u \<in> set (db_users (x_rbac db)). u_retired_at u \<noteq> None \<longrightarrow> gone (u_id u) db)"

lemma account_rows [simp]:
  "u_id (retired_user now a p h u) = u_id u" "u_retired_at (retired_user now a p h u) = Some now"
  "u_status (retired_user now a p h u) = USER_DISABLED" "u_is_superuser (retired_user now a p h u) = u_is_superuser u"
  "u_id (updated_user x u) = u_id u" "u_retired_at (updated_user x u) = u_retired_at u"
  "u_is_superuser (updated_user x u) = u_is_superuser u"
  by (simp_all add: retired_user_def updated_user_def Let_def split: option.split)

lemma in_store_user:
  "x \<in> set (update_where (\<lambda>x. u_id x = i) (\<lambda>_. u) us) \<Longrightarrow> x = u \<and> i \<in> u_id ` set us \<or> x \<in> set us \<and> u_id x \<noteq> i"
  by (auto elim!: in_update_whereE)

lemma user_retired_gone:
  assumes "find_user (x_auth db) uid = Some user" "admin_inv (x_rbac db)"
    "owned_knowledge_bases (x_kb db) uid \<noteq> [] \<longrightarrow> ut_replacement_owner_id payload \<noteq> None"
    "\<forall>r. ut_replacement_owner_id payload = Some r \<longrightarrow> (\<exists>x. find_user (x_auth db) r = Some x \<and> active_user x \<and> u_id x \<noteq> uid)"
    "x_rbac db' = x_rbac (retire_rows now actor payload user db)" "x_kb db' = x_kb (retire_rows now actor payload user db)"
    "x_keys db' = x_keys (retire_rows now actor payload user db)"
    "a_tokens (x_auth db') = a_tokens (x_auth (retire_rows now actor payload user db))"
  shows "gone uid db'"
proof -
  note rows = assms(5-8)[unfolded retire_rows_frame]
  have uid: "u_id user = uid" "user \<in> set (db_users (x_rbac db))" using find_user_id[OF assms(1)] by (simp_all add: x_rbac_def)
  have "uid \<in> user_ids db'" using uid by (auto simp: user_ids_def rows(1))
  moreover have "u_retired_at u \<noteq> None \<and> u_status u = USER_DISABLED" if "u \<in> set (db_users (x_rbac db'))" "u_id u = uid" for u
    using in_store_user[OF that(1)[unfolded rows(1), simplified]] that(2) uid by auto
  moreover have "kb_owner_id b \<noteq> uid" if "b \<in> set (k_bases (x_kb db'))" for b
  proof (cases "ut_replacement_owner_id payload")
    case None
    then have "owned_knowledge_bases (x_kb db) uid = []" using assms(3) by blast
    then have "filter (\<lambda>b. kb_owner_id b = uid) (k_bases (x_kb db)) = []"
      unfolding owned_knowledge_bases_def by (metis length_0_conv length_sort)
    with that None rows(2) show ?thesis by (auto simp: transfer_owned_def filter_empty_conv)
  next
    case (Some r)
    then have "r \<noteq> uid" using assms(4) find_user_id by metis
    with that Some rows(2) uid(1) show ?thesis by (auto simp: transfer_owned_def elim!: in_update_whereE)
  qed
  moreover have "rt_revoked_at t \<noteq> None" if "t \<in> set (a_tokens (x_auth db'))" "rt_user_id t = uid" for t
    using that rows(4) revoke_tokens_live[of t now uid] uid(1) by auto
  moreover have "ak_revoked_at k \<noteq> None" if "k \<in> set (x_keys db')" "ak_user_id k = uid" for k
    using that rows(3) revoke_keys_live[of k now uid] uid(1) by auto
  moreover have "ur_user_id ur \<noteq> uid" if "ur \<in> set (db_user_roles (x_rbac db'))" for ur
    using that rows(1) uid(1) by simp
  ultimately show ?thesis unfolding gone_def by blast
qed

lemma admin_retires:
  assumes eff: "admin_effect access now db db'" and inv: "admin_inv (x_rbac db)" and u: "find_user (x_auth db) uid = Some u"
    "u_retired_at u = None" and u': "u' \<in> set (db_users (x_rbac db'))" "u_retired_at u' \<noteq> None" "u_id u' = uid"
  shows "gone uid db'"
proof -
  have uid: "u_id u = uid" "u \<in> set (db_users (x_rbac db))" using find_user_id[OF u(1)] by (simp_all add: x_rbac_def)
  have same: "x = u" if "x \<in> set (db_users (x_rbac db))" "u_id x = uid" for x
    using keyed_unique[of u_id "db_users (x_rbac db)" x u] that uid inv by (simp add: admin_inv_def)
  from eff show ?thesis
  proof cases
    case (user_changed v user payload)
    have "u' = updated_user payload user \<or> u' = u"
      using u'(1,3) user_changed(5) same by (auto simp: only_rbac_def dest!: in_store_user)
    with u'(2,3) u(2) same find_user_id[OF user_changed(1)] show ?thesis by (auto simp: x_rbac_def)
  next
    case (user_retired v user payload)
    show ?thesis
    proof (cases "v = uid")
      case True
      then show ?thesis using user_retired user_retired_gone[OF _ inv, of uid user payload db' now "u_id (ac_user access)"] by blast
    next
      case False
      have "u_id user = v" using find_user_id[OF user_retired(1)] by blast
      with False u'(1,3) have "u' \<in> set (db_users (x_rbac db))"
        unfolding user_retired(8) retire_rows_frame by (auto dest!: in_store_user)
      with same u'(2,3) u(2) show ?thesis by auto
    qed
  next
    case (password_replaced v user h)
    have "u' = user\<lparr>u_password_hash := h, u_token_version := u_token_version user + 1\<rparr> \<or> u' = u"
      using u'(1,3) same unfolding password_replaced(4) by (auto dest!: in_store_user)
    with u'(2) u(2) password_replaced(3) show ?thesis by auto
  next
    case (roles_replaced v user rids)
    have "u_retired_at u' = u_retired_at user \<and> u_id u' = u_id user \<or> u' = u"
      using u'(1,3) roles_replaced(5) same by (auto simp: only_rbac_def dest!: in_store_user)
    with u'(2,3) u(2) same find_user_id[OF roles_replaced(1)] show ?thesis by (auto simp: x_rbac_def)
  qed (use u' same u(2) in \<open>auto simp: same_core_def only_rbac_def write_role_def put_limits_def put_permissions_def\<close>)
qed

lemma account_inv_step:
  assumes step: "account_step ops co db db'" and inv: "account_inv db"
  shows "account_inv db'"
proof -
  have a: "admin_inv (x_rbac db)" and g: "\<And>u. u \<in> set (db_users (x_rbac db)) \<Longrightarrow> u_retired_at u \<noteq> None \<Longrightarrow> gone (u_id u) db"
    using inv by (auto simp: account_inv_def)
  have "gone (u_id u') db'" if u': "u' \<in> set (db_users (x_rbac db'))" "u_retired_at u' \<noteq> None" for u'
  proof -
    obtain u where u: "u \<in> set (db_users (x_rbac db))" "row_changed u u'"
      using account_step_users[OF step u'(1)] u'(2) by blast
    have id: "u_id u' = u_id u" using u(2) by (simp add: row_changed_def)
    show ?thesis
    proof (cases "u_retired_at u = None")
      case False
      then show ?thesis using gone_step[OF step a g[OF u(1)]] id by simp
    next
      case True
      have find: "find_user (x_auth db) (u_id u) = Some u"
        using u(1) a keyed_find[of u_id "db_users (x_rbac db)" u] by (simp add: find_user_def x_rbac_def admin_inv_def)
      from step show ?thesis
      proof (cases rule: account_step_cases)
        case (admin access now)
        from admin_retires[OF admin a find True u' id] show ?thesis unfolding id .
      next
        case (sess a2)
        have "u' \<in> set (db_users (a_rbac a2))" using u'(1) sess(2) by simp
        then obtain p f where f: "keeps_account f" "u' \<in> set (update_where p f (db_users (x_rbac db)))"
          using sess(1) by (auto simp: session_change_def x_rbac_def)
        from f(2) have "\<exists>w \<in> set (db_users (x_rbac db)). u_id w = u_id u' \<and> u_retired_at w = u_retired_at u'"
          using f(1) by (cases rule: in_update_whereE) (auto simp: keeps_account_def)
        then obtain w where w: "w \<in> set (db_users (x_rbac db))" "u_id w = u_id u" "u_retired_at w = u_retired_at u'" using id by auto
        have "w = u" using keyed_unique[of u_id "db_users (x_rbac db)" w u] w u(1) a by (simp add: admin_inv_def)
        with w(3) True u'(2) show ?thesis by simp
      next
        case key
        with u' u(1) id True a keyed_unique[of u_id "db_users (x_rbac db)" u' u] show ?thesis
          by (simp add: key_change_def admin_inv_def)
      next
        case other
        with u' u(1) id True a keyed_unique[of u_id "db_users (x_rbac db)" u' u] show ?thesis by (simp add: admin_inv_def)
      qed
    qed
  qed
  with account_step_inv[OF step a] show ?thesis by (simp add: account_inv_def)
qed

interpretation account_run: step_system "account_step ops co" account_inv for ops co
  by unfold_locales (rule account_inv_step)

section \<open>Superusers\<close>

definition has_superuser :: "keys_db \<Rightarrow> bool" where
  "has_superuser db \<longleftrightarrow> (\<exists>u \<in> set (db_users (x_rbac db)). u_is_superuser u \<and> active_user u)"

lemma kept_row: "w \<in> set us \<Longrightarrow> u_id w \<noteq> i \<Longrightarrow> w \<in> set (update_where (\<lambda>x. u_id x = i) f us)"
  by (force simp: set_update_where)

lemma stored_row: "w \<in> set us \<Longrightarrow> u_id w = i \<Longrightarrow> x \<in> set (update_where (\<lambda>x. u_id x = i) (\<lambda>_. x) us)"
  by (force simp: set_update_where)

text \<open>Storing a row keeps a superuser when the row stays one or another one is left.\<close>

lemma store_keeps_superuser:
  assumes "u \<in> set us" "u_is_superuser u" "active_user u" "u_id row = i"
    and "u_id u = i \<Longrightarrow> u_is_superuser row \<and> active_user row \<or> (\<exists>w \<in> set us. u_is_superuser w \<and> active_user w \<and> u_id w \<noteq> i)"
  shows "\<exists>x \<in> set (update_where (\<lambda>x. u_id x = i) (\<lambda>_. row) us). u_is_superuser x \<and> active_user x"
proof (cases "u_id u = i")
  case True
  from assms(5)[OF this] show ?thesis using stored_row[OF assms(1) True, of row] kept_row[of _ us i "\<lambda>_. row"] by blast
next
  case False
  with kept_row[OF assms(1), of i "\<lambda>_. row"] assms(2,3) show ?thesis by blast
qed

lemma others_superuser:
  "other_superusers db uid \<noteq> [] \<Longrightarrow> \<exists>w \<in> set (db_users (x_rbac db)). u_is_superuser w \<and> active_user w \<and> u_id w \<noteq> uid"
  by (auto simp: other_superusers_def filter_empty_conv)

lemma admin_effect_superuser:
  assumes eff: "admin_effect access now db db'" and inv: "admin_inv (x_rbac db)" and h: "has_superuser db"
  shows "has_superuser db'"
proof -
  obtain u where u: "u \<in> set (db_users (x_rbac db))" "u_is_superuser u" "active_user u" using h by (auto simp: has_superuser_def)
  have same: "user = u" if "find_user (x_auth db) (u_id u) = Some user" for user
    using keyed_unique[of u_id "db_users (x_rbac db)" user u] find_user_id[OF that] u(1) inv by (simp add: admin_inv_def x_rbac_def)
  note keep = store_keeps_superuser[OF u]
  from eff show ?thesis
  proof cases
    case (user_changed uid user payload)
    have id: "u_id user = uid" using find_user_id[OF user_changed(1)] by simp
    have "\<exists>x \<in> set (update_where (\<lambda>x. u_id x = uid) (\<lambda>_. updated_user payload user) (db_users (x_rbac db))). u_is_superuser x \<and> active_user x"
    proof (rule keep)
      assume "u_id u = uid"
      with same user_changed(1) have "user = u" by simp
      with u(2,3) others_superuser[of db uid] user_changed(4)
      show "u_is_superuser (updated_user payload user) \<and> active_user (updated_user payload user) \<or>
          (\<exists>w \<in> set (db_users (x_rbac db)). u_is_superuser w \<and> active_user w \<and> u_id w \<noteq> uid)"
        by (auto simp: active_user_def)
    qed (simp add: id)
    with user_changed(5) id show ?thesis by (simp add: has_superuser_def only_rbac_def)
  next
    case (user_retired uid user payload)
    have id: "u_id user = uid" using find_user_id[OF user_retired(1)] by simp
    let ?row = "retired_user now (u_id (ac_user access)) payload (\<exists>ur \<in> set (db_user_roles (x_rbac db)). ur_user_id ur = u_id user) user"
    have "\<exists>x \<in> set (update_where (\<lambda>x. u_id x = uid) (\<lambda>_. ?row) (db_users (x_rbac db))). u_is_superuser x \<and> active_user x"
      by (rule keep) (use same user_retired(1,5) u(2) others_superuser[of db uid] id in auto)
    with id show ?thesis unfolding has_superuser_def user_retired(8) retire_rows_frame by simp
  next
    case (password_replaced uid user h)
    have id: "u_id user = uid" using find_user_id[OF password_replaced(1)] by simp
    have "\<exists>x \<in> set (update_where (\<lambda>x. u_id x = uid) (\<lambda>_. user\<lparr>u_password_hash := h, u_token_version := u_token_version user + 1\<rparr>)
        (db_users (x_rbac db))). u_is_superuser x \<and> active_user x"
      by (rule keep) (use same password_replaced(1) u(2,3) id in \<open>auto simp: active_user_def\<close>)
    with password_replaced(4) id show ?thesis by (simp add: has_superuser_def)
  next
    case (roles_replaced uid user rids)
    have id: "u_id user = uid" using find_user_id[OF roles_replaced(1)] by simp
    have "\<exists>x \<in> set (update_where (\<lambda>x. u_id x = uid) (\<lambda>_. user\<lparr>u_role_assignment_version := u_role_assignment_version user + 1,
        u_token_version := u_token_version user + 1\<rparr>) (db_users (x_rbac db))). u_is_superuser x \<and> active_user x"
      by (rule keep) (use same roles_replaced(1) u(2,3) id in \<open>auto simp: active_user_def\<close>)
    with roles_replaced(5) id show ?thesis by (simp add: has_superuser_def only_rbac_def)
  qed (use u in \<open>auto simp: has_superuser_def same_core_def only_rbac_def write_role_def put_limits_def put_permissions_def\<close>)
qed

lemma superuser_step:
  assumes "account_step ops co db db'" "admin_inv (x_rbac db) \<and> has_superuser db"
  shows "admin_inv (x_rbac db') \<and> has_superuser db'"
proof -
  have "has_superuser db'"
    using assms(1)
  proof (cases rule: account_step_cases)
    case (admin access now)
    then show ?thesis using admin_effect_superuser assms(2) by blast
  next
    case (sess a)
    then obtain p f where f: "keeps_account f" "a_rbac a = x_rbac db\<lparr>db_users := update_where p f (db_users (x_rbac db))\<rparr>"
      by (auto simp: session_change_def x_rbac_def)
    obtain u where u: "u \<in> set (db_users (x_rbac db))" "u_is_superuser u" "active_user u"
      using assms(2) by (auto simp: has_superuser_def)
    have "(if p u then f u else u) \<in> set (update_where p f (db_users (x_rbac db)))" using u(1) by (simp add: set_update_where)
    moreover have "u_is_superuser (if p u then f u else u)" "active_user (if p u then f u else u)"
      using f(1) u(2,3) by (simp_all add: keeps_account_def active_user_def)
    ultimately show ?thesis unfolding has_superuser_def sess(2) by (simp add: f(2)) blast
  qed (use assms(2) in \<open>auto simp: key_change_def has_superuser_def\<close>)
  with account_step_inv[OF assms(1)] assms(2) show ?thesis by blast
qed

interpretation superuser_run: step_system "account_step ops co" "\<lambda>db. admin_inv (x_rbac db) \<and> has_superuser db" for ops co
  by unfold_locales (rule superuser_step)

section \<open>Token versions\<close>

definition version_from :: "uuid \<Rightarrow> int \<Rightarrow> keys_db \<Rightarrow> bool" where
  "version_from uid n db \<longleftrightarrow> admin_inv (x_rbac db) \<and> uid \<in> user_ids db \<and>
     (\<forall>u \<in> set (db_users (x_rbac db)). u_id u = uid \<longrightarrow> n \<le> u_token_version u)"

interpretation version_run: step_system "account_step ops co" "version_from uid n" for ops co uid n
proof unfold_locales
  fix db db' assume step: "account_step ops co db db'" and v: "version_from uid n db"
  have "n \<le> u_token_version u'" if "u' \<in> set (db_users (x_rbac db'))" "u_id u' = uid" for u'
    using account_step_users[OF step that(1)] that(2) v unfolding version_from_def row_changed_def by (metis order_trans)
  with account_step_inv[OF step] v show "version_from uid n db'" unfolding version_from_def by blast
qed

lemma current_userD:
  assumes "fst (get_current_user co ops st now tok db r) = Inr u"
  shows "find_user db (u_id u) = Some u \<and> active_user u"
proof -
  obtain claims :: token_claims where "find_user db (tc_user_id claims) = Some u" "active_user u"
    using assms by (auto simp: get_current_user_def split: option.split_asm prod.split_asm sum.split_asm if_split_asm)
  with find_user_id[OF this(1)] show ?thesis by simp
qed

lemma old_token_refused:
  assumes "version_from uid n db" "tc_user_id claims = uid" "tc_token_version claims < n"
  shows "decode_token co now tok ''access'' = Some claims \<Longrightarrow> \<not> is_ok (fst (get_current_user co ops st now tok (x_auth db) r))"
    "decode_token co now tok ''refresh'' = Some claims \<Longrightarrow> \<not> is_ok (fst (refresh_tokens co ops st now fr rq tok (x_auth db) r))"
proof -
  have ver: "u_token_version u \<noteq> tc_token_version claims" if "find_user (x_auth db) uid = Some u" for u
    using assms find_user_id[OF that] by (auto simp: version_from_def x_rbac_def)
  show "\<not> is_ok (fst (get_current_user co ops st now tok (x_auth db) r))" if "decode_token co now tok ''access'' = Some claims"
    using that ver assms(2) by (auto simp: get_current_user_def split: prod.split sum.split option.split)
  show "\<not> is_ok (fst (refresh_tokens co ops st now fr rq tok (x_auth db) r))" if "decode_token co now tok ''refresh'' = Some claims"
  proof
    assume "is_ok (fst (refresh_tokens co ops st now fr rq tok (x_auth db) r))"
    then obtain pair db2 r2 where "refresh_tokens co ops st now fr rq tok (x_auth db) r = (Inr pair, db2, r2)"
      by (cases "refresh_tokens co ops st now fr rq tok (x_auth db) r") (auto simp: is_ok_iff)
    then show False using that ver assms(2) by (cases rule: refresh_outcomes) auto
  qed
qed

section \<open>Properties\<close>

text \<open>C7. There is always an active superuser: no sequence of administration, sessions and key management, by whatever callers and with whatever arguments, disables or retires the last one.\<close>

theorem last_superuser_survives:
  assumes "(account_step ops co)\<^sup>*\<^sup>* db db'" "admin_inv (x_rbac db)" "has_superuser db"
  shows "\<exists>u \<in> set (db_users (x_rbac db')). u_is_superuser u \<and> u_status u = USER_ACTIVE \<and> u_retired_at u = None"
  using superuser_run.steps_inv[OF assms(1)] assms(2,3) by (auto simp: has_superuser_def active_user_def)

text \<open>C6. Retirement is final: after a user was retired, whatever happens later, the account stays retired and disabled, it has no role, no live refresh token, no live API key and no knowledge base; no access token authenticates it and no API key acts for it.\<close>

theorem retirement_is_final:
  assumes "account_inv db" "retire_user co now rq access uid payload db = (Inr (), db1)" "(account_step ops co)\<^sup>*\<^sup>* db1 db2"
  shows "gone uid db2 \<and>
    (\<forall>st t tok r u. fst (get_current_user co ops st t tok (x_auth db2) r) = Inr u \<longrightarrow> u_id u \<noteq> uid) \<and>
    (\<forall>t key ax db3. authenticate_api_key co t key db2 = Inr (ax, db3) \<longrightarrow> u_id (ac_user (ax_access ax)) \<noteq> uid)"
proof -
  have a: "admin_inv (x_rbac db)" using assms(1) by (simp add: account_inv_def)
  from assms(2) have g1: "gone uid db1"
  proof (cases rule: retire_user_cases)
    case (already user)
    with assms(1) find_user_id[OF already(3)] show ?thesis by (auto simp: account_inv_def x_rbac_def)
  next
    case (retired acc user)
    then show ?thesis using user_retired_gone[OF retired(3) a _ retired(9-13)] by blast
  qed simp
  have step: "account_step ops co db db1" by (rule account_step.administration[OF admin_step.retire_user[OF assms(2) refl]])
  have "account_inv db1 \<and> gone uid db1" using account_inv_step[OF step assms(1)] g1 by blast
  with assms(3) have g: "gone uid db2"
  proof (induction rule: rtranclp_induct)
    case (step y z)
    then have "account_inv y" using account_run.steps_inv by blast
    with step show ?case using gone_step[OF step.hyps(2)] by (simp add: account_inv_def)
  qed simp
  have inact: "find_user (x_auth db2) uid = Some u \<Longrightarrow> \<not> active_user u" for u
    using gone_inactive[OF g, of u] find_user_id[of "x_auth db2" uid u] by (auto simp: x_rbac_def)
  have "u_id u \<noteq> uid" if "fst (get_current_user co ops st t tok (x_auth db2) r) = Inr u" for st t tok r u
    using current_userD[OF that] inact by blast
  moreover have "u_id (ac_user (ax_access ax)) \<noteq> uid" if auth: "authenticate_api_key co t key db2 = Inr (ax, db3)" for t key ax db3
  proof -
    obtain k :: api_key and user where k: "find_user (x_auth db2) (ak_user_id k) = Some user" "active_user user"
      "ac_user (ax_access ax) = user"
      by (rule authenticateD[OF auth]) (rule that; simp)
    then show ?thesis using inact find_user_id[OF k(1)] by auto
  qed
  ultimately show ?thesis using g by blast
qed

text \<open>C24. A new password ends every session: after it was set, no refresh token of the account that existed is live, and no access or refresh token that carries the account's token version of that time or an earlier one is accepted, then and ever after.\<close>

theorem password_reset_ends_sessions:
  assumes "replace_user_password co now req h rq access uid payload db = (Inr (), db1)" "admin_inv (x_rbac db)"
    and "find_user (x_auth db) uid = Some user" "(account_step ops co)\<^sup>*\<^sup>* db1 db2"
    and "tc_user_id claims = uid" "tc_token_version claims \<le> u_token_version user"
  shows "filter (\<lambda>t. rt_user_id t = uid \<and> rt_revoked_at t = None) (a_tokens (x_auth db1)) = [] \<and>
    (decode_token co t tok ''access'' = Some claims \<longrightarrow> \<not> is_ok (fst (get_current_user co ops st t tok (x_auth db2) r))) \<and>
    (decode_token co t tok ''refresh'' = Some claims \<longrightarrow> \<not> is_ok (fst (refresh_tokens co ops st t fr hq tok (x_auth db2) r)))"
proof -
  obtain u where u: "find_user (x_auth db) uid = Some u"
    "x_rbac db1 = store_user (u\<lparr>u_password_hash := h, u_token_version := u_token_version u + 1\<rparr>) (x_rbac db)"
    "a_tokens (x_auth db1) = revoke_tokens now uid (a_tokens (x_auth db))"
    using assms(1) by (cases rule: replace_user_password_cases) auto
  have "u = user" using u(1) assms(3) by simp
  have step: "account_step ops co db db1" by (rule account_step.administration[OF admin_step.replace_user_password[OF assms(1) refl]])
  have id: "u_id user = uid" "user \<in> set (db_users (x_rbac db))" using find_user_id[OF assms(3)] by (simp_all add: x_rbac_def)
  have "version_from uid (u_token_version user + 1) db1"
    unfolding version_from_def using account_step_inv[OF step assms(2)] id u(2) \<open>u = user\<close>
    by (auto simp: user_ids_def dest!: in_store_user)
  from version_run.steps_inv[OF assms(4) this] have v: "version_from uid (u_token_version user + 1) db2" .
  have "filter (\<lambda>t. rt_user_id t = uid \<and> rt_revoked_at t = None) (a_tokens (x_auth db1)) = []"
    unfolding u(3) filter_empty_conv using revoke_tokens_live by blast
  moreover have "tc_token_version claims < u_token_version user + 1" using assms(6) by simp
  ultimately show ?thesis by (intro conjI impI old_token_refused[OF v assms(5)])
qed

section \<open>Concrete runs\<close>

definition demoted :: "user_read keys_outcome" where
  "demoted = update_user tiny_crypto 5 None (by_user root_user) 1 \<lparr>ux_display_name = None, ux_status = Some USER_DISABLED\<rparr> office"

theorem last_superuser_survives_witness:
  "fst demoted = Inl (ApiError 409 ''last_superuser_protected'') \<and>
   (\<exists>u \<in> set (db_users (x_rbac (snd demoted))). u_is_superuser u \<and> u_status u = USER_ACTIVE \<and> u_retired_at u = None)"
proof -
  have "admin_step tiny_crypto 5 1 office (snd demoted)"
    by (rule admin_step.update_user[of _ _ None "by_user root_user" 1 _ office "fst demoted"])
      (simp_all add: demoted_def root_user_def)
  then have run: "(account_step counting_redis tiny_crypto)\<^sup>*\<^sup>* office (snd demoted)"
    by (intro r_into_rtranclp account_step.administration)
  have "has_superuser office"
    by (simp add: has_superuser_def office_rbac_def root_user_def demo_user_def active_user_def)
  moreover have "fst demoted = Inl (ApiError 409 ''last_superuser_protected'')" by code_simp
  ultimately show ?thesis using last_superuser_survives[OF run] office_inv by simp
qed

definition retirement :: user_retirement where
  "retirement = \<lparr>ut_confirmation_email = ''a@b'', ut_reason = None, ut_replacement_owner_id = None\<rparr>"

definition retired_demo :: "unit keys_outcome" where
  "retired_demo = retire_user tiny_crypto 5 None (by_user root_user) 7 retirement office"

lemma retired_demo_run:
  "retire_user tiny_crypto 5 None (by_user root_user) 7 retirement office = (Inr (), snd retired_demo)"
proof -
  have "is_ok (fst retired_demo)" by code_simp
  then show ?thesis by (cases "fst retired_demo") (simp_all add: retired_demo_def prod_eq_iff)
qed

lemma office_account_inv: "account_inv office"
  by (simp add: account_inv_def office_inv) (simp add: office_rbac_def root_user_def boss_def demo_user_def)

theorem retirement_is_final_witness:
  "gone 7 (snd retired_demo) \<and>
   fst (get_current_user tiny_crypto counting_redis demo_settings 6 ''a1'' (x_auth (snd retired_demo)) (\<lambda>_. 0)) \<noteq> Inr demo_user"
proof -
  note f = retirement_is_final[OF office_account_inv retired_demo_run rtranclp.rtrancl_refl[of "account_step counting_redis tiny_crypto"]]
  have "u_id demo_user = 7" by (simp add: demo_user_def)
  with conjunct1[OF conjunct2[OF f]] have
    "fst (get_current_user tiny_crypto counting_redis demo_settings 6 ''a1'' (x_auth (snd retired_demo)) (\<lambda>_. 0)) \<noteq> Inr demo_user"
    by blast
  with conjunct1[OF f] show ?thesis by blast
qed

definition reset_demo :: "unit keys_outcome" where
  "reset_demo = replace_user_password tiny_crypto 5 [''user:manage''] ''new'' None (by_user root_user) 7
     \<lparr>pr_current_password = None, pr_new_password = ''new''\<rparr> office"

lemma reset_demo_run:
  "replace_user_password tiny_crypto 5 [''user:manage''] ''new'' None (by_user root_user) 7
     \<lparr>pr_current_password = None, pr_new_password = ''new''\<rparr> office = (Inr (), snd reset_demo)"
proof -
  have "is_ok (fst reset_demo)" by code_simp
  then show ?thesis by (cases "fst reset_demo") (simp_all add: reset_demo_def prod_eq_iff)
qed

theorem password_reset_ends_sessions_witness:
  "\<not> is_ok (fst (get_current_user tiny_crypto counting_redis demo_settings 6 ''a1'' (x_auth (snd reset_demo)) (\<lambda>_. 0))) \<and>
   \<not> is_ok (fst (refresh_tokens tiny_crypto counting_redis demo_settings 6 (demo_ids 4) demo_request ''r11'' (x_auth (snd reset_demo)) (\<lambda>_. 0)))"
proof -
  have u: "find_user (x_auth office) 7 = Some demo_user"
    by (simp add: find_user_def office_def office_rbac_def root_user_def boss_def demo_user_def)
  note r = password_reset_ends_sessions[OF reset_demo_run _ u rtranclp.rtrancl_refl[of "account_step counting_redis tiny_crypto"]]
  show ?thesis
    using r[of "\<lparr>tc_user_id = 7, tc_token_version = 0, tc_token_type = ''access'', tc_token_id = 1, tc_expires_at = seconds 100\<rparr>" 6 "''a1''"]
      r[of "\<lparr>tc_user_id = 7, tc_token_version = 0, tc_token_type = ''refresh'', tc_token_id = 2, tc_expires_at = seconds 100\<rparr>" 6 "''r11''"]
      office_inv demo_claims by (simp add: demo_user_def)
qed

end
