(* ===== verification/Kb_Safety.thy ===== *)
theory Kb_Safety
  imports Account_Safety File_Safety Chat_Idempotency
begin

text \<open>
  Knowledge bases across components. The content version of a knowledge base rises with every change of what a search
  can return and of the consent to external processing, whichever route or worker makes the change; so an answer that
  the chat ledger replays was computed from the content and under the consent that hold now. The grants of a knowledge
  base lose no update, drafts stay invisible to readers, and manual entries stay within the capacity of the knowledge
  base and the quota of their author.
\<close>

section \<open>Versions\<close>

text \<open>
  The law of a version: it never falls, and while it stays, so does what it protects. A system that keeps the law in
  every step lets a reader detect every change by comparing versions.
\<close>

definition keeps_version :: "('s \<Rightarrow> 'k \<Rightarrow> int option) \<Rightarrow> ('s \<Rightarrow> 'k \<Rightarrow> 'v) \<Rightarrow> 's \<Rightarrow> 's \<Rightarrow> bool" where
  "keeps_version ver view a b \<longleftrightarrow> (\<forall>k v. ver a k = Some v \<longrightarrow> (\<exists>v'. ver b k = Some v' \<and> v \<le> v' \<and> (v' = v \<longrightarrow> view b k = view a k)))"

lemma keeps_version_refl [simp]: "keeps_version ver view a a"
  by (simp add: keeps_version_def)

lemma keeps_version_trans:
  assumes "keeps_version ver view a b" "keeps_version ver view b c"
  shows "keeps_version ver view a c"
  unfolding keeps_version_def
proof (intro allI impI)
  fix k v assume v: "ver a k = Some v"
  from assms(1) v obtain v1 where v1: "ver b k = Some v1" "v \<le> v1" "v1 = v \<longrightarrow> view b k = view a k"
    unfolding keeps_version_def by blast
  from assms(2) v1(1) obtain v2 where v2: "ver c k = Some v2" "v1 \<le> v2" "v2 = v1 \<longrightarrow> view c k = view b k"
    unfolding keeps_version_def by blast
  from v1 v2 show "\<exists>v'. ver c k = Some v' \<and> v \<le> v' \<and> (v' = v \<longrightarrow> view c k = view a k)" by (intro exI[of _ v2]) auto
qed

locale versioned = step_system +
  fixes ver :: "'s \<Rightarrow> 'k \<Rightarrow> int option"
    and view :: "'s \<Rightarrow> 'k \<Rightarrow> 'v"
  assumes step_version: "step s t \<Longrightarrow> inv s \<Longrightarrow> keeps_version ver view s t"

sublocale versioned \<subseteq> versions: evolution step inv "keeps_version ver view"
  by unfold_locales (auto intro: keeps_version_trans dest: step_version)

context versioned
begin

lemma version_grows: "step\<^sup>*\<^sup>* s t \<Longrightarrow> inv s \<Longrightarrow> ver s k = Some v \<Longrightarrow> \<exists>v'. ver t k = Some v' \<and> v \<le> v'"
  using versions.steps_evo unfolding keeps_version_def by blast

lemma change_detected: "step\<^sup>*\<^sup>* s t \<Longrightarrow> inv s \<Longrightarrow> ver s k = Some v \<Longrightarrow> view t k \<noteq> view s k \<Longrightarrow> \<exists>v'. ver t k = Some v' \<and> v < v'"
  using versions.steps_evo[of s t] unfolding keeps_version_def by (metis order_le_imp_less_or_eq)

lemma unchanged_between:
  assumes "step\<^sup>*\<^sup>* s m" "step\<^sup>*\<^sup>* m t" "inv s" "ver s k = Some v" "ver t k = Some v"
  shows "view m k = view s k" "view t k = view s k"
proof -
  have i: "inv m" using assms(1,3) by (rule steps_inv)
  from version_grows[OF assms(1,3,4)] obtain w where w: "ver m k = Some w" "v \<le> w" by blast
  with version_grows[OF assms(2) i w(1)] assms(5) have "ver m k = Some v" by auto
  with assms change_detected[OF assms(1,3,4)] change_detected[OF assms(2) i]
  show "view m k = view s k" "view t k = view s k" by fastforce+
qed

end

section \<open>What a chat sees\<close>

definition published :: "kb_db \<Rightarrow> uuid \<Rightarrow> knowledge_entry list" where
  "published kb kid = filter (\<lambda>e. ke_knowledge_base_id e = kid \<and> ke_deleted_at e = None \<and> ke_publication_status e = PUBLISHED)
     (k_entries kb)"

definition find_kb :: "kb_db \<Rightarrow> uuid \<Rightarrow> knowledge_base option" where
  "find_kb kb kid = find (\<lambda>b. kb_id b = kid) (k_bases kb)"

definition version_of :: "kb_db \<Rightarrow> uuid \<Rightarrow> int option" where
  "version_of kb kid = map_option kb_content_version (find_kb kb kid)"

definition consent_of :: "kb_db \<Rightarrow> uuid \<Rightarrow> bool option" where
  "consent_of kb kid = map_option kb_external_llm_processing_enabled (find_kb kb kid)"

lemma current_version_of: "current_version db kid = version_of (x_kb db) kid"
  by (simp add: current_version_def version_of_def find_kb_def)

lemma ranked_published:
  "ranked_entries ops kb kid terms =
     sort_key (\<lambda>e. - int (relevance ops terms e)) (sort_key (\<lambda>e. - ke_updated_at e) (sort_key ke_id
       (filter (entry_matches ops terms) (published kb kid))))"
proof -
  have "filter (\<lambda>e. ke_knowledge_base_id e = kid \<and> ke_deleted_at e = None \<and> ke_publication_status e = PUBLISHED \<and>
      entry_matches ops terms e) es = filter (entry_matches ops terms) (filter (\<lambda>e. ke_knowledge_base_id e = kid \<and>
      ke_deleted_at e = None \<and> ke_publication_status e = PUBLISHED) es)" for es
    by (induction es) auto
  then show ?thesis by (simp add: ranked_entries_def published_def)
qed

lemma search_published:
  "published a kid = published b kid \<Longrightarrow> search_knowledge_entries ops a kid q n = search_knowledge_entries ops b kid q n"
  by (simp add: search_knowledge_entries_def ranked_published)

text \<open>What the content version protects.\<close>

definition chat_view :: "kb_db \<Rightarrow> uuid \<Rightarrow> knowledge_entry list \<times> bool option" where
  "chat_view kb kid = (published kb kid, consent_of kb kid)"

abbreviation content_evolves :: "kb_db \<Rightarrow> kb_db \<Rightarrow> bool" where
  "content_evolves \<equiv> keeps_version version_of chat_view"

text \<open>Changes of one row, and of rows whose version and consent stay.\<close>

lemma find_kb_write:
  assumes "\<And>b. kb_id b = i \<Longrightarrow> kb_id (f b) = i"
  shows "find_kb (write_kb i f kb) j = (if j = i then map_option f (find_kb kb i) else find_kb kb j)"
proof -
  have "find (\<lambda>b. kb_id b = j) (update_where (\<lambda>b. kb_id b = i) f bs) =
      map_option (\<lambda>b. if kb_id b = i then f b else b) (find (\<lambda>b. kb_id b = j) bs)" for bs
    by (rule find_update_where_key) (simp add: assms)
  then show ?thesis
    by (cases "find_kb kb j") (auto simp: find_kb_def write_kb_def dest: find_Some_in_set)
qed

definition bump_row :: "knowledge_base \<Rightarrow> knowledge_base" where
  "bump_row b = b\<lparr>kb_content_version := kb_content_version b + 1\<rparr>"

lemma bump_row_simps [simp]:
  "kb_id (bump_row b) = kb_id b" "kb_content_version (bump_row b) = kb_content_version b + 1"
  "kb_external_llm_processing_enabled (bump_row b) = kb_external_llm_processing_enabled b" "kb_owner_id (bump_row b) = kb_owner_id b"
  by (simp_all add: bump_row_def)

lemma v_kb_writes [simp]:
  "v_kb (bump_content_version kid db) = write_kb kid bump_row (v_kb db)"
  "v_kb (write_entry eid g db) = (v_kb db)\<lparr>k_entries := update_where (\<lambda>e. ke_id e = eid) g (k_entries (v_kb db))\<rparr>"
  "v_kb (write_file i h db) = v_kb db" "v_kb (write_upload i h2 db) = v_kb db" "v_kb (write_job i h3 db) = v_kb db"
  "v_kb (audit_pipe now a r t act rs rid ip d db) = v_kb db" "v_kb (db\<lparr>v_quota := q\<rparr>) = v_kb db"
  "v_kb (db\<lparr>v_keys := keys\<rparr>) = x_kb keys"
  by (simp_all add: v_kb_def bump_content_version_def write_kb_def bump_row_def[abs_def] write_entry_def write_file_def write_upload_def
      write_job_def audit_pipe_def)

lemma entries_frame [simp]:
  "find_kb (kb\<lparr>k_entries := es\<rparr>) i = find_kb kb i" "published (write_kb j f kb) i = published kb i"
  "k_entries (write_kb j f kb) = k_entries kb" "find_kb (put_grants j act gs kb) i = find_kb kb i"
  "published (put_grants j act gs kb) i = published kb i"
  by (simp_all add: find_kb_def published_def write_kb_def put_grants_def)

lemma content_evolvesI:
  assumes "\<And>i b. find_kb a i = Some b \<Longrightarrow> \<exists>b'. find_kb c i = Some b' \<and> kb_content_version b \<le> kb_content_version b' \<and>
     (kb_content_version b' = kb_content_version b \<longrightarrow> published c i = published a i \<and>
        kb_external_llm_processing_enabled b' = kb_external_llm_processing_enabled b)"
  shows "content_evolves a c"
  unfolding keeps_version_def version_of_def chat_view_def consent_of_def
proof (intro allI impI)
  fix kid v assume "map_option kb_content_version (find_kb a kid) = Some v"
  then obtain b where b: "find_kb a kid = Some b" "kb_content_version b = v" by auto
  from assms[OF b(1)] obtain b' where "find_kb c kid = Some b'" "kb_content_version b \<le> kb_content_version b'"
    "kb_content_version b' = kb_content_version b \<longrightarrow> published c kid = published a kid \<and>
        kb_external_llm_processing_enabled b' = kb_external_llm_processing_enabled b" by blast
  with b show "\<exists>v'. map_option kb_content_version (find_kb c kid) = Some v' \<and> v \<le> v' \<and>
      (v' = v \<longrightarrow> (published c kid, map_option kb_external_llm_processing_enabled (find_kb c kid)) =
         (published a kid, map_option kb_external_llm_processing_enabled (find_kb a kid)))"
    by simp
qed

text \<open>A change of entries that is visible in one knowledge base only, with its bump, and one that is visible nowhere.\<close>

lemma bumped_evolves:
  assumes "\<And>i. i \<noteq> kid \<Longrightarrow> published (kb\<lparr>k_entries := es\<rparr>) i = published kb i"
  shows "content_evolves kb (write_kb kid bump_row (kb\<lparr>k_entries := es\<rparr>))"
  by (rule content_evolvesI) (auto simp: find_kb_write assms)

lemma unseen_evolves:
  assumes "\<And>i. published (kb\<lparr>k_entries := es\<rparr>) i = published kb i"
  shows "content_evolves kb (kb\<lparr>k_entries := es\<rparr>)"
  by (rule content_evolvesI) (auto simp: assms)

lemma published_update:
  assumes "keyed ke_id (k_entries kb)" "old \<in> set (k_entries kb)" "ke_knowledge_base_id new = ke_knowledge_base_id old"
  shows "i \<noteq> ke_knowledge_base_id old \<or>
      \<not> (\<exists>e \<in> {old, new}. ke_publication_status e = PUBLISHED \<and> ke_deleted_at e = None) \<Longrightarrow>
    published (kb\<lparr>k_entries := update_where (\<lambda>e. ke_id e = ke_id old) (\<lambda>_. new) (k_entries kb)\<rparr>) i = published kb i"
  using assms unfolding published_def
proof (induction "k_entries kb" arbitrary: kb)
  case (Cons e es)
  have same: "update_where (\<lambda>e. ke_id e = ke_id old) (\<lambda>_. new) es = es" if "e = old"
    unfolding update_where_def using Cons.prems(2) Cons.hyps(2)[symmetric] that by (intro map_idI) (auto simp: image_iff)
  show ?case
  proof (cases "e = old")
    case True
    with same Cons.prems(1,4) Cons.hyps(2)[symmetric] show ?thesis by auto
  next
    case False
    then have "ke_id e \<noteq> ke_id old" "old \<in> set es" using Cons.prems(2,3) Cons.hyps(2)[symmetric] by auto
    with Cons.hyps(1)[of "kb\<lparr>k_entries := es\<rparr>"] Cons.prems Cons.hyps(2)[symmetric] show ?thesis by auto
  qed
qed simp

section \<open>Steps\<close>

text \<open>
  Everything that writes knowledge bases or entries, interleaved with transactions that write neither: the routes on
  knowledge bases and entries, the administration of accounts (a retirement transfers ownership), the worker that
  stores converted drafts, and the approval of a file.
\<close>

inductive content_step :: "crypto_ops \<Rightarrow> pipe_db \<Rightarrow> pipe_db \<Rightarrow> bool" for co :: crypto_ops and db :: pipe_db where
  create_kb: "create_knowledge_base co now kid rq access p (v_keys db) = (res, k) \<Longrightarrow> content_step co db (db\<lparr>v_keys := k\<rparr>)"
| update_kb: "update_knowledge_base co now rq access kid px (v_keys db) = (res2, k) \<Longrightarrow> content_step co db (db\<lparr>v_keys := k\<rparr>)"
| administration: "admin_step co now aid (v_keys db) k \<Longrightarrow> content_step co db (db\<lparr>v_keys := k\<rparr>)"
| create_entry: "create_entry co st now eid rq access kid pe db = Inr (e, db') \<Longrightarrow> content_step co db db'"
| update_entry: "update_entry co st now rq access kid eid pu db = Inr (e, db') \<Longrightarrow> content_step co db db'"
| persist: "persist_result co now eid jid lease cf result parsed db = Inr db' \<Longrightarrow> content_step co db db'"
| approve: "approve_processed_file co now rq access fid db = Inr (f, db') \<Longrightarrow> content_step co db db'"
| elsewhere: "v_kb db' = v_kb db \<Longrightarrow> content_step co db db'"

inductive_cases content_stepE: "content_step co db db'"

definition entries_keyed :: "kb_db \<Rightarrow> bool" where
  "entries_keyed kb \<longleftrightarrow> keyed ke_id (k_entries kb)"

text \<open>The effect of a step on the tables: entries keep their keys, and the law of the version holds.\<close>

definition content_ok :: "kb_db \<Rightarrow> kb_db \<Rightarrow> bool" where
  "content_ok a b \<longleftrightarrow> (entries_keyed a \<longrightarrow> entries_keyed b \<and> content_evolves a b)"

lemma content_okI: "(entries_keyed a \<Longrightarrow> entries_keyed b) \<Longrightarrow> (entries_keyed a \<Longrightarrow> content_evolves a b) \<Longrightarrow> content_ok a b"
  by (simp add: content_ok_def)

lemma content_ok_refl [simp]: "content_ok a a"
  by (simp add: content_ok_def)

lemma rows_ok:
  assumes "k_entries b = k_entries a"
    and "\<And>i r. find_kb a i = Some r \<Longrightarrow> \<exists>r'. find_kb b i = Some r' \<and>
      (kb_content_version r' = kb_content_version r \<and> kb_external_llm_processing_enabled r' = kb_external_llm_processing_enabled r \<or>
       kb_content_version r < kb_content_version r')"
  shows "content_ok a b"
proof (rule content_okI)
  have pub: "published b i = published a i" for i using assms(1) by (simp add: published_def)
  show "content_evolves a b"
    by (rule content_evolvesI) (use assms(2) pub in fastforce)
qed (simp add: entries_keyed_def assms(1))

lemma audit_kb_frame [simp]:
  "x_kb (audit_kb co now a access kid rq d db) = x_kb db" "x_rbac (audit_kb co now a access kid rq d db) = x_rbac db"
  "x_keys (audit_kb co now a access kid rq d db) = x_keys db" "a_tokens (x_auth (audit_kb co now a access kid rq d db)) = a_tokens (x_auth db)"
  by (simp_all add: audit_kb_def)

lemma on_kb_frame [simp]:
  "x_kb (on_kb f db) = f (x_kb db)" "x_rbac (on_kb f db) = x_rbac db" "x_keys (on_kb f db) = x_keys db" "x_auth (on_kb f db) = x_auth db"
  by (simp_all add: on_kb_def)

lemma create_kb_cases:
  assumes "create_knowledge_base co now kid rq access p db = (res, db')"
  obtains (failed) e where "res = Inl e" "db' = db"
  | (created) kb where "res = Inr \<lparr>ka_knowledge_base = kb, ka_level = MANAGER\<rparr>" "kid \<notin> kb_id ` set (k_bases (x_kb db))"
      "kb_id kb = kid" "kb_owner_id kb = u_id (ac_user access)" "kb_role_grant_version kb = 1" "kb_content_version kb = 1"
      "x_kb db' = (x_kb db)\<lparr>k_bases := k_bases (x_kb db) @ [kb]\<rparr>"
      "x_rbac db' = x_rbac db" "x_keys db' = x_keys db" "a_tokens (x_auth db') = a_tokens (x_auth db)"
proof (cases "bind_r (ensure_metadata_size (bc_custom_metadata p)) (\<lambda>_. ensure (kid \<notin> kb_id ` set (k_bases (x_kb db))) unhandled)")
  case (Inl e)
  then show ?thesis using assms
    by (intro failed[of e]) (auto simp: create_knowledge_base_def or_rollback_def bind_r_eq_Inl ensure_eq_Inl ensure_def split: if_split_asm)
next
  case (Inr u)
  then have m: "ensure_metadata_size (bc_custom_metadata p) = Inr ()" "kid \<notin> kb_id ` set (k_bases (x_kb db))"
    by (auto simp: bind_r_eq_Inr ensure_eq_Inr)
  then have fresh: "\<not> (\<exists>kb \<in> set (k_bases (x_kb db)). kb_id kb = kid)" by auto
  show ?thesis using assms
    by (intro created[OF _ m(2)]) (auto simp: create_knowledge_base_def or_rollback_def m(1) fresh Let_def)
qed

lemma update_kb_cases:
  assumes "update_knowledge_base co now rq access kid p db = (res, db')"
  obtains (failed) e where "res = Inl e" "same_core db db'"
  | (updated) item where "require_knowledge_base_access (x_kb db) access kid MANAGER = Inr item"
      "res = Inr (item\<lparr>ka_knowledge_base := patched_kb now p (ka_knowledge_base item)\<rparr>)"
      "x_kb db' = write_kb kid (\<lambda>_. patched_kb now p (ka_knowledge_base item)) (x_kb db)"
      "x_rbac db' = x_rbac db" "x_keys db' = x_keys db" "a_tokens (x_auth db') = a_tokens (x_auth db)"
  using assms unfolding update_knowledge_base_def
proof (cases rule: committed_cases)
  case (1 e)
  then have "same_core db db'"
    by (auto simp: Let_def bind_r_eq_Inl bind_r_eq_Inr refuse_eq intro: guard_egress_same split: if_split_asm)
  with 1 show ?thesis using assms by (intro failed[of e]) (auto simp: update_knowledge_base_def committed_def)
next
  case (2 x)
  then obtain item where r: "require_knowledge_base_access (x_kb db) access kid MANAGER = Inr item"
    and x: "x = item\<lparr>ka_knowledge_base := patched_kb now p (ka_knowledge_base item)\<rparr>"
    and d: "\<exists>details. db' = audit_kb co now ''knowledge_base.updated'' access kid rq details
        (on_kb (write_kb kid (\<lambda>_. patched_kb now p (ka_knowledge_base item))) db)"
    by (auto simp: Let_def bind_r_eq_Inr refuse_eq split: if_split_asm)
  have "res = Inr x" using 2 assms by (auto simp: update_knowledge_base_def committed_def)
  with d x show ?thesis by (intro updated[OF r]) auto
qed

lemma patched_kb_simps [simp]:
  "kb_id (patched_kb now p b) = kb_id b" "kb_owner_id (patched_kb now p b) = kb_owner_id b"
  "kb_role_grant_version (patched_kb now p b) = kb_role_grant_version b"
  by (simp_all add: patched_kb_def Let_def)

lemma patched_kb_content:
  "kb_content_version (patched_kb now p b) = kb_content_version b \<and>
     kb_external_llm_processing_enabled (patched_kb now p b) = kb_external_llm_processing_enabled b \<or>
   kb_content_version (patched_kb now p b) = kb_content_version b + 1"
  by (simp add: patched_kb_def Let_def)

lemma update_kb_ok:
  assumes "update_knowledge_base co now rq access kid p db = (res, db')"
  shows "content_ok (x_kb db) (x_kb db')"
  using assms
proof (cases rule: update_kb_cases)
  case (failed e)
  then show ?thesis by (simp add: same_core_def)
next
  case (updated item)
  have f: "find_kb (x_kb db) kid = Some (ka_knowledge_base item)" using require_found[OF updated(1)] by (simp add: find_kb_def)
  then have id: "kb_id (ka_knowledge_base item) = kid" unfolding find_kb_def by (rule find_Some_in_set[THEN conjunct2])
  show ?thesis
  proof (rule rows_ok)
    fix i r assume r: "find_kb (x_kb db) i = Some r"
    have w: "find_kb (x_kb db') i = (if i = kid then Some (patched_kb now p (ka_knowledge_base item)) else find_kb (x_kb db) i)"
      unfolding updated(3) by (subst find_kb_write) (auto simp: id f)
    show "\<exists>r'. find_kb (x_kb db') i = Some r' \<and>
      (kb_content_version r' = kb_content_version r \<and> kb_external_llm_processing_enabled r' = kb_external_llm_processing_enabled r \<or>
       kb_content_version r < kb_content_version r')"
      using patched_kb_content[of now p r] r f by (auto simp: w)
  qed (simp add: updated(3) write_kb_def)
qed

lemma find_kb_append: "find_kb (kb\<lparr>k_bases := k_bases kb @ bs\<rparr>) i =
    (case find_kb kb i of None \<Rightarrow> find (\<lambda>b. kb_id b = i) bs | Some b \<Rightarrow> Some b)"
  by (simp add: find_kb_def find_append split: option.split)

lemma create_kb_ok:
  assumes "create_knowledge_base co now kid rq access p db = (res, db')"
  shows "content_ok (x_kb db) (x_kb db')"
  using assms
proof (cases rule: create_kb_cases)
  case (created kb)
  show ?thesis by (rule rows_ok) (simp_all add: created(7) find_kb_append)
qed simp

lemma admin_effect_content:
  assumes "admin_effect access now db db'"
  shows "content_ok (x_kb db) (x_kb db')"
  using assms
proof cases
  case (user_retired uid user payload)
  have t: "find (\<lambda>b. kb_id b = i) (transfer_owned t u r bs) = map_option (\<lambda>b. hd (transfer_owned t u r [b])) (find (\<lambda>b. kb_id b = i) bs)"
    for i t u r bs by (cases r) (auto simp: transfer_owned_def option.map_ident intro!: find_update_where_key)
  have v: "kb_content_version (hd (transfer_owned t u r [b])) = kb_content_version b \<and>
      kb_external_llm_processing_enabled (hd (transfer_owned t u r [b])) = kb_external_llm_processing_enabled b" for t u r b
    by (simp add: transfer_owned_def split: option.split)
  show ?thesis unfolding user_retired(9) retire_rows_frame
    by (rule rows_ok) (auto simp: find_kb_def t v)
next
  case (grants_replaced kid grants)
  show ?thesis unfolding grants_replaced(2)
    by (rule rows_ok) (auto simp: find_kb_write bump_grants_def put_grants_def find_kb_def[of "_\<lparr>k_grants := _\<rparr>"] find_kb_def[symmetric])
qed (simp_all add: same_core_def only_rbac_def)

lemma insert_entryD:
  assumes "insert_entry e db = Inr db'"
  shows "ke_id e \<notin> ke_id ` set (k_entries (v_kb db))"
    "v_kb db' = (if ke_publication_status e = PUBLISHED \<and> ke_deleted_at e = None
        then write_kb (ke_knowledge_base_id e) bump_row ((v_kb db)\<lparr>k_entries := k_entries (v_kb db) @ [e]\<rparr>)
        else (v_kb db)\<lparr>k_entries := k_entries (v_kb db) @ [e]\<rparr>)"
  using assms by (auto simp: insert_entry_def Let_def v_kb_def[of db] split: if_split_asm)

lemma insert_entry_ok:
  assumes "insert_entry e db = Inr db'"
  shows "content_ok (v_kb db) (v_kb db')"
proof -
  let ?kb = "v_kb db" and ?es = "k_entries (v_kb db) @ [e]"
  note new = insert_entryD(1)[OF assms] and d = insert_entryD(2)[OF assms]
  show ?thesis
  proof (rule content_okI)
    show "entries_keyed (v_kb db')" if "entries_keyed ?kb"
      using that new by (simp add: d entries_keyed_def keyed_append)
    show "content_evolves ?kb (v_kb db')"
    proof (cases "ke_publication_status e = PUBLISHED \<and> ke_deleted_at e = None")
      case True
      then show ?thesis unfolding d by (simp only: if_True simp_thms) (rule bumped_evolves, simp add: published_def)
    next
      case False
      then have "content_evolves ?kb (?kb\<lparr>k_entries := ?es\<rparr>)" by (intro unseen_evolves) (auto simp: published_def)
      with False show ?thesis unfolding d by (simp only: if_False)
    qed
  qed
qed

lemma store_entry_ok:
  assumes old: "old \<in> set (k_entries (v_kb db))" and new: "ke_id new = ke_id old" "ke_knowledge_base_id new = ke_knowledge_base_id old"
  shows "content_ok (v_kb db) (v_kb (store_entry old new db))"
proof (cases "new = old")
  case True
  then show ?thesis by (simp add: store_entry_def)
next
  case False
  let ?kb = "v_kb db" and ?es = "update_where (\<lambda>e. ke_id e = ke_id old) (\<lambda>_. new) (k_entries (v_kb db))"
  let ?seen = "\<exists>e \<in> {old, new}. ke_publication_status e = PUBLISHED \<and> ke_deleted_at e = None"
  have d: "v_kb (store_entry old new db) = (if ?seen then write_kb (ke_knowledge_base_id old) bump_row (?kb\<lparr>k_entries := ?es\<rparr>)
      else ?kb\<lparr>k_entries := ?es\<rparr>)"
    using False by (simp only: store_entry_def Let_def if_False if_distrib[of v_kb] v_kb_writes)
  have k: "keyed ke_id ?es = keyed ke_id (k_entries ?kb)" by (rule keyed_update_where) (simp add: new)
  note up = published_update[OF _ old new(2)]
  show ?thesis
  proof (rule content_okI)
    show "entries_keyed (v_kb (store_entry old new db))" if "entries_keyed ?kb"
      using that k by (simp add: d entries_keyed_def)
    assume "entries_keyed ?kb"
    then have key: "keyed ke_id (k_entries ?kb)" by (simp add: entries_keyed_def)
    show "content_evolves ?kb (v_kb (store_entry old new db))"
    proof (cases ?seen)
      case True
      have "content_evolves ?kb (write_kb (ke_knowledge_base_id old) bump_row (?kb\<lparr>k_entries := ?es\<rparr>))"
        by (rule bumped_evolves) (rule up[OF key], simp)
      with True show ?thesis unfolding d by (simp only: if_True)
    next
      case False
      have "content_evolves ?kb (?kb\<lparr>k_entries := ?es\<rparr>)" by (rule unseen_evolves) (rule up[OF key], rule disjI2, rule False)
      with False show ?thesis unfolding d by (simp only: if_False)
    qed
  qed
qed

lemma patched_entry_simps [simp]:
  "ke_id (patched_entry now p e) = ke_id e" "ke_knowledge_base_id (patched_entry now p e) = ke_knowledge_base_id e"
  "ke_publication_status (patched_entry now p e) = ke_publication_status e" "ke_deleted_at (patched_entry now p e) = ke_deleted_at e"
  "ke_content (patched_entry now p e) = set_column (ex_content p) (ke_content e)"
  by (auto simp: patched_entry_def Let_def dest: arg_cong[of _ e ke_content])

lemma create_entryD:
  assumes "create_entry co st now eid rq access kid p db = Inr (e, db')"
  obtains item n charged q db1 details where "require_knowledge_base_access (v_kb db) access kid EDITOR = Inr item"
    "utf8_size (ec_content p) = Some n" "check_capacity st (v_kb db) kid 0 1 n = Inr ()"
    "charge_entry access None (ec_content p) (v_quota db) = Inr (charged, q)" "source_file_ok db kid (ec_source_file_id p)"
    "e = new_entry now eid kid p" "insert_entry e (db\<lparr>v_quota := q\<rparr>) = Inr db1"
    "db' = audit_entry co now ''knowledge_entry.created'' access eid rq details db1"
  using assms unfolding create_entry_def
  by (auto simp: bind_r_eq_Inr ensure_eq_Inr map_error_eq_Inr encoded_size_def some_or_eq)

lemma update_entryD:
  assumes "update_entry co st now rq access kid eid p db = Inr (new, db')"
  obtains item old charged q details where "require_knowledge_base_access (v_kb db) access kid EDITOR = Inr item"
    "find (\<lambda>e. ke_id e = eid) (entries_of (v_kb db) kid) = Some old" "update_charge st access kid old (ex_content p) db = Inr (charged, q)"
    "new = patched_entry now p old" "db' = audit_entry co now ''knowledge_entry.updated'' access eid rq details
       (store_entry old new (db\<lparr>v_quota := q\<rparr>))"
  using assms unfolding update_entry_def by (auto simp: bind_r_eq_Inr some_or_eq Let_def)

lemma entries_ofD: "e \<in> set (entries_of kb kid) \<Longrightarrow> e \<in> set (k_entries kb) \<and> ke_knowledge_base_id e = kid \<and> ke_deleted_at e = None"
  by (simp add: entries_of_def)

lemma find_entry:
  "find (\<lambda>e. ke_id e = eid) (entries_of kb kid) = Some e \<Longrightarrow>
     e \<in> set (k_entries kb) \<and> ke_id e = eid \<and> ke_knowledge_base_id e = kid \<and> ke_deleted_at e = None"
  by (auto dest!: find_Some_in_set entries_ofD)

lemma audit_entry_frame [simp]:
  "v_kb (audit_entry co now a access eid rq d db) = v_kb db" "v_quota (audit_entry co now a access eid rq d db) = v_quota db"
  by (simp_all add: audit_entry_def)

lemma publish_entry_ok:
  assumes e: "e \<in> set (k_entries (v_kb db))" and draft: "ke_publication_status e = DRAFT"
  shows "content_ok (v_kb db) (v_kb (publish_entry now e db))"
proof (cases "entries_keyed (v_kb db)")
  case True
  let ?f = "\<lambda>e. e\<lparr>ke_publication_status := PUBLISHED, ke_updated_at := now\<rparr>"
  have ne: "?f e \<noteq> e"
  proof
    assume "?f e = e"
    from arg_cong[OF this, of ke_publication_status] draft show False by simp
  qed
  have "update_where (\<lambda>x. ke_id x = ke_id e) ?f (k_entries (v_kb db)) = update_where (\<lambda>x. ke_id x = ke_id e) (\<lambda>_. ?f e) (k_entries (v_kb db))"
    unfolding update_where_def using keyed_unique[OF True[unfolded entries_keyed_def] _ e] by (intro map_cong) auto
  then have "v_kb (publish_entry now e db) = v_kb (store_entry e (?f e) db)"
    using ne draft by (simp add: publish_entry_def store_entry_def Let_def del: knowledge_entry.update_convs)
  with store_entry_ok[OF e, of "?f e"] show ?thesis by simp
qed (simp add: content_ok_def)

lemma persist_result_ok:
  assumes "persist_result co now eid jid lease cf result parsed db = Inr db'"
  shows "content_ok (v_kb db) (v_kb db')"
  using assms by (auto simp: persist_result_def bind_r_eq_Inr audit_job_def dest!: insert_entry_ok split: option.split_asm)

lemma content_step_ok:
  assumes "content_step co db db'"
  shows "content_ok (v_kb db) (v_kb db')"
  using assms
proof cases
  case (create_kb now kid rq access p res k)
  from create_kb_ok[OF create_kb(2)] show ?thesis by (simp add: create_kb(1)) (simp add: v_kb_def)
next
  case (update_kb now rq access kid px res k)
  from update_kb_ok[OF update_kb(2)] show ?thesis by (simp add: update_kb(1)) (simp add: v_kb_def)
next
  case (administration now aid k)
  from admin_step_effect[OF administration(2)] admin_effect_content same_core_effect have "content_ok (x_kb (v_keys db)) (x_kb k)" by blast
  then show ?thesis by (simp add: administration(1)) (simp add: v_kb_def)
next
  case (create_entry st now eid rq access kid pe e)
  from create_entryD[OF this] show ?thesis using insert_entry_ok by (metis audit_entry_frame(1) v_kb_writes(7))
next
  case (update_entry st now rq access kid eid pu e)
  then show ?thesis
  proof (rule update_entryD)
    fix old q charged details
    assume o: "find (\<lambda>e. ke_id e = eid) (entries_of (v_kb db) kid) = Some old" and new: "e = patched_entry now pu old"
      and d: "db' = audit_entry co now ''knowledge_entry.updated'' access eid rq details (store_entry old e (db\<lparr>v_quota := q\<rparr>))"
    show ?thesis using store_entry_ok[of old "db\<lparr>v_quota := q\<rparr>" e] find_entry[OF o] by (simp add: d new)
  qed
next
  case persist
  then show ?thesis by (rule persist_result_ok)
next
  case (approve now rq access fid f)
  then show ?thesis
  proof (rule approveD)
    fix g entry
    assume e: "approval_entry db g = Inr entry"
      and d: "db' = audit_pipe now ''file.approved'' SUCCESS ''file'' (Some (u_id (ac_user access))) (co_str_uuid co (f_id g))
         rq None (JObj []) (publish_entry now entry (write_file (f_id g) (approved_row now) db))"
    have "entry \<in> set (k_entries (v_kb db)) \<and> ke_publication_status entry = DRAFT"
      using e by (auto simp: approval_entry_def some_or_eq dest!: find_Some_in_set split: option.split_asm if_split_asm)
    then show ?thesis using publish_entry_ok[of entry "write_file (f_id g) (approved_row now) db" now] by (simp add: d)
  qed
qed simp

lemma keyed_entries_step: "content_step co db db' \<Longrightarrow> entries_keyed (v_kb db) \<Longrightarrow> entries_keyed (v_kb db')"
  using content_step_ok[unfolded content_ok_def] by blast

interpretation content_run: versioned "content_step co" "\<lambda>db. entries_keyed (v_kb db)" "\<lambda>db. version_of (v_kb db)" "\<lambda>db. chat_view (v_kb db)"
  for co
proof unfold_locales
  fix s t assume "content_step co s t" "entries_keyed (v_kb s)"
  with content_step_ok[of co s t] show "keeps_version (\<lambda>db. version_of (v_kb db)) (\<lambda>db. chat_view (v_kb db)) s t"
    by (simp add: content_ok_def keeps_version_def)
qed (rule keyed_entries_step)

section \<open>Grants\<close>

definition grant_version_of :: "kb_db \<Rightarrow> uuid \<Rightarrow> int option" where
  "grant_version_of kb kid = map_option kb_role_grant_version (find_kb kb kid)"

abbreviation grants_evolve :: "kb_db \<Rightarrow> kb_db \<Rightarrow> bool" where
  "grants_evolve \<equiv> keeps_version grant_version_of grant_policy"

lemma grants_kept:
  assumes "k_grants b = k_grants a" "\<And>i r. find_kb a i = Some r \<Longrightarrow> \<exists>r'. find_kb b i = Some r' \<and> kb_role_grant_version r' = kb_role_grant_version r"
  shows "grants_evolve a b"
  unfolding keeps_version_def grant_version_of_def
proof (intro allI impI)
  fix k v assume "map_option kb_role_grant_version (find_kb a k) = Some v"
  then obtain r where "find_kb a k = Some r" "kb_role_grant_version r = v" by auto
  with assms(2)[of k r] assms(1) show "\<exists>v'. map_option kb_role_grant_version (find_kb b k) = Some v' \<and> v \<le> v' \<and>
      (v' = v \<longrightarrow> grant_policy b k = grant_policy a k)"
    by (auto simp: grant_policy_def)
qed

lemma bump_row_grants [simp]: "kb_role_grant_version (bump_row b) = kb_role_grant_version b"
  by (simp add: bump_row_def)

lemma entry_grants:
  "grants_evolve (v_kb db) (v_kb (store_entry old new db))"
  "grants_evolve (v_kb db) (v_kb (publish_entry now e db))"
  "insert_entry e db = Inr db' \<Longrightarrow> grants_evolve (v_kb db) (v_kb db')"
proof -
  have w: "grants_evolve kb (write_kb i bump_row (kb\<lparr>k_entries := es\<rparr>))" "grants_evolve kb (kb\<lparr>k_entries := es\<rparr>)" for kb i es
    by (rule grants_kept; auto simp: find_kb_write write_kb_frame(1))+
  show "grants_evolve (v_kb db) (v_kb (store_entry old new db))"
    by (simp add: store_entry_def Let_def w)
  show "grants_evolve (v_kb db) (v_kb (publish_entry now e db))"
    by (simp add: publish_entry_def Let_def w)
  show "grants_evolve (v_kb db) (v_kb db')" if "insert_entry e db = Inr db'"
    unfolding insert_entryD(2)[OF that] by (simp only: if_split w simp_thms)
qed

lemma replaced_grants_evolve:
  assumes "find_kb kb kid = Some b"
  shows "grants_evolve kb (write_kb kid (bump_grants now) (put_grants kid act gs kb))"
  unfolding keeps_version_def
proof (intro allI impI)
  let ?kb = "write_kb kid (bump_grants now) (put_grants kid act gs kb)"
  fix k v assume v: "grant_version_of kb k = Some v"
  have f: "find_kb ?kb k = (if k = kid then map_option (bump_grants now) (find_kb kb kid) else find_kb kb k)"
    by (subst find_kb_write) (simp_all add: bump_grants_def)
  have p: "grant_policy ?kb k = grant_policy kb k" if "k \<noteq> kid"
    using that by (auto simp: grant_policy_def write_kb_frame(1) put_grants_def image_iff)
  show "\<exists>v'. grant_version_of ?kb k = Some v' \<and> v \<le> v' \<and> (v' = v \<longrightarrow> grant_policy ?kb k = grant_policy kb k)"
    using v p by (auto simp: grant_version_of_def f bump_grants_def)
qed

lemma admin_effect_grants:
  assumes "admin_effect access now db db'"
  shows "grants_evolve (x_kb db) (x_kb db')"
  using assms
proof cases
  case (user_retired uid user payload)
  have "find (\<lambda>b. kb_id b = i) bs = Some r \<Longrightarrow> \<exists>r'. find (\<lambda>b. kb_id b = i) (transfer_owned t u rep bs) = Some r' \<and>
      kb_role_grant_version r' = kb_role_grant_version r" for i r t u rep bs
    by (cases rep) (auto simp: transfer_owned_def find_update_where_key)
  then show ?thesis unfolding user_retired(9) retire_rows_frame by (intro grants_kept) (auto simp: find_kb_def)
next
  case (grants_replaced kid grants)
  from grants_replaced(1) obtain b where "find_kb (x_kb db) kid = Some b"
    by (auto simp: is_ok_iff find_kb_def dest: require_found)
  then show ?thesis unfolding grants_replaced(2) by (rule replaced_grants_evolve)
qed (simp_all add: same_core_def only_rbac_def)

lemma kb_routes_grants:
  "create_knowledge_base co now kid rq access p db = (res, db') \<Longrightarrow> grants_evolve (x_kb db) (x_kb db')"
  "update_knowledge_base co now rq access kid px db = (res2, db') \<Longrightarrow> grants_evolve (x_kb db) (x_kb db')"
proof -
  assume "create_knowledge_base co now kid rq access p db = (res, db')"
  then show "grants_evolve (x_kb db) (x_kb db')"
  proof (cases rule: create_kb_cases)
    case (created kb)
    show ?thesis unfolding created(7) by (rule grants_kept) (simp_all add: find_kb_append)
  qed simp
next
  assume "update_knowledge_base co now rq access kid px db = (res2, db')"
  then show "grants_evolve (x_kb db) (x_kb db')"
  proof (cases rule: update_kb_cases)
    case (failed e)
    then show ?thesis by (simp add: same_core_def)
  next
    case (updated item)
    have f: "find_kb (x_kb db) kid = Some (ka_knowledge_base item)" using require_found[OF updated(1)] by (simp add: find_kb_def)
    then have id: "kb_id (ka_knowledge_base item) = kid" unfolding find_kb_def by (rule find_Some_in_set[THEN conjunct2])
    show ?thesis unfolding updated(3)
      by (rule grants_kept) (auto simp: write_kb_frame(1) find_kb_write id f)
  qed
qed

lemma content_step_grants:
  assumes "content_step co db db'"
  shows "grants_evolve (v_kb db) (v_kb db')"
  using assms
proof cases
  case (create_kb now kid rq access p res k)
  from kb_routes_grants(1)[OF create_kb(2)] show ?thesis by (simp add: create_kb(1)) (simp add: v_kb_def)
next
  case (update_kb now rq access kid px res k)
  from kb_routes_grants(2)[OF update_kb(2)] show ?thesis by (simp add: update_kb(1)) (simp add: v_kb_def)
next
  case (administration now aid k)
  from admin_step_effect[OF administration(2)] admin_effect_grants same_core_effect have "grants_evolve (x_kb (v_keys db)) (x_kb k)" by blast
  then show ?thesis by (simp add: administration(1)) (simp add: v_kb_def)
next
  case (create_entry st now eid rq access kid pe e)
  from create_entryD[OF this] show ?thesis using entry_grants(3) by (metis audit_entry_frame(1) v_kb_writes(7))
next
  case (update_entry st now rq access kid eid pu e)
  from update_entryD[OF this] show ?thesis using entry_grants(1) by (metis audit_entry_frame(1) v_kb_writes(7))
next
  case persist
  then show ?thesis by (auto simp: persist_result_def bind_r_eq_Inr audit_job_def dest!: entry_grants(3) split: option.split_asm)
next
  case (approve now rq access fid f)
  from approveD[OF this] show ?thesis using entry_grants(2) by (metis v_kb_writes(3,6))
qed simp

interpretation grants_run: versioned "content_step co" "\<lambda>_. True" "\<lambda>db. grant_version_of (v_kb db)" "\<lambda>db. grant_policy (v_kb db)"
  for co
  by unfold_locales (use content_step_grants in \<open>auto simp: keeps_version_def\<close>)

section \<open>Readers\<close>

lemma visible_published:
  assumes "ka_level item \<noteq> MANAGER"
  shows "filter (entry_visible item) (entries_of kb kid) = published kb kid"
  using assms by (auto simp: entry_visible_def entries_of_def published_def intro: filter_cong)

lemma require_same:
  assumes "k_bases a = k_bases b" "k_grants a = k_grants b"
  shows "require_knowledge_base_access a access kid m = require_knowledge_base_access b access kid m"
proof -
  have "granted_levels a access kid = granted_levels b access kid" using assms(2) by (simp add: granted_levels_def)
  with assms(1) show ?thesis by (simp only: require_knowledge_base_access_def)
qed

lemma require_level:
  assumes "require_knowledge_base_access kb access kid READER = Inr item"
  shows "require_knowledge_base_access kb access kid m = (if access_rank (ka_level item) < access_rank m
     then Inl (ApiError 403 ''knowledge_base_access_denied'') else Inr item)"
proof -
  obtain b where b: "find (\<lambda>b. kb_id b = kid) (k_bases kb) = Some b" using require_found[OF assms] by blast
  define L where "L = (if u_is_superuser (ac_user access) \<or> kb_owner_id b = u_id (ac_user access) then Inr MANAGER
      else if ac_role_ids access \<noteq> []
      then (case highest_level (granted_levels kb access kid) of None \<Rightarrow> Inl kb_not_found | Some l \<Rightarrow> Inr l)
      else Inl kb_not_found)"
  have eq: "require_knowledge_base_access kb access kid m = bind_r L (\<lambda>level. if access_rank level < access_rank m
      then Inl (ApiError 403 ''knowledge_base_access_denied'') else Inr \<lparr>ka_knowledge_base = b, ka_level = level\<rparr>)" for m
    by (simp only: require_knowledge_base_access_def b option.case L_def)
  show ?thesis
  proof (cases L)
    case (Inr l)
    with assms have "item = \<lparr>ka_knowledge_base = b, ka_level = l\<rparr>" unfolding eq by (simp split: if_split_asm)
    with Inr show ?thesis by (simp add: eq)
  qed (use assms in \<open>simp add: eq\<close>)
qed

section \<open>Capacity and quota\<close>

lemma octet_length_size: "utf8_size t = Some n \<Longrightarrow> octet_length t = n"
  by (simp add: utf8_size_def octet_length_def split: if_split_asm)

lemma usage_frame [simp]: "knowledge_entry_usage (write_kb i f kb) kid = knowledge_entry_usage kb kid"
  by (simp add: knowledge_entry_usage_def entries_of_def)

lemma usage_insert:
  "knowledge_entry_usage (kb\<lparr>k_entries := k_entries kb @ [e]\<rparr>) kid =
    (if ke_knowledge_base_id e = kid \<and> ke_deleted_at e = None
     then (fst (knowledge_entry_usage kb kid) + 1, snd (knowledge_entry_usage kb kid) + octet_length (ke_content e))
     else knowledge_entry_usage kb kid)"
  by (simp add: knowledge_entry_usage_def entries_of_def)

lemma octet_length_nonneg: "0 \<le> octet_length t"
  unfolding octet_length_def by (rule sum_list_nonneg) (auto simp: utf8_char_size_def split: if_split_asm)

lemma usage_update:
  assumes "keyed ke_id (k_entries kb)" "old \<in> set (k_entries kb)" "ke_knowledge_base_id old = kid" "ke_deleted_at old = None"
    "ke_id new = ke_id old" "ke_knowledge_base_id new = kid" "ke_deleted_at new = None"
  shows "knowledge_entry_usage (kb\<lparr>k_entries := update_where (\<lambda>e. ke_id e = ke_id old) (\<lambda>_. new) (k_entries kb)\<rparr>) kid =
    (fst (knowledge_entry_usage kb kid), snd (knowledge_entry_usage kb kid) - octet_length (ke_content old) + octet_length (ke_content new))"
  using assms unfolding knowledge_entry_usage_def entries_of_def
proof (induction "k_entries kb" arbitrary: kb)
  case (Cons e es)
  show ?case
  proof (cases "e = old")
    case True
    have "update_where (\<lambda>e. ke_id e = ke_id old) (\<lambda>_. new) es = es"
      unfolding update_where_def using Cons.prems(1) Cons.hyps(2)[symmetric] True by (intro map_idI) (auto simp: image_iff)
    with True Cons.prems(3-) Cons.hyps(2)[symmetric] show ?thesis by simp
  next
    case False
    then have "ke_id e \<noteq> ke_id old" "old \<in> set es" using Cons.prems(1,2) Cons.hyps(2)[symmetric] by auto
    with Cons.hyps(1)[of "kb\<lparr>k_entries := es\<rparr>"] Cons.prems Cons.hyps(2)[symmetric] show ?thesis by auto
  qed
qed simp

lemma check_capacityD:
  assumes "check_capacity st kb kid previous n bytes = Inr ()"
  shows "fst (knowledge_entry_usage kb kid) + n \<le> es_platform_max_entries_per_knowledge_base st"
    "snd (knowledge_entry_usage kb kid) - previous + bytes \<le> es_platform_max_entry_bytes_per_knowledge_base st"
  using assms by (auto simp: check_capacity_def enforce_knowledge_entry_capacity_def split: prod.split_asm if_split_asm)

lemma charge_entryD:
  assumes "charge_entry access prev t q = Inr (n, q')" "quota_inv q"
  shows "positive_utf8_growth prev t = Some n" "quota_inv q'"
    "used_of q' (u_id (ac_user access), ''storage_bytes'', 0) = used_of q (u_id (ac_user access), ''storage_bytes'', 0) + n"
    "own_limit access ''storage_bytes'' = Some l \<Longrightarrow> 0 < n \<Longrightarrow>
       used_of q' (u_id (ac_user access), ''storage_bytes'', 0) + reserved_of q' (u_id (ac_user access), ''storage_bytes'', 0) \<le> l"
  using manual_entry_charges_growth[OF assms(2)] assms(1) unfolding charge_entry_def map_error_eq_Inr by fastforce+

lemma entry_quota_frame [simp]:
  "v_quota (store_entry old new db) = v_quota db"
  by (simp add: store_entry_def Let_def write_entry_def bump_content_version_def)

lemma growth_octets: "positive_utf8_growth prev t = Some n \<Longrightarrow>
    n = max (octet_length t - (case prev of None \<Rightarrow> 0 | Some p \<Rightarrow> octet_length p)) 0"
  by (auto simp: positive_utf8_growth_def bind_eq_Some_conv octet_length_size split: option.split_asm)

abbreviation storage_used :: "access_context \<Rightarrow> pipe_db \<Rightarrow> int" where
  "storage_used access db \<equiv> used_of (v_quota db) (u_id (ac_user access), ''storage_bytes'', 0)"

lemma created_entry_usage:
  assumes q: "quota_inv (v_quota db)" and ok: "create_entry co st now eid rq access kid p db = Inr (e, db')"
  shows "knowledge_entry_usage (v_kb db') kid =
      (fst (knowledge_entry_usage (v_kb db) kid) + 1, snd (knowledge_entry_usage (v_kb db) kid) + octet_length (ec_content p))"
    "fst (knowledge_entry_usage (v_kb db') kid) \<le> es_platform_max_entries_per_knowledge_base st"
    "snd (knowledge_entry_usage (v_kb db') kid) \<le> es_platform_max_entry_bytes_per_knowledge_base st"
    "storage_used access db' = storage_used access db + octet_length (ec_content p)"
proof -
  obtain item n charged quota db1 details where c: "utf8_size (ec_content p) = Some n" "check_capacity st (v_kb db) kid 0 1 n = Inr ()"
    "charge_entry access None (ec_content p) (v_quota db) = Inr (charged, quota)"
    "e = new_entry now eid kid p" "insert_entry e (db\<lparr>v_quota := quota\<rparr>) = Inr db1"
    "db' = audit_entry co now ''knowledge_entry.created'' access eid rq details db1"
    using create_entryD[OF ok] by metis
  have q1: "v_quota db1 = quota" using insert_entry_frame[OF c(5)] by simp
  show u: "knowledge_entry_usage (v_kb db') kid =
      (fst (knowledge_entry_usage (v_kb db) kid) + 1, snd (knowledge_entry_usage (v_kb db) kid) + octet_length (ec_content p))"
    using insert_entryD(2)[OF c(5)] by (simp add: c(4,6) new_entry_def usage_insert)
  show "fst (knowledge_entry_usage (v_kb db') kid) \<le> es_platform_max_entries_per_knowledge_base st"
    "snd (knowledge_entry_usage (v_kb db') kid) \<le> es_platform_max_entry_bytes_per_knowledge_base st"
    using check_capacityD[OF c(2)] octet_length_size[OF c(1)] by (simp_all add: u)
  show "storage_used access db' = storage_used access db + octet_length (ec_content p)"
    using charge_entryD(3)[OF c(3) q] growth_octets[OF charge_entryD(1)[OF c(3) q]] octet_length_nonneg[of "ec_content p"]
    by (simp add: c(6) q1)
qed

lemma updated_entry_usage:
  assumes q: "quota_inv (v_quota db)" and k: "entries_keyed (v_kb db)" and ok: "update_entry co st now rq access kid eid p db = Inr (e, db')"
    and t: "ex_content p = Some t"
  shows "\<exists>old. find (\<lambda>e. ke_id e = eid) (entries_of (v_kb db) kid) = Some old \<and>
    knowledge_entry_usage (v_kb db') kid = (fst (knowledge_entry_usage (v_kb db) kid),
      snd (knowledge_entry_usage (v_kb db) kid) - octet_length (ke_content old) + octet_length t) \<and>
    fst (knowledge_entry_usage (v_kb db') kid) \<le> es_platform_max_entries_per_knowledge_base st \<and>
    snd (knowledge_entry_usage (v_kb db') kid) \<le> es_platform_max_entry_bytes_per_knowledge_base st \<and>
    storage_used access db' = storage_used access db + max (octet_length t - octet_length (ke_content old)) 0"
proof -
  obtain item old charged quota details where o: "find (\<lambda>e. ke_id e = eid) (entries_of (v_kb db) kid) = Some old"
    and ch: "update_charge st access kid old (Some t) db = Inr (charged, quota)" and e: "e = patched_entry now p old"
    and d: "db' = audit_entry co now ''knowledge_entry.updated'' access eid rq details (store_entry old e (db\<lparr>v_quota := quota\<rparr>))"
    using update_entryD[OF ok] t by metis
  obtain n m where c: "utf8_size (ke_content old) = Some n" "utf8_size t = Some m" "check_capacity st (v_kb db) kid n 0 m = Inr ()"
    "charge_entry access (Some (ke_content old)) t (v_quota db) = Inr (charged, quota)"
    using ch by (auto simp: update_charge_def bind_r_eq_Inr encoded_size_def some_or_eq)
  note f = find_entry[OF o]
  have et: "ke_content e = t" by (simp add: e t set_column_def)
  have u: "knowledge_entry_usage (v_kb db') kid = (fst (knowledge_entry_usage (v_kb db) kid),
      snd (knowledge_entry_usage (v_kb db) kid) - octet_length (ke_content old) + octet_length t)"
  proof (cases "e = old")
    case True
    then show ?thesis using et by (simp add: d store_entry_def)
  next
    case False
    from usage_update[of "v_kb db" old kid e] f k et have "knowledge_entry_usage
        ((v_kb db)\<lparr>k_entries := update_where (\<lambda>x. ke_id x = ke_id old) (\<lambda>_. e) (k_entries (v_kb db))\<rparr>) kid =
        (fst (knowledge_entry_usage (v_kb db) kid), snd (knowledge_entry_usage (v_kb db) kid) - octet_length (ke_content old) + octet_length t)"
      by (simp add: e entries_keyed_def)
    with False show ?thesis by (simp add: d store_entry_def Let_def)
  qed
  have "max (octet_length t - octet_length (ke_content old)) 0 = charged"
    using growth_octets[OF charge_entryD(1)[OF c(4) q]] by simp
  with o u check_capacityD[OF c(3)] octet_length_size[OF c(1)] octet_length_size[OF c(2)] charge_entryD(3)[OF c(4) q]
  show ?thesis by (simp add: d)
qed

section \<open>The routes seen by other components\<close>

text \<open>The routes on knowledge bases and entries are steps of other components for the administration of accounts.\<close>

lemma kb_routes_other:
  "create_knowledge_base co now kid rq access p db = (res, db') \<Longrightarrow> other_step db db'"
  "update_knowledge_base co now rq access kid px db = (res2, db') \<Longrightarrow> keyed kb_id (k_bases (x_kb db)) \<Longrightarrow> other_step db db'"
proof -
  assume "create_knowledge_base co now kid rq access p db = (res, db')"
  then show "other_step db db'"
  proof (cases rule: create_kb_cases)
    case failed
    then show ?thesis by (auto simp: other_step_def intro!: exI[of _ "db_users (x_rbac db)"])
  next
    case (created kb)
    show ?thesis
      unfolding other_step_def by (intro conjI exI[of _ "db_users (x_rbac db)"] exI[of _ "[(kb_id kb, kb_owner_id kb)]"]) (simp_all add: created)
  qed
next
  assume k: "keyed kb_id (k_bases (x_kb db))" and "update_knowledge_base co now rq access kid px db = (res2, db')"
  from this(2) show "other_step db db'"
  proof (cases rule: update_kb_cases)
    case (failed e)
    then show ?thesis by (auto simp: other_step_def same_core_def intro!: exI[of _ "db_users (x_rbac db)"])
  next
    case (updated item)
    let ?f = "\<lambda>b. (kb_id b, kb_owner_id b)" and ?row = "patched_kb now px (ka_knowledge_base item)"
    have same: "map ?f (update_where (\<lambda>b. kb_id b = kid) (\<lambda>_. ?row) (k_bases (x_kb db))) = map ?f (k_bases (x_kb db))"
    proof -
      note f = find_Some_in_set[OF require_found[OF updated(1)]]
      have "?f (if kb_id b = kid then ?row else b) = ?f b" if "b \<in> set (k_bases (x_kb db))" for b
        using keyed_unique[OF k that] f by auto
      then show ?thesis unfolding update_where_def map_map by (intro map_cong) auto
    qed
    show ?thesis
      unfolding other_step_def
      by (intro conjI exI[of _ "db_users (x_rbac db)"] exI[of _ "[]"]) (simp_all add: updated write_kb_frame same)
  qed
qed

lemma bind_refuse: "(\<And>x. m = Inr x \<Longrightarrow> \<exists>e. f x = Inl (e, db)) \<Longrightarrow> \<exists>e. bind_r (refuse db m) f = Inl (e, db)"
  by (cases m) (auto simp: refuse_def)

lemma committed_stop: "\<exists>e. m = Inl (e, db) \<Longrightarrow> \<exists>e. committed m = (Inl e, db)"
  by (auto simp: committed_def)

lemma replace_role_grants_stale:
  assumes "\<And>a item. require_knowledge_base_access (x_kb db) a kid MANAGER = Inr item \<Longrightarrow>
      rg_expected_version p \<noteq> kb_role_grant_version (ka_knowledge_base item)"
  shows "\<exists>e. replace_role_grants co now rq access kid p db = (Inl e, db)"
  unfolding replace_role_grants_def
  by (rule committed_stop, rule bind_refuse, rule bind_refuse, rule bind_refuse, rule bind_refuse) (simp add: Let_def assms)

section \<open>Snapshots of the chat ledger\<close>

definition snapshot_authorizer :: "crypto_ops \<Rightarrow> uuid \<Rightarrow> authorizer \<Rightarrow> bool" where
  "snapshot_authorizer co kid auth \<longleftrightarrow> (\<exists>uid ver. auth = authorize_interactive_chat_snapshot uid ver kid) \<or>
     (\<exists>key_id family uid. auth = authorize_api_key_chat_snapshot co key_id family uid kid)"

lemma snapshot_version:
  assumes "snapshot_authorizer co kid auth" "auth now db = Inr sn"
  shows "version_of (x_kb db) kid = Some (sn_content_version sn)"
  using assms interactive_snapshotD(3) api_key_snapshotD(4)
  unfolding snapshot_authorizer_def current_version_of[symmetric] by fastforce

lemma claimed_version:
  assumes "snapshot_authorizer co kid auth" "claim_attempt co ops st kr ph kh rh kid auth now rid c = (Claimed rec, c')"
  shows "ci_knowledge_base_content_version rec = version_of (x_kb (y_keys c)) kid"
proof -
  obtain sn where "auth now (y_keys c) = Inr sn" "rec = new_claim rid ph kh rh sn now"
    using assms(2) by (auto simp: claim_attempt_def Let_def decide_existing_def commit_refusal_def
      split: sum.split_asm if_split_asm option.split_asm)
  with snapshot_version[OF assms(1)] show ?thesis by (simp add: new_claim_def)
qed

lemma replayed_version:
  assumes "snapshot_authorizer co kid auth" "claim_or_replay co ops st kr ph kh rh kid auth turn c = (Inr (rec, Some response), c')"
  shows "ci_knowledge_base_content_version rec = version_of (x_kb (y_keys c')) kid"
proof -
  obtain t :: turn where "claim_attempt co ops st kr ph kh rh kid auth (turn.tn_now t) (tn_id t) c' = (Replayed rec response, c')"
    using claim_loop_replayD[OF assms(2)[unfolded claim_or_replay_def]] by blast
  from claim_attempt_replayD(6)[OF this] obtain sn where
    "auth (turn.tn_now t) (y_keys c') = Inr sn" "ci_knowledge_base_content_version rec = Some (sn_content_version sn)" by blast
  with snapshot_version[OF assms(1)] show ?thesis by simp
qed

lemma claimed_known:
  assumes "snapshot_authorizer co kid auth" "claim_attempt co ops st kr ph kh rh kid auth now rid c = (Claimed rec, c')"
  shows "version_of (x_kb (y_keys c)) kid \<noteq> None"
proof -
  obtain sn where "auth now (y_keys c) = Inr sn"
    using assms(2) by (auto simp: claim_attempt_def Let_def split: sum.split_asm)
  with snapshot_version[OF assms(1)] show ?thesis by simp
qed

section \<open>Properties\<close>

text \<open>C8. A replayed chat answer is never stale: when the ledger replays the answer of a claim, then from the moment of the claim until now, whatever routes and workers ran in between, every search of the knowledge base returns the same hits and the consent to external processing is the same.\<close>

theorem replay_reflects_current_content:
  assumes "snapshot_authorizer co kid auth"
    and claimed: "claim_attempt co ops st kr ph kh rh kid auth now rid c0 = (Claimed rec0, c1)" "y_keys c0 = v_keys db0"
    and run: "(content_step co)\<^sup>*\<^sup>* db0 dbm" "(content_step co)\<^sup>*\<^sup>* dbm db1" "entries_keyed (v_kb db0)"
    and replayed: "claim_or_replay co ops st kr2 ph kh rh kid auth turn c2 = (Inr (rec, Some response), c3)" "y_keys c3 = v_keys db1"
      "same_claim rec0 rec"
  shows "search_knowledge_entries t (v_kb dbm) kid q n = search_knowledge_entries t (v_kb db1) kid q n \<and>
    search_knowledge_entries t (v_kb db0) kid q n = search_knowledge_entries t (v_kb db1) kid q n \<and>
    consent_of (v_kb dbm) kid = consent_of (v_kb db1) kid \<and> consent_of (v_kb db0) kid = consent_of (v_kb db1) kid"
proof -
  obtain v where v: "version_of (v_kb db0) kid = Some v"
    using claimed_known[OF assms(1) claimed(1)] by (auto simp: claimed(2) v_kb_def)
  have "version_of (v_kb db1) kid = Some v"
    using claimed_version[OF assms(1) claimed(1)] replayed_version[OF assms(1) replayed(1)] replayed(3) v
    by (simp add: same_claim_def claimed(2) replayed(2) v_kb_def)
  from content_run.unchanged_between[OF run v this]
  have "chat_view (v_kb dbm) kid = chat_view (v_kb db1) kid" "chat_view (v_kb db0) kid = chat_view (v_kb db1) kid" by simp_all
  then show ?thesis unfolding chat_view_def by (auto intro: search_published)
qed

text \<open>No lost update of grants: once the grants of a knowledge base differ from what they were at some version, whatever ran in between, a replacement based on that version is refused and writes nothing.\<close>

theorem stale_grants_refused:
  assumes "find_kb (v_kb db0) kid = Some kb" "(content_step co)\<^sup>*\<^sup>* db0 db1"
    and "grant_policy (v_kb db1) kid \<noteq> grant_policy (v_kb db0) kid" "rg_expected_version p = kb_role_grant_version kb"
  shows "\<exists>e. replace_role_grants co now rq access kid p (v_keys db1) = (Inl e, v_keys db1)"
proof -
  have "grant_version_of (v_kb db0) kid = Some (kb_role_grant_version kb)" by (simp add: grant_version_of_def assms(1))
  from grants_run.change_detected[OF assms(2) TrueI this assms(3)]
  obtain b where b: "find_kb (v_kb db1) kid = Some b" "rg_expected_version p \<noteq> kb_role_grant_version b"
    by (auto simp: grant_version_of_def assms(4))
  have "rg_expected_version p \<noteq> kb_role_grant_version (ka_knowledge_base item)"
    if "require_knowledge_base_access (x_kb (v_keys db1)) a kid MANAGER = Inr item" for a item
    using require_found[OF that] b by (simp add: find_kb_def v_kb_def)
  then show ?thesis by (rule replace_role_grants_stale)
qed

text \<open>C26. Drafts are invisible to everyone below manager: the listing, the detail route and the search give such a caller the same answer whatever drafts and deleted entries the knowledge base holds.\<close>

theorem drafts_invisible_to_readers:
  assumes "k_bases a = k_bases b" "k_grants a = k_grants b" "published a kid = published b kid"
    and "require_knowledge_base_access a access kid READER = Inr item" "ka_level item \<noteq> MANAGER"
  shows "list_entries a access kid limit offset = list_entries b access kid limit offset \<and>
    get_entry a access kid eid = get_entry b access kid eid \<and>
    search_entries t a access kid q n = search_entries t b access kid q n"
  using assms(3-5) require_same[OF assms(1,2), of access kid READER] search_published[OF assms(3), of t q n]
  by (simp add: list_entries_def get_entry_def search_entries_def visible_published)

text \<open>Manual entries stay within bounds and are paid for: a successful creation or rewrite leaves the knowledge base within its limits on entries and bytes, changes the counted bytes by exactly the difference of the UTF-8 sizes, and charges the author's lifetime storage with exactly the growth.\<close>

theorem manual_entries_within_capacity:
  assumes "quota_inv (v_quota db)" "entries_keyed (v_kb db)"
  shows "(create_entry co st now eid rq access kid p db = Inr (e, db') \<longrightarrow>
      knowledge_entry_usage (v_kb db') kid =
        (fst (knowledge_entry_usage (v_kb db) kid) + 1, snd (knowledge_entry_usage (v_kb db) kid) + octet_length (ec_content p)) \<and>
      fst (knowledge_entry_usage (v_kb db') kid) \<le> es_platform_max_entries_per_knowledge_base st \<and>
      snd (knowledge_entry_usage (v_kb db') kid) \<le> es_platform_max_entry_bytes_per_knowledge_base st \<and>
      storage_used access db' = storage_used access db + octet_length (ec_content p)) \<and>
    (update_entry co st now rq access kid eid px db = Inr (e, db') \<and> ex_content px = Some t \<longrightarrow>
      (\<exists>old. find (\<lambda>e. ke_id e = eid) (entries_of (v_kb db) kid) = Some old \<and>
        knowledge_entry_usage (v_kb db') kid = (fst (knowledge_entry_usage (v_kb db) kid),
          snd (knowledge_entry_usage (v_kb db) kid) - octet_length (ke_content old) + octet_length t) \<and>
        fst (knowledge_entry_usage (v_kb db') kid) \<le> es_platform_max_entries_per_knowledge_base st \<and>
        snd (knowledge_entry_usage (v_kb db') kid) \<le> es_platform_max_entry_bytes_per_knowledge_base st \<and>
        storage_used access db' = storage_used access db + max (octet_length t - octet_length (ke_content old)) 0))"
proof (intro conjI[of "_ \<longrightarrow> _"] impI; (elim conjE)?)
  assume "create_entry co st now eid rq access kid p db = Inr (e, db')"
  from created_entry_usage[OF assms(1) this] show "knowledge_entry_usage (v_kb db') kid =
        (fst (knowledge_entry_usage (v_kb db) kid) + 1, snd (knowledge_entry_usage (v_kb db) kid) + octet_length (ec_content p)) \<and>
      fst (knowledge_entry_usage (v_kb db') kid) \<le> es_platform_max_entries_per_knowledge_base st \<and>
      snd (knowledge_entry_usage (v_kb db') kid) \<le> es_platform_max_entry_bytes_per_knowledge_base st \<and>
      storage_used access db' = storage_used access db + octet_length (ec_content p)" by (intro conjI)
qed (rule updated_entry_usage[OF assms])

section \<open>Concrete runs\<close>

text \<open>An author with two gigabytes of storage who may edit, a knowledge base with one draft, and its manager.\<close>

definition library_draft :: knowledge_entry where
  "library_draft = \<lparr>ke_id = 40, ke_knowledge_base_id = 2, ke_source_file_id = None, ke_entry_type = ''note'', ke_title = uni ''Draft'',
     ke_content = uni ''secret'', ke_source_path = None, ke_format_version = None, ke_publication_status = DRAFT,
     ke_custom_metadata = JObj [], ke_deleted_at = None, ke_updated_at = 0\<rparr>"

definition library :: pipe_db where
  "library = \<lparr>v_keys = office\<lparr>x_kb := office_kb\<lparr>k_entries := [library_draft]\<rparr>\<rparr>, v_files = [], v_uploads = [], v_quota = empty_quota_db, v_jobs = []\<rparr>"

definition author_access :: access_context where
  "author_access = (by_user boss)\<lparr>ac_limits := (\<lambda>k. if k = ''storage_bytes'' then Some (Some 2000) else None)\<rparr>"

definition entry_limits :: entry_settings where
  "entry_limits = \<lparr>es_platform_max_entries_per_knowledge_base = 2, es_platform_max_entry_bytes_per_knowledge_base = 20\<rparr>"

definition first_note :: entry_create where
  "first_note = \<lparr>ec_source_file_id = None, ec_entry_type = '' note '', ec_title = uni ''Title '', ec_content = [8364, 65],
     ec_source_path = None, ec_format_version = None, ec_custom_metadata = JObj []\<rparr>"

lemma library_keyed: "entries_keyed (v_kb library)" "quota_inv (v_quota library)"
  by (simp_all add: entries_keyed_def v_kb_def library_def quota_reachable_inv[OF quota_reachable.start])

lemma first_note_size: "utf8_size (ec_content first_note) = Some 4" "octet_length (ec_content first_note) = 4"
  by (simp_all add: first_note_def utf8_size_def octet_length_def utf8_char_size_def is_surrogate_def)

lemma library_usage: "knowledge_entry_usage (v_kb library) 2 = (1, 6)"
  by (simp add: knowledge_entry_usage_def entries_of_def v_kb_def library_def library_draft_def octet_length_def uni_def utf8_char_size_def)

lemma first_note_charged:
  "is_ok (charge_entry author_access None (ec_content first_note) (v_quota library))" "storage_used author_access library = 0"
  by (simp_all add: charge_entry_def consume_manual_entry_storage_quota_def positive_utf8_growth_def first_note_size library_def
      author_access_def own_limit_def consume_def locked_counter_def counter_key_def empty_quota_db_def
      check_and_calculate_reservation_def used_of_def)

lemma first_note_created:
  obtains e db' where "create_entry tiny_crypto entry_limits 5 41 None author_access 2 first_note library = Inr (e, db')"
proof -
  obtain item where r: "require_knowledge_base_access (v_kb library) author_access 2 EDITOR = Inr item"
  proof -
    have "is_ok (require_knowledge_base_access (v_kb library) author_access 2 EDITOR)" by code_simp
    with that show thesis by (auto simp: is_ok_iff)
  qed
  obtain n q where q: "charge_entry author_access None (ec_content first_note) (v_quota library) = Inr (n, q)"
    using first_note_charged(1) by (auto simp: is_ok_iff)
  have m: "ensure_metadata_size (ec_custom_metadata first_note) = Inr ()" by code_simp
  have c: "check_capacity entry_limits (v_kb library) 2 0 1 4 = Inr ()"
    by (simp add: check_capacity_def library_usage enforce_knowledge_entry_capacity_def entry_limits_def)
  have i: "is_ok (insert_entry (new_entry 5 41 2 first_note) (library\<lparr>v_quota := q\<rparr>))"
    by (simp add: insert_entry_def new_entry_def v_kb_def library_def library_draft_def is_ok_def)
  have s: "source_file_ok library 2 (ec_source_file_id first_note)" by (simp add: source_file_ok_def first_note_def)
  from i obtain db1 where "insert_entry (new_entry 5 41 2 first_note) (library\<lparr>v_quota := q\<rparr>) = Inr db1" by (auto simp: is_ok_iff)
  with r m c q s show thesis by (intro that) (simp add: create_entry_def encoded_size_def first_note_size(1))
qed

theorem manual_entries_within_capacity_witness:
  "\<exists>e db'. create_entry tiny_crypto entry_limits 5 41 None author_access 2 first_note library = Inr (e, db') \<and>
     knowledge_entry_usage (v_kb db') 2 = (2, 10) \<and> storage_used author_access db' = 4"
proof -
  obtain e db' where c: "create_entry tiny_crypto entry_limits 5 41 None author_access 2 first_note library = Inr (e, db')"
    by (rule first_note_created)
  from manual_entries_within_capacity[OF library_keyed(2,1), THEN conjunct1, THEN mp, OF c] c show ?thesis
    by (simp add: library_usage first_note_size(2) first_note_charged(2))
qed

text \<open>The reader sees the same knowledge base with and without the draft.\<close>

theorem drafts_invisible_to_readers_witness:
  "get_entry (v_kb library) (by_user boss) 2 40 = get_entry office_kb (by_user boss) 2 40 \<and>
   get_entry (v_kb library) (by_user boss) 2 40 = Inl knowledge_entry_not_found"
proof -
  have "is_ok (require_knowledge_base_access (v_kb library) (by_user boss) 2 READER)"
    "\<not> is_ok (require_knowledge_base_access (v_kb library) (by_user boss) 2 MANAGER)" by code_simp+
  then obtain item where i: "require_knowledge_base_access (v_kb library) (by_user boss) 2 READER = Inr item" "ka_level item \<noteq> MANAGER"
    using require_level by (fastforce simp: is_ok_iff)
  have "published (v_kb library) 2 = published office_kb 2" "k_bases (v_kb library) = k_bases office_kb" "k_grants (v_kb library) = k_grants office_kb"
    by (simp_all add: published_def v_kb_def library_def library_draft_def office_kb_def kb_demo_def)
  note same = drafts_invisible_to_readers[OF this(2,3,1) i, THEN conjunct2, THEN conjunct1, of 40]
  have "published (v_kb library) 2 = []" by (simp add: published_def v_kb_def library_def library_draft_def)
  then have "get_entry (v_kb library) (by_user boss) 2 40 = Inl knowledge_entry_not_found"
    by (simp add: get_entry_def i visible_published)
  with same show ?thesis by simp
qed

definition regrant :: "kb_role_grant list keys_outcome" where
  "regrant = replace_role_grants tiny_crypto 5 None (by_user root_user) 2 \<lparr>rg_expected_version = 1, rg_grants = [(11, EDITOR)]\<rparr> (v_keys library)"

theorem stale_grants_refused_witness:
  "\<exists>e. replace_role_grants tiny_crypto 6 None (by_user root_user) 2 \<lparr>rg_expected_version = 1, rg_grants = [(11, READER)]\<rparr> (snd regrant) =
     (Inl e, snd regrant)"
proof -
  let ?db = "library\<lparr>v_keys := snd regrant\<rparr>"
  have "admin_step tiny_crypto 5 1 (v_keys library) (snd regrant)"
    by (rule admin_step.replace_role_grants[of _ _ None "by_user root_user" 2 "\<lparr>rg_expected_version = 1, rg_grants = [(11, EDITOR)]\<rparr>" _ "fst regrant"])
      (simp_all add: regrant_def root_user_def)
  then have step: "(content_step tiny_crypto)\<^sup>*\<^sup>* library ?db" by (blast intro: content_step.administration)
  have p: "(10, EDITOR) \<in> grant_policy (v_kb library) 2" "(10, EDITOR) \<notin> grant_policy (x_kb (snd regrant)) 2"
    by code_simp+
  have kb: "find_kb (v_kb library) 2 = Some (hd (k_bases kb_demo))"
    by (simp add: find_kb_def v_kb_def library_def office_kb_def kb_demo_def)
  have "grant_policy (v_kb ?db) 2 \<noteq> grant_policy (v_kb library) 2"
    using p by auto
  from stale_grants_refused[OF kb step this, of "\<lparr>rg_expected_version = 1, rg_grants = [(11, READER)]\<rparr>"]
  show ?thesis by (simp add: kb_demo_def)
qed

text \<open>The knowledge base is renamed between an answer and its replay.\<close>

definition renamed :: keys_db where
  "renamed = snd (update_knowledge_base chat_crypto 3 None admin_access 2
     \<lparr>bx_name = Some ''Sales 2'', bx_description = None, bx_external_llm_processing_enabled = None, bx_custom_metadata = None\<rparr> keys_demo)"

theorem replay_reflects_current_content_witness:
  "map kb_name (k_bases (x_kb renamed)) = [''Sales 2''] \<and>
   search_knowledge_entries ascii_text kb_demo 2 (uni ''sales'') 5 = search_knowledge_entries ascii_text (x_kb renamed) 2 (uni ''sales'') 5 \<and>
   consent_of kb_demo 2 = consent_of (x_kb renamed) 2"
proof -
  let ?p = "\<lambda>k. \<lparr>v_keys = k, v_files = [], v_uploads = [], v_quota = empty_quota_db, v_jobs = []\<rparr>"
  have step: "(content_step chat_crypto)\<^sup>*\<^sup>* (?p keys_demo) (?p renamed)"
  proof -
    obtain res where "update_knowledge_base chat_crypto 3 None admin_access 2 \<lparr>bx_name = Some ''Sales 2'', bx_description = None,
        bx_external_llm_processing_enabled = None, bx_custom_metadata = None\<rparr> (v_keys (?p keys_demo)) = (res, renamed)"
      by (cases "update_knowledge_base chat_crypto 3 None admin_access 2 \<lparr>bx_name = Some ''Sales 2'', bx_description = None,
        bx_external_llm_processing_enabled = None, bx_custom_metadata = None\<rparr> keys_demo") (simp add: renamed_def)
    from r_into_rtranclp[of "content_step chat_crypto", OF content_step.update_kb[OF this]] show ?thesis by simp
  qed
  have auth: "demo_chat_auth 6 renamed = Inr demo_snapshot" "map kb_name (k_bases (x_kb renamed)) = [''Sales 2'']" by code_simp+
  have same: "same_claim demo_claim demo_answer" by (simp add: demo_answer_def same_claim_def)
  have s: "snapshot_authorizer chat_crypto 2 demo_chat_auth" unfolding snapshot_authorizer_def by blast
  have kb: "x_kb keys_demo = kb_demo" by (simp add: keys_demo_def)
  from replay_reflects_current_content[OF s demo_claimed _ rtranclp.rtrancl_refl step _ demo_replayed_at[OF auth(1)] _ same,
      of ascii_text "uni ''sales''" 5] auth(2)
  show ?thesis by (simp add: chat_demo_def v_kb_def kb entries_keyed_def kb_demo_def[THEN arg_cong, of k_entries])
qed

end
