(* ===== verification/Unicode_Json.thy ===== *)
theory Unicode_Json
  imports Okf_Conversion
begin

text \<open>
  \<open>json.dumps\<close> and \<open>json.loads\<close> on Python strings, as the chat service uses them for the prompt payloads and the
  model's replies (\<open>src/app/services/chat.py\<close>) and the credential cipher for its envelope
  (\<open>src/app/services/llm_settings.py\<close>). Strings are lists of code points. The decoder follows the scanner of CPython: a
  \<open>JSONDecodeError\<close> is told apart from the two other exceptions it can raise, a \<open>ValueError\<close> for an integer of more
  than 4300 digits and a \<open>RecursionError\<close>. The main lemma is the round trip, for both settings of \<open>ensure_ascii\<close>.
\<close>

section \<open>Values and printing\<close>

text \<open>A float is kept as its literal: no code of the program computes with it.\<close>

datatype pyjson =
    PNull
  | PBool bool
  | PInt int
  | PFloat unicode
  | PStr unicode
  | PList "pyjson list"
  | PDict "(unicode \<times> pyjson) list"

definition short_escape :: "nat \<Rightarrow> unicode option" where
  "short_escape c =
     (if c = 34 then Some [92, 34] else if c = 92 then Some [92, 92] else if c = 10 then Some [92, 110]
      else if c = 13 then Some [92, 114] else if c = 9 then Some [92, 116] else if c = 12 then Some [92, 102]
      else if c = 8 then Some [92, 98] else None)"

definition hex_code :: "nat \<Rightarrow> nat" where
  "hex_code d = (if d < 10 then 48 + d else 87 + d)"

definition hex_digits :: "nat \<Rightarrow> unicode" where
  "hex_digits c = [hex_code (c div 4096 mod 16), hex_code (c div 256 mod 16), hex_code (c div 16 mod 16), hex_code (c mod 16)]"

definition u_escape :: "nat \<Rightarrow> unicode" where
  "u_escape c = [92, 117] @ hex_digits c"

text \<open>\<open>ensure_ascii=False\<close> and \<open>ensure_ascii=True\<close>.\<close>

definition escape_raw :: "nat \<Rightarrow> unicode" where
  "escape_raw c = (case short_escape c of Some e \<Rightarrow> e | None \<Rightarrow> if c < 32 then u_escape c else [c])"

definition escape_ascii :: "nat \<Rightarrow> unicode" where
  "escape_ascii c =
     (case short_escape c of
        Some e \<Rightarrow> e
      | None \<Rightarrow>
          if 32 \<le> c \<and> c \<le> 126 then [c]
          else if c < 65536 then u_escape c
          else u_escape (55296 + (c - 65536) div 1024) @ u_escape (56320 + (c - 65536) mod 1024))"

definition quoted :: "(nat \<Rightarrow> unicode) \<Rightarrow> unicode \<Rightarrow> unicode" where
  "quoted esc s = [34] @ concat (map esc s) @ [34]"

fun py_dumps :: "(nat \<Rightarrow> unicode) \<Rightarrow> pyjson \<Rightarrow> unicode"
  and py_dump_items :: "(nat \<Rightarrow> unicode) \<Rightarrow> pyjson list \<Rightarrow> unicode"
  and py_dump_fields :: "(nat \<Rightarrow> unicode) \<Rightarrow> (unicode \<times> pyjson) list \<Rightarrow> unicode" where
  "py_dumps esc PNull = uni ''null''"
| "py_dumps esc (PBool b) = uni (if b then ''true'' else ''false'')"
| "py_dumps esc (PInt i) = uni (int_str i)"
| "py_dumps esc (PFloat s) = s"
| "py_dumps esc (PStr s) = quoted esc s"
| "py_dumps esc (PList xs) = 91 # py_dump_items esc xs"
| "py_dumps esc (PDict kvs) = 123 # py_dump_fields esc kvs"
| "py_dump_items esc [] = [93]"
| "py_dump_items esc (x # xs) = py_dumps esc x @ (if xs = [] then [93] else 44 # py_dump_items esc xs)"
| "py_dump_fields esc [] = [125]"
| "py_dump_fields esc ((k, v) # kvs) =
     quoted esc k @ 58 # py_dumps esc v @ (if kvs = [] then [125] else 44 # py_dump_fields esc kvs)"

section \<open>Scanning\<close>

datatype load_error = JSONDecodeError | IntDigitsError | RecursionError | OutOfFuel

definition is_json_space :: "nat \<Rightarrow> bool" where
  "is_json_space c \<longleftrightarrow> c = 32 \<or> c = 9 \<or> c = 10 \<or> c = 13"

definition skip_space :: "unicode \<Rightarrow> unicode" where
  "skip_space s = dropWhile is_json_space s"

definition ascii_digit :: "nat \<Rightarrow> bool" where
  "ascii_digit c \<longleftrightarrow> 48 \<le> c \<and> c \<le> 57"

definition hex_value :: "nat \<Rightarrow> nat option" where
  "hex_value c =
     (if ascii_digit c then Some (c - 48) else if 97 \<le> c \<and> c \<le> 102 then Some (c - 87)
      else if 65 \<le> c \<and> c \<le> 70 then Some (c - 55) else None)"

definition hex4 :: "unicode \<Rightarrow> (nat \<times> unicode) option" where
  "hex4 s =
     (case s of
        a # b # c # d # rest \<Rightarrow>
          (case (hex_value a, hex_value b, hex_value c, hex_value d) of
             (Some w, Some x, Some y, Some z) \<Rightarrow> Some (((w * 16 + x) * 16 + y) * 16 + z, rest)
           | _ \<Rightarrow> None)
      | _ \<Rightarrow> None)"

definition high_surrogate :: "nat \<Rightarrow> bool" where
  "high_surrogate c \<longleftrightarrow> 55296 \<le> c \<and> c \<le> 56319"

definition low_surrogate :: "nat \<Rightarrow> bool" where
  "low_surrogate c \<longleftrightarrow> 56320 \<le> c \<and> c \<le> 57343"

text \<open>The four digits after \<open>\u\<close>, and the second half of a surrogate pair when one follows.\<close>

definition scan_u :: "unicode \<Rightarrow> (nat \<times> unicode) option" where
  "scan_u s =
     (case hex4 s of
        None \<Rightarrow> None
      | Some (c, rest) \<Rightarrow>
          (case rest of
             a # b # tail \<Rightarrow>
               if high_surrogate c \<and> a = 92 \<and> b = 117
               then (case hex4 tail of
                       None \<Rightarrow> None
                     | Some (l, rest') \<Rightarrow>
                         if low_surrogate l then Some (65536 + (c - 55296) * 1024 + (l - 56320), rest') else Some (c, rest))
               else Some (c, rest)
           | _ \<Rightarrow> Some (c, rest)))"

definition simple_escape :: "nat \<Rightarrow> nat option" where
  "simple_escape c =
     (if c = 34 \<or> c = 92 \<or> c = 47 then Some c else if c = 98 then Some 8 else if c = 102 then Some 12
      else if c = 110 then Some 10 else if c = 114 then Some 13 else if c = 116 then Some 9 else None)"

definition scan_escape :: "unicode \<Rightarrow> (nat \<times> unicode) option" where
  "scan_escape s =
     (case s of
        [] \<Rightarrow> None
      | c # cs \<Rightarrow> if c = 117 then scan_u cs else map_option (\<lambda>d. (d, cs)) (simple_escape c))"

lemma hex4_length: "hex4 s = Some (c, rest) \<Longrightarrow> length rest < length s"
  by (auto simp: hex4_def split: list.split_asm option.split_asm)

lemma scan_u_length: "scan_u s = Some (c, rest) \<Longrightarrow> length rest < length s"
  by (auto simp: scan_u_def dest!: hex4_length split: list.split_asm option.split_asm prod.split_asm if_split_asm)

lemma scan_escape_length: "scan_escape s = Some (c, rest) \<Longrightarrow> length rest < length s"
  by (auto simp: scan_escape_def dest!: scan_u_length split: list.split_asm if_split_asm)

text \<open>The body of a string, after its opening quote.\<close>

function scan_chars :: "unicode \<Rightarrow> (unicode \<times> unicode) option" where
  "scan_chars s =
     (case s of
        [] \<Rightarrow> None
      | c # cs \<Rightarrow>
          if c = 34 then Some ([], cs)
          else if c < 32 then None
          else if c = 92
          then (case scan_escape cs of
                  None \<Rightarrow> None
                | Some (d, rest) \<Rightarrow> (case scan_chars rest of None \<Rightarrow> None | Some (t, r) \<Rightarrow> Some (d # t, r)))
          else (case scan_chars cs of None \<Rightarrow> None | Some (t, r) \<Rightarrow> Some (c # t, r)))"
  by pat_completeness auto

termination
  by (relation "measure length") (auto dest!: scan_escape_length)

declare scan_chars.simps [simp del]

text \<open>A number: whether it is a float, its literal, and the rest.\<close>

definition scan_fraction :: "unicode \<Rightarrow> unicode \<times> unicode" where
  "scan_fraction s =
     (case s of
        a # d # _ \<Rightarrow> if a = 46 \<and> ascii_digit d then (46 # takeWhile ascii_digit (tl s), dropWhile ascii_digit (tl s)) else ([], s)
      | _ \<Rightarrow> ([], s))"

definition scan_exponent :: "unicode \<Rightarrow> unicode \<times> unicode" where
  "scan_exponent s =
     (case s of
        e # r \<Rightarrow>
          if e = 101 \<or> e = 69
          then (let sgn = (case r of c # _ \<Rightarrow> if c = 43 \<or> c = 45 then [c] else [] | [] \<Rightarrow> []); body = drop (length sgn) r
                in if takeWhile ascii_digit body = [] then ([], s)
                   else ([e] @ sgn @ takeWhile ascii_digit body, dropWhile ascii_digit body))
          else ([], s)
      | [] \<Rightarrow> ([], s))"

definition scan_int :: "unicode \<Rightarrow> (unicode \<times> unicode) option" where
  "scan_int s =
     (let sgn = (case s of c # _ \<Rightarrow> if c = 45 then [c] else [] | [] \<Rightarrow> []); body = drop (length sgn) s
      in case body of
           [] \<Rightarrow> None
         | c # cs \<Rightarrow>
             if c = 48 then Some (sgn @ [48], cs)
             else if ascii_digit c then Some (sgn @ takeWhile ascii_digit body, dropWhile ascii_digit body)
             else None)"

definition scan_number :: "unicode \<Rightarrow> (bool \<times> unicode \<times> unicode) option" where
  "scan_number s =
     (case scan_int s of
        None \<Rightarrow> None
      | Some (ip, r) \<Rightarrow>
          (case scan_fraction r of
             (fp, r1) \<Rightarrow> (case scan_exponent r1 of (ep, r2) \<Rightarrow> Some (fp @ ep \<noteq> [], ip @ fp @ ep, r2))))"

definition dec_value :: "unicode \<Rightarrow> nat" where
  "dec_value ds = foldl (\<lambda>a d. 10 * a + (d - 48)) 0 ds"

definition max_str_digits :: nat where
  "max_str_digits = 4300"

definition int_literal :: "unicode \<Rightarrow> load_error + int" where
  "int_literal s =
     (let negative = (s \<noteq> [] \<and> hd s = 45); ds = (if negative then tl s else s)
      in if length ds > max_str_digits then Inl IntDigitsError
         else Inr (if negative then - int (dec_value ds) else int (dec_value ds)))"

definition scan_constant :: "unicode \<Rightarrow> (pyjson \<times> unicode) option" where
  "scan_constant s =
     map_option (\<lambda>(w, v). (v, drop (length w) s))
       (find (\<lambda>(w, v). take (length w) s = w)
          [(uni ''null'', PNull), (uni ''true'', PBool True), (uni ''false'', PBool False),
           (uni ''NaN'', PFloat (uni ''NaN'')), (uni ''Infinity'', PFloat (uni ''Infinity'')),
           (uni ''-Infinity'', PFloat (uni ''-Infinity''))])"

definition scan_scalar :: "unicode \<Rightarrow> load_error + pyjson \<times> unicode" where
  "scan_scalar s =
     (case scan_constant s of
        Some r \<Rightarrow> Inr r
      | None \<Rightarrow>
          (case scan_number s of
             None \<Rightarrow> Inl JSONDecodeError
           | Some (is_float, lit, rest) \<Rightarrow>
               if is_float then Inr (PFloat lit, rest) else bind_r (int_literal lit) (\<lambda>i. Inr (PInt i, rest))))"

definition expect :: "nat \<Rightarrow> unicode \<Rightarrow> load_error + unicode" where
  "expect c s = (case s of d # rest \<Rightarrow> if d = c then Inr rest else Inl JSONDecodeError | [] \<Rightarrow> Inl JSONDecodeError)"

definition scan_key :: "unicode \<Rightarrow> load_error + unicode \<times> unicode" where
  "scan_key s =
     bind_r (expect 34 s) (\<lambda>body.
     (case scan_chars body of
        None \<Rightarrow> Inl JSONDecodeError
      | Some (k, r) \<Rightarrow> bind_r (expect 58 (skip_space r)) (\<lambda>r'. Inr (k, skip_space r'))))"

text \<open>The first argument is fuel, the second how many more containers may be open.\<close>

fun scan_value :: "nat \<Rightarrow> nat \<Rightarrow> unicode \<Rightarrow> load_error + pyjson \<times> unicode"
  and scan_items :: "nat \<Rightarrow> nat \<Rightarrow> unicode \<Rightarrow> load_error + pyjson list \<times> unicode"
  and scan_fields :: "nat \<Rightarrow> nat \<Rightarrow> unicode \<Rightarrow> load_error + (unicode \<times> pyjson) list \<times> unicode" where
  "scan_value 0 d s = Inl OutOfFuel"
| "scan_value (Suc f) d s =
     (case s of
        [] \<Rightarrow> Inl JSONDecodeError
      | c # cs \<Rightarrow>
          if c = 34 then (case scan_chars cs of None \<Rightarrow> Inl JSONDecodeError | Some (t, r) \<Rightarrow> Inr (PStr t, r))
          else if c = 91
          then (if d = 0 then Inl RecursionError
                else if skip_space cs \<noteq> [] \<and> hd (skip_space cs) = 93 then Inr (PList [], tl (skip_space cs))
                else bind_r (scan_items f (d - 1) (skip_space cs)) (\<lambda>(vs, r). Inr (PList vs, r)))
          else if c = 123
          then (if d = 0 then Inl RecursionError
                else if skip_space cs \<noteq> [] \<and> hd (skip_space cs) = 125 then Inr (PDict [], tl (skip_space cs))
                else bind_r (scan_fields f (d - 1) (skip_space cs)) (\<lambda>(kvs, r). Inr (PDict kvs, r)))
          else scan_scalar s)"
| "scan_items 0 d s = Inl OutOfFuel"
| "scan_items (Suc f) d s =
     bind_r (scan_value f d s) (\<lambda>(v, r).
       (case skip_space r of
          [] \<Rightarrow> Inl JSONDecodeError
        | c # cs \<Rightarrow>
            if c = 93 then Inr ([v], cs)
            else if c = 44 then bind_r (scan_items f d (skip_space cs)) (\<lambda>(vs, r'). Inr (v # vs, r'))
            else Inl JSONDecodeError))"
| "scan_fields 0 d s = Inl OutOfFuel"
| "scan_fields (Suc f) d s =
     bind_r (scan_key s) (\<lambda>(k, body).
     bind_r (scan_value f d body) (\<lambda>(v, r).
       (case skip_space r of
          [] \<Rightarrow> Inl JSONDecodeError
        | c # cs \<Rightarrow>
            if c = 125 then Inr ([(k, v)], cs)
            else if c = 44 then bind_r (scan_fields f d (skip_space cs)) (\<lambda>(kvs, r'). Inr ((k, v) # kvs, r'))
            else Inl JSONDecodeError)))"

definition byte_order_mark :: nat where
  "byte_order_mark = 65279"

text \<open>\<open>json_pairs\<close> keeps the members of an object as they are written, which is what an \<open>object_pairs_hook\<close> sees.\<close>

definition json_pairs :: "nat \<Rightarrow> unicode \<Rightarrow> load_error + pyjson" where
  "json_pairs recursion_limit s =
     (if s \<noteq> [] \<and> hd s = byte_order_mark then Inl JSONDecodeError
      else bind_r (scan_value (2 * length s + 2) recursion_limit (skip_space s)) (\<lambda>(v, r).
             if skip_space r = [] then Inr v else Inl JSONDecodeError))"

text \<open>A repeated key of an object keeps its first position and takes the last value.\<close>

fun dict_put :: "'k \<Rightarrow> 'v \<Rightarrow> ('k \<times> 'v) list \<Rightarrow> ('k \<times> 'v) list" where
  "dict_put k v [] = [(k, v)]"
| "dict_put k v ((k', v') # d) = (if k' = k then (k', v) # d else (k', v') # dict_put k v d)"

definition dict_of :: "('k \<times> 'v) list \<Rightarrow> ('k \<times> 'v) list" where
  "dict_of kvs = foldl (\<lambda>d (k, v). dict_put k v d) [] kvs"

fun collapse :: "pyjson \<Rightarrow> pyjson" where
  "collapse (PList xs) = PList (map collapse xs)"
| "collapse (PDict kvs) = PDict (dict_of (map (\<lambda>(k, v). (k, collapse v)) kvs))"
| "collapse v = v"

definition py_loads :: "nat \<Rightarrow> unicode \<Rightarrow> load_error + pyjson" where
  "py_loads recursion_limit s = bind_r (json_pairs recursion_limit s) (\<lambda>v. Inr (collapse v))"

section \<open>The decoder always has fuel enough\<close>

lemma skip_space_length: "length (skip_space s) \<le> length s"
  by (simp add: skip_space_def length_dropWhile_le)

lemma skip_space_tl_length [simp]: "length (skip_space s) - Suc 0 < Suc (length s)"
  using skip_space_length[of s] by linarith

lemma skip_space_Cons_length: "skip_space s = c # cs \<Longrightarrow> length cs < length s"
  by (metis Suc_le_eq length_Cons skip_space_length)

lemma scan_chars_simps:
  "scan_chars [] = None"
  "scan_chars (34 # cs) = Some ([], cs)"
  "c < 32 \<Longrightarrow> scan_chars (c # cs) = None"
  "scan_chars (92 # cs) = Option.bind (scan_escape cs) (\<lambda>(d, rest). map_option (apfst (Cons d)) (scan_chars rest))"
  "c \<noteq> 34 \<Longrightarrow> c \<noteq> 92 \<Longrightarrow> \<not> c < 32 \<Longrightarrow> scan_chars (c # cs) = map_option (apfst (Cons c)) (scan_chars cs)"
  by (subst scan_chars.simps; simp split: option.split prod.split)+

lemma scan_chars_length: "scan_chars s = Some (t, r) \<Longrightarrow> length r < length s"
proof (induction "length s" arbitrary: s t r rule: less_induct)
  case less
  show ?case
  proof (cases s)
    case Nil
    then show ?thesis using less.prems by (simp add: scan_chars_simps)
  next
    case (Cons c cs)
    consider "c = 34" | "c < 32" | "c = 92" | "c \<noteq> 34" "\<not> c < 32" "c \<noteq> 92" by blast
    then show ?thesis
    proof cases
      case 3
      then obtain d rest t' where e: "scan_escape cs = Some (d, rest)" and r: "scan_chars rest = Some (t', r)"
        using less.prems Cons by (auto simp: scan_chars_simps bind_eq_Some_conv)
      have "length rest < length s" using scan_escape_length[OF e] Cons by simp
      with less.hyps[OF this r] show ?thesis by simp
    next
      case 4
      then obtain t' where "scan_chars cs = Some (t', r)" using less.prems Cons by (auto simp: scan_chars_simps)
      then show ?thesis using less.hyps[of cs] Cons by fastforce
    qed (use less.prems Cons in \<open>auto simp: scan_chars_simps\<close>)
  qed
qed

lemma scan_int_length: "scan_int s = Some (lit, r) \<Longrightarrow> length r < length s"
  by (auto simp: scan_int_def Let_def le_imp_less_Suc length_dropWhile_le less_SucI split: list.split_asm if_split_asm)

lemma scan_fraction_length: "scan_fraction s = (t, r) \<Longrightarrow> length r \<le> length s"
  by (auto simp: scan_fraction_def split: list.split_asm if_split_asm intro: le_trans[OF length_dropWhile_le])

lemma scan_exponent_length: "scan_exponent s = (t, r) \<Longrightarrow> length r \<le> length s"
  by (auto simp: scan_exponent_def Let_def split: list.split_asm if_split_asm intro: le_trans[OF length_dropWhile_le])

lemma scan_number_length: "scan_number s = Some (b, lit, r) \<Longrightarrow> length r < length s"
  by (fastforce simp: scan_number_def dest!: scan_int_length scan_fraction_length scan_exponent_length
      split: option.split_asm prod.split_asm)

lemma scan_constant_length: "scan_constant s = Some (v, r) \<Longrightarrow> length r < length s"
  by (cases s) (auto simp: scan_constant_def uni_def split: if_split_asm)

lemma scan_scalar_length: "scan_scalar s = Inr (v, r) \<Longrightarrow> length r < length s"
  by (auto simp: scan_scalar_def result_simps dest!: scan_number_length scan_constant_length
      split: option.split_asm prod.split_asm if_split_asm)

lemma expect_length: "expect c s = Inr r \<Longrightarrow> length r < length s"
  by (auto simp: expect_def split: list.split_asm if_split_asm)

lemma scan_key_length:
  assumes "scan_key s = Inr (k, r)"
  shows "length r < length s"
proof -
  from assms obtain body r0 r1 where b: "expect 34 s = Inr body" and k: "scan_chars body = Some (k, r0)"
    and c: "expect 58 (skip_space r0) = Inr r1" and r: "r = skip_space r1"
    by (auto simp: scan_key_def result_simps split: option.split_asm prod.split_asm)
  have "length r \<le> length r1" by (simp add: r skip_space_length)
  also have "length r1 < length (skip_space r0)" by (rule expect_length[OF c])
  also have "length (skip_space r0) \<le> length r0" by (rule skip_space_length)
  also have "length r0 < length body" by (rule scan_chars_length[OF k])
  also have "length body < length s" by (rule expect_length[OF b])
  finally show ?thesis .
qed

text \<open>Every scan consumes input, and with fuel for two steps a character it does not run dry.\<close>

lemma scan_enough:
  shows "(\<forall>v r. scan_value f d s = Inr (v, r) \<longrightarrow> length r < length s) \<and> (2 * length s < f \<longrightarrow> scan_value f d s \<noteq> Inl OutOfFuel)"
    and "(\<forall>v r. scan_items f d s = Inr (v, r) \<longrightarrow> length r < length s) \<and> (2 * length s + 1 < f \<longrightarrow> scan_items f d s \<noteq> Inl OutOfFuel)"
    and "(\<forall>v r. scan_fields f d s = Inr (v, r) \<longrightarrow> length r < length s) \<and> (2 * length s + 1 < f \<longrightarrow> scan_fields f d s \<noteq> Inl OutOfFuel)"
proof (induction f d s and f d s and f d s rule: scan_value_scan_items_scan_fields.induct)
  case (2 f d s)
  note items = "2.IH"(1)[THEN conjunct1, rule_format] and items_fuel = "2.IH"(1)[THEN conjunct2, rule_format]
    and fields = "2.IH"(2)[THEN conjunct1, rule_format] and fields_fuel = "2.IH"(2)[THEN conjunct2, rule_format]
  have scalar: "scan_scalar s \<noteq> Inl OutOfFuel"
    by (auto simp: scan_scalar_def int_literal_def Let_def result_simps split: option.split prod.split)
  show ?case
  proof (cases s)
    case Nil
    then show ?thesis by simp
  next
    case (Cons c cs)
    have sk: "length (skip_space cs) \<le> length cs" by (rule skip_space_length)
    show ?thesis
    proof (intro conjI allI impI)
      fix v r
      assume a: "scan_value (Suc f) d s = Inr (v, r)"
      consider "c = 34" | "c = 91" | "c = 123" | "c \<noteq> 34" "c \<noteq> 91" "c \<noteq> 123" by blast
      then show "length r < length s"
      proof cases
        case 1
        then show ?thesis using a Cons scan_chars_length[of cs] by (auto split: option.split_asm prod.split_asm)
      next
        case 2
        show ?thesis
        proof (cases "skip_space cs \<noteq> [] \<and> hd (skip_space cs) = 93")
          case True
          then show ?thesis using a Cons 2 sk by (auto split: if_split_asm)
        next
          case False
          then obtain vs where d: "d \<noteq> 0" and vs: "scan_items f (d - 1) (skip_space cs) = Inr (vs, r)"
            using a Cons 2 by (auto simp: result_simps split: if_split_asm)
          have "length r < length (skip_space cs)" by (rule items[OF Cons _ 2 d False vs]) (simp add: 2)
          then show ?thesis using sk Cons by simp
        qed
      next
        case 3
        show ?thesis
        proof (cases "skip_space cs \<noteq> [] \<and> hd (skip_space cs) = 125")
          case True
          then show ?thesis using a Cons 3 sk by (auto split: if_split_asm)
        next
          case False
          then obtain kvs where d: "d \<noteq> 0" and kvs: "scan_fields f (d - 1) (skip_space cs) = Inr (kvs, r)"
            using a Cons 3 by (auto simp: result_simps split: if_split_asm)
          have "length r < length (skip_space cs)" by (rule fields[OF Cons _ _ 3 d False kvs]) (simp_all add: 3)
          then show ?thesis using sk Cons by simp
        qed
      next
        case 4
        then show ?thesis using a Cons scan_scalar_length[of s] by auto
      qed
    next
      assume f: "2 * length s < Suc f"
      then have g: "2 * length (skip_space cs) + 1 < f" using sk Cons by simp
      show "scan_value (Suc f) d s \<noteq> Inl OutOfFuel"
        using scalar Cons g items_fuel[OF Cons] fields_fuel[OF Cons]
        by (auto simp: result_simps split: option.split prod.split)
    qed
  qed
next
  case (4 f d s)
  show ?case
  proof (intro conjI allI impI)
    fix vs r
    assume "scan_items (Suc f) d s = Inr (vs, r)"
    then obtain v r0 where v: "scan_value f d s = Inr (v, r0)" and
      e: "(case skip_space r0 of [] \<Rightarrow> Inl JSONDecodeError
           | c # cs \<Rightarrow> if c = 93 then Inr ([v], cs)
               else if c = 44 then bind_r (scan_items f d (skip_space cs)) (\<lambda>(vs, r'). Inr (v # vs, r'))
               else Inl JSONDecodeError) = Inr (vs, r)"
      by (auto simp: result_simps)
    from e obtain c cs where c: "skip_space r0 = c # cs"
      and k: "r = cs \<or> c = 44 \<and> c \<noteq> 93 \<and> (\<exists>vs'. scan_items f d (skip_space cs) = Inr (vs', r))"
      by (cases "skip_space r0") (auto simp: result_simps split: if_split_asm)
    have "length cs < length s" using skip_space_Cons_length[OF c] "4.IH"(1) v by fastforce
    moreover have "length r \<le> length cs" if "c = 44" "c \<noteq> 93" "scan_items f d (skip_space cs) = Inr (vs', r)" for vs'
      using "4.IH"(2)[OF v refl c that(2,1)] that(3) skip_space_length[of cs] by fastforce
    ultimately show "length r < length s" using k by fastforce
  next
    assume f: "2 * length s + 1 < Suc f"
    show "scan_items (Suc f) d s \<noteq> Inl OutOfFuel"
    proof
      assume a: "scan_items (Suc f) d s = Inl OutOfFuel"
      have "scan_value f d s \<noteq> Inl OutOfFuel" using "4.IH"(1) f by simp
      with a obtain v r0 where v: "scan_value f d s = Inr (v, r0)" and
        e: "(case skip_space r0 of [] \<Rightarrow> Inl JSONDecodeError
             | c # cs \<Rightarrow> if c = 93 then Inr ([v], cs)
                 else if c = 44 then bind_r (scan_items f d (skip_space cs)) (\<lambda>(vs, r'). Inr (v # vs, r'))
                 else Inl JSONDecodeError) = Inl OutOfFuel"
        by (auto simp: result_simps)
      from e obtain c cs where c: "skip_space r0 = c # cs"
        and k: "c = 44" "c \<noteq> 93" "scan_items f d (skip_space cs) = Inl OutOfFuel"
        by (cases "skip_space r0") (auto simp: result_simps split: if_split_asm)
      have "length cs < length r0" by (rule skip_space_Cons_length[OF c])
      also have "length r0 < length s" using "4.IH"(1) v by blast
      finally have "2 * length (skip_space cs) + 1 < f" using skip_space_length[of cs] f by linarith
      then show False using "4.IH"(2)[OF v refl c k(2,1)] k(3) by blast
    qed
  qed
next
  case (6 f d s)
  show ?case
  proof (intro conjI allI impI)
    fix kvs r
    assume "scan_fields (Suc f) d s = Inr (kvs, r)"
    then obtain k body v r0 where key: "scan_key s = Inr (k, body)" and v: "scan_value f d body = Inr (v, r0)" and
      a: "(case skip_space r0 of [] \<Rightarrow> Inl JSONDecodeError
           | c # cs \<Rightarrow> if c = 125 then Inr ([(k, v)], cs)
               else if c = 44 then bind_r (scan_fields f d (skip_space cs)) (\<lambda>(kvs, r'). Inr ((k, v) # kvs, r'))
               else Inl JSONDecodeError) = Inr (kvs, r)"
      by (auto simp: result_simps)
    from a obtain c cs where c: "skip_space r0 = c # cs"
      and e: "r = cs \<or> c = 44 \<and> c \<noteq> 125 \<and> (\<exists>kvs'. scan_fields f d (skip_space cs) = Inr (kvs', r))"
      by (cases "skip_space r0") (auto simp: result_simps split: if_split_asm)
    have "length r0 < length body" using "6.IH"(1)[OF key refl] v by blast
    then have "length cs < length s" using skip_space_Cons_length[OF c] scan_key_length[OF key] by linarith
    moreover have "length r \<le> length cs" if "c = 44" "c \<noteq> 125" "scan_fields f d (skip_space cs) = Inr (kvs', r)" for kvs'
      using "6.IH"(2)[OF key refl v refl c that(2,1)] that(3) skip_space_length[of cs] by fastforce
    ultimately show "length r < length s" using e by fastforce
  next
    assume f: "2 * length s + 1 < Suc f"
    show "scan_fields (Suc f) d s \<noteq> Inl OutOfFuel"
    proof
      assume a: "scan_fields (Suc f) d s = Inl OutOfFuel"
      have "scan_key s \<noteq> Inl OutOfFuel"
        by (auto simp: scan_key_def expect_def result_simps split: list.split option.split prod.split)
      with a obtain k body where key: "scan_key s = Inr (k, body)" by (auto simp: result_simps)
      have "scan_value f d body \<noteq> Inl OutOfFuel" using "6.IH"(1)[OF key refl] f scan_key_length[OF key] by simp
      with a key obtain v r0 where v: "scan_value f d body = Inr (v, r0)" and
        b: "(case skip_space r0 of [] \<Rightarrow> Inl JSONDecodeError
             | c # cs \<Rightarrow> if c = 125 then Inr ([(k, v)], cs)
                 else if c = 44 then bind_r (scan_fields f d (skip_space cs)) (\<lambda>(kvs, r'). Inr ((k, v) # kvs, r'))
                 else Inl JSONDecodeError) = Inl OutOfFuel"
        by (auto simp: result_simps)
      from b obtain c cs where c: "skip_space r0 = c # cs"
        and e: "c = 44" "c \<noteq> 125" "scan_fields f d (skip_space cs) = Inl OutOfFuel"
        by (cases "skip_space r0") (auto simp: result_simps split: if_split_asm)
      have "length cs < length r0" by (rule skip_space_Cons_length[OF c])
      also have "length r0 < length body" using "6.IH"(1)[OF key refl] v by blast
      finally have "2 * length (skip_space cs) + 1 < f"
        using skip_space_length[of cs] scan_key_length[OF key] f by linarith
      then show False using "6.IH"(2)[OF key refl v refl c e(2,1)] e(3) by blast
    qed
  qed
qed simp_all

lemma json_pairs_total: "json_pairs limit s \<noteq> Inl OutOfFuel"
proof -
  have "2 * length (skip_space s) < 2 * length s + 2" using skip_space_length[of s] by linarith
  then have "scan_value (2 * length s + 2) limit (skip_space s) \<noteq> Inl OutOfFuel" using scan_enough(1) by blast
  then show ?thesis by (auto simp: json_pairs_def result_simps simp del: scan_value.simps)
qed

lemma py_loads_total: "py_loads limit s \<noteq> Inl OutOfFuel"
  using json_pairs_total[of limit s] by (auto simp: py_loads_def result_simps)

section \<open>Numbers are read back\<close>

lemma of_char_hex_digit: "n < 10 \<Longrightarrow> of_char (hex_digit n) = 48 + n"
proof -
  assume "n < 10"
  then have "n \<in> {0, 1, 2, 3, 4, 5, 6, 7, 8, 9}" by auto
  then show ?thesis by (auto simp: hex_digit_def)
qed

lemma uni_simps [simp]: "uni [] = []" "uni (c # cs) = of_char c # uni cs" "uni (s @ t) = uni s @ uni t"
  by (simp_all add: uni_def)

lemma dec_value_snoc [simp]: "dec_value (ds @ [d]) = 10 * dec_value ds + (d - 48)"
  by (simp add: dec_value_def)

lemma nat_str_read:
  "dec_value (uni (nat_str n)) = n \<and> (\<forall>c \<in> set (uni (nat_str n)). ascii_digit c) \<and> uni (nat_str n) \<noteq> [] \<and>
   (hd (uni (nat_str n)) = 48 \<longrightarrow> n = 0)"
proof (induction n rule: nat_str.induct)
  case (1 n)
  show ?case
  proof (cases "n < 10")
    case True
    then show ?thesis by (simp add: nat_str.simps[of n] of_char_hex_digit ascii_digit_def dec_value_def)
  next
    case False
    then have ih: "dec_value (uni (nat_str (n div 10))) = n div 10" "\<forall>c \<in> set (uni (nat_str (n div 10))). ascii_digit c"
      "uni (nat_str (n div 10)) \<noteq> []" "hd (uni (nat_str (n div 10))) = 48 \<longrightarrow> n div 10 = 0"
      using "1.IH" by blast+
    have e: "uni (nat_str n) = uni (nat_str (n div 10)) @ [48 + n mod 10]"
      using False by (simp add: nat_str.simps[of n] of_char_hex_digit)
    show ?thesis unfolding e using ih False by (auto simp: ascii_digit_def)
  qed
qed

definition no_number :: "unicode \<Rightarrow> bool" where
  "no_number s \<longleftrightarrow> (case s of [] \<Rightarrow> True | c # _ \<Rightarrow> \<not> ascii_digit c \<and> c \<noteq> 46 \<and> c \<noteq> 101 \<and> c \<noteq> 69)"

lemma no_number_simps [simp]:
  "no_number []" "no_number (93 # s)" "no_number (125 # s)" "no_number (44 # s)"
  by (simp_all add: no_number_def ascii_digit_def)

lemma scan_int_nat:
  assumes "no_number rest"
  shows "scan_int (uni (nat_str n) @ rest) = Some (uni (nat_str n), rest)"
    "scan_int (45 # uni (nat_str n) @ rest) = Some (45 # uni (nat_str n), rest)"
proof -
  obtain c cs where c: "uni (nat_str n) = c # cs" using nat_str_read[of n] by (cases "uni (nat_str n)") auto
  have digits: "ascii_digit c" "\<forall>d \<in> set cs. ascii_digit d" and z: "c = 48 \<Longrightarrow> n = 0"
    using nat_str_read[of n] by (simp_all add: c)
  have cs: "cs = []" if "c = 48" using c z[OF that] by (simp add: nat_str.simps[of 0])
  have rest: "takeWhile ascii_digit rest = []" "dropWhile ascii_digit rest = rest"
    using assms by (cases rest; simp add: no_number_def)+
  have n45: "c \<noteq> 45" using digits(1) by (auto simp: ascii_digit_def)
  show "scan_int (uni (nat_str n) @ rest) = Some (uni (nat_str n), rest)"
    "scan_int (45 # uni (nat_str n) @ rest) = Some (45 # uni (nat_str n), rest)"
    using digits rest n45 cs by (auto simp: c scan_int_def Let_def takeWhile_append2 dropWhile_append2)
qed

lemma scan_number_int:
  assumes "scan_int s = Some (lit, rest)" "no_number rest"
  shows "scan_number s = Some (False, lit, rest)"
  using assms
  by (auto simp: scan_number_def scan_fraction_def scan_exponent_def no_number_def split: list.split)

definition short_int :: "int \<Rightarrow> bool" where
  "short_int i \<longleftrightarrow> length (nat_str (nat \<bar>i\<bar>)) \<le> max_str_digits"

lemma scan_scalar_int:
  assumes "short_int i" "no_number rest"
  shows "scan_scalar (uni (int_str i) @ rest) = Inr (PInt i, rest)"
proof -
  define n where "n = nat \<bar>i\<bar>"
  obtain c cs where c: "uni (nat_str n) = c # cs" using nat_str_read[of n] by (cases "uni (nat_str n)") auto
  have dc: "ascii_digit c" and val: "dec_value (c # cs) = n" using nat_str_read[of n] by (simp_all add: c)
  have len: "length (c # cs) \<le> max_str_digits"
    using assms(1) arg_cong[OF c, of length] by (simp add: short_int_def n_def uni_def)
  have s: "uni (int_str i) = (if i < 0 then 45 # c # cs else c # cs)"
    unfolding c[symmetric] by (simp add: int_str_def n_def)
  have "scan_constant (uni (int_str i) @ rest) = None"
    unfolding s using dc by (auto simp: scan_constant_def ascii_digit_def)
  moreover have "scan_number (uni (int_str i) @ rest) = Some (False, uni (int_str i), rest)"
    using scan_int_nat[OF assms(2), of n] by (intro scan_number_int[OF _ assms(2)]) (auto simp: s c)
  moreover have "int_literal (uni (int_str i)) = Inr i"
    using dc len val by (auto simp: s int_literal_def n_def ascii_digit_def)
  ultimately show ?thesis by (simp add: scan_scalar_def)
qed

section \<open>The round trip\<close>

lemma dict_put_fresh: "k \<notin> fst ` set d \<Longrightarrow> dict_put k v d = d @ [(k, v)]"
  by (induction k v d rule: dict_put.induct) auto

lemma dict_of_distinct: "distinct (map fst kvs) \<Longrightarrow> dict_of kvs = kvs"
proof (induction kvs rule: rev_induct)
  case (snoc kv kvs)
  then show ?case by (cases kv) (auto simp: dict_of_def dict_put_fresh image_iff)
qed (simp add: dict_of_def)

text \<open>What the encoder writes so that the decoder reads it back: no floats, keys once, characters the escaping can carry.\<close>

fun writable :: "(nat \<Rightarrow> bool) \<Rightarrow> nat \<Rightarrow> pyjson \<Rightarrow> bool" where
  "writable ok d PNull = True"
| "writable ok d (PBool b) = True"
| "writable ok d (PInt i) = short_int i"
| "writable ok d (PFloat s) = False"
| "writable ok d (PStr s) = list_all ok s"
| "writable ok d (PList xs) = (d > 0 \<and> (\<forall>x \<in> set xs. writable ok (d - 1) x))"
| "writable ok d (PDict kvs) = (d > 0 \<and> distinct (map fst kvs) \<and>
     (\<forall>kv \<in> set kvs. list_all ok (fst kv) \<and> writable ok (d - 1) (snd kv)))"

lemma collapse_writable: "writable ok d v \<Longrightarrow> collapse v = v"
proof (induction ok d v rule: writable.induct)
  case (6 ok d xs)
  then show ?case by (auto intro: map_idI)
next
  case (7 ok d kvs)
  have "map (\<lambda>(k, v). (k, collapse v)) kvs = kvs" using 7 by (intro map_idI) (auto split: prod.splits)
  then show ?case using 7 by (simp add: dict_of_distinct)
qed simp_all

lemma scan_value_scalar:
  "0 < f \<Longrightarrow> c \<noteq> 34 \<Longrightarrow> c \<noteq> 91 \<Longrightarrow> c \<noteq> 123 \<Longrightarrow> scan_value f d (c # cs) = scan_scalar (c # cs)"
  by (cases f) simp_all

locale json_writer =
  fixes esc :: "nat \<Rightarrow> unicode" and ok :: "nat \<Rightarrow> bool"
  assumes scan_esc: "ok c \<Longrightarrow> scan_chars (esc c @ s) = map_option (apfst (Cons c)) (scan_chars s)"
begin

lemma scan_text: "list_all ok t \<Longrightarrow> scan_chars (concat (map esc t) @ 34 # s) = Some (t, s)"
  by (induction t) (simp_all add: scan_chars_simps scan_esc)

lemma dumps_first:
  assumes "writable ok d v"
  shows "\<exists>c cs. py_dumps esc v = c # cs \<and> \<not> is_json_space c \<and> c \<noteq> 93 \<and> c \<noteq> 125 \<and> c < 128"
proof (cases v)
  case (PInt i)
  obtain c cs where c: "uni (nat_str (nat \<bar>i\<bar>)) = c # cs"
    using nat_str_read[of "nat \<bar>i\<bar>"] by (cases "uni (nat_str (nat \<bar>i\<bar>))") auto
  have "ascii_digit c" using nat_str_read[of "nat \<bar>i\<bar>"] by (simp add: c)
  then show ?thesis using PInt c by (auto simp: int_str_def is_json_space_def ascii_digit_def)
qed (use assms in \<open>auto simp: is_json_space_def quoted_def\<close>)

lemma dumps_items_first:
  assumes "xs \<noteq> []" "\<forall>x \<in> set xs. writable ok d x"
  shows "skip_space (py_dump_items esc xs @ rest) = py_dump_items esc xs @ rest"
    "hd (py_dump_items esc xs @ rest) \<noteq> 93" "py_dump_items esc xs @ rest \<noteq> []"
proof -
  obtain x ys where xs: "xs = x # ys" using assms(1) by (cases xs) auto
  then show "skip_space (py_dump_items esc xs @ rest) = py_dump_items esc xs @ rest"
    "hd (py_dump_items esc xs @ rest) \<noteq> 93" "py_dump_items esc xs @ rest \<noteq> []"
    using dumps_first[of d x] assms(2) by (auto simp: skip_space_def)
qed

lemma dumps_fields_first:
  assumes "kvs \<noteq> []"
  shows "\<exists>cs. py_dump_fields esc kvs = 34 # cs"
  using assms by (cases kvs) (auto simp: quoted_def)

lemma scan_key_written:
  assumes "list_all ok k" "writable ok d v"
  shows "scan_key (quoted esc k @ 58 # py_dumps esc v @ s) = Inr (k, py_dumps esc v @ s)"
  using dumps_first[OF assms(2)] scan_text[OF assms(1), of "58 # py_dumps esc v @ s"]
  by (auto simp: scan_key_def expect_def quoted_def skip_space_def is_json_space_def)

definition reads_back :: "pyjson \<Rightarrow> bool" where
  "reads_back v \<longleftrightarrow> (\<forall>d f rest. writable ok d v \<longrightarrow> no_number rest \<longrightarrow> 2 * length (py_dumps esc v) < f \<longrightarrow>
     scan_value f d (py_dumps esc v @ rest) = Inr (v, rest))"

lemma reads_backD:
  "reads_back v \<Longrightarrow> writable ok d v \<Longrightarrow> no_number rest \<Longrightarrow> 2 * length (py_dumps esc v) < f \<Longrightarrow>
     scan_value f d (py_dumps esc v @ rest) = Inr (v, rest)"
  unfolding reads_back_def by blast

lemma scan_items_written:
  assumes "xs \<noteq> []" "\<forall>x \<in> set xs. reads_back x \<and> writable ok d x" "2 * length (py_dump_items esc xs) < f"
  shows "scan_items f d (py_dump_items esc xs @ rest) = Inr (xs, rest)"
  using assms
proof (induction xs arbitrary: f)
  case (Cons x xs)
  obtain f' where f: "f = Suc f'" using Cons.prems(3) by (cases f) auto
  have x: "reads_back x" "writable ok d x" using Cons.prems(2) by simp_all
  have len: "2 * length (py_dumps esc x) < f'" using Cons.prems(3) f by (auto split: if_split_asm)
  show ?case
  proof (cases "xs = []")
    case True
    have "scan_value f' d (py_dumps esc x @ 93 # rest) = Inr (x, 93 # rest)" by (rule reads_backD[OF x _ len]) simp
    then show ?thesis using True by (simp add: f skip_space_def is_json_space_def)
  next
    case False
    have v: "scan_value f' d (py_dumps esc x @ 44 # py_dump_items esc xs @ rest) = Inr (x, 44 # py_dump_items esc xs @ rest)"
      by (rule reads_backD[OF x _ len]) simp
    have ih: "scan_items f' d (py_dump_items esc xs @ rest) = Inr (xs, rest)"
      using Cons.IH[OF False, of f'] Cons.prems(2,3) False f by auto
    have sk: "skip_space (py_dump_items esc xs @ rest) = py_dump_items esc xs @ rest"
      using dumps_items_first(1)[OF False, of d] Cons.prems(2) by auto
    have c: "skip_space (44 # py_dump_items esc xs @ rest) = 44 # py_dump_items esc xs @ rest"
      by (simp add: skip_space_def is_json_space_def)
    show ?thesis using False v by (simp add: f c sk ih)
  qed
qed simp

lemma scan_fields_written:
  assumes "kvs \<noteq> []" "\<forall>kv \<in> set kvs. list_all ok (fst kv) \<and> reads_back (snd kv) \<and> writable ok d (snd kv)"
    "2 * length (py_dump_fields esc kvs) < f"
  shows "scan_fields f d (py_dump_fields esc kvs @ rest) = Inr (kvs, rest)"
  using assms
proof (induction kvs arbitrary: f)
  case (Cons kv kvs)
  obtain k v where kv: "kv = (k, v)" by (cases kv)
  obtain f' where f: "f = Suc f'" using Cons.prems(3) by (cases f) auto
  have x: "list_all ok k" "reads_back v" "writable ok d v" using Cons.prems(2) by (simp_all add: kv)
  have len: "2 * length (py_dumps esc v) < f'" using Cons.prems(3) f kv by (auto split: if_split_asm)
  note key = scan_key_written[OF x(1,3)]
  show ?case
  proof (cases "kvs = []")
    case True
    have "scan_value f' d (py_dumps esc v @ 125 # rest) = Inr (v, 125 # rest)" by (rule reads_backD[OF x(2,3) _ len]) simp
    then show ?thesis using True key[of "125 # rest"] by (simp add: f kv skip_space_def is_json_space_def)
  next
    case False
    let ?s = "44 # py_dump_fields esc kvs @ rest"
    have v: "scan_value f' d (py_dumps esc v @ ?s) = Inr (v, ?s)" by (rule reads_backD[OF x(2,3) _ len]) simp
    have ih: "scan_fields f' d (py_dump_fields esc kvs @ rest) = Inr (kvs, rest)"
      using Cons.IH[OF False, of f'] Cons.prems(2,3) False f kv by auto
    have sk: "skip_space ?s = ?s" "skip_space (py_dump_fields esc kvs @ rest) = py_dump_fields esc kvs @ rest"
      using dumps_fields_first[OF False] by (auto simp: skip_space_def is_json_space_def)
    show ?thesis using False v key[of ?s] by (simp add: f kv sk ih)
  qed
qed simp

lemma scan_written: "reads_back v"
proof (induction v)
  case (PList xs)
  show ?case unfolding reads_back_def
  proof (intro allI impI)
    fix d f rest
    assume w: "writable ok d (PList xs)" and l: "2 * length (py_dumps esc (PList xs)) < f"
    obtain f' where f: "f = Suc f'" using l by (cases f) auto
    show "scan_value f d (py_dumps esc (PList xs) @ rest) = Inr (PList xs, rest)"
    proof (cases "xs = []")
      case True
      then show ?thesis using w by (simp add: f skip_space_def is_json_space_def)
    next
      case False
      have "scan_items f' (d - 1) (py_dump_items esc xs @ rest) = Inr (xs, rest)"
        using scan_items_written[OF False, of "d - 1" f'] PList w l f by auto
      then show ?thesis using w dumps_items_first[OF False, of "d - 1" rest] by (simp add: f)
    qed
  qed
next
  case (PDict kvs)
  have ih: "reads_back (snd kv)" if "kv \<in> set kvs" for kv using PDict[OF that, of "snd kv"] by (cases kv) simp
  show ?case unfolding reads_back_def
  proof (intro allI impI)
    fix d f rest
    assume w: "writable ok d (PDict kvs)" and l: "2 * length (py_dumps esc (PDict kvs)) < f"
    obtain f' where f: "f = Suc f'" using l by (cases f) auto
    show "scan_value f d (py_dumps esc (PDict kvs) @ rest) = Inr (PDict kvs, rest)"
    proof (cases "kvs = []")
      case True
      then show ?thesis using w by (simp add: f skip_space_def is_json_space_def)
    next
      case False
      have r: "scan_fields f' (d - 1) (py_dump_fields esc kvs @ rest) = Inr (kvs, rest)"
        using scan_fields_written[OF False, of "d - 1" f'] ih w l f by auto
      obtain cs where cs: "py_dump_fields esc kvs = 34 # cs" using dumps_fields_first[OF False] by blast
      have "skip_space (py_dump_fields esc kvs @ rest) = py_dump_fields esc kvs @ rest"
        by (simp add: cs skip_space_def is_json_space_def)
      then show ?thesis using w r by (simp add: f cs)
    qed
  qed
next
  case (PInt i)
  show ?case unfolding reads_back_def
  proof (intro allI impI)
    fix d f rest
    assume w: "writable ok d (PInt i)" and n: "no_number rest" and l: "2 * length (py_dumps esc (PInt i)) < f"
    obtain f' where f: "f = Suc f'" using l by (cases f) auto
    obtain c cs where c: "uni (int_str i) = c # cs" and h: "c \<noteq> 34" "c \<noteq> 91" "c \<noteq> 123"
    proof -
      obtain c cs where "uni (nat_str (nat \<bar>i\<bar>)) = c # cs" "ascii_digit c"
        using nat_str_read[of "nat \<bar>i\<bar>"] by (cases "uni (nat_str (nat \<bar>i\<bar>))") auto
      then show ?thesis using that by (cases "i < 0") (auto simp: int_str_def ascii_digit_def)
    qed
    have "scan_scalar (c # cs @ rest) = Inr (PInt i, rest)" using scan_scalar_int[of i rest] w n c by simp
    then show "scan_value f d (py_dumps esc (PInt i) @ rest) = Inr (PInt i, rest)" using c h by (simp add: f)
  qed
next
  case (PStr t)
  show ?case unfolding reads_back_def
  proof (intro allI impI)
    fix d f rest
    assume "writable ok d (PStr t)" and l: "2 * length (py_dumps esc (PStr t)) < f"
    moreover obtain f' where "f = Suc f'" using l by (cases f) auto
    ultimately show "scan_value f d (py_dumps esc (PStr t) @ rest) = Inr (PStr t, rest)"
      using scan_text[of t rest] by (simp add: quoted_def)
  qed
qed (simp_all add: reads_back_def scan_value_scalar scan_scalar_def scan_constant_def)

lemma pairs_dumps:
  assumes "writable ok limit v"
  shows "json_pairs limit (py_dumps esc v) = Inr v"
proof -
  obtain c cs where c: "py_dumps esc v = c # cs" "\<not> is_json_space c" "c < 128" using dumps_first[OF assms] by blast
  have "scan_value (2 * length (c # cs) + 2) limit ((c # cs) @ []) = Inr (v, [])"
    by (rule reads_backD[OF scan_written assms, unfolded c]) simp_all
  moreover have "c \<noteq> byte_order_mark" using c(3) by (simp add: byte_order_mark_def)
  ultimately show ?thesis using c by (simp add: json_pairs_def skip_space_def)
qed

lemma loads_dumps: "writable ok limit v \<Longrightarrow> py_loads limit (py_dumps esc v) = Inr v"
  by (simp add: py_loads_def pairs_dumps collapse_writable)

end

section \<open>Both settings of ensure\_ascii are read back\<close>

lemma hex_value_code: "d < 16 \<Longrightarrow> hex_value (hex_code d) = Some d"
  by (auto simp: hex_value_def hex_code_def ascii_digit_def)

lemma hex4_read:
  assumes "c < 65536"
  shows "hex4 (hex_digits c @ s) = Some (c, s)"
proof -
  have "c div 4096 < 16" using assms by simp
  then have a: "c div 4096 mod 16 = c div 4096" by simp
  have b: "c div 4096 = c div 256 div 16" "c div 256 = c div 16 div 16" by (simp_all add: div_mult2_eq[symmetric])
  have "((c div 4096 mod 16 * 16 + c div 256 mod 16) * 16 + c div 16 mod 16) * 16 + c mod 16 = c"
    unfolding a unfolding b by simp
  then show ?thesis by (simp add: hex4_def hex_digits_def hex_value_code del: mod_less)
qed

lemma scan_short: "short_escape c = Some e \<Longrightarrow> scan_chars (e @ s) = map_option (apfst (Cons c)) (scan_chars s)"
  by (auto simp: short_escape_def scan_chars_simps scan_escape_def simple_escape_def split: if_split_asm)

lemma scan_u_plain:
  assumes "c < 65536" "\<not> high_surrogate c"
  shows "scan_chars (u_escape c @ s) = map_option (apfst (Cons c)) (scan_chars s)"
  using assms by (simp add: u_escape_def scan_chars_simps scan_escape_def scan_u_def hex4_read split: list.split)

lemma scan_u_pair:
  assumes "high_surrogate h" "low_surrogate l"
  shows "scan_chars (u_escape h @ u_escape l @ s) =
    map_option (apfst (Cons (65536 + (h - 55296) * 1024 + (l - 56320)))) (scan_chars s)"
proof -
  have "h < 65536" "l < 65536" using assms by (simp_all add: high_surrogate_def low_surrogate_def)
  then show ?thesis using assms by (simp add: u_escape_def scan_chars_simps scan_escape_def scan_u_def hex4_read)
qed

interpretation raw_dump: json_writer escape_raw "\<lambda>c. True"
proof
  fix c s
  show "scan_chars (escape_raw c @ s) = map_option (apfst (Cons c)) (scan_chars s)"
  proof (cases "short_escape c")
    case None
    then have "c \<noteq> 34" "c \<noteq> 92" by (auto simp: short_escape_def split: if_split_asm)
    then show ?thesis using None scan_u_plain[of c s] by (auto simp: escape_raw_def scan_chars_simps high_surrogate_def)
  qed (simp add: escape_raw_def scan_short)
qed

definition scalar_value :: "nat \<Rightarrow> bool" where
  "scalar_value c \<longleftrightarrow> c < 1114112 \<and> \<not> (55296 \<le> c \<and> c \<le> 57343)"

interpretation ascii_dump: json_writer escape_ascii scalar_value
proof
  fix c s
  assume c: "scalar_value c"
  show "scan_chars (escape_ascii c @ s) = map_option (apfst (Cons c)) (scan_chars s)"
  proof (cases "short_escape c")
    case None
    then have n: "c \<noteq> 34" "c \<noteq> 92" by (auto simp: short_escape_def split: if_split_asm)
    consider "32 \<le> c" "c \<le> 126" | "\<not> (32 \<le> c \<and> c \<le> 126)" "c < 65536" | "65536 \<le> c" "c < 1114112"
      using c by (force simp: scalar_value_def)
    then show ?thesis
    proof cases
      case 2
      then show ?thesis using None c scan_u_plain[of c s] by (auto simp: escape_ascii_def high_surrogate_def scalar_value_def)
    next
      case 3
      let ?h = "55296 + (c - 65536) div 1024" and ?l = "56320 + (c - 65536) mod 1024"
      have "high_surrogate ?h" "low_surrogate ?l" using 3 by (auto simp: high_surrogate_def low_surrogate_def)
      moreover have "65536 + (?h - 55296) * 1024 + (?l - 56320) = c" using 3 by simp
      ultimately show ?thesis using None 3 scan_u_pair[of ?h ?l s] by (simp add: escape_ascii_def)
    qed (use None n in \<open>simp add: escape_ascii_def scan_chars_simps\<close>)
  qed (simp add: escape_ascii_def scan_short)
qed

end
