(* ===== verification/Py_Text.thy ===== *)
theory Py_Text
  imports Unicode_Json "HOL-Library.Sublist"
begin

text \<open>
  The methods of Python's \<open>str\<close> that the chat and provider code calls, on lists of code points, and \<open>urllib.parse.urlparse\<close>
  as far as its callers look at the result. The tables of the Unicode database (letters, digits, case) are arguments
  where a definition needs them.
\<close>

section \<open>Methods of str\<close>

definition strip :: "unicode \<Rightarrow> unicode" where
  "strip s = strip_with uni_isspace s"

definition lstrip :: "unicode \<Rightarrow> unicode" where
  "lstrip s = dropWhile uni_isspace s"

definition rstrip_with :: "('a \<Rightarrow> bool) \<Rightarrow> 'a list \<Rightarrow> 'a list" where
  "rstrip_with p s = rev (dropWhile p (rev s))"

definition rstrip :: "unicode \<Rightarrow> unicode" where
  "rstrip s = rstrip_with uni_isspace s"

definition removesuffix :: "'a list \<Rightarrow> 'a list \<Rightarrow> 'a list" where
  "removesuffix t s = (if t \<noteq> [] \<and> suffix t s then take (length s - length t) s else s)"

fun join_with :: "'a list \<Rightarrow> 'a list list \<Rightarrow> 'a list" where
  "join_with sep [] = []"
| "join_with sep [x] = x"
| "join_with sep (x # y # ys) = x @ sep @ join_with sep (y # ys)"

text \<open>\<open>s.split(c)\<close> for a one-character separator: never empty.\<close>

fun split_on :: "'a \<Rightarrow> 'a list \<Rightarrow> 'a list list" where
  "split_on c [] = [[]]"
| "split_on c (d # s) = (if d = c then [] # split_on c s else (case split_on c s of w # ws \<Rightarrow> (d # w) # ws | [] \<Rightarrow> [[d]]))"

text \<open>\<open>s.partition(c)\<close> and \<open>s.rpartition(c)\<close>: before, whether the separator was found, after.\<close>

definition partition_at :: "'a \<Rightarrow> 'a list \<Rightarrow> 'a list \<times> bool \<times> 'a list" where
  "partition_at c s =
     (if c \<in> set s then (takeWhile (\<lambda>d. d \<noteq> c) s, True, tl (dropWhile (\<lambda>d. d \<noteq> c) s)) else (s, False, []))"

definition rpartition_at :: "'a \<Rightarrow> 'a list \<Rightarrow> 'a list \<times> bool \<times> 'a list" where
  "rpartition_at c s =
     (if c \<in> set s
      then (rev (tl (dropWhile (\<lambda>d. d \<noteq> c) (rev s))), True, rev (takeWhile (\<lambda>d. d \<noteq> c) (rev s)))
      else ([], False, s))"

text \<open>\<open>s.split()\<close>: the maximal runs without white space.\<close>

definition words_of :: "unicode \<Rightarrow> unicode list" where
  "words_of s = runs (\<lambda>c. \<not> uni_isspace c) s"

text \<open>\<open>s.splitlines()\<close>; the flag says that the last character was a carriage return, which takes a line feed with it.\<close>

definition is_line_break :: "nat \<Rightarrow> bool" where
  "is_line_break c \<longleftrightarrow> (10 \<le> c \<and> c \<le> 13) \<or> (28 \<le> c \<and> c \<le> 30) \<or> c = 133 \<or> c = 8232 \<or> c = 8233"

fun splitlines_from :: "bool \<Rightarrow> unicode \<Rightarrow> unicode \<Rightarrow> unicode list" where
  "splitlines_from cr line [] = (if line = [] then [] else [rev line])"
| "splitlines_from cr line (c # cs) =
     (if cr \<and> c = 10 then splitlines_from False line cs
      else if is_line_break c then rev line # splitlines_from (c = 13) [] cs
      else splitlines_from False (c # line) cs)"

definition splitlines :: "unicode \<Rightarrow> unicode list" where
  "splitlines s = splitlines_from False [] s"

definition index_of :: "'a \<Rightarrow> 'a list \<Rightarrow> nat option" where
  "index_of c s = (if c \<in> set s then Some (length (takeWhile (\<lambda>d. d \<noteq> c) s)) else None)"

section \<open>urlparse\<close>

text \<open>
  \<open>ut_lower\<close> is \<open>str.lower\<close>, \<open>ut_nfkc\<close> the NFKC normal form, \<open>ut_bracketed\<close> the check of a bracketed host (an IP address
  literal).
\<close>

record url_ops =
  ut_lower :: "unicode \<Rightarrow> unicode"
  ut_nfkc :: "unicode \<Rightarrow> unicode"
  ut_bracketed :: "unicode \<Rightarrow> bool"

record split_url =
  ul_scheme :: unicode
  ul_netloc :: unicode
  ul_query :: unicode
  ul_fragment :: unicode

definition ascii_alpha :: "nat \<Rightarrow> bool" where
  "ascii_alpha c \<longleftrightarrow> (97 \<le> c \<and> c \<le> 122) \<or> (65 \<le> c \<and> c \<le> 90)"

definition scheme_char :: "nat \<Rightarrow> bool" where
  "scheme_char c \<longleftrightarrow> ascii_alpha c \<or> ascii_digit c \<or> c = 43 \<or> c = 45 \<or> c = 46"

definition split_scheme :: "url_ops \<Rightarrow> unicode \<Rightarrow> unicode \<times> unicode" where
  "split_scheme uo url =
     (case index_of 58 url of
        Some i \<Rightarrow>
          if i > 0 \<and> ascii_alpha (hd url) \<and> list_all scheme_char (take i url)
          then (ut_lower uo (take i url), drop (i + 1) url) else ([], url)
      | None \<Rightarrow> ([], url))"

definition checknetloc :: "url_ops \<Rightarrow> unicode \<Rightarrow> bool" where
  "checknetloc uo netloc \<longleftrightarrow>
     list_all (\<lambda>c. c < 128) netloc \<or>
     (let n = filter (\<lambda>c. c \<notin> set (uni ''@:#?'')) netloc; m = ut_nfkc uo n
      in n = m \<or> (\<forall>c \<in> set (uni ''/?#@:''). c \<notin> set m))"

text \<open>\<open>None\<close> is a raised \<open>ValueError\<close>.\<close>

definition urlsplit :: "url_ops \<Rightarrow> unicode \<Rightarrow> split_url option" where
  "urlsplit uo url =
     (let cleaned = filter (\<lambda>c. c \<noteq> 9 \<and> c \<noteq> 10 \<and> c \<noteq> 13) (dropWhile (\<lambda>c. c \<le> 32) url);
          (scheme, rest) = split_scheme uo cleaned;
          has_netloc = (take 2 rest = uni ''//'');
          netloc = (if has_netloc then takeWhile (\<lambda>c. c \<notin> set (uni ''/?#'')) (drop 2 rest) else []);
          tail = (if has_netloc then dropWhile (\<lambda>c. c \<notin> set (uni ''/?#'')) (drop 2 rest) else rest);
          (before, _, fragment) = partition_at 35 tail;
          (_, _, query) = partition_at 63 before
      in if (91 \<in> set netloc) \<noteq> (93 \<in> set netloc) then None
         else if 91 \<in> set netloc \<and> \<not> ut_bracketed uo netloc then None
         else if \<not> checknetloc uo netloc then None
         else Some \<lparr>ul_scheme = scheme, ul_netloc = netloc, ul_query = query, ul_fragment = fragment\<rparr>)"

definition hostinfo :: "unicode \<Rightarrow> unicode \<times> unicode" where
  "hostinfo netloc =
     (let (_, _, info) = rpartition_at 64 netloc; (_, open_br, bracketed) = partition_at 91 info
      in if open_br
         then (let (host, _, after) = partition_at 93 bracketed; (_, _, port) = partition_at 58 after in (host, port))
         else (let (host, _, port) = partition_at 58 info in (host, port)))"

definition url_hostname :: "url_ops \<Rightarrow> split_url \<Rightarrow> unicode" where
  "url_hostname uo u =
     (let (name, percent, zone) = partition_at 37 (fst (hostinfo (ul_netloc u)))
      in ut_lower uo name @ (if percent then 37 # zone else []))"

text \<open>\<open>None\<close> is a raised \<open>ValueError\<close>, \<open>Some None\<close> no port.\<close>

definition url_port :: "split_url \<Rightarrow> nat option option" where
  "url_port u =
     (let port = snd (hostinfo (ul_netloc u))
      in if port = [] then Some None
         else if list_all ascii_digit port \<and> length port \<le> max_str_digits \<and> dec_value port \<le> 65535
         then Some (Some (dec_value port)) else None)"

definition has_userinfo :: "split_url \<Rightarrow> bool" where
  "has_userinfo u \<longleftrightarrow> 64 \<in> set (ul_netloc u)"

end
