(* ===== verification/Llm_Settings.thy ===== *)
theory Llm_Settings
  imports Py_Text Users
begin

text \<open>
  Provider configuration: the credential cipher, the endpoint policy, the stored provider rows and the client that is
  resolved from them (\<open>src/app/services/llm_settings.py\<close>), the administrative routes over them
  (\<open>src/app/api/v1/routes/llm.py\<close>, \<open>llm_budgets.py\<close>, \<open>llm_usage.py\<close>), the attested snapshot
  (\<open>src/app/services/llm_egress_attestation.py\<close>) and the egress rules of the settings (\<open>src/app/core/config.py\<close>). Fernet, the
  derivation of its key and the Unicode tables behind URL parsing are arguments. The time stamps of the provider rows
  are left out: the routes only show them.
\<close>

section \<open>Settings\<close>

datatype egress_mode = STRICT_OFFLINE | DIRECT | CONTROLLED_GATEWAY

record llm_settings =
  ls_deployment_profile :: string
  ls_egress_mode :: egress_mode
  ls_egress_gateway_url :: "unicode option"
  ls_egress_approved_providers :: string
  ls_default_provider :: string
  ls_credentials_encryption_key :: "unicode option"
  ls_qwen_allowed_workspace_hosts :: "unicode list"
  ls_model :: "string \<Rightarrow> string"
  ls_base_url :: "string \<Rightarrow> unicode"
  ls_api_key :: "string \<Rightarrow> unicode option"
  ls_max_tokens :: int

definition supported_providers :: "string list" where
  "supported_providers = [''deepseek'', ''qwen'', ''minimax'']"

definition external_llm_enabled :: "llm_settings \<Rightarrow> bool" where
  "external_llm_enabled st \<longleftrightarrow> ls_egress_mode st \<noteq> STRICT_OFFLINE"

definition normalize_approved_providers :: "string \<Rightarrow> string option" where
  "normalize_approved_providers value =
     (let providers = split_on CHR '','' value
      in if value = [] then Some []
         else if (\<exists>p \<in> set providers. p = [] \<or> p \<noteq> py_strip p) \<or> \<not> distinct providers \<or>
                 (\<exists>p \<in> set providers. p \<notin> set supported_providers) \<or>
                 providers \<noteq> filter (\<lambda>p. p \<in> set providers) supported_providers
         then None else Some value)"

definition approved_llm_providers :: "llm_settings \<Rightarrow> string list" where
  "approved_llm_providers st =
     (if ls_egress_approved_providers st = [] then []
      else filter (\<lambda>p. p \<in> set (split_on CHR '','' (ls_egress_approved_providers st))) supported_providers)"

definition controlled_llm_gateway_base_url :: unicode where
  "controlled_llm_gateway_base_url = uni ''http://llm-egress:8080''"

text \<open>The egress part of the settings' own validation: the process does not start with other combinations.\<close>

definition egress_settings_ok :: "llm_settings \<Rightarrow> bool" where
  "egress_settings_ok st \<longleftrightarrow>
     ls_default_provider st \<in> set supported_providers \<and>
     normalize_approved_providers (ls_egress_approved_providers st) \<noteq> None \<and>
     (if ls_egress_mode st = CONTROLLED_GATEWAY
      then ls_egress_gateway_url st = Some controlled_llm_gateway_base_url \<and> ls_deployment_profile st = ''isolated'' \<and>
           ls_qwen_allowed_workspace_hosts st = [] \<and> approved_llm_providers st \<noteq> []
      else ls_egress_gateway_url st = None \<and>
           \<not> (ls_egress_mode st = DIRECT \<and> ls_deployment_profile st = ''isolated'') \<and> approved_llm_providers st = [])"

section \<open>Errors\<close>

datatype config_error = LlmConfigurationError string | ProviderValueError | ConfigUnexpected

section \<open>Credentials\<close>

text \<open>
  \<open>fe_decrypt\<close> gives the UTF-8 decoded cleartext, \<open>None\<close> for an invalid token or bytes that do not decode;
  \<open>fe_encrypt\<close> takes the random part of the token. \<open>fe_float_one\<close> says which float literals equal 1.
\<close>

record fernet_ops =
  fe_derive :: "unicode \<Rightarrow> string"
  fe_encrypt :: "string \<Rightarrow> nat \<Rightarrow> unicode \<Rightarrow> string"
  fe_decrypt :: "string \<Rightarrow> string \<Rightarrow> unicode option"
  fe_float_one :: "unicode \<Rightarrow> bool"
  fe_recursion_limit :: nat

definition credential_cipher :: "fernet_ops \<Rightarrow> llm_settings \<Rightarrow> config_error + string" where
  "credential_cipher fe st =
     (case ls_credentials_encryption_key st of
        None \<Rightarrow> Inl (LlmConfigurationError ''credential_encryption_key_missing'')
      | Some secret \<Rightarrow>
          if length secret < 32 then Inl (LlmConfigurationError ''credential_encryption_key_missing'')
          else Inr (fe_derive fe secret))"

definition credential_envelope :: "unicode \<Rightarrow> string \<Rightarrow> pyjson" where
  "credential_envelope value provider =
     PDict [(uni ''provider'', PStr (uni provider)), (uni ''secret'', PStr value), (uni ''version'', PInt 1)]"

definition encrypt_credential :: "fernet_ops \<Rightarrow> string \<Rightarrow> nat \<Rightarrow> unicode \<Rightarrow> string \<Rightarrow> string" where
  "encrypt_credential fe key nonce value provider =
     fe_encrypt fe key nonce (py_dumps escape_ascii (credential_envelope value provider))"

definition is_one :: "fernet_ops \<Rightarrow> pyjson option \<Rightarrow> bool" where
  "is_one fe v =
     (case v of Some (PInt i) \<Rightarrow> i = 1 | Some (PBool b) \<Rightarrow> b | Some (PFloat s) \<Rightarrow> fe_float_one fe s | _ \<Rightarrow> False)"

definition envelope_secret :: "fernet_ops \<Rightarrow> string \<Rightarrow> pyjson \<Rightarrow> unicode option" where
  "envelope_secret fe provider payload =
     (case payload of
        PDict kvs \<Rightarrow>
          (case map_of kvs (uni ''secret'') of
             Some (PStr value) \<Rightarrow>
               if is_one fe (map_of kvs (uni ''version'')) \<and>
                  map_of kvs (uni ''provider'') = Some (PStr (uni provider)) \<and> value \<noteq> []
               then Some value else None
           | _ \<Rightarrow> None)
      | _ \<Rightarrow> None)"

definition decrypt_credential :: "fernet_ops \<Rightarrow> string \<Rightarrow> string \<Rightarrow> string \<Rightarrow> config_error + unicode" where
  "decrypt_credential fe key token provider =
     (let failed = Inl (LlmConfigurationError ''credential_decryption_failed'') in
      case fe_decrypt fe key token of
        None \<Rightarrow> failed
      | Some cleartext \<Rightarrow>
          (case py_loads (fe_recursion_limit fe) cleartext of
             Inl RecursionError \<Rightarrow> Inl ConfigUnexpected
           | Inl _ \<Rightarrow> failed
           | Inr payload \<Rightarrow> (case envelope_secret fe provider payload of None \<Rightarrow> failed | Some v \<Rightarrow> Inr v)))"

section \<open>Endpoints\<close>

definition approved_hosts :: "string \<Rightarrow> unicode list \<Rightarrow> unicode list" where
  "approved_hosts provider workspace_hosts =
     (if provider = ''deepseek'' then [uni ''api.deepseek.com'']
      else if provider = ''minimax'' then [uni ''api.minimax.io'']
      else if provider = ''qwen''
      then [uni ''dashscope.aliyuncs.com'', uni ''dashscope-us.aliyuncs.com'', uni ''dashscope-intl.aliyuncs.com''] @
           workspace_hosts
      else [])"

text \<open>\<open>None\<close> is a raised \<open>ValueError\<close>.\<close>

definition validate_provider_base_url :: "url_ops \<Rightarrow> string \<Rightarrow> unicode \<Rightarrow> unicode list \<Rightarrow> unicode option" where
  "validate_provider_base_url uo provider value workspace_hosts =
     (let normalized = rstrip_with (\<lambda>c. c = 47) (strip value) in
      case urlsplit uo normalized of
        None \<Rightarrow> None
      | Some parsed \<Rightarrow>
          (let hostname = rstrip_with (\<lambda>c. c = 46) (ut_lower uo (url_hostname uo parsed)) in
           case url_port parsed of
             None \<Rightarrow> None
           | Some port \<Rightarrow>
               if ut_lower uo (ul_scheme parsed) \<noteq> uni ''https'' \<or> hostname = [] \<or> has_userinfo parsed \<or>
                  port \<notin> {None, Some 443} \<or> ul_query parsed \<noteq> [] \<or> ul_fragment parsed \<noteq> []
               then None
               else if hostname \<notin> set (approved_hosts provider workspace_hosts) then None
               else Some normalized))"

definition controlled_provider_base_url :: "string \<Rightarrow> unicode" where
  "controlled_provider_base_url provider =
     (if provider = ''deepseek'' then uni ''https://api.deepseek.com''
      else if provider = ''qwen'' then uni ''https://dashscope.aliyuncs.com/compatible-mode/v1''
      else uni ''https://api.minimax.io/v1'')"

definition controlled_provider_gateway_path :: "string \<Rightarrow> unicode" where
  "controlled_provider_gateway_path provider =
     (if provider = ''deepseek'' then uni ''/deepseek''
      else if provider = ''qwen'' then uni ''/qwen/compatible-mode/v1''
      else uni ''/minimax/v1'')"

definition validate_provider_runtime_policy :: "llm_settings \<Rightarrow> string \<Rightarrow> unicode \<Rightarrow> config_error + unit" where
  "validate_provider_runtime_policy st provider logical =
     (if ls_egress_mode st = CONTROLLED_GATEWAY
      then (if provider \<notin> set (approved_llm_providers st)
            then Inl (LlmConfigurationError ''controlled_gateway_provider_not_approved'')
            else if logical \<noteq> controlled_provider_base_url provider
            then Inl (LlmConfigurationError ''controlled_gateway_provider_url_not_allowed'')
            else Inr ())
      else Inr ())"

definition runtime_provider_base_url :: "llm_settings \<Rightarrow> string \<Rightarrow> unicode \<Rightarrow> config_error + unicode" where
  "runtime_provider_base_url st provider logical =
     bind_r (validate_provider_runtime_policy st provider logical) (\<lambda>_.
       if ls_egress_mode st \<noteq> CONTROLLED_GATEWAY then Inr logical
       else (case ls_egress_gateway_url st of
               None \<Rightarrow> Inl (LlmConfigurationError ''controlled_gateway_url_missing'')
             | Some gateway \<Rightarrow> Inr (gateway @ controlled_provider_gateway_path provider)))"

section \<open>Provider rows\<close>

record llm_provider_config =
  pc_provider :: string
  pc_model :: string
  pc_base_url :: unicode
  pc_api_key_ciphertext :: "string option"
  pc_is_default :: bool
  pc_updated_by :: "uuid option"

record provider_db =
  z_keys :: keys_db
  z_configs :: "llm_provider_config list"

definition provider_name :: "string \<Rightarrow> config_error + string" where
  "provider_name value =
     (if value \<notin> set supported_providers then Inl (LlmConfigurationError ''unsupported_provider_in_database'') else Inr value)"

definition find_config :: "llm_provider_config list \<Rightarrow> string \<Rightarrow> llm_provider_config option" where
  "find_config rows provider = find (\<lambda>r. pc_provider r = provider) rows"

text \<open>An \<open>IndexError\<close>, or the configuration error of a row that the \<open>CHECK\<close> of the table does not allow, is \<open>None\<close>.\<close>

definition preferred_default :: "llm_settings \<Rightarrow> string option" where
  "preferred_default st =
     (if ls_egress_mode st = CONTROLLED_GATEWAY \<and> ls_default_provider st \<notin> set (approved_llm_providers st)
      then (case approved_llm_providers st of [] \<Rightarrow> None | p # _ \<Rightarrow> Some p)
      else Some (ls_default_provider st))"

definition new_config :: "llm_settings \<Rightarrow> string \<Rightarrow> bool \<Rightarrow> llm_provider_config" where
  "new_config st provider is_default =
     \<lparr>pc_provider = provider, pc_model = ls_model st provider, pc_base_url = ls_base_url st provider,
      pc_api_key_ciphertext = None, pc_is_default = is_default, pc_updated_by = None\<rparr>"

definition add_missing :: "llm_settings \<Rightarrow> string \<Rightarrow> llm_provider_config list \<Rightarrow> string \<Rightarrow> llm_provider_config list" where
  "add_missing st preferred rows provider =
     (if find_config rows provider \<noteq> None then rows
      else rows @ [new_config st provider ((\<forall>r \<in> set rows. \<not> pc_is_default r) \<and> provider = preferred)])"

definition mark_default :: "string \<Rightarrow> llm_provider_config list \<Rightarrow> llm_provider_config list" where
  "mark_default provider rows = update_where (\<lambda>r. pc_provider r = provider) (\<lambda>r. r\<lparr>pc_is_default := True\<rparr>) rows"

definition ensure_provider_configs :: "llm_settings \<Rightarrow> llm_provider_config list \<Rightarrow> llm_provider_config list option" where
  "ensure_provider_configs st rows =
     (case preferred_default st of
        None \<Rightarrow> None
      | Some preferred \<Rightarrow>
          (let added = foldl (add_missing st preferred) rows supported_providers;
               marked = (if \<exists>r \<in> set added. pc_is_default r then added else mark_default preferred added)
           in if \<forall>r \<in> set marked. pc_provider r \<in> set supported_providers then Some marked else None))"

datatype credential_origin = DATABASE | ENVIRONMENT | NONE

definition environment_key :: "llm_settings \<Rightarrow> string \<Rightarrow> unicode option" where
  "environment_key st provider = ls_api_key st provider"

definition credential_source :: "llm_provider_config \<Rightarrow> llm_settings \<Rightarrow> credential_origin" where
  "credential_source row st =
     (if pc_api_key_ciphertext row \<notin> {None, Some []} then DATABASE
      else if environment_key st (pc_provider row) \<notin> {None, Some []} then ENVIRONMENT else NONE)"

section \<open>The client\<close>

record client_config =
  oc_provider :: string
  oc_api_key :: "unicode option"
  oc_base_url :: unicode
  oc_model :: string
  oc_max_tokens :: int

definition value_error :: "'a option \<Rightarrow> config_error + 'a" where
  "value_error x = some_or ProviderValueError x"

definition stored_key :: "fernet_ops \<Rightarrow> llm_settings \<Rightarrow> string \<Rightarrow> llm_provider_config option \<Rightarrow> config_error + unicode option" where
  "stored_key fe st provider row =
     (case row of
        Some r \<Rightarrow>
          (case pc_api_key_ciphertext r of
             Some token \<Rightarrow>
               if token = [] then Inr (environment_key st provider)
               else bind_r (credential_cipher fe st) (\<lambda>key. bind_r (decrypt_credential fe key token provider) (\<lambda>v. Inr (Some v)))
           | None \<Rightarrow> Inr (environment_key st provider))
      | None \<Rightarrow> Inr (environment_key st provider))"

definition resolve_provider_client ::
    "fernet_ops \<Rightarrow> url_ops \<Rightarrow> llm_settings \<Rightarrow> string option \<Rightarrow> llm_provider_config list \<Rightarrow> config_error + client_config" where
  "resolve_provider_client fe uo st provider rows =
     (if \<not> external_llm_enabled st \<or> ls_egress_mode st = STRICT_OFFLINE
      then Inl (LlmConfigurationError ''external_llm_disabled'')
      else (let row = (case provider of None \<Rightarrow> find pc_is_default rows | Some p \<Rightarrow> find_config rows p) in
        bind_r (case provider of
                  Some p \<Rightarrow> Inr p
                | None \<Rightarrow> (case row of None \<Rightarrow> Inr (ls_default_provider st) | Some r \<Rightarrow> provider_name (pc_provider r))) (\<lambda>selected.
        bind_r (value_error (validate_provider_base_url uo selected
                  (case row of None \<Rightarrow> ls_base_url st selected | Some r \<Rightarrow> pc_base_url r)
                  (ls_qwen_allowed_workspace_hosts st))) (\<lambda>base_url.
        bind_r (stored_key fe st selected row) (\<lambda>api_key.
        bind_r (runtime_provider_base_url st selected base_url) (\<lambda>runtime.
        Inr \<lparr>oc_provider = selected, oc_api_key = api_key, oc_base_url = runtime,
             oc_model = (case row of None \<Rightarrow> ls_model st selected | Some r \<Rightarrow> pc_model r),
             oc_max_tokens = ls_max_tokens st\<rparr>))))))"

text \<open>
  The older adapter \<open>DeepSeekClient\<close> reads the settings directly, whatever the egress mode. No module of the application builds it:
  chat, conversion and the internal probe all go through \<open>resolve_provider_client\<close>.
\<close>

definition deepseek_client :: "llm_settings \<Rightarrow> client_config" where
  "deepseek_client st =
     \<lparr>oc_provider = ''deepseek'', oc_api_key = ls_api_key st ''deepseek'', oc_base_url = ls_base_url st ''deepseek'',
      oc_model = ls_model st ''deepseek'', oc_max_tokens = ls_max_tokens st\<rparr>"

definition configured :: "client_config \<Rightarrow> bool" where
  "configured c \<longleftrightarrow> oc_api_key c \<notin> {None, Some []}"

section \<open>The attested snapshot\<close>

definition active_provider_snapshot :: "llm_settings \<Rightarrow> llm_provider_config list \<Rightarrow> string option" where
  "active_provider_snapshot st rows =
     (if ls_egress_mode st \<noteq> CONTROLLED_GATEWAY then None
      else (case filter pc_is_default rows of
              [r] \<Rightarrow> if pc_provider r \<in> set (approved_llm_providers st) then Some (pc_provider r) else None
            | _ \<Rightarrow> None))"

section \<open>Routes over the providers\<close>

record provider_read =
  pr_provider :: string
  pr_model :: string
  pr_base_url :: unicode
  pr_is_default :: bool
  pr_configured :: bool
  pr_credential_source :: credential_origin
  pr_pricing_configured :: bool
  pr_prices :: "(int \<times> int) option"

definition read_provider :: "llm_provider_config \<Rightarrow> llm_settings \<Rightarrow> llm_model_price option \<Rightarrow> provider_read" where
  "read_provider row st price =
     \<lparr>pr_provider = pc_provider row, pr_model = pc_model row, pr_base_url = pc_base_url row,
      pr_is_default = pc_is_default row, pr_configured = (credential_source row st \<noteq> NONE),
      pr_credential_source = credential_source row st,
      pr_pricing_configured = (case price of None \<Rightarrow> False | Some p \<Rightarrow> mp_active p),
      pr_prices = map_option (\<lambda>p. (mp_input_price p, mp_output_price p)) price\<rparr>"

definition providers_response :: "llm_provider_config list \<Rightarrow> llm_settings \<Rightarrow> llm_model_price list \<Rightarrow> string \<times> provider_read list" where
  "providers_response rows st prices =
     ((case find pc_is_default rows of Some r \<Rightarrow> pc_provider r | None \<Rightarrow> ls_default_provider st),
      map (\<lambda>row. read_provider row st (find (\<lambda>p. mp_provider p = pc_provider row \<and> mp_model p = pc_model row \<and> mp_active p) prices))
        rows)"

type_synonym 'a provider_outcome = "(api_error + 'a) \<times> provider_db"

definition list_llm_providers :: "llm_settings \<Rightarrow> provider_db \<Rightarrow> (string \<times> provider_read list) provider_outcome" where
  "list_llm_providers st db =
     (case ensure_provider_configs st (z_configs db) of
        None \<Rightarrow> (Inl unhandled, db)
      | Some rows \<Rightarrow>
          (let ordered = concat (map (\<lambda>p. filter (\<lambda>r. pc_provider r = p) rows) supported_providers)
           in (Inr (providers_response ordered st (filter mp_active (g_prices (x_llm (z_keys db))))), db\<lparr>z_configs := rows\<rparr>)))"

record provider_update =
  px_model :: "string option"
  px_base_url :: "unicode option"
  px_api_key :: "unicode option"
  px_clear_api_key :: bool
  px_make_default :: bool
  px_prices :: "(int \<times> int) option"

text \<open>\<open>alnum\<close> is \<open>str.isalnum\<close> of one character.\<close>

definition provider_update_ok :: "(char \<Rightarrow> bool) \<Rightarrow> provider_update \<Rightarrow> bool" where
  "provider_update_ok alnum p \<longleftrightarrow>
     (case px_model p of None \<Rightarrow> True
      | Some m \<Rightarrow> m \<noteq> [] \<and> length m \<le> 100 \<and> (\<forall>c \<in> set m. alnum c \<or> c \<in> set ''._:-'')) \<and>
     (case px_base_url p of None \<Rightarrow> True | Some u \<Rightarrow> u \<noteq> [] \<and> length u \<le> 500) \<and>
     (case px_api_key p of None \<Rightarrow> True | Some k \<Rightarrow> length (strip k) \<ge> 8) \<and>
     (case px_prices p of None \<Rightarrow> True | Some (i, out) \<Rightarrow> 0 \<le> i \<and> i \<le> 10 ^ 15 \<and> 0 \<le> out \<and> out \<le> 10 ^ 15) \<and>
     \<not> (px_api_key p \<noteq> None \<and> px_clear_api_key p)"

definition write_config :: "llm_provider_config \<Rightarrow> llm_provider_config list \<Rightarrow> llm_provider_config list" where
  "write_config row rows = update_where (\<lambda>r. pc_provider r = pc_provider row) (\<lambda>_. row) rows"

definition set_price :: "string \<Rightarrow> string \<Rightarrow> int \<times> int \<Rightarrow> llm_model_price list \<Rightarrow> llm_model_price list" where
  "set_price provider model price rows =
     (let row = \<lparr>mp_provider = provider, mp_model = model, mp_input_price = fst price, mp_output_price = snd price, mp_active = True\<rparr>
      in if \<exists>p \<in> set rows. mp_provider p = provider \<and> mp_model p = model
         then update_where (\<lambda>p. mp_provider p = provider \<and> mp_model p = model) (\<lambda>_. row) rows else rows @ [row])"

definition find_price :: "string \<Rightarrow> string \<Rightarrow> llm_model_price list \<Rightarrow> llm_model_price option" where
  "find_price provider model rows = find (\<lambda>p. mp_provider p = provider \<and> mp_model p = model) rows"

definition on_llm :: "(llm_db \<Rightarrow> llm_db) \<Rightarrow> keys_db \<Rightarrow> keys_db" where
  "on_llm f db = db\<lparr>x_llm := f (x_llm db)\<rparr>"

text \<open>The key columns after the payload: encrypted anew, cleared, or as they were.\<close>

definition updated_key ::
    "fernet_ops \<Rightarrow> nat \<Rightarrow> llm_settings \<Rightarrow> string \<Rightarrow> provider_update \<Rightarrow> llm_provider_config \<Rightarrow> api_error + string option" where
  "updated_key fe nonce st provider payload row =
     (case px_api_key payload of
        Some secret \<Rightarrow>
          (case credential_cipher fe st of
             Inl _ \<Rightarrow> Inl (ApiError 503 ''llm_credential_encryption_unavailable'')
           | Inr key \<Rightarrow> Inr (Some (encrypt_credential fe key nonce (strip secret) provider)))
      | None \<Rightarrow> Inr (if px_clear_api_key payload then None else pc_api_key_ciphertext row))"

definition checked_base_url :: "url_ops \<Rightarrow> llm_settings \<Rightarrow> string \<Rightarrow> unicode \<Rightarrow> api_error + unicode" where
  "checked_base_url uo st provider url =
     (case validate_provider_base_url uo provider url (ls_qwen_allowed_workspace_hosts st) of
        None \<Rightarrow> Inl (ApiError 422 ''invalid_llm_base_url'')
      | Some base \<Rightarrow>
          (case validate_provider_runtime_policy st provider base of
             Inl _ \<Rightarrow> Inl (ApiError 422 ''invalid_llm_base_url'') | Inr _ \<Rightarrow> Inr base))"

definition provider_update_details :: "llm_provider_config \<Rightarrow> provider_update \<Rightarrow> json" where
  "provider_update_details row payload =
     JObj [(''provider'', JStr (pc_provider row)), (''model'', JStr (pc_model row)),
           (''base_url'', juni (pc_base_url row)), (''made_default'', JBool (px_make_default payload)),
           (''credential_changed'', JBool (px_api_key payload \<noteq> None \<or> px_clear_api_key payload)),
           (''credential_cleared'', JBool (px_clear_api_key payload)),
           (''pricing_changed'', JBool (px_prices payload \<noteq> None))]"

definition provider_row_update ::
    "fernet_ops \<Rightarrow> url_ops \<Rightarrow> llm_settings \<Rightarrow> nat \<Rightarrow> string \<Rightarrow> provider_update \<Rightarrow> llm_provider_config \<Rightarrow>
     api_error + llm_provider_config" where
  "provider_row_update fe uo st nonce provider payload row =
     bind_r (checked_base_url uo st provider
               (case px_base_url payload of None \<Rightarrow> pc_base_url row | Some u \<Rightarrow> if u = [] then pc_base_url row else u)) (\<lambda>base_url.
     bind_r (updated_key fe nonce st provider payload row) (\<lambda>token.
     let row1 = row\<lparr>pc_model := (case px_model payload of None \<Rightarrow> pc_model row | Some m \<Rightarrow> m), pc_base_url := base_url,
                    pc_api_key_ciphertext := token\<rparr> in
     bind_r (ensure (\<not> ((pc_is_default row1 \<or> px_make_default payload) \<and> credential_source row1 st = NONE))
               (ApiError 422 ''llm_provider_not_configured'')) (\<lambda>_. Inr row1)))"

definition promotes :: "provider_update \<Rightarrow> llm_provider_config \<Rightarrow> bool" where
  "promotes payload row \<longleftrightarrow> px_make_default payload \<and> \<not> pc_is_default row"

definition final_row :: "access_context \<Rightarrow> provider_update \<Rightarrow> llm_provider_config \<Rightarrow> llm_provider_config" where
  "final_row access payload row =
     row\<lparr>pc_is_default := pc_is_default row \<or> promotes payload row, pc_updated_by := Some (u_id (ac_user access))\<rparr>"

definition stored_configs ::
    "access_context \<Rightarrow> provider_update \<Rightarrow> llm_provider_config \<Rightarrow> llm_provider_config list \<Rightarrow> llm_provider_config list" where
  "stored_configs access payload row rows =
     write_config (final_row access payload row)
       (if promotes payload row then map (\<lambda>r. r\<lparr>pc_is_default := False\<rparr>) rows else rows)"

definition update_llm_provider ::
    "fernet_ops \<Rightarrow> url_ops \<Rightarrow> llm_settings \<Rightarrow> timestamp \<Rightarrow> nat \<Rightarrow> string option \<Rightarrow> access_context \<Rightarrow> string \<Rightarrow> provider_update \<Rightarrow>
     provider_db \<Rightarrow> provider_read provider_outcome" where
  "update_llm_provider fe uo st now nonce request_id access provider payload db =
     (case bind_r (some_or unhandled (ensure_provider_configs st (z_configs db))) (\<lambda>rows.
           bind_r (some_or (ApiError 404 ''llm_provider_not_found'') (find_config rows provider)) (\<lambda>row.
           bind_r (ensure (\<not> (ls_egress_mode st = CONTROLLED_GATEWAY \<and> provider \<notin> set (approved_llm_providers st)))
                     (ApiError 422 ''llm_provider_not_approved'')) (\<lambda>_.
           bind_r (provider_row_update fe uo st nonce provider payload row) (\<lambda>row1.
           let prices = (case px_prices payload of None \<Rightarrow> g_prices (x_llm (z_keys db))
                         | Some p \<Rightarrow> set_price provider (pc_model row1) p (g_prices (x_llm (z_keys db))));
               row2 = final_row access payload row1;
               keys = audit_row now ''llm.provider_updated'' SUCCESS ''llm_provider'' (u_id (ac_user access)) provider request_id
                        (provider_update_details row2 payload) (on_llm (\<lambda>l. l\<lparr>g_prices := prices\<rparr>) (z_keys db))
           in Inr (read_provider row2 st (find_price provider (pc_model row1) prices),
                   \<lparr>z_keys = keys, z_configs = stored_configs access payload row1 rows\<rparr>))))) of
        Inl e \<Rightarrow> (Inl e, db) | Inr (r, db') \<Rightarrow> (Inr r, db'))"

section \<open>Budget policies (llm\_budgets.py)\<close>

record budget_create =
  bq_name :: string
  bq_tenant_key :: string
  bq_user_id :: "uuid option"
  bq_api_key_id :: "uuid option"
  bq_provider :: "string option"
  bq_model :: "string option"
  bq_daily_token_limit :: "int option"
  bq_monthly_token_limit :: "int option"
  bq_daily_cost_limit_micro_usd :: "int option"
  bq_monthly_cost_limit_micro_usd :: "int option"
  bq_enabled :: bool

definition budget_create_ok :: "budget_create \<Rightarrow> bool" where
  "budget_create_ok p \<longleftrightarrow>
     bq_name p \<noteq> [] \<and> length (bq_name p) \<le> 200 \<and> bq_tenant_key p \<noteq> [] \<and> length (bq_tenant_key p) \<le> 100 \<and>
     bq_provider p \<noteq> Some [] \<and> bq_model p \<noteq> Some [] \<and> \<not> (bq_model p \<noteq> None \<and> bq_provider p = None) \<and>
     non_negative_opt (bq_daily_token_limit p) \<and> non_negative_opt (bq_monthly_token_limit p) \<and>
     non_negative_opt (bq_daily_cost_limit_micro_usd p) \<and> non_negative_opt (bq_monthly_cost_limit_micro_usd p) \<and>
     \<not> (bq_daily_token_limit p = None \<and> bq_monthly_token_limit p = None \<and> bq_daily_cost_limit_micro_usd p = None \<and>
        bq_monthly_cost_limit_micro_usd p = None)"

definition validate_references :: "uuid option \<Rightarrow> uuid option \<Rightarrow> keys_db \<Rightarrow> api_error + unit" where
  "validate_references user_id api_key_id db =
     bind_r (ensure (case user_id of None \<Rightarrow> True | Some u \<Rightarrow> find_user (x_auth db) u \<noteq> None)
               (ApiError 422 ''llm_budget_user_not_found'')) (\<lambda>_.
     ensure (case api_key_id of None \<Rightarrow> True | Some k \<Rightarrow> find_key db k \<noteq> None) (ApiError 422 ''llm_budget_api_key_not_found''))"

definition new_budget_policy :: "uuid \<Rightarrow> uuid \<Rightarrow> budget_create \<Rightarrow> llm_budget_policy" where
  "new_budget_policy pid actor p =
     \<lparr>bp_id = pid, bp_name = bq_name p, bp_tenant_key = bq_tenant_key p, bp_user_id = bq_user_id p,
      bp_api_key_id = bq_api_key_id p, bp_provider = bq_provider p, bp_model = bq_model p,
      bp_daily_token_limit = bq_daily_token_limit p, bp_monthly_token_limit = bq_monthly_token_limit p,
      bp_daily_cost_limit_micro_usd = bq_daily_cost_limit_micro_usd p,
      bp_monthly_cost_limit_micro_usd = bq_monthly_cost_limit_micro_usd p, bp_enabled = bq_enabled p,
      bp_updated_by = Some actor\<rparr>"

definition audit_budget ::
    "crypto_ops \<Rightarrow> timestamp \<Rightarrow> string \<Rightarrow> access_context \<Rightarrow> uuid \<Rightarrow> string option \<Rightarrow> (string \<times> json) list \<Rightarrow> keys_db \<Rightarrow> keys_db" where
  "audit_budget co now action access pid request_id details db =
     audit_row now action SUCCESS ''llm_budget_policy'' (u_id (ac_user access)) (co_str_uuid co pid) request_id (JObj details) db"

definition json_opt :: "string option \<Rightarrow> json" where
  "json_opt v = (case v of None \<Rightarrow> JNull | Some s \<Rightarrow> JStr s)"

definition create_budget_policy ::
    "crypto_ops \<Rightarrow> timestamp \<Rightarrow> uuid \<Rightarrow> string option \<Rightarrow> access_context \<Rightarrow> budget_create \<Rightarrow> keys_db \<Rightarrow> llm_budget_policy keys_outcome" where
  "create_budget_policy co now pid request_id access payload db =
     or_rollback db
      (bind_r (validate_references (bq_user_id payload) (bq_api_key_id payload) db) (\<lambda>_.
       let policy = new_budget_policy pid (u_id (ac_user access)) payload in
       bind_r (ensure (llm_budget_policy_checks policy \<and> (\<forall>p \<in> set (g_policies (x_llm db)). bp_id p \<noteq> pid)) unhandled) (\<lambda>_.
       Inr (policy,
            audit_budget co now ''llm.budget_policy_created'' access pid request_id
              [(''tenant_key'', JStr (bp_tenant_key policy)), (''provider'', json_opt (bp_provider policy)),
               (''model'', json_opt (bp_model policy)), (''user_scoped'', JBool (bp_user_id policy \<noteq> None)),
               (''api_key_scoped'', JBool (bp_api_key_id policy \<noteq> None))]
              (on_llm (\<lambda>l. l\<lparr>g_policies := g_policies l @ [policy]\<rparr>) db)))))"

text \<open>\<open>model_dump(exclude_unset=True)\<close>: the outer option is whether a field was sent, the inner its possible null.\<close>

record budget_update =
  bu_name :: "string option option"
  bu_daily_token_limit :: "int option option"
  bu_monthly_token_limit :: "int option option"
  bu_daily_cost_limit_micro_usd :: "int option option"
  bu_monthly_cost_limit_micro_usd :: "int option option"
  bu_enabled :: "bool option option"

definition sent :: "'a option \<Rightarrow> 'a \<Rightarrow> 'a" where
  "sent update old = (case update of None \<Rightarrow> old | Some v \<Rightarrow> v)"

definition budget_update_fields :: "budget_update \<Rightarrow> string list" where
  "budget_update_fields p =
     concat [if bu_daily_cost_limit_micro_usd p = None then [] else [''daily_cost_limit_micro_usd''],
             if bu_daily_token_limit p = None then [] else [''daily_token_limit''],
             if bu_enabled p = None then [] else [''enabled''],
             if bu_monthly_cost_limit_micro_usd p = None then [] else [''monthly_cost_limit_micro_usd''],
             if bu_monthly_token_limit p = None then [] else [''monthly_token_limit''],
             if bu_name p = None then [] else [''name'']]"

text \<open>A null written into the name or the enabled flag breaks the \<open>NOT NULL\<close> of its column when the row is flushed.\<close>

definition patched_policy :: "uuid \<Rightarrow> budget_update \<Rightarrow> llm_budget_policy \<Rightarrow> api_error + llm_budget_policy" where
  "patched_policy actor p policy =
     (let daily = sent (bu_daily_token_limit p) (bp_daily_token_limit policy);
          monthly = sent (bu_monthly_token_limit p) (bp_monthly_token_limit policy);
          daily_cost = sent (bu_daily_cost_limit_micro_usd p) (bp_daily_cost_limit_micro_usd policy);
          monthly_cost = sent (bu_monthly_cost_limit_micro_usd p) (bp_monthly_cost_limit_micro_usd policy)
      in if daily = None \<and> monthly = None \<and> daily_cost = None \<and> monthly_cost = None
         then Inl (ApiError 422 ''llm_budget_policy_requires_limit'')
         else (case (sent (bu_name p) (Some (bp_name policy)), sent (bu_enabled p) (Some (bp_enabled policy))) of
                 (Some name, Some enabled) \<Rightarrow>
                   (let row = policy\<lparr>bp_name := name, bp_daily_token_limit := daily, bp_monthly_token_limit := monthly,
                          bp_daily_cost_limit_micro_usd := daily_cost, bp_monthly_cost_limit_micro_usd := monthly_cost,
                          bp_enabled := enabled, bp_updated_by := Some actor\<rparr>
                    in if llm_budget_policy_checks row then Inr row else Inl unhandled)
               | _ \<Rightarrow> Inl unhandled))"

definition write_policy :: "llm_budget_policy \<Rightarrow> llm_db \<Rightarrow> llm_db" where
  "write_policy row l = l\<lparr>g_policies := update_where (\<lambda>p. bp_id p = bp_id row) (\<lambda>_. row) (g_policies l)\<rparr>"

definition update_budget_policy ::
    "crypto_ops \<Rightarrow> timestamp \<Rightarrow> string option \<Rightarrow> access_context \<Rightarrow> uuid \<Rightarrow> budget_update \<Rightarrow> keys_db \<Rightarrow> llm_budget_policy keys_outcome" where
  "update_budget_policy co now request_id access pid payload db =
     or_rollback db
      (bind_r (some_or (ApiError 404 ''llm_budget_policy_not_found'') (find (\<lambda>p. bp_id p = pid) (g_policies (x_llm db)))) (\<lambda>policy.
       bind_r (patched_policy (u_id (ac_user access)) payload policy) (\<lambda>row.
       Inr (row,
            audit_budget co now ''llm.budget_policy_updated'' access pid request_id
              [(''fields'', JList (map JStr (budget_update_fields payload)))] (on_llm (write_policy row) db)))))"

section \<open>Usage records (routes/llm\_usage.py)\<close>

definition reconcile_stale_llm_egress_lease ::
    "crypto_ops \<Rightarrow> timestamp \<Rightarrow> string option \<Rightarrow> access_context \<Rightarrow> uuid \<Rightarrow> string \<Rightarrow> keys_db \<Rightarrow> llm_usage_record keys_outcome" where
  "reconcile_stale_llm_egress_lease co now request_id access uid reason db =
     or_rollback db
      (bind_r (some_or (ApiError 404 ''llm_usage_not_found'') (find_usage (x_llm db) uid)) (\<lambda>usage.
       bind_r (ensure (lu_status usage = LLM_HELD) (ApiError 409 ''llm_usage_not_held'')) (\<lambda>_.
       bind_r (map_error (\<lambda>_. unhandled) (release_usage (lu_id usage) ''operator_reconciled_no_egress'' now (x_llm db)))
         (\<lambda>(row, l). Inr (row,
            audit_row now ''llm.usage_reconciled'' SUCCESS ''llm_usage_record'' (u_id (ac_user access)) (co_str_uuid co (lu_id row))
              request_id (JObj [(''provider_egress_terminated'', JBool True), (''reason'', JStr reason)])
              (on_llm (\<lambda>_. l) db))))))"

record usage_filter =
  uf_tenant_key :: "string option"
  uf_user_id :: "uuid option"
  uf_api_key_id :: "uuid option"
  uf_knowledge_base_id :: "uuid option"
  uf_provider :: "string option"
  uf_model :: "string option"
  uf_operation :: "string option"
  uf_status :: "llm_usage_status option"
  uf_created_from :: "timestamp option"
  uf_created_to :: "timestamp option"

definition usage_matches :: "usage_filter \<Rightarrow> llm_usage_record \<Rightarrow> bool" where
  "usage_matches f r \<longleftrightarrow>
     opt_eq (uf_tenant_key f) (lu_tenant_key r) \<and> opt_eq_null (uf_user_id f) (lu_user_id r) \<and>
     opt_eq_null (uf_api_key_id f) (lu_api_key_id r) \<and> opt_eq_null (uf_knowledge_base_id f) (lu_knowledge_base_id r) \<and>
     opt_eq (uf_provider f) (lu_provider r) \<and> opt_eq (uf_model f) (lu_model r) \<and>
     opt_eq (uf_operation f) (lu_operation r) \<and> opt_eq (uf_status f) (lu_status r) \<and>
     (case uf_created_from f of None \<Rightarrow> True | Some t \<Rightarrow> lu_created_at r \<ge> t) \<and>
     (case uf_created_to f of None \<Rightarrow> True | Some t \<Rightarrow> lu_created_at r \<le> t)"

definition before_cursor :: "llm_usage_record option \<Rightarrow> llm_usage_record \<Rightarrow> bool" where
  "before_cursor cursor r \<longleftrightarrow>
     (case cursor of None \<Rightarrow> True
      | Some c \<Rightarrow> lu_created_at r < lu_created_at c \<or> lu_created_at r = lu_created_at c \<and> lu_id r < lu_id c)"

definition list_llm_usage ::
    "llm_db \<Rightarrow> usage_filter \<Rightarrow> uuid option \<Rightarrow> nat \<Rightarrow> llm_usage_record list \<times> uuid option" where
  "list_llm_usage db f cursor limit =
     (let row = Option.bind cursor (find_usage db);
          rows = take (limit + 1) (sort_key (\<lambda>r. - lu_created_at r) (sort_key (\<lambda>r. - int (lu_id r))
                   (filter (\<lambda>r. usage_matches f r \<and> before_cursor row r) (g_usage db))));
          items = take limit rows
      in (items, if length rows > limit \<and> items \<noteq> [] then Some (lu_id (last items)) else None))"

section \<open>Credentials come back only for their provider\<close>

text \<open>Fernet opens what it sealed under the same key, here for ASCII text, and a token is never empty.\<close>

definition ascii_text_only :: "unicode \<Rightarrow> bool" where
  "ascii_text_only m \<longleftrightarrow> list_all (\<lambda>c. c < 128) m"

definition fernet_laws :: "fernet_ops \<Rightarrow> bool" where
  "fernet_laws fe \<longleftrightarrow>
     (\<forall>key nonce m. ascii_text_only m \<longrightarrow> fe_decrypt fe key (fe_encrypt fe key nonce m) = Some m) \<and>
     (\<forall>key nonce m. fe_encrypt fe key nonce m \<noteq> []) \<and> fe_recursion_limit fe \<ge> 1"

lemma hex_digits_ascii: "ascii_text_only (u_escape c)"
proof -
  have "hex_code d < 128" if "d < 16" for d using that by (simp add: hex_code_def)
  then show ?thesis by (simp add: ascii_text_only_def u_escape_def hex_digits_def)
qed

lemma escape_ascii_ascii: "ascii_text_only (escape_ascii c)"
proof (cases "short_escape c")
  case None
  then show ?thesis using hex_digits_ascii by (auto simp: escape_ascii_def ascii_text_only_def)
next
  case (Some e)
  then show ?thesis by (auto simp: escape_ascii_def ascii_text_only_def short_escape_def split: if_split_asm)
qed

lemma quoted_ascii: "ascii_text_only (quoted escape_ascii s)"
  using escape_ascii_ascii by (auto simp: quoted_def ascii_text_only_def list_all_iff)

lemma envelope_ascii: "ascii_text_only (py_dumps escape_ascii (credential_envelope value provider))"
  using quoted_ascii
  by (simp add: credential_envelope_def ascii_text_only_def int_str_def nat_str.simps[of "Suc 0"] of_char_hex_digit)

lemma uni_inj: "uni s = uni t \<longleftrightarrow> s = t"
  by (auto simp: uni_def inj_map_eq_map inj_on_def of_char_eq_iff)

lemma envelope_read:
  assumes "list_all scalar_value value" "fe_recursion_limit fe \<ge> 1" "list_all scalar_value (uni provider)"
  shows "py_loads (fe_recursion_limit fe) (py_dumps escape_ascii (credential_envelope value provider)) =
    Inr (credential_envelope value provider)"
proof (rule ascii_dump.loads_dumps)
  have "short_int 1" by (simp add: short_int_def nat_str.simps[of "Suc 0"] max_str_digits_def)
  then show "writable scalar_value (fe_recursion_limit fe) (credential_envelope value provider)"
    using assms by (auto simp: credential_envelope_def scalar_value_def)
qed

lemma uni_scalar [simp]: "list_all scalar_value (uni s)"
proof -
  have "scalar_value (of_char c)" for c unfolding scalar_value_def using of_char_lt[of c] by linarith
  then show ?thesis by (simp add: uni_def list_all_iff)
qed

lemma decrypt_encrypt:
  assumes "fernet_laws fe" "list_all scalar_value value" "value \<noteq> []"
  shows "decrypt_credential fe key (encrypt_credential fe key nonce value sealed) provider =
    (if provider = sealed then Inr value else Inl (LlmConfigurationError ''credential_decryption_failed''))"
proof -
  have d: "fe_decrypt fe key (encrypt_credential fe key nonce value sealed) =
      Some (py_dumps escape_ascii (credential_envelope value sealed))" and lim: "fe_recursion_limit fe \<ge> 1"
    using assms(1) envelope_ascii by (simp_all add: fernet_laws_def encrypt_credential_def)
  have "envelope_secret fe provider (credential_envelope value sealed) = (if provider = sealed then Some value else None)"
    using assms(3) by (auto simp: envelope_secret_def credential_envelope_def is_one_def uni_inj)
  then show ?thesis using envelope_read[OF assms(2) lim uni_scalar] by (simp add: decrypt_credential_def d Let_def)
qed

section \<open>Resolution\<close>

definition approved_endpoint :: "url_ops \<Rightarrow> string \<Rightarrow> unicode list \<Rightarrow> unicode \<Rightarrow> bool" where
  "approved_endpoint uo provider hosts url \<longleftrightarrow>
     (\<exists>u. urlsplit uo url = Some u \<and> ut_lower uo (ul_scheme u) = uni ''https'' \<and> \<not> has_userinfo u \<and>
        url_port u \<in> {Some None, Some (Some 443)} \<and> ul_query u = [] \<and> ul_fragment u = [] \<and>
        rstrip_with (\<lambda>c. c = 46) (ut_lower uo (url_hostname uo u)) \<in> set (approved_hosts provider hosts))"

lemma validate_base_urlD:
  "validate_provider_base_url uo provider value hosts = Some url \<Longrightarrow>
     approved_endpoint uo provider hosts url \<and> url = rstrip_with (\<lambda>c. c = 47) (strip value)"
  by (auto simp: validate_provider_base_url_def approved_endpoint_def Let_def split: option.split_asm if_split_asm)

lemma runtime_base_urlD:
  assumes "runtime_provider_base_url st provider logical = Inr url"
  shows "if ls_egress_mode st = CONTROLLED_GATEWAY
    then provider \<in> set (approved_llm_providers st) \<and> logical = controlled_provider_base_url provider \<and>
      (\<exists>g. ls_egress_gateway_url st = Some g \<and> url = g @ controlled_provider_gateway_path provider)
    else url = logical"
  using assms
  by (auto simp: runtime_provider_base_url_def validate_provider_runtime_policy_def result_simps
      split: if_split_asm option.split_asm)

lemma resolve_clientD:
  assumes "resolve_provider_client fe uo st provider rows = Inr client"
  obtains row base where
    "row = (case provider of None \<Rightarrow> find pc_is_default rows | Some p \<Rightarrow> find_config rows p)"
    "ls_egress_mode st \<noteq> STRICT_OFFLINE"
    "provider \<noteq> None \<Longrightarrow> provider = Some (oc_provider client)"
    "provider = None \<Longrightarrow> oc_provider client = (case row of None \<Rightarrow> ls_default_provider st | Some r \<Rightarrow> pc_provider r)"
    "validate_provider_base_url uo (oc_provider client)
       (case row of None \<Rightarrow> ls_base_url st (oc_provider client) | Some r \<Rightarrow> pc_base_url r) (ls_qwen_allowed_workspace_hosts st) = Some base"
    "stored_key fe st (oc_provider client) row = Inr (oc_api_key client)"
    "runtime_provider_base_url st (oc_provider client) base = Inr (oc_base_url client)"
    "oc_model client = (case row of None \<Rightarrow> ls_model st (oc_provider client) | Some r \<Rightarrow> pc_model r)"
proof -
  define row where "row = (case provider of None \<Rightarrow> find pc_is_default rows | Some p \<Rightarrow> find_config rows p)"
  from assms obtain sel base key run where r: "ls_egress_mode st \<noteq> STRICT_OFFLINE"
    "(case provider of Some p \<Rightarrow> Inr p
      | None \<Rightarrow> (case row of None \<Rightarrow> Inr (ls_default_provider st) | Some r \<Rightarrow> provider_name (pc_provider r))) = Inr sel"
    "validate_provider_base_url uo sel (case row of None \<Rightarrow> ls_base_url st sel | Some r \<Rightarrow> pc_base_url r)
       (ls_qwen_allowed_workspace_hosts st) = Some base"
    "stored_key fe st sel row = Inr key" "runtime_provider_base_url st sel base = Inr run"
    "client = \<lparr>oc_provider = sel, oc_api_key = key, oc_base_url = run,
       oc_model = (case row of None \<Rightarrow> ls_model st sel | Some r \<Rightarrow> pc_model r), oc_max_tokens = ls_max_tokens st\<rparr>"
    unfolding resolve_provider_client_def row_def[symmetric]
    by (auto simp: Let_def result_simps value_error_def external_llm_enabled_def split: if_split_asm)
  have sel: "provider \<noteq> None \<Longrightarrow> provider = Some sel"
    "provider = None \<Longrightarrow> sel = (case row of None \<Rightarrow> ls_default_provider st | Some r \<Rightarrow> pc_provider r)"
    using r(2) by (auto simp: provider_name_def split: option.split_asm if_split_asm)
  have op: "oc_provider client = sel" "oc_api_key client = key" "oc_base_url client = run"
    "oc_model client = (case row of None \<Rightarrow> ls_model st sel | Some r \<Rightarrow> pc_model r)"
    by (simp_all add: r(6))
  show thesis by (rule that[OF row_def, of base]; (unfold op)?; (rule r sel refl | simp add: sel)?)
qed

section \<open>Provider rows along the routes\<close>

definition config_inv :: "llm_provider_config list \<Rightarrow> bool" where
  "config_inv rows \<longleftrightarrow> distinct (map pc_provider rows) \<and> pc_provider ` set rows \<subseteq> set supported_providers \<and>
     length (filter pc_is_default rows) \<le> 1"

definition one_default :: "llm_provider_config list \<Rightarrow> bool" where
  "one_default rows \<longleftrightarrow> length (filter pc_is_default rows) = 1"

lemma find_config_None: "find_config rows p = None \<longleftrightarrow> p \<notin> pc_provider ` set rows"
  by (auto simp: find_config_def find_None_iff image_iff)

lemma find_config_Some:
  "find_config rows p = Some r \<Longrightarrow> r \<in> set rows \<and> pc_provider r = p"
  by (auto simp: find_config_def find_Some_iff)

lemma no_default: "(\<forall>r \<in> set rows. \<not> pc_is_default r) \<longleftrightarrow> length (filter pc_is_default rows) = 0"
  by (simp add: filter_empty_conv)

lemma add_missing_inv:
  assumes "config_inv rows" "p \<in> set supported_providers"
  shows "config_inv (add_missing st preferred rows p)"
    "pc_provider ` set (add_missing st preferred rows p) = insert p (pc_provider ` set rows)"
  using assms find_config_None[of rows p]
  by (cases "find_config rows p"; auto simp: add_missing_def config_inv_def new_config_def filter_empty_conv)+

lemma ensure_configs_inv:
  assumes "config_inv rows" "egress_settings_ok st"
  obtains rows' where "ensure_provider_configs st rows = Some rows'" "config_inv rows'" "one_default rows'"
    "pc_provider ` set rows' = set supported_providers"
proof -
  obtain preferred where pref: "preferred_default st = Some preferred" "preferred \<in> set supported_providers"
  proof (cases "ls_egress_mode st = CONTROLLED_GATEWAY \<and> ls_default_provider st \<notin> set (approved_llm_providers st)")
    case True
    then obtain p ps where p: "approved_llm_providers st = p # ps" using assms(2)
      by (cases "approved_llm_providers st") (auto simp: egress_settings_ok_def)
    have "set (approved_llm_providers st) \<subseteq> set supported_providers" by (auto simp: approved_llm_providers_def)
    then show ?thesis using that[of p] True p by (simp add: preferred_default_def)
  next
    case False
    then show ?thesis using that assms(2) by (auto simp: preferred_default_def egress_settings_ok_def)
  qed
  define added where "added = foldl (add_missing st preferred) rows supported_providers"
  have fold: "config_inv (foldl (add_missing st preferred) rs ps) \<and>
      pc_provider ` set (foldl (add_missing st preferred) rs ps) = set ps \<union> pc_provider ` set rs"
    if "config_inv rs" "set ps \<subseteq> set supported_providers" for rs ps
    using that by (induction ps arbitrary: rs) (auto simp: add_missing_inv)
  have inv: "config_inv added" and all: "pc_provider ` set added = set supported_providers"
    using fold[OF assms(1) subset_refl] assms(1) by (auto simp: added_def config_inv_def)
  have upd: "map pc_provider (mark_default preferred added) = map pc_provider added"
    by (simp add: mark_default_def update_where_def)
  have key: "pc_provider ` set (mark_default preferred added) = pc_provider ` set added"
    using arg_cong[OF upd, of set] by simp
  show ?thesis
  proof (cases "\<exists>r \<in> set added. pc_is_default r")
    case True
    then have "filter pc_is_default added \<noteq> []" by (auto simp: filter_empty_conv)
    then have "one_default added" using inv by (cases "filter pc_is_default added") (auto simp: one_default_def config_inv_def)
    moreover have "ensure_provider_configs st rows = Some added"
      using True all by (auto simp: ensure_provider_configs_def pref added_def[symmetric] Let_def)
    ultimately show ?thesis using that inv all by blast
  next
    case False
    obtain r where r: "r \<in> set added" "pc_provider r = preferred" using all pref(2) by (metis imageE)
    have len: "length (filter pc_is_default (mark_default preferred added)) =
        length (filter (\<lambda>r. pc_provider r = preferred) added)"
    proof -
      have "filter pc_is_default (mark_default preferred xs) = map (\<lambda>r. r\<lparr>pc_is_default := True\<rparr>) (filter (\<lambda>r. pc_provider r = preferred) xs)"
        if "\<forall>r \<in> set xs. \<not> pc_is_default r" for xs
        using that by (induction xs) (auto simp: mark_default_def update_where_def)
      then show ?thesis using False by simp
    qed
    have "length (filter (\<lambda>r. pc_provider r = preferred) added) = 1"
    proof -
      have "distinct (map pc_provider xs) \<Longrightarrow> x \<in> set xs \<Longrightarrow> length (filter (\<lambda>r. pc_provider r = pc_provider x) xs) = 1" for x xs
      proof (induction xs)
        case (Cons y ys)
        have "pc_provider y \<notin> pc_provider ` set ys" using Cons.prems(1) by simp
        then have "filter (\<lambda>r. pc_provider r = pc_provider y) ys = []" unfolding filter_empty_conv by (metis image_eqI)
        then show ?case using Cons by (cases "x = y") (auto simp: image_iff)
      qed simp
      then show ?thesis using inv r by (metis config_inv_def)
    qed
    then have one: "one_default (mark_default preferred added)" by (simp add: one_default_def len)
    then have "config_inv (mark_default preferred added)"
      using inv unfolding config_inv_def upd key one_default_def by simp
    moreover have "ensure_provider_configs st rows = Some (mark_default preferred added)"
      using False all key by (auto simp: ensure_provider_configs_def pref added_def[symmetric] Let_def)
    ultimately show ?thesis using that one all key by blast
  qed
qed

lemma provider_row_updateD:
  assumes "provider_row_update fe uo st nonce provider payload row = Inr row1"
  shows "pc_provider row1 = pc_provider row" "pc_is_default row1 = pc_is_default row"
    "updated_key fe nonce st provider payload row = Inr (pc_api_key_ciphertext row1)"
    "approved_endpoint uo provider (ls_qwen_allowed_workspace_hosts st) (pc_base_url row1)"
    "pc_is_default row1 \<or> px_make_default payload \<Longrightarrow> credential_source row1 st \<noteq> NONE"
proof -
  from assms obtain base token where
    u: "checked_base_url uo st provider
       (case px_base_url payload of None \<Rightarrow> pc_base_url row | Some u \<Rightarrow> if u = [] then pc_base_url row else u) = Inr base"
    and t: "updated_key fe nonce st provider payload row = Inr token"
    and r: "row1 = row\<lparr>pc_model := (case px_model payload of None \<Rightarrow> pc_model row | Some m \<Rightarrow> m), pc_base_url := base,
       pc_api_key_ciphertext := token\<rparr>"
    and d: "\<not> ((pc_is_default row1 \<or> px_make_default payload) \<and> credential_source row1 st = NONE)"
    by (auto simp: provider_row_update_def Let_def result_simps)
  have "approved_endpoint uo provider (ls_qwen_allowed_workspace_hosts st) base"
    using u by (auto simp: checked_base_url_def dest: validate_base_urlD split: option.split_asm sum.split_asm)
  with t r d show "pc_provider row1 = pc_provider row" "pc_is_default row1 = pc_is_default row"
    "updated_key fe nonce st provider payload row = Inr (pc_api_key_ciphertext row1)"
    "approved_endpoint uo provider (ls_qwen_allowed_workspace_hosts st) (pc_base_url row1)"
    "pc_is_default row1 \<or> px_make_default payload \<Longrightarrow> credential_source row1 st \<noteq> NONE"
    by simp_all
qed

lemma update_providerD:
  assumes "update_llm_provider fe uo st now nonce rq access provider payload db = (Inr r, db')"
  obtains rows row row1 where
    "ensure_provider_configs st (z_configs db) = Some rows" "find_config rows provider = Some row"
    "ls_egress_mode st = CONTROLLED_GATEWAY \<Longrightarrow> provider \<in> set (approved_llm_providers st)"
    "provider_row_update fe uo st nonce provider payload row = Inr row1"
    "z_configs db' = stored_configs access payload row1 rows"
  using assms unfolding update_llm_provider_def by (auto simp: Let_def result_simps split: sum.split_asm prod.split_asm)

lemma update_where_id: "(\<And>x. x \<in> set xs \<Longrightarrow> \<not> P x) \<Longrightarrow> update_where P f xs = xs"
  by (simp add: update_where_def map_idI)

lemma write_config_map: "map pc_provider (write_config row rows) = map pc_provider rows"
  by (simp add: write_config_def update_where_def)

lemma write_config_set:
  "r \<in> set (write_config row rows) \<longleftrightarrow>
     (r = row \<and> pc_provider row \<in> pc_provider ` set rows) \<or> (r \<in> set rows \<and> pc_provider r \<noteq> pc_provider row)"
  by (simp add: write_config_def update_where_def image_iff) metis

lemma write_default_count:
  assumes "distinct (map pc_provider rows)" "old \<in> set rows" "pc_provider row = pc_provider old"
  shows "length (filter pc_is_default (write_config row rows)) + of_bool (pc_is_default old) =
    length (filter pc_is_default rows) + of_bool (pc_is_default row)"
  using assms
proof (induction rows)
  case (Cons y ys)
  have d: "pc_provider y \<notin> pc_provider ` set ys" using Cons.prems(1) by simp
  show ?case
  proof (cases "y = old")
    case True
    then have "write_config row ys = ys"
      unfolding write_config_def using d Cons.prems(3) by (intro update_where_id) (metis image_eqI)
    then show ?thesis using True Cons.prems by (simp add: write_config_def update_where_def)
  next
    case False
    then have m: "old \<in> set ys" using Cons.prems(2) by simp
    then have "pc_provider y \<noteq> pc_provider row" using d Cons.prems(3) by (metis image_eqI)
    then show ?thesis using Cons.IH[OF _ m Cons.prems(3)] Cons.prems(1) by (simp add: write_config_def update_where_def)
  qed
qed simp

lemma stored_configs_inv:
  assumes "config_inv rows" "one_default rows" "row \<in> set rows" "pc_provider row1 = pc_provider row"
    "pc_is_default row1 = pc_is_default row"
  shows "config_inv (stored_configs access payload row1 rows)" "one_default (stored_configs access payload row1 rows)"
proof -
  let ?f = "final_row access payload row1" and ?d = "\<lambda>r. r\<lparr>pc_is_default := False\<rparr>"
  let ?rows = "if promotes payload row1 then map ?d rows else rows"
  have f: "pc_provider ?f = pc_provider row1" "pc_is_default ?f \<longleftrightarrow> pc_is_default row1 \<or> promotes payload row1"
    by (simp_all add: final_row_def)
  have keys: "map pc_provider ?rows = map pc_provider rows" by simp
  let ?old = "if promotes payload row1 then ?d row else row"
  have "length (filter pc_is_default (write_config ?f ?rows)) + of_bool (pc_is_default ?old) =
      length (filter pc_is_default ?rows) + of_bool (pc_is_default ?f)"
  proof (rule write_default_count)
    show "distinct (map pc_provider ?rows)" using assms(1) unfolding keys config_inv_def by blast
    show "?old \<in> set ?rows" using assms(3) by simp
    show "pc_provider ?f = pc_provider ?old" using assms(4) f by simp
  qed
  then have one: "length (filter pc_is_default (write_config ?f ?rows)) = 1"
    using assms(2,5) f(2) by (auto simp: one_default_def promotes_def split: if_split_asm)
  have m: "map pc_provider (write_config ?f ?rows) = map pc_provider rows" unfolding write_config_map keys ..
  have "pc_provider ` set (write_config ?f ?rows) = pc_provider ` set rows" using arg_cong[OF m, of set] by simp
  then show "config_inv (stored_configs access payload row1 rows)" "one_default (stored_configs access payload row1 rows)"
    using assms(1) one m unfolding config_inv_def one_default_def stored_configs_def by auto
qed

text \<open>What a stored key column promises: it opens, for its own provider only, to a non-empty secret.\<close>

definition sealed_for :: "fernet_ops \<Rightarrow> llm_settings \<Rightarrow> llm_provider_config \<Rightarrow> bool" where
  "sealed_for fe st r \<longleftrightarrow>
     (case pc_api_key_ciphertext r of
        None \<Rightarrow> True
      | Some t \<Rightarrow> t \<noteq> [] \<and> (\<exists>key v. credential_cipher fe st = Inr key \<and> v \<noteq> [] \<and>
          (\<forall>q. decrypt_credential fe key t q =
             (if q = pc_provider r then Inr v else Inl (LlmConfigurationError ''credential_decryption_failed'')))))"

lemma sealed_for_key:
  assumes "sealed_for fe st r"
  shows "\<exists>k. stored_key fe st (pc_provider r) (Some r) = Inr k"
    "pc_api_key_ciphertext r \<noteq> None \<Longrightarrow> q \<noteq> pc_provider r \<Longrightarrow>
       stored_key fe st q (Some r) = Inl (LlmConfigurationError ''credential_decryption_failed'')"
  using assms by (auto simp: sealed_for_def stored_key_def split: option.split_asm)

lemma sealed_for_cong:
  assumes "pc_provider r = pc_provider r'" "pc_api_key_ciphertext r = pc_api_key_ciphertext r'"
  shows "sealed_for fe st r = sealed_for fe st r'"
  unfolding sealed_for_def assms ..

lemma sealed_for_simps [simp]:
  "sealed_for fe st (r\<lparr>pc_is_default := b\<rparr>) = sealed_for fe st r"
  "sealed_for fe st (r\<lparr>pc_updated_by := u\<rparr>) = sealed_for fe st r"
  "pc_api_key_ciphertext r = None \<Longrightarrow> sealed_for fe st r"
  by (rule sealed_for_cong; simp)+ (simp add: sealed_for_def)

lemma strip_scalar: "list_all p s \<Longrightarrow> list_all p (strip s)"
  by (auto simp: strip_def strip_with_def list_all_iff dest!: set_dropWhileD)

lemma updated_key_sealed:
  assumes laws: "fernet_laws fe" and ok: "provider_update_ok alnum payload"
    and secret: "case px_api_key payload of None \<Rightarrow> True | Some k \<Rightarrow> list_all scalar_value k"
    and old: "sealed_for fe st row" and provider: "pc_provider row = provider"
    and new: "updated_key fe nonce st provider payload row = Inr (pc_api_key_ciphertext row1)" "pc_provider row1 = provider"
  shows "sealed_for fe st row1"
proof (cases "px_api_key payload")
  case None
  then show ?thesis using old new provider sealed_for_cong[of row row1] by (auto simp: updated_key_def split: if_split_asm)
next
  case (Some k)
  have v: "strip k \<noteq> []" "list_all scalar_value (strip k)"
    using ok secret Some by (auto simp: provider_update_ok_def strip_scalar)
  obtain key where key: "credential_cipher fe st = Inr key"
    and t: "pc_api_key_ciphertext row1 = Some (encrypt_credential fe key nonce (strip k) provider)"
    using new(1) Some by (auto simp: updated_key_def split: sum.split_asm)
  have "encrypt_credential fe key nonce (strip k) provider \<noteq> []"
    using laws by (simp add: fernet_laws_def encrypt_credential_def)
  then show ?thesis using key v decrypt_encrypt[OF laws v(2,1), of key nonce provider] by (auto simp: sealed_for_def t new(2))
qed

definition provider_inv :: "fernet_ops \<Rightarrow> llm_settings \<Rightarrow> provider_db \<Rightarrow> bool" where
  "provider_inv fe st db \<longleftrightarrow> config_inv (z_configs db) \<and> (z_configs db = [] \<or> one_default (z_configs db)) \<and>
     (\<forall>r \<in> set (z_configs db). sealed_for fe st r)"

text \<open>The two routes, committed or refused, with any change of the other tables between them.\<close>

inductive provider_step :: "fernet_ops \<Rightarrow> url_ops \<Rightarrow> llm_settings \<Rightarrow> provider_db \<Rightarrow> provider_db \<Rightarrow> bool"
  for fe uo st where
  list_providers: "list_llm_providers st db = (out, db') \<Longrightarrow> provider_step fe uo st db db'"
| update_provider:
    "provider_update_ok alnum payload \<Longrightarrow> (case px_api_key payload of None \<Rightarrow> True | Some k \<Rightarrow> list_all scalar_value k) \<Longrightarrow>
     update_llm_provider fe uo st now nonce rq access provider payload db = (out, db') \<Longrightarrow> provider_step fe uo st db db'"
| other_tables: "z_configs db' = z_configs db \<Longrightarrow> provider_step fe uo st db db'"

lemma ensured_sealed:
  assumes "ensure_provider_configs st rows = Some rows'" "\<forall>r \<in> set rows. sealed_for fe st r"
  shows "\<forall>r \<in> set rows'. sealed_for fe st r"
proof -
  have add: "\<forall>r \<in> set (foldl (add_missing st p) rs ps). sealed_for fe st r" if "\<forall>r \<in> set rs. sealed_for fe st r" for p ps rs
    using that
  proof (induction ps arbitrary: rs)
    case (Cons q qs)
    have "\<forall>r \<in> set (add_missing st p rs q). sealed_for fe st r"
      using Cons.prems by (simp add: add_missing_def new_config_def)
    then show ?case using Cons.IH by simp
  qed simp
  have mark: "\<forall>r \<in> set (mark_default p rs). sealed_for fe st r" if "\<forall>r \<in> set rs. sealed_for fe st r" for p rs
    using that by (auto simp: mark_default_def update_where_def)
  obtain p where "preferred_default st = Some p" using assms(1) by (auto simp: ensure_provider_configs_def split: option.split_asm)
  then have "rows' = foldl (add_missing st p) rows supported_providers \<or>
      rows' = mark_default p (foldl (add_missing st p) rows supported_providers)"
    using assms(1) by (auto simp: ensure_provider_configs_def Let_def split: if_split_asm)
  then show ?thesis using mark[OF add[OF assms(2)]] add[OF assms(2)] by blast
qed

lemma update_failed_keeps:
  "update_llm_provider fe uo st now nonce rq access provider payload db = (Inl e, db') \<Longrightarrow> db' = db"
  unfolding update_llm_provider_def by (auto split: sum.split_asm prod.split_asm)

lemma update_provider_inv:
  assumes laws: "fernet_laws fe" and st: "egress_settings_ok st" and inv: "provider_inv fe st db"
    and ok: "provider_update_ok alnum payload" "case px_api_key payload of None \<Rightarrow> True | Some k \<Rightarrow> list_all scalar_value k"
    and u: "update_llm_provider fe uo st now nonce rq access provider payload db = (Inr r, db')"
  shows "provider_inv fe st db'"
proof -
  obtain rows row row1 where e: "ensure_provider_configs st (z_configs db) = Some rows" and f: "find_config rows provider = Some row"
    and p: "provider_row_update fe uo st nonce provider payload row = Inr row1"
    and c: "z_configs db' = stored_configs access payload row1 rows"
    using update_providerD[OF u] by blast
  have "config_inv (z_configs db)" using inv by (simp add: provider_inv_def)
  then have rows: "config_inv rows" "one_default rows" using ensure_configs_inv[OF _ st] e by (metis option.inject)+
  have sealed: "\<forall>r \<in> set rows. sealed_for fe st r" using ensured_sealed[OF e] inv by (simp add: provider_inv_def)
  note row = find_config_Some[OF f] and row1 = provider_row_updateD[OF p]
  have s1: "sealed_for fe st row1"
    using updated_key_sealed[OF laws ok _ _ row1(3)] sealed row row1(1) by auto
  have "sealed_for fe st r" if "r \<in> set (stored_configs access payload row1 rows)" for r
    using that s1 sealed by (auto simp: stored_configs_def write_config_set final_row_def split: if_split_asm)
  then show ?thesis
    using stored_configs_inv[OF rows row[THEN conjunct1] row1(1,2)] by (simp add: provider_inv_def c)
qed

interpretation provider_run: step_system "provider_step fe uo st" "\<lambda>db. fernet_laws fe \<and> egress_settings_ok st \<and> provider_inv fe st db"
proof
  fix db db'
  assume s: "provider_step fe uo st db db'" and i: "fernet_laws fe \<and> egress_settings_ok st \<and> provider_inv fe st db"
  from s have "provider_inv fe st db'"
  proof cases
    case (list_providers out)
    have "config_inv (z_configs db)" "egress_settings_ok st" using i by (simp_all add: provider_inv_def)
    then obtain rows where "ensure_provider_configs st (z_configs db) = Some rows" "config_inv rows" "one_default rows"
      by (rule ensure_configs_inv)
    then show ?thesis using list_providers i ensured_sealed[of st "z_configs db" rows fe]
      by (auto simp: list_llm_providers_def Let_def provider_inv_def)
  next
    case (update_provider alnum payload now nonce rq access provider out)
    show ?thesis
    proof (cases out)
      case (Inl e)
      then show ?thesis using update_failed_keeps update_provider(3) i by blast
    next
      case (Inr r)
      then show ?thesis using update_provider_inv i update_provider by blast
    qed
  next
    case other_tables
    then show ?thesis using i by (simp add: provider_inv_def)
  qed
  then show "fernet_laws fe \<and> egress_settings_ok st \<and> provider_inv fe st db'" using i by blast
qed

section \<open>A small configuration\<close>

definition toy_fernet :: fernet_ops where
  "toy_fernet = \<lparr>fe_derive = (\<lambda>s. ''k''), fe_encrypt = (\<lambda>k n m. CHR ''t'' # map char_of m),
     fe_decrypt = (\<lambda>k t. Some (map of_char (tl t))), fe_float_one = (\<lambda>s. s = uni ''1.0''), fe_recursion_limit = 900\<rparr>"

lemma toy_fernet_laws: "fernet_laws toy_fernet"
proof -
  have "map (of_char \<circ> (char_of :: nat \<Rightarrow> char)) m = m" if "ascii_text_only m" for m
    using that by (induction m) (auto simp: ascii_text_only_def)
  then show ?thesis by (simp add: fernet_laws_def toy_fernet_def)
qed

definition ascii_url :: url_ops where
  "ascii_url = \<lparr>ut_lower = map (\<lambda>c. if 65 \<le> c \<and> c \<le> 90 then c + 32 else c), ut_nfkc = (\<lambda>s. s), ut_bracketed = (\<lambda>_. False)\<rparr>"

definition gateway_settings :: llm_settings where
  "gateway_settings = \<lparr>ls_deployment_profile = ''isolated'', ls_egress_mode = CONTROLLED_GATEWAY,
     ls_egress_gateway_url = Some controlled_llm_gateway_base_url, ls_egress_approved_providers = ''deepseek,qwen'',
     ls_default_provider = ''deepseek'', ls_credentials_encryption_key = Some (replicate 32 65),
     ls_qwen_allowed_workspace_hosts = [], ls_model = (\<lambda>p. ''m-'' @ p), ls_base_url = controlled_provider_base_url,
     ls_api_key = (\<lambda>p. if p = ''deepseek'' then Some (uni ''sk-demo-key'') else None), ls_max_tokens = 4096\<rparr>"

definition direct_settings :: llm_settings where
  "direct_settings = gateway_settings\<lparr>ls_deployment_profile := ''cloud'', ls_egress_mode := DIRECT, ls_egress_gateway_url := None,
     ls_egress_approved_providers := []\<rparr>"

lemma demo_settings_ok: "egress_settings_ok gateway_settings" "egress_settings_ok direct_settings"
  by (simp_all add: egress_settings_ok_def gateway_settings_def direct_settings_def normalize_approved_providers_def
      approved_llm_providers_def supported_providers_def py_strip_def py_isspace_def)

definition empty_providers :: provider_db where
  "empty_providers = \<lparr>z_keys = undefined, z_configs = []\<rparr>"

text \<open>C16. Along any sequence of listings and updates of the provider settings, from an empty table and with the same deployment settings and encryption key throughout, there is exactly one default provider as soon as there are rows, every stored credential opens for the provider of its row, and read for another provider it is refused.\<close>

theorem provider_credentials_stay_sealed:
  assumes "fernet_laws fe" "egress_settings_ok st" "z_configs db0 = []" "(provider_step fe uo st)\<^sup>*\<^sup>* db0 db"
  shows "(z_configs db = [] \<or> length (filter pc_is_default (z_configs db)) = 1) \<and>
    (\<forall>r \<in> set (z_configs db). (\<exists>k. stored_key fe st (pc_provider r) (Some r) = Inr k) \<and>
       (\<forall>q. pc_api_key_ciphertext r \<noteq> None \<longrightarrow> q \<noteq> pc_provider r \<longrightarrow>
          stored_key fe st q (Some r) = Inl (LlmConfigurationError ''credential_decryption_failed'')))"
proof -
  have "provider_inv fe st db0" using assms(3) by (simp add: provider_inv_def config_inv_def)
  then have "provider_inv fe st db" using provider_run.steps_inv[OF assms(4)] assms(1,2) by blast
  then show ?thesis using sealed_for_key by (fastforce simp: provider_inv_def one_default_def)
qed

theorem provider_credentials_stay_sealed_witness:
  "z_configs (snd (list_llm_providers gateway_settings empty_providers)) \<noteq> [] \<and>
   length (filter pc_is_default (z_configs (snd (list_llm_providers gateway_settings empty_providers)))) = 1"
proof -
  let ?db = "snd (list_llm_providers gateway_settings empty_providers)"
  have s: "(provider_step toy_fernet ascii_url gateway_settings)\<^sup>*\<^sup>* empty_providers ?db"
    by (rule r_into_rtranclp, rule provider_step.list_providers) (rule prod.collapse[symmetric])
  have "z_configs ?db \<noteq> []"
    by (simp add: list_llm_providers_def empty_providers_def ensure_provider_configs_def preferred_default_def
        gateway_settings_def approved_llm_providers_def supported_providers_def add_missing_def find_config_def new_config_def
        mark_default_def update_where_def Let_def)
  then show ?thesis
    using provider_credentials_stay_sealed[OF toy_fernet_laws demo_settings_ok(1) _ s] by (simp add: empty_providers_def)
qed

text \<open>C15. The client that \<open>resolve_provider_client\<close> gives to chat, conversion and the internal probe is only ever built for an endpoint the deployment approved: never in strict offline mode; behind the controlled gateway only for an approved provider, at its fixed path on the fixed gateway; otherwise at an HTTPS host approved for that provider, without user information, query or fragment. The adapter \<open>DeepSeekClient\<close>, which the application does not build, is outside the claim: it makes none of these checks.\<close>

theorem client_endpoint_confined:
  assumes "egress_settings_ok st" "resolve_provider_client fe uo st provider rows = Inr client"
  shows "case ls_egress_mode st of
      STRICT_OFFLINE \<Rightarrow> False
    | CONTROLLED_GATEWAY \<Rightarrow> oc_provider client \<in> set (approved_llm_providers st) \<and>
        oc_base_url client = uni ''http://llm-egress:8080'' @ controlled_provider_gateway_path (oc_provider client)
    | DIRECT \<Rightarrow> approved_endpoint uo (oc_provider client) (ls_qwen_allowed_workspace_hosts st) (oc_base_url client)"
proof -
  obtain row :: "llm_provider_config option" and base where r: "ls_egress_mode st \<noteq> STRICT_OFFLINE"
    and b: "validate_provider_base_url uo (oc_provider client)
       (case row of None \<Rightarrow> ls_base_url st (oc_provider client) | Some r \<Rightarrow> pc_base_url r) (ls_qwen_allowed_workspace_hosts st) = Some base"
    and u: "runtime_provider_base_url st (oc_provider client) base = Inr (oc_base_url client)"
    by (rule resolve_clientD[OF assms(2)]) blast
  show ?thesis
    using r runtime_base_urlD[OF u] validate_base_urlD[OF b] assms(1)
    by (auto simp: egress_settings_ok_def controlled_llm_gateway_base_url_def split: egress_mode.split)
qed

lemma demo_client:
  "resolve_provider_client toy_fernet ascii_url gateway_settings None [] =
     Inr \<lparr>oc_provider = ''deepseek'', oc_api_key = Some (uni ''sk-demo-key''), oc_base_url = uni ''http://llm-egress:8080/deepseek'',
          oc_model = ''m-deepseek'', oc_max_tokens = 4096\<rparr>"
  by (simp add: resolve_provider_client_def external_llm_enabled_def gateway_settings_def Let_def value_error_def some_or_def
      validate_provider_base_url_def controlled_provider_base_url_def strip_def strip_with_def rstrip_with_def uni_isspace_def
      urlsplit_def split_scheme_def index_of_def ascii_url_def ascii_alpha_def scheme_char_def partition_at_def checknetloc_def
      url_hostname_def hostinfo_def rpartition_at_def url_port_def has_userinfo_def approved_hosts_def stored_key_def
      environment_key_def runtime_provider_base_url_def validate_provider_runtime_policy_def approved_llm_providers_def
      supported_providers_def controlled_llm_gateway_base_url_def controlled_provider_gateway_path_def)

theorem client_endpoint_confined_witness:
  "oc_base_url (projr (resolve_provider_client toy_fernet ascii_url gateway_settings None [])) =
     uni ''http://llm-egress:8080'' @ controlled_provider_gateway_path ''deepseek'' \<and>
   is_ok (resolve_provider_client toy_fernet ascii_url gateway_settings None [])"
proof -
  have "ls_egress_mode gateway_settings = CONTROLLED_GATEWAY" by (simp add: gateway_settings_def)
  then show ?thesis using client_endpoint_confined[OF demo_settings_ok(1) demo_client] by (simp add: demo_client)
qed

text \<open>In strict offline mode the resolver gives no client, while the older adapter has a key and an endpoint.\<close>

definition offline_settings :: llm_settings where
  "offline_settings = direct_settings\<lparr>ls_egress_mode := STRICT_OFFLINE\<rparr>"

lemma deepseek_adapter_unchecked:
  "egress_settings_ok offline_settings"
  "resolve_provider_client fe uo offline_settings provider rows = Inl (LlmConfigurationError ''external_llm_disabled'')"
  "configured (deepseek_client offline_settings)"
  "oc_base_url (deepseek_client offline_settings) = uni ''https://api.deepseek.com''"
  by (simp_all add: egress_settings_ok_def offline_settings_def gateway_settings_def direct_settings_def normalize_approved_providers_def
      approved_llm_providers_def supported_providers_def resolve_provider_client_def external_llm_enabled_def deepseek_client_def
      configured_def controlled_provider_base_url_def)

end
