(* ===== verification/Chat_Answer.thy ===== *)
theory Chat_Answer
  imports Chat_Text Llm_Settings Chat_Idempotency
begin

text \<open>
  Answering a question (\<open>answer_knowledge_query\<close> in \<open>src/app/services/chat.py\<close>) and the two chat routes and the search of the
  public API (\<open>src/app/api/v1/routes/chat.py\<close>, \<open>public_api.py\<close>). Retrieval, the provider settings, the governed executor, the
  egress authorization and the idempotency ledger are those of the other theories; the providers, their replies and what
  other sessions commit meanwhile are arguments. The deadlines that \<open>run_chat_with_budget\<close> puts around a request show as a
  cancelled operation.
\<close>

section \<open>What a request meets\<close>

datatype check_run = CheckCompletes | CheckRaises | CheckInterrupted
datatype close_end = CloseOk | CloseRaises | CloseCancelled
datatype acquire_end = Acquired | AcquireValueError | AcquireRaises

text \<open>
  One governed call: the clock, the id of the usage record, what others commit before the egress check, how the check ends,
  the reply with the ledger others leave, and what others commit to the other tables meanwhile.
\<close>

record model_call =
  mc_now :: timestamp
  mc_fin :: timestamp
  mc_usage_id :: uuid
  mc_before_check :: "keys_db \<Rightarrow> keys_db"
  mc_check :: check_run
  mc_reply :: "llm_db \<Rightarrow> unicode provider_reply \<times> llm_db"
  mc_meanwhile :: "keys_db \<Rightarrow> keys_db"

text \<open>
  The provider rows as they are read when a client is resolved, how the client and its transport lease are acquired (a \<open>ValueError\<close>
  there counts as a missing configuration), the two calls and
  the closing of the clients.
\<close>

record chat_world =
  cw_configs :: "llm_provider_config list"
  cw_acquire :: "client_config \<Rightarrow> acquire_end"
  cw_answer :: model_call
  cw_review_configs :: "llm_provider_config list"
  cw_review :: model_call
  cw_close :: close_end

record chat_env =
  ce_crypto :: crypto_ops
  ce_text :: text_ops
  ce_chat :: chat_ops
  ce_fernet :: fernet_ops
  ce_url :: url_ops
  ce_settings :: llm_settings
  ce_tenant_key :: string

record chat_request =
  cx_access :: access_context
  cx_knowledge_base_id :: uuid
  cx_message :: unicode
  cx_limit :: nat
  cx_idempotency_key :: string
  cx_api_key_id :: "uuid option"
  cx_credential_family_id :: "uuid option"

section \<open>Clients and calls\<close>

datatype lease = Leased client_config | NoClient | LeaseRaises

definition lease_client :: "chat_env \<Rightarrow> (client_config \<Rightarrow> acquire_end) \<Rightarrow> string option \<Rightarrow> llm_provider_config list \<Rightarrow> lease" where
  "lease_client env acquire provider rows =
     (case resolve_provider_client (ce_fernet env) (ce_url env) (ce_settings env) provider rows of
        Inr client \<Rightarrow>
          (case acquire client of Acquired \<Rightarrow> Leased client | AcquireValueError \<Rightarrow> NoClient | AcquireRaises \<Rightarrow> LeaseRaises)
      | Inl (LlmConfigurationError _) \<Rightarrow> NoClient
      | Inl ProviderValueError \<Rightarrow> NoClient
      | Inl ConfigUnexpected \<Rightarrow> LeaseRaises)"

text \<open>The reviewer: the first other provider with a usable client that is not the generator's.\<close>

fun review_client_among :: "chat_env \<Rightarrow> (client_config \<Rightarrow> acquire_end) \<Rightarrow> llm_provider_config list \<Rightarrow> client_config \<Rightarrow> string list \<Rightarrow> lease" where
  "review_client_among env acquire rows generator [] = NoClient"
| "review_client_among env acquire rows generator (p # ps) =
     (if p = oc_provider generator then review_client_among env acquire rows generator ps
      else (case lease_client env acquire (Some p) rows of
              LeaseRaises \<Rightarrow> LeaseRaises
            | NoClient \<Rightarrow> review_client_among env acquire rows generator ps
            | Leased candidate \<Rightarrow>
                if configured candidate \<and>
                   (oc_provider candidate, oc_model candidate) \<noteq> (oc_provider generator, oc_model generator)
                then Leased candidate
                else review_client_among env acquire rows generator ps))"

definition resolve_independent_review_client :: "chat_env \<Rightarrow> chat_world \<Rightarrow> client_config \<Rightarrow> lease" where
  "resolve_independent_review_client env w generator =
     review_client_among env (cw_acquire w) (cw_review_configs w) generator [''deepseek'', ''qwen'', ''minimax'']"

definition chat_dimensions :: "chat_env \<Rightarrow> chat_request \<Rightarrow> client_config \<Rightarrow> string \<Rightarrow> usage_dimensions" where
  "chat_dimensions env rq client operation =
     \<lparr>dim_tenant_key = ce_tenant_key env, dim_user_id = u_id (ac_user (cx_access rq)), dim_api_key_id = cx_api_key_id rq,
      dim_knowledge_base_id = Some (cx_knowledge_base_id rq), dim_provider = oc_provider client, dim_model = oc_model client,
      dim_operation = operation, dim_api_key_credential_family_id = cx_credential_family_id rq\<rparr>"

definition chat_egress_allowed :: "chat_env \<Rightarrow> chat_request \<Rightarrow> timestamp \<Rightarrow> keys_db \<Rightarrow> bool" where
  "chat_egress_allowed env rq now db =
     external_llm_egress_allowed (ce_crypto env) now (u_id (ac_user (cx_access rq))) (cx_knowledge_base_id rq) (cx_api_key_id rq)
       (Some ''chat:query'') READER db"

definition egress_check_of :: "check_run \<Rightarrow> bool \<Rightarrow> egress_check" where
  "egress_check_of run allowed =
     (case run of CheckRaises \<Rightarrow> CheckFailed | CheckInterrupted \<Rightarrow> CheckCancelled
      | CheckCompletes \<Rightarrow> if allowed then CheckAllowed else CheckDenied)"

definition put_llm :: "llm_db \<Rightarrow> keys_db \<Rightarrow> keys_db" where
  "put_llm l db = db\<lparr>x_llm := l\<rparr>"

text \<open>The session of the request is closed without a further commit, so counters that a refused call flushed are dropped.\<close>

definition governed_chat ::
    "chat_env \<Rightarrow> chat_request \<Rightarrow> model_call \<Rightarrow> client_config \<Rightarrow> string \<Rightarrow> string \<Rightarrow> unicode list \<Rightarrow> int \<Rightarrow> keys_db \<Rightarrow>
     (llm_error + unicode llm_result) \<times> keys_db" where
  "governed_chat env rq mc client operation child messages max_tokens db =
     (case complete_chat (ce_crypto env) (oc_provider client, oc_model client) (chat_dimensions env rq client operation)
             (child_idempotency_key (ce_crypto env) (cx_idempotency_key rq) child) (map Some messages) max_tokens
             (\<lambda>l. (egress_check_of (mc_check mc) (chat_egress_allowed env rq (mc_now mc) (mc_before_check mc db)),
                    x_llm (mc_before_check mc (put_llm l db))))
             (mc_reply mc) (mc_now mc) (mc_fin mc) (mc_usage_id mc) (x_llm db) of
        (outcome, l) \<Rightarrow>
          (outcome, put_llm (committed_part (ce_crypto env) (oc_provider client, oc_model client)
               (chat_dimensions env rq client operation) (child_idempotency_key (ce_crypto env) (cx_idempotency_key rq) child)
               (estimate_input_tokens (map Some messages)) max_tokens (mc_now mc) (mc_usage_id mc) (x_llm db) l)
             (mc_meanwhile mc (mc_before_check mc db))))"

section \<open>The answer\<close>

type_synonym answer_outcome = "chat_response operation_outcome \<times> keys_db"

definition chat_outcome_unknown :: api_error where
  "chat_outcome_unknown = ApiError 409 ''idempotency_outcome_unknown''"

definition responds :: "chat_response option \<Rightarrow> chat_response operation_outcome" where
  "responds r = (case r of None \<Rightarrow> OpException | Some response \<Rightarrow> OpResponse response)"

definition fallback ::
    "chat_env \<Rightarrow> chat_request \<Rightarrow> chat_citation list \<Rightarrow> answer_strategy \<Rightarrow> answer_reason \<Rightarrow> (string \<times> string) option \<Rightarrow>
     chat_response operation_outcome" where
  "fallback env rq citations strategy reason origin =
     responds (retrieval_response (ce_crypto env) (ce_chat env) (cx_knowledge_base_id rq) citations strategy reason (cx_message rq) origin)"

text \<open>The \<open>except\<close> clauses of the generating call.\<close>

definition after_generation_error ::
    "chat_env \<Rightarrow> chat_request \<Rightarrow> chat_citation list \<Rightarrow> client_config \<Rightarrow> llm_error \<Rightarrow> chat_response operation_outcome" where
  "after_generation_error env rq citations client e =
     (let degrade = (\<lambda>reason. fallback env rq citations RetrievalFallback reason (Some (oc_provider client, oc_model client))) in
      case e of
        LlmEgressDenied \<Rightarrow> degrade ExternalProcessingDisabled
      | LlmBudgetExceeded _ _ _ _ \<Rightarrow> degrade UsageBudgetExceeded
      | LlmUsagePricingUnavailable \<Rightarrow> degrade UsageGovernanceUnavailable
      | LlmBudgetConfigurationUnavailable \<Rightarrow> degrade UsageGovernanceUnavailable
      | LlmUsageUnmetered \<Rightarrow> OpApiError chat_outcome_unknown
      | LlmUsageMeteringMismatch \<Rightarrow> OpApiError chat_outcome_unknown
      | LlmUsageDuplicate _ _ \<Rightarrow> OpApiError chat_outcome_unknown
      | LlmProviderRaised err \<Rightarrow>
          if pv_metering_outcome err = UNKNOWN then OpApiError chat_outcome_unknown else degrade ProviderUnavailable
      | LlmCancelled \<Rightarrow> OpCancelled
      | _ \<Rightarrow> OpException)"

text \<open>The \<open>except\<close> clauses of the reviewing call: a verdict, or the end of the request.\<close>

definition review_verdict ::
    "chat_ops \<Rightarrow> llm_error + unicode llm_result \<Rightarrow> chat_response operation_outcome + review_reason" where
  "review_verdict ch outcome =
     (case outcome of
        Inr result \<Rightarrow> Inr (parse_review_result ch (lr_content result))
      | Inl e \<Rightarrow>
          (case e of
             LlmEgressDenied \<Rightarrow> Inr ReviewUnavailable
           | LlmUsageUnmetered \<Rightarrow> Inl (OpApiError chat_outcome_unknown)
           | LlmUsageMeteringMismatch \<Rightarrow> Inl (OpApiError chat_outcome_unknown)
           | LlmUsageDuplicate _ _ \<Rightarrow> Inl (OpApiError chat_outcome_unknown)
           | LlmProviderRaised err \<Rightarrow>
               if pv_metering_outcome err = UNKNOWN then Inl (OpApiError chat_outcome_unknown) else Inr ReviewUnavailable
           | LlmBudgetExceeded _ _ _ _ \<Rightarrow> Inr ReviewUnavailable
           | LlmUsagePricingUnavailable \<Rightarrow> Inr ReviewUnavailable
           | LlmBudgetConfigurationUnavailable \<Rightarrow> Inr ReviewUnavailable
           | LlmCancelled \<Rightarrow> Inl OpCancelled
           | _ \<Rightarrow> Inl OpException))"

definition review_fallback_reason :: "review_reason \<Rightarrow> answer_reason" where
  "review_fallback_reason r =
     (case r of ReviewRejected \<Rightarrow> AnswerReviewRejected | ReviewInvalid \<Rightarrow> AnswerReviewInvalid | _ \<Rightarrow> AnswerReviewUnavailable)"

definition rag_response ::
    "chat_env \<Rightarrow> chat_request \<Rightarrow> unicode llm_result \<Rightarrow> generated_response \<Rightarrow> chat_citation list \<Rightarrow> chat_response" where
  "rag_response env rq result generated referenced =
     \<lparr>cr_knowledge_base_id = cx_knowledge_base_id rq,
      cr_answer = with_source_footer (ce_crypto env) (ge_answer generated) referenced, cr_mode = RagMode,
      cr_provider = Some (lr_provider result), cr_model = Some (lr_model result), cr_table = ge_table generated,
      cr_answer_review = \<lparr>ar_passed = True, ar_reason = SemanticVerified\<rparr>, cr_citations = referenced,
      cr_source_status = \<lparr>ss_grounded = True, ss_strategy = RagStrategy, ss_reason = LlmGenerated,
                          ss_citation_count = length referenced\<rparr>\<rparr>"

definition all_referenced :: "generated_response \<Rightarrow> chat_citation list \<Rightarrow> chat_citation list \<Rightarrow> chat_citation list" where
  "all_referenced generated cited citations =
     filter (\<lambda>c. cn_number c \<in> set (citation_numbers cited) \<union>
               set (case ge_table generated of None \<Rightarrow> [] | Some t \<Rightarrow> dt_citation_numbers t)) citations"

definition review_generated ::
    "chat_env \<Rightarrow> chat_world \<Rightarrow> chat_request \<Rightarrow> chat_citation list \<Rightarrow> client_config \<Rightarrow> unicode llm_result \<Rightarrow> generated_response \<Rightarrow>
     chat_citation list \<Rightarrow> keys_db \<Rightarrow> answer_outcome" where
  "review_generated env w rq citations client result generated referenced db =
     (let degrade = (\<lambda>reason. fallback env rq citations RetrievalFallback reason (Some (lr_provider result, lr_model result))) in
      case resolve_independent_review_client env w client of
        LeaseRaises \<Rightarrow> (OpException, db)
      | NoClient \<Rightarrow> (degrade IndependentReviewerUnavailable, db)
      | Leased reviewer \<Rightarrow>
          (case governed_chat env rq (cw_review w) reviewer ''chat.review'' ''review''
                  (review_messages (cx_message rq) generated referenced) 1024 db of
             (outcome, db1) \<Rightarrow>
               (case review_verdict (ce_chat env) outcome of
                  Inl stop \<Rightarrow> (stop, db1)
                | Inr SemanticVerified \<Rightarrow> (OpResponse (rag_response env rq result generated referenced), db1)
                | Inr verdict \<Rightarrow> (degrade (review_fallback_reason verdict), db1))))"

definition judge_generated ::
    "chat_env \<Rightarrow> chat_world \<Rightarrow> chat_request \<Rightarrow> chat_citation list \<Rightarrow> client_config \<Rightarrow> unicode llm_result \<Rightarrow> keys_db \<Rightarrow> answer_outcome" where
  "judge_generated env w rq citations client result db =
     (let ch = ce_chat env;
          degrade = (\<lambda>reason. fallback env rq citations RetrievalFallback reason (Some (lr_provider result, lr_model result))) in
      case parse_generated_response ch (lr_content result) citations of
        None \<Rightarrow> (OpException, db)
      | Some None \<Rightarrow>
          (case model_response_error ch (lr_content result) citations of
             None \<Rightarrow> (OpException, db) | Some reason \<Rightarrow> (degrade reason, db))
      | Some (Some generated) \<Rightarrow>
          (case referenced_citations ch (ge_answer generated) citations of
             None \<Rightarrow> (OpException, db)
           | Some (Inl reason) \<Rightarrow> (degrade reason, db)
           | Some (Inr cited) \<Rightarrow>
               review_generated env w rq citations client result generated (all_referenced generated cited citations) db))"

definition answer_with_generation_client ::
    "chat_env \<Rightarrow> chat_world \<Rightarrow> chat_request \<Rightarrow> chat_citation list \<Rightarrow> client_config \<Rightarrow> keys_db \<Rightarrow> answer_outcome" where
  "answer_with_generation_client env w rq citations client db =
     (if \<not> configured client
      then (fallback env rq citations RetrievalFallback ProviderUnconfigured (Some (oc_provider client, oc_model client)), db)
      else (case governed_chat env rq (cw_answer w) client ''chat.answer'' ''answer''
                   (generation_messages (cx_message rq) citations) 2048 db of
              (Inl e, db1) \<Rightarrow> (after_generation_error env rq citations client e, db1)
            | (Inr result, db1) \<Rightarrow> judge_generated env w rq citations client result db1))"

definition closed_with :: "close_end \<Rightarrow> answer_outcome \<Rightarrow> answer_outcome" where
  "closed_with c out = (case c of CloseOk \<Rightarrow> out | CloseRaises \<Rightarrow> (OpException, snd out) | CloseCancelled \<Rightarrow> (OpCancelled, snd out))"

definition no_results_response :: "uuid \<Rightarrow> chat_response" where
  "no_results_response kid =
     \<lparr>cr_knowledge_base_id = kid,
      cr_answer = [0x5F53, 0x524D, 0x77E5, 0x8BC6, 0x5E93, 0x4E2D, 0x6CA1, 0x6709, 0x68C0, 0x7D22, 0x5230, 0x8DB3, 0x591F, 0x76F8, 0x5173, 0x7684, 0x5185, 0x5BB9, 0x3002] @ [10, 10] @ [0x7B54, 0x6848, 0x6765, 0x6E90, 0xFF1A, 0x5F53, 0x524D, 0x77E5, 0x8BC6, 0x5E93, 0x672A, 0x68C0, 0x7D22, 0x5230, 0x53EF, 0x5F15, 0x7528, 0x5185, 0x5BB9, 0x3002],
      cr_mode = RetrievalMode, cr_provider = None, cr_model = None, cr_table = None, cr_answer_review = retrieval_only,
      cr_citations = [],
      cr_source_status = \<lparr>ss_grounded = False, ss_strategy = RetrievalStrategy, ss_reason = NoMatchingContent, ss_citation_count = 0\<rparr>\<rparr>"

definition answer_knowledge_query :: "chat_env \<Rightarrow> chat_world \<Rightarrow> chat_request \<Rightarrow> keys_db \<Rightarrow> answer_outcome" where
  "answer_knowledge_query env w rq db =
     (case require_knowledge_base_access (x_kb db) (cx_access rq) (cx_knowledge_base_id rq) READER of
        Inl e \<Rightarrow> (OpApiError e, db)
      | Inr ka \<Rightarrow>
          (let citations = as_chat_citations
                 (search_knowledge_entries (ce_text env) (x_kb db) (cx_knowledge_base_id rq) (cx_message rq) (cx_limit rq)) in
           if citations = [] then (OpResponse (no_results_response (cx_knowledge_base_id rq)), db)
           else if \<not> kb_external_llm_processing_enabled (ka_knowledge_base ka)
           then (fallback env rq citations RetrievalStrategy ExternalProcessingDisabled None, db)
           else (case lease_client env (cw_acquire w) None (cw_configs w) of
                   LeaseRaises \<Rightarrow> (OpException, db)
                 | NoClient \<Rightarrow> (fallback env rq citations RetrievalFallback ProviderConfigurationError None, db)
                 | Leased client \<Rightarrow> closed_with (cw_close w) (answer_with_generation_client env w rq citations client db))))"

section \<open>Routes\<close>

definition chat_operation :: "chat_env \<Rightarrow> chat_world \<Rightarrow> chat_request \<Rightarrow> chat_db \<Rightarrow> chat_response operation_outcome \<times> chat_db" where
  "chat_operation env w rq db =
     (case answer_knowledge_query env w rq (y_keys db) of (outcome, k) \<Rightarrow> (outcome, db\<lparr>y_keys := k\<rparr>))"

definition chat_payload :: "chat_request \<Rightarrow> chat_query" where
  "chat_payload rq = \<lparr>cq_knowledge_base_id = cx_knowledge_base_id rq, cq_message = utf8_text (cx_message rq), cq_limit = int (cx_limit rq)\<rparr>"

text \<open>\<open>ChatQueryRequest\<close>: the bounds are checked before the white space is stripped.\<close>

definition validate_message :: "unicode \<Rightarrow> unicode option" where
  "validate_message value =
     (if length value < 1 \<or> length value > 2000 \<or> strip value = [] then None else Some (strip value))"

definition query_chat ::
    "chat_env \<Rightarrow> chat_response replay_ops \<Rightarrow> chat_settings \<Rightarrow> schedule \<Rightarrow> chat_world \<Rightarrow> access_context \<Rightarrow> uuid \<Rightarrow> unicode \<Rightarrow> nat \<Rightarrow> string \<Rightarrow>
     chat_db \<Rightarrow> (chat_error + chat_response) \<times> chat_db" where
  "query_chat env ops st s w access kid message limit key db =
     (case require_knowledge_base_access (x_kb (y_keys db)) access kid READER of
        Inl e \<Rightarrow> (Inl (ChatApi e), db)
      | Inr _ \<Rightarrow>
          (let rq = \<lparr>cx_access = access, cx_knowledge_base_id = kid, cx_message = message, cx_limit = limit,
                     cx_idempotency_key = key, cx_api_key_id = None, cx_credential_family_id = None\<rparr>
           in execute_chat_query_idempotently (ce_crypto env) ops st s (for_user (u_id (ac_user access))) key (chat_payload rq)
                (authorize_interactive_chat_snapshot (u_id (ac_user access)) (u_token_version (ac_user access)) kid)
                (chat_operation env w rq) db))"

definition require_key_knowledge_scope :: "api_key_access \<Rightarrow> uuid \<Rightarrow> api_error + unit" where
  "require_key_knowledge_scope ax kid = ensure (allows_knowledge_base ax kid) kb_not_found"

definition query_chat_with_api_key ::
    "chat_env \<Rightarrow> chat_response replay_ops \<Rightarrow> chat_settings \<Rightarrow> schedule \<Rightarrow> chat_world \<Rightarrow> api_key_access \<Rightarrow> uuid \<Rightarrow> unicode \<Rightarrow> nat \<Rightarrow> string \<Rightarrow>
     chat_db \<Rightarrow> (chat_error + chat_response) \<times> chat_db" where
  "query_chat_with_api_key env ops st s w ax kid message limit key db =
     (case bind_r (require_key_knowledge_scope ax kid) (\<lambda>_. require_knowledge_base_access (x_kb (y_keys db)) (ax_access ax) kid READER) of
        Inl e \<Rightarrow> (Inl (ChatApi e), db)
      | Inr _ \<Rightarrow>
          (let k = ax_api_key ax;
               rq = \<lparr>cx_access = ax_access ax, cx_knowledge_base_id = kid, cx_message = message, cx_limit = limit,
                     cx_idempotency_key = key, cx_api_key_id = Some (ak_id k),
                     cx_credential_family_id = Some (ak_credential_family_id k)\<rparr>
           in execute_chat_query_idempotently (ce_crypto env) ops st s (for_api_key (ak_credential_family_id k)) key (chat_payload rq)
                (authorize_api_key_chat_snapshot (ce_crypto env) (ak_id k) (ak_credential_family_id k) (ak_user_id k) kid)
                (chat_operation env w rq) db))"

definition search_with_api_key ::
    "text_ops \<Rightarrow> api_key_access \<Rightarrow> uuid \<Rightarrow> unicode \<Rightarrow> nat \<Rightarrow> kb_db \<Rightarrow> api_error + search_hit list" where
  "search_with_api_key ops ax kid q limit db =
     bind_r (require_key_knowledge_scope ax kid) (\<lambda>_.
     bind_r (require_knowledge_base_access db (ax_access ax) kid READER) (\<lambda>_.
     Inr (search_knowledge_entries ops db kid q limit)))"

end
