(* ===== verification/Chat_Safety.thy ===== *)
theory Chat_Safety
  imports Chat_Answer
begin

text \<open>
  What the chat service promises: a generated answer is released only when it is grounded, reviewed by another provider and
  permitted; nothing is sent without consent; and a question is answered from the knowledge base alone when no provider can be
  used. A concrete request is driven through both calls at the end.
\<close>

section \<open>What a call lets through\<close>

lemma finish_call_result:
  assumes "finish_call d uid reply now db = (Inr result, db')"
  shows "reply = ReplyResult result" "lr_provider result = dim_provider d" "lr_model result = dim_model d"
  using assms
  by (auto simp: finish_call_def commit_and_raise_def split: provider_reply.split_asm if_split_asm option.split_asm sum.split_asm)

lemma enforce_egress_policy_Inr:
  "enforce_egress_policy uid chk now db = (Inr u, db') \<Longrightarrow> (chk = NoCheck \<or> chk = CheckAllowed) \<and> db' = db"
  by (auto simp: enforce_egress_policy_def commit_and_raise_def split: egress_check.split_asm sum.split_asm)

lemma governed_call_result:
  assumes "governed_call co client d key est max_out chk call now fin uid db = (Inr result, db')"
  obtains db1 db2 where "fst (chk db1) = NoCheck \<or> fst (chk db1) = CheckAllowed" "fst (call db2) = ReplyResult result"
    "lr_provider result = dim_provider d" "lr_model result = dim_model d"
proof -
  obtain rec db1 where r: "open_call co client d key est max_out now uid db = Inr (rec, db1)"
    using assms by (auto simp: governed_call_def split: sum.split_asm)
  obtain check l where k: "chk db1 = (check, l)" by (cases "chk db1")
  then obtain u db2 where e: "enforce_egress_policy (lu_id rec) check now l = (Inr u, db2)"
    using assms r by (auto simp: governed_call_def split: sum.split_asm prod.split_asm)
  obtain reply db3 where c: "call db2 = (reply, db3)" by (cases "call db2")
  have "finish_call d (lu_id rec) reply fin db3 = (Inr result, db')"
    using assms r k e c by (simp add: governed_call_def)
  from finish_call_result[OF this] c k enforce_egress_policy_Inr[OF e] show thesis using that[of db1 db2] by simp
qed

lemma egress_check_of_allowed:
  "egress_check_of run ok = NoCheck \<or> egress_check_of run ok = CheckAllowed \<Longrightarrow> ok"
  by (auto simp: egress_check_of_def split: check_run.split_asm if_split_asm)

lemma governed_chat_result:
  assumes "governed_chat env rq mc client operation child messages max_tokens db = (Inr result, db')"
  obtains l where "chat_egress_allowed env rq (mc_now mc) (mc_before_check mc db)" "fst (mc_reply mc l) = ReplyResult result"
    "lr_provider result = oc_provider client" "lr_model result = oc_model client"
proof -
  obtain l where "complete_chat (ce_crypto env) (oc_provider client, oc_model client) (chat_dimensions env rq client operation)
             (child_idempotency_key (ce_crypto env) (cx_idempotency_key rq) child) (map Some messages) max_tokens
             (\<lambda>l. (egress_check_of (mc_check mc) (chat_egress_allowed env rq (mc_now mc) (mc_before_check mc db)),
                    x_llm (mc_before_check mc (put_llm l db))))
             (mc_reply mc) (mc_now mc) (mc_fin mc) (mc_usage_id mc) (x_llm db) = (Inr result, l)"
    using assms unfolding governed_chat_def by (auto split: prod.split_asm)
  then show thesis unfolding complete_chat_def
    by (rule governed_call_result) (use that egress_check_of_allowed in \<open>auto simp: chat_dimensions_def\<close>)
qed

text \<open>A denied call ends without the provider being asked: its reply does not matter.\<close>

lemma governed_call_denied:
  assumes "\<And>l. fst (chk l) \<noteq> NoCheck" "\<And>l. fst (chk l) \<noteq> CheckAllowed"
  shows "governed_call co client d key est max_out chk f now fin uid db = governed_call co client d key est max_out chk g now fin uid db"
proof (cases "open_call co client d key est max_out now uid db")
  case (Inr out)
  obtain rec db1 where out: "out = (rec, db1)" by (rule prod.exhaust)
  obtain check l where k: "chk db1 = (check, l)" by (cases "chk db1")
  obtain e db2 where "enforce_egress_policy (lu_id rec) check now l = (Inl e, db2)"
  proof (cases "enforce_egress_policy (lu_id rec) check now l")
    case (Pair v db2)
    then show ?thesis using that enforce_egress_policy_Inr[of "lu_id rec" check now l] assms[of db1] k by (cases v) auto
  qed
  then show ?thesis using Inr out k by (simp add: governed_call_def)
qed (simp add: governed_call_def)

lemma governed_chat_denied:
  assumes "\<not> chat_egress_allowed env rq (mc_now mc) (mc_before_check mc db)"
  shows "governed_chat env rq (mc\<lparr>mc_reply := f\<rparr>) client operation child messages max_tokens db =
         governed_chat env rq mc client operation child messages max_tokens db"
proof -
  define chk where "chk = (\<lambda>l. (egress_check_of (mc_check mc) (chat_egress_allowed env rq (mc_now mc) (mc_before_check mc db)),
      x_llm (mc_before_check mc (put_llm l db))))"
  have n: "fst (chk l) \<noteq> NoCheck" "fst (chk l) \<noteq> CheckAllowed" for l
    using assms by (auto simp: chk_def egress_check_of_def split: check_run.split)
  show ?thesis using governed_call_denied[of chk, OF n, where f = f and g = "mc_reply mc"]
    by (simp add: governed_chat_def complete_chat_def chk_def)
qed

section \<open>A generated answer is grounded, reviewed and permitted\<close>

lemma fallback_retrieval:
  "fallback env rq citations strategy reason origin = OpResponse r \<Longrightarrow> cr_mode r = RetrievalMode"
  by (auto simp: fallback_def responds_def retrieval_response_def split: option.split_asm)

lemma after_generation_error_retrieval:
  "after_generation_error env rq citations client e = OpResponse r \<Longrightarrow> cr_mode r = RetrievalMode"
  by (auto simp: after_generation_error_def Let_def dest: fallback_retrieval split: llm_error.split_asm if_split_asm)

lemma review_verdict_stop: "review_verdict ch outcome = Inl (OpResponse r) \<Longrightarrow> False"
  by (auto simp: review_verdict_def split: sum.split_asm llm_error.split_asm if_split_asm)

lemma review_verdict_verified:
  "review_verdict ch outcome = Inr SemanticVerified \<Longrightarrow>
     \<exists>result. outcome = Inr result \<and> parse_review_result ch (lr_content result) = SemanticVerified"
  by (auto simp: review_verdict_def split: sum.split_asm llm_error.split_asm if_split_asm)

lemma review_client_among_independent:
  "review_client_among env acquire rows generator ps = Leased reviewer \<Longrightarrow>
     configured reviewer \<and> (oc_provider reviewer, oc_model reviewer) \<noteq> (oc_provider generator, oc_model generator)"
  by (induction ps) (auto split: lease.split_asm if_split_asm)

lemma review_client_among_provider:
  "review_client_among env acquire rows generator ps = Leased reviewer \<Longrightarrow> oc_provider reviewer \<noteq> oc_provider generator"
proof (induction ps)
  case (Cons p ps)
  show ?case
  proof (cases "p = oc_provider generator")
    case False
    show ?thesis
    proof (cases "lease_client env acquire (Some p) rows")
      case (Leased candidate)
      then have "resolve_provider_client (ce_fernet env) (ce_url env) (ce_settings env) (Some p) rows = Inr candidate"
        by (auto simp: lease_client_def split: sum.split_asm config_error.split_asm acquire_end.split_asm)
      then have "oc_provider candidate = p" by (rule resolve_clientD) simp
      then show ?thesis using Cons False Leased by (auto split: if_split_asm)
    qed (use Cons False in auto)
  qed (use Cons in simp)
qed simp

lemma review_generated_rag:
  assumes "review_generated env w rq citations client result generated referenced db = (OpResponse r, db')" "cr_mode r = RagMode"
  obtains reviewer :: client_config and verdict l where "r = rag_response env rq result generated referenced"
    "oc_provider reviewer \<noteq> oc_provider client" "lr_provider verdict = oc_provider reviewer"
    "chat_egress_allowed env rq (mc_now (cw_review w)) (mc_before_check (cw_review w) db)"
    "fst (mc_reply (cw_review w) l) = ReplyResult verdict" "parse_review_result (ce_chat env) (lr_content verdict) = SemanticVerified"
proof -
  obtain reviewer where l: "resolve_independent_review_client env w client = Leased reviewer"
    using assms by (auto simp: review_generated_def Let_def dest: fallback_retrieval split: lease.split_asm)
  obtain outcome db1 where g: "governed_chat env rq (cw_review w) reviewer ''chat.review'' ''review''
      (review_messages (cx_message rq) generated referenced) 1024 db = (outcome, db1)"
    by (rule prod.exhaust)
  have v: "review_verdict (ce_chat env) outcome = Inr SemanticVerified" and r: "r = rag_response env rq result generated referenced"
    using assms l g
    by (auto simp: review_generated_def Let_def dest: fallback_retrieval review_verdict_stop split: sum.split_asm review_reason.split_asm)
  obtain verdict where o: "outcome = Inr verdict" "parse_review_result (ce_chat env) (lr_content verdict) = SemanticVerified"
    using review_verdict_verified[OF v] by blast
  have "oc_provider reviewer \<noteq> oc_provider client"
    using l unfolding resolve_independent_review_client_def by (rule review_client_among_provider)
  moreover obtain l where "chat_egress_allowed env rq (mc_now (cw_review w)) (mc_before_check (cw_review w) db)"
    "fst (mc_reply (cw_review w) l) = ReplyResult verdict" "lr_provider verdict = oc_provider reviewer"
    using g unfolding o(1) by (rule governed_chat_result)
  ultimately show thesis using that r o(2) by blast
qed

lemma judge_generated_rag:
  assumes "judge_generated env w rq citations client result db = (OpResponse r, db')" "cr_mode r = RagMode"
  obtains generated cited where
    "parse_generated_response (ce_chat env) (lr_content result) citations = Some (Some generated)"
    "referenced_citations (ce_chat env) (ge_answer generated) citations = Some (Inr cited)"
    "review_generated env w rq citations client result generated (all_referenced generated cited citations) db = (OpResponse r, db')"
  using assms by (auto simp: judge_generated_def Let_def dest: fallback_retrieval split: option.split_asm sum.split_asm)

lemma all_referenced_bounds:
  assumes "set cited \<subseteq> set citations"
  shows "set cited \<subseteq> set (all_referenced generated cited citations)" "set (all_referenced generated cited citations) \<subseteq> set citations"
  using assms by (auto simp: all_referenced_def citation_numbers_def)

lemma answer_rag_client:
  assumes "answer_knowledge_query env w rq db = (OpResponse r, db')" "cr_mode r = RagMode"
  obtains ka client where "require_knowledge_base_access (x_kb db) (cx_access rq) (cx_knowledge_base_id rq) READER = Inr ka"
    "kb_external_llm_processing_enabled (ka_knowledge_base ka)"
    "answer_with_generation_client env w rq (as_chat_citations (search_knowledge_entries (ce_text env) (x_kb db)
       (cx_knowledge_base_id rq) (cx_message rq) (cx_limit rq))) client db = (OpResponse r, db')"
proof -
  obtain ka where ka: "require_knowledge_base_access (x_kb db) (cx_access rq) (cx_knowledge_base_id rq) READER = Inr ka"
    using assms by (auto simp: answer_knowledge_query_def split: sum.split_asm)
  have e: "kb_external_llm_processing_enabled (ka_knowledge_base ka)"
    using assms ka
    by (auto simp: answer_knowledge_query_def Let_def no_results_response_def dest: fallback_retrieval split: if_split_asm)
  then obtain client where "answer_with_generation_client env w rq (as_chat_citations (search_knowledge_entries (ce_text env) (x_kb db)
       (cx_knowledge_base_id rq) (cx_message rq) (cx_limit rq))) client db = (OpResponse r, db')"
    using assms ka
    by (auto simp: answer_knowledge_query_def Let_def no_results_response_def closed_with_def dest: fallback_retrieval
        split: if_split_asm lease.split_asm close_end.split_asm)
  then show thesis using that ka e by blast
qed

lemma generation_client_rag:
  assumes "answer_with_generation_client env w rq citations client db = (OpResponse r, db')" "cr_mode r = RagMode"
  obtains result db1 where "governed_chat env rq (cw_answer w) client ''chat.answer'' ''answer''
      (generation_messages (cx_message rq) citations) 2048 db = (Inr result, db1)"
    "judge_generated env w rq citations client result db1 = (OpResponse r, db')"
  using assms
  by (auto simp: answer_with_generation_client_def dest: fallback_retrieval after_generation_error_retrieval
      split: if_split_asm prod.split_asm sum.split_asm)

text \<open>
  What a generated answer has to show: every line of its prose cites listed hits, its table repeats the evidence its rows cite,
  and the list holds only hits of this request's search.
\<close>

definition evidence_bound :: "chat_env \<Rightarrow> chat_citation list \<Rightarrow> chat_response \<Rightarrow> bool" where
  "evidence_bound env hits r \<longleftrightarrow>
     set (cr_citations r) \<subseteq> set hits \<and>
     (\<exists>prose. cr_answer r = with_source_footer (ce_crypto env) prose (cr_citations r) \<and>
        grounded_answer (ce_chat env) prose (cr_citations r)) \<and>
     (case cr_table r of None \<Rightarrow> True | Some t \<Rightarrow>
        grounded_table (ce_chat env) t hits \<and> set (dt_citation_numbers t) \<subseteq> set (citation_numbers (cr_citations r)))"

lemma rag_response_bound:
  assumes p: "parse_generated_response (ce_chat env) content hits = Some (Some generated)"
    and c: "referenced_citations (ce_chat env) (ge_answer generated) hits = Some (Inr cited)"
  shows "evidence_bound env hits (rag_response env rq result generated (all_referenced generated cited hits))"
proof -
  note b = all_referenced_bounds[OF referenced_grounded(2)[OF c], of generated]
  have "grounded_table (ce_chat env) t hits \<and>
      set (dt_citation_numbers t) \<subseteq> set (citation_numbers (all_referenced generated cited hits))"
    if t: "ge_table generated = Some t" for t
  proof -
    note s = screened_table_grounded[OF parsed_response_screened(2)[OF p t]]
    have "set (dt_citation_numbers t) \<subseteq> set (citation_numbers (all_referenced generated cited hits))"
      using s(2) t by (auto simp: all_referenced_def citation_numbers_def)
    with s(1) show ?thesis by blast
  qed
  then show ?thesis
    using b grounded_answer_mono[OF referenced_grounded(1)[OF c] b(1)]
    by (auto simp: evidence_bound_def rag_response_def split: option.split)
qed

text \<open>C10. A generated answer is released only when every safeguard held: the knowledge base consents to external processing, the caller was still authorized for egress at the moment each of the two provider calls was made, every line of the prose cites hits of this request's own search and every table cell is found in the evidence its row cites, and a provider other than the one that wrote the answer returned a passing verdict on it.\<close>

theorem rag_answer_grounded:
  assumes "answer_knowledge_query env w rq db = (OpResponse r, db')" "cr_mode r = RagMode"
  shows "\<exists>ka generator reviewer verdict l db1.
     require_knowledge_base_access (x_kb db) (cx_access rq) (cx_knowledge_base_id rq) READER = Inr ka \<and>
     kb_external_llm_processing_enabled (ka_knowledge_base ka) \<and>
     chat_egress_allowed env rq (mc_now (cw_answer w)) (mc_before_check (cw_answer w) db) \<and>
     chat_egress_allowed env rq (mc_now (cw_review w)) (mc_before_check (cw_review w) db1) \<and>
     evidence_bound env (as_chat_citations (search_knowledge_entries (ce_text env) (x_kb db) (cx_knowledge_base_id rq)
       (cx_message rq) (cx_limit rq))) r \<and>
     cr_provider r = Some generator \<and> reviewer \<noteq> generator \<and> lr_provider verdict = reviewer \<and>
     fst (mc_reply (cw_review w) l) = ReplyResult verdict \<and>
     parse_review_result (ce_chat env) (lr_content verdict) = SemanticVerified"
proof -
  let ?hits = "as_chat_citations (search_knowledge_entries (ce_text env) (x_kb db) (cx_knowledge_base_id rq) (cx_message rq) (cx_limit rq))"
  obtain ka client where ka: "require_knowledge_base_access (x_kb db) (cx_access rq) (cx_knowledge_base_id rq) READER = Inr ka"
    "kb_external_llm_processing_enabled (ka_knowledge_base ka)"
    and a: "answer_with_generation_client env w rq ?hits client db = (OpResponse r, db')"
    using assms by (rule answer_rag_client)
  obtain result db1 where g: "governed_chat env rq (cw_answer w) client ''chat.answer'' ''answer''
      (generation_messages (cx_message rq) ?hits) 2048 db = (Inr result, db1)"
    and j: "judge_generated env w rq ?hits client result db1 = (OpResponse r, db')"
    using a assms(2) by (rule generation_client_rag)
  obtain generated cited where p: "parse_generated_response (ce_chat env) (lr_content result) ?hits = Some (Some generated)"
    and c: "referenced_citations (ce_chat env) (ge_answer generated) ?hits = Some (Inr cited)"
    and v: "review_generated env w rq ?hits client result generated (all_referenced generated cited ?hits) db1 = (OpResponse r, db')"
    using j assms(2) by (rule judge_generated_rag)
  obtain reviewer :: client_config and verdict l where r: "r = rag_response env rq result generated (all_referenced generated cited ?hits)"
    and rev: "oc_provider reviewer \<noteq> oc_provider client" "lr_provider verdict = oc_provider reviewer"
      "chat_egress_allowed env rq (mc_now (cw_review w)) (mc_before_check (cw_review w) db1)"
      "fst (mc_reply (cw_review w) l) = ReplyResult verdict"
      "parse_review_result (ce_chat env) (lr_content verdict) = SemanticVerified"
    using v assms(2) by (rule review_generated_rag)
  have al: "chat_egress_allowed env rq (mc_now (cw_answer w)) (mc_before_check (cw_answer w) db)"
    and lp: "lr_provider result = oc_provider client"
    using g by (auto elim: governed_chat_result)
  have "evidence_bound env ?hits r" unfolding r using p c by (rule rag_response_bound)
  moreover have "cr_provider r = Some (oc_provider client)" using r lp by (simp add: rag_response_def)
  ultimately show ?thesis using ka al rev by blast
qed

section \<open>Nothing leaves without consent\<close>

lemma answer_denied:
  assumes "\<not> chat_egress_allowed env rq (mc_now (cw_answer w)) (mc_before_check (cw_answer w) db)"
  shows "answer_with_generation_client env (w\<lparr>cw_answer := (cw_answer w)\<lparr>mc_reply := f\<rparr>, cw_review := v\<rparr>) rq citations client db =
         answer_with_generation_client env w rq citations client db"
proof (cases "governed_chat env rq (cw_answer w) client ''chat.answer'' ''answer'' (generation_messages (cx_message rq) citations) 2048 db")
  case (Pair outcome db1)
  obtain e where e: "outcome = Inl e"
  proof (cases outcome)
    case (Inr result)
    show ?thesis using governed_chat_result[OF Pair[unfolded Inr]] assms by blast
  qed
  show ?thesis
    using Pair e governed_chat_denied[OF assms, where f = f] by (simp add: answer_with_generation_client_def)
qed

text \<open>C11. Without consent nothing leaves: when the knowledge base does not allow external processing as the request reads it, or the caller is no longer authorized for egress at the moment before the provider would be called, the outcome of the request and every table after it are the same whatever the providers would have replied and whatever the second call would have met.\<close>

theorem no_egress_without_consent:
  assumes "\<forall>ka. require_knowledge_base_access (x_kb db) (cx_access rq) (cx_knowledge_base_id rq) READER = Inr ka \<longrightarrow>
      \<not> kb_external_llm_processing_enabled (ka_knowledge_base ka) \<or>
      \<not> chat_egress_allowed env rq (mc_now (cw_answer w)) (mc_before_check (cw_answer w) db)"
  shows "answer_knowledge_query env (w\<lparr>cw_answer := (cw_answer w)\<lparr>mc_reply := f\<rparr>, cw_review := v\<rparr>) rq db =
         answer_knowledge_query env w rq db"
proof (cases "require_knowledge_base_access (x_kb db) (cx_access rq) (cx_knowledge_base_id rq) READER")
  case (Inr ka)
  consider "\<not> kb_external_llm_processing_enabled (ka_knowledge_base ka)" |
    "\<not> chat_egress_allowed env rq (mc_now (cw_answer w)) (mc_before_check (cw_answer w) db)"
    using assms Inr by blast
  then show ?thesis
  proof cases
    case 1
    then show ?thesis using Inr by (simp add: answer_knowledge_query_def Let_def)
  next
    case 2
    then show ?thesis using Inr answer_denied[OF 2]
      by (cases "lease_client env (cw_acquire w) None (cw_configs w)") (simp_all add: answer_knowledge_query_def Let_def)
  qed
qed (simp add: answer_knowledge_query_def)

section \<open>An answer without a provider\<close>

lemma search_hits_bounds:
  assumes "\<forall>e \<in> set (k_entries db). length (ke_title e) \<le> n"
  shows "length (search_knowledge_entries ops db kid q limit) \<le> limit"
    "\<forall>h \<in> set (search_knowledge_entries ops db kid q limit). length (sh_title h) \<le> n"
  using assms by (auto simp: search_knowledge_entries_def Let_def ranked_entries_def dest!: in_set_takeD)

text \<open>The failures of a generating call that the service answers from the knowledge base itself.\<close>

definition degradable :: "llm_error \<Rightarrow> bool" where
  "degradable e =
     (case e of LlmEgressDenied \<Rightarrow> True | LlmBudgetExceeded _ _ _ _ \<Rightarrow> True | LlmUsagePricingUnavailable \<Rightarrow> True
      | LlmBudgetConfigurationUnavailable \<Rightarrow> True | LlmProviderRaised err \<Rightarrow> pv_metering_outcome err \<noteq> UNKNOWN | _ \<Rightarrow> False)"

lemma fallback_total:
  assumes "numbered citations"
  obtains r where "fallback env rq citations strategy reason origin = OpResponse r" "cr_mode r = RetrievalMode" "cr_citations r = citations"
proof -
  obtain r where "retrieval_response (ce_crypto env) (ce_chat env) (cx_knowledge_base_id rq) citations strategy reason (cx_message rq) origin = Some r"
    "cr_mode r = RetrievalMode" "cr_citations r = citations"
    using assms by (rule retrieval_response_total)
  then show thesis using that by (simp add: fallback_def responds_def)
qed

lemma after_degradable_error:
  assumes "numbered citations" "degradable e"
  obtains r where "after_generation_error env rq citations client e = OpResponse r" "cr_mode r = RetrievalMode" "cr_citations r = citations"
proof -
  obtain reason where "after_generation_error env rq citations client e =
      fallback env rq citations RetrievalFallback reason (Some (oc_provider client, oc_model client))"
    using assms(2) by (auto simp: degradable_def after_generation_error_def Let_def split: llm_error.split_asm)
  then show thesis using fallback_total[OF assms(1)] that by metis
qed

text \<open>C12. A question is answered even when no provider can be used: with access to the knowledge base, a limit within the request schema and titles within their column, a request whose knowledge base withholds consent, whose provider has no usable configuration or key, or whose call is denied, over budget, unpriced or ends in a provider error with a known or no charge still returns a response, in retrieval mode, that cites exactly the hits of the search. The one exception is a client that was leased and whose closing fails or is cancelled when the request leaves its scope: then that failure ends the request.\<close>

theorem chat_answers_without_provider:
  assumes access: "require_knowledge_base_access (x_kb db) (cx_access rq) (cx_knowledge_base_id rq) READER = Inr ka"
    and limit: "cx_limit rq \<le> 20" and titles: "\<forall>e \<in> set (k_entries (x_kb db)). length (ke_title e) \<le> 500"
    and hits: "hits = as_chat_citations (search_knowledge_entries (ce_text env) (x_kb db) (cx_knowledge_base_id rq) (cx_message rq) (cx_limit rq))"
    and unusable: "\<not> kb_external_llm_processing_enabled (ka_knowledge_base ka) \<or> lease_client env (cw_acquire w) None (cw_configs w) = NoClient \<or>
      (\<exists>client. lease_client env (cw_acquire w) None (cw_configs w) = Leased client \<and>
         (\<not> configured client \<or>
          (\<exists>e. fst (governed_chat env rq (cw_answer w) client ''chat.answer'' ''answer'' (generation_messages (cx_message rq) hits) 2048 db) = Inl e \<and>
               degradable e)))"
  shows "(\<exists>r. fst (answer_knowledge_query env w rq db) = OpResponse r \<and> cr_mode r = RetrievalMode \<and> cr_citations r = hits) \<or>
    (\<exists>client. kb_external_llm_processing_enabled (ka_knowledge_base ka) \<and>
       lease_client env (cw_acquire w) None (cw_configs w) = Leased client \<and>
       (cw_close w = CloseRaises \<and> fst (answer_knowledge_query env w rq db) = OpException \<or>
        cw_close w = CloseCancelled \<and> fst (answer_knowledge_query env w rq db) = OpCancelled))"
proof (cases "hits = []")
  case True
  then show ?thesis using access hits by (simp add: answer_knowledge_query_def Let_def no_results_response_def)
next
  case False
  note b = search_hits_bounds[OF titles, of "ce_text env" "cx_knowledge_base_id rq" "cx_message rq" "cx_limit rq"]
  have n: "numbered hits"
    unfolding hits by (rule as_chat_citations_numbered) (use b limit in \<open>fastforce+\<close>)
  note run = answer_knowledge_query_def[of env w rq db, unfolded access sum.case hits[symmetric] Let_def]
  have fb: "\<exists>r. fallback env rq hits strategy reason origin = OpResponse r \<and> cr_mode r = RetrievalMode \<and> cr_citations r = hits" for strategy reason origin
    using fallback_total[OF n] by metis
  consider "\<not> kb_external_llm_processing_enabled (ka_knowledge_base ka)"
    | client where "kb_external_llm_processing_enabled (ka_knowledge_base ka)" "lease_client env (cw_acquire w) None (cw_configs w) = Leased client"
        "cw_close w \<noteq> CloseOk"
    | "kb_external_llm_processing_enabled (ka_knowledge_base ka)" "lease_client env (cw_acquire w) None (cw_configs w) = NoClient"
    | client where "kb_external_llm_processing_enabled (ka_knowledge_base ka)" "lease_client env (cw_acquire w) None (cw_configs w) = Leased client"
        "cw_close w = CloseOk" "\<not> configured client"
    | client e db1 where "kb_external_llm_processing_enabled (ka_knowledge_base ka)" "lease_client env (cw_acquire w) None (cw_configs w) = Leased client"
        "cw_close w = CloseOk" "configured client" "degradable e"
        "governed_chat env rq (cw_answer w) client ''chat.answer'' ''answer'' (generation_messages (cx_message rq) hits) 2048 db = (Inl e, db1)"
    using unusable by (metis prod.collapse)
  then show ?thesis
  proof cases
    case 2
    then show ?thesis using False unfolding run by (cases "cw_close w") (simp_all add: closed_with_def)
  next
    case 5
    obtain r where "after_generation_error env rq hits client e = OpResponse r" "cr_mode r = RetrievalMode" "cr_citations r = hits"
      using after_degradable_error[OF n 5(5)] by metis
    then show ?thesis using 5 False unfolding run by (simp add: answer_with_generation_client_def closed_with_def)
  qed (use False fb in \<open>simp_all add: run answer_with_generation_client_def closed_with_def\<close>)
qed

section \<open>The prompt says what was found\<close>

lemma small_str_length: "n < 100 \<Longrightarrow> length (nat_str n) \<le> 2"
  using less_mult_imp_div_less[of n 10 10] by (simp add: nat_str.simps[of n] nat_str.simps[of "n div 10"])

lemma small_int_short: "0 \<le> i \<Longrightarrow> i < 100 \<Longrightarrow> short_int i"
  using order_trans[OF small_str_length[of "nat i"]] by (simp add: short_int_def max_str_digits_def)

text \<open>C36. The message a model is sent for a question decodes, with the standard JSON reader, to exactly the question and the numbered titles and excerpts that were found, whatever characters they contain: no title, excerpt or question can close its string, add an item to the context or renumber a citation.\<close>

theorem prompt_payload_unambiguous:
  assumes "3 \<le> limit" "length hits \<le> 20"
  shows "py_loads limit (model_user_payload q (as_chat_citations hits)) = Inr (model_user_value q (as_chat_citations hits))"
proof (rule model_user_payload_read[OF assms(1)], rule ballI)
  fix c
  assume "c \<in> set (as_chat_citations hits)"
  then have "cn_number c \<in> set (citation_numbers (as_chat_citations hits))" by (simp add: citation_numbers_def)
  then show "short_int (cn_number c)" unfolding as_chat_citations_numbers using assms(2) by (auto intro!: small_int_short)
qed

section \<open>A concrete request\<close>

definition chat_base :: kb_db where
  "chat_base = kb_demo\<lparr>k_bases := [(hd (k_bases kb_demo))\<lparr>kb_external_llm_processing_enabled := True\<rparr>], k_entries := [demo_entry]\<rparr>"

definition chat_ledger :: llm_db where
  "chat_ledger = \<lparr>g_prices = map (\<lambda>p. \<lparr>mp_provider = p, mp_model = ''m-'' @ p, mp_input_price = 2000000,
        mp_output_price = 6000000, mp_active = True\<rparr>) [''deepseek'', ''qwen''],
     g_policies = [\<lparr>bp_id = 1, bp_name = ''all'', bp_tenant_key = ''t'', bp_user_id = None, bp_api_key_id = None,
        bp_provider = None, bp_model = None, bp_daily_token_limit = Some 100000, bp_monthly_token_limit = None,
        bp_daily_cost_limit_micro_usd = None, bp_monthly_cost_limit_micro_usd = None, bp_enabled = True,
        bp_updated_by = None\<rparr>],
     g_counters = [], g_usage = [], g_holds = []\<rparr>"

definition chat_tables :: keys_db where
  "chat_tables = keys_demo\<lparr>x_kb := chat_base, x_llm := chat_ledger\<rparr>"

definition plain_ops :: chat_ops where
  "plain_ops = \<lparr>ct_digit = (\<lambda>c. if 48 \<le> c \<and> c \<le> 57 then Some (c - 48) else None), ct_alnum = (\<lambda>c. c > 47), ct_casefold = (\<lambda>c. [c]),
     ct_recursion_limit = 1000, ct_str = (\<lambda>v. case v of PStr s \<Rightarrow> Some s | _ \<Rightarrow> None),
     ct_bounded_str = (\<lambda>v. case v of PStr s \<Rightarrow> Some s | _ \<Rightarrow> None), ct_int = (\<lambda>v. case v of PInt i \<Rightarrow> Some i | _ \<Rightarrow> None),
     ct_json = (\<lambda>s. case py_loads 200 s of Inr v \<Rightarrow> Some v | Inl _ \<Rightarrow> None)\<rparr>"

definition chat_env_demo :: chat_env where
  "chat_env_demo = \<lparr>ce_crypto = tiny_crypto, ce_text = ascii_text, ce_chat = plain_ops, ce_fernet = toy_fernet, ce_url = ascii_url,
     ce_settings = gateway_settings\<lparr>ls_api_key := (\<lambda>_. Some (uni ''sk-demo-key''))\<rparr>, ce_tenant_key = ''t''\<rparr>"

definition asked :: unicode where
  "asked = uni ''price''"

definition question :: chat_request where
  "question = \<lparr>cx_access = admin_access, cx_knowledge_base_id = 2, cx_message = asked, cx_limit = 3,
     cx_idempotency_key = ''k'', cx_api_key_id = None, cx_credential_family_id = None\<rparr>"

definition demo_hit :: search_hit where
  "demo_hit = \<lparr>sh_entry_id = 4, sh_source_file_id = None, sh_title = uni ''Price'', sh_excerpt = uni ''a price'', sh_source_path = None,
     sh_format_version = None\<rparr>"

lemma demo_terms: "query_terms ascii_text asked = [asked]"
  by (simp add: asked_def query_terms_def runs.simps ascii_text_def is_cjk_def is_ascii_term_def dedupe_def)

lemma demo_like: "ilike (to_ilike ascii_text) (term_pattern asked) (ke_title demo_entry)"
   "ilike (to_ilike ascii_text) (term_pattern asked) (ke_content demo_entry)"
proof -
  show "ilike (to_ilike ascii_text) (term_pattern asked) (ke_title demo_entry)" unfolding term_pattern_substring
    by (rule exI[of _ "[]"], rule exI[of _ "uni ''Price''"]) (simp add: ascii_text_def asked_def demo_entry_def)
  show "ilike (to_ilike ascii_text) (term_pattern asked) (ke_content demo_entry)" unfolding term_pattern_substring
    by (rule exI[of _ "uni ''a ''"], rule exI[of _ asked]) (simp add: ascii_text_def asked_def demo_entry_def)
qed

lemma demo_relevance: "relevance ascii_text [asked] demo_entry = 12" "entry_matches ascii_text [asked] demo_entry"
  by (simp_all add: relevance_def entry_matches_def demo_like) (simp add: term_weight_def is_cjk_def asked_def)

lemma demo_ranked: "ranked_entries ascii_text chat_base 2 [asked] = [demo_entry]"
proof -
  have "filter (\<lambda>e. ke_knowledge_base_id e = 2 \<and> ke_deleted_at e = None \<and>
          ke_publication_status e = PUBLISHED \<and> entry_matches ascii_text [asked] e) (k_entries chat_base) = [demo_entry]"
    using demo_relevance(2) by (simp add: chat_base_def) (simp add: demo_entry_def)
  then show ?thesis by (simp only: ranked_entries_def) simp
qed

lemma demo_search: "search_knowledge_entries ascii_text chat_base 2 asked 3 = [demo_hit]"
proof -
  have "strip_text ascii_text (pg_excerpt ascii_text [asked] (ke_content demo_entry)) = uni ''a price''"
    by (simp add: pg_excerpt_def ascii_text_def strip_text_def asked_def demo_entry_def)
  then show ?thesis
    by (simp add: search_knowledge_entries_def demo_terms demo_ranked demo_relevance minimum_score_def
        complex_query_minimum_relevance_score_def) (simp add: demo_entry_def demo_hit_def)
qed

lemma utf8_size_code:
  "utf8_size [] = Some 0"
  "utf8_size (c # cs) = (if is_surrogate c then None else map_option (\<lambda>n. n + utf8_char_size c) (utf8_size cs))"
  by (auto simp: utf8_size_def)

lemma utf8_size_append:
  "utf8_size (xs @ ys) = Option.bind (utf8_size xs) (\<lambda>m. map_option (\<lambda>n. m + n) (utf8_size ys))"
  by (auto simp: utf8_size_def)

lemma utf8_size_uni: "list_all (\<lambda>c. of_char c < (128 :: nat)) s \<Longrightarrow> utf8_size (uni s) = Some (int (length s))"
  by (induction s) (auto simp: utf8_size_code utf8_char_size_def is_surrogate_def)


lemma demo_prompts: "utf8_size rag_system_prompt = Some 1323" "utf8_size grounding_review_prompt = Some 755"
  unfolding rag_system_prompt_def grounding_review_prompt_def utf8_size_append
  by (simp_all add: utf8_size_code utf8_char_size_def is_surrogate_def)

definition demo_citations :: "chat_citation list" where
  "demo_citations = as_chat_citations [demo_hit]"

lemma one_str: "nat_str (Suc 0) = ''1''"
  by (simp add: nat_str.simps[of "Suc 0"] hex_digit_def)

lemma demo_citations_eq: "demo_citations = [\<lparr>cn_hit = demo_hit, cn_number = 1, cn_marker = uni ''[1]''\<rparr>]"
  by (simp add: demo_citations_def as_chat_citations_def marker_text_def int_str_def one_str)

definition drafted :: unicode where
  "drafted = uni ''A price [1]''"

definition demo_generated :: generated_response where
  "demo_generated = \<lparr>ge_answer = drafted, ge_table = None\<rparr>"

lemma demo_loads: "py_loads 1000 drafted = Inl JSONDecodeError"
proof -
  have "scan_value (Suc f) d (65 # cs) = Inl JSONDecodeError" for f d cs
    by (simp add: scan_scalar_def scan_constant_def scan_number_def scan_int_def ascii_digit_def)
  from this[of 23] show ?thesis
    by (simp add: drafted_def py_loads_def json_pairs_def byte_order_mark_def skip_space_def is_json_space_def)
qed

lemmas text_eval = strip_def strip_with_def rstrip_def rstrip_with_def lstrip_def uni_isspace_def splitlines_def is_line_break_def

lemma demo_prose: "\<not> has_model_source_block drafted" "claim_lines drafted = [drafted]" "line_numbers plain_ops drafted = Some [1]"
proof -
  show "\<not> has_model_source_block drafted"
    by (simp add: has_model_source_block_def is_model_source_heading_def drafted_def text_eval strip_prefixes.simps
        markdown_prefix_def is_bullet_def ascii_digit_def decoration_or_space_def is_decoration_def heading_with_content_def
        heading_words_def heading_fold_def drop_colons_def removesuffix_def suffix_def)
  show "claim_lines drafted = [drafted]" by (simp add: claim_lines_def drafted_def text_eval)
  show "line_numbers plain_ops drafted = Some [1]"
    by (simp add: line_numbers_def drafted_def find_citations.simps match_citation_def plain_ops_def text_eval citation_int_def max_str_digits_def)
qed

lemma demo_referenced: "referenced_citations plain_ops drafted demo_citations = Some (Inr demo_citations)"
  by (simp add: referenced_citations_def demo_prose) (simp add: demo_citations_eq citation_numbers_def)

lemma demo_parsed: "parse_generated_response plain_ops drafted demo_citations = Some (Some demo_generated)"
proof -
  have "unfenced drafted = drafted" by (simp add: unfenced_def drafted_def text_eval json_fence_def fence_def)
  moreover have "1 \<le> length drafted" "length drafted \<le> 8000" by (simp_all add: drafted_def)
  moreover have "drafted \<noteq> []" by (simp add: drafted_def)
  ultimately show ?thesis
    using demo_loads
    by (simp add: parse_generated_response_def loads_or_text_def validate_generated_def demo_generated_def
      plain_ops_def[THEN arg_cong, of ct_recursion_limit] plain_ops_def[THEN arg_cong, of ct_bounded_str] demo_referenced)
qed

lemma demo_estimates:
  "estimate_input_tokens (map Some (generation_messages asked demo_citations)) = Inr 1487"
  "estimate_input_tokens (map Some (review_messages asked demo_generated demo_citations)) = Inr 964"
proof -
  note eval = context_item_def demo_citations_eq demo_hit_def asked_def quoted_def
      escape_raw_def short_escape_def utf8_size_code utf8_char_size_def is_surrogate_def int_str_def one_str
  have "utf8_size (model_user_payload asked demo_citations) = Some 100"
    by (simp add: model_user_payload_def model_user_value_def eval)
  moreover have "utf8_size (py_dumps escape_raw (review_value asked demo_generated demo_citations)) = Some 145"
    by (simp add: review_value_def demo_generated_def drafted_def eval)
  ultimately show
    "estimate_input_tokens (map Some (generation_messages asked demo_citations)) = Inr 1487"
    "estimate_input_tokens (map Some (review_messages asked demo_generated demo_citations)) = Inr 964"
    by (simp_all add: estimate_input_tokens_def generation_messages_def review_messages_def demo_prompts)
qed

definition verdict_value :: pyjson where
  "verdict_value = PDict [(uni ''verdict'', PStr (uni ''pass'')), (uni ''unsupported_claims'', PList [])]"

definition demo_result :: "string \<Rightarrow> unicode \<Rightarrow> unicode llm_result" where
  "demo_result p content =
     \<lparr>lr_content = content, lr_provider = p, lr_model = ''m-'' @ p, lr_prompt_tokens = Some 4, lr_completion_tokens = Some 6\<rparr>"

definition demo_call :: "timestamp \<Rightarrow> uuid \<Rightarrow> string \<Rightarrow> unicode \<Rightarrow> model_call" where
  "demo_call t uid p content = \<lparr>mc_now = t, mc_fin = t + 1, mc_usage_id = uid, mc_before_check = id, mc_check = CheckCompletes,
     mc_reply = (\<lambda>l. (ReplyResult (demo_result p content), l)), mc_meanwhile = id\<rparr>"

definition chat_world_demo :: chat_world where
  "chat_world_demo = \<lparr>cw_configs = [], cw_acquire = (\<lambda>_. Acquired), cw_answer = demo_call 0 30 ''deepseek'' drafted, cw_review_configs = [],
     cw_review = demo_call 5 31 ''qwen'' (py_dumps escape_raw verdict_value), cw_close = CloseOk\<rparr>"

lemma demo_verdict: "parse_review_result plain_ops (py_dumps escape_raw verdict_value) = SemanticVerified"
proof -
  have l: "py_loads 200 (py_dumps escape_raw verdict_value) = Inr verdict_value"
    by (rule raw_dump.loads_dumps) (simp add: verdict_value_def)
  have "strip (py_dumps escape_raw verdict_value) = py_dumps escape_raw verdict_value"
    "\<not> prefix json_fence (py_dumps escape_raw verdict_value)"
    by (simp_all add: verdict_value_def quoted_def escape_raw_def short_escape_def text_eval json_fence_def fence_def)
  then show ?thesis using l
    by (simp add: parse_review_result_def plain_ops_def[THEN arg_cong, of ct_json]) (simp add: verdict_value_def str_list_def)
qed

definition demo_leased :: "string \<Rightarrow> client_config" where
  "demo_leased p = \<lparr>oc_provider = p, oc_api_key = Some (uni ''sk-demo-key''),
     oc_base_url = controlled_llm_gateway_base_url @ controlled_provider_gateway_path p, oc_model = ''m-'' @ p, oc_max_tokens = 4096\<rparr>"

definition demo_urls_ok :: "string \<Rightarrow> bool" where
  "demo_urls_ok p \<longleftrightarrow> validate_provider_base_url ascii_url p (controlled_provider_base_url p) [] = Some (controlled_provider_base_url p)"

lemma demo_url1: "demo_urls_ok ''deepseek''"
  by (simp add: demo_urls_ok_def validate_provider_base_url_def controlled_provider_base_url_def strip_def strip_with_def rstrip_with_def uni_isspace_def
      urlsplit_def split_scheme_def index_of_def ascii_url_def ascii_alpha_def scheme_char_def partition_at_def checknetloc_def
      url_hostname_def hostinfo_def rpartition_at_def url_port_def has_userinfo_def approved_hosts_def Let_def)

lemma demo_url2: "demo_urls_ok ''qwen''"
  by (simp add: demo_urls_ok_def validate_provider_base_url_def controlled_provider_base_url_def strip_def strip_with_def rstrip_with_def uni_isspace_def
      urlsplit_def split_scheme_def index_of_def ascii_url_def ascii_alpha_def scheme_char_def partition_at_def checknetloc_def
      url_hostname_def hostinfo_def rpartition_at_def url_port_def has_userinfo_def approved_hosts_def Let_def)

lemma demo_leases: "lease_client chat_env_demo (\<lambda>_. Acquired) None [] = Leased (demo_leased ''deepseek'')"
  "lease_client chat_env_demo (\<lambda>_. Acquired) (Some ''qwen'') [] = Leased (demo_leased ''qwen'')"
  using demo_url1 demo_url2
  by (simp_all add: lease_client_def chat_env_demo_def demo_leased_def demo_urls_ok_def find_config_def
      resolve_provider_client_def external_llm_enabled_def gateway_settings_def Let_def value_error_def some_or_def
      stored_key_def environment_key_def runtime_provider_base_url_def validate_provider_runtime_policy_def approved_llm_providers_def
      supported_providers_def py_strip_def py_isspace_def)

lemma demo_reviewer: "resolve_independent_review_client chat_env_demo chat_world_demo (demo_leased ''deepseek'') = Leased (demo_leased ''qwen'')"
  by (simp add: resolve_independent_review_client_def chat_world_demo_def demo_leases) (simp add: demo_leased_def configured_def)

lemma demo_egress: "chat_egress_allowed chat_env_demo question 0 (put_llm l chat_tables)" "chat_egress_allowed chat_env_demo question 5 (put_llm l chat_tables)"
  by code_simp+

definition demo_first :: "unicode llm_result llm_outcome" where
  "demo_first = governed_call tiny_crypto (''deepseek'', ''m-deepseek'') (chat_dimensions chat_env_demo question (demo_leased ''deepseek'') ''chat.answer'')
     (child_idempotency_key tiny_crypto ''k'' ''answer'') (Inr 1487) 2048 (\<lambda>l. (CheckAllowed, l)) (mc_reply (cw_answer chat_world_demo)) 0 1 30 chat_ledger"

definition demo_second :: "unicode llm_result llm_outcome" where
  "demo_second = governed_call tiny_crypto (''qwen'', ''m-qwen'') (chat_dimensions chat_env_demo question (demo_leased ''qwen'') ''chat.review'')
     (child_idempotency_key tiny_crypto ''k'' ''review'') (Inr 964) 1024 (\<lambda>l. (CheckAllowed, l)) (mc_reply (cw_review chat_world_demo)) 5 6 31 (snd demo_first)"

lemma demo_calls: "is_ok (fst demo_first)" "is_ok (fst demo_second)"
  by code_simp+

lemma demo_opened:
  "is_ok (open_call tiny_crypto (''deepseek'', ''m-deepseek'') (chat_dimensions chat_env_demo question (demo_leased ''deepseek'') ''chat.answer'')
     (child_idempotency_key tiny_crypto ''k'' ''answer'') (Inr 1487) 2048 0 30 chat_ledger)"
  "is_ok (open_call tiny_crypto (''qwen'', ''m-qwen'') (chat_dimensions chat_env_demo question (demo_leased ''qwen'') ''chat.review'')
     (child_idempotency_key tiny_crypto ''k'' ''review'') (Inr 964) 1024 5 31 (snd demo_first))"
  by code_simp+

lemma demo_results:
  "fst demo_first = Inr (demo_result ''deepseek'' drafted)"
  "fst demo_second = Inr (demo_result ''qwen'' (py_dumps escape_raw verdict_value))"
proof -
  obtain r where r: "fst demo_first = Inr r" using demo_calls(1) by (auto simp: is_ok_iff)
  then have "governed_call tiny_crypto (''deepseek'', ''m-deepseek'') (chat_dimensions chat_env_demo question (demo_leased ''deepseek'') ''chat.answer'')
     (child_idempotency_key tiny_crypto ''k'' ''answer'') (Inr 1487) 2048 (\<lambda>l. (CheckAllowed, l)) (mc_reply (cw_answer chat_world_demo)) 0 1 30 chat_ledger =
     (Inr r, snd demo_first)" by (simp add: demo_first_def prod_eq_iff)
  then have "r = demo_result ''deepseek'' drafted"
    by (rule governed_call_result) (simp add: chat_world_demo_def demo_call_def)
  then show "fst demo_first = Inr (demo_result ''deepseek'' drafted)" using r by simp
  obtain v where v: "fst demo_second = Inr v" using demo_calls(2) by (auto simp: is_ok_iff)
  then have "governed_call tiny_crypto (''qwen'', ''m-qwen'') (chat_dimensions chat_env_demo question (demo_leased ''qwen'') ''chat.review'')
     (child_idempotency_key tiny_crypto ''k'' ''review'') (Inr 964) 1024 (\<lambda>l. (CheckAllowed, l)) (mc_reply (cw_review chat_world_demo)) 5 6 31 (snd demo_first) =
     (Inr v, snd demo_second)" by (simp add: demo_second_def prod_eq_iff)
  then have "v = demo_result ''qwen'' (py_dumps escape_raw verdict_value)"
    by (rule governed_call_result) (simp add: chat_world_demo_def demo_call_def)
  then show "fst demo_second = Inr (demo_result ''qwen'' (py_dumps escape_raw verdict_value))" using v by simp
qed

lemma demo_env [simp]: "ce_crypto chat_env_demo = tiny_crypto" "ce_text chat_env_demo = ascii_text" "ce_chat chat_env_demo = plain_ops"
  by (simp_all add: chat_env_demo_def)

lemma demo_question [simp]: "cx_message question = asked" "cx_knowledge_base_id question = 2" "cx_limit question = 3"
  "cx_idempotency_key question = ''k''"
  by (simp_all add: question_def)

lemma demo_world [simp]: "cw_acquire chat_world_demo = (\<lambda>_. Acquired)" "cw_configs chat_world_demo = []" "cw_close chat_world_demo = CloseOk"
  "cw_answer chat_world_demo = demo_call 0 30 ''deepseek'' drafted"
  "cw_review chat_world_demo = demo_call 5 31 ''qwen'' (py_dumps escape_raw verdict_value)"
  by (simp_all add: chat_world_demo_def)

lemma demo_governed:
  "governed_chat chat_env_demo question (demo_call 0 30 ''deepseek'' drafted) (demo_leased ''deepseek'') ''chat.answer'' ''answer''
     (generation_messages asked demo_citations) 2048 chat_tables =
   (Inr (demo_result ''deepseek'' drafted), put_llm (snd demo_first) chat_tables)"
  "governed_chat chat_env_demo question (demo_call 5 31 ''qwen'' (py_dumps escape_raw verdict_value)) (demo_leased ''qwen'') ''chat.review'' ''review''
     (review_messages asked demo_generated demo_citations) 1024 (put_llm (snd demo_first) chat_tables) =
   (Inr (demo_result ''qwen'' (py_dumps escape_raw verdict_value)), put_llm (snd demo_second) chat_tables)"
proof -
  have l: "oc_provider (demo_leased p) = p" "oc_model (demo_leased p) = ''m-'' @ p" for p by (simp_all add: demo_leased_def)
  have c: "mc_now (demo_call t u p x) = t" "mc_fin (demo_call t u p x) = t + 1" "mc_usage_id (demo_call t u p x) = u"
    "mc_before_check (demo_call t u p x) = id" "mc_check (demo_call t u p x) = CheckCompletes" "mc_meanwhile (demo_call t u p x) = id" for t u p x
    by (simp_all add: demo_call_def)
  have t: "put_llm chat_ledger chat_tables = chat_tables" "x_llm chat_tables = chat_ledger" "x_llm (put_llm a d) = a" "put_llm a (put_llm b d) = put_llm a d" for a b d
    by (simp_all add: chat_tables_def put_llm_def)
  have a: "egress_check_of CheckCompletes True = CheckAllowed" by (simp add: egress_check_of_def)
  have e: "chat_egress_allowed chat_env_demo question 0 chat_tables" using demo_egress(1)[of chat_ledger] by (simp add: t)
  show "governed_chat chat_env_demo question (demo_call 0 30 ''deepseek'' drafted) (demo_leased ''deepseek'') ''chat.answer'' ''answer''
     (generation_messages asked demo_citations) 2048 chat_tables =
   (Inr (demo_result ''deepseek'' drafted), put_llm (snd demo_first) chat_tables)"
    by (simp add: governed_chat_def complete_chat_def c l t a e demo_estimates split_def demo_results committed_part_def demo_opened demo_first_def[unfolded demo_world, symmetric])
  show "governed_chat chat_env_demo question (demo_call 5 31 ''qwen'' (py_dumps escape_raw verdict_value)) (demo_leased ''qwen'') ''chat.review'' ''review''
     (review_messages asked demo_generated demo_citations) 1024 (put_llm (snd demo_first) chat_tables) =
   (Inr (demo_result ''qwen'' (py_dumps escape_raw verdict_value)), put_llm (snd demo_second) chat_tables)"
    by (simp add: governed_chat_def complete_chat_def c l t a demo_egress(2) demo_estimates split_def demo_results committed_part_def demo_opened demo_second_def[unfolded demo_world, symmetric])
qed

definition demo_rag :: chat_response where
  "demo_rag = rag_response chat_env_demo question (demo_result ''deepseek'' drafted) demo_generated demo_citations"

lemma demo_referenced_all: "all_referenced demo_generated demo_citations demo_citations = demo_citations"
  by (simp add: all_referenced_def demo_citations_eq citation_numbers_def)

lemma demo_access: "is_ok (require_knowledge_base_access (x_kb chat_tables) (cx_access question) 2 READER)"
  "kb_external_llm_processing_enabled (ka_knowledge_base (projr (require_knowledge_base_access (x_kb chat_tables) (cx_access question) 2 READER)))"
  by code_simp+

lemma demo_chat_run:
  "answer_knowledge_query chat_env_demo chat_world_demo question chat_tables = (OpResponse demo_rag, put_llm (snd demo_second) chat_tables)"
proof -
  obtain ka where ka: "require_knowledge_base_access (x_kb chat_tables) (cx_access question) 2 READER = Inr ka"
    "kb_external_llm_processing_enabled (ka_knowledge_base ka)"
    using demo_access by (auto simp: is_ok_iff)
  have cfg: "configured (demo_leased p)" for p by (simp add: configured_def demo_leased_def)
  have ne: "demo_citations \<noteq> []" by (simp add: demo_citations_eq)
  have s: "as_chat_citations (search_knowledge_entries ascii_text (x_kb chat_tables) 2 asked 3) = demo_citations"
    by (simp add: chat_tables_def demo_search demo_citations_def)
  have j: "judge_generated chat_env_demo chat_world_demo question demo_citations (demo_leased ''deepseek'') (demo_result ''deepseek'' drafted)
      (put_llm (snd demo_first) chat_tables) = (OpResponse demo_rag, put_llm (snd demo_second) chat_tables)"
    by (simp add: judge_generated_def Let_def demo_result_def demo_parsed)
       (simp add: demo_generated_def[THEN arg_cong, of ge_answer] demo_referenced demo_referenced_all review_generated_def Let_def demo_reviewer
         demo_governed review_verdict_def demo_verdict demo_rag_def demo_result_def)
  show ?thesis
    by (simp add: answer_knowledge_query_def ka Let_def s ne demo_leases answer_with_generation_client_def cfg demo_governed j closed_with_def)
qed

theorem rag_answer_grounded_witness:
  "cr_mode demo_rag = RagMode \<and> evidence_bound chat_env_demo demo_citations demo_rag \<and>
   chat_egress_allowed chat_env_demo question 0 chat_tables"
proof -
  have m: "cr_mode demo_rag = RagMode" by (simp add: demo_rag_def rag_response_def)
  have s: "as_chat_citations (search_knowledge_entries ascii_text (x_kb chat_tables) 2 asked 3) = demo_citations"
    by (simp add: chat_tables_def demo_search demo_citations_def)
  from rag_answer_grounded[OF demo_chat_run m] m show ?thesis by (auto simp: s demo_call_def)
qed

definition withheld :: keys_db where
  "withheld = chat_tables\<lparr>x_kb := chat_base\<lparr>k_bases := k_bases kb_demo\<rparr>\<rparr>"

lemma withheld_access:
  "is_ok (require_knowledge_base_access (x_kb withheld) (cx_access question) 2 READER)"
  "\<not> kb_external_llm_processing_enabled (ka_knowledge_base (projr (require_knowledge_base_access (x_kb withheld) (cx_access question) 2 READER)))"
  by code_simp+

theorem no_egress_without_consent_witness:
  "answer_knowledge_query chat_env_demo (chat_world_demo\<lparr>cw_answer := (cw_answer chat_world_demo)\<lparr>mc_reply := (\<lambda>l. (ReplyException, l))\<rparr>,
     cw_review := demo_call 9 40 ''qwen'' []\<rparr>) question withheld = answer_knowledge_query chat_env_demo chat_world_demo question withheld"
  using withheld_access(2) by (intro no_egress_without_consent) (auto simp del: demo_world)

text \<open>The provider refuses the generating call before anything is metered.\<close>

definition refused_error :: provider_error where
  "refused_error = \<lparr>pv_code = ''llm_authentication_failed'', pv_retryable = False, pv_metering_outcome = NOT_STARTED,
     pv_prompt_tokens = None, pv_completion_tokens = None\<rparr>"

definition refused_world :: chat_world where
  "refused_world = chat_world_demo\<lparr>cw_answer := (demo_call 0 30 ''deepseek'' drafted)\<lparr>mc_reply := (\<lambda>l. (ReplyProviderError refused_error, l))\<rparr>\<rparr>"

definition refused_call :: "unicode llm_result llm_outcome" where
  "refused_call = governed_call tiny_crypto (''deepseek'', ''m-deepseek'') (chat_dimensions chat_env_demo question (demo_leased ''deepseek'') ''chat.answer'')
     (child_idempotency_key tiny_crypto ''k'' ''answer'') (Inr 1487) 2048 (\<lambda>l. (CheckAllowed, l)) (\<lambda>l. (ReplyProviderError refused_error, l)) 0 1 30 chat_ledger"

lemma refused_call_error: "fst refused_call = Inl (LlmProviderRaised refused_error)"
  by code_simp

lemma refused_governed:
  "fst (governed_chat chat_env_demo question (cw_answer refused_world) (demo_leased ''deepseek'') ''chat.answer'' ''answer''
     (generation_messages asked demo_citations) 2048 chat_tables) = Inl (LlmProviderRaised refused_error)"
proof -
  have l: "oc_provider (demo_leased p) = p" "oc_model (demo_leased p) = ''m-'' @ p" for p by (simp_all add: demo_leased_def)
  have t: "x_llm chat_tables = chat_ledger" "x_llm (put_llm x d) = x" "put_llm chat_ledger chat_tables = chat_tables" for x d
    by (simp_all add: chat_tables_def put_llm_def)
  have e: "chat_egress_allowed chat_env_demo question 0 chat_tables" using demo_egress(1)[of chat_ledger] by (simp add: t)
  show ?thesis using refused_call_error
    by (simp add: governed_chat_def complete_chat_def refused_world_def demo_call_def l t e demo_estimates split_def egress_check_of_def refused_call_def)
qed

theorem chat_answers_without_provider_witness:
  "(\<exists>r. fst (answer_knowledge_query chat_env_demo chat_world_demo question withheld) = OpResponse r \<and> cr_mode r = RetrievalMode) \<and>
   lease_client chat_env_demo (cw_acquire refused_world) None (cw_configs refused_world) = Leased (demo_leased ''deepseek'') \<and>
   (\<exists>r. fst (answer_knowledge_query chat_env_demo refused_world question chat_tables) = OpResponse r \<and> cr_mode r = RetrievalMode \<and>
      cr_citations r = demo_citations)"
proof (intro conjI)
  obtain ka where ka: "require_knowledge_base_access (x_kb withheld) (cx_access question) (cx_knowledge_base_id question) READER = Inr ka"
    "\<not> kb_external_llm_processing_enabled (ka_knowledge_base ka)"
    using withheld_access by (auto simp: is_ok_iff)
  have "\<forall>e \<in> set (k_entries (x_kb withheld)). length (ke_title e) \<le> 500"
    by (simp add: withheld_def chat_base_def demo_entry_def)
  from chat_answers_without_provider[OF ka(1) _ this refl] ka(2)
  show "\<exists>r. fst (answer_knowledge_query chat_env_demo chat_world_demo question withheld) = OpResponse r \<and> cr_mode r = RetrievalMode"
    by fastforce
  show lease: "lease_client chat_env_demo (cw_acquire refused_world) None (cw_configs refused_world) = Leased (demo_leased ''deepseek'')"
    by (simp add: refused_world_def demo_leases)
  obtain kb where kb: "require_knowledge_base_access (x_kb chat_tables) (cx_access question) (cx_knowledge_base_id question) READER = Inr kb"
    using demo_access by (auto simp: is_ok_iff)
  have t: "\<forall>e \<in> set (k_entries (x_kb chat_tables)). length (ke_title e) \<le> 500"
    by (simp add: chat_tables_def chat_base_def demo_entry_def)
  have hits: "demo_citations = as_chat_citations (search_knowledge_entries (ce_text chat_env_demo) (x_kb chat_tables)
      (cx_knowledge_base_id question) (cx_message question) (cx_limit question))"
    by (simp add: chat_tables_def demo_search demo_citations_def)
  have "degradable (LlmProviderRaised refused_error)" by (simp add: degradable_def refused_error_def)
  moreover have "cw_close refused_world = CloseOk" by (simp add: refused_world_def)
  ultimately show "\<exists>r. fst (answer_knowledge_query chat_env_demo refused_world question chat_tables) = OpResponse r \<and>
      cr_mode r = RetrievalMode \<and> cr_citations r = demo_citations"
    using chat_answers_without_provider[OF kb _ t hits, of refused_world] lease refused_governed by simp
qed

theorem prompt_payload_unambiguous_witness:
  "py_loads 1000 (model_user_payload (uni (CHR 0x22 # ''}],'')) (as_chat_citations [demo_hit])) =
   Inr (model_user_value (uni (CHR 0x22 # ''}],'')) (as_chat_citations [demo_hit]))"
  by (rule prompt_payload_unambiguous) simp_all

end
