(* ===== verification/Spec2Isabelle.thy ===== *)
theory Spec2Isabelle
  imports Domain Quota Access_Control Audit_Trail Rate_Limit Auth Json Llm_Usage Knowledge_Bases Api_Keys
    Codec Chat_Authorization Chat_Idempotency Storage Uploads Ingestion Okf_Conversion File_Pipeline File_Runs File_Safety Roles Users
    Capabilities Kb_Admin Admin_Safety Account_Safety Kb_Safety Unicode_Json Py_Text Llm_Settings Chat_Text Chat_Answer Chat_Safety Llm_Provider
begin

text \<open>
  \<^bold>\<open>Verification of the knowledge-base service.\<close>

  The program is a multi-tenant knowledge-base backend (\<open>src/app\<close>): a FastAPI application over
  PostgreSQL, Redis and an S3 object store. Administrators manage users, roles, quotas and budgets;
  users upload files, write and publish knowledge entries and ask questions that are answered by an
  external language model; service accounts use API keys. Its own logic is the policy code: who may do
  what, what it costs, and what survives a crash, a retry or a concurrent request. That is what this
  development models. HTTP parsing, SQL text, the object store and the model provider are reduced to
  the values the code receives from them.

  \<^bold>\<open>How the model is built.\<close> A table is a list of row records (\<open>Models\<close>), a component's state is a
  record of the tables it reads and writes, a raised exception is the \<open>Inl\<close> of a result, and an
  operation is a function from the state before the transaction to the state after it. Every
  operation that takes row locks is one transaction of the model; where the code commits several
  transactions in one request, the operation is split at the commits, and what other requests commit
  in between is an explicit argument or step. An instant is an integer number of microseconds, Python's
  integers are \<open>int\<close>, a column's width is written out where the code depends on it. Random identifiers
  and the clock are arguments. The rules a database enforces (\<open>CHECK\<close>, \<open>UNIQUE\<close>) are boolean
  functions of the row, and the statements that can violate them fail with an integrity error.

  \<^bold>\<open>Code outside the repository\<close> is a parameter. \<open>crypto_ops\<close> (password hashing, token signing,
  SHA-256), \<open>redis_ops\<close> (\<open>INCR\<close>, \<open>EXPIRE\<close>, \<open>TTL\<close>), \<open>replay_ops\<close> (AES-GCM, base64, HMAC), \<open>text_ops\<close>
  (case folding and Unicode classification), the provider's answer and the object store's outcome are
  arguments of the definitions that use them; what a property relies on (a signature verifies what was
  signed, decryption inverts encryption under the same key and additional data, a hash without
  collisions on the inputs at hand) is a hypothesis of that property, and its witness instantiates the
  parameter with a concrete function.

  \<^bold>\<open>Theories and sources.\<close>
  \<^item> \<open>KB_Prelude\<close>: results, tables and the statements issued against them, calendar and byte helpers, and
    the locales \<open>step_system\<close> (steps that keep an invariant), \<open>evolution\<close> (and relate every later state to
    the earlier one) and \<open>row_evolution\<close> (row by row, a sublocale of \<open>evolution\<close>). Each component
    interprets one of them on its own step relation and gets its reachability lemmas from there.
  \<^item> \<open>Models\<close>: \<open>db/models.py\<close>, one record per table, one datatype per enumeration, the table checks.
  \<^item> \<open>Domain\<close>: \<open>domain/access.py\<close>, \<open>quota.py\<close>, \<open>files.py\<close>, \<open>errors.py\<close>. Permission matching; the merge of role
    limits and overrides refines the stated specification; an accepted upload is safe; an upload plan
    covers the file with parts inside the limits of the object store. The division of \<open>plan_upload\<close> is
    the binary64 division the source performs.
  \<^item> \<open>Quota\<close>: \<open>services/quota.py\<close>, \<open>knowledge_entry_quota.py\<close>. In every reachable state a counter's
    reserved amount is the sum of the reservations still held, no reservation exceeds its limit, and an
    upload's reservation is charged at most once. The locale \<open>hold_ledger\<close> states the ledger's contract.
  \<^item> \<open>Access_Control\<close>: \<open>services/access.py\<close>, \<open>rbac_mutation.py\<close>. The permissions and limits of a user are
    exactly those of the roles assigned and not expired.
  \<^item> \<open>Audit_Trail\<close>: \<open>services/audit.py\<close>. Following the cursors of the audit list yields every matching
    event once, in order.
  \<^item> \<open>Rate_Limit\<close>: \<open>services/rate_limit.py\<close>. The fixed window admits exactly the limit; the locale
    \<open>redis_counter\<close> states what is used of Redis.
  \<^item> \<open>Auth\<close>: \<open>core/security.py\<close>, \<open>api/dependencies.py\<close>, \<open>routes/auth.py\<close>. Token families: at most one live
    refresh token, reuse of a rotated token kills the family and the access tokens, logout ends the
    session, refusals of a login are indistinguishable.
  \<^item> \<open>Json\<close>: \<open>json.dumps\<close> as the services use it before hashing; the locale \<open>json_escaping\<close> gives
    injectivity of the canonical text for both escapings in use.
  \<^item> \<open>Llm_Usage\<close>: \<open>services/llm_usage.py\<close> and the metering part of \<open>llm_provider.py\<close>. Budgets are never
    exceeded by a reservation, the reserved amounts are the open holds, an idempotency key buys one call,
    settlement is final. A governed call closes its hold whatever the provider does and whatever other
    transactions (an operator's release of the same usage among them) commit while it waits, except that a
    token count or cost beyond the \<open>BIGINT\<close> columns leaves it held: counters and usage rows are written only
    within that range, otherwise the statement fails. A refused call may leave counters created at zero.
  \<^item> \<open>Knowledge_Bases\<close>: \<open>services/knowledge_bases.py\<close>. Listing and access agree; search returns published
    matches of the knowledge base only, ranked, and a query matches literally.
  \<^item> \<open>Api_Keys\<close>: \<open>services/api_keys.py\<close>, \<open>routes/api_keys.py\<close>, \<open>api/egress_leases.py\<close>. Keys have the
    intersection of their scopes and the owner's access, a revoked or rotated secret never authenticates
    again, nobody creates a key above their own access, and a key stores the knowledge bases that were checked.
  \<^item> \<open>Chat_Authorization\<close>, \<open>Chat_Idempotency\<close>: \<open>services/chat_replay_authorization.py\<close>,
    \<open>services/chat_idempotency.py\<close>. A request key runs its operation at most once within the lifetime of
    its record, a replay returns what the response schema reads from the stored text to a principal that is
    still authorized (the schema is a parameter without laws: it need not give back the answer that was
    stored), an answer returned is durable, and the clean-up drains what it must. A claim whose outcome is
    lost is closed, with other claims, completions and clean-ups in between, within the retention period of
    its row (\<open>claim_kept\<close>, \<open>runs_within\<close>). A write that breaks a constraint of the table fails; that the code
    never issues one is a property of its own.
  \<^item> \<open>Codec\<close>: base64 and hexadecimal as the standard library reads and writes them, with their round trips.
  \<^item> \<open>Storage\<close>: \<open>services/storage_capacity.py\<close> and what \<open>services/storage.py\<close> computes (checksums, signed
    requests, part sizes: the parts of a multipart upload tile the object).
  \<^item> \<open>Uploads\<close>: the upload routes of \<open>routes/files.py\<close> (initiate, part URLs, complete, abort) and
    \<open>cleanup_expired_uploads\<close> of \<open>maintenance.py\<close>. A handler is split at its commits: \<open>initiate_admit\<close> and
    \<open>record_initiated\<close>; \<open>complete_begin\<close> and \<open>complete_commit\<close> or \<open>complete_reject\<close>; \<open>abort_begin\<close> and
    \<open>abort_finish\<close>; \<open>claim_next\<close> and \<open>reconcile_publish\<close> or \<open>reconcile_release\<close>.
  \<^item> \<open>Ingestion\<close>: the malware scan of \<open>maintenance.py\<close>, and approval, download, listing and the conversion
    routes of \<open>routes/files.py\<close>.
  \<^item> \<open>Okf_Conversion\<close>: \<open>services/okf_conversion.py\<close> and the re-check of \<open>llm_egress_policy.py\<close>. A conversion
    runs through the governed executor of \<open>Llm_Usage\<close> or the local compiler.
  \<^item> \<open>File_Pipeline\<close>: one step relation \<open>pipe_step\<close> over all transactions of the three theories above, with
    the requests in flight between two of their commits, and the invariant that ties a session's status to
    its reservations and its file.
  \<^item> \<open>File_Runs\<close>: the whole handlers and workers are runs of \<open>pipe_step\<close> whatever others commit meanwhile;
    reconciliation drains.
  \<^item> \<open>File_Safety\<close>: an upload is charged exactly when it completed, its status only moves forward, only a
    scanned and approved file is downloadable; an example drives one file through the pipeline.
  \<^item> \<open>Roles\<close>, \<open>Users\<close>: \<open>routes/roles.py\<close>, \<open>routes/users.py\<close>, \<open>core/password_policy.py\<close>: every route, with the
    denials that are committed before the error is raised.
  \<^item> \<open>Kb_Admin\<close>: \<open>routes/knowledge_bases.py\<close>: knowledge bases, role grants and manual entries, with the trigger
    that raises the content version.
  \<^item> \<open>Capabilities\<close>: what a user may do as capabilities, and which changes of the tables only pass on those of an
    administrator. \<open>entitled\<close> reads a missing limit as the administration routes do, as zero; \<open>capable\<close> reads the
    limits as the service enforces them (\<open>enforced_limit\<close>): without a \<open>file_count\<close> or \<open>requests_per_minute\<close> limit the
    platform's maximum or default applies.
  \<^item> \<open>Admin_Safety\<close>: \<open>admin_effect\<close> specifies what an administration route may do to the tables; every route
    refines it, the replacement of knowledge-base grants included. Delegation creates no capability, but for limits
    that are missing altogether; role versions exclude lost updates, the assignable roles
    that are listed can be assigned.
  \<^item> \<open>Account_Safety\<close>: runs of administration, sessions and key management. The last superuser survives,
    retirement is final, a new password ends every session.
  \<^item> \<open>Kb_Safety\<close>: the locale \<open>versioned\<close> for optimistic versions, interpreted for the content version and the
    grants of a knowledge base over every route and worker that writes them. A replayed chat answer reflects the
    current content, grants lose no update, drafts are invisible below manager, entries stay within capacity.
  \<^item> \<open>Unicode_Json\<close>, \<open>Py_Text\<close>: Python's \<open>json.dumps\<close> and \<open>json.loads\<close> on code points and the string methods and URL splitting
    the services use. The decoder is written with fuel, and enough of it is proved; the locale \<open>json_writer\<close> gives the round
    trip for both escapings.
  \<^item> \<open>Llm_Settings\<close>: \<open>services/llm_settings.py\<close>, \<open>llm_egress_attestation.py\<close>, \<open>routes/llm.py\<close>, \<open>llm_budgets.py\<close>,
    \<open>llm_usage.py\<close>. A resolved client only points to an approved endpoint, a stored credential is only readable for its provider
    while the encryption key is the same. The adapter of \<open>services/deepseek.py\<close>, which the application does not build, makes no such check.
  \<^item> \<open>Chat_Text\<close>, \<open>Chat_Answer\<close>: \<open>services/chat.py\<close>, \<open>schemas/chat.py\<close>, \<open>routes/chat.py\<close>, \<open>routes/public_api.py\<close>. The
    regular expressions are scans; answering runs through search, provider settings, the governed executor and the
    egress policy of the theories above.
  \<^item> \<open>Chat_Safety\<close>: a generated answer is grounded, reviewed and permitted, nothing leaves without consent, a question is
    answered when no provider can be used (unless closing a leased client fails), prompts cannot be broken out of. An example runs both provider calls.
  \<^item> \<open>Llm_Provider\<close>: \<open>services/llm_provider.py\<close>. The client's exchange, retry and envelope, the bulkhead and the pool of
    transports as step relations. A call returns its outcome and the exchanges it began. Its token counts are
    those the provider reported, an uncharged call was rejected before inference in every exchange, a leased transport stays open, transports are not shared across credentials.

  \<^bold>\<open>Bounds.\<close> Loops of the source that are bounded by a constant keep it (four claim attempts, two
  reconciliation attempts of a lost outcome); the clean-up loop of the chat ledger ends when a batch is
  short and has a termination proof; the workers of the file pipeline are bounded by their batch size as in
  the source. Only the JSON decoder has fuel: twice the length of the text and two, and \<open>py_loads_total\<close> shows that it
  never runs out. Every property that a call produces a result is stated of that result.

  \<^bold>\<open>Not modelled.\<close> Byte-level document parsing (\<open>document_parser.py\<close>), the time limits of clean-ups
  and the pools of several event loops in \<open>llm_provider.py\<close>, the process latch and the deadlines around a chat request
  (\<open>chat_safety.py\<close>, \<open>chat_deadline.py\<close>), the coercions of Pydantic and the Unicode tables (arguments), the ClamAV
  and S3 clients (their answers are arguments: what the store holds, whether
  a call fails, the verdict of a scan), the process around the maintenance batches, cancellation of
  coroutines (\<open>chat_timeout.py\<close>, the polling of \<open>await_terminalization\<close>), settings and start-up
  (\<open>config.py\<close>, \<open>bootstrap.py\<close>), schema migrations, the web client and the operator scripts under
  \<open>scripts/\<close> and \<open>deploy/\<close>, which drive other programs. Lock waits, deadlocks and isolation anomalies of
  the database are not modelled: a transaction is atomic, which is what the row locks of the source are
  for.

  \<^bold>\<open>Plan.\<close> Complete for the policy code of the service; the next candidates are the export of the audit trail and the
  configuration rules of \<open>config.py\<close>.
\<close>

end
